(* ===== verification/Prelude.thy ===== *)
theory Prelude
  imports Main "HOL-Library.Multiset" "HOL-Library.List_Lexorder" "HOL-Library.Char_ord"
begin

text \<open>
  What every theory of the development shares: the collections of rewrite rules, Go's maps as
  association lists, and lemmas on lists that several components use. A Go string is a
  \<^typ>\<open>string\<close>, that is a list of bytes, ordered bytewise as Go's \<open><\<close> on strings is.
\<close>

named_theorems go_defs \<open>definitions of the operator's constants and small accessors\<close>
named_theorems len_simps \<open>lengths of Go strings\<close>

section \<open>Go maps\<close>

text \<open>
  A Go map is an association list of which the first entry of a key counts. The keys a \<open>range\<close>
  visits are sorted before use everywhere in the operator.
\<close>

type_synonym ('k, 'v) gomap = "('k \<times> 'v) list"

type_synonym strmap = "(string, string) gomap"

definition sorted_keys :: "('k::linorder, 'v) gomap \<Rightarrow> 'k list" where
  "sorted_keys m = sort (remdups (map fst m))"

definition map_put :: "'k \<Rightarrow> 'v \<Rightarrow> ('k, 'v) gomap \<Rightarrow> ('k, 'v) gomap" where
  "map_put k v m = (k, v) # filter (\<lambda>p. fst p \<noteq> k) m"

definition gomap_eq :: "('k, 'v) gomap \<Rightarrow> ('k, 'v) gomap \<Rightarrow> bool" where
  "gomap_eq a b = list_all (\<lambda>k. map_of a k = map_of b k) (map fst a @ map fst b)"

lemma set_sorted_keys [simp]: "set (sorted_keys m) = fst ` set m"
  by (simp add: sorted_keys_def)

lemma sorted_sorted_keys [simp]: "sorted (sorted_keys m)"
  by (simp add: sorted_keys_def)

lemma distinct_sorted_keys [simp]: "distinct (sorted_keys m)"
  by (simp add: sorted_keys_def)

lemma sorted_keys_Nil [simp]: "sorted_keys [] = []"
  by (simp add: sorted_keys_def)

lemma map_of_map_put [simp]: "map_of (map_put k v m) x = (if x = k then Some v else map_of m x)"
proof -
  have "x \<noteq> k \<Longrightarrow> map_of (filter (\<lambda>p. fst p \<noteq> k) m) x = map_of m x"
    by (induction m) auto
  then show ?thesis by (auto simp: map_put_def)
qed

lemma keys_map_put [simp]: "fst ` set (map_put k v m) = insert k (fst ` set m)"
  by (force simp: map_put_def)

lemma gomap_eq_iff: "gomap_eq a b \<longleftrightarrow> map_of a = map_of b"
proof
  assume eq: "gomap_eq a b"
  show "map_of a = map_of b"
  proof
    fix k
    show "map_of a k = map_of b k"
    proof (cases "k \<in> fst ` set a \<union> fst ` set b")
      case True
      with eq show ?thesis by (auto simp: gomap_eq_def list_all_iff)
    next
      case False
      then have "map_of a k = None" and "map_of b k = None"
        by (auto simp: map_of_eq_None_iff)
      then show ?thesis by simp
    qed
  qed
qed (simp add: gomap_eq_def list_all_iff)

lemma sorted_keys_cong: "fst ` set a = fst ` set b \<Longrightarrow> sorted_keys a = sorted_keys b"
  by (rule sorted_distinct_set_unique) simp_all

lemma map_of_eq_keys: "map_of a = map_of b \<Longrightarrow> fst ` set a = fst ` set b"
  by (metis dom_map_of_conv_image_fst)

section \<open>Sorted duplicate-free lists\<close>

text \<open>\<open>slices.Sort\<close> followed by \<open>slices.Compact\<close>.\<close>

definition sort_compact :: "'a::linorder list \<Rightarrow> 'a list" where
  "sort_compact xs = remdups_adj (sort xs)"

lemma set_sort_compact [simp]: "set (sort_compact xs) = set xs"
  by (simp add: sort_compact_def)

lemma sorted_sort_compact [simp]: "sorted (sort_compact xs)"
  by (simp add: sort_compact_def)

lemma distinct_remdups_adj_sorted: "sorted xs \<Longrightarrow> distinct (remdups_adj xs)"
  by (induction xs rule: remdups_adj.induct) (auto simp: less_le)

lemma distinct_sort_compact [simp]: "distinct (sort_compact xs)"
  by (simp add: sort_compact_def distinct_remdups_adj_sorted)

lemma sort_compact_cong: "set xs = set ys \<Longrightarrow> sort_compact xs = sort_compact ys"
  by (rule sorted_distinct_set_unique) simp_all

lemma sort_mset_cong: "mset xs = mset ys \<Longrightarrow> sort xs = sort ys"
  by (metis mset_sort properties_for_sort sorted_sort)

section \<open>Lists\<close>

lemma list_all_takeWhile_eq: "list_all P xs \<Longrightarrow> takeWhile P xs = xs"
  by (induction xs) auto

lemma list_all_rev_iff [simp]: "list_all P (rev xs) = list_all P xs"
  by (auto simp: list_all_iff)

lemma set_dropWhile_subset: "set (dropWhile P xs) \<subseteq> set xs"
  by (induction xs) auto

lemma length_dropWhile_rev_le: "length (rev (dropWhile P (rev xs))) \<le> length xs"
  by (metis length_dropWhile_le length_rev)

lemma concat_map_inj:
  assumes "\<And>x y u v. f x @ u = f y @ v \<Longrightarrow> x = y"
    and "\<And>x. f x \<noteq> []"
    and "concat (map f xs) = concat (map f ys)"
  shows "xs = ys"
  using assms(3)
proof (induction xs arbitrary: ys)
  case Nil
  then show ?case using assms(2) by (cases ys) auto
next
  case (Cons x xs)
  then obtain y ys' where ys: "ys = y # ys'"
    using assms(2) by (cases ys) auto
  with Cons.prems have eq: "f x @ concat (map f xs) = f y @ concat (map f ys')" by simp
  then have "x = y" by (rule assms(1))
  with eq have "concat (map f xs) = concat (map f ys')" by simp
  with Cons.IH \<open>x = y\<close> ys show ?case by simp
qed

end
