(* ===== verification/Go_Strings.thy ===== *)
theory Go_Strings
  imports Prelude
begin

text \<open>
  The functions of Go's standard library on strings that the operator calls: \<open>strings\<close>,
  \<open>strconv\<close>, \<open>unicode/utf8\<close>, \<open>path\<close>, \<open>encoding/hex\<close> and the part of \<open>encoding/json\<close> that marshals a
  list of strings. A string is its list of bytes, so lengths are byte lengths as in Go.
  The verb \<open>%q\<close> keeps a well-formed non-ASCII rune as it is (the operator only quotes names, paths
  and other printable values).
\<close>

section \<open>Prefixes, substrings, splitting and joining\<close>

definition hasPrefix :: "string \<Rightarrow> string \<Rightarrow> bool" where
  "hasPrefix s p \<longleftrightarrow> take (length p) s = p"

definition hasSuffix :: "string \<Rightarrow> string \<Rightarrow> bool" where
  "hasSuffix s p \<longleftrightarrow> hasPrefix (rev s) (rev p)"

fun strContains :: "string \<Rightarrow> string \<Rightarrow> bool" where
  "strContains [] sub \<longleftrightarrow> sub = []"
| "strContains (c # s) sub \<longleftrightarrow> hasPrefix (c # s) sub \<or> strContains s sub"

definition containsAny :: "string \<Rightarrow> string \<Rightarrow> bool" where
  "containsAny s cs \<longleftrightarrow> list_ex (\<lambda>c. c \<in> set cs) s"

definition cutPrefix :: "string \<Rightarrow> string \<Rightarrow> string option" where
  "cutPrefix s p = (if hasPrefix s p then Some (drop (length p) s) else None)"

definition trimSuffix :: "string \<Rightarrow> string \<Rightarrow> string" where
  "trimSuffix s p = (if hasSuffix s p then take (length s - length p) s else s)"

definition trimRight :: "string \<Rightarrow> string \<Rightarrow> string" where
  "trimRight s cs = rev (dropWhile (\<lambda>c. c \<in> set cs) (rev s))"

definition trimChars :: "string \<Rightarrow> string \<Rightarrow> string" where
  "trimChars s cs = trimRight (dropWhile (\<lambda>c. c \<in> set cs) s) cs"

fun splitOn :: "char \<Rightarrow> string \<Rightarrow> string list" where
  "splitOn c [] = [[]]"
| "splitOn c (x # xs) =
     (if x = c then [] # splitOn c xs
      else (case splitOn c xs of [] \<Rightarrow> [[x]] | y # ys \<Rightarrow> (x # y) # ys))"

fun joinWith :: "string \<Rightarrow> string list \<Rightarrow> string" where
  "joinWith sep [] = []"
| "joinWith sep [x] = x"
| "joinWith sep (x # y # zs) = x @ sep @ joinWith sep (y # zs)"

definition replaceChar :: "char \<Rightarrow> string \<Rightarrow> string \<Rightarrow> string" where
  "replaceChar c r s = concat (map (\<lambda>x. if x = c then r else [x]) s)"

lemma hasPrefix_iff: "hasPrefix s p \<longleftrightarrow> (\<exists>t. s = p @ t)"
proof
  assume "hasPrefix s p"
  then have "s = p @ drop (length p) s"
    by (metis append_take_drop_id hasPrefix_def)
  then show "\<exists>t. s = p @ t" ..
qed (auto simp: hasPrefix_def)

lemma hasPrefix_append [simp]: "hasPrefix (p @ t) p"
  by (simp add: hasPrefix_def)

lemma hasPrefix_Cons [simp]: "hasPrefix (c # s) (d # p) \<longleftrightarrow> c = d \<and> hasPrefix s p"
  by (auto simp: hasPrefix_def)

lemma hasPrefix_Nil [simp]: "hasPrefix s []" "hasPrefix [] p \<longleftrightarrow> p = []"
  by (auto simp: hasPrefix_def)

lemma cutPrefix_Some: "cutPrefix s p = Some r \<longleftrightarrow> s = p @ r"
  by (auto simp: cutPrefix_def hasPrefix_iff)

lemma cutPrefix_append [simp]: "cutPrefix (p @ r) p = Some r"
  by (simp add: cutPrefix_Some)

lemma strContains_iff: "strContains s sub \<longleftrightarrow> (\<exists>u v. s = u @ sub @ v)"
proof (induction s)
  case Nil
  then show ?case by auto
next
  case (Cons c s)
  show ?case
  proof
    assume "strContains (c # s) sub"
    then consider "hasPrefix (c # s) sub" | "strContains s sub" by auto
    then show "\<exists>u v. c # s = u @ sub @ v"
    proof cases
      case 1
      then show ?thesis by (auto simp: hasPrefix_iff intro: exI [of _ "[]"])
    next
      case 2
      then obtain u v where "s = u @ sub @ v" using Cons.IH by blast
      then have "c # s = (c # u) @ sub @ v" by simp
      then show ?thesis by blast
    qed
  next
    assume "\<exists>u v. c # s = u @ sub @ v"
    then obtain u v where eq: "c # s = u @ sub @ v" by blast
    show "strContains (c # s) sub"
    proof (cases u)
      case Nil
      with eq have "hasPrefix (c # s) sub" by (metis append_Nil hasPrefix_append)
      then show ?thesis by simp
    next
      case (Cons d u')
      with eq have "s = u' @ sub @ v" by simp
      then show ?thesis using Cons.IH by auto
    qed
  qed
qed

lemma strContains_set: "strContains s sub \<Longrightarrow> set sub \<subseteq> set s"
  by (auto simp: strContains_iff)

lemma containsAny_iff: "containsAny s cs \<longleftrightarrow> set s \<inter> set cs \<noteq> {}"
  by (auto simp: containsAny_def list_ex_iff)

lemma splitOn_neq_Nil [simp]: "splitOn c s \<noteq> []"
  by (cases s) (auto split: list.split)

lemma joinWith_Cons: "xs \<noteq> [] \<Longrightarrow> joinWith sep (x # xs) = x @ sep @ joinWith sep xs"
  by (cases xs) auto

lemma join_split [simp]: "joinWith [c] (splitOn c s) = s"
proof (induction s)
  case Nil
  then show ?case by simp
next
  case (Cons x s)
  obtain y ys where sp: "splitOn c s = y # ys"
    by (meson neq_Nil_conv splitOn_neq_Nil)
  show ?case
    using Cons.IH sp by (cases ys) auto
qed

lemma splitOn_no_sep: "y \<in> set (splitOn c s) \<Longrightarrow> c \<notin> set y"
proof (induction s arbitrary: y)
  case (Cons x s)
  then show ?case
    by (auto split: if_splits list.splits)
qed simp

lemma splitOn_plain: "c \<notin> set s \<Longrightarrow> splitOn c s = [s]"
  by (induction s) auto

lemma splitOn_append_sep: "c \<notin> set x \<Longrightarrow> splitOn c (x @ c # s) = x # splitOn c s"
  by (induction x) auto

lemma split_join:
  assumes "xs \<noteq> []" and "\<And>x. x \<in> set xs \<Longrightarrow> c \<notin> set x"
  shows "splitOn c (joinWith [c] xs) = xs"
  using assms
proof (induction xs rule: induct_list012)
  case (3 x y zs)
  then show ?case by (simp add: splitOn_append_sep)
qed (auto simp: splitOn_plain)

lemma joinWith_inj:
  assumes "joinWith [c] xs = joinWith [c] ys" and "xs \<noteq> []" and "ys \<noteq> []"
    and "\<And>x. x \<in> set xs \<Longrightarrow> c \<notin> set x" and "\<And>y. y \<in> set ys \<Longrightarrow> c \<notin> set y"
  shows "xs = ys"
  using assms by (metis split_join)

lemma set_joinWith: "set (joinWith sep xs) \<subseteq> (\<Union>x \<in> set xs. set x) \<union> set sep"
  by (induction sep xs rule: joinWith.induct) auto

lemma set_trimRight: "set (trimRight s cs) \<subseteq> set s"
  using set_dropWhile_subset [of _ "rev s"] by (auto simp: trimRight_def)

lemma set_trimChars: "set (trimChars s cs) \<subseteq> set s"
  using set_trimRight set_dropWhile_subset unfolding trimChars_def by (metis subset_trans)

lemma length_trimRight [len_simps]: "length (trimRight s cs) \<le> length s"
  by (simp add: trimRight_def length_dropWhile_rev_le [simplified])

lemma length_trimChars [len_simps]: "length (trimChars s cs) \<le> length s"
  unfolding trimChars_def by (meson length_dropWhile_le length_trimRight order_trans)

section \<open>Paths\<close>

text \<open>
  \<open>filepath.Join(root, name)\<close> for a rooted first element: the joined path is cleaned, that is empty
  and \<open>.\<close> segments go and \<open>..\<close> takes its parent away.
\<close>

fun clean_segs :: "string list \<Rightarrow> string list \<Rightarrow> string list" where
  "clean_segs acc [] = rev acc"
| "clean_segs acc (s # ss) =
     (if s = [] \<or> s = ''.'' then clean_segs acc ss
      else if s = ''..'' then clean_segs (tl acc) ss
      else clean_segs (s # acc) ss)"

definition cleanRooted :: "string \<Rightarrow> string" where
  "cleanRooted p = ''/'' @ joinWith ''/'' (clean_segs [] (splitOn (CHR ''/'') p))"

definition filepathJoin :: "string \<Rightarrow> string \<Rightarrow> string" where
  "filepathJoin root name = cleanRooted (if name = [] then root else root @ ''/'' @ name)"

end
