(* ===== verification/Go_Text.thy ===== *)
theory Go_Text
  imports Go_Strings
begin

text \<open>
  Text functions of Go's standard library that depend on UTF-8 or on number formats:
  \<open>strings.TrimSpace\<close>, \<open>strings.Fields\<close>, \<open>strings.ToValidUTF8\<close>, \<open>%d\<close>, \<open>%q\<close>, \<open>%08x\<close>,
  \<open>hex.EncodeToString\<close> and \<open>json.Marshal\<close> of a list of strings.
\<close>

section \<open>White space\<close>

text \<open>The UTF-8 forms of the runes \<open>unicode.IsSpace\<close> accepts.\<close>

definition bytes :: "nat list \<Rightarrow> string" where
  "bytes = map char_of"

definition spaceRunes :: "string list" where
  "spaceRunes = map bytes
     ([[9], [10], [11], [12], [13], [32], [0xC2, 0x85], [0xC2, 0xA0], [0xE1, 0x9A, 0x80]]
      @ map (\<lambda>k. [0xE2, 0x80, k]) [0x80..<0x8B]
      @ [[0xE2, 0x80, 0xA8], [0xE2, 0x80, 0xA9], [0xE2, 0x80, 0xAF], [0xE2, 0x81, 0x9F], [0xE3, 0x80, 0x80]])"

definition leadingSpace :: "string \<Rightarrow> nat option" where
  "leadingSpace s = map_option length (find (hasPrefix s) spaceRunes)"

definition trailingSpace :: "string \<Rightarrow> nat option" where
  "trailingSpace s = map_option length (find (hasSuffix s) spaceRunes)"

function trimLeftSpace :: "string \<Rightarrow> string" where
  "trimLeftSpace s =
     (case leadingSpace s of None \<Rightarrow> s
      | Some n \<Rightarrow> if n = 0 \<or> s = [] then s else trimLeftSpace (drop n s))"
  by pat_completeness auto
termination
  by (relation "measure length") auto

function trimRightSpace :: "string \<Rightarrow> string" where
  "trimRightSpace s =
     (case trailingSpace s of None \<Rightarrow> s
      | Some n \<Rightarrow> if n = 0 \<or> s = [] then s else trimRightSpace (take (length s - n) s))"
  by pat_completeness auto
termination
  by (relation "measure length") auto

declare trimLeftSpace.simps [simp del] trimRightSpace.simps [simp del]

definition trimSpace :: "string \<Rightarrow> string" where
  "trimSpace s = trimRightSpace (trimLeftSpace s)"

text \<open>\<open>strings.Fields\<close>: the non-empty runs between white space; \<open>cur\<close> is the current run, reversed.\<close>

function fieldsFrom :: "string \<Rightarrow> string \<Rightarrow> string list" where
  "fieldsFrom cur [] = (if cur = [] then [] else [rev cur])"
| "fieldsFrom cur (c # s) =
     (case leadingSpace (c # s) of
        None \<Rightarrow> fieldsFrom (c # cur) s
      | Some n \<Rightarrow> (if cur = [] then [] else [rev cur]) @ fieldsFrom [] (drop (n - 1) s))"
  by pat_completeness auto
termination
  by (relation "measure (\<lambda>(cur, s). length s)") auto

definition strFields :: "string \<Rightarrow> string list" where
  "strFields s = fieldsFrom [] s"

lemma length_trimLeftSpace [len_simps]: "length (trimLeftSpace s) \<le> length s"
proof (induction s rule: trimLeftSpace.induct)
  case (1 s)
  then show ?case
    by (subst trimLeftSpace.simps) (fastforce split: option.split)
qed

lemma length_trimRightSpace [len_simps]: "length (trimRightSpace s) \<le> length s"
proof (induction s rule: trimRightSpace.induct)
  case (1 s)
  then show ?case
    by (subst trimRightSpace.simps) (fastforce split: option.split)
qed

lemma length_trimSpace [len_simps]: "length (trimSpace s) \<le> length s"
  unfolding trimSpace_def by (meson length_trimLeftSpace length_trimRightSpace order_trans)

lemma set_trimLeftSpace: "set (trimLeftSpace s) \<subseteq> set s"
proof (induction s rule: trimLeftSpace.induct)
  case (1 s)
  then have "set (trimLeftSpace (drop n s)) \<subseteq> set s"
    if "leadingSpace s = Some n" "n \<noteq> 0" "s \<noteq> []" for n
    using that set_drop_subset [of n s] by auto
  then show ?case
    by (subst trimLeftSpace.simps) (auto split: option.split)
qed

lemma set_trimRightSpace: "set (trimRightSpace s) \<subseteq> set s"
proof (induction s rule: trimRightSpace.induct)
  case (1 s)
  then have "set (trimRightSpace (take (length s - n) s)) \<subseteq> set s"
    if "trailingSpace s = Some n" "n \<noteq> 0" "s \<noteq> []" for n
    using that set_take_subset [of "length s - n" s] by auto
  then show ?case
    by (subst trimRightSpace.simps) (auto split: option.split)
qed

lemma set_trimSpace: "set (trimSpace s) \<subseteq> set s"
  unfolding trimSpace_def using set_trimLeftSpace set_trimRightSpace by blast

text \<open>A string whose first and last byte are printable ASCII is left alone.\<close>

definition graphic :: "char \<Rightarrow> bool" where
  "graphic c \<longleftrightarrow> 33 \<le> (of_char c :: nat) \<and> (of_char c :: nat) < 127"

lemma spaceRunes_ends:
  "r \<in> set spaceRunes \<Longrightarrow> r \<noteq> [] \<and> \<not> graphic (hd r) \<and> \<not> graphic (last r)"
proof -
  have "list_all (\<lambda>r. r \<noteq> [] \<and> \<not> graphic (hd r) \<and> \<not> graphic (last r)) spaceRunes"
    by code_simp
  then show "r \<in> set spaceRunes \<Longrightarrow> ?thesis" by (simp add: list_all_iff)
qed

lemma hasSuffix_last: "hasSuffix (s @ [c]) r \<Longrightarrow> r \<noteq> [] \<Longrightarrow> last r = c"
  by (cases r rule: rev_cases) (auto simp: hasSuffix_def)

lemma leadingSpace_graphic: "graphic c \<Longrightarrow> leadingSpace (c # s) = None"
  by (auto simp: leadingSpace_def find_None_iff neq_Nil_conv dest!: spaceRunes_ends)

lemma trailingSpace_graphic: "graphic c \<Longrightarrow> trailingSpace (s @ [c]) = None"
  by (auto simp: trailingSpace_def find_None_iff dest!: spaceRunes_ends dest: hasSuffix_last)

lemma trimSpace_graphic:
  assumes "s \<noteq> []" and "list_all graphic s"
  shows "trimSpace s = s"
proof -
  obtain c t where s: "s = c # t" using assms(1) by (cases s) auto
  obtain u d where s': "s = u @ [d]" using assms(1) by (cases s rule: rev_cases) auto
  have "trimLeftSpace s = s"
    using assms(2) s by (subst trimLeftSpace.simps) (simp add: leadingSpace_graphic)
  moreover have "trimRightSpace s = s"
    using assms(2) s' by (subst trimRightSpace.simps) (simp add: trailingSpace_graphic)
  ultimately show ?thesis by (simp add: trimSpace_def)
qed

section \<open>Numbers\<close>

definition digitChar :: "nat \<Rightarrow> char" where
  "digitChar n = (if n < 10 then char_of (48 + n) else char_of (87 + n))"

fun natDec :: "nat \<Rightarrow> string" where
  "natDec n = (if n < 10 then [digitChar n] else natDec (n div 10) @ [digitChar (n mod 10)])"

declare natDec.simps [simp del]

definition intDec :: "int \<Rightarrow> string" where
  "intDec i = (if i < 0 then ''-'' @ natDec (nat (- i)) else natDec (nat i))"

definition hexByte :: "char \<Rightarrow> string" where
  "hexByte c = (let b = (of_char c :: nat) in [digitChar (b div 16), digitChar (b mod 16)])"

definition hexEncode :: "string \<Rightarrow> string" where
  "hexEncode s = concat (map hexByte s)"

definition isHexDigit :: "char \<Rightarrow> bool" where
  "isHexDigit c \<longleftrightarrow> c \<in> set ''0123456789abcdef''"

lemma digitChar_of_char: "n < 16 \<Longrightarrow> (of_char (digitChar n) :: nat) = (if n < 10 then 48 + n else 87 + n)"
  by (auto simp: digitChar_def)

lemma digitChar_inj: "m < 16 \<Longrightarrow> n < 16 \<Longrightarrow> digitChar m = digitChar n \<Longrightarrow> m = n"
  by (drule arg_cong [of _ _ "of_char :: char \<Rightarrow> nat"]) (auto simp: digitChar_of_char split: if_splits)

lemma digitChar_table:
  "list_all (\<lambda>n. isHexDigit (digitChar n)) [0..<16]"
  "list_all (\<lambda>n. digitChar n \<in> set ''0123456789'') [0..<10]"
  by code_simp+

lemma isHexDigit_digitChar: "n < 16 \<Longrightarrow> isHexDigit (digitChar n)"
  using digitChar_table(1) by (simp add: list_all_iff del: upt.simps)

lemma digitChar_decimal: "n < 10 \<Longrightarrow> digitChar n \<in> set ''0123456789''"
  using digitChar_table(2) by (simp add: list_all_iff del: upt.simps set_simps)

lemma length_hexEncode [simp]: "length (hexEncode s) = 2 * length s"
  by (induction s) (auto simp: hexEncode_def hexByte_def Let_def)

lemma of_char_less_256: "(of_char c :: nat) < 256"
  by (cases c) (simp add: of_char_def horner_sum_simps)

lemma list_all_hexEncode: "list_all isHexDigit (hexEncode s)"
proof (induction s)
  case (Cons c s)
  have "(of_char c :: nat) div 16 < 16"
    using of_char_less_256 [of c] by (simp add: less_mult_imp_div_less)
  with Cons show ?case
    by (simp add: hexEncode_def hexByte_def Let_def isHexDigit_digitChar)
qed (simp add: hexEncode_def)

lemma hexByte_inj:
  assumes "hexByte x @ u = hexByte y @ v"
  shows "x = y"
proof -
  let ?x = "of_char x :: nat" and ?y = "of_char y :: nat"
  have b: "?x div 16 < 16" "?y div 16 < 16"
    using of_char_less_256 [of x] of_char_less_256 [of y] by (simp_all add: less_mult_imp_div_less)
  from assms have "digitChar (?x div 16) = digitChar (?y div 16)"
    and "digitChar (?x mod 16) = digitChar (?y mod 16)"
    by (simp_all add: hexByte_def Let_def)
  with b have "?x div 16 = ?y div 16" and "?x mod 16 = ?y mod 16"
    by (auto intro: digitChar_inj)
  then have "?x = ?y" by (metis div_mult_mod_eq)
  then show ?thesis by simp
qed

lemma hexEncode_inj: "hexEncode a = hexEncode b \<Longrightarrow> a = b"
  unfolding hexEncode_def
  by (erule concat_map_inj [rotated 2], erule hexByte_inj) (simp add: hexByte_def Let_def)

lemma natDec_neq_Nil [simp]: "natDec n \<noteq> []"
  by (subst natDec.simps) simp

lemma natDec_digits: "list_all (\<lambda>c. c \<in> set ''0123456789'') (natDec n)"
proof (induction n rule: natDec.induct)
  case (1 n)
  show ?case
    using 1 by (subst natDec.simps) (simp del: set_simps add: digitChar_decimal)
qed

end
