(* ===== verification/Kube_Types.thy ===== *)
theory Kube_Types
  imports Go_Text
begin

text \<open>
  The Kubernetes objects the operator reads and writes, field for field as far as the operator
  touches them, and the errors of the API server. Optional pointers are \<open>option\<close> values, Go maps
  are association lists, times and durations are nanoseconds as \<open>int\<close>, and resource quantities are
  kept as the text they are written with. \<open>lastTransitionTime\<close> of a condition is left out: the
  operator never reads or sets it (\<open>meta.SetStatusCondition\<close> of apimachinery does).
\<close>

section \<open>Errors\<close>

datatype api_reason = NotFound | AlreadyExists | Conflict | InvalidObject | OtherReason

text \<open>
  \<open>WrapError prefix e\<close> is \<open>fmt.Errorf(prefix + "%w", e)\<close>; \<open>TagError\<close> is \<open>reasonError\<close> of
  \<open>conditions.go\<close>. The predicates of apimachinery unwrap an error chain.
\<close>

datatype goerr =
  ApiError api_reason string
| PlainError string
| WrapError string goerr
| TagError string goerr

fun errText :: "goerr \<Rightarrow> string" where
  "errText (ApiError _ m) = m"
| "errText (PlainError m) = m"
| "errText (WrapError p e) = p @ errText e"
| "errText (TagError _ e) = errText e"

fun errReason :: "goerr \<Rightarrow> api_reason option" where
  "errReason (ApiError r _) = Some r"
| "errReason (PlainError _) = None"
| "errReason (WrapError _ e) = errReason e"
| "errReason (TagError _ e) = errReason e"

definition isNotFound :: "goerr \<Rightarrow> bool" where
  [go_defs]: "isNotFound e \<longleftrightarrow> errReason e = Some NotFound"

definition isAlreadyExists :: "goerr \<Rightarrow> bool" where
  [go_defs]: "isAlreadyExists e \<longleftrightarrow> errReason e = Some AlreadyExists"

definition isApiConflict :: "goerr \<Rightarrow> bool" where
  [go_defs]: "isApiConflict e \<longleftrightarrow> errReason e = Some Conflict"

definition isInvalid :: "goerr \<Rightarrow> bool" where
  [go_defs]: "isInvalid e \<longleftrightarrow> errReason e = Some InvalidObject"

definition ignoreNotFound :: "goerr option \<Rightarrow> goerr option" where
  [go_defs]: "ignoreNotFound err = (case err of Some e \<Rightarrow> if isNotFound e then None else Some e | None \<Rightarrow> None)"

section \<open>Times\<close>

abbreviation second :: int where "second \<equiv> 1000000000"
abbreviation minute :: int where "minute \<equiv> 60000000000"

text \<open>\<open>time.Time.Sub\<close> saturates at the bounds of \<open>time.Duration\<close>; arithmetic on durations wraps.\<close>

definition timeSub :: "int \<Rightarrow> int \<Rightarrow> int" where
  "timeSub a b = max (- (2 ^ 63)) (min (2 ^ 63 - 1) (a - b))"

definition wrap64 :: "int \<Rightarrow> int" where
  "wrap64 d = (d + 2 ^ 63) mod 2 ^ 64 - 2 ^ 63"

lemma wrap64_id: "- (2 ^ 63) \<le> d \<Longrightarrow> d < 2 ^ 63 \<Longrightarrow> wrap64 d = d"
  by (simp add: wrap64_def)

section \<open>Metadata\<close>

record owner_ref =
  ownerUID :: string
  ownerController :: bool

record objmeta =
  metaName :: string
  metaNamespace :: string
  metaUID :: string
  metaGeneration :: int
  metaCreated :: int
  metaDeleted :: "int option"
  metaFinalizers :: "string list"
  metaLabels :: strmap
  metaAnnotations :: strmap
  metaOwners :: "owner_ref list"

definition newMeta :: "string \<Rightarrow> string \<Rightarrow> objmeta" where
  "newMeta name ns = \<lparr>metaName = name, metaNamespace = ns, metaUID = '''', metaGeneration = 0,
     metaCreated = 0, metaDeleted = None, metaFinalizers = [], metaLabels = [], metaAnnotations = [],
     metaOwners = []\<rparr>"

text \<open>Reading a missing key of a Go string map gives the empty string.\<close>

definition mapGet :: "strmap \<Rightarrow> string \<Rightarrow> string" where
  "mapGet m k = (case map_of m k of Some v \<Rightarrow> v | None \<Rightarrow> '''')"

record condition =
  condType :: string
  condStatus :: string
  condReason :: string
  condMessage :: string
  condGeneration :: int

section \<open>Pods\<close>

datatype env_source = EnvValue string | EnvSecretKey string string "bool option"

type_synonym env_var = "string \<times> env_source"

record volume_mount =
  mountName :: string
  mountPath :: string
  mountSubPath :: string
  mountReadOnly :: bool

datatype volume_source =
  PvcVolume string bool
| ConfigMapVolume string "int option"
| SecretVolume string "int option"
| EmptyDirVolume string "string option"

type_synonym volume = "string \<times> volume_source"

record resources =
  resRequests :: "strmap option"
  resLimits :: "strmap option"

record container_security =
  allowPrivilegeEscalation :: "bool option"
  readOnlyRootFilesystem :: "bool option"
  ctrRunAsNonRoot :: "bool option"
  capsDropped :: "string list"

record pod_security =
  runAsNonRoot :: "bool option"
  runAsUser :: "int option"
  runAsGroup :: "int option"
  fsGroup :: "int option"
  seccompProfile :: string

record probe =
  probePath :: string
  probePort :: int
  probeScheme :: string
  probePeriod :: int
  probeTimeout :: int
  probeSuccess :: int
  probeFailure :: int

record container =
  ctrName :: string
  ctrImage :: string
  ctrCommand :: "string list"
  ctrArgs :: "string list"
  ctrEnv :: "env_var list"
  ctrResources :: resources
  ctrMounts :: "volume_mount list"
  ctrSecurity :: "container_security option"
  ctrPorts :: "(string \<times> int) list"
  ctrProbes :: "(probe \<times> probe \<times> probe) option"
  ctrTerminationPath :: string
  ctrTerminationPolicy :: string

text \<open>A required pod affinity term: the labels to match and the topology key.\<close>

type_synonym affinity = "strmap \<times> string"

record pod_spec =
  podRestartPolicy :: string
  podAutomountToken :: "bool option"
  podSecurity :: pod_security
  podInitContainers :: "container list"
  podContainers :: "container list"
  podVolumes :: "volume list"
  podNodeSelector :: strmap
  podAffinity :: "affinity option"
  podTerminationGrace :: "int option"
  podDNSPolicy :: string
  podScheduler :: string

record pod_template =
  templLabels :: strmap
  templAnnotations :: strmap
  templSpec :: pod_spec

record pod =
  podMeta :: objmeta
  podPhase :: string
  podNodeName :: string

section \<open>Workloads\<close>

record job_condition =
  jcType :: string
  jcStatus :: string
  jcReason :: string
  jcMessage :: string

record job_spec =
  jobBackoffLimit :: "int option"
  jobDeadline :: "int option"
  jobTTL :: "int option"
  jobTemplate :: pod_template

record job =
  jobMeta :: objmeta
  jobSpec :: job_spec
  jobSucceeded :: int
  jobFailed :: int
  jobConditions :: "job_condition list"
  jobCompletion :: "int option"

record cronjob_spec =
  cronSchedule :: string
  cronStartingDeadline :: "int option"
  cronConcurrency :: string
  cronSuspend :: "bool option"
  cronSuccessHistory :: "int option"
  cronFailedHistory :: "int option"
  cronTemplateLabels :: strmap
  cronJobSpec :: job_spec

record cronjob =
  cronMeta :: objmeta
  cronSpec :: cronjob_spec
  cronLastSchedule :: "int option"
  cronLastSuccess :: "int option"

datatype strategy = Recreate | RollingUpdate int int

record deployment =
  depMeta :: objmeta
  depReplicas :: "int option"
  depSelector :: strmap
  depStrategy :: strategy
  depTemplate :: pod_template
  depStatusReplicas :: int
  depReadyReplicas :: int

section \<open>Other objects\<close>

record pvc =
  pvcMeta :: objmeta
  pvcAccessModes :: "string list"
  pvcRequest :: string
  pvcStorageClass :: "string option"
  pvcPhase :: string

record pdb =
  pdbMeta :: objmeta
  pdbMinAvailable :: "int option"
  pdbMaxUnavailable :: "int option"
  pdbSelector :: strmap

record service =
  svcMeta :: objmeta
  svcType :: string
  svcSelector :: strmap
  svcPorts :: "(string \<times> int \<times> int \<times> string) list"

record configmap =
  cmMeta :: objmeta
  cmData :: strmap

record secret =
  secretMeta :: objmeta
  secretData :: strmap

end
