(* ===== verification/Api_Types.thy ===== *)
theory Api_Types
  imports Kube_Types
begin

text \<open>
  The four custom resources of \<open>api/v1\<close> and the stable identifiers their statuses carry: phases,
  condition types and reasons. A nil and an empty slice are the same list here; no code under
  \<open>api/\<close> or \<open>internal/\<close> distinguishes them in these fields.
\<close>

section \<open>Condition types and reasons (conditions.go)\<close>

abbreviation (input) "ConditionTypeReady \<equiv> ''Ready''"
abbreviation (input) "ConditionTypeProgressing \<equiv> ''Progressing''"
abbreviation (input) "ConditionTypeDegraded \<equiv> ''Degraded''"
abbreviation (input) "ConditionTypeSucceeded \<equiv> ''Succeeded''"
abbreviation (input) "ConditionTypeCronReady \<equiv> ''CronReady''"

abbreviation (input) "ReasonAllReplicasReady \<equiv> ''AllReplicasReady''"
abbreviation (input) "ReasonDeploymentNotReady \<equiv> ''DeploymentNotReady''"
abbreviation (input) "ReasonReconciling \<equiv> ''Reconciling''"
abbreviation (input) "ReasonReconciled \<equiv> ''Reconciled''"
abbreviation (input) "ReasonAsExpected \<equiv> ''AsExpected''"
abbreviation (input) "ReasonReconcileError \<equiv> ''ReconcileError''"
abbreviation (input) "ReasonUpgrading \<equiv> ''Upgrading''"
abbreviation (input) "ReasonUpgradeFailed \<equiv> ''UpgradeFailed''"
abbreviation (input) "ReasonMissingSecret \<equiv> ''MissingSecret''"
abbreviation (input) "ReasonInvalidConfig \<equiv> ''InvalidConfig''"
abbreviation (input) "ReasonInitializing \<equiv> ''Initializing''"
abbreviation (input) "ReasonInitializationFailed \<equiv> ''InitializationFailed''"
abbreviation (input) "ReasonCronRunning \<equiv> ''CronRunning''"
abbreviation (input) "ReasonCronNotReady \<equiv> ''CronNotReady''"
abbreviation (input) "ReasonCronPending \<equiv> ''CronPending''"
abbreviation (input) "ReasonSynced \<equiv> ''Synced''"
abbreviation (input) "ReasonSyncing \<equiv> ''Syncing''"
abbreviation (input) "ReasonPending \<equiv> ''Pending''"
abbreviation (input) "ReasonInstanceNotFound \<equiv> ''InstanceNotFound''"
abbreviation (input) "ReasonVolumeNotBound \<equiv> ''VolumeNotBound''"
abbreviation (input) "ReasonSyncFailed \<equiv> ''SyncFailed''"
abbreviation (input) "ReasonInvalidSpec \<equiv> ''InvalidSpec''"
abbreviation (input) "ReasonModuleConflict \<equiv> ''ModuleConflict''"
abbreviation (input) "ReasonJobConflict \<equiv> ''JobConflict''"
abbreviation (input) "ReasonRunning \<equiv> ''Running''"
abbreviation (input) "ReasonComplete \<equiv> ''Complete''"
abbreviation (input) "ReasonJobFailed \<equiv> ''JobFailed''"
abbreviation (input) "ReasonScheduled \<equiv> ''Scheduled''"
abbreviation (input) "ReasonCronJobRejected \<equiv> ''CronJobRejected''"

section \<open>Shared references\<close>

record instance_ref =
  refName :: string
  refNamespace :: string

section \<open>OdooAddon (odooaddon_types.go)\<close>

text \<open>\<open>GitSecretRef\<close> is the referenced name, or None for a nil pointer.\<close>

record addon_spec =
  GitUrl :: string
  GitRef :: string
  GitSecretRef :: "string option"
  AddonPath :: string
  SingleAddon :: bool
  ModuleName :: string
  addonInstanceRef :: instance_ref
  addonReadOnly :: bool

record addon_status =
  addonReady :: bool
  addonPhase :: string
  ClonedCommit :: string
  LastSyncTime :: "int option"
  addonStatusModules :: "string list"
  addonMessage :: string
  addonConds :: "condition list"

record addon =
  addonMeta :: objmeta
  addonSpec :: addon_spec
  addonStatus :: addon_status

section \<open>OdooUpgrade (odooupgrade_types.go)\<close>

abbreviation (input) "UpgradePhasePending \<equiv> ''Pending''"
abbreviation (input) "UpgradePhaseRunning \<equiv> ''Running''"
abbreviation (input) "UpgradePhaseSucceeded \<equiv> ''Succeeded''"
abbreviation (input) "UpgradePhaseFailed \<equiv> ''Failed''"

record upgrade_spec =
  upInstanceRef :: instance_ref
  upModules :: "string list"
  upInstallModules :: "string list"
  upDatabase :: string
  upTimeoutSeconds :: "int option"
  upWithDemo :: bool
  upAdminUserPasswordSecret :: string

record upgrade_status =
  upPhase :: string
  upJobName :: string
  upMessage :: string
  upStartTime :: "int option"
  upCompletionTime :: "int option"
  upObservedGeneration :: int
  upConds :: "condition list"

record upgrade =
  upMeta :: objmeta
  upSpec :: upgrade_spec
  upStatus :: upgrade_status

section \<open>OdooBackup (odoobackup_types.go)\<close>

abbreviation (input) "BackupPhasePending \<equiv> ''Pending''"
abbreviation (input) "BackupPhaseRunning \<equiv> ''Running''"
abbreviation (input) "BackupPhaseSucceeded \<equiv> ''Succeeded''"
abbreviation (input) "BackupPhaseFailed \<equiv> ''Failed''"
abbreviation (input) "BackupPhaseScheduled \<equiv> ''Scheduled''"

record backup_pvc =
  ClaimName :: string
  SubPath :: string

record backup_s3 =
  Bucket :: string
  Prefix :: string
  Endpoint :: string
  Region :: string
  CredentialsSecret :: string
  ForcePathStyle :: bool

record backup_destination =
  destPVC :: "backup_pvc option"
  destS3 :: "backup_s3 option"

record backup_spec =
  bkInstanceRef :: instance_ref
  bkDatabase :: string
  bkIncludeFilestore :: "bool option"
  bkDestination :: backup_destination
  bkRetention :: "int option"
  bkScratchSize :: string
  bkTimeoutSeconds :: "int option"
  bkSchedule :: string
  bkSuspend :: bool

record backup_status =
  bkPhase :: string
  bkJobName :: string
  bkCronJobName :: string
  bkStartTime :: "int option"
  bkCompletionTime :: "int option"
  bkLastScheduleTime :: "int option"
  bkLastSuccessfulTime :: "int option"
  bkLastBackup :: string
  bkMessage :: string
  bkObservedGeneration :: int
  bkConds :: "condition list"

record backup =
  bkMeta :: objmeta
  bkSpec :: backup_spec
  bkStatus :: backup_status

section \<open>OdooInstance (odooinstance_types.go)\<close>

record cron_spec =
  cronOn :: bool
  MaxCronThreads :: "int option"
  cronRes :: "resources option"

record initialize_spec =
  initModules :: "string list"
  initWithDemo :: bool
  initAdminUserPasswordSecret :: string
  initTimeoutSeconds :: "int option"

record instance_upgrade_spec =
  iuModules :: "string list"
  iuTimeoutSeconds :: "int option"

record addon_volume_spec =
  avStorageClass :: "string option"
  avSize :: string
  avAccessMode :: string

record data_volume_spec =
  dvStorageClass :: "string option"
  dvSize :: string
  dvAccessMode :: string
  dvRetainOnDelete :: "bool option"

record postgres_spec =
  pgHost :: string
  pgPort :: int
  pgDatabase :: string
  pgUser :: string
  pgPasswordSecret :: string

record instance_spec =
  instImage :: string
  instReplicas :: int
  instVersion :: string
  instEdition :: string
  instAddons :: addon_volume_spec
  instData :: data_volume_spec
  instPostgres :: postgres_spec
  instConfig :: strmap
  instResources :: resources
  AdminPasswordSecret :: string
  instUpgrade :: "instance_upgrade_spec option"
  instInitialize :: "initialize_spec option"
  instCron :: "cron_spec option"

record instance_status =
  instReady :: bool
  instPhase :: string
  AddonPaths :: "string list"
  instObservedGeneration :: int
  instConds :: "condition list"
  instMessage :: string
  Initialized :: bool
  InitUpgrade :: string
  AppliedAddonsHash :: string
  ActiveUpgrade :: string

record odoo_instance =
  instMeta :: objmeta
  instSpec :: instance_spec
  instStatus :: instance_status

section \<open>Zero values\<close>

text \<open>The zero values of Go, from which composite literals and fresh objects start.\<close>

definition zeroMeta :: objmeta where [simp]: "zeroMeta = newMeta '''' ''''"

definition zeroAddonStatus :: addon_status where [simp]:
  "zeroAddonStatus = \<lparr>addonReady = False, addonPhase = '''', ClonedCommit = '''', LastSyncTime = None,
     addonStatusModules = [], addonMessage = '''', addonConds = []\<rparr>"

definition zeroUpgradeStatus :: upgrade_status where [simp]:
  "zeroUpgradeStatus = \<lparr>upPhase = '''', upJobName = '''', upMessage = '''', upStartTime = None,
     upCompletionTime = None, upObservedGeneration = 0, upConds = []\<rparr>"

definition zeroUpgradeSpec :: upgrade_spec where [simp]:
  "zeroUpgradeSpec = \<lparr>upInstanceRef = \<lparr>refName = '''', refNamespace = ''''\<rparr>, upModules = [],
     upInstallModules = [], upDatabase = '''', upTimeoutSeconds = None, upWithDemo = False,
     upAdminUserPasswordSecret = ''''\<rparr>"

definition zeroBackupStatus :: backup_status where [simp]:
  "zeroBackupStatus = \<lparr>bkPhase = '''', bkJobName = '''', bkCronJobName = '''', bkStartTime = None,
     bkCompletionTime = None, bkLastScheduleTime = None, bkLastSuccessfulTime = None, bkLastBackup = '''',
     bkMessage = '''', bkObservedGeneration = 0, bkConds = []\<rparr>"

definition zeroBackupSpec :: backup_spec where [simp]:
  "zeroBackupSpec = \<lparr>bkInstanceRef = \<lparr>refName = '''', refNamespace = ''''\<rparr>, bkDatabase = '''',
     bkIncludeFilestore = None, bkDestination = \<lparr>destPVC = None, destS3 = None\<rparr>, bkRetention = None,
     bkScratchSize = '''', bkTimeoutSeconds = None, bkSchedule = '''', bkSuspend = False\<rparr>"

definition zeroAddonSpec :: addon_spec where [simp]:
  "zeroAddonSpec = \<lparr>GitUrl = '''', GitRef = '''', GitSecretRef = None, AddonPath = '''', SingleAddon = False,
     ModuleName = '''', addonInstanceRef = \<lparr>refName = '''', refNamespace = ''''\<rparr>, addonReadOnly = False\<rparr>"

definition zeroInstanceStatus :: instance_status where [simp]:
  "zeroInstanceStatus = \<lparr>instReady = False, instPhase = '''', AddonPaths = [], instObservedGeneration = 0,
     instConds = [], instMessage = '''', Initialized = False, InitUpgrade = '''', AppliedAddonsHash = '''',
     ActiveUpgrade = ''''\<rparr>"

definition zeroInstanceSpec :: instance_spec where [simp]:
  "zeroInstanceSpec = \<lparr>instImage = '''', instReplicas = 0, instVersion = '''', instEdition = '''',
     instAddons = \<lparr>avStorageClass = None, avSize = '''', avAccessMode = ''''\<rparr>,
     instData = \<lparr>dvStorageClass = None, dvSize = '''', dvAccessMode = '''', dvRetainOnDelete = None\<rparr>,
     instPostgres = \<lparr>pgHost = '''', pgPort = 0, pgDatabase = '''', pgUser = '''', pgPasswordSecret = ''''\<rparr>,
     instConfig = [], instResources = \<lparr>resRequests = None, resLimits = None\<rparr>, AdminPasswordSecret = '''',
     instUpgrade = None, instInitialize = None, instCron = None\<rparr>"

definition sampleUpgrade :: "string \<Rightarrow> upgrade" where
  "sampleUpgrade phase = \<lparr>upMeta = newMeta ''up'' ''ns'', upSpec = zeroUpgradeSpec,
     upStatus = zeroUpgradeStatus\<lparr>upPhase := phase\<rparr>\<rparr>"

definition sampleBackup :: "string \<Rightarrow> backup" where
  "sampleBackup phase = \<lparr>bkMeta = newMeta ''bk'' ''ns'', bkSpec = zeroBackupSpec,
     bkStatus = zeroBackupStatus\<lparr>bkPhase := phase\<rparr>\<rparr>"

lemma sample_simps [simp]:
  "metaName (upMeta (sampleUpgrade p)) = ''up''" "upPhase (upStatus (sampleUpgrade p)) = p"
  "metaName (bkMeta (sampleBackup p)) = ''bk''" "bkPhase (bkStatus (sampleBackup p)) = p"
  "bkSchedule (bkSpec (sampleBackup p)) = ''''"
  "(sampleUpgrade p)\<lparr>upStatus := (upStatus (sampleUpgrade p))\<lparr>upPhase := q\<rparr>\<rparr> = sampleUpgrade q"
  "(sampleBackup p)\<lparr>bkStatus := (bkStatus (sampleBackup p))\<lparr>bkPhase := q\<rparr>\<rparr> = sampleBackup q"
  by (simp_all add: sampleUpgrade_def sampleBackup_def newMeta_def)

end
