(* ===== verification/Kube_Client.thy ===== *)
theory Kube_Client
  imports Api_Types "HOL-Library.State_Monad"
begin

text \<open>
  How the operator's code talks to the cluster. Every call (to the API server, the pod log endpoint,
  the event recorder, the clock) is a \<open>req\<close> answered by a \<open>resp\<close>; what answers it is a
  parameter, the field \<open>api\<close> of a \<open>cluster\<close>, so a theorem about a program holds for every behaviour
  of the cluster. The library functions of apimachinery and controller-runtime that the code
  applies to objects are fields of a \<open>kubelib\<close>, which a \<open>cluster\<close> extends. A program is a
  state monad over the cluster's own state and the history of the calls made so far.
\<close>

section \<open>Library functions\<close>

text \<open>
  \<open>SetControllerReference owner controlled\<close> returns the new metadata of the controlled object;
  \<open>ParseURL\<close> is \<open>url.Parse\<close>, answering whether there is user information and whether it holds a
  password; \<open>QuantitySign\<close> is \<open>Quantity.Sign\<close>.
\<close>

record kubelib =
  IsControlledBy :: "objmeta \<Rightarrow> objmeta \<Rightarrow> bool"
  SetControllerReference :: "objmeta \<Rightarrow> objmeta \<Rightarrow> goerr + objmeta"
  ContainsFinalizer :: "objmeta \<Rightarrow> string \<Rightarrow> bool"
  AddFinalizer :: "objmeta \<Rightarrow> string \<Rightarrow> objmeta"
  RemoveFinalizer :: "objmeta \<Rightarrow> string \<Rightarrow> objmeta"
  SetStatusCondition :: "condition list \<Rightarrow> condition \<Rightarrow> condition list"
  FindStatusCondition :: "condition list \<Rightarrow> string \<Rightarrow> condition option"
  RemoveStatusCondition :: "condition list \<Rightarrow> string \<Rightarrow> condition list"
  ParseURL :: "string \<Rightarrow> goerr + (bool \<times> bool)"
  ParseQuantity :: "string \<Rightarrow> goerr + string"
  QuantitySign :: "string \<Rightarrow> int"
  MarshalJobSpec :: "job_spec \<Rightarrow> goerr + string"

section \<open>Requests and answers\<close>

type_synonym nsname = "string \<times> string"  \<comment> \<open>namespace, name\<close>

datatype kind = KAddon | KInstance | KUpgrade | KBackup | KJob | KCronJob | KDeployment | KPVC | KPDB | KSecret | KPod

datatype obj =
  OAddon addon | OInstance odoo_instance | OUpgrade upgrade | OBackup backup | OJob job | OCronJob cronjob
| ODeployment deployment | OPVC pvc | OPDB pdb | OSecret secret | OPod pod

fun objKind :: "obj \<Rightarrow> kind" where
  "objKind (OAddon x) = KAddon" | "objKind (OInstance x) = KInstance" | "objKind (OUpgrade x) = KUpgrade"
| "objKind (OBackup x) = KBackup" | "objKind (OJob x) = KJob" | "objKind (OCronJob x) = KCronJob"
| "objKind (ODeployment x) = KDeployment" | "objKind (OPVC x) = KPVC" | "objKind (OPDB x) = KPDB"
| "objKind (OSecret x) = KSecret" | "objKind (OPod x) = KPod"

fun objMeta :: "obj \<Rightarrow> objmeta" where
  "objMeta (OAddon x) = addonMeta x" | "objMeta (OInstance x) = instMeta x" | "objMeta (OUpgrade x) = upMeta x"
| "objMeta (OBackup x) = bkMeta x" | "objMeta (OJob x) = jobMeta x" | "objMeta (OCronJob x) = cronMeta x"
| "objMeta (ODeployment x) = depMeta x" | "objMeta (OPVC x) = pvcMeta x" | "objMeta (OPDB x) = pdbMeta x"
| "objMeta (OSecret x) = secretMeta x" | "objMeta (OPod x) = podMeta x"

definition objKey :: "obj \<Rightarrow> nsname" where
  "objKey x = (metaNamespace (objMeta x), metaName (objMeta x))"

record event_note =
  evRegarding :: obj
  evRelated :: "nsname option"
  evNoteType :: string
  evNoteReason :: string
  evNoteAction :: string
  evNote :: string

text \<open>
  An upsert is \<open>controllerutil.CreateOrUpdate\<close>: it carries the function the code passes in, which
  the library applies to the object as it exists in the cluster, or to the empty object.
\<close>

datatype req =
  Get kind nsname
| ListIn kind string strmap
| Create obj
| Update obj
| StatusUpdate obj
| PatchObj obj obj
| Delete obj "string option"
| UpsertConfigMap configmap "configmap \<Rightarrow> goerr + configmap"
| UpsertDeployment deployment "deployment \<Rightarrow> goerr + deployment"
| UpsertPDB pdb "pdb \<Rightarrow> goerr + pdb"
| UpsertService service "service \<Rightarrow> goerr + service"
| PodLogs string string string "int option"
| Now
| EmitEvent event_note

datatype op_result = OpNone | OpCreated | OpUpdated

datatype resp =
  RObj obj | RObjs "obj list" | ROk | RErr goerr | RText string | RTime int | RUpsert op_result "deployment option"

record 'w cluster = kubelib +
  api :: "req \<Rightarrow> 'w \<Rightarrow> resp \<times> 'w"
  hasRecorder :: bool
  hasClientset :: bool
  getenv :: "string \<Rightarrow> string"
  retrySteps :: nat

type_synonym history = "(req \<times> resp) list"

record 'w run =
  world :: 'w
  hist :: history

type_synonym ('w, 'a) prog = "('w run, 'a) state"

section \<open>Calls\<close>

definition perform :: "'w cluster \<Rightarrow> req \<Rightarrow> ('w, resp) prog" where
  "perform C r = State (\<lambda>s. case api C r (world s) of
     (p, w) \<Rightarrow> (p, s\<lparr>world := w, hist := hist s @ [(r, p)]\<rparr>))"

definition badReply :: goerr where
  "badReply = PlainError ''unexpected object in a reply''"

fun asAddon :: "obj \<Rightarrow> addon option" where "asAddon (OAddon x) = Some x" | "asAddon _ = None"
fun asInstance :: "obj \<Rightarrow> odoo_instance option" where "asInstance (OInstance x) = Some x" | "asInstance _ = None"
fun asUpgrade :: "obj \<Rightarrow> upgrade option" where "asUpgrade (OUpgrade x) = Some x" | "asUpgrade _ = None"
fun asBackup :: "obj \<Rightarrow> backup option" where "asBackup (OBackup x) = Some x" | "asBackup _ = None"
fun asJob :: "obj \<Rightarrow> job option" where "asJob (OJob x) = Some x" | "asJob _ = None"
fun asCronJob :: "obj \<Rightarrow> cronjob option" where "asCronJob (OCronJob x) = Some x" | "asCronJob _ = None"
fun asDeployment :: "obj \<Rightarrow> deployment option" where "asDeployment (ODeployment x) = Some x" | "asDeployment _ = None"
fun asPVC :: "obj \<Rightarrow> pvc option" where "asPVC (OPVC x) = Some x" | "asPVC _ = None"
fun asPDB :: "obj \<Rightarrow> pdb option" where "asPDB (OPDB x) = Some x" | "asPDB _ = None"
fun asSecret :: "obj \<Rightarrow> secret option" where "asSecret (OSecret x) = Some x" | "asSecret _ = None"
fun asPod :: "obj \<Rightarrow> pod option" where "asPod (OPod x) = Some x" | "asPod _ = None"

fun objReply :: "(obj \<Rightarrow> 'a option) \<Rightarrow> resp \<Rightarrow> goerr + 'a" where
  "objReply as (RObj x) = (case as x of Some a \<Rightarrow> Inr a | None \<Rightarrow> Inl badReply)"
| "objReply as (RErr e) = Inl e"
| "objReply as _ = Inl badReply"

fun listReply :: "(obj \<Rightarrow> 'a option) \<Rightarrow> resp \<Rightarrow> goerr + 'a list" where
  "listReply as (RObjs xs) = Inr (List.map_filter as xs)"
| "listReply as (RErr e) = Inl e"
| "listReply as _ = Inl badReply"

fun errReply :: "resp \<Rightarrow> goerr option" where
  "errReply (RErr e) = Some e"
| "errReply _ = None"

fun textReply :: "resp \<Rightarrow> goerr + string" where
  "textReply (RText t) = Inr t"
| "textReply (RErr e) = Inl e"
| "textReply _ = Inl badReply"

fun timeReply :: "resp \<Rightarrow> int" where
  "timeReply (RTime t) = t"
| "timeReply _ = 0"

fun upsertReply :: "resp \<Rightarrow> goerr + (op_result \<times> deployment option)" where
  "upsertReply (RUpsert r d) = Inr (r, d)"
| "upsertReply (RErr e) = Inl e"
| "upsertReply _ = Inl badReply"

text \<open>The reply to a call, read with one of the functions above.\<close>

definition ask :: "'w cluster \<Rightarrow> req \<Rightarrow> (resp \<Rightarrow> 'a) \<Rightarrow> ('w, 'a) prog" where
  "ask C r f = do { p \<leftarrow> perform C r; State_Monad.return (f p) }"

definition getAddon :: "'w cluster \<Rightarrow> nsname \<Rightarrow> ('w, goerr + addon) prog" where
  "getAddon C key = ask C (Get KAddon key) (objReply asAddon)"
definition getInstance :: "'w cluster \<Rightarrow> nsname \<Rightarrow> ('w, goerr + odoo_instance) prog" where
  "getInstance C key = ask C (Get KInstance key) (objReply asInstance)"
definition getUpgrade :: "'w cluster \<Rightarrow> nsname \<Rightarrow> ('w, goerr + upgrade) prog" where
  "getUpgrade C key = ask C (Get KUpgrade key) (objReply asUpgrade)"
definition getBackup :: "'w cluster \<Rightarrow> nsname \<Rightarrow> ('w, goerr + backup) prog" where
  "getBackup C key = ask C (Get KBackup key) (objReply asBackup)"
definition getJob :: "'w cluster \<Rightarrow> nsname \<Rightarrow> ('w, goerr + job) prog" where
  "getJob C key = ask C (Get KJob key) (objReply asJob)"
definition getCronJob :: "'w cluster \<Rightarrow> nsname \<Rightarrow> ('w, goerr + cronjob) prog" where
  "getCronJob C key = ask C (Get KCronJob key) (objReply asCronJob)"
definition getDeployment :: "'w cluster \<Rightarrow> nsname \<Rightarrow> ('w, goerr + deployment) prog" where
  "getDeployment C key = ask C (Get KDeployment key) (objReply asDeployment)"
definition getPVC :: "'w cluster \<Rightarrow> nsname \<Rightarrow> ('w, goerr + pvc) prog" where
  "getPVC C key = ask C (Get KPVC key) (objReply asPVC)"
definition getPDB :: "'w cluster \<Rightarrow> nsname \<Rightarrow> ('w, goerr + pdb) prog" where
  "getPDB C key = ask C (Get KPDB key) (objReply asPDB)"
definition getSecret :: "'w cluster \<Rightarrow> nsname \<Rightarrow> ('w, goerr + secret) prog" where
  "getSecret C key = ask C (Get KSecret key) (objReply asSecret)"

definition listAddons :: "'w cluster \<Rightarrow> string \<Rightarrow> ('w, goerr + addon list) prog" where
  "listAddons C ns = ask C (ListIn KAddon ns []) (listReply asAddon)"
definition listInstances :: "'w cluster \<Rightarrow> string \<Rightarrow> ('w, goerr + odoo_instance list) prog" where
  "listInstances C ns = ask C (ListIn KInstance ns []) (listReply asInstance)"
definition listUpgrades :: "'w cluster \<Rightarrow> string \<Rightarrow> ('w, goerr + upgrade list) prog" where
  "listUpgrades C ns = ask C (ListIn KUpgrade ns []) (listReply asUpgrade)"
definition listBackups :: "'w cluster \<Rightarrow> string \<Rightarrow> ('w, goerr + backup list) prog" where
  "listBackups C ns = ask C (ListIn KBackup ns []) (listReply asBackup)"
definition listPods :: "'w cluster \<Rightarrow> string \<Rightarrow> strmap \<Rightarrow> ('w, goerr + pod list) prog" where
  "listPods C ns labels = ask C (ListIn KPod ns labels) (listReply asPod)"

definition timeNow :: "'w cluster \<Rightarrow> ('w, int) prog" where
  "timeNow C = ask C Now timeReply"

definition doCall :: "'w cluster \<Rightarrow> req \<Rightarrow> ('w, goerr option) prog" where
  "doCall C r = ask C r errReply"

text \<open>
  Writing an object back. The server refuses a stale copy, so after a success the object is the one
  that was sent; the metadata the server manages on its own (the resource version) is not modelled.
\<close>

definition updateObj :: "'w cluster \<Rightarrow> obj \<Rightarrow> ('w, goerr option) prog" where
  "updateObj C x = doCall C (Update x)"

definition updateStatus :: "'w cluster \<Rightarrow> obj \<Rightarrow> ('w, goerr option) prog" where
  "updateStatus C x = doCall C (StatusUpdate x)"

definition createObj :: "'w cluster \<Rightarrow> obj \<Rightarrow> ('w, goerr option) prog" where
  "createObj C x = doCall C (Create x)"

definition podLogs :: "'w cluster \<Rightarrow> string \<Rightarrow> string \<Rightarrow> string \<Rightarrow> int option \<Rightarrow> ('w, goerr + string) prog" where
  "podLogs C ns name ctr tailLines = ask C (PodLogs ns name ctr tailLines) textReply"

text \<open>The outcome of a reconcile: \<open>ctrl.Result.RequeueAfter\<close> and the error.\<close>

type_synonym outcome = "int \<times> goerr option"

text \<open>
  \<open>retry.RetryOnConflict\<close> with \<open>retrySteps\<close> attempts: the body is run again while it answers a
  conflict; the last error is the result.
\<close>

fun retryOnConflict :: "nat \<Rightarrow> ('w, goerr option) prog \<Rightarrow> ('w, goerr option) prog" where
  "retryOnConflict 0 body = body"
| "retryOnConflict (Suc n) body = do {
     err \<leftarrow> body;
     (case err of
        Some e \<Rightarrow> if isApiConflict e then retryOnConflict n body else State_Monad.return (Some e)
      | None \<Rightarrow> State_Monad.return None)
   }"

end
