(* ===== verification/Kube_Logic.thy ===== *)
theory Kube_Logic
  imports Kube_Client
begin

text \<open>
  Reasoning about programs that call the cluster. \<open>only P m\<close>: every call the program makes satisfies
  \<open>P\<close>, whatever the cluster answers. \<open>wp m B h\<close>: run after the history \<open>h\<close>, the program ends with a result and
  a history that satisfy \<open>B\<close>, whatever the cluster answers. Both follow the structure of the program, so a
  proof about a handler is the collection \<open>frame_intros\<close> or \<open>wp_intros\<close> over its unfolded definition.
\<close>

named_theorems exec_simps \<open>running a program on a concrete cluster\<close>
named_theorems frame_intros \<open>rules for the calls a program makes, whatever its results\<close>
named_theorems wp_intros \<open>rules of the weakest preconditions\<close>

section \<open>Execution\<close>

definition start :: "'w \<Rightarrow> 'w run" where
  "start w = \<lparr>world = w, hist = []\<rparr>"

text \<open>The calls a program makes from a fresh history, and its result.\<close>

definition callsOf :: "('w, 'a) prog \<Rightarrow> 'w \<Rightarrow> history" where
  "callsOf m w = hist (snd (run_state m (start w)))"

definition resultOf :: "('w, 'a) prog \<Rightarrow> 'w \<Rightarrow> 'a" where
  "resultOf m w = fst (run_state m (start w))"

lemma run_return [exec_simps]: "run_state (State_Monad.return a) s = (a, s)"
  by (simp add: State_Monad.return_def)

lemma run_bind [exec_simps]:
  "run_state (State_Monad.bind m f) s = (case run_state m s of (a, t) \<Rightarrow> run_state (f a) t)"
  by (simp add: State_Monad.bind_def)

lemma run_perform [exec_simps]:
  "run_state (perform C r) s =
     (case api C r (world s) of (p, w) \<Rightarrow> (p, s\<lparr>world := w, hist := hist s @ [(r, p)]\<rparr>))"
  by (simp add: perform_def)

lemma run_ask [exec_simps]:
  "run_state (ask C r f) s =
     (case api C r (world s) of (p, w) \<Rightarrow> (f p, s\<lparr>world := w, hist := hist s @ [(r, p)]\<rparr>))"
  by (simp add: ask_def exec_simps split: prod.splits)

section \<open>Frames: the calls a program may make\<close>

definition only :: "(req \<Rightarrow> bool) \<Rightarrow> ('w, 'a) prog \<Rightarrow> bool" where
  "only P m \<longleftrightarrow> (\<forall>s. \<exists>l. hist (snd (run_state m s)) = hist s @ l \<and> list_all (\<lambda>c. P (fst c)) l)"

lemma only_return [frame_intros]: "only P (State_Monad.return a)"
  by (simp add: only_def exec_simps)

lemma only_bind [frame_intros]:
  assumes m: "only P m" and f: "\<And>a. only P (f a)"
  shows "only P (State_Monad.bind m f)"
  unfolding only_def
proof
  fix s
  obtain a t where run: "run_state m s = (a, t)" by fastforce
  with m obtain l where l: "hist t = hist s @ l" "list_all (\<lambda>c. P (fst c)) l"
    unfolding only_def by (metis snd_conv)
  from f obtain k where "hist (snd (run_state (f a) t)) = hist t @ k" "list_all (\<lambda>c. P (fst c)) k"
    unfolding only_def by blast
  with l run show "\<exists>l. hist (snd (run_state (State_Monad.bind m f) s)) = hist s @ l
      \<and> list_all (\<lambda>c. P (fst c)) l"
    by (auto simp: exec_simps)
qed

lemma only_ask [frame_intros]: "P r \<Longrightarrow> only P (ask C r f)"
  by (simp add: only_def exec_simps split_def)

lemma only_if [frame_intros]: "(b \<Longrightarrow> only P m) \<Longrightarrow> (\<not> b \<Longrightarrow> only P n) \<Longrightarrow> only P (if b then m else n)"
  by simp

lemma only_sum [frame_intros]:
  "(\<And>e. x = Inl e \<Longrightarrow> only P (f e)) \<Longrightarrow> (\<And>a. x = Inr a \<Longrightarrow> only P (g a))
    \<Longrightarrow> only P (case x of Inl e \<Rightarrow> f e | Inr a \<Rightarrow> g a)"
  by (cases x) simp_all

lemma only_option [frame_intros]:
  "(x = None \<Longrightarrow> only P f) \<Longrightarrow> (\<And>a. x = Some a \<Longrightarrow> only P (g a))
    \<Longrightarrow> only P (case x of None \<Rightarrow> f | Some a \<Rightarrow> g a)"
  by (cases x) simp_all

lemma only_pair [frame_intros]: "(\<And>a b. x = (a, b) \<Longrightarrow> only P (f a b)) \<Longrightarrow> only P (case x of (a, b) \<Rightarrow> f a b)"
  by (cases x) simp

lemma only_let [frame_intros]: "only P (f x) \<Longrightarrow> only P (let y = x in f y)"
  by simp

lemma only_retry [frame_intros]: "only P body \<Longrightarrow> only P (retryOnConflict n body)"
  by (induction n) (auto intro!: frame_intros)

lemma only_mono: "only P m \<Longrightarrow> (\<And>r. P r \<Longrightarrow> Q r) \<Longrightarrow> only Q m"
  unfolding only_def list_all_iff by meson

lemma only_callsOf: "only P m \<Longrightarrow> list_all (\<lambda>(r, p). P r) (callsOf m w)"
  unfolding only_def callsOf_def start_def
  by (drule spec [of _ "\<lparr>world = w, hist = []\<rparr>"]) (auto simp: split_def)

text \<open>A program that starts with a call goes on from its answer.\<close>

lemma callsOf_bind:
  "callsOf (State_Monad.bind m f) w =
     (case run_state m (start w) of (a, s) \<Rightarrow> hist (snd (run_state (f a) s)))"
  by (simp add: callsOf_def exec_simps split_def)

lemmas call_defs = doCall_def timeNow_def podLogs_def updateObj_def updateStatus_def createObj_def
  getAddon_def getInstance_def getUpgrade_def getBackup_def getJob_def getCronJob_def getDeployment_def
  getPVC_def getPDB_def getSecret_def listAddons_def listInstances_def listUpgrades_def listBackups_def listPods_def

lemma callsOf_bind_only:
  assumes "list_all (\<lambda>(r, p). P r) (callsOf m w)" and "only P (f (resultOf m w))"
  shows "list_all (\<lambda>(r, p). P r) (callsOf (State_Monad.bind m f) w)"
proof -
  obtain a s where run: "run_state m (start w) = (a, s)" by fastforce
  then have "hist s = callsOf m w" "a = resultOf m w" by (simp_all add: callsOf_def resultOf_def)
  moreover from assms(2) this obtain l where "hist (snd (run_state (f a) s)) = hist s @ l" "list_all (\<lambda>c. P (fst c)) l"
    unfolding only_def by metis
  ultimately show ?thesis
    using assms(1) run by (auto simp: callsOf_bind list_all_iff)
qed

section \<open>Weakest preconditions over the history\<close>

definition wp :: "('w, 'a) prog \<Rightarrow> ('a \<Rightarrow> history \<Rightarrow> bool) \<Rightarrow> history \<Rightarrow> bool" where
  "wp m B h \<longleftrightarrow> (\<forall>s. hist s = h \<longrightarrow> B (fst (run_state m s)) (hist (snd (run_state m s))))"

lemma wp_return [wp_intros]: "B a h \<Longrightarrow> wp (State_Monad.return a) B h"
  by (simp add: wp_def exec_simps)

lemma wp_bind [wp_intros]: "wp m (\<lambda>a. wp (f a) B) h \<Longrightarrow> wp (State_Monad.bind m f) B h"
  by (simp add: wp_def exec_simps split_def)

lemma wp_ask [wp_intros]: "(\<And>p. B (f p) (h @ [(r, p)])) \<Longrightarrow> wp (ask C r f) B h"
  by (simp add: wp_def exec_simps split_def)

lemma wp_if [wp_intros]: "(b \<Longrightarrow> wp m B h) \<Longrightarrow> (\<not> b \<Longrightarrow> wp n B h) \<Longrightarrow> wp (if b then m else n) B h"
  by simp

lemma wp_sum [wp_intros]:
  "(\<And>e. x = Inl e \<Longrightarrow> wp (f e) B h) \<Longrightarrow> (\<And>a. x = Inr a \<Longrightarrow> wp (g a) B h)
    \<Longrightarrow> wp (case x of Inl e \<Rightarrow> f e | Inr a \<Rightarrow> g a) B h"
  by (cases x) simp_all

lemma wp_option [wp_intros]:
  "(x = None \<Longrightarrow> wp f B h) \<Longrightarrow> (\<And>a. x = Some a \<Longrightarrow> wp (g a) B h)
    \<Longrightarrow> wp (case x of None \<Rightarrow> f | Some a \<Rightarrow> g a) B h"
  by (cases x) simp_all

lemma wp_pair [wp_intros]: "(\<And>a b. x = (a, b) \<Longrightarrow> wp (f a b) B h) \<Longrightarrow> wp (case x of (a, b) \<Rightarrow> f a b) B h"
  by (cases x) simp

lemma wp_let [wp_intros]: "wp (f x) B h \<Longrightarrow> wp (let y = x in f y) B h"
  by simp

text \<open>A program of which only its calls are known.\<close>

lemma wp_only: "only P m \<Longrightarrow> (\<And>a l. list_all (\<lambda>c. P (fst c)) l \<Longrightarrow> B a (h @ l)) \<Longrightarrow> wp m B h"
  unfolding only_def wp_def by metis

lemma wp_mono: "wp m B h \<Longrightarrow> (\<And>a k. B a k \<Longrightarrow> D a k) \<Longrightarrow> wp m D h"
  by (simp add: wp_def)

lemma wp_conj: "wp m B h \<Longrightarrow> wp m D h \<Longrightarrow> wp m (\<lambda>a k. B a k \<and> D a k) h"
  by (simp add: wp_def)

text \<open>The retry loop keeps whatever its body establishes from any history it may start in.\<close>

lemma wp_retry:
  assumes body: "\<And>h. I h \<Longrightarrow> wp body B h" and again: "\<And>e h. B (Some e) h \<Longrightarrow> I h" and start: "I h"
  shows "wp (retryOnConflict n body) B h"
  using start
proof (induction n arbitrary: h)
  case (Suc n)
  show ?case
    by (auto intro!: wp_intros Suc.IH wp_mono [OF body [OF Suc.prems]] intro: again)
qed (simp add: body)

lemma wp_callsOf: "wp m B [] \<Longrightarrow> B (resultOf m w) (callsOf m w)"
  by (simp add: wp_def callsOf_def resultOf_def start_def)

section \<open>Replies\<close>

lemma objReply_Inr_iff: "objReply as p = Inr x \<longleftrightarrow> (\<exists>y. p = RObj y \<and> as y = Some x)"
  by (cases p) (auto split: option.splits simp: badReply_def)

lemma objReply_Inl_notFound: "objReply as p = Inl e \<Longrightarrow> isNotFound e \<Longrightarrow> p = RErr e"
  by (cases p) (auto split: option.splits simp: badReply_def isNotFound_def)

lemma as_iff [simp]:
  "asAddon x = Some a \<longleftrightarrow> x = OAddon a"
  "asInstance x = Some i \<longleftrightarrow> x = OInstance i"
  "asUpgrade x = Some u \<longleftrightarrow> x = OUpgrade u"
  "asBackup x = Some b \<longleftrightarrow> x = OBackup b"
  "asJob x = Some j \<longleftrightarrow> x = OJob j"
  "asCronJob x = Some c \<longleftrightarrow> x = OCronJob c"
  "asDeployment x = Some d \<longleftrightarrow> x = ODeployment d"
  "asPVC x = Some v \<longleftrightarrow> x = OPVC v"
  "asPDB x = Some q \<longleftrightarrow> x = OPDB q"
  "asSecret x = Some s \<longleftrightarrow> x = OSecret s"
  "asPod x = Some p \<longleftrightarrow> x = OPod p"
  by (cases x; auto)+

lemma wp_grows: "only P m \<Longrightarrow> wp m B h \<Longrightarrow> wp m (\<lambda>a k. B a k \<and> (\<exists>l. k = h @ l)) h"
  unfolding only_def wp_def by metis

lemma wp_skip: "(\<And>a k. wp (f a) B k) \<Longrightarrow> wp (State_Monad.bind m f) B h"
  by (simp add: wp_def exec_simps split_def)

section \<open>Results a program may have\<close>

named_theorems yields_intros \<open>rules for the results of a program, whatever its calls\<close>

definition yields :: "('a \<Rightarrow> bool) \<Rightarrow> ('w, 'a) prog \<Rightarrow> bool" where
  "yields R m \<longleftrightarrow> (\<forall>s. R (fst (run_state m s)))"

lemma yields_return [yields_intros]: "R a \<Longrightarrow> yields R (State_Monad.return a)"
  by (simp add: yields_def exec_simps)

lemma yields_bind [yields_intros]: "(\<And>a. yields R (f a)) \<Longrightarrow> yields R (State_Monad.bind m f)"
  by (simp add: yields_def exec_simps split_def)

lemma yields_if [yields_intros]: "(b \<Longrightarrow> yields R m) \<Longrightarrow> (\<not> b \<Longrightarrow> yields R n) \<Longrightarrow> yields R (if b then m else n)"
  by simp

lemma yields_sum [yields_intros]:
  "(\<And>e. x = Inl e \<Longrightarrow> yields R (f e)) \<Longrightarrow> (\<And>a. x = Inr a \<Longrightarrow> yields R (g a))
    \<Longrightarrow> yields R (case x of Inl e \<Rightarrow> f e | Inr a \<Rightarrow> g a)"
  by (cases x) simp_all

lemma yields_option [yields_intros]:
  "(x = None \<Longrightarrow> yields R f) \<Longrightarrow> (\<And>a. x = Some a \<Longrightarrow> yields R (g a))
    \<Longrightarrow> yields R (case x of None \<Rightarrow> f | Some a \<Rightarrow> g a)"
  by (cases x) simp_all

lemma yields_pair [yields_intros]: "(\<And>a b. x = (a, b) \<Longrightarrow> yields R (f a b)) \<Longrightarrow> yields R (case x of (a, b) \<Rightarrow> f a b)"
  by (cases x) simp

lemma yields_let [yields_intros]: "yields R (f x) \<Longrightarrow> yields R (let y = x in f y)"
  by simp

lemma yields_resultOf: "yields R m \<Longrightarrow> R (resultOf m w)"
  by (simp add: yields_def resultOf_def)

text \<open>A program of which the calls and the results are known separately.\<close>

lemma wp_yields:
  "yields R m \<Longrightarrow> only P m \<Longrightarrow> (\<And>a l. R a \<Longrightarrow> list_all (\<lambda>c. P (fst c)) l \<Longrightarrow> B a (h @ l)) \<Longrightarrow> wp m B h"
  unfolding yields_def only_def wp_def by metis

section \<open>Programs that do not look back\<close>

text \<open>
  The history only records; no program reads it. What is proved of a program from the empty history therefore
  holds of the part it adds to any history.
\<close>

named_theorems oblivious_intros \<open>rules for programs that do not depend on the history\<close>

definition oblivious :: "('w, 'a) prog \<Rightarrow> bool" where
  "oblivious m \<longleftrightarrow> (\<forall>w h. run_state m \<lparr>world = w, hist = h\<rparr> =
     (fst (run_state m (start w)), \<lparr>world = world (snd (run_state m (start w))), hist = h @ hist (snd (run_state m (start w)))\<rparr>))"

lemma obliviousD:
  "oblivious m \<Longrightarrow> run_state m s =
     (fst (run_state m (start (world s))),
      \<lparr>world = world (snd (run_state m (start (world s)))), hist = hist s @ hist (snd (run_state m (start (world s))))\<rparr>)"
  unfolding oblivious_def by (metis (full_types) old.unit.exhaust run.surjective)

lemma oblivious_return [oblivious_intros]: "oblivious (State_Monad.return a)"
  by (simp add: oblivious_def exec_simps start_def)

lemma oblivious_ask [oblivious_intros]: "oblivious (ask C r f)"
  by (simp add: oblivious_def exec_simps start_def split: prod.splits)

lemma oblivious_bind [oblivious_intros]:
  assumes m: "oblivious m" and f: "\<And>a. oblivious (f a)"
  shows "oblivious (State_Monad.bind m f)"
  unfolding oblivious_def
proof (intro allI)
  fix w h
  obtain a t where run: "run_state m (start w) = (a, t)" by fastforce
  have "run_state m \<lparr>world = w, hist = h\<rparr> = (a, \<lparr>world = world t, hist = h @ hist t\<rparr>)"
    using obliviousD [OF m, of "\<lparr>world = w, hist = h\<rparr>"] run by simp
  then show "run_state (State_Monad.bind m f) \<lparr>world = w, hist = h\<rparr> =
      (fst (run_state (State_Monad.bind m f) (start w)),
       \<lparr>world = world (snd (run_state (State_Monad.bind m f) (start w))),
        hist = h @ hist (snd (run_state (State_Monad.bind m f) (start w)))\<rparr>)"
    using run obliviousD [OF f, of a t] obliviousD [OF f, of a "\<lparr>world = world t, hist = h @ hist t\<rparr>"]
    by (simp add: exec_simps)
qed

lemma oblivious_if [oblivious_intros]: "(b \<Longrightarrow> oblivious m) \<Longrightarrow> (\<not> b \<Longrightarrow> oblivious n) \<Longrightarrow> oblivious (if b then m else n)"
  by simp

lemma oblivious_sum [oblivious_intros]:
  "(\<And>e. oblivious (f e)) \<Longrightarrow> (\<And>a. oblivious (g a)) \<Longrightarrow> oblivious (case x of Inl e \<Rightarrow> f e | Inr a \<Rightarrow> g a)"
  by (cases x) simp_all

lemma oblivious_option [oblivious_intros]:
  "oblivious f \<Longrightarrow> (\<And>a. oblivious (g a)) \<Longrightarrow> oblivious (case x of None \<Rightarrow> f | Some a \<Rightarrow> g a)"
  by (cases x) simp_all

lemma oblivious_pair [oblivious_intros]: "(\<And>a b. oblivious (f a b)) \<Longrightarrow> oblivious (case x of (a, b) \<Rightarrow> f a b)"
  by (cases x) simp

lemma oblivious_let [oblivious_intros]: "oblivious (f x) \<Longrightarrow> oblivious (let y = x in f y)"
  by simp

lemma wp_oblivious:
  assumes "oblivious m" and "wp m B []"
  shows "wp m (\<lambda>a k. \<exists>l. k = h @ l \<and> B a l) h"
  unfolding wp_def
proof (intro allI impI)
  fix s :: "'a run" assume "hist s = h"
  moreover have "B (fst (run_state m (start (world s)))) (hist (snd (run_state m (start (world s)))))"
    using assms(2) by (simp add: wp_def start_def)
  ultimately show "\<exists>l. hist (snd (run_state m s)) = h @ l \<and> B (fst (run_state m s)) l"
    using obliviousD [OF assms(1), of s] by (metis fst_conv snd_conv run.select_convs(2))
qed

text \<open>Frames of programs whose later calls depend on what the results can be.\<close>

lemma only_bind_yields:
  assumes R: "yields R m" and m: "only P m" and f: "\<And>a. R a \<Longrightarrow> only P (f a)"
  shows "only P (State_Monad.bind m f)"
proof -
  have "only P (State_Monad.bind m (\<lambda>a. if R a then f a else State_Monad.return undefined))"
    using m f by (intro frame_intros)
  moreover have "run_state (State_Monad.bind m (\<lambda>a. if R a then f a else State_Monad.return undefined)) s
      = run_state (State_Monad.bind m f) s" for s
    using R by (simp add: exec_simps yields_def split_def)
  ultimately show ?thesis by (simp add: only_def)
qed

lemma yields_mono: "yields R m \<Longrightarrow> (\<And>a. R a \<Longrightarrow> S a) \<Longrightarrow> yields S m"
  by (simp add: yields_def)

section \<open>Calls justified by what was read before\<close>

text \<open>
  A call is often right only because of an earlier answer. \<open>soundCalls J h\<close>: every call of the history \<open>h\<close> is justified by
  the answers in \<open>h\<close>. A justification that only asks for answers to be there stays valid as the history grows,
  which is the law of the locale; its lemmas carry soundness through a program.
\<close>

definition soundCalls :: "(history \<Rightarrow> req \<Rightarrow> bool) \<Rightarrow> history \<Rightarrow> bool" where
  "soundCalls J h \<longleftrightarrow> list_all (\<lambda>c. J h (fst c)) h"

locale justified_calls =
  fixes J :: "history \<Rightarrow> req \<Rightarrow> bool"
  assumes grows: "set h \<subseteq> set k \<Longrightarrow> J h r \<Longrightarrow> J k r"
begin

lemma sound_Nil: "soundCalls J []"
  by (simp add: soundCalls_def)

lemma sound_append:
  assumes "soundCalls J h" and "list_all (\<lambda>c. J h (fst c)) l"
  shows "soundCalls J (h @ l)"
  using assms grows [of h "h @ l"] unfolding soundCalls_def list_all_iff by auto

lemma sound_only:
  assumes "only P m" and "soundCalls J h" and "\<And>r. P r \<Longrightarrow> J h r" and "\<And>a k. soundCalls J k \<Longrightarrow> set h \<subseteq> set k \<Longrightarrow> B a k"
  shows "wp m B h"
  by (rule wp_only [OF assms(1)]) (auto intro!: assms(4) sound_append assms(2,3) simp: list_all_iff)

lemma sound_ask:
  assumes "soundCalls J h" and "J h r"
    and "\<And>p k. soundCalls J k \<Longrightarrow> set h \<subseteq> set k \<Longrightarrow> (r, p) \<in> set k \<Longrightarrow> B (f p) k"
  shows "wp (ask C r f) B h"
  by (intro wp_ask assms(3) sound_append assms(1)) (auto simp: assms(2))

lemma sound_yields:
  assumes "yields R m" and "only P m" and "soundCalls J h" and "\<And>r. P r \<Longrightarrow> J h r"
    and "\<And>a k. R a \<Longrightarrow> soundCalls J k \<Longrightarrow> set h \<subseteq> set k \<Longrightarrow> B a k"
  shows "wp m B h"
  by (rule wp_yields [OF assms(1,2)]) (auto intro!: assms(5) sound_append assms(3,4) simp: list_all_iff)

text \<open>The retry loop of a sound body is sound.\<close>

lemma sound_retry:
  assumes body: "\<And>k D. soundCalls J k \<Longrightarrow> set h \<subseteq> set k
      \<Longrightarrow> (\<And>a l. soundCalls J l \<Longrightarrow> set k \<subseteq> set l \<Longrightarrow> D a l) \<Longrightarrow> wp body D k"
    and start: "soundCalls J h"
    and after: "\<And>a k. soundCalls J k \<Longrightarrow> set h \<subseteq> set k \<Longrightarrow> B a k"
  shows "wp (retryOnConflict n body) B h"
  by (rule wp_mono [of _ "\<lambda>a k. soundCalls J k \<and> set h \<subseteq> set k"],
      rule wp_retry [where I = "\<lambda>k. soundCalls J k \<and> set h \<subseteq> set k"])
    (auto intro!: body intro: start after)

end

end
