(* ===== verification/Kube_Reference.thy ===== *)
theory Kube_Reference
  imports Kube_Logic
begin

text \<open>
  What the operator relies on in the libraries it imports, as named hypotheses on a \<open>kubelib\<close>, and
  one concrete library that satisfies them. The theorems about the operator take the library as a
  parameter; the concrete one only shows, in witnesses, that their hypotheses can hold.
\<close>

section \<open>Documented behaviour\<close>

text \<open>
  \<open>meta.SetStatusCondition\<close>, \<open>FindStatusCondition\<close> and \<open>RemoveStatusCondition\<close>: setting a condition
  makes it the one found under its type and touches no other type, setting what is already there
  changes nothing, and removing a type makes it not found.
\<close>

definition lawfulConditions :: "'m kubelib_scheme \<Rightarrow> bool" where
  "lawfulConditions L \<longleftrightarrow>
     (\<forall>cs c t. FindStatusCondition L (SetStatusCondition L cs c) t =
        (if t = condType c then Some c else FindStatusCondition L cs t))
     \<and> (\<forall>cs c. FindStatusCondition L cs (condType c) = Some c \<longrightarrow> SetStatusCondition L cs c = cs)
     \<and> (\<forall>cs t u. FindStatusCondition L (RemoveStatusCondition L cs t) u =
        (if u = t then None else FindStatusCondition L cs u))"

text \<open>
  \<open>controllerutil.SetControllerReference\<close>: the result differs in its owner references only, is
  controlled by the owner, and keeps every other owner.
\<close>

definition lawfulOwners :: "'m kubelib_scheme \<Rightarrow> bool" where
  "lawfulOwners L \<longleftrightarrow>
     (\<forall>owner m m'. SetControllerReference L owner m = Inr m' \<longrightarrow>
        m' = m\<lparr>metaOwners := metaOwners m'\<rparr>
        \<and> IsControlledBy L m' owner
        \<and> metaUID owner \<in> ownerUID ` set (metaOwners m')
        \<and> ownerUID ` set (metaOwners m) \<subseteq> ownerUID ` set (metaOwners m'))"

text \<open>The finalizer helpers of controllerutil work on the list of finalizers only.\<close>

definition lawfulFinalizers :: "'m kubelib_scheme \<Rightarrow> bool" where
  "lawfulFinalizers L \<longleftrightarrow>
     (\<forall>m f. ContainsFinalizer L m f \<longleftrightarrow> f \<in> set (metaFinalizers m))
     \<and> (\<forall>m f. AddFinalizer L m f = m\<lparr>metaFinalizers := metaFinalizers (AddFinalizer L m f)\<rparr>
           \<and> set (metaFinalizers (AddFinalizer L m f)) = insert f (set (metaFinalizers m)))
     \<and> (\<forall>m f. RemoveFinalizer L m f = m\<lparr>metaFinalizers := metaFinalizers (RemoveFinalizer L m f)\<rparr>
           \<and> set (metaFinalizers (RemoveFinalizer L m f)) = set (metaFinalizers m) - {f})"

section \<open>A concrete library\<close>

definition refFind :: "condition list \<Rightarrow> string \<Rightarrow> condition option" where
  "refFind cs t = find (\<lambda>c. condType c = t) cs"

fun refSet :: "condition list \<Rightarrow> condition \<Rightarrow> condition list" where
  "refSet [] c = [c]"
| "refSet (d # ds) c = (if condType d = condType c then c # ds else d # refSet ds c)"

definition refControlledBy :: "objmeta \<Rightarrow> objmeta \<Rightarrow> bool" where
  "refControlledBy m owner =
     (case find ownerController (metaOwners m) of Some r \<Rightarrow> ownerUID r = metaUID owner | None \<Rightarrow> False)"

definition refSetController :: "objmeta \<Rightarrow> objmeta \<Rightarrow> goerr + objmeta" where
  "refSetController owner m =
     (case find ownerController (metaOwners m) of
        Some r \<Rightarrow> if ownerUID r = metaUID owner then Inr m
                  else Inl (PlainError ''object is already owned by another controller'')
      | None \<Rightarrow> Inr (m\<lparr>metaOwners := metaOwners m @ [\<lparr>ownerUID = metaUID owner, ownerController = True\<rparr>]\<rparr>))"

definition refLib :: kubelib where
  "refLib = \<lparr>IsControlledBy = refControlledBy, SetControllerReference = refSetController,
     ContainsFinalizer = (\<lambda>m f. f \<in> set (metaFinalizers m)),
     AddFinalizer = (\<lambda>m f. if f \<in> set (metaFinalizers m) then m else m\<lparr>metaFinalizers := metaFinalizers m @ [f]\<rparr>),
     RemoveFinalizer = (\<lambda>m f. m\<lparr>metaFinalizers := filter (\<lambda>x. x \<noteq> f) (metaFinalizers m)\<rparr>),
     SetStatusCondition = refSet, FindStatusCondition = refFind,
     RemoveStatusCondition = (\<lambda>cs t. filter (\<lambda>c. condType c \<noteq> t) cs),
     ParseURL = (\<lambda>u. Inr (False, False)), ParseQuantity = Inr, QuantitySign = (\<lambda>q. 1),
     MarshalJobSpec = (\<lambda>j. Inr '''')\<rparr>"

lemma refFind_refSet: "refFind (refSet cs c) t = (if t = condType c then Some c else refFind cs t)"
  by (induction cs) (auto simp: refFind_def)

lemma refSet_same: "refFind cs (condType c) = Some c \<Longrightarrow> refSet cs c = cs"
  by (induction cs) (auto simp: refFind_def split: if_splits)

lemma refFind_filter:
  "refFind (filter (\<lambda>c. condType c \<noteq> t) cs) u = (if u = t then None else refFind cs u)"
  by (induction cs) (auto simp: refFind_def)

lemma lawfulConditions_ref [simp]: "lawfulConditions refLib"
  by (simp add: lawfulConditions_def refLib_def refFind_refSet refSet_same refFind_filter)

lemma lawfulFinalizers_ref [simp]: "lawfulFinalizers refLib"
  by (auto simp: lawfulFinalizers_def refLib_def)

lemma find_append_fresh: "find P xs = None \<Longrightarrow> find P (xs @ ys) = find P ys"
  by (induction xs) auto

lemma find_SomeD: "find P xs = Some x \<Longrightarrow> x \<in> set xs \<and> P x"
  by (metis find_Some_iff nth_mem)

lemma lawfulOwners_ref [simp]: "lawfulOwners refLib"
  by (auto simp: lawfulOwners_def refLib_def refSetController_def refControlledBy_def find_append_fresh
      split: option.splits if_splits dest: find_SomeD) (metis find_SomeD image_eqI)

text \<open>A cluster over a scripted API: it answers from a table and has no state.\<close>

definition scripted :: "(req \<Rightarrow> resp) \<Rightarrow> unit cluster" where
  "scripted answer = kubelib.extend refLib
     \<lparr>api = (\<lambda>r w. (answer r, w)), hasRecorder = True, hasClientset = True, getenv = (\<lambda>_. ''''),
      retrySteps = 4, \<dots> = ()\<rparr>"

lemma lawful_extend [simp]:
  "lawfulConditions (kubelib.extend L m) = lawfulConditions L"
  "lawfulOwners (kubelib.extend L m) = lawfulOwners L"
  "lawfulFinalizers (kubelib.extend L m) = lawfulFinalizers L"
  by (simp_all add: lawfulConditions_def lawfulOwners_def lawfulFinalizers_def kubelib.defs)

lemma lawful_scripted [simp]:
  "lawfulConditions (scripted answer)" "lawfulOwners (scripted answer)" "lawfulFinalizers (scripted answer)"
  by (simp_all add: scripted_def)

definition bareInstance :: "string \<Rightarrow> string \<Rightarrow> odoo_instance" where
  "bareInstance name ns = \<lparr>instMeta = newMeta name ns, instSpec = zeroInstanceSpec, instStatus = zeroInstanceStatus\<rparr>"

end
