(* ===== verification/Go_Utf8.thy ===== *)
theory Go_Utf8
  imports Go_Text
begin

text \<open>
  UTF-8 as Go's \<open>unicode/utf8\<close> decodes it, \<open>strings.ToValidUTF8\<close> with an empty replacement, the
  verb \<open>%q\<close>, and \<open>json.Marshal\<close> of a list of strings with a decoder that shows the encoding to be
  unambiguous.
\<close>

section \<open>Runes\<close>

definition byteIn :: "nat \<Rightarrow> nat \<Rightarrow> char \<Rightarrow> bool" where
  "byteIn lo hi c \<longleftrightarrow> lo \<le> (of_char c :: nat) \<and> (of_char c :: nat) \<le> hi"

text \<open>The length of the rune a string starts with, or None when its first byte starts no rune.\<close>

fun runeLen :: "string \<Rightarrow> nat option" where
  "runeLen [] = None"
| "runeLen (a # s) =
     (if byteIn 0 0x7F a then Some 1
      else if byteIn 0xC2 0xDF a then
        (case s of c # _ \<Rightarrow> if byteIn 0x80 0xBF c then Some 2 else None | _ \<Rightarrow> None)
      else if byteIn 0xE0 0xEF a then
        (case s of c # d # _ \<Rightarrow>
           if byteIn (if byteIn 0xE0 0xE0 a then 0xA0 else 0x80)
                (if byteIn 0xED 0xED a then 0x9F else 0xBF) c \<and> byteIn 0x80 0xBF d
           then Some 3 else None
         | _ \<Rightarrow> None)
      else if byteIn 0xF0 0xF4 a then
        (case s of c # d # e # _ \<Rightarrow>
           if byteIn (if byteIn 0xF0 0xF0 a then 0x90 else 0x80)
                (if byteIn 0xF4 0xF4 a then 0x8F else 0xBF) c
              \<and> byteIn 0x80 0xBF d \<and> byteIn 0x80 0xBF e
           then Some 4 else None
         | _ \<Rightarrow> None)
      else None)"

lemma runeLen_bounds: "runeLen s = Some n \<Longrightarrow> 0 < n \<and> n \<le> length s \<and> n \<le> 4"
  by (cases s) (auto split: if_splits list.splits)

lemma runeLen_prefix: "runeLen s = Some n \<Longrightarrow> runeLen (take n s @ t) = Some n"
  by (cases s) (auto split: if_splits list.splits simp: numeral_eq_Suc)

lemma runeLen_ascii: "byteIn 0 0x7F c \<Longrightarrow> runeLen (c # s) = Some 1"
  by simp

lemma runeLen_1: "runeLen (c # s) = Some (Suc 0) \<longleftrightarrow> byteIn 0 0x7F c"
  by (auto split: if_splits list.splits)

lemma runeLen_high:
  assumes "runeLen s = Some n" and "n \<noteq> 1" and "x \<in> set (take n s)"
  shows "byteIn 0x80 0xFF x"
  using assms
  by (cases s) (auto simp: byteIn_def numeral_eq_Suc split: if_splits list.splits)

function toValidUTF8 :: "string \<Rightarrow> string" where
  "toValidUTF8 [] = []"
| "toValidUTF8 (c # s) =
     (case runeLen (c # s) of
        None \<Rightarrow> toValidUTF8 s
      | Some n \<Rightarrow> take n (c # s) @ toValidUTF8 (drop (n - 1) s))"
  by pat_completeness auto
termination
  by (relation "measure length") auto

function validUTF8 :: "string \<Rightarrow> bool" where
  "validUTF8 [] = True"
| "validUTF8 (c # s) =
     (case runeLen (c # s) of
        None \<Rightarrow> False
      | Some n \<Rightarrow> validUTF8 (drop (n - 1) s))"
  by pat_completeness auto
termination
  by (relation "measure length") auto

declare runeLen.simps(2) [simp del]

lemma drop_runeLen: "runeLen (c # s) = Some n \<Longrightarrow> drop (n - 1) s = drop n (c # s)"
  using runeLen_bounds [of "c # s" n] by (cases n) auto

lemma validUTF8_rune:
  assumes "runeLen r = Some (length r)"
  shows "validUTF8 (r @ t) = validUTF8 t"
proof -
  from assms obtain c s where r: "r = c # s" by (cases r) auto
  from runeLen_prefix [OF assms, of t] have "runeLen (c # s @ t) = Some (length r)"
    by (simp add: r)
  then show ?thesis by (simp add: r)
qed

lemma runeLen_take_self: "runeLen s = Some n \<Longrightarrow> runeLen (take n s) = Some (length (take n s))"
  using runeLen_prefix [of s n "[]"] runeLen_bounds [of s n] by simp

lemma validUTF8_toValid: "validUTF8 (toValidUTF8 s)"
proof (induction s rule: toValidUTF8.induct)
  case (2 c s)
  then show ?case
    by (auto split: option.split simp: validUTF8_rune [OF runeLen_take_self])
qed simp

lemma toValid_valid: "validUTF8 s \<Longrightarrow> toValidUTF8 s = s"
proof (induction s rule: validUTF8.induct)
  case (2 c s)
  then obtain n where n: "runeLen (c # s) = Some n" and v: "validUTF8 (drop (n - 1) s)"
    by (auto split: option.splits)
  with 2 have "toValidUTF8 (drop (n - 1) s) = drop (n - 1) s" by auto
  with n drop_runeLen [OF n] show ?case by (metis append_take_drop_id option.simps(5) toValidUTF8.simps(2))
qed simp

lemma length_toValidUTF8 [len_simps]: "length (toValidUTF8 s) \<le> length s"
proof (induction s rule: toValidUTF8.induct)
  case (2 c s)
  show ?case
  proof (cases "runeLen (c # s)")
    case None
    with 2 show ?thesis by simp
  next
    case (Some n)
    with 2 runeLen_bounds [OF Some] show ?thesis by (cases n) auto
  qed
qed simp

lemma set_toValidUTF8: "set (toValidUTF8 s) \<subseteq> set s"
proof (induction s rule: toValidUTF8.induct)
  case (2 c s)
  show ?case
  proof (cases "runeLen (c # s)")
    case None
    with 2 show ?thesis by auto
  next
    case (Some n)
    with 2 have "set (toValidUTF8 (drop (n - 1) s)) \<subseteq> set s"
      using set_drop_subset [of "n - 1" s] by auto
    with Some show ?thesis using set_take_subset [of n "c # s"] by auto
  qed
qed simp

lemma validUTF8_ascii: "list_all (byteIn 0 0x7F) s \<Longrightarrow> validUTF8 s"
  by (induction s) (auto simp: runeLen_ascii [simplified])

lemma validUTF8_append: "validUTF8 s \<Longrightarrow> validUTF8 t \<Longrightarrow> validUTF8 (s @ t)"
proof (induction s rule: validUTF8.induct)
  case (2 c s)
  then obtain n where n: "runeLen (c # s) = Some n" and v: "validUTF8 (drop (n - 1) s)"
    by (auto split: option.splits)
  with 2 have IH: "validUTF8 (drop (n - 1) s @ t)" by auto
  have "c # s @ t = take n (c # s) @ (drop (n - 1) s @ t)"
    using drop_runeLen [OF n] by (metis Cons_eq_appendI append.assoc append_take_drop_id)
  with IH validUTF8_rune [OF runeLen_take_self [OF n]] show ?case by (metis append_Cons)
qed simp

section \<open>Quoting with %q\<close>

definition quoteByte :: "char \<Rightarrow> string" where
  "quoteByte c =
     (let b = (of_char c :: nat) in
      if b = 34 \<or> b = 92 then [char_of (92::nat), c]
      else if b = 7 then char_of (92::nat) # ''a''
      else if b = 8 then char_of (92::nat) # ''b''
      else if b = 9 then char_of (92::nat) # ''t''
      else if b = 10 then char_of (92::nat) # ''n''
      else if b = 11 then char_of (92::nat) # ''v''
      else if b = 12 then char_of (92::nat) # ''f''
      else if b = 13 then char_of (92::nat) # ''r''
      else if b < 32 \<or> b = 127 then char_of (92::nat) # ''x'' @ hexByte c
      else [c])"

function quoteFrom :: "string \<Rightarrow> string" where
  "quoteFrom [] = []"
| "quoteFrom (c # s) =
     (case runeLen (c # s) of
        None \<Rightarrow> char_of (92::nat) # ''x'' @ hexByte c @ quoteFrom s
      | Some n \<Rightarrow> (if n = 1 then quoteByte c else take n (c # s)) @ quoteFrom (drop (n - 1) s))"
  by pat_completeness auto
termination
  by (relation "measure length") auto

definition goQuote :: "string \<Rightarrow> string" where
  "goQuote s = char_of (34::nat) # quoteFrom s @ [char_of (34::nat)]"

lemma goQuote_neq_Nil [simp]: "goQuote s \<noteq> []"
  by (simp add: goQuote_def)

section \<open>JSON\<close>

abbreviation (input) dquote :: char where
  "dquote \<equiv> CHR 0x22"

abbreviation (input) bslash :: char where
  "bslash \<equiv> CHR 0x5C"

definition jsonByte :: "char \<Rightarrow> string" where
  "jsonByte c =
     (if c = dquote \<or> c = bslash then [bslash, c]
      else if c = CHR 0x08 then [bslash, CHR ''b'']
      else if c = CHR 0x0C then [bslash, CHR ''f'']
      else if c = CHR 0x0A then [bslash, CHR ''n'']
      else if c = CHR 0x0D then [bslash, CHR ''r'']
      else if c = CHR 0x09 then [bslash, CHR ''t'']
      else if (of_char c :: nat) < 32 \<or> c \<in> set ''<>&'' then bslash # ''u00'' @ hexByte c
      else [c])"

function jsonEsc :: "string \<Rightarrow> string" where
  "jsonEsc [] = []"
| "jsonEsc (c # s) =
     (case runeLen (c # s) of
        None \<Rightarrow> bslash # ''ufffd'' @ jsonEsc s
      | Some n \<Rightarrow>
          (if n = 1 then jsonByte c
           else if take n (c # s) = bytes [0xE2, 0x80, 0xA8] then bslash # ''u2028''
           else if take n (c # s) = bytes [0xE2, 0x80, 0xA9] then bslash # ''u2029''
           else take n (c # s)) @ jsonEsc (drop (n - 1) s))"
  by pat_completeness auto
termination
  by (relation "measure length") auto

definition jsonString :: "string \<Rightarrow> string" where
  "jsonString s = dquote # jsonEsc s @ [dquote]"

definition jsonStrings :: "string list \<Rightarrow> string" where
  "jsonStrings xs = ''['' @ joinWith '','' (map jsonString xs) @ '']''"

text \<open>A reader of one JSON string body, up to its closing quote.\<close>

definition unhex :: "char \<Rightarrow> nat" where
  "unhex c = (if byteIn 48 57 c then of_char c - 48 else of_char c - 87)"

definition unescU :: "char \<Rightarrow> char \<Rightarrow> char \<Rightarrow> char \<Rightarrow> string" where
  "unescU h1 h2 h3 h4 =
     (if [h1, h2, h3, h4] = ''2028'' then bytes [0xE2, 0x80, 0xA8]
      else if [h1, h2, h3, h4] = ''2029'' then bytes [0xE2, 0x80, 0xA9]
      else [char_of (16 * unhex h3 + unhex h4)])"

definition unescC :: "char \<Rightarrow> char" where
  "unescC e =
     (if e = CHR ''b'' then CHR 0x08 else if e = CHR ''f'' then CHR 0x0C
      else if e = CHR ''n'' then CHR 0x0A else if e = CHR ''r'' then CHR 0x0D
      else if e = CHR ''t'' then CHR 0x09 else e)"

definition addFront :: "string \<Rightarrow> (string \<times> string) option \<Rightarrow> (string \<times> string) option" where
  "addFront r = map_option (apfst ((@) r))"

fun jsonRead :: "string \<Rightarrow> (string \<times> string) option" where
  "jsonRead [] = None"
| "jsonRead (c # s) =
     (if c = dquote then Some ([], s)
      else if c = bslash then
        (case s of
           [] \<Rightarrow> None
         | e # t \<Rightarrow>
             if e = CHR ''u'' then
               (case t of h1 # h2 # h3 # h4 # t' \<Rightarrow> addFront (unescU h1 h2 h3 h4) (jsonRead t') | _ \<Rightarrow> None)
             else addFront [unescC e] (jsonRead t))
      else addFront [c] (jsonRead s))"

lemma addFront_Some [simp]: "addFront r (Some (x, y)) = Some (r @ x, y)"
  by (simp add: addFront_def)

lemma jsonRead_plain:
  "dquote \<notin> set r \<Longrightarrow> bslash \<notin> set r \<Longrightarrow> jsonRead t = Some (x, y) \<Longrightarrow> jsonRead (r @ t) = Some (r @ x, y)"
  by (induction r) auto

lemma unhex_digitChar: "n < 16 \<Longrightarrow> unhex (digitChar n) = n"
  by (auto simp: unhex_def byteIn_def digitChar_of_char)

lemma jsonRead_byte:
  assumes "jsonRead t = Some (x, y)"
  shows "jsonRead (jsonByte c @ t) = Some (c # x, y)"
proof (cases "c \<in> set [dquote, bslash, CHR 0x08, CHR 0x0C, CHR 0x0A, CHR 0x0D, CHR 0x09]")
  case True
  with assms show ?thesis by (auto simp: jsonByte_def unescC_def)
next
  case False
  let ?b = "of_char c :: nat"
  have lt: "?b div 16 < 16" using of_char_less_256 [of c] by (simp add: less_mult_imp_div_less)
  have "unescU CHR ''0'' CHR ''0'' (digitChar (?b div 16)) (digitChar (?b mod 16)) = [c]"
    using lt by (simp add: unescU_def unhex_digitChar)
  with False assms show ?thesis
    by (auto simp: jsonByte_def hexByte_def Let_def)
qed

lemma jsonRead_rune:
  assumes n: "runeLen s = Some n" "n \<noteq> 1" and t: "jsonRead t = Some (x, y)"
  shows "jsonRead (take n s @ t) = Some (take n s @ x, y)"
  using runeLen_high [OF n] t by (intro jsonRead_plain) (fastforce simp: byteIn_def)+

theorem jsonRead_jsonEsc:
  "validUTF8 s \<Longrightarrow> jsonRead (jsonEsc s @ dquote # rest) = Some (s, rest)"
proof (induction s rule: validUTF8.induct)
  case (2 c s)
  then obtain n where n: "runeLen (c # s) = Some n" and v: "validUTF8 (drop (n - 1) s)"
    by (auto split: option.splits)
  with 2 have IH: "jsonRead (jsonEsc (drop (n - 1) s) @ dquote # rest) = Some (drop (n - 1) s, rest)"
    by auto
  have whole: "take n (c # s) @ drop (n - 1) s = c # s"
    using drop_runeLen [OF n] by (metis append_take_drop_id)
  let ?r = "take n (c # s)" and ?t = "jsonEsc (drop (n - 1) s) @ dquote # rest"
  define e where "e = (if n = 1 then jsonByte c
           else if ?r = bytes [0xE2, 0x80, 0xA8] then bslash # ''u2028''
           else if ?r = bytes [0xE2, 0x80, 0xA9] then bslash # ''u2029'' else ?r)"
  have esc: "jsonEsc (c # s) = e @ jsonEsc (drop (n - 1) s)"
    by (simp add: e_def n)
  have "jsonRead (e @ ?t) = Some (?r @ drop (n - 1) s, rest)"
  proof (cases "n = 1")
    case True
    then have "e = jsonByte c" and "?r = [c]" by (simp_all add: e_def)
    with jsonRead_byte [OF IH] show ?thesis by simp
  next
    case False
    have u: "jsonRead (bslash # CHR ''u'' # a # b # x # y # ?t)
        = Some (unescU a b x y @ drop (n - 1) s, rest)" for a b x y
      using IH by simp
    consider "?r = bytes [0xE2, 0x80, 0xA8]" | "?r = bytes [0xE2, 0x80, 0xA9]" | "e = ?r"
      using False unfolding e_def by metis
    then show ?thesis
    proof cases
      case 1
      with False have "e = bslash # ''u2028''" by (simp add: e_def)
      with u 1 show ?thesis by (simp add: unescU_def del: jsonRead.simps)
    next
      case 2
      with False have "e = bslash # ''u2029''" by (simp add: e_def bytes_def)
      with u 2 show ?thesis by (simp add: unescU_def del: jsonRead.simps)
    next
      case 3
      with jsonRead_rune [OF n False IH] show ?thesis by simp
    qed
  qed
  with esc whole show ?case by simp
qed simp

lemma jsonEsc_inj:
  assumes "validUTF8 a" "validUTF8 b" "jsonEsc a @ dquote # u = jsonEsc b @ dquote # v"
  shows "a = b \<and> u = v"
proof -
  have "Some (a, u) = jsonRead (jsonEsc a @ dquote # u)"
    by (rule jsonRead_jsonEsc [OF assms(1), symmetric])
  also have "\<dots> = jsonRead (jsonEsc b @ dquote # v)" by (rule arg_cong [OF assms(3)])
  also have "\<dots> = Some (b, v)" by (rule jsonRead_jsonEsc [OF assms(2)])
  finally show ?thesis by blast
qed

lemma jsonStrings_inj:
  assumes "jsonStrings xs = jsonStrings ys" and "length xs = length ys"
    and "list_all validUTF8 xs" and "list_all validUTF8 ys"
  shows "xs = ys"
proof -
  have "joinWith '','' (map jsonString xs) @ '']'' = joinWith '','' (map jsonString ys) @ '']''"
    using assms(1) by (simp add: jsonStrings_def)
  with assms(2-4) show ?thesis
  proof (induction xs ys rule: list_induct2)
    case (Cons x xs y ys)
    have valid: "validUTF8 x" "validUTF8 y" using Cons.prems by simp_all
    show ?case
    proof (cases "xs = []")
      case True
      with Cons.hyps Cons.prems(3) have "jsonEsc x @ dquote # '']'' = jsonEsc y @ dquote # '']''"
        by (simp add: jsonString_def)
      with jsonEsc_inj [OF valid] True Cons.hyps show ?thesis by simp
    next
      case False
      with Cons.hyps have ne: "ys \<noteq> []" by auto
      have "jsonString x @ '','' @ joinWith '','' (map jsonString xs) @ '']''
          = jsonString y @ '','' @ joinWith '','' (map jsonString ys) @ '']''"
        using Cons.prems(3) False ne by (simp add: joinWith_Cons)
      then have "jsonEsc x @ dquote # '','' @ joinWith '','' (map jsonString xs) @ '']''
          = jsonEsc y @ dquote # '','' @ joinWith '','' (map jsonString ys) @ '']''"
        unfolding jsonString_def [of x] jsonString_def [of y] by simp
      then have "x = y"
        and "joinWith '','' (map jsonString xs) @ '']'' = joinWith '','' (map jsonString ys) @ '']''"
        using jsonEsc_inj [OF valid] by (blast, force dest: jsonEsc_inj [OF valid])
      with Cons show ?thesis by simp
    qed
  qed simp
qed

end
