(* ===== verification/Conditions.thy ===== *)
theory Conditions
  imports Kube_Reference Go_Utf8
begin

text \<open>
  \<open>conditions.go\<close> and the condition part of \<open>odoobackup_status.go\<close>: the pure mapping from what a
  reconcile found to the conditions of a status. \<open>SetStatusCondition\<close> and its relatives are
  apimachinery functions and stay parameters; \<open>lawfulConditions\<close> states what they document.
\<close>

section \<open>Phases of the controllers\<close>

abbreviation (input) "phaseFailed \<equiv> ''Failed''"
abbreviation (input) "phasePending \<equiv> ''Pending''"
abbreviation (input) "phaseSynced \<equiv> ''Synced''"
abbreviation (input) "phaseSyncing \<equiv> ''Syncing''"
abbreviation (input) "phaseCreating \<equiv> ''Creating''"
abbreviation (input) "phaseRunning \<equiv> ''Running''"
abbreviation (input) "phaseFailing \<equiv> ''Failed''"
abbreviation (input) "gatePhaseUpgrading \<equiv> ''Upgrading''"
abbreviation (input) "gatePhaseUpgradeFailed \<equiv> ''UpgradeFailed''"
abbreviation (input) "phaseInitializing \<equiv> ''Initializing''"
abbreviation (input) "phaseInitFailed \<equiv> ''InitializationFailed''"

abbreviation (input) "condTrue \<equiv> ''True''"
abbreviation (input) "condFalse \<equiv> ''False''"
abbreviation (input) "condUnknown \<equiv> ''Unknown''"

section \<open>Building and merging conditions\<close>

definition newCondition :: "string \<Rightarrow> string \<Rightarrow> string \<Rightarrow> string \<Rightarrow> condition" where
  "newCondition typ status reason message =
     \<lparr>condType = typ, condStatus = status, condReason = reason, condMessage = message, condGeneration = 0\<rparr>"

definition setConditions :: "'m kubelib_scheme \<Rightarrow> condition list \<Rightarrow> int \<Rightarrow> condition list \<Rightarrow> condition list" where
  "setConditions L conds gen want = foldl (\<lambda>cs c. SetStatusCondition L cs (c\<lparr>condGeneration := gen\<rparr>)) conds want"

definition withReason :: "string \<Rightarrow> goerr \<Rightarrow> goerr" where
  "withReason reason err = TagError reason err"

fun reconcileErrorReason :: "goerr \<Rightarrow> string" where
  "reconcileErrorReason (TagError reason _) = reason"
| "reconcileErrorReason (WrapError _ e) = reconcileErrorReason e"
| "reconcileErrorReason _ = ReasonReconcileError"

definition shortID :: "string \<Rightarrow> string" where
  "shortID s = (if length s > 12 then take 12 s else s)"

section \<open>OdooInstance\<close>

record instanceCondFacts =
  factPhase :: string
  DeploymentFound :: bool
  ReadyReplicas :: int
  DesiredReplicas :: int
  factActiveUpgrade :: string
  UpgradeMessage :: string
  factInitUpgrade :: string
  InitMessage :: string
  ErrReason :: string
  ErrMessage :: string

definition replicasText :: "instanceCondFacts \<Rightarrow> string" where
  "replicasText f = intDec (ReadyReplicas f) @ ''/'' @ intDec (DesiredReplicas f) @ '' replicas ready''"

definition instanceReadyCond :: "instanceCondFacts \<Rightarrow> condition" where
  "instanceReadyCond f =
     (if DeploymentFound f \<and> ReadyReplicas f \<ge> DesiredReplicas f
      then newCondition ConditionTypeReady condTrue ReasonAllReplicasReady (replicasText f)
      else newCondition ConditionTypeReady condFalse ReasonDeploymentNotReady
             (if \<not> DeploymentFound f then ''Deployment not created yet''
              else ''waiting for pods: '' @ replicasText f))"

definition instanceConditions :: "instanceCondFacts \<Rightarrow> condition list" where
  "instanceConditions f =
    (let healthy = newCondition ConditionTypeDegraded condFalse ReasonAsExpected ''no reconcile errors'' in
     if ErrMessage f \<noteq> '''' then
       (let reason = (if ErrReason f = '''' then ReasonReconcileError else ErrReason f) in
        [newCondition ConditionTypeReady condFalse reason (ErrMessage f),
         newCondition ConditionTypeProgressing condFalse ReasonReconcileError
           ''reconcile stopped by an error; it is retried'',
         newCondition ConditionTypeDegraded condTrue reason (ErrMessage f)])
     else if factPhase f = phaseRunning then
       [newCondition ConditionTypeReady condTrue ReasonAllReplicasReady (replicasText f),
        newCondition ConditionTypeProgressing condFalse ReasonReconciled ''no rollout in progress'',
        healthy]
     else if factPhase f = gatePhaseUpgrading then
       [instanceReadyCond f,
        newCondition ConditionTypeProgressing condTrue ReasonUpgrading
          (''OdooUpgrade '' @ goQuote (factActiveUpgrade f)
            @ '' is running; pods stay on the previous addons revision''),
        healthy]
     else if factPhase f = phaseInitializing then
       [newCondition ConditionTypeReady condFalse ReasonInitializing
          (''OdooUpgrade '' @ goQuote (factInitUpgrade f)
            @ '' is initialising the database; pods stay at 0 replicas''),
        newCondition ConditionTypeProgressing condTrue ReasonInitializing ''database initialisation is running'',
        healthy]
     else if factPhase f = phaseInitFailed then
       (let detail = (if InitMessage f = '''' then ''initialisation failed'' else InitMessage f);
            msg = ''OdooUpgrade '' @ goQuote (factInitUpgrade f) @ '' failed; pods stay at 0 replicas: '' @ detail in
        [newCondition ConditionTypeReady condFalse ReasonInitializationFailed msg,
         newCondition ConditionTypeProgressing condFalse ReasonInitializationFailed
           ''initialisation stopped; delete the failed OdooUpgrade to retry'',
         newCondition ConditionTypeDegraded condTrue ReasonInitializationFailed msg])
     else if factPhase f = gatePhaseUpgradeFailed then
       (let msg = ''OdooUpgrade '' @ goQuote (factActiveUpgrade f)
              @ '' failed; pods stay on the previous addons revision''
              @ (if UpgradeMessage f \<noteq> '''' then '': '' @ UpgradeMessage f else '''') in
        [newCondition ConditionTypeReady condFalse ReasonUpgradeFailed msg,
         newCondition ConditionTypeProgressing condFalse ReasonUpgradeFailed
           ''rollout held until the upgrade is fixed'',
         newCondition ConditionTypeDegraded condTrue ReasonUpgradeFailed msg])
     else
       [instanceReadyCond f,
        newCondition ConditionTypeProgressing condTrue ReasonReconciling ''rolling out the Deployment'',
        healthy])"

definition instanceSummary :: "'m kubelib_scheme \<Rightarrow> condition list \<Rightarrow> string" where
  "instanceSummary L conds =
     (case FindStatusCondition L conds ConditionTypeDegraded of
        Some c \<Rightarrow> if condStatus c = condTrue then condMessage c else
          (case FindStatusCondition L conds ConditionTypeReady of
             Some r \<Rightarrow> if condStatus r \<noteq> condTrue then condMessage r else ''''
           | None \<Rightarrow> '''')
      | None \<Rightarrow>
          (case FindStatusCondition L conds ConditionTypeReady of
             Some r \<Rightarrow> if condStatus r \<noteq> condTrue then condMessage r else ''''
           | None \<Rightarrow> ''''))"

section \<open>OdooAddon\<close>

definition keptReasonMessage :: "'m kubelib_scheme \<Rightarrow> condition list \<Rightarrow> string \<times> string" where
  "keptReasonMessage L conds =
     (case FindStatusCondition L conds ConditionTypeReady of
        None \<Rightarrow> ('''', '''')
      | Some c \<Rightarrow> (condReason c, condMessage c))"

definition addonModuleConflictMarker :: string where
  "addonModuleConflictMarker = ''is already provided by addon''"

definition addonFailureReason :: "string \<Rightarrow> string" where
  "addonFailureReason logs =
     (if strContains logs addonModuleConflictMarker then ReasonModuleConflict else ReasonSyncFailed)"

definition addonConditions :: "addon_status \<Rightarrow> string \<Rightarrow> string \<Rightarrow> condition list" where
  "addonConditions st reason msg =
    (let noErrors = newCondition ConditionTypeDegraded condFalse ReasonAsExpected ''no sync errors'' in
     if addonPhase st = phaseSynced then
       [newCondition ConditionTypeReady condTrue ReasonSynced
          (''synced commit '' @ shortID (ClonedCommit st) @ '' with ''
            @ natDec (length (addonStatusModules st)) @ '' module(s)''),
        newCondition ConditionTypeProgressing condFalse ReasonSynced ''no sync in progress'',
        noErrors]
     else if addonPhase st = phaseSyncing then
       [newCondition ConditionTypeReady condFalse ReasonSyncing ''waiting for the sync Job'',
        newCondition ConditionTypeProgressing condTrue ReasonSyncing ''sync Job is running'',
        noErrors]
     else if addonPhase st = phaseFailed then
       (let reason = (if reason = '''' then ReasonSyncFailed else reason);
            msg = (if msg = '''' then addonMessage st else msg) in
        [newCondition ConditionTypeReady condFalse reason msg,
         newCondition ConditionTypeProgressing condFalse reason ''not syncing; the operator retries'',
         newCondition ConditionTypeDegraded condTrue reason msg])
     else if addonPhase st = phasePending then
       (let reason = (if reason = '''' then ReasonPending else reason);
            msg = (if msg = '''' then ''waiting for the instance'' else msg) in
        [newCondition ConditionTypeReady condFalse reason msg,
         newCondition ConditionTypeProgressing condFalse ReasonPending msg,
         noErrors])
     else
       [newCondition ConditionTypeReady condFalse ReasonPending ''not reconciled yet'',
        newCondition ConditionTypeProgressing condFalse ReasonPending ''not reconciled yet'',
        noErrors])"

section \<open>OdooUpgrade\<close>

definition upgradeConditions :: "upgrade_status \<Rightarrow> string \<Rightarrow> condition list" where
  "upgradeConditions st reason =
    (if upPhase st = UpgradePhaseSucceeded then
       [newCondition ConditionTypeSucceeded condTrue ReasonComplete ''upgrade Job completed'',
        newCondition ConditionTypeProgressing condFalse ReasonComplete ''upgrade finished'']
     else if upPhase st = UpgradePhaseRunning then
       (let msg = ''upgrade Job '' @ upJobName st @ '' is running'' in
        [newCondition ConditionTypeSucceeded condUnknown ReasonRunning msg,
         newCondition ConditionTypeProgressing condTrue ReasonRunning msg])
     else if upPhase st = UpgradePhaseFailed then
       (let reason = (if reason = '''' then ReasonJobFailed else reason);
            msg = (if upMessage st = '''' then ''upgrade failed'' else upMessage st) in
        [newCondition ConditionTypeSucceeded condFalse reason msg,
         newCondition ConditionTypeProgressing condFalse reason ''upgrade stopped''])
     else
       (let reason = (if reason = '''' then ReasonPending else reason);
            msg = (if upMessage st = '''' then ''waiting to start'' else upMessage st) in
        [newCondition ConditionTypeSucceeded condUnknown reason msg,
         newCondition ConditionTypeProgressing condFalse ReasonPending msg]))"

section \<open>OdooBackup\<close>

definition backupConditions :: "backup_status \<Rightarrow> string \<Rightarrow> condition list" where
  "backupConditions st reason =
    (let noErrors = newCondition ConditionTypeDegraded condFalse ReasonAsExpected ''no backup errors'' in
     if bkPhase st = BackupPhaseSucceeded then
       [newCondition ConditionTypeSucceeded condTrue ReasonComplete
          (if bkLastBackup st \<noteq> '''' then ''backup completed: '' @ bkLastBackup st else ''backup completed''),
        newCondition ConditionTypeProgressing condFalse ReasonComplete ''backup finished'',
        noErrors]
     else if bkPhase st = BackupPhaseRunning then
       (let msg = ''backup Job '' @ bkJobName st @ '' is running'' in
        [newCondition ConditionTypeSucceeded condUnknown ReasonRunning msg,
         newCondition ConditionTypeProgressing condTrue ReasonRunning msg,
         noErrors])
     else if bkPhase st = BackupPhaseFailed then
       (let reason = (if reason = '''' then ReasonJobFailed else reason);
            msg = (if bkMessage st = '''' then ''backup failed'' else bkMessage st) in
        [newCondition ConditionTypeSucceeded condFalse reason msg,
         newCondition ConditionTypeProgressing condFalse reason ''backup stopped'',
         newCondition ConditionTypeDegraded condTrue reason msg])
     else if bkPhase st = BackupPhaseScheduled then
       [if bkLastSuccessfulTime st \<noteq> None
        then newCondition ConditionTypeSucceeded condTrue ReasonComplete ''last scheduled backup succeeded''
        else newCondition ConditionTypeSucceeded condUnknown ReasonScheduled
               ''no scheduled backup has completed yet'',
        newCondition ConditionTypeProgressing condFalse ReasonScheduled
          (''CronJob '' @ bkCronJobName st @ '' runs the backups''),
        noErrors]
     else
       (let reason = (if reason = '''' then ReasonPending else reason);
            msg = (if bkMessage st = '''' then ''waiting to start'' else bkMessage st) in
        [newCondition ConditionTypeSucceeded condUnknown reason msg,
         newCondition ConditionTypeProgressing condFalse ReasonPending msg,
         noErrors]))"

section \<open>Merging conditions\<close>

lemma find_setConditions:
  assumes "lawfulConditions L"
  shows "FindStatusCondition L (setConditions L cs gen want) t =
    (case find (\<lambda>c. condType c = t) (rev want) of
       Some c \<Rightarrow> Some (c\<lparr>condGeneration := gen\<rparr>) | None \<Rightarrow> FindStatusCondition L cs t)"
proof (induction want rule: rev_induct)
  case (snoc c want)
  with assms show ?case by (simp add: setConditions_def lawfulConditions_def)
qed (simp add: setConditions_def)

lemma setConditions_same:
  assumes "lawfulConditions L"
    and "list_all (\<lambda>c. FindStatusCondition L cs (condType c) = Some (c\<lparr>condGeneration := gen\<rparr>)) want"
  shows "setConditions L cs gen want = cs"
  using assms(2)
proof (induction want)
  case (Cons c want)
  moreover have "FindStatusCondition L cs (condType c) = Some (c\<lparr>condGeneration := gen\<rparr>)"
    using Cons.prems by simp
  then have "SetStatusCondition L cs (c\<lparr>condGeneration := gen\<rparr>) = cs"
    using assms(1) unfolding lawfulConditions_def by (metis condition.select_convs(1) condition.surjective condition.update_convs(5))
  ultimately show ?case by (simp add: setConditions_def)
qed (simp add: setConditions_def)

lemma find_rev_distinct:
  assumes "distinct (map condType want)" and "c \<in> set want"
  shows "find (\<lambda>d. condType d = condType c) (rev want) = Some c"
  using assms
proof (induction want rule: rev_induct)
  case (snoc d want)
  then show ?case by (auto simp: image_iff)
qed simp

lemma setConditions_idem:
  assumes "lawfulConditions L" and "distinct (map condType want)"
  shows "setConditions L (setConditions L cs gen want) gen want = setConditions L cs gen want"
  using assms by (intro setConditions_same) (auto simp: list_all_iff find_setConditions find_rev_distinct)

text \<open>The types each mapping sets, and what its statuses say about each other.\<close>

lemma newCondition_simps [simp]:
  "condType (newCondition t s r m) = t" "condStatus (newCondition t s r m) = s"
  "condReason (newCondition t s r m) = r" "condMessage (newCondition t s r m) = m"
  by (simp_all add: newCondition_def)

lemma replicasText_neq_Nil [simp]: "replicasText f \<noteq> []"
  by (simp add: replicasText_def)

lemma instanceReadyCond_simps [simp]:
  "condType (instanceReadyCond f) = ConditionTypeReady"
  "condMessage (instanceReadyCond f) \<noteq> []"
  by (simp_all add: instanceReadyCond_def)

lemma instanceConditions_shape:
  "\<exists>r p d. instanceConditions f = [r, p, d] \<and> condType r = ConditionTypeReady
     \<and> condType p = ConditionTypeProgressing \<and> condType d = ConditionTypeDegraded
     \<and> (condStatus d = condTrue \<longrightarrow> condStatus r = condFalse \<and> condMessage d = condMessage r)
     \<and> condMessage r \<noteq> []"
  unfolding instanceConditions_def Let_def by (simp split: if_split)

lemma upgradeConditions_types:
  "map condType (upgradeConditions st reason) = [ConditionTypeSucceeded, ConditionTypeProgressing]"
  by (simp add: upgradeConditions_def Let_def)

lemma backupConditions_types:
  "map condType (backupConditions st reason) =
     [ConditionTypeSucceeded, ConditionTypeProgressing, ConditionTypeDegraded]"
  by (simp add: backupConditions_def Let_def)

lemma addonConditions_types:
  "map condType (addonConditions st reason msg) =
     [ConditionTypeReady, ConditionTypeProgressing, ConditionTypeDegraded]"
  by (simp add: addonConditions_def Let_def)

section \<open>Properties\<close>

text \<open>After the conditions of an OdooInstance are merged into any earlier conditions, Ready and
  Degraded exist and carry the observed generation, they are never both True, and the status message
  is empty exactly when the instance is Ready and is Ready's own message otherwise.\<close>

theorem instance_status_consistent:
  assumes "lawfulConditions L"
  shows "\<exists>r d. FindStatusCondition L (setConditions L cs gen (instanceConditions f)) ConditionTypeReady = Some r
    \<and> FindStatusCondition L (setConditions L cs gen (instanceConditions f)) ConditionTypeDegraded = Some d
    \<and> condGeneration r = gen \<and> condGeneration d = gen
    \<and> \<not> (condStatus r = condTrue \<and> condStatus d = condTrue)
    \<and> condMessage r \<noteq> ''''
    \<and> instanceSummary L (setConditions L cs gen (instanceConditions f)) =
        (if condStatus r = condTrue then '''' else condMessage r)"
proof -
  obtain r p d where shape: "instanceConditions f = [r, p, d]" "condType r = ConditionTypeReady"
    "condType p = ConditionTypeProgressing" "condType d = ConditionTypeDegraded"
    and d: "condStatus d = condTrue \<longrightarrow> condStatus r = condFalse \<and> condMessage d = condMessage r"
    and r: "condMessage r \<noteq> []"
    using instanceConditions_shape [of f] by metis
  have "FindStatusCondition L (setConditions L cs gen [r, p, d]) ConditionTypeReady = Some (r\<lparr>condGeneration := gen\<rparr>)"
    and "FindStatusCondition L (setConditions L cs gen [r, p, d]) ConditionTypeDegraded = Some (d\<lparr>condGeneration := gen\<rparr>)"
    using shape(2-4) by (simp_all add: find_setConditions [OF assms])
  with shape(1) d r show ?thesis by (auto simp: instanceSummary_def)
qed

theorem instance_status_consistent_witness:
  "\<exists>f. instanceSummary refLib (setConditions refLib [] 3 (instanceConditions f)) = ''database down''"
proof -
  let ?f = "\<lparr>factPhase = phaseFailing, DeploymentFound = True, ReadyReplicas = 0, DesiredReplicas = 1,
    factActiveUpgrade = '''', UpgradeMessage = '''', factInitUpgrade = '''', InitMessage = '''',
    ErrReason = '''', ErrMessage = ''database down''\<rparr>"
  let ?cs = "setConditions refLib [] 3 (instanceConditions ?f)"
  have "FindStatusCondition refLib ?cs ConditionTypeReady
      = Some \<lparr>condType = ConditionTypeReady, condStatus = condFalse, condReason = ReasonReconcileError,
          condMessage = ''database down'', condGeneration = 3\<rparr>"
    by code_simp
  with instance_status_consistent [OF lawfulConditions_ref, of "[]" 3 ?f]
  have "instanceSummary refLib ?cs = ''database down''" by fastforce
  then show ?thesis by blast
qed

text \<open>Deriving and merging the same conditions again changes nothing, for each of the four kinds
  of object, so an unchanged status is recognised as unchanged.\<close>

theorem conditions_stable:
  assumes "lawfulConditions L"
  shows "setConditions L (setConditions L cs gen (instanceConditions f)) gen (instanceConditions f)
           = setConditions L cs gen (instanceConditions f)
    \<and> setConditions L (setConditions L cs gen (addonConditions a reason msg)) gen (addonConditions a reason msg)
           = setConditions L cs gen (addonConditions a reason msg)
    \<and> setConditions L (setConditions L cs gen (upgradeConditions u reason)) gen (upgradeConditions u reason)
           = setConditions L cs gen (upgradeConditions u reason)
    \<and> setConditions L (setConditions L cs gen (backupConditions b reason)) gen (backupConditions b reason)
           = setConditions L cs gen (backupConditions b reason)"
proof -
  have "distinct (map condType (instanceConditions f))"
    using instanceConditions_shape [of f] by auto
  then show ?thesis
    by (simp add: setConditions_idem [OF assms] addonConditions_types upgradeConditions_types
        backupConditions_types)
qed

theorem conditions_stable_witness:
  "\<exists>st. setConditions refLib (setConditions refLib [] 1 (upgradeConditions st '''')) 1 (upgradeConditions st '''')
     = setConditions refLib [] 1 (upgradeConditions st '''')"
  using conditions_stable [OF lawfulConditions_ref] by blast

end
