(* ===== verification/Events.thy ===== *)
theory Events
  imports Conditions
begin

text \<open>
  \<open>events.go\<close> and \<open>backupEvents\<close> of \<open>odoobackup_status.go\<close>: which Kubernetes Events a status change
  emits. The transition functions are pure; \<open>emitEvents\<close> is the only part that calls the recorder.
  The locale \<open>transition_events\<close> is the contract the four transition functions share.
\<close>

section \<open>Transitions\<close>

abbreviation (input) "EventTypeNormal \<equiv> ''Normal''"
abbreviation (input) "EventTypeWarning \<equiv> ''Warning''"

record statusEvent =
  evType :: string
  evReason :: string
  evAction :: string
  evMessage :: string
  RelatedUpgrade :: string

definition newlyTrue :: "'m kubelib_scheme \<Rightarrow> condition list \<Rightarrow> condition list \<Rightarrow> string \<Rightarrow> condition option" where
  "newlyTrue L before after typ =
     (case FindStatusCondition L after typ of
        None \<Rightarrow> None
      | Some a \<Rightarrow>
          if condStatus a \<noteq> condTrue then None
          else (case FindStatusCondition L before typ of
                  Some b \<Rightarrow> if condStatus b = condTrue \<and> condReason b = condReason a \<and> condMessage b = condMessage a
                            then None else Some a
                | None \<Rightarrow> Some a))"

definition instanceEvents :: "'m kubelib_scheme \<Rightarrow> instance_status \<Rightarrow> instance_status \<Rightarrow> string \<Rightarrow> statusEvent list" where
  "instanceEvents L before after succeededUpgrade =
     (case newlyTrue L (instConds before) (instConds after) ConditionTypeDegraded of
        None \<Rightarrow> []
      | Some c \<Rightarrow>
          if condReason c = ReasonUpgradeFailed then
            [\<lparr>evType = EventTypeWarning, evReason = ''UpgradeFailed'', evAction = ''Upgrade'',
              evMessage = condMessage c, RelatedUpgrade = ActiveUpgrade after\<rparr>]
          else if condReason c = ReasonInitializationFailed then
            [\<lparr>evType = EventTypeWarning, evReason = ''InitializationFailed'', evAction = ''Initialize'',
              evMessage = condMessage c, RelatedUpgrade = InitUpgrade after\<rparr>]
          else
            [\<lparr>evType = EventTypeWarning, evReason = ''ReconcileFailed'', evAction = ''Reconcile'',
              evMessage = condMessage c, RelatedUpgrade = ''''\<rparr>])
     @ (if ActiveUpgrade after \<noteq> '''' \<and> ActiveUpgrade after \<noteq> ActiveUpgrade before then
          [\<lparr>evType = EventTypeNormal, evReason = ''UpgradeStarted'', evAction = ''Upgrade'',
            evMessage = ''OdooUpgrade '' @ goQuote (ActiveUpgrade after)
              @ '' started; pods stay on the previous addons revision'',
            RelatedUpgrade = ActiveUpgrade after\<rparr>]
        else [])
     @ (if succeededUpgrade \<noteq> '''' then
          [\<lparr>evType = EventTypeNormal, evReason = ''UpgradeSucceeded'', evAction = ''Upgrade'',
            evMessage = ''OdooUpgrade '' @ goQuote succeededUpgrade
              @ '' succeeded; rolling out the new addons revision'',
            RelatedUpgrade = succeededUpgrade\<rparr>]
        else [])
     @ (if AppliedAddonsHash after \<noteq> '''' \<and> AppliedAddonsHash after \<noteq> AppliedAddonsHash before then
          [\<lparr>evType = EventTypeNormal, evReason = ''RolledOut'', evAction = ''Reconcile'',
            evMessage = ''pods rolled out with addons revision '' @ shortID (AppliedAddonsHash after),
            RelatedUpgrade = ''''\<rparr>]
        else [])"

definition addonEvents :: "'m kubelib_scheme \<Rightarrow> addon_status \<Rightarrow> addon_status \<Rightarrow> statusEvent list" where
  "addonEvents L before after =
     (if addonPhase after = phaseSyncing \<and> addonPhase before \<noteq> phaseSyncing then
        [\<lparr>evType = EventTypeNormal, evReason = ''SyncStarted'', evAction = ''Sync'',
          evMessage = ''sync Job started'', RelatedUpgrade = ''''\<rparr>]
      else [])
     @ (if addonPhase after = phaseSynced
           \<and> (addonPhase before \<noteq> phaseSynced \<or> ClonedCommit before \<noteq> ClonedCommit after) then
          [\<lparr>evType = EventTypeNormal, evReason = ''SyncSucceeded'', evAction = ''Sync'',
            evMessage = ''synced commit '' @ shortID (ClonedCommit after) @ ''; modules: ''
              @ (if addonStatusModules after \<noteq> [] then joinWith '', '' (addonStatusModules after) else ''none reported''),
            RelatedUpgrade = ''''\<rparr>]
        else [])
     @ (case newlyTrue L (addonConds before) (addonConds after) ConditionTypeDegraded of
          None \<Rightarrow> []
        | Some c \<Rightarrow>
            if condReason c = ReasonModuleConflict then
              [\<lparr>evType = EventTypeWarning, evReason = ''ModuleConflict'', evAction = ''Sync'',
                evMessage = condMessage c, RelatedUpgrade = ''''\<rparr>]
            else
              [\<lparr>evType = EventTypeWarning, evReason = ''SyncFailed'', evAction = ''Sync'',
                evMessage = condReason c @ '': '' @ condMessage c, RelatedUpgrade = ''''\<rparr>])"

definition upgradeEvents :: "upgrade_status \<Rightarrow> upgrade_status \<Rightarrow> statusEvent list" where
  "upgradeEvents before after =
     (if upPhase after = UpgradePhaseRunning \<and> upPhase before \<noteq> UpgradePhaseRunning then
        [\<lparr>evType = EventTypeNormal, evReason = ''Started'', evAction = ''Upgrade'',
          evMessage = ''upgrade Job '' @ upJobName after @ '' started'', RelatedUpgrade = ''''\<rparr>]
      else [])
     @ (if upPhase after = UpgradePhaseSucceeded \<and> upPhase before \<noteq> UpgradePhaseSucceeded then
          [\<lparr>evType = EventTypeNormal, evReason = ''Succeeded'', evAction = ''Upgrade'',
            evMessage = ''upgrade Job completed'', RelatedUpgrade = ''''\<rparr>]
        else [])
     @ (if upPhase after = UpgradePhaseFailed \<and> upPhase before \<noteq> UpgradePhaseFailed then
          [\<lparr>evType = EventTypeWarning, evReason = ''Failed'', evAction = ''Upgrade'',
            evMessage = (if upMessage after = '''' then ''upgrade failed'' else upMessage after),
            RelatedUpgrade = ''''\<rparr>]
        else [])"

definition backupEvents :: "backup_status \<Rightarrow> backup_status \<Rightarrow> statusEvent list" where
  "backupEvents before after =
     (if bkPhase after = BackupPhaseRunning \<and> bkPhase before \<noteq> BackupPhaseRunning then
        [\<lparr>evType = EventTypeNormal, evReason = ''Started'', evAction = ''Backup'',
          evMessage = ''backup Job '' @ bkJobName after @ '' started'', RelatedUpgrade = ''''\<rparr>]
      else [])
     @ (if bkPhase after = BackupPhaseSucceeded \<and> bkPhase before \<noteq> BackupPhaseSucceeded then
          [\<lparr>evType = EventTypeNormal, evReason = ''Succeeded'', evAction = ''Backup'',
            evMessage = ''backup Job completed'' @ (if bkLastBackup after \<noteq> '''' then '': '' @ bkLastBackup after else ''''),
            RelatedUpgrade = ''''\<rparr>]
        else [])
     @ (if bkPhase after = BackupPhaseFailed
           \<and> (bkPhase before \<noteq> BackupPhaseFailed \<or> bkMessage before \<noteq> bkMessage after) then
          [\<lparr>evType = EventTypeWarning, evReason = ''Failed'', evAction = ''Backup'',
            evMessage = (if bkMessage after = '''' then ''backup failed'' else bkMessage after),
            RelatedUpgrade = ''''\<rparr>]
        else [])"

section \<open>Emitting\<close>

definition clipEventNote :: "string \<Rightarrow> string" where
  "clipEventNote s = (if length s \<le> 1024 then s else toValidUTF8 (take 1021 s) @ ''...'')"

fun objNamespace :: "obj \<Rightarrow> string" where
  "objNamespace (OAddon x) = metaNamespace (addonMeta x)"
| "objNamespace (OInstance x) = metaNamespace (instMeta x)"
| "objNamespace (OUpgrade x) = metaNamespace (upMeta x)"
| "objNamespace (OBackup x) = metaNamespace (bkMeta x)"
| "objNamespace (OJob x) = metaNamespace (jobMeta x)"
| "objNamespace (OCronJob x) = metaNamespace (cronMeta x)"
| "objNamespace (ODeployment x) = metaNamespace (depMeta x)"
| "objNamespace (OPVC x) = metaNamespace (pvcMeta x)"
| "objNamespace (OPDB x) = metaNamespace (pdbMeta x)"
| "objNamespace (OSecret x) = metaNamespace (secretMeta x)"
| "objNamespace (OPod x) = metaNamespace (podMeta x)"

definition eventNote :: "obj \<Rightarrow> statusEvent \<Rightarrow> event_note" where
  "eventNote regarding e =
     \<lparr>evRegarding = regarding,
      evRelated = (if RelatedUpgrade e \<noteq> '''' then Some (objNamespace regarding, RelatedUpgrade e) else None),
      evNoteType = evType e, evNoteReason = evReason e, evNoteAction = evAction e,
      evNote = clipEventNote (evMessage e)\<rparr>"

fun emitAll :: "'w cluster \<Rightarrow> obj \<Rightarrow> statusEvent list \<Rightarrow> ('w, unit) prog" where
  "emitAll C regarding [] = State_Monad.return ()"
| "emitAll C regarding (e # es) = do {
     _ \<leftarrow> doCall C (EmitEvent (eventNote regarding e));
     emitAll C regarding es
   }"

definition emitEvents :: "'w cluster \<Rightarrow> obj \<Rightarrow> statusEvent list \<Rightarrow> ('w, unit) prog" where
  "emitEvents C regarding evs =
     (if \<not> hasRecorder C then State_Monad.return () else emitAll C regarding evs)"

lemma only_emitEvents [frame_intros]:
  assumes "\<And>n. evRegarding n = regarding \<Longrightarrow> P (EmitEvent n)"
  shows "only P (emitEvents C regarding evs)"
proof -
  have "only P (emitAll C regarding evs)"
    by (induction evs) (auto simp: doCall_def eventNote_def intro!: frame_intros assms)
  then show ?thesis by (simp add: emitEvents_def frame_intros)
qed

text \<open>Emitting appends exactly one event per entry to the history.\<close>

lemma hist_emitAll:
  "\<exists>ps. length ps = length evs
     \<and> hist (snd (run_state (emitAll C regarding evs) s))
       = hist s @ zip (map (\<lambda>e. EmitEvent (eventNote regarding e)) evs) ps"
proof (induction evs arbitrary: s)
  case (Cons e es)
  obtain p w where step: "api C (EmitEvent (eventNote regarding e)) (world s) = (p, w)" by fastforce
  let ?t = "s\<lparr>world := w, hist := hist s @ [(EmitEvent (eventNote regarding e), p)]\<rparr>"
  obtain ps where "length ps = length es"
    "hist (snd (run_state (emitAll C regarding es) ?t))
       = hist ?t @ zip (map (\<lambda>e. EmitEvent (eventNote regarding e)) es) ps"
    using Cons.IH [of ?t] by blast
  then show ?case
    by (intro exI [of _ "p # ps"]) (simp add: doCall_def exec_simps step)
qed (simp add: exec_simps)

section \<open>The contract of the transition functions\<close>

text \<open>The events of a run: those of each pair of consecutive statuses.\<close>

fun trail :: "('s \<Rightarrow> 's \<Rightarrow> 'e list) \<Rightarrow> 's list \<Rightarrow> 'e list" where
  "trail evs (s # t # rest) = evs s t @ trail evs (t # rest)"
| "trail evs _ = []"

locale transition_events =
  fixes evs :: "'s \<Rightarrow> 's \<Rightarrow> statusEvent list"
  assumes quiet: "evs s s = []"
begin

lemma trail_repeat: "trail evs (s # s # rest) = trail evs (s # rest)"
  by (cases rest) (simp_all add: quiet)

text \<open>A status seen again and again emits nothing: only the changes count.\<close>

lemma trail_changes: "trail evs sts = trail evs (remdups_adj sts)"
proof (induction sts rule: remdups_adj.induct)
  case (3 x y xs)
  then show ?case
    by (cases "x = y")
      (simp_all add: trail_repeat del: trail.simps(1), metis remdups_adj_Cons_alt trail.simps(1))
qed simp_all

lemma trail_constant: "list_all (\<lambda>t. t = s) sts \<Longrightarrow> trail evs (s # sts) = []"
  by (induction sts) (simp_all add: quiet)

end

lemma newlyTrue_same [simp]: "newlyTrue L cs cs t = None"
  by (simp add: newlyTrue_def split: option.splits)

interpretation inst_ev: transition_events "\<lambda>before after. instanceEvents L before after ''''"
  by unfold_locales (simp add: instanceEvents_def)

interpretation addon_ev: transition_events "addonEvents L"
  by unfold_locales (simp add: addonEvents_def)

interpretation upgrade_ev: transition_events upgradeEvents
  by unfold_locales (simp add: upgradeEvents_def)

interpretation backup_ev: transition_events backupEvents
  by unfold_locales (simp add: backupEvents_def)

section \<open>Properties\<close>

lemma length_ToValid_take: "length (toValidUTF8 (take n s)) \<le> n"
  using length_toValidUTF8 [of "take n s"] by simp

text \<open>Over any run of statuses, the events of each kind of object depend only on the changes: a
  status that is reconciled and written again without a change emits no event.\<close>

theorem events_once_per_change:
  "trail (\<lambda>before after. instanceEvents L before after '''') is
     = trail (\<lambda>before after. instanceEvents L before after '''') (remdups_adj is)
   \<and> trail (addonEvents L) as = trail (addonEvents L) (remdups_adj as)
   \<and> trail upgradeEvents us = trail upgradeEvents (remdups_adj us)
   \<and> trail backupEvents bs = trail backupEvents (remdups_adj bs)"
  by (intro conjI inst_ev.trail_changes addon_ev.trail_changes upgrade_ev.trail_changes
      backup_ev.trail_changes)

text \<open>An event note is at most 1024 bytes; a longer message is cut to at most 1021 bytes of valid
  UTF-8 followed by three dots, and a message that is valid UTF-8 stays valid.\<close>

theorem clipEventNote_bounds:
  "length (clipEventNote s) \<le> 1024
   \<and> (if length s \<le> 1024 then clipEventNote s = s
      else validUTF8 (clipEventNote s) \<and> hasSuffix (clipEventNote s) ''...'')"
proof -
  have "validUTF8 ''...''" by (intro validUTF8_ascii) (simp add: byteIn_def)
  then have "validUTF8 (toValidUTF8 (take 1021 s) @ ''...'')"
    by (intro validUTF8_append validUTF8_toValid)
  moreover have "hasSuffix (toValidUTF8 (take 1021 s) @ ''...'') ''...''"
    by (simp add: hasSuffix_def hasPrefix_def)
  moreover have "length (toValidUTF8 (take 1021 s) @ ''...'') \<le> 1024"
    using length_ToValid_take [of 1021 s] by simp
  ultimately show ?thesis by (simp add: clipEventNote_def)
qed

definition terminalEvent :: "statusEvent \<Rightarrow> bool" where
  "terminalEvent e \<longleftrightarrow> evReason e = ''Succeeded'' \<or> evReason e = ''Failed''"

fun phaseKept :: "upgrade_status list \<Rightarrow> bool" where
  "phaseKept (s # t # rest) \<longleftrightarrow>
     (if upPhase s = UpgradePhaseSucceeded \<or> upPhase s = UpgradePhaseFailed then upPhase t = upPhase s else True)
     \<and> phaseKept (t # rest)"
| "phaseKept _ \<longleftrightarrow> True"

lemma terminal_silent:
  "phaseKept (s # sts) \<Longrightarrow> upPhase s = UpgradePhaseSucceeded \<or> upPhase s = UpgradePhaseFailed
    \<Longrightarrow> filter terminalEvent (trail upgradeEvents (s # sts)) = []"
proof (induction sts arbitrary: s)
  case (Cons t sts)
  then have "upPhase t = upPhase s" by simp
  with Cons show ?case by (auto simp: upgradeEvents_def terminalEvent_def)
qed simp

lemma terminal_upgradeEvents:
  "filter terminalEvent (upgradeEvents s t) \<noteq> []
    \<Longrightarrow> upPhase t = UpgradePhaseSucceeded \<or> upPhase t = UpgradePhaseFailed"
  by (auto simp: upgradeEvents_def terminalEvent_def split: if_splits)

lemma length_terminal_upgradeEvents: "length (filter terminalEvent (upgradeEvents s t)) \<le> 1"
  by (simp add: upgradeEvents_def terminalEvent_def)

text \<open>Once a terminal phase is never left, an upgrade emits at most one Succeeded or Failed event
  over its whole life, however often it is reconciled.\<close>

theorem upgrade_terminal_once:
  "phaseKept sts \<Longrightarrow> length (filter terminalEvent (trail upgradeEvents sts)) \<le> 1"
proof (induction sts rule: phaseKept.induct)
  case (1 s t rest)
  show ?case
  proof (cases "filter terminalEvent (upgradeEvents s t) = []")
    case True
    with 1 show ?thesis by simp
  next
    case False
    then have "filter terminalEvent (trail upgradeEvents (t # rest)) = []"
      using 1 terminal_upgradeEvents by (intro terminal_silent) auto
    with length_terminal_upgradeEvents show ?thesis by simp
  qed
qed simp_all

theorem upgrade_terminal_once_witness:
  "length (filter terminalEvent (trail upgradeEvents
     [zeroUpgradeStatus\<lparr>upPhase := UpgradePhaseRunning\<rparr>, zeroUpgradeStatus\<lparr>upPhase := UpgradePhaseFailed\<rparr>,
      zeroUpgradeStatus\<lparr>upPhase := UpgradePhaseFailed, upMessage := ''gone''\<rparr>])) \<le> 1"
  by (rule upgrade_terminal_once) simp

end
