(* ===== verification/Admission_Queue.thy ===== *)
theory Admission_Queue
  imports Api_Types
begin

text \<open>
  The admission queues of \<open>odooupgrade_queue.go\<close> and \<open>odoobackup_queue.go\<close>: per instance, one
  upgrade and one one-shot backup runs at a time, oldest first. The locale \<open>admission_queue\<close> is what
  the two controllers rely on; both decision functions are shown to provide it, and the step
  relation \<open>queue_step\<close> plays a queue forward under any such decision.
\<close>

section \<open>Upgrades\<close>

record queueDecision =
  MayStart :: bool
  BlockedBy :: string

definition upgradeOlder :: "upgrade \<Rightarrow> upgrade \<Rightarrow> bool" where
  "upgradeOlder a b =
     (if metaCreated (upMeta a) \<noteq> metaCreated (upMeta b) then metaCreated (upMeta a) < metaCreated (upMeta b)
      else metaName (upMeta a) < metaName (upMeta b))"

fun upgradeDecideStart :: "upgrade \<Rightarrow> upgrade list \<Rightarrow> queueDecision" where
  "upgradeDecideStart candidate [] = \<lparr>MayStart = True, BlockedBy = ''''\<rparr>"
| "upgradeDecideStart candidate (other # rest) =
     (if metaName (upMeta other) = metaName (upMeta candidate)
         \<or> refName (upInstanceRef (upSpec other)) \<noteq> refName (upInstanceRef (upSpec candidate))
      then upgradeDecideStart candidate rest
      else if upPhase (upStatus other) = UpgradePhaseRunning
      then \<lparr>MayStart = False, BlockedBy = metaName (upMeta other)\<rparr>
      else if upPhase (upStatus other) = '''' \<or> upPhase (upStatus other) = UpgradePhasePending
      then (if upgradeOlder other candidate then \<lparr>MayStart = False, BlockedBy = metaName (upMeta other)\<rparr>
            else upgradeDecideStart candidate rest)
      else upgradeDecideStart candidate rest)"

section \<open>Backups\<close>

definition backupOlder :: "backup \<Rightarrow> backup \<Rightarrow> bool" where
  "backupOlder a b =
     (if metaCreated (bkMeta a) \<noteq> metaCreated (bkMeta b) then metaCreated (bkMeta a) < metaCreated (bkMeta b)
      else metaName (bkMeta a) < metaName (bkMeta b))"

fun backupDecideStart :: "backup \<Rightarrow> backup list \<Rightarrow> queueDecision" where
  "backupDecideStart candidate [] = \<lparr>MayStart = True, BlockedBy = ''''\<rparr>"
| "backupDecideStart candidate (other # rest) =
     (if metaName (bkMeta other) = metaName (bkMeta candidate)
         \<or> refName (bkInstanceRef (bkSpec other)) \<noteq> refName (bkInstanceRef (bkSpec candidate))
         \<or> bkSchedule (bkSpec other) \<noteq> ''''
      then backupDecideStart candidate rest
      else if bkPhase (bkStatus other) = BackupPhaseRunning
      then \<lparr>MayStart = False, BlockedBy = metaName (bkMeta other)\<rparr>
      else if bkPhase (bkStatus other) = '''' \<or> bkPhase (bkStatus other) = BackupPhasePending
      then (if backupOlder other candidate then \<lparr>MayStart = False, BlockedBy = metaName (bkMeta other)\<rparr>
            else backupDecideStart candidate rest)
      else backupDecideStart candidate rest)"

section \<open>The contract\<close>

text \<open>
  What a queue is made of: the key and the phase of an entry, the instance it works on (None for an
  entry the queue ignores, a scheduled backup), and the decision.
\<close>

record 'o queue_ops =
  qName :: "'o \<Rightarrow> string"
  qCreated :: "'o \<Rightarrow> int"
  qInstance :: "'o \<Rightarrow> string option"
  qPhase :: "'o \<Rightarrow> string"
  qSetPhase :: "'o \<Rightarrow> string \<Rightarrow> 'o"
  qDecide :: "'o \<Rightarrow> 'o list \<Rightarrow> queueDecision"

definition qWaiting :: "'o queue_ops \<Rightarrow> 'o \<Rightarrow> bool" where
  "qWaiting Q x \<longleftrightarrow> qPhase Q x = '''' \<or> qPhase Q x = ''Pending''"

definition qRunning :: "'o queue_ops \<Rightarrow> 'o \<Rightarrow> bool" where
  "qRunning Q x \<longleftrightarrow> qPhase Q x = ''Running''"

definition qKey :: "'o queue_ops \<Rightarrow> 'o \<Rightarrow> int \<times> string" where
  "qKey Q x = (qCreated Q x, qName Q x)"

definition qOlder :: "'o queue_ops \<Rightarrow> 'o \<Rightarrow> 'o \<Rightarrow> bool" where
  "qOlder Q x y \<longleftrightarrow> qCreated Q x < qCreated Q y \<or> qCreated Q x = qCreated Q y \<and> qName Q x < qName Q y"

definition qBlocks :: "'o queue_ops \<Rightarrow> 'o \<Rightarrow> 'o \<Rightarrow> bool" where
  "qBlocks Q x c \<longleftrightarrow> qName Q x \<noteq> qName Q c \<and> qInstance Q x \<noteq> None \<and> qInstance Q x = qInstance Q c
     \<and> (qRunning Q x \<or> qWaiting Q x \<and> qOlder Q x c)"

text \<open>
  A queue played forward: objects arrive, wait, start when the decision allows it, finish, fail
  without ever starting (an invalid spec), and are deleted.
\<close>

inductive queue_step :: "'o queue_ops \<Rightarrow> 'o list \<Rightarrow> 'o list \<Rightarrow> bool" for Q where
  arrive: "qPhase Q x = '''' \<Longrightarrow> qName Q x \<notin> qName Q ` set os \<Longrightarrow> queue_step Q os (os @ [x])"
| park: "i < length os \<Longrightarrow> qWaiting Q (os ! i) \<Longrightarrow> queue_step Q os (os[i := qSetPhase Q (os ! i) ''Pending''])"
| begin_run: "i < length os \<Longrightarrow> qWaiting Q (os ! i) \<Longrightarrow> qInstance Q (os ! i) \<noteq> None
    \<Longrightarrow> MayStart (qDecide Q (os ! i) os) \<Longrightarrow> queue_step Q os (os[i := qSetPhase Q (os ! i) ''Running''])"
| finish: "i < length os \<Longrightarrow> p = ''Succeeded'' \<or> p = ''Failed'' \<or> p = ''Scheduled''
    \<Longrightarrow> queue_step Q os (os[i := qSetPhase Q (os ! i) p])"
| remove: "queue_step Q (os @ x # os') (os @ os')"

text \<open>At most one entry of an instance runs, and names are unique.\<close>

definition queue_ok :: "'o queue_ops \<Rightarrow> 'o list \<Rightarrow> bool" where
  "queue_ok Q os \<longleftrightarrow> distinct (map (qName Q) os)
     \<and> list_all (\<lambda>x. list_all (\<lambda>y.
          if qRunning Q x \<and> qRunning Q y \<and> qInstance Q x \<noteq> None \<and> qInstance Q x = qInstance Q y
          then qName Q x = qName Q y else True) os) os"

lemma queue_ok_iff:
  "queue_ok Q os \<longleftrightarrow> distinct (map (qName Q) os)
     \<and> (\<forall>x\<in>set os. \<forall>y\<in>set os. qRunning Q x \<longrightarrow> qRunning Q y \<longrightarrow> qInstance Q x \<noteq> None
          \<longrightarrow> qInstance Q x = qInstance Q y \<longrightarrow> qName Q x = qName Q y)"
  by (auto simp: queue_ok_def list_all_iff split: if_splits)

lemma qOlder_linear: "qName Q x \<noteq> qName Q y \<Longrightarrow> qOlder Q x y \<or> qOlder Q y x"
  by (auto simp: qOlder_def)

lemma qOlder_trans: "qOlder Q x y \<Longrightarrow> qOlder Q y z \<Longrightarrow> qOlder Q x z"
  by (auto simp: qOlder_def)

lemma qOlder_irrefl [simp]: "\<not> qOlder Q x x"
  by (simp add: qOlder_def)

locale admission_queue =
  fixes Q :: "'o queue_ops"
  assumes decide_start: "qInstance Q c \<noteq> None \<Longrightarrow> MayStart (qDecide Q c os) \<longleftrightarrow> (\<forall>x\<in>set os. \<not> qBlocks Q x c)"
    and decide_names: "qInstance Q c \<noteq> None \<Longrightarrow> \<not> MayStart (qDecide Q c os)
      \<Longrightarrow> \<exists>x\<in>set os. qBlocks Q x c \<and> BlockedBy (qDecide Q c os) = qName Q x"
    and set_phase: "qName Q (qSetPhase Q x p) = qName Q x" "qInstance Q (qSetPhase Q x p) = qInstance Q x"
      "qPhase Q (qSetPhase Q x p) = p"
begin

text \<open>Two waiting entries of one instance may not both start.\<close>

lemma exclusive:
  assumes "a \<in> set os" "b \<in> set os" "qName Q a \<noteq> qName Q b" "qInstance Q a \<noteq> None"
    "qInstance Q a = qInstance Q b" "qWaiting Q a" "qWaiting Q b"
  shows "\<not> (MayStart (qDecide Q a os) \<and> MayStart (qDecide Q b os))"
  using assms qOlder_linear [of Q a b] by (auto simp: decide_start qBlocks_def)

text \<open>The oldest waiting entry of an instance on which nothing runs may start.\<close>

lemma oldest_starts:
  assumes "c \<in> set os" "qInstance Q c \<noteq> None"
    and "\<And>x. x \<in> set os \<Longrightarrow> qInstance Q x = qInstance Q c \<Longrightarrow> \<not> qRunning Q x"
    and "\<And>x. x \<in> set os \<Longrightarrow> qInstance Q x = qInstance Q c \<Longrightarrow> qWaiting Q x \<Longrightarrow> \<not> qOlder Q x c"
  shows "MayStart (qDecide Q c os)"
  using assms by (auto simp: decide_start qBlocks_def)

lemma oldest_exists:
  assumes "c \<in> set os" and "P c"
  shows "\<exists>m\<in>set os. P m \<and> (\<forall>x\<in>set os. P x \<longrightarrow> \<not> qOlder Q x m)"
  using assms
proof (induction os arbitrary: c)
  case (Cons o1 os)
  show ?case
  proof (cases "\<exists>d\<in>set os. P d")
    case True
    then obtain m where m: "m \<in> set os" "P m" "\<forall>x\<in>set os. P x \<longrightarrow> \<not> qOlder Q x m"
      using Cons.IH by blast
    show ?thesis
    proof (cases "P o1 \<and> qOlder Q o1 m")
      case True
      with m show ?thesis by (intro bexI [of _ o1]) (auto dest: qOlder_trans)
    qed (use m in auto)
  next
    case False
    with Cons.prems show ?thesis by (intro bexI [of _ o1]) auto
  qed
qed simp

text \<open>A queue with waiting entries is never stuck: while nothing runs on the instance, one may start.\<close>

lemma progress:
  assumes "c \<in> set os" "qInstance Q c \<noteq> None" "qWaiting Q c"
    and "\<And>x. x \<in> set os \<Longrightarrow> qInstance Q x = qInstance Q c \<Longrightarrow> \<not> qRunning Q x"
  shows "\<exists>m\<in>set os. qInstance Q m = qInstance Q c \<and> qWaiting Q m \<and> MayStart (qDecide Q m os)"
proof -
  obtain m where "m \<in> set os" "qInstance Q m = qInstance Q c \<and> qWaiting Q m"
    "\<forall>x\<in>set os. qInstance Q x = qInstance Q c \<and> qWaiting Q x \<longrightarrow> \<not> qOlder Q x m"
    using oldest_exists [of c os "\<lambda>x. qInstance Q x = qInstance Q c \<and> qWaiting Q x"] assms by blast
  with assms show ?thesis by (metis oldest_starts)
qed

lemma not_running_phase: "p \<noteq> ''Running'' \<Longrightarrow> \<not> qRunning Q (qSetPhase Q x p)"
  by (simp add: qRunning_def set_phase)

lemma names_update: "i < length os \<Longrightarrow> map (qName Q) (os[i := qSetPhase Q (os ! i) p]) = map (qName Q) os"
  by (simp add: map_update set_phase list_update_same_conv)

lemma ok_update:
  assumes ok: "queue_ok Q os" and i: "i < length os"
    and p: "p \<noteq> ''Running'' \<or> (\<forall>x\<in>set os. qRunning Q x \<longrightarrow> qInstance Q x \<noteq> None
      \<longrightarrow> qInstance Q x = qInstance Q (os ! i) \<longrightarrow> qName Q x = qName Q (os ! i))"
  shows "queue_ok Q (os[i := qSetPhase Q (os ! i) p])"
proof -
  let ?os = "os[i := qSetPhase Q (os ! i) p]"
  have origin: "\<exists>z\<in>set os. qName Q z = qName Q x \<and> qInstance Q z = qInstance Q x
      \<and> (qRunning Q z \<or> z = os ! i \<and> p = ''Running'')"
    if "x \<in> set ?os" "qRunning Q x" for x
  proof (cases "x \<in> set os")
    case False
    with that have "x = qSetPhase Q (os ! i) p" using set_update_subset_insert by fastforce
    with that(2) i show ?thesis
      by (intro bexI [of _ "os ! i"]) (auto simp: set_phase qRunning_def)
  qed (use that in auto)
  have "qName Q x = qName Q y"
    if xy: "x \<in> set ?os" "y \<in> set ?os" "qRunning Q x" "qRunning Q y"
      and inst: "qInstance Q x \<noteq> None" "qInstance Q x = qInstance Q y" for x y
  proof -
    obtain u where u: "u \<in> set os" "qName Q u = qName Q x" "qInstance Q u = qInstance Q x"
      "qRunning Q u \<or> u = os ! i \<and> p = ''Running''" using origin xy by blast
    obtain v where v: "v \<in> set os" "qName Q v = qName Q y" "qInstance Q v = qInstance Q y"
      "qRunning Q v \<or> v = os ! i \<and> p = ''Running''" using origin xy by blast
    have "qName Q u = qName Q v"
      using ok p u v inst unfolding queue_ok_iff by metis
    with u v show ?thesis by simp
  qed
  with ok show ?thesis unfolding queue_ok_iff names_update [OF i] by blast
qed

lemma step_ok: "queue_step Q os os' \<Longrightarrow> queue_ok Q os \<Longrightarrow> queue_ok Q os'"
proof (induction rule: queue_step.induct)
  case (arrive x os)
  then have "\<not> qRunning Q x" by (simp add: qRunning_def)
  with arrive show ?case by (auto simp: queue_ok_iff)
next
  case (begin_run i os)
  then have "\<forall>x\<in>set os. \<not> qBlocks Q x (os ! i)" by (simp add: decide_start)
  with begin_run show ?case by (intro ok_update) (auto simp: qBlocks_def)
next
  case (finish i os p)
  then show ?case by (intro ok_update) auto
next
  case (park i os)
  then show ?case by (intro ok_update) auto
qed (auto simp: queue_ok_iff)

lemma run_ok: "(queue_step Q)\<^sup>*\<^sup>* [] os \<Longrightarrow> queue_ok Q os"
  by (induction rule: rtranclp_induct) (auto simp: step_ok, simp add: queue_ok_def)

lemma run_exclusive:
  assumes "(queue_step Q)\<^sup>*\<^sup>* [] os" "u \<in> set os" "v \<in> set os" "qRunning Q u" "qRunning Q v"
    "qInstance Q u \<noteq> None" "qInstance Q u = qInstance Q v"
  shows "qName Q u = qName Q v"
  using run_ok [OF assms(1)] assms(2-) unfolding queue_ok_iff by blast

end

section \<open>The operator's queues\<close>

text \<open>The upgrade queue and the backup queue as providers of the contract.\<close>

definition upgradeQueue :: "upgrade queue_ops" where
  "upgradeQueue = \<lparr>qName = \<lambda>u. metaName (upMeta u), qCreated = \<lambda>u. metaCreated (upMeta u),
     qInstance = \<lambda>u. Some (refName (upInstanceRef (upSpec u))), qPhase = \<lambda>u. upPhase (upStatus u),
     qSetPhase = \<lambda>u p. u\<lparr>upStatus := (upStatus u)\<lparr>upPhase := p\<rparr>\<rparr>, qDecide = upgradeDecideStart\<rparr>"

definition backupQueue :: "backup queue_ops" where
  "backupQueue = \<lparr>qName = \<lambda>b. metaName (bkMeta b), qCreated = \<lambda>b. metaCreated (bkMeta b),
     qInstance = \<lambda>b. if bkSchedule (bkSpec b) = '''' then Some (refName (bkInstanceRef (bkSpec b))) else None,
     qPhase = \<lambda>b. bkPhase (bkStatus b),
     qSetPhase = \<lambda>b p. b\<lparr>bkStatus := (bkStatus b)\<lparr>bkPhase := p\<rparr>\<rparr>, qDecide = backupDecideStart\<rparr>"

lemmas queue_defs = upgradeQueue_def backupQueue_def qBlocks_def qRunning_def qWaiting_def qOlder_def
  upgradeOlder_def backupOlder_def

lemma queue_sel [simp]:
  "qDecide upgradeQueue = upgradeDecideStart" "qDecide backupQueue = backupDecideStart"
  "qName upgradeQueue u = metaName (upMeta u)" "qName backupQueue b = metaName (bkMeta b)"
  "qInstance upgradeQueue u = Some (refName (upInstanceRef (upSpec u)))"
  "qInstance backupQueue b = (if bkSchedule (bkSpec b) = '''' then Some (refName (bkInstanceRef (bkSpec b))) else None)"
  "qPhase upgradeQueue u = upPhase (upStatus u)" "qPhase backupQueue b = bkPhase (bkStatus b)"
  "qSetPhase upgradeQueue u p = u\<lparr>upStatus := (upStatus u)\<lparr>upPhase := p\<rparr>\<rparr>"
  "qSetPhase backupQueue b p = b\<lparr>bkStatus := (bkStatus b)\<lparr>bkPhase := p\<rparr>\<rparr>"
  by (simp_all add: upgradeQueue_def backupQueue_def)

text \<open>The decision is the first sibling that blocks the candidate, in the order of the list.\<close>

lemma upgrade_blocks:
  "qBlocks upgradeQueue x c \<longleftrightarrow>
     metaName (upMeta x) \<noteq> metaName (upMeta c)
     \<and> refName (upInstanceRef (upSpec x)) = refName (upInstanceRef (upSpec c))
     \<and> (upPhase (upStatus x) = ''Running''
        \<or> (upPhase (upStatus x) = '''' \<or> upPhase (upStatus x) = ''Pending'') \<and> upgradeOlder x c)"
  by (auto simp: qBlocks_def qRunning_def qWaiting_def qOlder_def upgradeOlder_def upgradeQueue_def)

lemma backup_blocks:
  "bkSchedule (bkSpec c) = '''' \<Longrightarrow> qBlocks backupQueue x c \<longleftrightarrow>
     metaName (bkMeta x) \<noteq> metaName (bkMeta c)
     \<and> refName (bkInstanceRef (bkSpec x)) = refName (bkInstanceRef (bkSpec c)) \<and> bkSchedule (bkSpec x) = ''''
     \<and> (bkPhase (bkStatus x) = ''Running''
        \<or> (bkPhase (bkStatus x) = '''' \<or> bkPhase (bkStatus x) = ''Pending'') \<and> backupOlder x c)"
  by (auto simp: qBlocks_def qRunning_def qWaiting_def qOlder_def backupOlder_def backupQueue_def)

lemma upgradeDecideStart_find:
  "upgradeDecideStart c os =
     (case find (\<lambda>x. qBlocks upgradeQueue x c) os of
        None \<Rightarrow> \<lparr>MayStart = True, BlockedBy = ''''\<rparr>
      | Some x \<Rightarrow> \<lparr>MayStart = False, BlockedBy = metaName (upMeta x)\<rparr>)"
  by (induction os) (simp_all add: upgrade_blocks)

lemma backupDecideStart_find:
  "bkSchedule (bkSpec c) = '''' \<Longrightarrow> backupDecideStart c os =
     (case find (\<lambda>x. qBlocks backupQueue x c) os of
        None \<Rightarrow> \<lparr>MayStart = True, BlockedBy = ''''\<rparr>
      | Some x \<Rightarrow> \<lparr>MayStart = False, BlockedBy = metaName (bkMeta x)\<rparr>)"
  by (induction os) (simp_all add: backup_blocks)

lemma find_None_set: "find P xs = None \<longleftrightarrow> (\<forall>x\<in>set xs. \<not> P x)"
  by (auto simp: find_None_iff)

lemma find_Some_set: "find P xs = Some x \<Longrightarrow> x \<in> set xs \<and> P x"
  by (metis find_Some_iff nth_mem)

interpretation uq: admission_queue upgradeQueue
proof
  fix c os
  show "MayStart (qDecide upgradeQueue c os) \<longleftrightarrow> (\<forall>x\<in>set os. \<not> qBlocks upgradeQueue x c)"
    by (simp add: upgradeDecideStart_find flip: find_None_set split: option.split)
  show "\<exists>x\<in>set os. qBlocks upgradeQueue x c \<and> BlockedBy (qDecide upgradeQueue c os) = qName upgradeQueue x"
    if "\<not> MayStart (qDecide upgradeQueue c os)"
    using that by (auto simp: upgradeDecideStart_find split: option.splits dest: find_Some_set)
qed simp_all

interpretation bq: admission_queue backupQueue
proof
  fix c os
  assume "qInstance backupQueue c \<noteq> None"
  then have one_shot: "bkSchedule (bkSpec c) = ''''" by (simp split: if_splits)
  show "MayStart (qDecide backupQueue c os) \<longleftrightarrow> (\<forall>x\<in>set os. \<not> qBlocks backupQueue x c)"
    by (simp add: backupDecideStart_find [OF one_shot] flip: find_None_set split: option.split)
  show "\<exists>x\<in>set os. qBlocks backupQueue x c \<and> BlockedBy (qDecide backupQueue c os) = qName backupQueue x"
    if "\<not> MayStart (qDecide backupQueue c os)"
    using that by (auto simp: backupDecideStart_find [OF one_shot] split: option.splits dest: find_Some_set)
qed simp_all

section \<open>Properties\<close>


lemma upgrade_sample_run: "(queue_step upgradeQueue)\<^sup>*\<^sup>* [] [sampleUpgrade ''Running'']"
proof -
  have "queue_step upgradeQueue [] [sampleUpgrade '''']" using arrive [of upgradeQueue "sampleUpgrade ''''" "[]"] by simp
  moreover have "queue_step upgradeQueue [sampleUpgrade ''''] [sampleUpgrade ''Running'']"
    using begin_run [of 0 "[sampleUpgrade '''']" upgradeQueue] by (simp add: qWaiting_def)
  ultimately show ?thesis by (meson rtranclp.rtrancl_into_rtrancl rtranclp.rtrancl_refl)
qed


text \<open>The backup queue never runs two one-shot backups of an instance at once; scheduled backups do
  not take part.\<close>

theorem backup_queue_exclusive:
  assumes "(queue_step backupQueue)\<^sup>*\<^sup>* [] bks" and "a \<in> set bks" and "b \<in> set bks"
    and "bkPhase (bkStatus a) = BackupPhaseRunning" and "bkPhase (bkStatus b) = BackupPhaseRunning"
    and "bkSchedule (bkSpec a) = ''''" and "bkSchedule (bkSpec b) = ''''"
    and "refName (bkInstanceRef (bkSpec a)) = refName (bkInstanceRef (bkSpec b))"
  shows "metaName (bkMeta a) = metaName (bkMeta b)"
  using bq.run_exclusive [OF assms(1-3)] assms(4-) by (simp add: qRunning_def)

lemma backup_sample_run: "(queue_step backupQueue)\<^sup>*\<^sup>* [] [sampleBackup ''Running'']"
proof -
  have "queue_step backupQueue [] [sampleBackup '''']" using arrive [of backupQueue "sampleBackup ''''" "[]"] by simp
  moreover have "queue_step backupQueue [sampleBackup ''''] [sampleBackup ''Running'']"
    using begin_run [of 0 "[sampleBackup '''']" backupQueue] by (simp add: qWaiting_def)
  ultimately show ?thesis by (meson rtranclp.rtrancl_into_rtrancl rtranclp.rtrancl_refl)
qed

theorem backup_queue_exclusive_witness:
  "metaName (bkMeta (sampleBackup ''Running'')) = metaName (bkMeta (sampleBackup ''Running''))"
  by (rule backup_queue_exclusive [OF backup_sample_run]) simp_all

text \<open>The upgrade queue is never stuck: while no upgrade of the candidate's instance runs and one
  waits, some waiting upgrade of that instance is allowed to start.\<close>

theorem upgrade_queue_progress:
  assumes "c \<in> set ups" and "upPhase (upStatus c) = '''' \<or> upPhase (upStatus c) = UpgradePhasePending"
    and "\<forall>x\<in>set ups. refName (upInstanceRef (upSpec x)) = refName (upInstanceRef (upSpec c))
           \<longrightarrow> upPhase (upStatus x) \<noteq> UpgradePhaseRunning"
  shows "\<exists>m\<in>set ups. refName (upInstanceRef (upSpec m)) = refName (upInstanceRef (upSpec c))
           \<and> (upPhase (upStatus m) = '''' \<or> upPhase (upStatus m) = UpgradePhasePending)
           \<and> MayStart (upgradeDecideStart m ups)"
  using uq.progress [of c ups] assms by (simp add: qWaiting_def qRunning_def)

theorem upgrade_queue_progress_witness:
  "\<exists>m\<in>set [sampleUpgrade ''''].
     refName (upInstanceRef (upSpec m)) = refName (upInstanceRef (upSpec (sampleUpgrade '''')))
     \<and> (upPhase (upStatus m) = '''' \<or> upPhase (upStatus m) = UpgradePhasePending)
     \<and> MayStart (upgradeDecideStart m [sampleUpgrade ''''])"
  by (rule upgrade_queue_progress) simp_all

end
