(* ===== verification/Go_Hash.thy ===== *)
theory Go_Hash
  imports Go_Text "HOL-Library.Word"
begin

text \<open>
  The two hashes the operator takes from Go's standard library: \<open>hash/fnv\<close>'s 32-bit FNV-1a, which
  makes truncated object names unique, and \<open>crypto/sha256\<close>, which fingerprints rendered
  configuration, secrets, addon revisions and sync specs. Both work on \<open>32 word\<close>, whose addition
  and multiplication wrap as Go's \<open>uint32\<close> does. The lemmas give the shape of the results: eight
  and sixty-four hexadecimal digits.
\<close>

unbundle bit_operations_syntax

type_synonym u32 = "32 word"

definition byteWord :: "char \<Rightarrow> u32" where
  "byteWord c = word_of_nat (of_char c)"

section \<open>FNV-1a\<close>

definition fnv32a :: "string \<Rightarrow> u32" where
  "fnv32a s = foldl (\<lambda>h c. (h XOR byteWord c) * 16777619) 2166136261 s"

text \<open>\<open>fmt.Sprintf("%0*x", 8, h.Sum32())\<close>.\<close>

definition wordHex :: "u32 \<Rightarrow> string" where
  "wordHex w = map (\<lambda>k. digitChar (unat (drop_bit k w AND 15))) [28, 24, 20, 16, 12, 8, 4, 0]"

definition fnvHex :: "string \<Rightarrow> string" where
  "fnvHex s = wordHex (fnv32a s)"

lemma length_fnvHex [simp]: "length (fnvHex s) = 8"
  by (simp add: fnvHex_def wordHex_def)

lemma unat_and_mask: "unat ((w :: u32) AND 15) < 16"
proof -
  have "unat (w AND 15) = take_bit 4 (unat w)"
    by (simp add: unsigned_and_eq take_bit_eq_mask mask_eq_exp_minus_1)
  then show ?thesis using take_bit_nat_less_exp [of 4 "unat w"] by simp
qed

lemma list_all_fnvHex: "list_all isHexDigit (fnvHex s)"
  by (simp add: fnvHex_def wordHex_def isHexDigit_digitChar unat_and_mask)

text \<open>A published test vector of the function.\<close>

lemma fnvHex_foobar: "fnvHex ''foobar'' = ''bf9cf968''"
  by code_simp

section \<open>SHA-256\<close>

text \<open>
  The constants of the algorithm by their definition: the first 32 bits of the fractional parts of the
  cube roots of the first 64 primes, and of the square roots of the first eight.
\<close>

definition small_primes :: "int list" where
  "small_primes = map int (filter (\<lambda>n. 2 \<le> n \<and> list_all (\<lambda>d. n mod d \<noteq> 0) [2..<n]) [0..<312])"

definition int_root :: "nat \<Rightarrow> int \<Rightarrow> int" where
  "int_root k n = foldl (\<lambda>r b. let t = r + 2 ^ b in if t ^ k \<le> n then t else r) 0 (rev [0..<40])"

definition root_fraction :: "nat \<Rightarrow> int \<Rightarrow> u32" where
  "root_fraction k p = word_of_int (int_root k (p * 2 ^ (32 * k)))"

definition sha_k :: "u32 list" where
  "sha_k = map (root_fraction 3) small_primes"

text \<open>The eight working words of the compression function.\<close>

type_synonym sha_state = "u32 \<times> u32 \<times> u32 \<times> u32 \<times> u32 \<times> u32 \<times> u32 \<times> u32"

fun sha_state_of :: "u32 list \<Rightarrow> sha_state" where
  "sha_state_of [a, b, c, d, e, f, g, h] = (a, b, c, d, e, f, g, h)"
| "sha_state_of _ = (0, 0, 0, 0, 0, 0, 0, 0)"

definition sha_init :: sha_state where
  "sha_init = sha_state_of (map (root_fraction 2) (take 8 small_primes))"

definition rotr :: "nat \<Rightarrow> u32 \<Rightarrow> u32" where
  "rotr n x = drop_bit n x OR push_bit (32 - n) x"

definition sha_sched1 :: "u32 list \<Rightarrow> u32" where
  "sha_sched1 w =
     (let a = w ! 1; b = w ! 14;
          s1 = rotr 17 a XOR rotr 19 a XOR drop_bit 10 a;
          s0 = rotr 7 b XOR rotr 18 b XOR drop_bit 3 b
      in s1 + w ! 6 + s0 + w ! 15)"

text \<open>The message schedule, kept newest word first.\<close>

primrec sha_extend :: "nat \<Rightarrow> u32 list \<Rightarrow> u32 list" where
  "sha_extend 0 w = w"
| "sha_extend (Suc n) w = sha_extend n (sha_sched1 w # w)"

definition sha_round :: "sha_state \<Rightarrow> u32 \<times> u32 \<Rightarrow> sha_state" where
  "sha_round st kw =
     (case (st, kw) of ((a, b, c, d, e, f, g, h), (k, w)) \<Rightarrow>
        let t1 = h + (rotr 6 e XOR rotr 11 e XOR rotr 25 e) + ((e AND f) XOR (NOT e AND g)) + k + w;
            t2 = (rotr 2 a XOR rotr 13 a XOR rotr 22 a) + ((a AND b) XOR (a AND c) XOR (b AND c))
        in (t1 + t2, a, b, c, d + t1, e, f, g))"

definition sha_add :: "sha_state \<Rightarrow> sha_state \<Rightarrow> sha_state" where
  "sha_add x y =
     (case (x, y) of ((a, b, c, d, e, f, g, h), (a', b', c', d', e', f', g', h')) \<Rightarrow>
        (a + a', b + b', c + c', d + d', e + e', f + f', g + g', h + h'))"

definition sha_block :: "sha_state \<Rightarrow> u32 list \<Rightarrow> sha_state" where
  "sha_block st ws = sha_add st (foldl sha_round st (zip sha_k (rev (sha_extend 48 (rev ws)))))"

fun be_words :: "string \<Rightarrow> u32 list" where
  "be_words (a # b # c # d # s) =
     (push_bit 24 (byteWord a) OR push_bit 16 (byteWord b) OR push_bit 8 (byteWord c) OR byteWord d) # be_words s"
| "be_words _ = []"

function sha_blocks :: "sha_state \<Rightarrow> u32 list \<Rightarrow> sha_state" where
  "sha_blocks st ws = (if ws = [] then st else sha_blocks (sha_block st (take 16 ws)) (drop 16 ws))"
  by pat_completeness auto
termination
  by (relation "measure (length \<circ> snd)") auto

declare sha_blocks.simps [simp del]

definition sha_pad :: "string \<Rightarrow> string" where
  "sha_pad s =
     s @ bytes [0x80] @ replicate ((119 - length s mod 64) mod 64) (char_of (0::nat))
       @ bytes (map (\<lambda>i. nat (8 * int (length s) div 256 ^ (7 - i) mod 256)) [0..<8])"

definition word_bytes :: "u32 \<Rightarrow> string" where
  "word_bytes w = bytes (map (\<lambda>k. unat (drop_bit k w AND 255)) [24, 16, 8, 0])"

definition sha256 :: "string \<Rightarrow> string" where
  "sha256 s =
     (case sha_blocks sha_init (be_words (sha_pad s)) of (a, b, c, d, e, f, g, h) \<Rightarrow>
        concat (map word_bytes [a, b, c, d, e, f, g, h]))"

lemma length_word_bytes [simp]: "length (word_bytes w) = 4"
  by (simp add: word_bytes_def bytes_def)

lemma length_sha256 [simp]: "length (sha256 s) = 32"
  by (simp add: sha256_def split: prod.splits)

end
