(* ===== verification/Bounded_Names.thy ===== *)
theory Bounded_Names
  imports Go_Hash
begin

text \<open>
  The names the operator derives for Jobs, CronJobs and label values (\<open>odooupgrade_job.go\<close>,
  \<open>odoobackup_job.go\<close>): a name that would be too long is cut and made unique with a hash of the whole.
  The locale \<open>bounded_naming\<close> is the contract of the two implementations. The slice \<open>base[:keep]\<close> of the
  code is in range for every caller (\<open>keep_in_range\<close>).
\<close>

section \<open>The two implementations\<close>

definition upgradeBoundedName :: "string \<Rightarrow> string \<Rightarrow> nat \<Rightarrow> string" where
  "upgradeBoundedName base suffix maxLen =
     (let full = base @ suffix in
      if length full \<le> maxLen then full
      else let hash = fnvHex base;
               keep = maxLen - length suffix - 1 - length hash;
               cut = trimChars (take keep base) ''-.'';
               prefix = (if cut = '''' then ''upgrade'' else cut)
           in prefix @ ''-'' @ hash @ suffix)"

definition backupBoundedName :: "string \<Rightarrow> string \<Rightarrow> nat \<Rightarrow> string" where
  "backupBoundedName base suffix maxLen =
     (let full = base @ suffix in
      if length full \<le> maxLen then full
      else let hash = fnvHex base;
               keep = maxLen - length suffix - 1 - length hash;
               cut = trimChars (take keep base) ''-.'';
               prefix = (if cut = '''' then ''backup'' else cut)
           in prefix @ ''-'' @ hash @ suffix)"

definition upgradeJobName :: "string \<Rightarrow> string" where
  "upgradeJobName upgradeName = upgradeBoundedName upgradeName ''-run'' 63"

definition upgradeLabelValue :: "string \<Rightarrow> string" where
  "upgradeLabelValue upgradeName = upgradeBoundedName upgradeName '''' 63"

definition backupJobName :: "string \<Rightarrow> string" where
  "backupJobName backupName = backupBoundedName backupName ''-run'' 63"

definition backupCronJobName :: "string \<Rightarrow> string" where
  "backupCronJobName backupName = backupBoundedName backupName ''-sched'' 52"

definition backupLabelValue :: "string \<Rightarrow> string" where
  "backupLabelValue backupName = backupBoundedName backupName '''' 63"

lemma keep_in_range:
  fixes maxLen :: nat
  assumes "maxLen < length (base @ suffix)" and "length suffix + 9 \<le> maxLen"
  shows "maxLen - length suffix - 1 - length (fnvHex base) \<le> length base"
  using assms by simp

section \<open>The contract\<close>

locale bounded_naming =
  fixes name :: "string \<Rightarrow> string \<Rightarrow> nat \<Rightarrow> string" and fallback :: string
  assumes fits: "length (base @ suffix) \<le> n \<Longrightarrow> name base suffix n = base @ suffix"
    and cut: "n < length (base @ suffix) \<Longrightarrow>
      \<exists>prefix. prefix \<noteq> '''' \<and> (prefix = fallback \<or> length prefix \<le> n - (9 + length suffix) \<and> set prefix \<subseteq> set base)
        \<and> name base suffix n = prefix @ ''-'' @ fnvHex base @ suffix"
begin

lemma name_length:
  assumes "length fallback + 9 + length suffix \<le> n"
  shows "length (name base suffix n) \<le> n"
proof (cases "length (base @ suffix) \<le> n")
  case True
  then show ?thesis using fits by simp
next
  case False
  then have "n < length (base @ suffix)" by simp
  from cut [OF this] assms show ?thesis by auto
qed

lemma name_suffix: "\<exists>stem. name base suffix n = stem @ suffix"
  using fits cut by (metis append.assoc not_le)

lemma name_neq_Nil: "base \<noteq> '''' \<Longrightarrow> name base suffix n \<noteq> ''''"
  using fits cut by (metis Nil_is_append_conv not_le)

text \<open>Two cut names agree only when the hashes of the whole names do.\<close>

lemma name_collision:
  assumes "n < length (a @ suffix)" "n < length (b @ suffix)" "name a suffix n = name b suffix n"
  shows "fnvHex a = fnvHex b"
proof -
  obtain p q where "name a suffix n = (p @ ''-'') @ fnvHex a @ suffix" "name b suffix n = (q @ ''-'') @ fnvHex b @ suffix"
    using cut assms(1,2) by (metis append.assoc)
  with assms(3) have "(p @ ''-'') @ fnvHex a = (q @ ''-'') @ fnvHex b" by simp
  then show ?thesis by (simp add: append_eq_append_conv)
qed

lemma name_chars: "set (name base suffix n) \<subseteq> set base \<union> set suffix \<union> set fallback \<union> set ''-0123456789abcdef''"
proof (cases "length (base @ suffix) \<le> n")
  case False
  have "set (fnvHex base) \<subseteq> set ''0123456789abcdef''"
    using list_all_fnvHex [of base] unfolding list_all_iff isHexDigit_def by blast
  also have "\<dots> \<subseteq> set ''-0123456789abcdef''" by (rule set_subset_Cons)
  finally have hex: "set (fnvHex base) \<subseteq> set ''-0123456789abcdef''" .
  have dash: "set ''-'' \<subseteq> set ''-0123456789abcdef''" by simp
  from False have "n < length (base @ suffix)" by simp
  from cut [OF this] obtain prefix where "prefix = fallback \<or> set prefix \<subseteq> set base"
    and name: "name base suffix n = prefix @ ''-'' @ fnvHex base @ suffix" by blast
  then have "set prefix \<subseteq> set base \<union> set fallback" by blast
  with hex dash show ?thesis unfolding name set_append by blast
next
  case True
  then show ?thesis unfolding fits [OF True] set_append by blast
qed

end

lemma cut_prefix_chars: "set (trimChars (take n s) cs) \<subseteq> set s"
  by (meson set_take_subset set_trimChars subset_trans)

lemma cut_prefix_length: "length (trimChars (take n s) cs) \<le> n"
  using length_trimChars [of "take n s" cs] by simp

interpretation upgrade_names: bounded_naming upgradeBoundedName "''upgrade''"
proof
  fix base suffix :: string and n :: nat
  let ?cut = "trimChars (take (n - length suffix - 1 - 8) base) ''-.''"
  assume "n < length (base @ suffix)"
  then show "\<exists>prefix. prefix \<noteq> '''' \<and> (prefix = ''upgrade'' \<or> length prefix \<le> n - (9 + length suffix) \<and> set prefix \<subseteq> set base)
      \<and> upgradeBoundedName base suffix n = prefix @ ''-'' @ fnvHex base @ suffix"
    using cut_prefix_chars [of "n - length suffix - 1 - 8" base "''-.''"]
      cut_prefix_length [of "n - length suffix - 1 - 8" base "''-.''"]
    by (intro exI [of _ "if ?cut = '''' then ''upgrade'' else ?cut"]) (simp add: upgradeBoundedName_def Let_def)
qed (simp add: upgradeBoundedName_def Let_def)

interpretation backup_names: bounded_naming backupBoundedName "''backup''"
proof
  fix base suffix :: string and n :: nat
  let ?cut = "trimChars (take (n - length suffix - 1 - 8) base) ''-.''"
  assume "n < length (base @ suffix)"
  then show "\<exists>prefix. prefix \<noteq> '''' \<and> (prefix = ''backup'' \<or> length prefix \<le> n - (9 + length suffix) \<and> set prefix \<subseteq> set base)
      \<and> backupBoundedName base suffix n = prefix @ ''-'' @ fnvHex base @ suffix"
    using cut_prefix_chars [of "n - length suffix - 1 - 8" base "''-.''"]
      cut_prefix_length [of "n - length suffix - 1 - 8" base "''-.''"]
    by (intro exI [of _ "if ?cut = '''' then ''backup'' else ?cut"]) (simp add: backupBoundedName_def Let_def)
qed (simp add: backupBoundedName_def Let_def)

section \<open>Properties\<close>

text \<open>C36: Whatever the name of the object, every derived name fits Kubernetes' limits: 63 bytes for Jobs
  and label values, 52 for CronJobs; and the suffix that tells the kinds apart is kept.\<close>

theorem derived_names_fit:
  "length (upgradeJobName n) \<le> 63 \<and> length (upgradeLabelValue n) \<le> 63
   \<and> length (backupJobName n) \<le> 63 \<and> length (backupCronJobName n) \<le> 52 \<and> length (backupLabelValue n) \<le> 63
   \<and> hasSuffix (upgradeJobName n) ''-run'' \<and> hasSuffix (backupJobName n) ''-run''
   \<and> hasSuffix (backupCronJobName n) ''-sched''"
proof -
  have "hasSuffix (stem @ s) s" for stem s by (simp add: hasSuffix_def)
  then have "hasSuffix (upgradeJobName n) ''-run''" "hasSuffix (backupJobName n) ''-run''"
    "hasSuffix (backupCronJobName n) ''-sched''"
    unfolding upgradeJobName_def backupJobName_def backupCronJobName_def
    by (metis upgrade_names.name_suffix, metis backup_names.name_suffix, metis backup_names.name_suffix)
  then show ?thesis
    unfolding upgradeJobName_def upgradeLabelValue_def backupJobName_def backupCronJobName_def backupLabelValue_def
    by (intro conjI upgrade_names.name_length backup_names.name_length) simp_all
qed

text \<open>Two different upgrades, or two different backups, whose derived Job names were both cut share a
  Job name only when the 32-bit hashes of their full names collide.\<close>

theorem derived_names_collide_only_on_hash:
  assumes "59 < length a" and "59 < length b" and "fnvHex a \<noteq> fnvHex b"
  shows "upgradeJobName a \<noteq> upgradeJobName b \<and> backupJobName a \<noteq> backupJobName b"
  using assms upgrade_names.name_collision [of 63 a "''-run''" b] backup_names.name_collision [of 63 a "''-run''" b]
  unfolding upgradeJobName_def backupJobName_def by auto

theorem derived_names_collide_only_on_hash_witness:
  "upgradeJobName (replicate 60 CHR ''a'') \<noteq> upgradeJobName (replicate 60 CHR ''b'')
   \<and> backupJobName (replicate 60 CHR ''a'') \<noteq> backupJobName (replicate 60 CHR ''b'')"
proof (rule derived_names_collide_only_on_hash)
  show "fnvHex (replicate 60 CHR ''a'') \<noteq> fnvHex (replicate 60 CHR ''b'')" by code_simp
qed simp_all

end
