(* ===== verification/Job_State.thy ===== *)
theory Job_State
  imports Events
begin

text \<open>
  How the controllers read a Job: whether it completed or failed and why, and the tail of its log
  (helpers of \<open>odooupgrade_controller.go\<close>, \<open>odoobackup_controller.go\<close> and \<open>odooaddon_controller.go\<close>). The locale
  \<open>log_tail\<close> is the contract of the two tail functions.
\<close>

abbreviation (input) nl :: char where "nl \<equiv> CHR 0x0A"

abbreviation (input) "JobComplete \<equiv> ''Complete''"
abbreviation (input) "JobFailedCond \<equiv> ''Failed''"
abbreviation (input) "ConditionTrue \<equiv> ''True''"

section \<open>Outcome of a Job\<close>

fun hasCondition :: "job_condition list \<Rightarrow> string \<Rightarrow> bool" where
  "hasCondition [] typ = False"
| "hasCondition (c # cs) typ =
     (if jcType c = typ \<and> jcStatus c = ConditionTrue then True else hasCondition cs typ)"

definition upgradeHasCondition :: "job \<Rightarrow> string \<Rightarrow> bool" where
  "upgradeHasCondition j typ = hasCondition (jobConditions j) typ"

definition backupHasCondition :: "job \<Rightarrow> string \<Rightarrow> bool" where
  "backupHasCondition j typ = hasCondition (jobConditions j) typ"

definition upgradeNonEmpty :: "string list \<Rightarrow> string list" where
  "upgradeNonEmpty values = filter (\<lambda>v. v \<noteq> '''') values"

text \<open>The first condition that says the Job failed.\<close>

definition failedCondition :: "job \<Rightarrow> job_condition option" where
  "failedCondition j = find (\<lambda>c. jcType c = JobFailedCond \<and> jcStatus c = ConditionTrue) (jobConditions j)"

definition upgradeJobSucceeded :: "job \<Rightarrow> bool" where
  "upgradeJobSucceeded j = (if jobSucceeded j > 0 then True else upgradeHasCondition j JobComplete)"

definition upgradeJobFailure :: "job \<Rightarrow> bool \<times> string" where
  "upgradeJobFailure j =
     (case failedCondition j of
        Some c \<Rightarrow> (True, trimSpace (joinWith '': '' (upgradeNonEmpty [jcReason c, jcMessage c])))
      | None \<Rightarrow> if jobFailed j > 0 then (True, ''upgrade pod failed'') else (False, ''''))"

definition backupJobSucceeded :: "job \<Rightarrow> bool" where
  "backupJobSucceeded j = (if jobSucceeded j > 0 then True else backupHasCondition j JobComplete)"

definition backupJobFailure :: "job \<Rightarrow> bool \<times> string" where
  "backupJobFailure j =
     (case failedCondition j of
        Some c \<Rightarrow> (True, joinWith '': '' (filter (\<lambda>p. p \<noteq> '''') [jcReason c, jcMessage c]))
      | None \<Rightarrow> if jobFailed j > 0 then (True, ''backup pod failed'') else (False, ''''))"

text \<open>Why a sync Job failed (\<open>jobFailureReason\<close>).\<close>

definition jobFailureReason :: "job \<Rightarrow> string" where
  "jobFailureReason j =
     (case failedCondition j of
        Some c \<Rightarrow> trimSpace (joinWith '': '' (upgradeNonEmpty [jcReason c, jcMessage c]))
      | None \<Rightarrow> ''sync job '' @ metaName (jobMeta j) @ '' failed'')"

definition upgradeJobCompletion :: "'w cluster \<Rightarrow> job \<Rightarrow> ('w, int option) prog" where
  "upgradeJobCompletion C j =
     (case jobCompletion j of
        Some t \<Rightarrow> State_Monad.return (Some t)
      | None \<Rightarrow> do { now \<leftarrow> timeNow C; State_Monad.return (Some now) })"

definition backupJobCompletion :: "'w cluster \<Rightarrow> job \<Rightarrow> ('w, int option) prog" where
  "backupJobCompletion C j =
     (case jobCompletion j of
        Some t \<Rightarrow> State_Monad.return (Some t)
      | None \<Rightarrow> do { now \<leftarrow> timeNow C; State_Monad.return (Some now) })"

section \<open>Pods of a Job\<close>

text \<open>The newest pod: a later one replaces an earlier one only if it is strictly younger.\<close>

fun newestFrom :: "pod \<Rightarrow> pod list \<Rightarrow> pod" where
  "newestFrom best [] = best"
| "newestFrom best (p # ps) =
     (if metaCreated (podMeta p) > metaCreated (podMeta best) then newestFrom p ps else newestFrom best ps)"

fun newestPod :: "pod list \<Rightarrow> pod option" where
  "newestPod [] = None"
| "newestPod (p # ps) = Some (newestFrom p (p # ps))"

text \<open>The node of the first running pod that has been scheduled.\<close>

fun runningNode :: "pod list \<Rightarrow> string" where
  "runningNode [] = ''''"
| "runningNode (p # ps) =
     (if podPhase p = ''Running'' \<and> podNodeName p \<noteq> '''' then podNodeName p else runningNode ps)"

lemma newestFrom_spec:
  "newestFrom best ps \<in> insert best (set ps)
   \<and> (\<forall>p\<in>insert best (set ps). metaCreated (podMeta p) \<le> metaCreated (podMeta (newestFrom best ps)))"
  by (induction best ps rule: newestFrom.induct) auto

lemma newestPod_spec:
  "newestPod ps = Some p \<Longrightarrow> p \<in> set ps \<and> (\<forall>q\<in>set ps. metaCreated (podMeta q) \<le> metaCreated (podMeta p))"
  by (cases ps) (use newestFrom_spec in auto)

lemma runningNode_spec:
  "runningNode ps \<noteq> '''' \<Longrightarrow> \<exists>p\<in>set ps. podPhase p = ''Running'' \<and> podNodeName p = runningNode ps"
  by (induction ps) auto

section \<open>Log tails\<close>

definition upgradeTail :: "string \<Rightarrow> nat \<Rightarrow> string" where
  "upgradeTail s n =
     (if length s \<le> n then trimSpace s
      else let cut = drop (length s - n) s;
               i = length (takeWhile (\<lambda>c. c \<noteq> nl) cut)
           in trimSpace (toValidUTF8 (if i < length cut - 1 then drop (i + 1) cut else cut)))"

definition backupTail :: "string \<Rightarrow> nat \<Rightarrow> string" where
  "backupTail s n =
     (if length s \<le> n then trimSpace s
      else let cut = drop (length s - n) s;
               i = length (takeWhile (\<lambda>c. c \<noteq> nl) cut)
           in trimSpace (toValidUTF8 (if i < length cut - 1 then drop (i + 1) cut else cut)))"

locale log_tail =
  fixes tail :: "string \<Rightarrow> nat \<Rightarrow> string"
  assumes short: "length s \<le> n \<Longrightarrow> tail s n = trimSpace s"
    and long: "n < length s \<Longrightarrow> \<exists>k \<ge> length s - n. tail s n = trimSpace (toValidUTF8 (drop k s))"
begin

lemma tail_length: "length (tail s n) \<le> n"
proof (cases "length s \<le> n")
  case True
  with short length_trimSpace [of s] show ?thesis by simp
next
  case False
  then obtain k where "length s - n \<le> k" "tail s n = trimSpace (toValidUTF8 (drop k s))"
    using long by (meson not_le)
  with length_trimSpace [of "toValidUTF8 (drop k s)"] length_toValidUTF8 [of "drop k s"] False
  show ?thesis by simp
qed

lemma tail_chars: "set (tail s n) \<subseteq> set s"
proof (cases "length s \<le> n")
  case False
  then obtain k where "tail s n = trimSpace (toValidUTF8 (drop k s))"
    using long by (meson not_le)
  then show ?thesis
    using set_trimSpace set_toValidUTF8 set_drop_subset by fastforce
qed (simp add: short set_trimSpace)

end

lemma tail_cut:
  assumes "n < length s"
  shows "\<exists>k \<ge> length s - n.
    trimSpace (toValidUTF8 (if i < length (drop (length s - n) s) - 1 then drop (i + 1) (drop (length s - n) s)
      else drop (length s - n) s)) = trimSpace (toValidUTF8 (drop k s))"
  by (cases "i < length (drop (length s - n) s) - 1")
    (force intro: exI [of _ "length s - n + (i + 1)"] simp: add.commute, auto)

interpretation upgrade_tail: log_tail upgradeTail
proof
  show "length s \<le> n \<Longrightarrow> upgradeTail s n = trimSpace s" for s n
    by (simp add: upgradeTail_def)
  show "\<exists>k \<ge> length s - n. upgradeTail s n = trimSpace (toValidUTF8 (drop k s))" if "n < length s" for s n
  proof -
    from that have "\<not> length s \<le> n" by simp
    then show ?thesis unfolding upgradeTail_def Let_def if_not_P [OF \<open>\<not> length s \<le> n\<close>] by (intro tail_cut that)
  qed
qed

interpretation backup_tail: log_tail backupTail
proof
  show "length s \<le> n \<Longrightarrow> backupTail s n = trimSpace s" for s n
    by (simp add: backupTail_def)
  show "\<exists>k \<ge> length s - n. backupTail s n = trimSpace (toValidUTF8 (drop k s))" if "n < length s" for s n
  proof -
    from that have "\<not> length s \<le> n" by simp
    then show ?thesis unfolding backupTail_def Let_def if_not_P [OF \<open>\<not> length s \<le> n\<close>] by (intro tail_cut that)
  qed
qed

text \<open>The log excerpt put into a status message is at most as long as asked for and consists of
  bytes of the log only, for the upgrade and the backup controller alike.\<close>

theorem log_tail_bounded:
  "length (upgradeTail s n) \<le> n \<and> set (upgradeTail s n) \<subseteq> set s
   \<and> length (backupTail s n) \<le> n \<and> set (backupTail s n) \<subseteq> set s"
  by (intro conjI upgrade_tail.tail_length upgrade_tail.tail_chars backup_tail.tail_length backup_tail.tail_chars)

end
