(* ===== verification/Addon_State.thy ===== *)
theory Addon_State
  imports Job_State
begin

text \<open>
  \<open>odooaddon_state.go\<close>: the pure decision at the heart of the OdooAddon sync state machine. The
  reconciler gathers facts into an \<open>addonSyncInput\<close>; \<open>decideAddonSync\<close> says what to do next.
\<close>

definition resyncInterval :: int where "resyncInterval = 5 * minute"
definition failureBackoff :: int where "failureBackoff = 30 * second"
definition pendingRequeue :: int where "pendingRequeue = 10 * second"
definition addonStaleJobRequeue :: int where "addonStaleJobRequeue = 2 * second"
definition addonCreateRequeue :: int where "addonCreateRequeue = 5 * second"
definition addonAwaitRequeue :: int where "addonAwaitRequeue = 30 * second"

lemmas addon_durations = resyncInterval_def failureBackoff_def pendingRequeue_def addonStaleJobRequeue_def
  addonCreateRequeue_def addonAwaitRequeue_def

section \<open>Facts and decisions\<close>

datatype addonSyncAction =
  addonActionInvalidSpec
| addonActionJobConflict
| addonActionDeleteStaleJob
| addonActionRecordSuccess
| addonActionRecordFailure
| addonActionAwaitJob
| addonActionCooldown
| addonActionSkipResync
| addonActionCreateJob

fun actionString :: "addonSyncAction \<Rightarrow> string" where
  "actionString addonActionInvalidSpec = ''InvalidSpec''"
| "actionString addonActionJobConflict = ''JobConflict''"
| "actionString addonActionDeleteStaleJob = ''DeleteStaleJob''"
| "actionString addonActionRecordSuccess = ''RecordSuccess''"
| "actionString addonActionRecordFailure = ''RecordFailure''"
| "actionString addonActionAwaitJob = ''AwaitJob''"
| "actionString addonActionCooldown = ''Cooldown''"
| "actionString addonActionSkipResync = ''SkipResync''"
| "actionString addonActionCreateJob = ''CreateJob''"

record addonJobObservation =
  obsExists :: bool
  ControlledByAddon :: bool
  obsSpecHash :: string
  obsSucceeded :: bool
  obsFailed :: bool

record addonSyncInput =
  SpecErr :: string
  inSpecHash :: string
  inJob :: addonJobObservation
  inPhase :: string
  inLastSyncTime :: "int option"
  SkipResync :: bool
  inNow :: int

record addonSyncDecision =
  decAction :: addonSyncAction
  decPhase :: string
  decMessage :: string
  DeleteJob :: bool
  decRequeue :: int

definition syncingPhaseFor :: "string \<Rightarrow> string" where
  "syncingPhaseFor current = (if current = phaseSynced then '''' else phaseSyncing)"

definition decision :: "addonSyncAction \<Rightarrow> string \<Rightarrow> string \<Rightarrow> bool \<Rightarrow> int \<Rightarrow> addonSyncDecision" where
  "decision action phase message del requeue =
     \<lparr>decAction = action, decPhase = phase, decMessage = message, DeleteJob = del, decRequeue = requeue\<rparr>"

definition syncInterval :: "addonSyncInput \<Rightarrow> int" where
  "syncInterval i = (if inPhase i = phaseFailed then failureBackoff else resyncInterval)"

definition decideAddonSync :: "addonSyncInput \<Rightarrow> addonSyncDecision" where
  "decideAddonSync i =
    (if SpecErr i \<noteq> '''' then
       decision addonActionInvalidSpec phaseFailed (SpecErr i)
         (obsExists (inJob i) \<and> ControlledByAddon (inJob i)) failureBackoff
     else if obsExists (inJob i) then
       (if \<not> ControlledByAddon (inJob i) then
          decision addonActionJobConflict phaseFailed ''job name conflict'' False failureBackoff
        else if obsSpecHash (inJob i) \<noteq> inSpecHash i then
          decision addonActionDeleteStaleJob '''' '''' True addonStaleJobRequeue
        else if obsSucceeded (inJob i) then
          decision addonActionRecordSuccess phaseSynced '''' True resyncInterval
        else if obsFailed (inJob i) then
          decision addonActionRecordFailure phaseFailed '''' True failureBackoff
        else
          decision addonActionAwaitJob (syncingPhaseFor (inPhase i)) '''' False addonAwaitRequeue)
     else
       (let afterCooldown =
          (if SkipResync i then decision addonActionSkipResync '''' '''' False resyncInterval
           else decision addonActionCreateJob (syncingPhaseFor (inPhase i)) '''' False addonCreateRequeue) in
        (case inLastSyncTime i of
           Some lastSync \<Rightarrow>
             (let elapsed = timeSub (inNow i) lastSync in
              if elapsed < syncInterval i
              then decision addonActionCooldown '''' '''' False (wrap64 (syncInterval i - elapsed))
              else afterCooldown)
         | None \<Rightarrow> afterCooldown)))"

definition annotationSyncSpecHash :: string where
  "annotationSyncSpecHash = ''odoo.operator.io/sync-spec-hash''"

definition observeSyncJob :: "'m kubelib_scheme \<Rightarrow> job option \<Rightarrow> addon \<Rightarrow> addonJobObservation" where
  "observeSyncJob L jb addon =
     (case jb of
        None \<Rightarrow> \<lparr>obsExists = False, ControlledByAddon = False, obsSpecHash = '''', obsSucceeded = False, obsFailed = False\<rparr>
      | Some j \<Rightarrow>
          \<lparr>obsExists = True,
           ControlledByAddon = IsControlledBy L (jobMeta j) (addonMeta addon),
           obsSpecHash = mapGet (metaAnnotations (jobMeta j)) annotationSyncSpecHash,
           obsSucceeded = (jobSucceeded j > 0 \<or> upgradeHasCondition j JobComplete),
           obsFailed = upgradeHasCondition j JobFailedCond\<rparr>)"

section \<open>Which facts lead to which action\<close>

lemmas decide_simps = decideAddonSync_def decision_def Let_def

lemma decision_sel [simp]:
  "decAction (decision a p m d r) = a" "decPhase (decision a p m d r) = p" "decMessage (decision a p m d r) = m"
  "DeleteJob (decision a p m d r) = d" "decRequeue (decision a p m d r) = r"
  by (simp_all add: decision_def)

definition cooledDown :: "addonSyncInput \<Rightarrow> bool" where
  "cooledDown i = (case inLastSyncTime i of None \<Rightarrow> True | Some t \<Rightarrow> syncInterval i \<le> timeSub (inNow i) t)"

text \<open>C16: Every action is chosen exactly on its facts: a Job is judged by its result only when it is the
  addon's own Job for the current spec, a new Job is created only for a valid spec when no Job exists,
  the cooldown is over and the addon is not pinned to a synced commit; and a delete is asked for exactly
  for an existing Job the addon controls that is stale, finished or built from an invalid spec.\<close>

theorem decideAddonSync_exact:
  "(decAction (decideAddonSync i) = addonActionInvalidSpec \<longleftrightarrow> SpecErr i \<noteq> '''')
   \<and> (decAction (decideAddonSync i) = addonActionJobConflict \<longleftrightarrow>
        SpecErr i = '''' \<and> obsExists (inJob i) \<and> \<not> ControlledByAddon (inJob i))
   \<and> (decAction (decideAddonSync i) = addonActionDeleteStaleJob \<longleftrightarrow>
        SpecErr i = '''' \<and> obsExists (inJob i) \<and> ControlledByAddon (inJob i) \<and> obsSpecHash (inJob i) \<noteq> inSpecHash i)
   \<and> (decAction (decideAddonSync i) = addonActionRecordSuccess \<longleftrightarrow>
        SpecErr i = '''' \<and> obsExists (inJob i) \<and> ControlledByAddon (inJob i) \<and> obsSpecHash (inJob i) = inSpecHash i
        \<and> obsSucceeded (inJob i))
   \<and> (decAction (decideAddonSync i) = addonActionRecordFailure \<longleftrightarrow>
        SpecErr i = '''' \<and> obsExists (inJob i) \<and> ControlledByAddon (inJob i) \<and> obsSpecHash (inJob i) = inSpecHash i
        \<and> \<not> obsSucceeded (inJob i) \<and> obsFailed (inJob i))
   \<and> (decAction (decideAddonSync i) = addonActionCooldown \<longleftrightarrow>
        SpecErr i = '''' \<and> \<not> obsExists (inJob i) \<and> \<not> cooledDown i)
   \<and> (decAction (decideAddonSync i) = addonActionSkipResync \<longleftrightarrow>
        SpecErr i = '''' \<and> \<not> obsExists (inJob i) \<and> cooledDown i \<and> SkipResync i)
   \<and> (decAction (decideAddonSync i) = addonActionCreateJob \<longleftrightarrow>
        SpecErr i = '''' \<and> \<not> obsExists (inJob i) \<and> cooledDown i \<and> \<not> SkipResync i)
   \<and> (DeleteJob (decideAddonSync i) \<longleftrightarrow>
        obsExists (inJob i) \<and> ControlledByAddon (inJob i)
        \<and> \<not> (SpecErr i = '''' \<and> obsSpecHash (inJob i) = inSpecHash i
               \<and> \<not> obsSucceeded (inJob i) \<and> \<not> obsFailed (inJob i)))"
  by (cases "inLastSyncTime i")
    (simp_all add: decideAddonSync_def Let_def cooledDown_def not_le split: if_split)

text \<open>Every decision asks for another pass within five minutes, as long as the recorded sync time is
  not in the future: the state machine never goes to sleep for good.\<close>

theorem decideAddonSync_requeues:
  assumes "\<And>t. inLastSyncTime i = Some t \<Longrightarrow> t \<le> inNow i"
  shows "0 < decRequeue (decideAddonSync i) \<and> decRequeue (decideAddonSync i) \<le> resyncInterval"
proof (cases "inLastSyncTime i")
  case None
  then show ?thesis by (simp add: decideAddonSync_def Let_def addon_durations)
next
  case (Some t)
  with assms have "t \<le> inNow i" by simp
  then have "0 \<le> timeSub (inNow i) t" by (simp add: timeSub_def)
  moreover from this have "timeSub (inNow i) t < syncInterval i \<Longrightarrow>
      wrap64 (syncInterval i - timeSub (inNow i) t) = syncInterval i - timeSub (inNow i) t"
    by (intro wrap64_id) (simp_all add: syncInterval_def addon_durations)
  ultimately show ?thesis
    using Some by (simp add: decideAddonSync_def Let_def syncInterval_def addon_durations)
qed

theorem decideAddonSync_requeues_witness:
  "0 < decRequeue (decideAddonSync \<lparr>SpecErr = '''', inSpecHash = ''h'', inJob = 
     observeSyncJob refLib None \<lparr>addonMeta = zeroMeta, addonSpec = zeroAddonSpec, addonStatus = zeroAddonStatus\<rparr>,
     inPhase = phaseFailed, inLastSyncTime = Some 5, SkipResync = False, inNow = 7\<rparr>)
   \<and> decRequeue (decideAddonSync \<lparr>SpecErr = '''', inSpecHash = ''h'', inJob = 
     observeSyncJob refLib None \<lparr>addonMeta = zeroMeta, addonSpec = zeroAddonSpec, addonStatus = zeroAddonStatus\<rparr>,
     inPhase = phaseFailed, inLastSyncTime = Some 5, SkipResync = False, inNow = 7\<rparr>) \<le> resyncInterval"
  by (rule decideAddonSync_requeues) simp

end
