(* ===== verification/Shell_Quote.thy ===== *)
theory Shell_Quote
  imports Go_Utf8
begin

text \<open>
  The two quoting functions with which the operator splices values into shell scripts (\<open>shQuote\<close> of
  \<open>odooaddon_sync.go\<close>, \<open>shQuoteWord\<close> and \<open>shJoin\<close> of \<open>odooupgrade_script.go\<close>), and a reader of POSIX shell words
  against which they are proved. The locale \<open>shell_quoter\<close> is the contract of the two.
\<close>

abbreviation (input) squote :: char where "squote \<equiv> CHR 0x27"

section \<open>Character classes\<close>

definition isAlnum :: "char \<Rightarrow> bool" where
  "isAlnum c \<longleftrightarrow> byteIn 48 57 c \<or> byteIn 65 90 c \<or> byteIn 97 122 c"

text \<open>A regular expression \<open>^[class]+$\<close>: in Go, \<open>$\<close> matches only at the very end of the text.\<close>

definition matchClass :: "(char \<Rightarrow> bool) \<Rightarrow> string \<Rightarrow> bool" where
  "matchClass P s \<longleftrightarrow> s \<noteq> [] \<and> list_all P s"

definition shSafe :: "char \<Rightarrow> bool" where
  "shSafe c \<longleftrightarrow> isAlnum c \<or> c \<in> set ''._/+-''"

definition shSafeWord :: "char \<Rightarrow> bool" where
  "shSafeWord c \<longleftrightarrow> isAlnum c \<or> c \<in> set ''_./=,:+-''"

section \<open>Quoting\<close>

definition quoted :: "string \<Rightarrow> string" where
  "quoted s = squote # replaceChar squote [squote, bslash, squote, squote] s @ [squote]"

definition shQuote :: "string \<Rightarrow> string" where
  "shQuote s = (if matchClass shSafe s then s else quoted s)"

definition shQuoteWord :: "string \<Rightarrow> string" where
  "shQuoteWord s = (if matchClass shSafeWord s then s else quoted s)"

definition shJoin :: "string list \<Rightarrow> string" where
  "shJoin words = joinWith '' '' (map shQuoteWord words)"

section \<open>How a shell reads words\<close>

text \<open>
  The words of a simple command line: \<open>quoting\<close> says whether the reader is inside single quotes, \<open>cur\<close>
  is the current word, reversed. An unquoted character with a meaning of its own (an expansion, a
  redirection, a separator) makes the reader give up.
\<close>

definition shSpecial :: "char \<Rightarrow> bool" where
  "shSpecial c \<longleftrightarrow> c \<in> set ''|&;<>()$`*?[]#~%{}!^'' \<or> c = dquote \<or> byteIn 0 31 c \<or> byteIn 127 255 c"

definition curWord :: "string option \<Rightarrow> string" where
  "curWord cur = (case cur of None \<Rightarrow> [] | Some w \<Rightarrow> w)"

fun shLex :: "bool \<Rightarrow> string option \<Rightarrow> string \<Rightarrow> string list option" where
  "shLex True cur [] = None"
| "shLex True cur (c # s) =
     (if c = squote then shLex False cur s else shLex True (Some (c # curWord cur)) s)"
| "shLex False cur [] = Some (case cur of None \<Rightarrow> [] | Some w \<Rightarrow> [rev w])"
| "shLex False cur (c # s) =
     (if c = CHR '' '' then
        (case cur of None \<Rightarrow> shLex False None s | Some w \<Rightarrow> map_option ((#) (rev w)) (shLex False None s))
      else if c = squote then shLex True (Some (curWord cur)) s
      else if c = bslash then
        (case s of [] \<Rightarrow> None | d # t \<Rightarrow> if d = CHR 0x0A then None else shLex False (Some (d # curWord cur)) t)
      else if shSpecial c then None
      else shLex False (Some (c # curWord cur)) s)"

section \<open>The contract of the quoting functions\<close>

lemma curWord_Some [simp]: "curWord (Some w) = w"
  by (simp add: curWord_def)

lemma shLex_quoted_body:
  "shLex True (Some a) (replaceChar squote [squote, bslash, squote, squote] s @ squote # rest)
     = shLex False (Some (rev s @ a)) rest"
  by (induction s arbitrary: a) (simp_all add: replaceChar_def)

lemma shLex_quoted: "shLex False cur (quoted s @ rest) = shLex False (Some (rev s @ curWord cur)) rest"
  by (simp add: quoted_def shLex_quoted_body)

locale shell_quoter =
  fixes quote :: "string \<Rightarrow> string" and safe :: "char \<Rightarrow> bool"
  assumes quote: "quote s = (if matchClass safe s then s else quoted s)"
    and safe: "safe c \<Longrightarrow> \<not> shSpecial c \<and> c \<noteq> CHR '' '' \<and> c \<noteq> squote \<and> c \<noteq> bslash"
begin

lemma lex_safe:
  "list_all safe s \<Longrightarrow> shLex False (Some a) (s @ rest) = shLex False (Some (rev s @ a)) rest"
  by (induction s arbitrary: a) (simp_all add: safe)

lemma lex_quote: "shLex False cur (quote s @ rest) = shLex False (Some (rev s @ curWord cur)) rest"
proof (cases "matchClass safe s")
  case True
  then obtain c t where "s = c # t" "safe c" "list_all safe t"
    by (cases s) (auto simp: matchClass_def)
  with True show ?thesis by (simp add: quote safe lex_safe)
qed (simp add: quote shLex_quoted)

lemma quote_roundtrip: "shLex False None (quote s) = Some [s]"
  using lex_quote [of None s "[]"] by (simp add: curWord_def)

lemma join_roundtrip: "shLex False None (joinWith '' '' (map quote ws)) = Some ws"
proof (induction ws)
  case (Cons w ws)
  show ?case
  proof (cases "ws = []")
    case False
    then show ?thesis
      using Cons by (simp add: joinWith_Cons lex_quote curWord_def)
  qed (simp add: quote_roundtrip)
qed simp

end

lemma special_not_alnum: "shSpecial c \<Longrightarrow> \<not> isAlnum c"
  by (auto simp: shSpecial_def isAlnum_def byteIn_def)

lemma plain_not_alnum: "\<not> isAlnum CHR '' ''" "\<not> isAlnum squote" "\<not> isAlnum bslash"
  by (simp_all add: isAlnum_def byteIn_def)

lemma marks_not_special: "list_all (\<lambda>c. \<not> shSpecial c) ''_./=,:+-''"
  by (simp add: shSpecial_def byteIn_def)

interpretation sq: shell_quoter shQuote shSafe
proof
  fix c
  assume "shSafe c"
  then show "\<not> shSpecial c \<and> c \<noteq> CHR '' '' \<and> c \<noteq> squote \<and> c \<noteq> bslash"
    using special_not_alnum [of c] plain_not_alnum marks_not_special by (auto simp: shSafe_def)
qed (rule shQuote_def)

interpretation sqw: shell_quoter shQuoteWord shSafeWord
proof
  fix c
  assume "shSafeWord c"
  then show "\<not> shSpecial c \<and> c \<noteq> CHR '' '' \<and> c \<noteq> squote \<and> c \<noteq> bslash"
    using special_not_alnum [of c] plain_not_alnum marks_not_special by (auto simp: shSafeWord_def)
qed (rule shQuoteWord_def)

section \<open>Properties\<close>

text \<open>Whatever the string, a POSIX shell reads what \<open>shQuote\<close> or \<open>shQuoteWord\<close> produces as exactly one
  word, that string; and it reads a joined command line as exactly the list of words it was made from.
  No value can end its word early, start another command or be expanded.\<close>

theorem shell_quoting_roundtrip:
  "shLex False None (shQuote s) = Some [s] \<and> shLex False None (shQuoteWord s) = Some [s]
   \<and> shLex False None (shJoin ws) = Some ws"
  unfolding shJoin_def by (intro conjI sq.quote_roundtrip sqw.quote_roundtrip sqw.join_roundtrip)

end
