(* ===== verification/Addon_Sync.thy ===== *)
theory Addon_Sync
  imports Addon_State Shell_Quote Go_Hash
begin

text \<open>
  \<open>odooaddon_sync.go\<close> up to the Job itself: validation and defaulting of an OdooAddon into a \<open>syncSpec\<close>,
  its fingerprint, and the report the sync Job prints. The scripts and the Job are in \<open>Addon_Job\<close>.
\<close>

section \<open>Validation\<close>

datatype gitAuthMode = authNone | authHTTPSToken | authSSH

record syncSpec =
  ssGitURL :: string
  ssGitRef :: string
  ssAddonName :: string
  ssModuleName :: string
  ssAddonPath :: string
  ssSingleAddon :: bool
  ssSecretName :: string
  ssAuth :: gitAuthMode

abbreviation (input) "schemeHTTPS \<equiv> ''https://''"
abbreviation (input) "schemeHTTP \<equiv> ''http://''"
abbreviation (input) "schemeSSH \<equiv> ''ssh://''"
abbreviation (input) "scpStylePrefix \<equiv> ''git@''"

definition validGitRef :: "string \<Rightarrow> bool" where
  "validGitRef = matchClass (\<lambda>c. isAlnum c \<or> c \<in> set ''._/-'')"

definition validPathSegment :: "string \<Rightarrow> bool" where
  "validPathSegment = matchClass (\<lambda>c. isAlnum c \<or> c \<in> set ''._-'')"

definition isCommitSHA :: "string \<Rightarrow> bool" where
  "isCommitSHA ref \<longleftrightarrow> length ref = 40 \<and> list_all isHexDigit ref"

definition canSkipResync :: "addon \<Rightarrow> bool" where
  "canSkipResync addon =
     (let ref = (if GitRef (addonSpec addon) = '''' then ''main'' else GitRef (addonSpec addon)) in
      isCommitSHA ref \<and> addonPhase (addonStatus addon) = phaseSynced
      \<and> ClonedCommit (addonStatus addon) = ref \<and> length (addonStatusModules (addonStatus addon)) > 0)"

definition validateGitUrl :: "'m kubelib_scheme \<Rightarrow> string \<Rightarrow> goerr option" where
  "validateGitUrl L raw =
     (if \<not> hasPrefix raw schemeHTTPS \<and> \<not> hasPrefix raw schemeHTTP
         \<and> \<not> hasPrefix raw schemeSSH \<and> \<not> hasPrefix raw scpStylePrefix
      then Some (PlainError ''gitUrl scheme not allowed'')
      else if hasPrefix raw scpStylePrefix then None
      else (case ParseURL L raw of
              Inl _ \<Rightarrow> Some (PlainError ''gitUrl is not a valid URL'')
            | Inr (hasUser, hasPassword) \<Rightarrow>
                if \<not> hasUser then None
                else if \<not> hasPrefix raw schemeSSH \<or> hasPassword
                then Some (PlainError ''gitUrl must not embed credentials; put them in gitSecretRef instead'')
                else None))"

definition validateGitRef :: "string \<Rightarrow> goerr option" where
  "validateGitRef ref =
     (if strContains ref ''..'' \<or> hasPrefix ref ''-'' then Some (PlainError (''invalid gitRef: '' @ goQuote ref))
      else if \<not> validGitRef ref then Some (PlainError (''gitRef contains disallowed characters: '' @ goQuote ref))
      else None)"

definition validatePathSegment :: "string \<Rightarrow> goerr option" where
  "validatePathSegment name =
     (if name = '''' \<or> strContains name ''..'' \<or> hasPrefix name ''/''
      then Some (PlainError (''invalid path segment: '' @ goQuote name))
      else if \<not> validPathSegment name
      then Some (PlainError (''path segment contains disallowed characters: '' @ goQuote name))
      else None)"

definition validateModuleName :: "string \<Rightarrow> goerr option" where
  \<open>validateModuleName name =
     (if hasPrefix name ''.'' then Some (PlainError (''moduleName must not start with \'.\': '' @ goQuote name))
      else validatePathSegment name)\<close>

definition resolveGitAuth :: "string \<Rightarrow> string option \<Rightarrow> goerr + gitAuthMode" where
  "resolveGitAuth gitURL secret =
     (case secret of
        None \<Rightarrow> Inr authNone
      | Some name \<Rightarrow>
          if name = '''' then Inl (PlainError ''gitSecretRef.name must not be empty'')
          else if hasPrefix gitURL schemeSSH \<or> hasPrefix gitURL scpStylePrefix then Inr authSSH
          else if hasPrefix gitURL schemeHTTP
          then Inl (PlainError ''refusing to send git credentials over plain http; use https'')
          else Inr authHTTPSToken)"

definition defaultedSpec :: "addon \<Rightarrow> syncSpec" where
  "defaultedSpec addon =
     (let sp = addonSpec addon; name = metaName (addonMeta addon) in
      \<lparr>ssGitURL = GitUrl sp, ssGitRef = (if GitRef sp = '''' then ''main'' else GitRef sp), ssAddonName = name,
       ssModuleName = (if ModuleName sp = '''' then name else ModuleName sp), ssAddonPath = AddonPath sp,
       ssSingleAddon = SingleAddon sp, ssSecretName = '''', ssAuth = authNone\<rparr>)"

definition resolveSyncSpec :: "'m kubelib_scheme \<Rightarrow> addon \<Rightarrow> goerr + syncSpec" where
  "resolveSyncSpec L addon =
     (let s = defaultedSpec addon in
      case validateGitUrl L (ssGitURL s) of Some err \<Rightarrow> Inl err | None \<Rightarrow>
      (case validateGitRef (ssGitRef s) of Some err \<Rightarrow> Inl err | None \<Rightarrow>
      (case validatePathSegment (ssAddonName s) of Some err \<Rightarrow> Inl (WrapError ''invalid addon name: '' err) | None \<Rightarrow>
      (case validateModuleName (ssModuleName s) of Some err \<Rightarrow> Inl (WrapError ''invalid moduleName: '' err) | None \<Rightarrow>
      (case (if ssAddonPath s \<noteq> '''' then validatePathSegment (ssAddonPath s) else None) of
         Some err \<Rightarrow> Inl (WrapError ''invalid addonPath: '' err) | None \<Rightarrow>
      (case resolveGitAuth (ssGitURL s) (GitSecretRef (addonSpec addon)) of
         Inl err \<Rightarrow> Inl err
       | Inr auth \<Rightarrow>
           Inr (s\<lparr>ssAuth := auth,
                  ssSecretName := (case GitSecretRef (addonSpec addon) of None \<Rightarrow> '''' | Some n \<Rightarrow> n)\<rparr>)))))))"

section \<open>The fingerprint of a spec\<close>

definition boolText :: "bool \<Rightarrow> string" where
  "boolText b = (if b then ''true'' else ''false'')"

definition syncFields :: "syncSpec \<Rightarrow> string list" where
  "syncFields s = [ssGitURL s, ssGitRef s, ssAddonPath s, ssModuleName s, boolText (ssSingleAddon s),
     ssSecretName s, ssAddonName s]"

definition syncSpecHash :: "syncSpec \<Rightarrow> string" where
  "syncSpecHash s = take 16 (hexEncode (sha256 (jsonStrings (syncFields s))))"

section \<open>The report of the sync Job\<close>

definition modulesLinePrefix :: string where
  "modulesLinePrefix = ''modules: ''"

definition parseModulesLine :: "string \<Rightarrow> string list" where
  "parseModulesLine line =
     (case cutPrefix line modulesLinePrefix of
        None \<Rightarrow> []
      | Some rest \<Rightarrow>
          (let parts = splitOn (CHR '','') rest in
           if list_ex (\<lambda>p. validateModuleName p \<noteq> None) parts then [] else sort_compact parts))"

definition parseSyncOutput :: "string \<Rightarrow> string \<times> string list" where
  "parseSyncOutput logs =
     (let lines = filter (\<lambda>t. t \<noteq> '''') (map trimSpace (splitOn nl logs)); n = length lines in
      if n = 0 then ('''', [])
      else (lines ! (n - 1), if n \<ge> 2 then parseModulesLine (lines ! (n - 2)) else []))"

section \<open>What a resolved spec guarantees\<close>

text \<open>A module folder name: plain, non-empty, with no dot in front and no parent directory.\<close>

definition moduleNameOk :: "string \<Rightarrow> bool" where
  "moduleNameOk m \<longleftrightarrow> validPathSegment m \<and> \<not> strContains m ''..'' \<and> \<not> hasPrefix m ''.''"

lemma validPathSegment_neq_Nil: "validPathSegment m \<Longrightarrow> m \<noteq> []"
  by (simp add: validPathSegment_def matchClass_def)

lemma validPathSegment_no_slash: "validPathSegment m \<Longrightarrow> CHR ''/'' \<notin> set m"
  by (auto simp: validPathSegment_def matchClass_def list_all_iff isAlnum_def byteIn_def)

lemma validatePathSegment_None:
  "validatePathSegment m = None \<longleftrightarrow> validPathSegment m \<and> \<not> strContains m ''..''"
  by (auto simp: validatePathSegment_def validPathSegment_neq_Nil hasPrefix_iff dest: validPathSegment_no_slash)

lemma validateModuleName_None: "validateModuleName m = None \<longleftrightarrow> moduleNameOk m"
  by (auto simp: validateModuleName_def moduleNameOk_def validatePathSegment_None)

lemma validPathSegment_quote: "validPathSegment m \<Longrightarrow> shQuote m = m"
proof -
  assume "validPathSegment m"
  then have "matchClass shSafe m"
    by (auto simp: validPathSegment_def matchClass_def shSafe_def list_all_iff)
  then show ?thesis by (simp add: shQuote_def)
qed

lemma resolveGitAuth_Inr:
  "resolveGitAuth u secret = Inr auth \<Longrightarrow>
     (auth = authNone \<longleftrightarrow> secret = None) \<and> (auth = authHTTPSToken \<longrightarrow> \<not> hasPrefix u schemeHTTP)
     \<and> (auth = authSSH \<longrightarrow> hasPrefix u schemeSSH \<or> hasPrefix u scpStylePrefix)
     \<and> (secret \<noteq> Some '''')
     \<and> (auth = authHTTPSToken \<longrightarrow> \<not> hasPrefix u schemeSSH \<and> \<not> hasPrefix u scpStylePrefix)"
  by (auto simp: resolveGitAuth_def split: option.splits if_splits)

lemma validateGitUrl_None:
  "validateGitUrl L raw = None \<Longrightarrow>
     hasPrefix raw schemeHTTPS \<or> hasPrefix raw schemeHTTP \<or> hasPrefix raw schemeSSH \<or> hasPrefix raw scpStylePrefix"
  by (auto simp: validateGitUrl_def split: if_splits)

lemma resolveSyncSpec_Inr:
  assumes "resolveSyncSpec L addon = Inr s"
  shows "validateGitUrl L (ssGitURL s) = None" "validateGitRef (ssGitRef s) = None"
    "validatePathSegment (ssAddonName s) = None" "validateModuleName (ssModuleName s) = None"
    "ssAddonPath s = '''' \<or> validatePathSegment (ssAddonPath s) = None"
    "resolveGitAuth (ssGitURL s) (GitSecretRef (addonSpec addon)) = Inr (ssAuth s)"
    "ssSecretName s = (case GitSecretRef (addonSpec addon) of None \<Rightarrow> '''' | Some n \<Rightarrow> n)"
    "ssGitURL s = GitUrl (addonSpec addon)" "ssAddonName s = metaName (addonMeta addon)"
  using assms unfolding resolveSyncSpec_def Let_def
  by (auto split: option.splits sum.splits if_splits simp: defaultedSpec_def Let_def)

section \<open>Properties\<close>

text \<open>A spec that passes resolution is safe to run: the addon, module and path names are plain
  folder names that need no shell quoting and cannot leave the addons volume or hide behind a dot, the
  ref is not an option and has no parent step, and credentials are only ever used with an https or an
  ssh URL, never over plain http.\<close>

theorem resolved_spec_safe:
  assumes "resolveSyncSpec L addon = Inr s"
  shows "moduleNameOk (ssModuleName s)
    \<and> validPathSegment (ssAddonName s) \<and> \<not> strContains (ssAddonName s) ''..''
    \<and> shQuote (ssModuleName s) = ssModuleName s \<and> shQuote (ssAddonName s) = ssAddonName s
    \<and> (ssAddonPath s = '''' \<or> validPathSegment (ssAddonPath s) \<and> \<not> strContains (ssAddonPath s) ''..'')
    \<and> validGitRef (ssGitRef s) \<and> \<not> hasPrefix (ssGitRef s) ''-'' \<and> \<not> strContains (ssGitRef s) ''..''
    \<and> (ssAuth s = authNone \<longleftrightarrow> ssSecretName s = '''')
    \<and> (ssAuth s = authHTTPSToken \<longrightarrow> hasPrefix (ssGitURL s) schemeHTTPS \<and> \<not> hasPrefix (ssGitURL s) schemeHTTP)
    \<and> (ssAuth s = authSSH \<longrightarrow> hasPrefix (ssGitURL s) schemeSSH \<or> hasPrefix (ssGitURL s) scpStylePrefix)"
proof -
  note r = resolveSyncSpec_Inr [OF assms]
  have names: "moduleNameOk (ssModuleName s)" "validPathSegment (ssAddonName s)"
      "\<not> strContains (ssAddonName s) ''..''"
    using r(3,4) by (simp_all add: validateModuleName_None validatePathSegment_None)
  moreover from this have "validPathSegment (ssModuleName s)" by (simp add: moduleNameOk_def)
  moreover have "ssAddonPath s = '''' \<or> validPathSegment (ssAddonPath s) \<and> \<not> strContains (ssAddonPath s) ''..''"
    using r(5) by (simp add: validatePathSegment_None)
  moreover have "validGitRef (ssGitRef s)" "\<not> hasPrefix (ssGitRef s) ''-''" "\<not> strContains (ssGitRef s) ''..''"
    using r(2) by (simp_all add: validateGitRef_def split: if_splits)
  moreover have "ssAuth s = authNone \<longleftrightarrow> ssSecretName s = ''''"
    using resolveGitAuth_Inr [OF r(6)] r(7) by (cases "GitSecretRef (addonSpec addon)") auto
  ultimately show ?thesis
    using resolveGitAuth_Inr [OF r(6)] validateGitUrl_None [OF r(1)] by (auto simp: validPathSegment_quote)
qed

definition sampleAddon :: addon where
  "sampleAddon = \<lparr>addonMeta = newMeta ''theme'' ''shop'',
     addonSpec = zeroAddonSpec\<lparr>GitUrl := ''https://git.example.com/t.git'', GitSecretRef := Some ''tok''\<rparr>,
     addonStatus = zeroAddonStatus\<rparr>"

lemma resolve_sample: "\<exists>s. resolveSyncSpec refLib sampleAddon = Inr s \<and> ssAuth s = authHTTPSToken"
proof -
  have "case resolveSyncSpec refLib sampleAddon of Inl _ \<Rightarrow> False | Inr s \<Rightarrow> ssAuth s = authHTTPSToken"
    by code_simp
  then show ?thesis by (auto split: sum.splits)
qed

theorem resolved_spec_safe_witness:
  "\<exists>s. resolveSyncSpec refLib sampleAddon = Inr s \<and> hasPrefix (ssGitURL s) schemeHTTPS"
  using resolve_sample resolved_spec_safe [of refLib sampleAddon] by blast

text \<open>The text the spec hash is taken of tells any two specs apart: it is equal for two specs exactly
  when they agree in all seven inputs of the sync, separators and quotes in the values notwithstanding.\<close>

theorem syncSpecHash_input_injective:
  assumes "list_all validUTF8 (syncFields s)" and "list_all validUTF8 (syncFields t)"
  shows "jsonStrings (syncFields s) = jsonStrings (syncFields t) \<longleftrightarrow>
    ssGitURL s = ssGitURL t \<and> ssGitRef s = ssGitRef t \<and> ssAddonPath s = ssAddonPath t
    \<and> ssModuleName s = ssModuleName t \<and> ssSingleAddon s = ssSingleAddon t
    \<and> ssSecretName s = ssSecretName t \<and> ssAddonName s = ssAddonName t"
proof
  assume "jsonStrings (syncFields s) = jsonStrings (syncFields t)"
  then have "syncFields s = syncFields t"
    by (rule jsonStrings_inj) (use assms in \<open>simp_all add: syncFields_def\<close>)
  then show "ssGitURL s = ssGitURL t \<and> ssGitRef s = ssGitRef t \<and> ssAddonPath s = ssAddonPath t
      \<and> ssModuleName s = ssModuleName t \<and> ssSingleAddon s = ssSingleAddon t
      \<and> ssSecretName s = ssSecretName t \<and> ssAddonName s = ssAddonName t"
    by (auto simp: syncFields_def boolText_def split: if_splits)
qed (simp add: syncFields_def)

theorem syncSpecHash_input_injective_witness:
  "jsonStrings (syncFields (defaultedSpec sampleAddon))
     = jsonStrings (syncFields ((defaultedSpec sampleAddon)\<lparr>ssSingleAddon := True\<rparr>)) \<longleftrightarrow> False"
proof -
  have v: "list_all validUTF8 (syncFields (defaultedSpec sampleAddon))"
    "list_all validUTF8 (syncFields ((defaultedSpec sampleAddon)\<lparr>ssSingleAddon := True\<rparr>))" by code_simp+
  have "ssSingleAddon (defaultedSpec sampleAddon) = False" by code_simp
  then show ?thesis using syncSpecHash_input_injective [OF v] by simp
qed

lemma trimSpace_ends:
  assumes "graphic c" and "graphic d" and "s = c # t" and "s = u @ [d]"
  shows "trimSpace s = s"
proof -
  have "trimLeftSpace s = s"
    using assms(1,3) by (subst trimLeftSpace.simps) (simp add: leadingSpace_graphic)
  moreover have "trimRightSpace s = s"
    using assms(2,4) by (subst trimRightSpace.simps) (simp add: trailingSpace_graphic)
  ultimately show ?thesis by (simp add: trimSpace_def)
qed

lemma pathChar_graphic: "isAlnum c \<or> c \<in> set ''._-'' \<Longrightarrow> graphic c \<and> c \<noteq> CHR '','' \<and> c \<noteq> nl"
  by (auto simp: isAlnum_def byteIn_def graphic_def)

lemma moduleNameOk_chars: "moduleNameOk m \<Longrightarrow> m \<noteq> [] \<and> list_all graphic m \<and> CHR '','' \<notin> set m \<and> nl \<notin> set m"
  using pathChar_graphic by (auto simp: moduleNameOk_def validPathSegment_def matchClass_def list_all_iff)

lemma parseModulesLine_join:
  assumes "ms \<noteq> []" and "list_all moduleNameOk ms"
  shows "parseModulesLine (modulesLinePrefix @ joinWith '','' ms) = sort_compact ms"
proof -
  have "splitOn (CHR '','') (joinWith '','' ms) = ms"
    using assms moduleNameOk_chars by (intro split_join) (auto simp: list_all_iff)
  with assms(2) show ?thesis
    by (auto simp: parseModulesLine_def Let_def list_ex_iff list_all_iff validateModuleName_None)
qed

lemma joinWith_snoc: "xs \<noteq> [] \<Longrightarrow> joinWith sep (xs @ [x]) = joinWith sep xs @ sep @ x"
proof (induction xs)
  case (Cons y xs)
  then show ?case by (cases "xs = []") (simp_all add: joinWith_Cons)
qed simp

lemma hexDigit_graphic: "isHexDigit c \<Longrightarrow> graphic c \<and> c \<noteq> nl"
  by (auto simp: isHexDigit_def graphic_def)

lemma modules_line_trim:
  assumes "ms \<noteq> []" and "list_all moduleNameOk ms"
  shows "trimSpace (modulesLinePrefix @ joinWith '','' ms) = modulesLinePrefix @ joinWith '','' ms"
proof -
  obtain ns m where ms: "ms = ns @ [m]" using assms(1) by (cases ms rule: rev_cases) auto
  with assms(2) have m: "m \<noteq> []" "list_all graphic m" using moduleNameOk_chars by auto
  then obtain u d where "m = u @ [d]" "graphic d" by (cases m rule: rev_cases) auto
  then have "\<exists>v. modulesLinePrefix @ joinWith '','' ms = v @ [d]"
    using ms by (cases "ns = []") (auto simp: joinWith_snoc)
  then obtain v where v: "modulesLinePrefix @ joinWith '','' ms = v @ [d]" ..
  have "graphic (CHR ''m'')" by (simp add: graphic_def)
  moreover have "modulesLinePrefix @ joinWith '','' ms = CHR ''m'' # ''odules: '' @ joinWith '','' ms"
    by (simp add: modulesLinePrefix_def)
  ultimately show ?thesis using trimSpace_ends \<open>graphic d\<close> v by blast
qed

lemma splitOn_lines: "splitOn c (x @ c # y) = splitOn c x @ splitOn c y"
  by (induction x) (auto split: list.split)

lemma trimSpace_Nil [simp]: "trimSpace [] = []"
  using length_trimSpace [of "[]"] by simp

text \<open>The report of a sync is read back exactly: when the log ends in a modules line and the commit
  line the script prints, the reader returns that commit and the sorted module names, whatever lines
  were logged before.\<close>

lemma parse_report:
  assumes "isCommitSHA sha" and "ms \<noteq> []" and "list_all moduleNameOk ms"
  shows "parseSyncOutput (log @ nl # modulesLinePrefix @ joinWith '','' ms @ nl # sha @ [nl]) = (sha, sort_compact ms)"
proof -
  let ?line = "modulesLinePrefix @ joinWith '','' ms"
  have sha: "sha \<noteq> []" "list_all graphic sha" "nl \<notin> set sha"
    using assms(1) hexDigit_graphic unfolding isCommitSHA_def list_all_iff by (fastforce, blast, blast)
  have line: "nl \<notin> set ?line"
    using assms(3) moduleNameOk_chars set_joinWith [of "'',''" ms]
    by (fastforce simp: modulesLinePrefix_def list_all_iff)
  have "splitOn nl (log @ nl # ?line @ nl # sha @ [nl]) = splitOn nl log @ [?line, sha, []]"
    using splitOn_lines [of nl log "?line @ nl # sha @ [nl]"] splitOn_append_sep [OF line, of "sha @ [nl]"]
      splitOn_append_sep [OF sha(3), of "[]"] by simp
  moreover have "trimSpace sha = sha" by (rule trimSpace_graphic [OF sha(1,2)])
  moreover have "?line \<noteq> []" by (simp add: modulesLinePrefix_def)
  ultimately show ?thesis
    using sha(1) parseModulesLine_join [OF assms(2,3)] modules_line_trim [OF assms(2,3)]
    by (simp add: parseSyncOutput_def Let_def nth_append)
qed

text \<open>Whatever a sync Job logs, the module list recorded from it is sorted, has no duplicates and
  holds valid module folder names only.\<close>

theorem parseSyncOutput_modules_valid:
  "sorted (snd (parseSyncOutput logs)) \<and> distinct (snd (parseSyncOutput logs))
   \<and> list_all moduleNameOk (snd (parseSyncOutput logs))"
proof -
  have "sorted (parseModulesLine l) \<and> distinct (parseModulesLine l) \<and> list_all moduleNameOk (parseModulesLine l)" for l
    by (auto simp: parseModulesLine_def Let_def list_ex_iff list_all_iff validateModuleName_None split: option.split)
  then show ?thesis by (simp add: parseSyncOutput_def Let_def)
qed

end
