(* ===== verification/Workload_Parts.thy ===== *)
theory Workload_Parts
  imports Kube_Client
begin

text \<open>
  The names the reconcilers share (\<open>constants.go\<close>, \<open>odooinstance_constants.go\<close>), the zero values of the
  workload types, and what it means for a pod to be hardened. Every Job and Deployment the operator
  builds is checked against the same predicate.
\<close>

section \<open>Labels, volumes and paths\<close>

abbreviation (input) "labelApp \<equiv> ''app''"
abbreviation (input) "labelInstance \<equiv> ''instance''"
abbreviation (input) "appOdoo \<equiv> ''odoo''"
abbreviation (input) "labelAppName \<equiv> ''app.kubernetes.io/name''"
abbreviation (input) "labelAppInstance \<equiv> ''app.kubernetes.io/instance''"
abbreviation (input) "labelManagedBy \<equiv> ''app.kubernetes.io/managed-by''"
abbreviation (input) "managedByOperator \<equiv> ''odoo-k8-operator''"

abbreviation (input) "volumeAddons \<equiv> ''addons''"
abbreviation (input) "volumeData \<equiv> ''data''"
abbreviation (input) "volumeConfig \<equiv> ''odoo-config''"
abbreviation (input) "volumeTmp \<equiv> ''tmp''"
abbreviation (input) "volumeRendered \<equiv> ''odoo-rendered''"

abbreviation (input) "annotationConfigHash \<equiv> ''odoo.operator.io/config-hash''"
abbreviation (input) "annotationSecretsHash \<equiv> ''odoo.operator.io/secrets-hash''"
abbreviation (input) "annotationAddonsHash \<equiv> ''odoo.operator.io/addons-hash''"

abbreviation (input) "ReadWriteOnce \<equiv> ''ReadWriteOnce''"
abbreviation (input) "ReadWriteMany \<equiv> ''ReadWriteMany''"
abbreviation (input) "nodeHostLabel \<equiv> ''kubernetes.io/hostname''"
abbreviation (input) "secretKeyPassword \<equiv> ''password''"
abbreviation (input) "envPGPassword \<equiv> ''PGPASSWORD''"
abbreviation (input) "envDBPassword \<equiv> ''DB_PASSWORD''"
abbreviation (input) "envPGSSLMode \<equiv> ''PGSSLMODE''"
abbreviation (input) "envAdminPasswd \<equiv> ''ODOO_ADMIN_PASSWD''"
abbreviation (input) "sslModeRequire \<equiv> ''require''"

definition addonsMountPath :: string where "addonsMountPath = ''/mnt/odoo/addons''"
definition mountPathTmp :: string where "mountPathTmp = ''/tmp''"
definition mountPathConfig :: string where "mountPathConfig = ''/etc/odoo''"
definition mountPathData :: string where "mountPathData = ''/var/lib/odoo''"
definition confFileName :: string where "confFileName = ''odoo.conf''"
definition odooConfPath :: string where "odooConfPath = mountPathConfig @ ''/'' @ confFileName"
definition mountPathRendered :: string where "mountPathRendered = ''/run/odoo-conf''"
definition renderedConfPath :: string where "renderedConfPath = mountPathRendered @ ''/'' @ confFileName"

definition addonsPVCName :: "string \<Rightarrow> string" where
  "addonsPVCName instanceName = instanceName @ ''-addons''"

definition dataPVCName :: "string \<Rightarrow> string" where
  "dataPVCName instanceName = instanceName @ ''-data''"

text \<open>A text of whole lines; the scripts are written this way.\<close>

definition textLines :: "string list \<Rightarrow> string" where
  "textLines ls = concat (map (\<lambda>l. l @ [CHR 0x0A]) ls)"

section \<open>Zero values of the workload types\<close>

definition zeroContainer :: container where
  "zeroContainer = \<lparr>ctrName = '''', ctrImage = '''', ctrCommand = [], ctrArgs = [], ctrEnv = [],
     ctrResources = \<lparr>resRequests = None, resLimits = None\<rparr>, ctrMounts = [], ctrSecurity = None, ctrPorts = [],
     ctrProbes = None, ctrTerminationPath = '''', ctrTerminationPolicy = ''''\<rparr>"

definition zeroPodSpec :: pod_spec where
  "zeroPodSpec = \<lparr>podRestartPolicy = '''', podAutomountToken = None,
     podSecurity = \<lparr>runAsNonRoot = None, runAsUser = None, runAsGroup = None, fsGroup = None, seccompProfile = ''''\<rparr>,
     podInitContainers = [], podContainers = [], podVolumes = [], podNodeSelector = [], podAffinity = None,
     podTerminationGrace = None, podDNSPolicy = '''', podScheduler = ''''\<rparr>"

definition newJob :: "objmeta \<Rightarrow> job_spec \<Rightarrow> job" where
  "newJob m spec = \<lparr>jobMeta = m, jobSpec = spec, jobSucceeded = 0, jobFailed = 0, jobConditions = [],
     jobCompletion = None\<rparr>"

definition mount :: "string \<Rightarrow> string \<Rightarrow> bool \<Rightarrow> volume_mount" where
  "mount name path ro = \<lparr>mountName = name, mountPath = path, mountSubPath = '''', mountReadOnly = ro\<rparr>"

text \<open>\<open>secretEnvSource\<close> of the sync Job, and a key of a Secret with \<open>Optional\<close> left nil.\<close>

definition secretEnvSource :: "string \<Rightarrow> string \<Rightarrow> bool \<Rightarrow> env_source" where
  "secretEnvSource name key optional = EnvSecretKey name key (Some optional)"

definition secretKeyRef :: "string \<Rightarrow> string \<Rightarrow> env_source" where
  "secretKeyRef name key = EnvSecretKey name key None"

section \<open>Hardened pods\<close>

text \<open>
  A container that cannot gain privileges: no privilege escalation and every capability dropped. A
  hardened pod runs as a fixed non-root user under the default seccomp profile, all its containers
  are confined, and every mount names a volume of the pod.
\<close>

definition confined :: "container \<Rightarrow> bool" where
  "confined c \<longleftrightarrow>
     (case ctrSecurity c of
        Some s \<Rightarrow> allowPrivilegeEscalation s = Some False \<and> capsDropped s = [''ALL'']
      | None \<Rightarrow> False)"

definition mountsResolve :: "pod_spec \<Rightarrow> bool" where
  "mountsResolve p \<longleftrightarrow> list_all
     (\<lambda>c. list_all (\<lambda>m. mountName m \<in> set (map fst (podVolumes p))) (ctrMounts c))
     (podInitContainers p @ podContainers p)"

definition podHardened :: "pod_spec \<Rightarrow> bool" where
  "podHardened p \<longleftrightarrow>
     runAsNonRoot (podSecurity p) = Some True
     \<and> (case runAsUser (podSecurity p) of Some u \<Rightarrow> u > 0 | None \<Rightarrow> False)
     \<and> seccompProfile (podSecurity p) = ''RuntimeDefault''
     \<and> list_all confined (podInitContainers p @ podContainers p)
     \<and> mountsResolve p"

text \<open>The values a pod's manifest carries in clear: commands, arguments and literal environment values.\<close>

fun envLiteral :: "env_var \<Rightarrow> string list" where
  "envLiteral (_, EnvValue v) = [v]"
| "envLiteral (_, EnvSecretKey _ _ _) = []"

definition clearText :: "pod_spec \<Rightarrow> string list" where
  "clearText p = concat (map (\<lambda>c. ctrCommand c @ ctrArgs c @ concat (map envLiteral (ctrEnv c)))
     (podInitContainers p @ podContainers p))"

definition labelSelects :: "strmap \<Rightarrow> strmap \<Rightarrow> bool" where
  "labelSelects selector labels \<longleftrightarrow> list_all (\<lambda>(k, v). map_of labels k = Some v) selector"

end
