(* ===== verification/Addon_Job.thy ===== *)
theory Addon_Job
  imports Addon_Sync Workload_Parts
begin

text \<open>
  The rest of \<open>odooaddon_sync.go\<close>: the shell scripts of the sync and the cleanup Job, as text, and the
  hardened Jobs that run them.
\<close>

section \<open>Names and constants\<close>

definition syncRepoDir :: string where "syncRepoDir = ''/tmp/repo''"
definition syncReleasesDir :: string where "syncReleasesDir = ''.releases''"
definition syncManifest :: string where "syncManifest = ''__manifest__.py''"
definition syncModulesFile :: string where "syncModulesFile = ''.modules''"
definition scratchMount :: string where "scratchMount = ''/tmp''"
definition syncModulesScratch :: string where "syncModulesScratch = scratchMount @ ''/modules.list''"
definition syncPrevScratch :: string where "syncPrevScratch = scratchMount @ ''/modules.prev''"

abbreviation (input) "labelAddonOwner \<equiv> ''odoo.operator.io/addon''"

definition syncImage :: "'w cluster \<Rightarrow> string" where
  "syncImage C = (if getenv C ''OPERATOR_SYNC_IMAGE'' \<noteq> '''' then getenv C ''OPERATOR_SYNC_IMAGE'' else ''alpine/git:2.47.2'')"

definition syncJobName :: "string \<Rightarrow> string" where
  "syncJobName addonName = addonName @ ''-sync''"

definition cleanupJobName :: "string \<Rightarrow> string" where
  "cleanupJobName addonName = addonName @ ''-cleanup''"

section \<open>Scripts\<close>


definition publishFn :: string where
  \<open>publishFn = textLines
    [''publish() {'',
     ''  name=$1'',
     ''  src=$2'',
     ''  if [ ! -d "$REL/$name" ]; then'',
     ''    rm -rf "$REL/.$name.partial"'',
     ''    cp -a "$src" "$REL/.$name.partial"'',
     ''    rm -rf "$REL/.$name.partial/.git"'',
     ''    mv "$REL/.$name.partial" "$REL/$name"'',
     ''  fi'',
     ''  target="$ADDONS/$name"'',
     ''  if [ -d "$target" ] && [ ! -L "$target" ]; then'',
     ''    rm -rf "$target"'',
     ''  fi'',
     ''  ln -sfn "$REL/$name" "$ADDONS/.$name.tmp"'',
     ''  mv -T "$ADDONS/.$name.tmp" "$target"'',
     ''}'']\<close>

definition conflictCheck :: string where
  \<open>conflictCheck = textLines
    [''while IFS= read -r name; do'',
     ''  target="$ADDONS/$name"'',
     ''  if [ -L "$target" ]; then'',
     ''    dest=$(readlink "$target")'',
     ''    case "$dest" in'',
     ''      "$ADDONS/.releases/"*)'',
     ''        case "$dest" in'',
     ''          "$RELROOT/"*) ;;'',
     ''          *)'',
     ''            other=${dest#"$ADDONS/.releases/"}'',
     ''            other=${other%%/*}'',
     ''            echo "module $name '' @ addonModuleConflictMarker @ '' $other" >&2'',
     ''            exit 1'',
     ''            ;;'',
     ''        esac'',
     ''        ;;'',
     ''    esac'',
     ''  fi'',
     ''done < "$MODLIST"'']\<close>

definition staleRemoval :: string where
  \<open>staleRemoval = textLines
    [''while IFS= read -r old; do'',
     ''  [ -n "$old" ] || continue'',
     ''  if grep -qxF "$old" "$MODLIST"; then continue; fi'',
     ''  target="$ADDONS/$old"'',
     ''  if [ -L "$target" ]; then'',
     ''    case "$(readlink "$target")" in'',
     ''      "$RELROOT/"*) rm -f "$target" ;;'',
     ''    esac'',
     ''  fi'',
     ''done < "$PREV"'']\<close>

definition authSetup :: "syncSpec \<Rightarrow> string" where
  \<open>authSetup s =
     (if ssAuth s = authHTTPSToken then textLines
        [''GIT_USERNAME="${GIT_USERNAME:-x-access-token}"'',
         ''AUTH=$(printf \'%s:%s\' "$GIT_USERNAME" "$GIT_TOKEN" | base64 | tr -d '' @ [squote, bslash] @ ''n'' @ [squote] @ '')'']
      else [])\<close>

definition gitCmd :: "syncSpec \<Rightarrow> string" where
  \<open>gitCmd s =
     (if ssAuth s = authHTTPSToken then ''git -c "http.extraHeader=Authorization: Basic $AUTH"'' else ''git'')\<close>

definition fetchStep :: "syncSpec \<Rightarrow> string" where
  \<open>fetchStep s =
     (if isCommitSHA (ssGitRef s) then textLines
        [''git init '' @ syncRepoDir,
         ''git -C '' @ syncRepoDir @ '' remote add origin "$GIT_URL"'',
         gitCmd s @ '' -C '' @ syncRepoDir @ '' fetch --depth 1 origin "$GIT_REF"'',
         ''git -C '' @ syncRepoDir @ '' checkout --detach FETCH_HEAD'']
      else textLines [gitCmd s @ '' clone --depth 1 --branch "$GIT_REF" "$GIT_URL" '' @ syncRepoDir])\<close>

definition syncSource :: "syncSpec \<Rightarrow> string" where
  "syncSource s = (if \<not> ssSingleAddon s \<and> ssAddonPath s \<noteq> '''' then syncRepoDir @ ''/'' @ ssAddonPath s else syncRepoDir)"

definition discoverStep :: "syncSpec \<Rightarrow> string" where
  \<open>discoverStep s =
     (if ssSingleAddon s then
        textLines [''printf \'%s'' @ [bslash] @ ''n\' '' @ shQuote (ssModuleName s) @ '' > "$MODLIST"'']
      else textLines
        [''for mod in '' @ syncSource s @ ''/*/; do'',
         ''  if [ -f "$mod/'' @ syncManifest @ ''" ]; then'',
         ''    basename "$mod" >> "$MODLIST"'',
         ''  fi'',
         ''done'',
         ''[ -s "$MODLIST" ] || { echo "no Odoo modules found in '' @ syncSource s @ ''" >&2; exit 1; }''])\<close>

definition publishCalls :: "syncSpec \<Rightarrow> string" where
  \<open>publishCalls s =
     (if ssSingleAddon s then textLines [''publish '' @ shQuote (ssModuleName s) @ '' '' @ syncRepoDir]
      else textLines
        [''while IFS= read -r name; do'',
         ''  publish "$name" "'' @ syncSource s @ ''/$name"'',
         ''done < "$MODLIST"''])\<close>

definition manifestCheck :: "syncSpec \<Rightarrow> string" where
  \<open>manifestCheck s =
     (if ssSingleAddon s then textLines
        [''[ -f '' @ syncRepoDir @ ''/'' @ syncManifest @ '' ] || { echo "no '' @ syncManifest
           @ '' at the repository root of '' @ ssModuleName s @ ''" >&2; exit 1; }'']
      else [])\<close>

definition releaseRoot :: "string \<Rightarrow> string" where
  "releaseRoot addonName = addonsMountPath @ ''/'' @ syncReleasesDir @ ''/'' @ addonName"

definition buildSyncScript :: "syncSpec \<Rightarrow> string" where
  \<open>buildSyncScript s =
     textLines [''set -e'', ''set +x'', ''export GIT_TERMINAL_PROMPT=0'']
     @ authSetup s @ fetchStep s @ manifestCheck s
     @ textLines
        [''SHA=$(git -C '' @ syncRepoDir @ '' rev-parse HEAD)'',
         ''ADDONS='' @ addonsMountPath,
         ''RELROOT='' @ shQuote (releaseRoot (ssAddonName s)),
         ''REL="$RELROOT/$SHA"'',
         ''MODLIST='' @ syncModulesScratch,
         ''PREV='' @ syncPrevScratch,
         '': > "$MODLIST"'']
     @ discoverStep s
     @ textLines [''sort -u "$MODLIST" -o "$MODLIST"'']
     @ conflictCheck
     @ textLines
        [''if [ -f "$RELROOT/'' @ syncModulesFile @ ''" ]; then cp "$RELROOT/'' @ syncModulesFile
           @ ''" "$PREV"; else : > "$PREV"; fi'',
         ''mkdir -p "$REL"'']
     @ publishFn @ publishCalls s
     @ textLines [''touch "$REL"'']
     @ staleRemoval
     @ textLines
        [''cp "$MODLIST" "$RELROOT/'' @ syncModulesFile @ ''.tmp"'',
         ''mv "$RELROOT/'' @ syncModulesFile @ ''.tmp" "$RELROOT/'' @ syncModulesFile @ ''"'',
         ''ls -1t "$RELROOT" | tail -n +3 | while IFS= read -r old; do rm -rf "$RELROOT/$old"; done'',
         ''printf \'modules: %s'' @ [bslash] @ ''n\' "$(paste -sd, "$MODLIST")"'',
         ''git -C '' @ syncRepoDir @ '' rev-parse HEAD'']\<close>

definition buildCleanupScript :: "string \<Rightarrow> string" where
  \<open>buildCleanupScript addonName = textLines
    [''set -e'',
     ''set +x'',
     ''ADDONS='' @ addonsMountPath,
     ''RELROOT='' @ shQuote (releaseRoot addonName),
     ''if [ -d "$ADDONS" ]; then'',
     ''  find "$ADDONS" -mindepth 1 -maxdepth 1 -type l | while IFS= read -r link; do'',
     ''    case "$(readlink "$link")" in'',
     ''      "$RELROOT/"*) rm -f "$link" ;;'',
     ''    esac'',
     ''  done'',
     ''fi'',
     ''rm -rf "$RELROOT"'']\<close>

section \<open>The Jobs\<close>

record syncJobOptions =
  optImage :: string
  optPVCName :: string
  optNodeName :: string
  AddonsAccessMode :: string

record jobWiring =
  wiringEnv :: "env_var list"
  wiringVolumes :: "volume list"
  wiringMounts :: "volume_mount list"

definition sshCommand :: string where
  "sshCommand = ''ssh -i /etc/git-secret/ssh-privatekey -o UserKnownHostsFile=/etc/git-secret/known_hosts''
     @ '' -o StrictHostKeyChecking=yes -o IdentitiesOnly=yes''"

definition buildAddonJob ::
  "addon \<Rightarrow> string \<Rightarrow> strmap \<Rightarrow> string \<Rightarrow> jobWiring \<Rightarrow> syncJobOptions \<Rightarrow> job" where
  "buildAddonJob addon jobName annotations script wiring opts =
     (let name = metaName (addonMeta addon);
          ctr = zeroContainer
            \<lparr>ctrName := ''sync'', ctrImage := optImage opts, ctrCommand := [''sh'', ''-c'', script],
             ctrEnv := (''HOME'', EnvValue scratchMount) # wiringEnv wiring,
             ctrMounts := [mount volumeAddons addonsMountPath False, mount ''scratch'' scratchMount False] @ wiringMounts wiring,
             ctrSecurity := Some \<lparr>allowPrivilegeEscalation = Some False, readOnlyRootFilesystem = Some True,
               ctrRunAsNonRoot = None, capsDropped = [''ALL'']\<rparr>,
             ctrResources := \<lparr>resRequests = Some [(''cpu'', ''50m''), (''memory'', ''64Mi'')],
               resLimits = Some [(''cpu'', ''500m''), (''memory'', ''256Mi'')]\<rparr>\<rparr>;
          spec = \<lparr>podRestartPolicy = ''Never'', podAutomountToken = Some False,
            podSecurity = \<lparr>runAsNonRoot = Some True, runAsUser = Some 65532, runAsGroup = Some 65532,
              fsGroup = Some 65532, seccompProfile = ''RuntimeDefault''\<rparr>,
            podInitContainers = [], podContainers = [ctr],
            podVolumes = [(volumeAddons, PvcVolume (optPVCName opts) False), (''scratch'', EmptyDirVolume '''' None)]
              @ wiringVolumes wiring,
            podNodeSelector = (if optNodeName opts \<noteq> '''' \<and> AddonsAccessMode opts \<noteq> ReadWriteMany
              then [(nodeHostLabel, optNodeName opts)] else []),
            podAffinity = None, podTerminationGrace = None, podDNSPolicy = '''', podScheduler = ''''\<rparr> in
      \<lparr>jobMeta = (newMeta jobName (metaNamespace (addonMeta addon)))
         \<lparr>metaLabels := [(labelManagedBy, managedByOperator), (labelAddonOwner, name)], metaAnnotations := annotations\<rparr>,
       jobSpec = \<lparr>jobBackoffLimit = Some 1, jobDeadline = Some 180, jobTTL = Some 300,
         jobTemplate = \<lparr>templLabels = [(labelAddonOwner, name)], templAnnotations = [], templSpec = spec\<rparr>\<rparr>,
       jobSucceeded = 0, jobFailed = 0, jobConditions = [], jobCompletion = None\<rparr>)"

definition syncWiring :: "syncSpec \<Rightarrow> jobWiring" where
  "syncWiring s =
     (let env = [(''GIT_URL'', EnvValue (ssGitURL s)), (''GIT_REF'', EnvValue (ssGitRef s))] in
      case ssAuth s of
        authHTTPSToken \<Rightarrow>
          \<lparr>wiringEnv = env @ [(''GIT_TOKEN'', secretEnvSource (ssSecretName s) ''token'' False),
             (''GIT_USERNAME'', secretEnvSource (ssSecretName s) ''username'' True)],
           wiringVolumes = [], wiringMounts = []\<rparr>
      | authSSH \<Rightarrow>
          \<lparr>wiringEnv = env @ [(''GIT_SSH_COMMAND'', EnvValue sshCommand)],
           wiringVolumes = [(''git-secret'', SecretVolume (ssSecretName s) (Some 288))],
           wiringMounts = [mount ''git-secret'' ''/etc/git-secret'' True]\<rparr>
      | authNone \<Rightarrow> \<lparr>wiringEnv = env, wiringVolumes = [], wiringMounts = []\<rparr>)"

definition buildSyncJob :: "addon \<Rightarrow> syncSpec \<Rightarrow> syncJobOptions \<Rightarrow> job" where
  "buildSyncJob addon spec opts =
     buildAddonJob addon (syncJobName (metaName (addonMeta addon)))
       [(annotationSyncSpecHash, syncSpecHash spec)] (buildSyncScript spec) (syncWiring spec) opts"

definition buildCleanupJob :: "addon \<Rightarrow> syncJobOptions \<Rightarrow> job" where
  "buildCleanupJob addon opts =
     buildAddonJob addon (cleanupJobName (metaName (addonMeta addon))) []
       (buildCleanupScript (metaName (addonMeta addon))) \<lparr>wiringEnv = [], wiringVolumes = [], wiringMounts = []\<rparr> opts"

section \<open>What the Jobs guarantee\<close>

lemma buildAddonJob_simps [simp]:
  "jobMeta (buildAddonJob addon jobName annotations script wiring opts) =
     (newMeta jobName (metaNamespace (addonMeta addon)))
       \<lparr>metaLabels := [(labelManagedBy, managedByOperator), (labelAddonOwner, metaName (addonMeta addon))],
        metaAnnotations := annotations\<rparr>"
  "templLabels (jobTemplate (jobSpec (buildAddonJob addon jobName annotations script wiring opts))) =
     [(labelAddonOwner, metaName (addonMeta addon))]"
  "podNodeSelector (templSpec (jobTemplate (jobSpec (buildAddonJob addon jobName annotations script wiring opts)))) =
     (if optNodeName opts \<noteq> '''' \<and> AddonsAccessMode opts \<noteq> ReadWriteMany then [(nodeHostLabel, optNodeName opts)] else [])"
  "podAutomountToken (templSpec (jobTemplate (jobSpec (buildAddonJob addon jobName annotations script wiring opts)))) = Some False"
  "clearText (templSpec (jobTemplate (jobSpec (buildAddonJob addon jobName annotations script wiring opts)))) =
     [''sh'', ''-c'', script, scratchMount] @ concat (map envLiteral (wiringEnv wiring))"
  by (simp_all add: buildAddonJob_def Let_def clearText_def zeroContainer_def)

lemma buildAddonJob_hardened:
  assumes "list_all (\<lambda>m. mountName m \<in> set (map fst (wiringVolumes wiring))) (wiringMounts wiring)"
  shows "podHardened (templSpec (jobTemplate (jobSpec (buildAddonJob addon jobName annotations script wiring opts))))"
  using assms
  by (auto simp: buildAddonJob_def Let_def podHardened_def confined_def mountsResolve_def zeroContainer_def mount_def
      list_all_iff)

lemma syncWiring_resolves:
  "list_all (\<lambda>m. mountName m \<in> set (map fst (wiringVolumes (syncWiring s)))) (wiringMounts (syncWiring s))"
  by (simp add: syncWiring_def Let_def mount_def split: gitAuthMode.split)

definition sampleOptions :: syncJobOptions where
  "sampleOptions = \<lparr>optImage = ''alpine/git'', optPVCName = ''shop-addons'', optNodeName = '''', AddonsAccessMode = ''''\<rparr>"

text \<open>The script sees the values of a spec only through these.\<close>

definition scriptInputs :: "syncSpec \<Rightarrow> gitAuthMode \<times> bool \<times> bool \<times> string \<times> string \<times> string" where
  "scriptInputs s = (ssAuth s, isCommitSHA (ssGitRef s), ssSingleAddon s, ssAddonPath s, ssModuleName s, ssAddonName s)"

lemma buildSyncScript_cong: "scriptInputs s = scriptInputs t \<Longrightarrow> buildSyncScript s = buildSyncScript t"
  by (simp add: scriptInputs_def buildSyncScript_def authSetup_def fetchStep_def gitCmd_def manifestCheck_def
      discoverStep_def publishCalls_def syncSource_def)

lemma validPathSegment_plain:
  "validPathSegment m \<Longrightarrow> list_all shSafe m"
  by (auto simp: validPathSegment_def matchClass_def shSafe_def list_all_iff)

lemma addons_paths_plain:
  "list_all shSafe addonsMountPath" "list_all shSafe syncRepoDir" "list_all shSafe syncReleasesDir"
  by code_simp+

lemma shSafe_slash: "shSafe CHR ''/''"
  by code_simp

lemma syncSource_plain:
  "ssAddonPath s = '''' \<or> validPathSegment (ssAddonPath s) \<Longrightarrow> list_all shSafe (syncSource s)"
  by (auto simp: syncSource_def addons_paths_plain shSafe_slash validPathSegment_plain)

lemma releaseRoot_plain: "validPathSegment n \<Longrightarrow> list_all shSafe (releaseRoot n)"
  by (simp add: releaseRoot_def addons_paths_plain shSafe_slash validPathSegment_plain)

lemma plain_word: "list_all shSafe w \<Longrightarrow> w \<noteq> [] \<Longrightarrow> shLex False None w = Some [w]"
  using sq.quote_roundtrip [of w] by (simp add: shQuote_def matchClass_def)

text \<open>The git URL, the ref and the name of the credentials Secret never become part of a script: two specs
  that differ only in them (and in refs of the same kind) run the same script, and a sync pod carries them in
  clear only as the values of \<open>GIT_URL\<close> and \<open>GIT_REF\<close>. The Secret's name appears in no command and no literal
  value, so a token reaches the pod through a Secret reference only.\<close>

theorem sync_script_noninterference:
  assumes "scriptInputs s = scriptInputs t"
  shows "buildSyncScript s = buildSyncScript t
    \<and> clearText (templSpec (jobTemplate (jobSpec (buildSyncJob addon s opts)))) =
        [''sh'', ''-c'', buildSyncScript t, scratchMount, ssGitURL s, ssGitRef s]
          @ (if ssAuth t = authSSH then [sshCommand] else [])"
proof -
  have "concat (map envLiteral (wiringEnv (syncWiring s)))
      = [ssGitURL s, ssGitRef s] @ (if ssAuth s = authSSH then [sshCommand] else [])"
    by (simp add: syncWiring_def Let_def secretEnvSource_def split: gitAuthMode.split)
  with buildSyncScript_cong [OF assms] assms show ?thesis
    by (simp add: buildSyncJob_def scriptInputs_def)
qed

theorem sync_script_noninterference_witness:
  "buildSyncScript ((defaultedSpec sampleAddon)\<lparr>ssGitURL := ''https://a.example/x.git'', ssSecretName := ''one''\<rparr>)
   = buildSyncScript ((defaultedSpec sampleAddon)\<lparr>ssGitURL := ''https://b.example/y.git'', ssSecretName := ''two''\<rparr>)"
  by (rule conjunct1 [OF sync_script_noninterference [of _ _ sampleAddon sampleOptions]]) (simp add: scriptInputs_def)

text \<open>Every path a resolved spec puts into a script outside of quotes is read by the shell as exactly one
  word: the source directory, the module name, and the release root the script quotes anyway.\<close>

theorem sync_script_words_single:
  assumes "resolveSyncSpec L addon = Inr s"
  shows "shLex False None (syncSource s) = Some [syncSource s]
    \<and> shLex False None (ssModuleName s) = Some [ssModuleName s]
    \<and> shQuote (releaseRoot (ssAddonName s)) = releaseRoot (ssAddonName s)
    \<and> shLex False None (releaseRoot (ssAddonName s)) = Some [releaseRoot (ssAddonName s)]"
proof -
  note r = resolveSyncSpec_Inr [OF assms]
  have path: "ssAddonPath s = '''' \<or> validPathSegment (ssAddonPath s)"
    and addon: "validPathSegment (ssAddonName s)" and modl: "validPathSegment (ssModuleName s)"
    using r(3-5) by (auto simp: validatePathSegment_None validateModuleName_None moduleNameOk_def)
  have "syncSource s \<noteq> []" "releaseRoot (ssAddonName s) \<noteq> []"
    by (simp_all add: syncSource_def releaseRoot_def syncRepoDir_def addonsMountPath_def)
  then show ?thesis
    using syncSource_plain [OF path] releaseRoot_plain [OF addon] validPathSegment_plain [OF modl]
      validPathSegment_neq_Nil [OF modl]
    by (simp add: plain_word shQuote_def matchClass_def)
qed

theorem sync_script_words_single_witness:
  "\<exists>s. resolveSyncSpec refLib sampleAddon = Inr s \<and> shLex False None (syncSource s) = Some [syncSource s]"
  using resolve_sample sync_script_words_single [of refLib sampleAddon] by blast

text \<open>A sync Job is judged as built: the reconciler reads from its annotation the hash of the very spec it was
  built from, so a Job it controls is never taken for stale while the spec stays the same; and Jobs
  of different specs carry different annotations unless the hashes collide.\<close>

theorem sync_job_judged_current:
  assumes "IsControlledBy L (jobMeta j) (addonMeta addon)"
    and "metaAnnotations (jobMeta j) = metaAnnotations (jobMeta (buildSyncJob addon s opts))"
    and "SpecErr i = ''''" and "inJob i = observeSyncJob L (Some j) addon"
  shows "obsSpecHash (inJob i) = syncSpecHash s
    \<and> (decAction (decideAddonSync i) = addonActionDeleteStaleJob \<longleftrightarrow> inSpecHash i \<noteq> syncSpecHash s)"
proof -
  have "obsSpecHash (inJob i) = syncSpecHash s" "obsExists (inJob i)" "ControlledByAddon (inJob i)"
    using assms by (simp_all add: observeSyncJob_def buildSyncJob_def mapGet_def)
  with assms(3) show ?thesis by (auto simp: decideAddonSync_def decision_def)
qed

definition sampleSyncJob :: job where
  "sampleSyncJob = (let j = buildSyncJob sampleAddon (defaultedSpec sampleAddon) sampleOptions in
     j\<lparr>jobMeta := (jobMeta j)\<lparr>metaOwners := [\<lparr>ownerUID = metaUID (addonMeta sampleAddon), ownerController = True\<rparr>]\<rparr>\<rparr>)"

definition sampleInput :: addonSyncInput where
  "sampleInput = \<lparr>SpecErr = '''', inSpecHash = ''0123456789abcdef'', inJob = observeSyncJob refLib (Some sampleSyncJob) sampleAddon,
     inPhase = '''', inLastSyncTime = None, SkipResync = False, inNow = 0\<rparr>"

theorem sync_job_judged_current_witness:
  "obsSpecHash (inJob sampleInput) = syncSpecHash (defaultedSpec sampleAddon)"
proof (rule conjunct1 [OF sync_job_judged_current [of refLib sampleSyncJob sampleAddon _ sampleOptions]])
  show "IsControlledBy refLib (jobMeta sampleSyncJob) (addonMeta sampleAddon)"
    by (simp add: sampleSyncJob_def refLib_def refControlledBy_def Let_def)
qed (simp_all add: sampleSyncJob_def sampleInput_def Let_def)

end
