(* ===== verification/Addon_Controller.thy ===== *)
theory Addon_Controller
  imports Addon_Job
begin

text \<open>
  \<open>odooaddon_controller.go\<close>: the OdooAddon reconciler, one program per method. Every pass reads the addon,
  its instance, the addons volume and the sync Job once, acts on the decision of \<open>Addon_State\<close>, and returns.
\<close>

definition finalizerOdooAddon :: string where "finalizerOdooAddon = ''odoo.operator.io/addon-finalizer''"
definition addonCleanupRequeue :: int where "addonCleanupRequeue = 5 * second"
definition cleanupTimeout :: int where "cleanupTimeout = 3 * minute"
definition batchControllerUIDLabel :: string where "batchControllerUIDLabel = ''batch.kubernetes.io/controller-uid''"
definition addonLogTailBytes :: nat where "addonLogTailBytes = 2000"
definition addonLogReadLimit :: nat where "addonLogReadLimit = 1048576"
definition addonMsgLogHeader :: string where "addonMsgLogHeader = [nl] @ ''--- last log lines ---'' @ [nl]"

text \<open>What following a nil pointer amounts to; the branches that return it are shown to be dead.\<close>

definition nilDeref :: goerr where
  "nilDeref = PlainError ''invalid memory address or nil pointer dereference''"

section \<open>Status\<close>

definition writeAddonStatus ::
  "'w cluster \<Rightarrow> addon \<Rightarrow> string \<Rightarrow> string \<Rightarrow> (addon_status \<Rightarrow> addon_status) \<Rightarrow> ('w, goerr option) prog" where
  "writeAddonStatus C addon reason condMsg mutate =
     (let before = addonStatus addon;
          mutated = mutate before;
          after = mutated\<lparr>addonConds := setConditions C (addonConds mutated) (metaGeneration (addonMeta addon))
                     (addonConditions mutated reason condMsg)\<rparr> in
      if before = after then State_Monad.return None
      else do {
        err \<leftarrow> updateStatus C (OAddon (addon\<lparr>addonStatus := after\<rparr>));
        case err of
          Some e \<Rightarrow> State_Monad.return (Some e)
        | None \<Rightarrow> do {
            _ \<leftarrow> emitEvents C (OAddon (addon\<lparr>addonStatus := after\<rparr>)) (addonEvents C before after);
            State_Monad.return None
          }
      })"

definition setPhase :: "'w cluster \<Rightarrow> addon \<Rightarrow> string \<Rightarrow> ('w, goerr option) prog" where
  "setPhase C addon phase =
     (let (reason, msg) = (if phase = '''' then keptReasonMessage C (addonConds (addonStatus addon)) else ('''', '''')) in
      writeAddonStatus C addon reason msg
        (\<lambda>s. if phase = '''' then s else s\<lparr>addonPhase := phase, addonMessage := ''''\<rparr>))"

definition pendingAddon :: "'w cluster \<Rightarrow> addon \<Rightarrow> string \<Rightarrow> string \<Rightarrow> ('w, outcome) prog" where
  "pendingAddon C addon reason msg = do {
     err \<leftarrow> writeAddonStatus C addon reason msg (\<lambda>s. s\<lparr>addonPhase := phasePending, addonReady := False\<rparr>);
     case err of
       Some e \<Rightarrow> State_Monad.return (0, Some e)
     | None \<Rightarrow> State_Monad.return (pendingRequeue, None)
   }"

definition markFailed :: "'w cluster \<Rightarrow> addon \<Rightarrow> string \<Rightarrow> string \<Rightarrow> ('w, outcome) prog" where
  "markFailed C addon reason msg = do {
     now \<leftarrow> timeNow C;
     err \<leftarrow> writeAddonStatus C addon reason msg
       (\<lambda>s. s\<lparr>addonPhase := phaseFailed, addonReady := False, addonMessage := msg,
              LastSyncTime := (case LastSyncTime s of None \<Rightarrow> Some now | Some t \<Rightarrow> Some t)\<rparr>);
     case err of
       Some e \<Rightarrow> State_Monad.return (0, Some e)
     | None \<Rightarrow> State_Monad.return (failureBackoff, None)
   }"

section \<open>The sync Job\<close>

definition ensureVolumeMounted :: "'w cluster \<Rightarrow> odoo_instance \<Rightarrow> string \<Rightarrow> ('w, goerr + bool) prog" where
  "ensureVolumeMounted C ins pvcName = do {
     r \<leftarrow> getPVC C (metaNamespace (instMeta ins), pvcName);
     case r of
       Inl e \<Rightarrow> State_Monad.return (if isNotFound e then Inr False else Inl e)
     | Inr v \<Rightarrow> State_Monad.return (Inr (pvcPhase v = ''Bound''))
   }"

definition odooPodNode :: "'w cluster \<Rightarrow> odoo_instance \<Rightarrow> ('w, string) prog" where
  "odooPodNode C ins = do {
     r \<leftarrow> listPods C (metaNamespace (instMeta ins)) [(labelApp, appOdoo), (labelInstance, metaName (instMeta ins))];
     case r of
       Inl e \<Rightarrow> State_Monad.return ''''
     | Inr pods \<Rightarrow> State_Monad.return (runningNode pods)
   }"

text \<open>\<open>jobOwnedBy\<close> is the shared end of both creations: the owner reference, then the create.\<close>

definition createOwnedJob :: "'w cluster \<Rightarrow> addon \<Rightarrow> job \<Rightarrow> string \<Rightarrow> ('w, goerr option) prog" where
  "createOwnedJob C addon j failure =
     (case SetControllerReference C (addonMeta addon) (jobMeta j) of
        Inl e \<Rightarrow> State_Monad.return (Some e)
      | Inr m \<Rightarrow> do {
          err \<leftarrow> createObj C (OJob (j\<lparr>jobMeta := m\<rparr>));
          case err of
            Some e \<Rightarrow> State_Monad.return (if isAlreadyExists e then None else Some (WrapError failure e))
          | None \<Rightarrow> State_Monad.return None
        })"

definition syncJobOptionsFor :: "'w cluster \<Rightarrow> odoo_instance \<Rightarrow> string \<Rightarrow> string \<Rightarrow> syncJobOptions" where
  "syncJobOptionsFor C ins pvcName nodeName =
     \<lparr>optImage = syncImage C, optPVCName = pvcName, optNodeName = nodeName,
      AddonsAccessMode = avAccessMode (instAddons (instSpec ins))\<rparr>"

definition createSyncJob :: "'w cluster \<Rightarrow> addon \<Rightarrow> odoo_instance \<Rightarrow> string \<Rightarrow> syncSpec \<Rightarrow> ('w, goerr option) prog" where
  "createSyncJob C addon ins pvcName spec = do {
     nodeName \<leftarrow> odooPodNode C ins;
     createOwnedJob C addon (buildSyncJob addon spec (syncJobOptionsFor C ins pvcName nodeName))
       ''failed to create sync job: ''
   }"

definition createCleanupJob :: "'w cluster \<Rightarrow> addon \<Rightarrow> odoo_instance \<Rightarrow> string \<Rightarrow> ('w, goerr option) prog" where
  "createCleanupJob C addon ins pvcName = do {
     nodeName \<leftarrow> odooPodNode C ins;
     createOwnedJob C addon (buildCleanupJob addon (syncJobOptionsFor C ins pvcName nodeName))
       ''failed to create cleanup job: ''
   }"

text \<open>\<open>getSyncJob\<close> and \<open>getCleanupJob\<close>: a missing Job is nil.\<close>

definition getJobIfAny :: "'w cluster \<Rightarrow> nsname \<Rightarrow> ('w, goerr + job option) prog" where
  "getJobIfAny C key = do {
     r \<leftarrow> getJob C key;
     case r of
       Inl e \<Rightarrow> State_Monad.return (if isNotFound e then Inr None else Inl e)
     | Inr j \<Rightarrow> State_Monad.return (Inr (Some j))
   }"

definition getSyncJob :: "'w cluster \<Rightarrow> addon \<Rightarrow> ('w, goerr + job option) prog" where
  "getSyncJob C addon = getJobIfAny C (metaNamespace (addonMeta addon), syncJobName (metaName (addonMeta addon)))"

definition getCleanupJob :: "'w cluster \<Rightarrow> addon \<Rightarrow> ('w, goerr + job option) prog" where
  "getCleanupJob C addon = getJobIfAny C (metaNamespace (addonMeta addon), cleanupJobName (metaName (addonMeta addon)))"

definition deleteJob :: "'w cluster \<Rightarrow> job \<Rightarrow> ('w, goerr option) prog" where
  "deleteJob C j = do {
     err \<leftarrow> doCall C (Delete (OJob j) (Some (metaUID (jobMeta j))));
     case err of
       Some e \<Rightarrow> State_Monad.return (if isNotFound e \<or> isApiConflict e then None else Some e)
     | None \<Rightarrow> State_Monad.return None
   }"

section \<open>Reading what a Job printed\<close>

definition jobPod :: "'w cluster \<Rightarrow> job \<Rightarrow> ('w, goerr + pod) prog" where
  "jobPod C j = do {
     r \<leftarrow> listPods C (metaNamespace (jobMeta j)) [(batchControllerUIDLabel, metaUID (jobMeta j))];
     case r of
       Inl e \<Rightarrow> State_Monad.return (Inl e)
     | Inr pods \<Rightarrow>
         (case newestPod pods of
            None \<Rightarrow> State_Monad.return (Inl (PlainError (''no pod found for job '' @ metaName (jobMeta j))))
          | Some p \<Rightarrow> State_Monad.return (Inr p))
   }"

definition readJobLogs :: "'w cluster \<Rightarrow> job \<Rightarrow> ('w, goerr + string) prog" where
  "readJobLogs C j =
     (if \<not> hasClientset C then State_Monad.return (Inl (PlainError ''no clientset configured to read job logs''))
      else do {
        r \<leftarrow> jobPod C j;
        case r of
          Inl e \<Rightarrow> State_Monad.return (Inl e)
        | Inr p \<Rightarrow> do {
            l \<leftarrow> podLogs C (metaNamespace (jobMeta j)) (metaName (podMeta p)) '''' None;
            case l of
              Inl e \<Rightarrow> State_Monad.return (Inl e)
            | Inr text \<Rightarrow> State_Monad.return (Inr (take addonLogReadLimit text))
          }
      })"

definition readSyncOutput :: "'w cluster \<Rightarrow> job \<Rightarrow> ('w, goerr + (string \<times> string list)) prog" where
  "readSyncOutput C j = do {
     l \<leftarrow> readJobLogs C j;
     case l of
       Inl e \<Rightarrow> State_Monad.return (Inl e)
     | Inr logs \<Rightarrow>
         (let (commit, modules) = parseSyncOutput logs in
          if commit = '''' then
            State_Monad.return (Inl (PlainError (''sync job '' @ metaName (jobMeta j) @ '' produced no commit hash output'')))
          else State_Monad.return (Inr (commit, modules)))
   }"

section \<open>Recording the outcome\<close>

definition retireJob :: "'w cluster \<Rightarrow> job \<Rightarrow> int \<Rightarrow> ('w, outcome) prog" where
  "retireJob C j requeue = do {
     err \<leftarrow> deleteJob C j;
     case err of
       Some e \<Rightarrow> State_Monad.return (0, Some e)
     | None \<Rightarrow> State_Monad.return (requeue, None)
   }"

definition finishFailedSyncJob :: "'w cluster \<Rightarrow> addon \<Rightarrow> job \<Rightarrow> string \<Rightarrow> string \<Rightarrow> ('w, outcome) prog" where
  "finishFailedSyncJob C addon j reason msg = do {
     now \<leftarrow> timeNow C;
     err \<leftarrow> writeAddonStatus C addon reason msg
       (\<lambda>s. s\<lparr>addonPhase := phaseFailed, addonReady := False, addonMessage := msg, LastSyncTime := Some now\<rparr>);
     case err of
       Some e \<Rightarrow> State_Monad.return (0, Some e)
     | None \<Rightarrow> retireJob C j failureBackoff
   }"

definition recordSyncSuccess :: "'w cluster \<Rightarrow> addon \<Rightarrow> job \<Rightarrow> ('w, outcome) prog" where
  "recordSyncSuccess C addon j = do {
     r \<leftarrow> readSyncOutput C j;
     case r of
       Inl e \<Rightarrow> finishFailedSyncJob C addon j ReasonSyncFailed (errText e)
     | Inr (commit, modules) \<Rightarrow> do {
         now \<leftarrow> timeNow C;
         err \<leftarrow> writeAddonStatus C addon '''' ''''
           (\<lambda>s. s\<lparr>addonPhase := phaseSynced, addonReady := True, ClonedCommit := commit,
                  addonStatusModules := modules, addonMessage := '''', LastSyncTime := Some now\<rparr>);
         case err of
           Some e \<Rightarrow> State_Monad.return (0, Some e)
         | None \<Rightarrow> retireJob C j resyncInterval
       }
   }"

definition recordSyncFailure :: "'w cluster \<Rightarrow> addon \<Rightarrow> job \<Rightarrow> ('w, outcome) prog" where
  "recordSyncFailure C addon j = do {
     r \<leftarrow> readJobLogs C j;
     (let msg = jobFailureReason j;
          logs = (case r of Inl _ \<Rightarrow> '''' | Inr text \<Rightarrow> text);
          tail = (case r of Inl _ \<Rightarrow> '''' | Inr text \<Rightarrow> upgradeTail text addonLogTailBytes) in
      finishFailedSyncJob C addon j (addonFailureReason logs)
        (if tail \<noteq> '''' then msg @ addonMsgLogHeader @ tail else msg))
   }"

section \<open>One step of the sync\<close>

definition syncInputFor :: "'w cluster \<Rightarrow> addon \<Rightarrow> job option \<Rightarrow> int \<Rightarrow> addonSyncInput" where
  "syncInputFor C addon jb now =
     \<lparr>SpecErr = (case resolveSyncSpec C addon of Inl e \<Rightarrow> errText e | Inr _ \<Rightarrow> ''''),
      inSpecHash = (case resolveSyncSpec C addon of Inl _ \<Rightarrow> '''' | Inr spec \<Rightarrow> syncSpecHash spec),
      inJob = observeSyncJob C jb addon, inPhase = addonPhase (addonStatus addon),
      inLastSyncTime = LastSyncTime (addonStatus addon), SkipResync = canSkipResync addon, inNow = now\<rparr>"

definition withJob :: "job option \<Rightarrow> (job \<Rightarrow> ('w, outcome) prog) \<Rightarrow> ('w, outcome) prog" where
  "withJob jb f = (case jb of Some j \<Rightarrow> f j | None \<Rightarrow> State_Monad.return (0, Some nilDeref))"

definition actOnDecision ::
  "'w cluster \<Rightarrow> addon \<Rightarrow> odoo_instance \<Rightarrow> string \<Rightarrow> job option \<Rightarrow> addonSyncDecision \<Rightarrow> ('w, outcome) prog" where
  "actOnDecision C addon ins pvcName jb d =
     (let failWith = (\<lambda>reason. if DeleteJob d
            then withJob jb (\<lambda>j. do {
              err \<leftarrow> deleteJob C j;
              case err of
                Some e \<Rightarrow> State_Monad.return (0, Some e)
              | None \<Rightarrow> markFailed C addon reason (decMessage d)
            })
            else markFailed C addon reason (decMessage d));
          finish = do {
            err \<leftarrow> setPhase C addon (decPhase d);
            case err of
              Some e \<Rightarrow> State_Monad.return (0, Some e)
            | None \<Rightarrow> State_Monad.return (decRequeue d, None)
          } in
      case decAction d of
        addonActionInvalidSpec \<Rightarrow> failWith ReasonInvalidSpec
      | addonActionJobConflict \<Rightarrow> failWith ReasonJobConflict
      | addonActionDeleteStaleJob \<Rightarrow> withJob jb (\<lambda>j. retireJob C j (decRequeue d))
      | addonActionRecordSuccess \<Rightarrow> withJob jb (\<lambda>j. recordSyncSuccess C addon j)
      | addonActionRecordFailure \<Rightarrow> withJob jb (\<lambda>j. recordSyncFailure C addon j)
      | addonActionAwaitJob \<Rightarrow> finish
      | addonActionCooldown \<Rightarrow> finish
      | addonActionSkipResync \<Rightarrow> finish
      | addonActionCreateJob \<Rightarrow>
          (case resolveSyncSpec C addon of
             Inl _ \<Rightarrow> State_Monad.return (0, Some nilDeref)
           | Inr spec \<Rightarrow> do {
               err \<leftarrow> createSyncJob C addon ins pvcName spec;
               case err of
                 Some e \<Rightarrow> State_Monad.return (0, Some e)
               | None \<Rightarrow> finish
             }))"

definition syncAddon :: "'w cluster \<Rightarrow> addon \<Rightarrow> odoo_instance \<Rightarrow> string \<Rightarrow> ('w, outcome) prog" where
  "syncAddon C addon ins pvcName = do {
     now \<leftarrow> timeNow C;
     r \<leftarrow> getSyncJob C addon;
     case r of
       Inl e \<Rightarrow> State_Monad.return (0, Some e)
     | Inr jb \<Rightarrow> actOnDecision C addon ins pvcName jb (decideAddonSync (syncInputFor C addon jb now))
   }"

section \<open>Deletion\<close>

definition addonVolume :: "'w cluster \<Rightarrow> addon \<Rightarrow> ('w, goerr + (odoo_instance \<times> string) option) prog" where
  "addonVolume C addon =
     (let ref = addonInstanceRef (addonSpec addon); ns = metaNamespace (addonMeta addon) in
      if refName ref = '''' \<or> (refNamespace ref \<noteq> '''' \<and> refNamespace ref \<noteq> ns) then State_Monad.return (Inr None)
      else do {
        r \<leftarrow> getInstance C (ns, refName ref);
        case r of
          Inl e \<Rightarrow> State_Monad.return (if isNotFound e then Inr None else Inl e)
        | Inr ins \<Rightarrow> do {
            v \<leftarrow> getPVC C (ns, addonsPVCName (metaName (instMeta ins)));
            case v of
              Inl e \<Rightarrow> State_Monad.return (if isNotFound e then Inr None else Inl e)
            | Inr _ \<Rightarrow> State_Monad.return (Inr (Some (ins, addonsPVCName (metaName (instMeta ins)))))
          }
      })"

definition dropFinalizer :: "'w cluster \<Rightarrow> addon \<Rightarrow> ('w, outcome) prog" where
  "dropFinalizer C addon = do {
     err \<leftarrow> updateObj C (OAddon (addon\<lparr>addonMeta := RemoveFinalizer C (addonMeta addon) finalizerOdooAddon\<rparr>));
     State_Monad.return (0, err)
   }"

definition finishDeletion :: "'w cluster \<Rightarrow> addon \<Rightarrow> job option \<Rightarrow> bool \<Rightarrow> job option \<Rightarrow> ('w, outcome) prog" where
  "finishDeletion C addon syncJob ownedSyncJob cleanup = do {
     err \<leftarrow> (if ownedSyncJob then (case syncJob of Some j \<Rightarrow> deleteJob C j | None \<Rightarrow> State_Monad.return (Some nilDeref))
            else State_Monad.return None);
     case err of
       Some e \<Rightarrow> State_Monad.return (0, Some e)
     | None \<Rightarrow> do {
         err \<leftarrow> (case cleanup of Some j \<Rightarrow> deleteJob C j | None \<Rightarrow> State_Monad.return None);
         case err of
           Some e \<Rightarrow> State_Monad.return (0, Some e)
         | None \<Rightarrow> dropFinalizer C addon
       }
   }"

definition cleanupEvent :: "string \<Rightarrow> string \<Rightarrow> statusEvent" where
  "cleanupEvent reason msg = \<lparr>evType = EventTypeWarning, evReason = reason, evAction = ''Cleanup'', evMessage = msg, RelatedUpgrade = ''''\<rparr>"

text \<open>The last step of the deletion: judge the cleanup Job this addon owns.\<close>

definition judgeCleanup :: "'w cluster \<Rightarrow> addon \<Rightarrow> job \<Rightarrow> ('w, outcome) prog" where
  "judgeCleanup C addon cleanup =
     (let observed = observeSyncJob C (Some cleanup) addon in
      if obsSucceeded observed then finishDeletion C addon None False (Some cleanup)
      else if obsFailed observed then do {
        _ \<leftarrow> emitEvents C (OAddon addon) [cleanupEvent ''CleanupFailed''
          (''cleanup Job failed; the addon'' @ [squote] @ ''s files may remain on the addons volume. The finalizer is removed anyway'')];
        finishDeletion C addon None False (Some cleanup)
      }
      else do {
        now \<leftarrow> timeNow C;
        if timeSub now (metaCreated (jobMeta cleanup)) > cleanupTimeout then do {
          _ \<leftarrow> emitEvents C (OAddon addon) [cleanupEvent ''CleanupTimeout''
            ''cleanup Job still running after 3m0s; the finalizer is removed anyway''];
          finishDeletion C addon None False (Some cleanup)
        }
        else State_Monad.return (addonCleanupRequeue, None)
      })"

definition handleFinalizer :: "'w cluster \<Rightarrow> addon \<Rightarrow> ('w, outcome) prog" where
  "handleFinalizer C addon =
     (if \<not> ContainsFinalizer C (addonMeta addon) finalizerOdooAddon then State_Monad.return (0, None)
      else do {
        r \<leftarrow> getSyncJob C addon;
        case r of
          Inl e \<Rightarrow> State_Monad.return (0, Some e)
        | Inr syncJob \<Rightarrow>
           (let owned = (case syncJob of Some j \<Rightarrow> IsControlledBy C (jobMeta j) (addonMeta addon) | None \<Rightarrow> False) in do {
             v \<leftarrow> addonVolume C addon;
             case v of
               Inl e \<Rightarrow> State_Monad.return (0, Some e)
             | Inr None \<Rightarrow> finishDeletion C addon syncJob owned None
             | Inr (Some (ins, pvcName)) \<Rightarrow>
                 if owned then withJob syncJob (\<lambda>j. retireJob C j addonStaleJobRequeue)
                 else do {
                   c \<leftarrow> getCleanupJob C addon;
                   case c of
                     Inl e \<Rightarrow> State_Monad.return (0, Some e)
                   | Inr None \<Rightarrow> do {
                       err \<leftarrow> createCleanupJob C addon ins pvcName;
                       case err of
                         Some e \<Rightarrow> State_Monad.return (0, Some e)
                       | None \<Rightarrow> State_Monad.return (addonCleanupRequeue, None)
                     }
                   | Inr (Some cleanup) \<Rightarrow>
                       if \<not> IsControlledBy C (jobMeta cleanup) (addonMeta addon)
                       then finishDeletion C addon None False None
                       else judgeCleanup C addon cleanup
                 }
           })
      })"

section \<open>The reconciler\<close>

definition reconcileOdooAddon :: "'w cluster \<Rightarrow> addon \<Rightarrow> ('w, outcome) prog" where
  "reconcileOdooAddon C addon =
     (let ref = addonInstanceRef (addonSpec addon); ns = metaNamespace (addonMeta addon) in
      if refNamespace ref \<noteq> '''' \<and> refNamespace ref \<noteq> ns
      then markFailed C addon ReasonInvalidSpec ''cross-namespace instanceRef is not supported''
      else if refName ref = ''''
      then pendingAddon C addon ReasonInstanceNotFound ''spec.instanceRef.name is empty''
      else do {
        r \<leftarrow> getInstance C (ns, refName ref);
        case r of
          Inl e \<Rightarrow>
            if isNotFound e then pendingAddon C addon ReasonInstanceNotFound
              (''OdooInstance '' @ goQuote (refName ref) @ '' not found in namespace '' @ goQuote ns)
            else State_Monad.return (0, Some e)
        | Inr ins \<Rightarrow>
            (let pvcName = addonsPVCName (metaName (instMeta ins)) in do {
              v \<leftarrow> ensureVolumeMounted C ins pvcName;
              case v of
                Inl e \<Rightarrow> State_Monad.return (0, Some e)
              | Inr ready \<Rightarrow>
                  if \<not> ready then pendingAddon C addon ReasonVolumeNotBound
                    (''addons PVC '' @ goQuote pvcName @ '' is not Bound yet'')
                  else syncAddon C addon ins pvcName
            })
      })"

definition ReconcileAddon :: "'w cluster \<Rightarrow> nsname \<Rightarrow> ('w, outcome) prog" where
  "ReconcileAddon C key = do {
     r \<leftarrow> getAddon C key;
     case r of
       Inl e \<Rightarrow> State_Monad.return (0, if isNotFound e then None else Some e)
     | Inr addon \<Rightarrow>
         if metaDeleted (addonMeta addon) \<noteq> None then handleFinalizer C addon
         else if \<not> ContainsFinalizer C (addonMeta addon) finalizerOdooAddon then
           (let held = addon\<lparr>addonMeta := AddFinalizer C (addonMeta addon) finalizerOdooAddon\<rparr> in do {
             err \<leftarrow> updateObj C (OAddon held);
             case err of
               Some e \<Rightarrow> State_Monad.return (0, Some e)
             | None \<Rightarrow> reconcileOdooAddon C held
           })
         else reconcileOdooAddon C addon
   }"

section \<open>Every call stays with the addon\<close>

text \<open>
  What the reconciler may do to the cluster for one addon: read anything; create Jobs that name the
  addon as their controller; delete Jobs it controls, by their UID; write the status of the addon, or
  its finalizers; emit events about it.
\<close>

fun addonCall :: "'m kubelib_scheme \<Rightarrow> addon \<Rightarrow> req \<Rightarrow> bool" where
  "addonCall L addon (Get _ _) = True"
| "addonCall L addon (ListIn _ ns _) = True"
| "addonCall L addon (PodLogs _ _ _ _) = True"
| "addonCall L addon Now = True"
| "addonCall L addon (Create x) =
     (\<exists>j m. x = OJob j \<and> SetControllerReference L (addonMeta addon) m = Inr (jobMeta j)
        \<and> metaNamespace m = metaNamespace (addonMeta addon)
        \<and> metaName m \<in> {syncJobName (metaName (addonMeta addon)), cleanupJobName (metaName (addonMeta addon))}
        \<and> podHardened (templSpec (jobTemplate (jobSpec j))))"
| "addonCall L addon (Delete x uid) =
     (\<exists>j. x = OJob j \<and> IsControlledBy L (jobMeta j) (addonMeta addon) \<and> uid = Some (metaUID (jobMeta j)))"
| "addonCall L addon (StatusUpdate x) = (\<exists>st. x = OAddon (addon\<lparr>addonStatus := st\<rparr>))"
| "addonCall L addon (Update x) =
     (x = OAddon (addon\<lparr>addonMeta := RemoveFinalizer L (addonMeta addon) finalizerOdooAddon\<rparr>))"
| "addonCall L addon (EmitEvent n) = (\<exists>st. evRegarding n = OAddon (addon\<lparr>addonStatus := st\<rparr>))"
| "addonCall L addon _ = False"

abbreviation staysWith :: "'w cluster \<Rightarrow> addon \<Rightarrow> ('w, 'a) prog \<Rightarrow> bool" where
  "staysWith C addon m \<equiv> only (addonCall C addon) m"

lemma addon_self: "\<exists>st. addon = addon\<lparr>addonStatus := st\<rparr>"
  by (rule exI [of _ "addonStatus addon"]) simp

lemma stays_emit [frame_intros]:
  "staysWith C addon (emitEvents C (OAddon (addon\<lparr>addonStatus := st\<rparr>)) evs)"
  "staysWith C addon (emitEvents C (OAddon addon) evs)"
  by (auto intro!: only_emitEvents intro: addon_self)

lemma stays_write [frame_intros]: "staysWith C addon (writeAddonStatus C addon reason condMsg mutate)"
  unfolding writeAddonStatus_def call_defs Let_def by (auto intro!: frame_intros)

lemma stays_setPhase [frame_intros]: "staysWith C addon (setPhase C addon phase)"
  unfolding setPhase_def by (auto intro!: frame_intros split: prod.split)

lemma stays_pending [frame_intros]: "staysWith C addon (pendingAddon C addon reason msg)"
  unfolding pendingAddon_def by (auto intro!: frame_intros)

lemma stays_markFailed [frame_intros]: "staysWith C addon (markFailed C addon reason msg)"
  unfolding markFailed_def call_defs by (auto intro!: frame_intros)

lemma stays_getJobIfAny [frame_intros]: "staysWith C addon (getJobIfAny C key)"
  unfolding getJobIfAny_def call_defs by (auto intro!: frame_intros)

lemma stays_reads [frame_intros]:
  "staysWith C addon (getSyncJob C addon)" "staysWith C addon (getCleanupJob C addon)"
  "staysWith C addon (odooPodNode C ins)" "staysWith C addon (ensureVolumeMounted C ins pvcName)"
  "staysWith C addon (jobPod C j)" "staysWith C addon (addonVolume C addon)"
  unfolding getSyncJob_def getCleanupJob_def odooPodNode_def ensureVolumeMounted_def jobPod_def addonVolume_def
    call_defs Let_def
  by (auto intro!: frame_intros)

lemma stays_logs [frame_intros]:
  "staysWith C addon (readJobLogs C j)" "staysWith C addon (readSyncOutput C j)"
  unfolding readSyncOutput_def readJobLogs_def call_defs Let_def
  by (auto intro!: frame_intros split: prod.split)

lemma stays_deleteJob [frame_intros]:
  "IsControlledBy C (jobMeta j) (addonMeta addon) \<Longrightarrow> staysWith C addon (deleteJob C j)"
  unfolding deleteJob_def call_defs by (auto intro!: frame_intros)

lemma stays_retireJob [frame_intros]:
  "IsControlledBy C (jobMeta j) (addonMeta addon) \<Longrightarrow> staysWith C addon (retireJob C j requeue)"
  unfolding retireJob_def by (auto intro!: frame_intros)

lemma stays_record [frame_intros]:
  assumes "IsControlledBy C (jobMeta j) (addonMeta addon)"
  shows "staysWith C addon (finishFailedSyncJob C addon j reason msg)"
    "staysWith C addon (recordSyncSuccess C addon j)" "staysWith C addon (recordSyncFailure C addon j)"
  unfolding recordSyncSuccess_def recordSyncFailure_def finishFailedSyncJob_def call_defs Let_def
  using assms by (auto intro!: frame_intros)

lemma stays_createOwned:
  assumes "metaNamespace (jobMeta j) = metaNamespace (addonMeta addon)"
    and "metaName (jobMeta j) \<in> {syncJobName (metaName (addonMeta addon)), cleanupJobName (metaName (addonMeta addon))}"
    and "podHardened (templSpec (jobTemplate (jobSpec j)))"
  shows "staysWith C addon (createOwnedJob C addon j failure)"
  unfolding createOwnedJob_def call_defs using assms by (auto intro!: frame_intros)

lemma stays_create [frame_intros]:
  "staysWith C addon (createSyncJob C addon ins pvcName spec)"
  "staysWith C addon (createCleanupJob C addon ins pvcName)"
  unfolding createSyncJob_def createCleanupJob_def buildSyncJob_def buildCleanupJob_def
  by (auto intro!: frame_intros stays_createOwned buildAddonJob_hardened syncWiring_resolves simp: newMeta_def)

lemma decide_deletes_owned:
  assumes "DeleteJob (decideAddonSync (syncInputFor C addon jb now))"
  obtains j where "jb = Some j" and "IsControlledBy C (jobMeta j) (addonMeta addon)"
  using assms
  by (cases jb) (auto simp: decide_simps syncInputFor_def observeSyncJob_def split: if_splits option.splits)

lemma decide_acts_on_job:
  "decAction (decideAddonSync i) \<in> {addonActionDeleteStaleJob, addonActionRecordSuccess, addonActionRecordFailure}
    \<Longrightarrow> DeleteJob (decideAddonSync i)"
  by (auto simp: decide_simps split: if_splits option.splits)

lemma decide_create_valid:
  "decAction (decideAddonSync i) = addonActionCreateJob \<Longrightarrow> SpecErr i = ''''"
  by (auto simp: decide_simps split: if_splits option.splits)

lemma stays_withJob:
  "(\<And>j. jb = Some j \<Longrightarrow> staysWith C addon (f j)) \<Longrightarrow> staysWith C addon (withJob jb f)"
  by (auto simp: withJob_def intro!: frame_intros split: option.split)

lemma stays_act [frame_intros]:
  "staysWith C addon (actOnDecision C addon ins pvcName jb (decideAddonSync (syncInputFor C addon jb now)))"
proof -
  let ?d = "decideAddonSync (syncInputFor C addon jb now)"
  have owned: "IsControlledBy C (jobMeta j) (addonMeta addon)" if "jb = Some j" "DeleteJob ?d" for j
    using that by (metis decide_deletes_owned option.inject)
  have owned': "IsControlledBy C (jobMeta j) (addonMeta addon)"
    if "jb = Some j" "decAction ?d \<in> {addonActionDeleteStaleJob, addonActionRecordSuccess, addonActionRecordFailure}" for j
    using that owned decide_acts_on_job by blast
  show ?thesis
    unfolding actOnDecision_def Let_def
    by (auto intro!: frame_intros stays_withJob split: addonSyncAction.split intro: owned owned')
qed

lemma stays_sync [frame_intros]: "staysWith C addon (syncAddon C addon ins pvcName)"
  unfolding syncAddon_def call_defs by (auto intro!: frame_intros)

lemma stays_finish [frame_intros]:
  assumes "ownedSyncJob \<Longrightarrow> \<forall>j. syncJob = Some j \<longrightarrow> IsControlledBy C (jobMeta j) (addonMeta addon)"
    and "\<And>j. cleanup = Some j \<Longrightarrow> IsControlledBy C (jobMeta j) (addonMeta addon)"
  shows "staysWith C addon (finishDeletion C addon syncJob ownedSyncJob cleanup)"
  unfolding finishDeletion_def dropFinalizer_def call_defs using assms by (auto intro!: frame_intros)

lemma stays_judge [frame_intros]:
  "IsControlledBy C (jobMeta cleanup) (addonMeta addon) \<Longrightarrow> staysWith C addon (judgeCleanup C addon cleanup)"
  unfolding judgeCleanup_def call_defs Let_def by (auto intro!: frame_intros)

lemma stays_finalizer [frame_intros]: "staysWith C addon (handleFinalizer C addon)"
  unfolding handleFinalizer_def Let_def
  by (auto intro!: frame_intros stays_withJob split: option.split)

lemma stays_reconcile [frame_intros]: "staysWith C addon (reconcileOdooAddon C addon)"
  unfolding reconcileOdooAddon_def call_defs Let_def by (auto intro!: frame_intros)

text \<open>The addon a pass works on once the finalizer is in place.\<close>

definition holding :: "'m kubelib_scheme \<Rightarrow> addon \<Rightarrow> addon" where
  "holding L addon =
     (if metaDeleted (addonMeta addon) \<noteq> None \<or> ContainsFinalizer L (addonMeta addon) finalizerOdooAddon then addon
      else addon\<lparr>addonMeta := AddFinalizer L (addonMeta addon) finalizerOdooAddon\<rparr>)"

text \<open>C19: Whatever the cluster answers, a pass over an addon reads the addon, adds its finalizer, and from then on
  stays with it: it creates only hardened Jobs that name the addon as their controller, deletes only Jobs the
  addon controls and only under their UID, writes only this addon's status and finalizers, and reports
  events about nothing else. A foreign Job that took the name of a sync or cleanup Job is never deleted.\<close>

theorem addon_reconcile_frame:
  "list_all (\<lambda>(r, p). r = Get KAddon key \<or>
     (case resultOf (getAddon C key) w of
        Inl _ \<Rightarrow> False
      | Inr addon \<Rightarrow>
          (\<not> ContainsFinalizer C (addonMeta addon) finalizerOdooAddon \<and> r = Update (OAddon (holding C addon)))
          \<or> addonCall C (holding C addon) r))
   (callsOf (ReconcileAddon C key) w)"
  unfolding ReconcileAddon_def
proof (rule callsOf_bind_only)
  show "list_all (\<lambda>(r, p). r = Get KAddon key \<or>
     (case resultOf (getAddon C key) w of Inl _ \<Rightarrow> False
      | Inr addon \<Rightarrow> (\<not> ContainsFinalizer C (addonMeta addon) finalizerOdooAddon \<and> r = Update (OAddon (holding C addon)))
          \<or> addonCall C (holding C addon) r)) (callsOf (getAddon C key) w)"
    by (rule only_callsOf) (auto simp: call_defs intro!: frame_intros)
qed (auto simp: call_defs holding_def Let_def intro!: frame_intros
      intro: only_mono [OF stays_finalizer] only_mono [OF stays_reconcile] split: sum.split)

section \<open>When the finalizer goes\<close>

definition noVolumeRef :: "addon \<Rightarrow> bool" where
  "noVolumeRef addon \<longleftrightarrow>
     (let ref = addonInstanceRef (addonSpec addon) in
      refName ref = '''' \<or> (refNamespace ref \<noteq> '''' \<and> refNamespace ref \<noteq> metaNamespace (addonMeta addon)))"

text \<open>The addon names no volume, or its instance or its volume was found missing.\<close>

definition volumeGone :: "addon \<Rightarrow> history \<Rightarrow> bool" where
  "volumeGone addon h \<longleftrightarrow> noVolumeRef addon \<or>
     (\<exists>k key e. (Get k key, RErr e) \<in> set h \<and> (k = KInstance \<or> k = KPVC) \<and> isNotFound e)"

text \<open>No sync Job of the addon was seen, and its cleanup Job was seen finished, overdue, or not the addon's.\<close>

definition cleanupSettled :: "'m kubelib_scheme \<Rightarrow> addon \<Rightarrow> history \<Rightarrow> bool" where
  "cleanupSettled L addon h \<longleftrightarrow>
     (let ns = metaNamespace (addonMeta addon); name = metaName (addonMeta addon) in
      (\<forall>j. (Get KJob (ns, syncJobName name), RObj (OJob j)) \<in> set h \<longrightarrow> \<not> IsControlledBy L (jobMeta j) (addonMeta addon))
      \<and> (\<exists>c. (Get KJob (ns, cleanupJobName name), RObj (OJob c)) \<in> set h
           \<and> (\<not> IsControlledBy L (jobMeta c) (addonMeta addon)
              \<or> obsSucceeded (observeSyncJob L (Some c) addon) \<or> obsFailed (observeSyncJob L (Some c) addon)
              \<or> (\<exists>p. (Now, p) \<in> set h \<and> timeSub (timeReply p) (metaCreated (jobMeta c)) > cleanupTimeout))))"

fun isUpdate :: "req \<Rightarrow> bool" where
  "isUpdate (Update _) = True"
| "isUpdate _ = False"

definition finalizerDropJustified :: "'m kubelib_scheme \<Rightarrow> addon \<Rightarrow> history \<Rightarrow> bool" where
  "finalizerDropJustified L addon h \<longleftrightarrow>
     (list_ex (\<lambda>c. isUpdate (fst c)) h \<longrightarrow> volumeGone addon h \<or> cleanupSettled L addon h)"

lemma getJobIfAny_wp:
  assumes "\<And>e p. B (Inl e) (h @ [(Get KJob key, p)])"
    and "\<And>e. isNotFound e \<Longrightarrow> B (Inr None) (h @ [(Get KJob key, RErr e)])"
    and "\<And>j. B (Inr (Some j)) (h @ [(Get KJob key, RObj (OJob j))])"
  shows "wp (getJobIfAny C key) B h"
  unfolding getJobIfAny_def call_defs
  by (auto intro!: wp_intros assms(1) simp: objReply_Inr_iff assms(3))
    (metis assms(2) objReply_Inl_notFound)

lemma syncJobName_neq_cleanupJobName [simp]:
  "syncJobName n \<noteq> cleanupJobName n" "cleanupJobName n \<noteq> syncJobName n"
  by (simp_all add: syncJobName_def cleanupJobName_def)

text \<open>Without an update there is nothing to justify; from a history with the evidence, dropping the finalizer is fine.\<close>


lemma no_update_justified:
  "list_all (\<lambda>c. \<not> isUpdate (fst c)) h \<Longrightarrow> finalizerDropJustified L addon h"
  by (auto simp: finalizerDropJustified_def list_all_iff list_ex_iff)

fun isGet :: "req \<Rightarrow> bool" where
  "isGet (Get _ _) = True"
| "isGet _ = False"

lemma evidence_mono:
  assumes "volumeGone addon h \<or> cleanupSettled L addon h" and "list_all (\<lambda>c. \<not> isGet (fst c)) l"
  shows "finalizerDropJustified L addon (h @ l)"
proof -
  have "volumeGone addon h \<Longrightarrow> volumeGone addon (h @ l)"
    by (auto simp: volumeGone_def)
  moreover have "cleanupSettled L addon h \<Longrightarrow> cleanupSettled L addon (h @ l)"
    using assms(2) by (fastforce simp: cleanupSettled_def Let_def list_all_iff)
  ultimately show ?thesis
    using assms(1) by (auto simp: finalizerDropJustified_def)
qed

lemma finishDeletion_justified:
  assumes "volumeGone addon h \<or> cleanupSettled L addon h"
  shows "wp (finishDeletion C addon syncJob owned cleanup) (\<lambda>_. finalizerDropJustified L addon) h"
proof (rule wp_only)
  show "only (\<lambda>r. \<not> isGet r) (finishDeletion C addon syncJob owned cleanup)"
    unfolding finishDeletion_def dropFinalizer_def deleteJob_def call_defs by (auto intro!: frame_intros)
qed (simp add: evidence_mono [OF assms])

lemma judgeCleanup_justified:
  assumes seen: "(Get KJob (metaNamespace (addonMeta addon), cleanupJobName (metaName (addonMeta addon))), RObj (OJob c)) \<in> set h"
    and free: "\<And>j. (Get KJob (metaNamespace (addonMeta addon), syncJobName (metaName (addonMeta addon))), RObj (OJob j)) \<in> set h
      \<Longrightarrow> \<not> IsControlledBy C (jobMeta j) (addonMeta addon)"
    and quiet: "list_all (\<lambda>c. \<not> isUpdate (fst c)) h"
  shows "wp (judgeCleanup C addon c) (\<lambda>_. finalizerDropJustified C addon) h"
proof -
  define doneEv where "doneEv k \<longleftrightarrow> obsSucceeded (observeSyncJob C (Some c) addon) \<or> obsFailed (observeSyncJob C (Some c) addon)
     \<or> (\<exists>p. (Now, p) \<in> set k \<and> timeSub (timeReply p) (metaCreated (jobMeta c)) > cleanupTimeout)" for k :: history
  have settled: "cleanupSettled C addon (h @ l)" if "doneEv (h @ l)" "list_all (\<lambda>c. \<not> isGet (fst c)) l" for l
    using seen free that unfolding cleanupSettled_def doneEv_def Let_def by (fastforce simp: list_all_iff)
  have finish: "wp (finishDeletion C addon None False (Some c)) (\<lambda>_. finalizerDropJustified C addon) (h @ l)"
    if "doneEv (h @ l)" "list_all (\<lambda>c. \<not> isGet (fst c)) l" for l
    using settled [OF that] by (intro finishDeletion_justified) simp
  have emit: "wp (emitEvents C x evs) (\<lambda>_. wp (finishDeletion C addon None False (Some c)) (\<lambda>_. finalizerDropJustified C addon)) (h @ l)"
    if "doneEv (h @ l)" "list_all (\<lambda>c. \<not> isGet (fst c)) l" for x evs l
  proof (rule wp_only)
    show "only (\<lambda>r. \<not> isGet r) (emitEvents C x evs)" by (auto intro!: frame_intros)
    fix k :: history assume "list_all (\<lambda>c. \<not> isGet (fst c)) k"
    with that show "wp (finishDeletion C addon None False (Some c)) (\<lambda>_. finalizerDropJustified C addon) ((h @ l) @ k)"
      using finish [of "l @ k"] by (auto simp: doneEv_def)
  qed
  show ?thesis
    unfolding judgeCleanup_def call_defs Let_def
    using quiet finish [of "[]"] emit [of "[]"]
    by (auto intro!: wp_intros emit no_update_justified simp: doneEv_def)
qed

text \<open>How the volume lookup of a deletion ends.\<close>

lemma addonVolume_wp:
  assumes "\<And>e l. list_all (\<lambda>c. \<not> isUpdate (fst c)) l \<Longrightarrow> B (Inl e) (h @ l)"
    and "\<And>l. volumeGone addon (h @ l) \<Longrightarrow> B (Inr None) (h @ l)"
    and "\<And>v l. list_all (\<lambda>c. \<not> isUpdate (fst c)) l \<Longrightarrow> \<forall>key p. (Get KJob key, p) \<notin> set l \<Longrightarrow> B (Inr (Some v)) (h @ l)"
  shows "wp (addonVolume C addon) B h"
proof -
  have none: "B (Inr None) h" if "noVolumeRef addon"
    using assms(2) [of "[]"] that by (simp add: volumeGone_def)
  have gone: "B (Inr None) (h @ l @ [(Get k key, p)])"
    if "objReply as p = Inl e" "isNotFound e" "k = KInstance \<or> k = KPVC" for as :: "obj \<Rightarrow> 'x option" and k key e l p
  proof (rule assms(2))
    from that have "p = RErr e" by (simp add: objReply_Inl_notFound)
    with that show "volumeGone addon (h @ l @ [(Get k key, p)])"
      unfolding volumeGone_def by (intro disjI2 exI [of _ k] exI [of _ key] exI [of _ e]) simp
  qed
  note gone_ins = gone [of asInstance _ _ KInstance "[]", simplified]
    and gone_pvc = gone [of asPVC _ _ KPVC "[_]", simplified]
  show ?thesis
    unfolding addonVolume_def call_defs Let_def
    using none by (auto intro!: wp_intros assms(1,3) gone_ins gone_pvc simp: noVolumeRef_def Let_def)
qed

text \<open>C20: The finalizer of a deleted addon is removed only with a reason: the addon has no volume left to clean (its
  instance or volume is gone, or it names none), or no sync Job of its own is alive and its cleanup Job has
  succeeded, failed, run past the timeout, or is a foreign Job of that name. So while the volume exists no
  pass lets the addon go before a cleanup was given its chance, and none cleans while a sync may still write.\<close>

theorem addon_finalizer_justified:
  "finalizerDropJustified C addon (callsOf (handleFinalizer C addon) w)"
proof (rule wp_callsOf)
  let ?J = "\<lambda>_ h. finalizerDropJustified C addon h"
  let ?ns = "metaNamespace (addonMeta addon)" and ?name = "metaName (addonMeta addon)"
  have retire: "wp (retireJob C j r) ?J h" if "list_all (\<lambda>c. \<not> isUpdate (fst c)) h" for j r h
    by (rule wp_only [where P = "\<lambda>r. \<not> isUpdate r"])
      (use that in \<open>auto simp: retireJob_def deleteJob_def call_defs intro!: frame_intros no_update_justified\<close>)
  have create: "wp (createCleanupJob C addon ins n) (\<lambda>a. wp (case a of Some e \<Rightarrow> State_Monad.return (0, Some e)
      | None \<Rightarrow> State_Monad.return (addonCleanupRequeue, None)) ?J) h"
    if "list_all (\<lambda>c. \<not> isUpdate (fst c)) h" for ins n h
    by (rule wp_only [where P = "\<lambda>r. \<not> isUpdate r"])
      (use that in \<open>auto simp: createCleanupJob_def odooPodNode_def createOwnedJob_def call_defs
         intro!: frame_intros wp_intros no_update_justified\<close>)
  have foreign: "wp (finishDeletion C addon None False None) ?J h"
    if "\<And>j. (Get KJob (?ns, syncJobName ?name), RObj (OJob j)) \<in> set h \<Longrightarrow> \<not> IsControlledBy C (jobMeta j) (addonMeta addon)"
      "(Get KJob (?ns, cleanupJobName ?name), RObj (OJob c)) \<in> set h"
      "\<not> IsControlledBy C (jobMeta c) (addonMeta addon)" for c h
    by (rule finishDeletion_justified) (use that in \<open>auto simp: cleanupSettled_def Let_def\<close>)
  have gone: "wp (finishDeletion C addon j owned None) ?J h" if "volumeGone addon h" for j owned h
    using that by (simp add: finishDeletion_justified)
  show "wp (handleFinalizer C addon) ?J []"
    unfolding handleFinalizer_def Let_def getSyncJob_def getCleanupJob_def
    by (auto intro!: wp_intros getJobIfAny_wp addonVolume_wp retire create judgeCleanup_justified
        no_update_justified intro: gone foreign simp: withJob_def)
qed

section \<open>No pass is the last one by accident\<close>

definition finalizerGone :: "'m kubelib_scheme \<Rightarrow> addon \<Rightarrow> history \<Rightarrow> bool" where
  "finalizerGone L addon h \<longleftrightarrow>
     \<not> ContainsFinalizer L (addonMeta addon) finalizerOdooAddon
     \<or> list_ex (\<lambda>(r, p). isUpdate r \<and> errReply p = None) h"

definition clockBehind :: "addon \<Rightarrow> history \<Rightarrow> bool" where
  "clockBehind addon h \<longleftrightarrow>
     (\<exists>t p. LastSyncTime (addonStatus addon) = Some t \<and> (Now, p) \<in> set h \<and> timeReply p < t - 2 ^ 62)"

text \<open>Why a pass may end without asking for another: the addon is gone, its finalizer is, or the clock is
  centuries behind the recorded sync time.\<close>

definition restJustified :: "'m kubelib_scheme \<Rightarrow> nsname \<Rightarrow> outcome \<Rightarrow> history \<Rightarrow> bool" where
  "restJustified L key res h \<longleftrightarrow>
     (snd res = None \<and> fst res \<le> 0 \<longrightarrow>
        (\<exists>e. (Get KAddon key, RErr e) \<in> set h \<and> isNotFound e)
        \<or> (\<exists>addon. (Get KAddon key, RObj (OAddon addon)) \<in> set h
             \<and> (metaDeleted (addonMeta addon) \<noteq> None \<and> finalizerGone L addon h \<or> clockBehind addon h)))"

lemma decideAddonSync_requeue_pos:
  assumes "\<And>t. inLastSyncTime i = Some t \<Longrightarrow> t - 2 ^ 62 \<le> inNow i"
  shows "0 < decRequeue (decideAddonSync i)"
proof (cases "inLastSyncTime i")
  case (Some t)
  with assms have "- (2 ^ 62) \<le> timeSub (inNow i) t" by (force simp: timeSub_def)
  then have "timeSub (inNow i) t < syncInterval i \<Longrightarrow>
      wrap64 (syncInterval i - timeSub (inNow i) t) = syncInterval i - timeSub (inNow i) t"
    by (intro wrap64_id) (simp_all add: syncInterval_def addon_durations)
  with Some show ?thesis by (simp add: decideAddonSync_def Let_def syncInterval_def addon_durations)
qed (simp add: decideAddonSync_def Let_def addon_durations)

definition asksAgain :: "outcome \<Rightarrow> bool" where
  "asksAgain res \<longleftrightarrow> snd res \<noteq> None \<or> fst res > 0"

lemma asksAgain_simps [simp]: "asksAgain (r, Some e)" "0 < r \<Longrightarrow> asksAgain (r, None)"
  by (simp_all add: asksAgain_def)

lemma asks_retire [yields_intros]: "0 < r \<Longrightarrow> yields asksAgain (retireJob C j r)"
  unfolding retireJob_def by (auto intro!: yields_intros)

lemma asks_marks [yields_intros]:
  "yields asksAgain (pendingAddon C addon reason msg)" "yields asksAgain (markFailed C addon reason msg)"
  unfolding pendingAddon_def markFailed_def by (auto intro!: yields_intros simp: addon_durations)

lemma asks_finish [yields_intros]: "yields asksAgain (finishFailedSyncJob C addon j reason msg)"
  unfolding finishFailedSyncJob_def by (auto intro!: yields_intros simp: addon_durations)

lemma asks_record [yields_intros]:
  "yields asksAgain (recordSyncFailure C addon j)" "yields asksAgain (recordSyncSuccess C addon j)"
  unfolding recordSyncFailure_def recordSyncSuccess_def Let_def by (auto intro!: yields_intros simp: addon_durations)

text \<open>A sync step asks for another pass, unless the clock it read is far behind the recorded sync time.\<close>

lemma actOnDecision_asks:
  assumes "0 < decRequeue d"
  shows "yields asksAgain (actOnDecision C addon ins pvcName jb d)"
  unfolding actOnDecision_def Let_def withJob_def using assms
  by (auto intro!: yields_intros split: addonSyncAction.split)

lemma syncAddon_asks:
  "wp (syncAddon C addon ins pvcName) (\<lambda>res h. asksAgain res \<or> clockBehind addon h) k"
proof -
  have rest: "wp (do { r \<leftarrow> getSyncJob C addon;
      case r of Inl e \<Rightarrow> State_Monad.return (0, Some e)
      | Inr jb \<Rightarrow> actOnDecision C addon ins pvcName jb (decideAddonSync (syncInputFor C addon jb (timeReply p))) })
      (\<lambda>res h. asksAgain res \<or> clockBehind addon h) (k @ [(Now, p)])" (is "wp ?m ?B ?h") for p
  proof (cases "clockBehind addon ?h")
    case True
    have "staysWith C addon ?m" by (auto intro!: frame_intros)
    then show ?thesis
      by (rule wp_only) (use True in \<open>auto simp: clockBehind_def\<close>)
  next
    case False
    then have "0 < decRequeue (decideAddonSync (syncInputFor C addon jb (timeReply p)))" for jb
      by (intro decideAddonSync_requeue_pos) (force simp: syncInputFor_def clockBehind_def)
    then have "yields asksAgain ?m"
      by (auto intro!: yields_intros actOnDecision_asks)
    then show ?thesis by (simp add: wp_def yields_def)
  qed
  show ?thesis
    unfolding syncAddon_def timeNow_def by (rule wp_bind, rule wp_ask) (rule rest)
qed

lemma reconcileOdooAddon_asks:
  "wp (reconcileOdooAddon C addon) (\<lambda>res h. asksAgain res \<or> clockBehind addon h) k"
proof -
  have marks: "wp m (\<lambda>res h. asksAgain res \<or> clockBehind addon h) l" if "yields asksAgain m" for m :: "('w, outcome) prog" and l
    using that by (simp add: wp_def yields_def)
  show ?thesis
    unfolding reconcileOdooAddon_def ensureVolumeMounted_def call_defs Let_def
    by (auto intro!: wp_intros marks [OF asks_marks(1)] marks [OF asks_marks(2)] syncAddon_asks)
qed

lemma finalizerGone_free: "\<not> ContainsFinalizer L (addonMeta addon) finalizerOdooAddon \<Longrightarrow> finalizerGone L addon h"
  by (simp add: finalizerGone_def)

lemma finishDeletion_rests:
  "wp (finishDeletion C addon jb owned cleanup) (\<lambda>res h. asksAgain res \<or> finalizerGone C addon h) k"
  unfolding finishDeletion_def dropFinalizer_def deleteJob_def call_defs
  by (auto intro!: wp_intros simp: asksAgain_def finalizerGone_def)

lemma handleFinalizer_rests:
  "wp (handleFinalizer C addon) (\<lambda>res h. asksAgain res \<or> finalizerGone C addon h) k"
proof -
  let ?B = "\<lambda>res h. asksAgain res \<or> finalizerGone C addon h"
  have judge: "wp (judgeCleanup C addon c) ?B h" for c h
    unfolding judgeCleanup_def call_defs Let_def
    by (auto intro!: wp_skip wp_if wp_return finishDeletion_rests simp: addonCleanupRequeue_def)
  have retire: "wp (retireJob C j addonStaleJobRequeue) ?B h" for j h
    using asks_retire [of addonStaleJobRequeue C j] by (simp add: wp_def yields_def addon_durations)
  show ?thesis
    unfolding handleFinalizer_def Let_def withJob_def
    by (auto intro!: wp_skip wp_if wp_sum wp_option wp_pair wp_return finishDeletion_rests judge retire
        simp: addonCleanupRequeue_def finalizerGone_free)
qed

lemma restJustified_asks: "asksAgain res \<Longrightarrow> restJustified L key res h"
  by (auto simp: restJustified_def asksAgain_def)

lemma restJustified_addon:
  "(Get KAddon key, RObj (OAddon addon)) \<in> set h \<Longrightarrow>
     metaDeleted (addonMeta addon) \<noteq> None \<and> finalizerGone L addon h \<or> clockBehind addon h \<Longrightarrow> restJustified L key res h"
  unfolding restJustified_def by blast

lemma restJustified_missing:
  "objReply asAddon p = Inl e \<Longrightarrow> isNotFound e \<Longrightarrow> restJustified L key res [(Get KAddon key, p)]"
  using objReply_Inl_notFound [of asAddon p e] by (auto simp: restJustified_def)

lemma clockBehind_status: "addonStatus a = addonStatus b \<Longrightarrow> clockBehind a h \<Longrightarrow> clockBehind b h"
  by (simp add: clockBehind_def)

text \<open>A pass that reports no error and asks for no further pass is one after which nothing is left to do: the
  addon does not exist, or it was being deleted and its finalizer is gone. The only other case is a clock more
  than a century behind the recorded sync time. So an addon is never dropped from the work queue by accident.\<close>

theorem addon_reconcile_never_rests:
  "restJustified C key (resultOf (ReconcileAddon C key) w) (callsOf (ReconcileAddon C key) w)"
proof (rule wp_callsOf)
  let ?B = "restJustified C key"
  have del: "wp (handleFinalizer C addon) ?B [(Get KAddon key, RObj (OAddon addon))]"
    if "metaDeleted (addonMeta addon) = Some t" for addon t
    by (rule wp_mono [OF wp_grows [OF stays_finalizer handleFinalizer_rests]])
      (use that in \<open>auto simp: restJustified_asks intro: restJustified_addon\<close>)
  have live: "wp (reconcileOdooAddon C a) ?B h"
    if "(Get KAddon key, RObj (OAddon addon)) \<in> set h" "addonStatus a = addonStatus addon" for a addon h
    by (rule wp_mono [OF wp_grows [OF stays_reconcile reconcileOdooAddon_asks]])
      (use that in \<open>auto simp: restJustified_asks intro: restJustified_addon clockBehind_status\<close>)
  show "wp (ReconcileAddon C key) ?B []"
    unfolding ReconcileAddon_def call_defs Let_def
    by (auto intro!: wp_intros del live simp: objReply_Inr_iff restJustified_asks intro: restJustified_missing)
qed

section \<open>The outcome is recorded before the Job goes\<close>

fun isDelete :: "req \<Rightarrow> bool" where
  "isDelete (Delete _ _) = True"
| "isDelete _ = False"

text \<open>A status with the phase of a finished sync was stored.\<close>

definition recorded :: "addon \<Rightarrow> history \<Rightarrow> bool" where
  "recorded addon h \<longleftrightarrow>
     (\<exists>st p. (StatusUpdate (OAddon (addon\<lparr>addonStatus := st\<rparr>)), p) \<in> set h \<and> errReply p = None
        \<and> addonPhase st \<in> {phaseSynced, phaseFailed} \<and> LastSyncTime st \<noteq> None)"

definition alreadyRecorded :: "addon \<Rightarrow> bool" where
  "alreadyRecorded addon \<longleftrightarrow>
     addonPhase (addonStatus addon) \<in> {phaseSynced, phaseFailed} \<and> LastSyncTime (addonStatus addon) \<noteq> None"

text \<open>Every delete comes after a recorded outcome, now or by an earlier pass.\<close>

definition deletesAfterRecord :: "addon \<Rightarrow> history \<Rightarrow> bool" where
  "deletesAfterRecord addon h \<longleftrightarrow>
     (\<forall>l x uid p m. h = l @ (Delete x uid, p) # m \<longrightarrow>
        recorded addon l \<or> alreadyRecorded addon)"

lemma no_delete_fine: "list_all (\<lambda>c. \<not> isDelete (fst c)) h \<Longrightarrow> deletesAfterRecord addon h"
  by (auto simp: deletesAfterRecord_def)

lemma recorded_mono: "recorded addon h \<Longrightarrow> recorded addon (h @ k)"
  unfolding recorded_def set_append by blast

lemma recorded_fine:
  assumes "list_all (\<lambda>c. \<not> isDelete (fst c)) h"
    and "recorded addon h \<or> alreadyRecorded addon"
  shows "deletesAfterRecord addon (h @ k)"
  unfolding deletesAfterRecord_def
proof (intro allI impI)
  fix l x uid p m
  assume "h @ k = l @ (Delete x uid, p) # m"
  then consider us where "h @ us = l" | us where "h = l @ us" "us @ k = (Delete x uid, p) # m"
    by (auto simp: append_eq_append_conv2)
  then have "\<exists>j. l = h @ j"
    using assms(1) by cases (auto, metis append_self_conv fst_conv hd_append2 isDelete.simps(1) list.pred_inject(2) list.sel(1) list.collapse)
  with assms(2) show "recorded addon l \<or> alreadyRecorded addon"
    by (auto intro: recorded_mono)
qed

lemma writeAddonStatus_records:
  assumes quiet: "list_all (\<lambda>c. \<not> isDelete (fst c)) h"
    and final: "\<And>s. addonPhase (f s) \<in> {phaseSynced, phaseFailed} \<and> LastSyncTime (f s) \<noteq> None"
    and ok: "\<And>k. list_all (\<lambda>c. \<not> isDelete (fst c)) k \<Longrightarrow> recorded addon k \<or> alreadyRecorded addon \<Longrightarrow> B None k"
    and bad: "\<And>e k. list_all (\<lambda>c. \<not> isDelete (fst c)) k \<Longrightarrow> B (Some e) k"
  shows "wp (writeAddonStatus C addon reason msg f) B h"
proof -
  define after where "after = (f (addonStatus addon))\<lparr>addonConds := setConditions C (addonConds (f (addonStatus addon)))
    (metaGeneration (addonMeta addon)) (addonConditions (f (addonStatus addon)) reason msg)\<rparr>"
  have phase: "addonPhase after \<in> {phaseSynced, phaseFailed}" "LastSyncTime after \<noteq> None"
    using final [of "addonStatus addon"] by (simp_all add: after_def)
  have same: "B None h" if "addonStatus addon = after"
    using that phase by (intro ok quiet) (simp add: alreadyRecorded_def)
  have emit: "wp (emitEvents C x evs) (\<lambda>_. wp (State_Monad.return None) B) (h @ [(StatusUpdate (OAddon (addon\<lparr>addonStatus := after\<rparr>)), p)])"
    if "errReply p = None" for x evs p
  proof (rule wp_only [of "\<lambda>r. \<not> isDelete r"])
    show "only (\<lambda>r. \<not> isDelete r) (emitEvents C x evs)" by (auto intro!: frame_intros)
    show "wp (State_Monad.return None) B ((h @ [(StatusUpdate (OAddon (addon\<lparr>addonStatus := after\<rparr>)), p)]) @ l)"
      if "list_all (\<lambda>c. \<not> isDelete (fst c)) l" for l
      by (rule wp_return, rule ok) (use \<open>errReply p = None\<close> that quiet phase in \<open>auto simp: recorded_def\<close>)
  qed
  show ?thesis
    unfolding writeAddonStatus_def Let_def after_def [symmetric] call_defs
    by (auto intro!: wp_intros bad same emit quiet)
qed

lemma retire_fine:
  assumes "list_all (\<lambda>c. \<not> isDelete (fst c)) h"
    and "recorded addon h \<or> alreadyRecorded addon"
  shows "wp (retireJob C j r) (\<lambda>_. deletesAfterRecord addon) h"
  by (rule wp_only [of "\<lambda>_. True"])
    (auto simp: retireJob_def deleteJob_def call_defs intro!: frame_intros recorded_fine assms)

text \<open>The outcome of a finished sync Job is never lost: whatever the cluster answers, a Job is deleted by the
  recording steps only after a status with its final phase and sync time was stored, by this pass or an earlier
  one. If storing fails, the Job stays and the next pass records it.\<close>

theorem sync_outcome_recorded_before_delete:
  "deletesAfterRecord addon (callsOf (recordSyncSuccess C addon j) w)
   \<and> deletesAfterRecord addon (callsOf (recordSyncFailure C addon j) w)"
proof -
  have finish: "wp (finishFailedSyncJob C addon j reason msg) (\<lambda>_. deletesAfterRecord addon) h"
    if "list_all (\<lambda>c. \<not> isDelete (fst c)) h" for reason msg h
    unfolding finishFailedSyncJob_def call_defs
    by (auto intro!: wp_intros writeAddonStatus_records retire_fine no_delete_fine that)
  have reads: "wp m (\<lambda>_ k. list_all (\<lambda>c. \<not> isDelete (fst c)) k) []" if "only (\<lambda>r. \<not> isDelete r) m" for m :: "('b, 'c) prog"
    by (rule wp_only [OF that]) simp
  have logs: "only (\<lambda>r. \<not> isDelete r) (readJobLogs C j)"
    unfolding readJobLogs_def jobPod_def call_defs by (auto intro!: frame_intros)
  then have report: "only (\<lambda>r. \<not> isDelete r) (readSyncOutput C j)"
    unfolding readSyncOutput_def by (auto intro!: frame_intros)
  have "wp (recordSyncSuccess C addon j) (\<lambda>_. deletesAfterRecord addon) []"
    unfolding recordSyncSuccess_def call_defs
    by (rule wp_bind, rule wp_mono [OF reads [OF report]])
      (auto intro!: wp_intros finish writeAddonStatus_records retire_fine no_delete_fine)
  moreover have "wp (recordSyncFailure C addon j) (\<lambda>_. deletesAfterRecord addon) []"
    unfolding recordSyncFailure_def Let_def
    by (rule wp_bind, rule wp_mono [OF reads [OF logs]]) (rule finish)
  ultimately show ?thesis by (auto dest: wp_callsOf)
qed

end
