(* ===== verification/Instance_Config.thy ===== *)
theory Instance_Config
  imports Workload_Parts Go_Utf8
begin

text \<open>
  \<open>odooinstance_config.go\<close>: the contents of \<open>odoo.conf\<close>, rendered from the defaults, \<open>spec.config\<close>, the cron
  setting and the database settings, one sorted line per key. The rendering is proved against a reader
  of such files and against a specification of which setting wins.
\<close>

abbreviation (input) nlc :: char where "nlc \<equiv> CHR 0x0A"
abbreviation (input) crc :: char where "crc \<equiv> CHR 0x0D"
abbreviation (input) eqc :: char where "eqc \<equiv> CHR 0x3D"

definition blockedConfigKeys :: "string list" where
  "blockedConfigKeys = [''admin_passwd'', ''db_password'', ''dbfilter'']"

definition confKeyMaxCronThreads :: string where "confKeyMaxCronThreads = ''max_cron_threads''"

definition odooConfDefaults :: strmap where
  "odooConfDefaults = [(''addons_path'', addonsMountPath), (''proxy_mode'', ''True''), (''list_db'', ''False'')]"

definition checkConfValue :: "string \<Rightarrow> string \<Rightarrow> goerr option" where
  "checkConfValue key val =
     (if containsAny val [nlc, crc]
      then Some (PlainError (''config value for key '' @ goQuote key @ '' contains illegal newline characters''))
      else None)"

definition checkConfKey :: "string \<Rightarrow> goerr option" where
  "checkConfKey key =
     (if key \<in> set blockedConfigKeys
      then Some (PlainError (''config key '' @ goQuote key @ '' is not permitted in spec.config''))
      else if key = '''' \<or> containsAny key [eqc, CHR ''['', CHR '']'', nlc, crc]
      then Some (PlainError (''config key '' @ goQuote key @ '' contains illegal characters''))
      else None)"

text \<open>The loop over the sorted keys of \<open>spec.config\<close>, and the loop over the database settings.\<close>

fun mergeConfig :: "strmap \<Rightarrow> string list \<Rightarrow> strmap \<Rightarrow> goerr + strmap" where
  "mergeConfig config [] merged = Inr merged"
| "mergeConfig config (key # keys) merged =
     (case checkConfKey key of
        Some e \<Rightarrow> Inl e
      | None \<Rightarrow>
         (case checkConfValue key (mapGet config key) of
            Some e \<Rightarrow> Inl e
          | None \<Rightarrow> mergeConfig config keys (map_put key (mapGet config key) merged)))"

fun mergePairs :: "strmap \<Rightarrow> strmap \<Rightarrow> goerr + strmap" where
  "mergePairs [] merged = Inr merged"
| "mergePairs ((key, val) # ps) merged =
     (case checkConfValue key val of
        Some e \<Rightarrow> Inl e
      | None \<Rightarrow> mergePairs ps (map_put key val merged))"

definition dbSettings :: "instance_spec \<Rightarrow> strmap" where
  "dbSettings spec =
     (if pgDatabase (instPostgres spec) = '''' then []
      else [(''db_host'', pgHost (instPostgres spec)),
            (''db_port'', intDec (if pgPort (instPostgres spec) = 0 then 5432 else pgPort (instPostgres spec))),
            (''db_name'', pgDatabase (instPostgres spec)),
            (''db_user'', pgUser (instPostgres spec)),
            (''db_sslmode'', sslModeRequire)])"

definition cronEnabled :: "instance_spec \<Rightarrow> bool" where
  "cronEnabled spec = (case instCron spec of Some c \<Rightarrow> cronOn c | None \<Rightarrow> False)"

definition mergeCron :: "instance_spec \<Rightarrow> strmap \<Rightarrow> goerr + strmap" where
  "mergeCron spec merged =
     (if cronEnabled spec then
        (if map_of (instConfig spec) confKeyMaxCronThreads \<noteq> None
         then Inl (PlainError (''config key '' @ goQuote confKeyMaxCronThreads
           @ '' cannot be set in spec.config while spec.cron.enabled is true; ''
           @ ''the cron Deployment sets the cron workers through spec.cron.maxCronThreads''))
         else Inr (map_put confKeyMaxCronThreads ''0'' merged))
      else Inr merged)"

definition confLines :: "strmap \<Rightarrow> string" where
  "confLines merged = ''[options]'' @ [nlc]
     @ concat (map (\<lambda>key. key @ '' = '' @ mapGet merged key @ [nlc]) (sorted_keys merged))"

definition renderOdooConf :: "instance_spec \<Rightarrow> goerr + string" where
  "renderOdooConf spec =
     (case mergeConfig (instConfig spec) (sorted_keys (instConfig spec)) odooConfDefaults of
        Inl e \<Rightarrow> Inl e
      | Inr merged \<Rightarrow>
         (case mergeCron spec merged of
            Inl e \<Rightarrow> Inl e
          | Inr merged \<Rightarrow>
             (case mergePairs (dbSettings spec) merged of
                Inl e \<Rightarrow> Inl e
              | Inr merged \<Rightarrow> Inr (confLines merged))))"

section \<open>A reader\<close>

text \<open>Lines of the form \<open>key = value\<close>, cut at the first equals sign, after the section header.\<close>

fun readLine :: "string \<Rightarrow> (string \<times> string) option" where
  "readLine l =
     (let key = takeWhile (\<lambda>c. c \<noteq> eqc) l; rest = dropWhile (\<lambda>c. c \<noteq> eqc) l in
      case rest of
        [] \<Rightarrow> None
      | _ # val \<Rightarrow> if hasSuffix key '' '' \<and> hasPrefix val '' '' then Some (butlast key, tl val) else None)"

fun readLines :: "string list \<Rightarrow> strmap option" where
  "readLines [] = Some []"
| "readLines (l # ls) =
     (case readLine l of None \<Rightarrow> None | Some p \<Rightarrow> map_option ((#) p) (readLines ls))"

definition readConf :: "string \<Rightarrow> strmap option" where
  "readConf s =
     (case splitOn nlc s of
        header # ls \<Rightarrow> if header = ''[options]'' \<and> ls \<noteq> [] \<and> last ls = '''' then readLines (butlast ls) else None
      | [] \<Rightarrow> None)"

section \<open>Which setting wins\<close>

definition confSetting :: "instance_spec \<Rightarrow> string \<Rightarrow> string option" where
  "confSetting spec key =
     (case map_of (rev (dbSettings spec)) key of
        Some v \<Rightarrow> Some v
      | None \<Rightarrow>
         if cronEnabled spec \<and> key = confKeyMaxCronThreads then Some ''0''
         else (case map_of (instConfig spec) key of Some v \<Rightarrow> Some v | None \<Rightarrow> map_of odooConfDefaults key))"

definition badConfig :: "instance_spec \<Rightarrow> bool" where
  "badConfig spec \<longleftrightarrow>
     list_ex (\<lambda>(k, v). checkConfKey k \<noteq> None \<or> checkConfValue k (mapGet (instConfig spec) k) \<noteq> None) (instConfig spec)
     \<or> (cronEnabled spec \<and> map_of (instConfig spec) confKeyMaxCronThreads \<noteq> None)
     \<or> list_ex (\<lambda>(k, v). checkConfValue k v \<noteq> None) (dbSettings spec)"

lemma mergeConfig_cases:
  "(\<exists>e. mergeConfig config keys merged = Inl e) \<longleftrightarrow>
     (\<exists>k \<in> set keys. checkConfKey k \<noteq> None \<or> checkConfValue k (mapGet config k) \<noteq> None)"
  by (induction config keys merged rule: mergeConfig.induct) (auto split: option.splits)

lemma mergeConfig_get:
  "mergeConfig config keys merged = Inr m \<Longrightarrow>
     map_of m k = (if k \<in> set keys then Some (mapGet config k) else map_of merged k)"
  by (induction config keys merged rule: mergeConfig.induct) (auto split: option.splits)

lemma mergePairs_cases:
  "(\<exists>e. mergePairs ps merged = Inl e) \<longleftrightarrow> (\<exists>(k, v) \<in> set ps. checkConfValue k v \<noteq> None)"
  by (induction ps merged rule: mergePairs.induct) (auto split: option.splits)

lemma mergePairs_get:
  "mergePairs ps merged = Inr m \<Longrightarrow>
     map_of m k = (case map_of (rev ps) k of Some v \<Rightarrow> Some v | None \<Rightarrow> map_of merged k)"
  by (induction ps merged rule: mergePairs.induct) (auto split: option.splits if_splits simp: map_add_Some_iff map_add_def)

section \<open>What is rendered is what is read\<close>

lemma readLine_line: "eqc \<notin> set key \<Longrightarrow> readLine (key @ '' = '' @ v) = Some (key, v)"
proof -
  assume k: "eqc \<notin> set key"
  then have "takeWhile (\<lambda>c. c \<noteq> eqc) (key @ '' = '' @ v) = key @ '' ''"
    "dropWhile (\<lambda>c. c \<noteq> eqc) (key @ '' = '' @ v) = ''= '' @ v"
    by (induction key) auto
  then show ?thesis by (simp add: hasSuffix_def)
qed

lemma confText_lines:
  "(\<And>l. l \<in> set ls \<Longrightarrow> c \<notin> set l) \<Longrightarrow> splitOn c (concat (map (\<lambda>l. l @ [c]) ls)) = ls @ [[]]"
  by (induction ls) (auto simp: splitOn_append_sep)

lemma readLines_lines:
  "(\<And>k. k \<in> set ks \<Longrightarrow> eqc \<notin> set k) \<Longrightarrow> readLines (map (\<lambda>k. k @ '' = '' @ f k) ks) = Some (map (\<lambda>k. (k, f k)) ks)"
  by (induction ks) (auto simp del: readLine.simps simp: readLine_line [simplified])

definition plainEntry :: "string \<Rightarrow> string \<Rightarrow> bool" where
  "plainEntry k v \<longleftrightarrow> eqc \<notin> set k \<and> nlc \<notin> set k \<and> nlc \<notin> set v"

lemma readConf_confLines:
  assumes "\<And>k. k \<in> fst ` set m \<Longrightarrow> plainEntry k (mapGet m k)"
  shows "readConf (confLines m) = Some (map (\<lambda>k. (k, mapGet m k)) (sorted_keys m))"
proof -
  let ?ls = "map (\<lambda>k. k @ '' = '' @ mapGet m k) (sorted_keys m)"
  have lines: "confLines m = ''[options]'' @ nlc # concat (map (\<lambda>l. l @ [nlc]) ?ls)"
    by (simp add: confLines_def comp_def)
  have "nlc \<notin> set l" if "l \<in> set ?ls" for l
  proof -
    from that obtain k where "k \<in> fst ` set m" and "l = k @ '' = '' @ mapGet m k" by auto
    with assms [of k] show ?thesis by (simp add: plainEntry_def)
  qed
  then have "splitOn nlc (concat (map (\<lambda>l. l @ [nlc]) ?ls)) = ?ls @ [[]]"
    by (rule confText_lines)
  then have "splitOn nlc (confLines m) = ''[options]'' # ?ls @ [[]]"
    unfolding lines by (subst splitOn_append_sep) auto
  moreover have "readLines ?ls = Some (map (\<lambda>k. (k, mapGet m k)) (sorted_keys m))"
    using assms by (intro readLines_lines) (auto simp: plainEntry_def)
  ultimately show ?thesis by (simp add: readConf_def)
qed

lemma checkConfKey_None: "checkConfKey k = None \<Longrightarrow> eqc \<notin> set k \<and> nlc \<notin> set k \<and> k \<noteq> '''' \<and> k \<notin> set blockedConfigKeys"
  by (auto simp: checkConfKey_def containsAny_iff split: if_splits)

lemma checkConfValue_None: "checkConfValue k v = None \<Longrightarrow> nlc \<notin> set v"
  by (auto simp: checkConfValue_def containsAny_iff split: if_splits)

lemma mapGet_map_of: "map_of m k = Some v \<Longrightarrow> mapGet m k = v"
  by (simp add: mapGet_def)

lemma keys_map_of: "k \<in> fst ` set m \<longleftrightarrow> map_of m k \<noteq> None"
  by (auto simp: map_of_eq_None_iff)

lemma renderOdooConf_Inr:
  assumes "renderOdooConf spec = Inr conf"
  obtains m where "conf = confLines m" and "\<And>k. map_of m k = confSetting spec k" and "\<not> badConfig spec"
proof -
  from assms obtain m1 m2 m3 where m1: "mergeConfig (instConfig spec) (sorted_keys (instConfig spec)) odooConfDefaults = Inr m1"
    and m2: "mergeCron spec m1 = Inr m2" and m3: "mergePairs (dbSettings spec) m2 = Inr m3" and conf: "conf = confLines m3"
    by (auto simp: renderOdooConf_def split: sum.splits)
  have cfg: "(if k \<in> fst ` set (instConfig spec) then Some (mapGet (instConfig spec) k) else d)
      = (case map_of (instConfig spec) k of Some v \<Rightarrow> Some v | None \<Rightarrow> d)" for k d
    by (cases "map_of (instConfig spec) k") (auto simp: keys_map_of mapGet_def)
  have "map_of m2 k = (if cronEnabled spec \<and> k = confKeyMaxCronThreads then Some ''0''
      else (case map_of (instConfig spec) k of Some v \<Rightarrow> Some v | None \<Rightarrow> map_of odooConfDefaults k))" for k
    using m2 mergeConfig_get [OF m1, of k] by (auto simp: mergeCron_def cfg split: if_splits)
  then have "map_of m3 k = confSetting spec k" for k
    unfolding mergePairs_get [OF m3] confSetting_def by (simp split: option.splits)
  moreover have "\<not> badConfig spec"
    using m1 m2 m3 mergeConfig_cases [of "instConfig spec" "sorted_keys (instConfig spec)" odooConfDefaults]
      mergePairs_cases [of "dbSettings spec" m2]
    by (auto simp: badConfig_def mergeCron_def list_ex_iff split: if_splits)
  ultimately show thesis using conf that by blast
qed

lemma confSetting_plain:
  assumes "\<not> badConfig spec" and "confSetting spec k = Some v"
  shows "plainEntry k v \<and> k \<notin> set blockedConfigKeys"
proof -
  have db: "plainEntry k v \<and> k \<notin> set blockedConfigKeys" if "map_of (rev (dbSettings spec)) k = Some v"
  proof -
    from that have mem: "(k, v) \<in> set (dbSettings spec)" by (metis map_of_SomeD set_rev)
    with assms(1) have "checkConfValue k v = None" by (auto simp: badConfig_def list_ex_iff)
    moreover from mem have "k \<in> set [''db_host'', ''db_port'', ''db_name'', ''db_user'', ''db_sslmode'']"
      by (auto simp: dbSettings_def split: if_splits)
    then have "eqc \<notin> set k \<and> nlc \<notin> set k \<and> k \<notin> set blockedConfigKeys" by (auto simp: blockedConfigKeys_def)
    ultimately show ?thesis by (simp add: plainEntry_def checkConfValue_None)
  qed
  have cron: "plainEntry confKeyMaxCronThreads ''0'' \<and> confKeyMaxCronThreads \<notin> set blockedConfigKeys"
    by (simp add: plainEntry_def confKeyMaxCronThreads_def blockedConfigKeys_def)
  have dflt: "plainEntry k v \<and> k \<notin> set blockedConfigKeys" if "map_of odooConfDefaults k = Some v"
    using that by (auto simp: odooConfDefaults_def plainEntry_def blockedConfigKeys_def addonsMountPath_def split: if_splits)
  have user: "plainEntry k v \<and> k \<notin> set blockedConfigKeys" if "map_of (instConfig spec) k = Some v"
  proof -
    from that have "(k, v) \<in> set (instConfig spec)" and get: "mapGet (instConfig spec) k = v"
      by (auto simp: map_of_SomeD mapGet_map_of)
    with assms(1) have "checkConfKey k = None" "checkConfValue k v = None"
      by (fastforce simp: badConfig_def list_ex_iff)+
    then show ?thesis by (simp add: plainEntry_def checkConfKey_None checkConfValue_None)
  qed
  show ?thesis
    using assms(2) db cron dflt user by (auto simp: confSetting_def split: option.splits if_splits)
qed

lemma plain_confLines:
  assumes "\<not> badConfig spec" and "\<And>k. map_of m k = confSetting spec k"
  shows "readConf (confLines m) = Some (map (\<lambda>k. (k, mapGet m k)) (sorted_keys m))"
  using assms by (intro readConf_confLines) (auto simp: keys_map_of mapGet_def dest!: confSetting_plain)

lemma renderOdooConf_Inl: "(\<exists>e. renderOdooConf spec = Inl e) \<longleftrightarrow> badConfig spec"
proof
  assume "\<exists>e. renderOdooConf spec = Inl e"
  then consider e where "mergeConfig (instConfig spec) (sorted_keys (instConfig spec)) odooConfDefaults = Inl e"
    | m e where "mergeCron spec m = Inl e" | m e where "mergePairs (dbSettings spec) m = Inl e"
    by (auto simp: renderOdooConf_def split: sum.splits)
  then show "badConfig spec"
  proof cases
    case (1 e)
    then obtain k where "k \<in> fst ` set (instConfig spec)" "checkConfKey k \<noteq> None \<or> checkConfValue k (mapGet (instConfig spec) k) \<noteq> None"
      using mergeConfig_cases by (metis set_sorted_keys)
    then show ?thesis unfolding badConfig_def list_ex_iff by (intro disjI1) force
  next
    case (2 m e)
    then show ?thesis by (simp add: badConfig_def mergeCron_def split: if_splits)
  next
    case (3 m e)
    then have "\<exists>(k, v) \<in> set (dbSettings spec). checkConfValue k v \<noteq> None" by (metis mergePairs_cases)
    then show ?thesis unfolding badConfig_def list_ex_iff by (intro disjI2) auto
  qed
next
  assume bad: "badConfig spec"
  show "\<exists>e. renderOdooConf spec = Inl e"
  proof (cases "renderOdooConf spec")
    case (Inr conf)
    then obtain m where "\<not> badConfig spec" by (rule renderOdooConf_Inr)
    with bad show ?thesis by simp
  qed blast
qed

section \<open>Properties\<close>

text \<open>C37: The rendered \<open>odoo.conf\<close> says exactly what it should: reading it back gives one entry per key, in sorted
  order, and each key has the value of the setting that wins (database settings over the forced cron value over
  \<open>spec.config\<close> over the defaults). No entry has a key the operator reserves, and no value or key of the spec can
  add, hide or change another line.\<close>

theorem odooConf_roundtrip:
  assumes "renderOdooConf spec = Inr conf"
  shows "\<exists>entries. readConf conf = Some entries \<and> sorted (map fst entries) \<and> distinct (map fst entries)
    \<and> map_of entries = confSetting spec \<and> set (map fst entries) \<inter> set blockedConfigKeys = {}"
proof -
  from assms obtain m where conf: "conf = confLines m" and get: "\<And>k. map_of m k = confSetting spec k"
    and ok: "\<not> badConfig spec" using renderOdooConf_Inr [OF assms] by metis
  let ?es = "map (\<lambda>k. (k, mapGet m k)) (sorted_keys m)"
  have keys: "map fst ?es = sorted_keys m" by (simp add: comp_def)
  have "map_of ?es k = confSetting spec k" for k
    by (cases "map_of m k") (auto simp: map_of_map_keys mapGet_def keys_map_of get [symmetric] map_of_map_restrict restrict_map_def)
  then have "map_of ?es = confSetting spec" by blast
  moreover have "k \<notin> set blockedConfigKeys" if "k \<in> set (sorted_keys m)" for k
    using that get ok confSetting_plain [of spec k] by (auto simp: keys_map_of)
  ultimately show ?thesis
    using plain_confLines [OF ok get] keys unfolding conf by (intro exI [of _ ?es]) auto
qed

definition sampleSpec :: instance_spec where
  "sampleSpec = zeroInstanceSpec\<lparr>instConfig := [(''workers'', ''4''), (''list_db'', ''True'')],
     instPostgres := \<lparr>pgHost = ''db'', pgPort = 7, pgDatabase = ''shop'', pgUser = ''odoo'', pgPasswordSecret = ''pg''\<rparr>\<rparr>"

lemma render_sample: "\<exists>conf. renderOdooConf sampleSpec = Inr conf"
proof -
  have "case renderOdooConf sampleSpec of Inl _ \<Rightarrow> False | Inr _ \<Rightarrow> True" by code_simp
  then show ?thesis by (auto split: sum.splits)
qed

theorem odooConf_roundtrip_witness:
  "\<exists>conf entries. renderOdooConf sampleSpec = Inr conf \<and> readConf conf = Some entries
     \<and> map_of entries ''db_sslmode'' = Some ''require'' \<and> map_of entries ''list_db'' = Some ''True''"
proof -
  obtain conf where r: "renderOdooConf sampleSpec = Inr conf" using render_sample by blast
  moreover have "confSetting sampleSpec ''db_sslmode'' = Some ''require''" "confSetting sampleSpec ''list_db'' = Some ''True''"
    by code_simp+
  moreover obtain entries where "readConf conf = Some entries" "map_of entries = confSetting sampleSpec"
    using odooConf_roundtrip [OF r] by blast
  ultimately show ?thesis by auto
qed

text \<open>Rendering fails exactly for the specs it should reject: a key of \<open>spec.config\<close> is reserved, empty or has a
  character that ends a line, a key or a section; a value has a line break; the cron worker count is set twice; or a
  database setting has a line break. With a database, every accepted spec requires TLS to it; with cron enabled, the
  web pods run no cron workers.\<close>

theorem odooConf_accepts:
  "((\<exists>e. renderOdooConf spec = Inl e) \<longleftrightarrow> badConfig spec)
   \<and> (pgDatabase (instPostgres spec) = '''' \<or> confSetting spec ''db_sslmode'' = Some ''require'')
   \<and> (if cronEnabled spec then confSetting spec confKeyMaxCronThreads = Some ''0'' else True)"
  by (auto simp: renderOdooConf_Inl confSetting_def dbSettings_def confKeyMaxCronThreads_def)

text \<open>
  The reserved keys are compared as written. The reader Odoo uses (Python's configparser) strips the blanks
  around an option name and folds it to lower case, so another spelling of a reserved key is accepted here and
  read there as the reserved option.
\<close>

definition optionName :: "string \<Rightarrow> string" where
  "optionName key = map (\<lambda>c. if byteIn 65 90 c then char_of (of_char c + (32 :: nat)) else c) (trimChars key '' '')"

lemma reserved_key_respelled:
  "\<exists>conf key. renderOdooConf (zeroInstanceSpec\<lparr>instConfig := [(key, ''secret'')]\<rparr>) = Inr conf
     \<and> key \<notin> set blockedConfigKeys \<and> optionName key \<in> set blockedConfigKeys"
proof -
  let ?spec = "zeroInstanceSpec\<lparr>instConfig := [(''Admin_Passwd '', ''secret'')]\<rparr>"
  have "case renderOdooConf ?spec of Inl _ \<Rightarrow> False | Inr _ \<Rightarrow> True" by code_simp
  then obtain conf where "renderOdooConf ?spec = Inr conf" by (auto split: sum.splits)
  moreover have "''Admin_Passwd '' \<notin> set blockedConfigKeys \<and> optionName ''Admin_Passwd '' \<in> set blockedConfigKeys"
    by code_simp
  ultimately show ?thesis by blast
qed

end
