(* ===== verification/Instance_Storage.thy ===== *)
theory Instance_Storage
  imports Workload_Parts Conditions Kube_Reference
begin

text \<open>
  \<open>odooinstance_storage.go\<close>: the two volume claims of an instance. The addons claim goes with the instance; the data
  claim (the filestore) stays unless the spec says otherwise, which is decided by its owner reference alone.
\<close>

definition dataRetainOnDelete :: "instance_spec \<Rightarrow> bool" where
  "dataRetainOnDelete spec = (case dvRetainOnDelete (instData spec) of None \<Rightarrow> True | Some b \<Rightarrow> b)"

definition accessModesOrDefault :: "string \<Rightarrow> string list" where
  "accessModesOrDefault mode = [if mode = '''' then ReadWriteOnce else mode]"

fun hasOwnerRef :: "owner_ref list \<Rightarrow> string \<Rightarrow> bool" where
  "hasOwnerRef [] uid = False"
| "hasOwnerRef (r # rs) uid = (if ownerUID r = uid then True else hasOwnerRef rs uid)"

fun ownerRefsWithoutUID :: "owner_ref list \<Rightarrow> string \<Rightarrow> owner_ref list" where
  "ownerRefsWithoutUID [] uid = []"
| "ownerRefsWithoutUID (r # rs) uid =
     (if ownerUID r \<noteq> uid then r # ownerRefsWithoutUID rs uid else ownerRefsWithoutUID rs uid)"

record pvcRequest =
  prName :: string
  prSize :: string
  prDefaultSize :: string
  prStorage :: "string option"
  prAccessMode :: string
  prOwned :: bool

definition syncPVCOwnership :: "'w cluster \<Rightarrow> odoo_instance \<Rightarrow> pvc \<Rightarrow> bool \<Rightarrow> ('w, goerr option) prog" where
  "syncPVCOwnership C ins v owned =
     (if owned = hasOwnerRef (metaOwners (pvcMeta v)) (metaUID (instMeta ins)) then State_Monad.return None
      else if owned then
        (case SetControllerReference C (instMeta ins) (pvcMeta v) of
           Inl e \<Rightarrow> State_Monad.return (Some e)
         | Inr m \<Rightarrow> doCall C (PatchObj (OPVC v) (OPVC (v\<lparr>pvcMeta := m\<rparr>))))
      else doCall C (PatchObj (OPVC v) (OPVC (v\<lparr>pvcMeta :=
        (pvcMeta v)\<lparr>metaOwners := ownerRefsWithoutUID (metaOwners (pvcMeta v)) (metaUID (instMeta ins))\<rparr>\<rparr>))))"

definition newPVC :: "odoo_instance \<Rightarrow> pvcRequest \<Rightarrow> string \<Rightarrow> pvc" where
  "newPVC ins rq quantity = \<lparr>pvcMeta = newMeta (prName rq) (metaNamespace (instMeta ins)),
     pvcAccessModes = accessModesOrDefault (prAccessMode rq), pvcRequest = quantity, pvcStorageClass = prStorage rq,
     pvcPhase = ''''\<rparr>"

definition reconcileSinglePVC :: "'w cluster \<Rightarrow> odoo_instance \<Rightarrow> pvcRequest \<Rightarrow> ('w, goerr option) prog" where
  "reconcileSinglePVC C ins rq = do {
     r \<leftarrow> getPVC C (metaNamespace (instMeta ins), prName rq);
     case r of
       Inr v \<Rightarrow> syncPVCOwnership C ins v (prOwned rq)
     | Inl e \<Rightarrow>
         if \<not> isNotFound e then State_Monad.return (Some e)
         else
           (let size = (if prSize rq = '''' then prDefaultSize rq else prSize rq) in
            case ParseQuantity C size of
              Inl pe \<Rightarrow> State_Monad.return (Some (withReason ReasonInvalidConfig
                (WrapError (''invalid size '' @ goQuote size @ '' for PVC '' @ prName rq @ '': '') pe)))
            | Inr quantity \<Rightarrow>
                if prOwned rq then
                  (case SetControllerReference C (instMeta ins) (pvcMeta (newPVC ins rq quantity)) of
                     Inl oe \<Rightarrow> State_Monad.return (Some oe)
                   | Inr m \<Rightarrow> createObj C (OPVC ((newPVC ins rq quantity)\<lparr>pvcMeta := m\<rparr>)))
                else createObj C (OPVC (newPVC ins rq quantity)))
   }"

definition addonsPVCRequest :: "odoo_instance \<Rightarrow> pvcRequest" where
  "addonsPVCRequest ins = \<lparr>prName = addonsPVCName (metaName (instMeta ins)), prSize = avSize (instAddons (instSpec ins)),
     prDefaultSize = ''10Gi'', prStorage = avStorageClass (instAddons (instSpec ins)),
     prAccessMode = avAccessMode (instAddons (instSpec ins)), prOwned = True\<rparr>"

definition dataPVCRequest :: "odoo_instance \<Rightarrow> pvcRequest" where
  "dataPVCRequest ins = \<lparr>prName = dataPVCName (metaName (instMeta ins)), prSize = dvSize (instData (instSpec ins)),
     prDefaultSize = ''5Gi'', prStorage = dvStorageClass (instData (instSpec ins)),
     prAccessMode = dvAccessMode (instData (instSpec ins)), prOwned = (\<not> dataRetainOnDelete (instSpec ins))\<rparr>"

definition reconcilePVC :: "'w cluster \<Rightarrow> odoo_instance \<Rightarrow> ('w, goerr option) prog" where
  "reconcilePVC C ins = do {
     err \<leftarrow> reconcileSinglePVC C ins (addonsPVCRequest ins);
     case err of
       Some e \<Rightarrow> State_Monad.return (Some e)
     | None \<Rightarrow> reconcileSinglePVC C ins (dataPVCRequest ins)
   }"

section \<open>Ownership\<close>

lemma hasOwnerRef_iff: "hasOwnerRef rs uid \<longleftrightarrow> uid \<in> ownerUID ` set rs"
  by (induction rs) auto

lemma ownerRefsWithoutUID_filter: "ownerRefsWithoutUID rs uid = filter (\<lambda>r. ownerUID r \<noteq> uid) rs"
  by (induction rs) auto

text \<open>
  What a pass may do to the claims: read them; create a claim whose ownership fits the request; patch nothing but
  the owner references, and there only the instance's own reference.
\<close>

definition ownedAs :: "odoo_instance \<Rightarrow> pvc \<Rightarrow> bool \<Rightarrow> bool" where
  "ownedAs ins v owned \<longleftrightarrow> (metaUID (instMeta ins) \<in> ownerUID ` set (metaOwners (pvcMeta v)) \<longleftrightarrow> owned)"

definition pvcPatchOk :: "odoo_instance \<Rightarrow> bool \<Rightarrow> pvc \<Rightarrow> pvc \<Rightarrow> bool" where
  "pvcPatchOk ins owned v v' \<longleftrightarrow>
     v' = v\<lparr>pvcMeta := (pvcMeta v)\<lparr>metaOwners := metaOwners (pvcMeta v')\<rparr>\<rparr>
     \<and> ownedAs ins v' owned
     \<and> ownerUID ` set (metaOwners (pvcMeta v)) - {metaUID (instMeta ins)} \<subseteq> ownerUID ` set (metaOwners (pvcMeta v'))"

fun pvcCall :: "odoo_instance \<Rightarrow> pvcRequest \<Rightarrow> req \<Rightarrow> bool" where
  "pvcCall ins rq (Get k key) = (k = KPVC \<and> key = (metaNamespace (instMeta ins), prName rq))"
| "pvcCall ins rq (Create (OPVC v)) =
     (metaName (pvcMeta v) = prName rq \<and> metaNamespace (pvcMeta v) = metaNamespace (instMeta ins) \<and> ownedAs ins v (prOwned rq))"
| "pvcCall ins rq (PatchObj (OPVC v) (OPVC v')) = pvcPatchOk ins (prOwned rq) v v'"
| "pvcCall ins rq _ = False"

lemma only_ownership:
  assumes "lawfulOwners C"
  shows "only (pvcCall ins rq) (syncPVCOwnership C ins v (prOwned rq))"
proof -
  let ?uid = "metaUID (instMeta ins)"
  have claim: "pvcPatchOk ins True v (v\<lparr>pvcMeta := m\<rparr>)"
    if "SetControllerReference C (instMeta ins) (pvcMeta v) = Inr m" for m
  proof -
    from assms that have "m = (pvcMeta v)\<lparr>metaOwners := metaOwners m\<rparr>" "?uid \<in> ownerUID ` set (metaOwners m)"
      "ownerUID ` set (metaOwners (pvcMeta v)) \<subseteq> ownerUID ` set (metaOwners m)"
      unfolding lawfulOwners_def by blast+
    then show ?thesis by (auto simp: pvcPatchOk_def ownedAs_def)
  qed
  have release: "pvcPatchOk ins False v
      (v\<lparr>pvcMeta := (pvcMeta v)\<lparr>metaOwners := ownerRefsWithoutUID (metaOwners (pvcMeta v)) ?uid\<rparr>\<rparr>)"
    by (auto simp: pvcPatchOk_def ownedAs_def ownerRefsWithoutUID_filter)
  show ?thesis
    unfolding syncPVCOwnership_def call_defs by (auto intro!: frame_intros claim release)
qed

lemma only_singlePVC:
  assumes "lawfulOwners C"
  shows "only (pvcCall ins rq) (reconcileSinglePVC C ins rq)"
proof -
  have owned: "ownedAs ins ((newPVC ins rq q)\<lparr>pvcMeta := m\<rparr>) True
      \<and> metaName m = prName rq \<and> metaNamespace m = metaNamespace (instMeta ins)"
    if "SetControllerReference C (instMeta ins) (pvcMeta (newPVC ins rq q)) = Inr m" for m q
  proof -
    from assms that have "m = (pvcMeta (newPVC ins rq q))\<lparr>metaOwners := metaOwners m\<rparr>"
      "metaUID (instMeta ins) \<in> ownerUID ` set (metaOwners m)"
      unfolding lawfulOwners_def by blast+
    moreover from this(1) have "metaName m = metaName (pvcMeta (newPVC ins rq q))"
        "metaNamespace m = metaNamespace (pvcMeta (newPVC ins rq q))"
      by (metis objmeta.select_convs objmeta.surjective objmeta.update_convs)+
    ultimately show ?thesis by (simp add: ownedAs_def newPVC_def newMeta_def)
  qed
  show ?thesis
    unfolding reconcileSinglePVC_def call_defs Let_def
    by (auto intro!: frame_intros only_ownership assms dest: owned simp: ownedAs_def newPVC_def newMeta_def)
qed

section \<open>Properties\<close>

definition claimCall :: "odoo_instance \<Rightarrow> req \<Rightarrow> bool" where
  "claimCall ins r \<longleftrightarrow> pvcCall ins (addonsPVCRequest ins) r \<or> pvcCall ins (dataPVCRequest ins) r"

lemma only_reconcilePVC: "lawfulOwners C \<Longrightarrow> only (claimCall ins) (reconcilePVC C ins)"
  unfolding reconcilePVC_def claimCall_def
  by (auto intro!: frame_intros intro: only_mono [OF only_singlePVC])

text \<open>A pass touches the two claims of the instance and nothing else, and never deletes one. A created claim and a
  patched one is owned by the instance exactly if it has to go with it: the addons claim always, the data claim
  (the filestore) only where \<open>retainOnDelete\<close> is explicitly false. A patch changes only the owner references and
  drops no owner but the instance.\<close>

theorem claims_owned_as_requested:
  assumes "lawfulOwners C"
  shows "list_all (\<lambda>(r, p). claimCall ins r) (callsOf (reconcilePVC C ins) w)
    \<and> prOwned (addonsPVCRequest ins)
    \<and> (prOwned (dataPVCRequest ins) \<longleftrightarrow> dvRetainOnDelete (instData (instSpec ins)) = Some False)
    \<and> prName (addonsPVCRequest ins) \<noteq> prName (dataPVCRequest ins)"
  using only_callsOf [OF only_reconcilePVC [OF assms]]
  by (simp add: addonsPVCRequest_def dataPVCRequest_def dataRetainOnDelete_def addonsPVCName_def dataPVCName_def
      split: option.split)

theorem claims_owned_as_requested_witness:
  "list_all (\<lambda>(r, p). claimCall (bareInstance ''shop'' ''prod'') r)
     (callsOf (reconcilePVC (scripted (\<lambda>_. RErr (ApiError NotFound ''gone''))) (bareInstance ''shop'' ''prod'')) ())"
proof -
  have "lawfulOwners (scripted (\<lambda>_. RErr (ApiError NotFound ''gone'')))"
    by simp
  from claims_owned_as_requested [OF this] show ?thesis by blast
qed

end
