(* ===== verification/Instance_Addons.thy ===== *)
theory Instance_Addons
  imports Workload_Parts Addon_Sync
begin

text \<open>
  \<open>odooinstance_addons.go\<close> and \<open>odooinstance_hash.go\<close>: which addons count for an instance, the paths of their modules,
  and the fingerprints that roll the pods. A fingerprint is the SHA-256 of a text; the theorems are about the
  text, so two states with equal fingerprints are equal or a SHA-256 collision.
\<close>

section \<open>Ready addons\<close>

definition filterReadyAddons :: "addon list \<Rightarrow> string \<Rightarrow> addon list" where
  "filterReadyAddons addons instanceName =
     filter (\<lambda>a. refName (addonInstanceRef (addonSpec a)) = instanceName \<and> addonReady (addonStatus a)) addons"

definition addonModules :: "addon \<Rightarrow> string list" where
  "addonModules a =
     (if length (addonStatusModules (addonStatus a)) > 0 then addonStatusModules (addonStatus a)
      else if ModuleName (addonSpec a) \<noteq> '''' then [ModuleName (addonSpec a)]
      else [metaName (addonMeta a)])"

definition addonMountPaths :: "addon list \<Rightarrow> string list" where
  "addonMountPaths addons =
     sort_compact (concat (map (\<lambda>a. map (\<lambda>m. filepathJoin addonsMountPath m) (addonModules a)) addons))"

definition addonRevision :: "addon \<Rightarrow> string" where
  "addonRevision a =
     metaName (addonMeta a) @ ''='' @ ClonedCommit (addonStatus a)
     @ (if length (addonStatusModules (addonStatus a)) > 0
        then '' modules='' @ joinWith '','' (sort (addonStatusModules (addonStatus a))) else '''')"

definition addonRevisions :: "addon list \<Rightarrow> string list" where
  "addonRevisions addons = sort (map addonRevision addons)"

section \<open>Fingerprints\<close>

record rolloutHashes =
  rhConfig :: string
  rhSecrets :: string
  rhAddons :: string

definition sha256Hex :: "string \<Rightarrow> string" where
  "sha256Hex data = hexEncode (sha256 data)"

definition configHash :: "string \<Rightarrow> string" where
  "configHash conf = sha256Hex conf"

definition addonsText :: "addon list \<Rightarrow> string" where
  "addonsText addons = joinWith [nl] (addonRevisions addons)"

definition addonsHash :: "addon list \<Rightarrow> string" where
  "addonsHash addons = sha256Hex (addonsText addons)"

definition secretText :: "secret \<Rightarrow> string" where
  "secretText s =
     concat (map (\<lambda>key. key @ ''='' @ hexEncode (mapGet (secretData s) key) @ [nl]) (sorted_keys (secretData s)))
     @ ''---'' @ [nl]"

definition secretsHash :: "secret list \<Rightarrow> string" where
  "secretsHash secrets = sha256Hex (concat (map secretText secrets))"

section \<open>What the texts tell\<close>

lemma length_sha256Hex [simp]: "length (sha256Hex s) = 64"
  by (simp add: sha256Hex_def)

lemma addonsHash_perm:
  assumes "mset (map addonRevision as) = mset (map addonRevision bs)"
  shows "addonsHash as = addonsHash bs"
  using sort_mset_cong [OF assms] by (simp add: addonsHash_def addonsText_def addonRevisions_def)

lemma cut_unique: "c \<notin> set a \<Longrightarrow> c \<notin> set b \<Longrightarrow> a @ c # u = b @ c # v \<Longrightarrow> a = b \<and> u = v"
proof (induction a arbitrary: b)
  case Nil
  then show ?case by (cases b) auto
next
  case (Cons x a)
  then show ?case by (cases b) auto
qed

lemma cut_unique_end:
  assumes "c \<notin> set a" "c \<notin> set b" "u = [] \<or> (\<exists>t. u = c # t)" "v = [] \<or> (\<exists>t. v = c # t)" "a @ u = b @ v"
  shows "a = b \<and> u = v"
proof (cases "u = []")
  case True
  with assms(1,4,5) have "v = []" by auto
  with True assms(5) show ?thesis by simp
next
  case False
  with assms(3) obtain t where u: "u = c # t" by blast
  with assms(2,4,5) obtain t' where "v = c # t'" by (metis append_Nil2 in_set_conv_decomp)
  with u cut_unique [OF assms(1,2)] assms(5) show ?thesis by simp
qed

text \<open>What a revision stands for, and the shape of the values the sync records.\<close>

type_synonym revision = "string \<times> string \<times> string list"

definition revisionOf :: "addon \<Rightarrow> revision" where
  "revisionOf a = (metaName (addonMeta a), ClonedCommit (addonStatus a), sort (addonStatusModules (addonStatus a)))"

definition encRevision :: "revision \<Rightarrow> string" where
  "encRevision r = (case r of (n, c, ms) \<Rightarrow>
     n @ ''='' @ c @ (if length ms > 0 then '' modules='' @ joinWith '','' ms else ''''))"

definition plainRevision :: "revision \<Rightarrow> bool" where
  "plainRevision r \<longleftrightarrow> (case r of (n, c, ms) \<Rightarrow>
     CHR ''='' \<notin> set n \<and> nl \<notin> set n \<and> CHR '' '' \<notin> set c \<and> nl \<notin> set c
     \<and> list_all (\<lambda>m. CHR '','' \<notin> set m \<and> nl \<notin> set m) ms)"

lemma addonRevision_enc: "addonRevision a = encRevision (revisionOf a)"
  by (simp add: addonRevision_def encRevision_def revisionOf_def flip: length_greater_0_conv)

lemma encRevision_inj:
  assumes "plainRevision r" and "plainRevision s" and "encRevision r = encRevision s"
  shows "r = s"
proof -
  obtain n c ms where r: "r = (n, c, ms)" by (cases r)
  obtain n' c' ms' where s: "s = (n', c', ms')" by (cases s)
  let ?tail = "\<lambda>ms. if length ms > 0 then '' modules='' @ joinWith '','' ms else ''''"
  from assms(3) have "n @ CHR ''='' # (c @ ?tail ms) = n' @ CHR ''='' # (c' @ ?tail ms')"
    unfolding r s encRevision_def by simp
  from cut_unique [OF _ _ this] assms(1,2) have n: "n = n'" and rest: "c @ ?tail ms = c' @ ?tail ms'"
    by (simp_all add: r s plainRevision_def)
  have shape: "?tail l = [] \<or> (\<exists>t. ?tail l = CHR '' '' # t)" for l :: "string list" by simp
  have sp: "CHR '' '' \<notin> set c" "CHR '' '' \<notin> set c'" using assms(1,2) by (simp_all add: r s plainRevision_def)
  have tails: "c = c' \<and> ?tail ms = ?tail ms'"
    by (rule cut_unique_end [OF sp shape shape rest])
  have "ms = ms'"
  proof (cases "ms = [] \<or> ms' = []")
    case False
    with tails have "joinWith '','' ms = joinWith '','' ms'" by simp
    with False show ?thesis
      using assms(1,2) by (intro joinWith_inj [of "CHR '',''"]) (simp_all add: r s plainRevision_def list_all_iff)
  qed (use tails in \<open>simp split: if_splits\<close>)
  with n tails show ?thesis by (simp add: r s)
qed

lemma mset_map_inj:
  assumes "inj_on f (set xs \<union> set ys)" and "mset (map f xs) = mset (map f ys)"
  shows "mset xs = mset ys"
proof -
  let ?g = "the_inv_into (set xs \<union> set ys) f"
  have undo: "map ?g (map f zs) = zs" if "set zs \<subseteq> set xs \<union> set ys" for zs
    using that assms(1) by (induction zs) (auto simp: the_inv_into_f_f)
  from assms(2) have "mset (map ?g (map f xs)) = mset (map ?g (map f ys))"
    by (metis mset_map)
  then show ?thesis unfolding undo [OF Un_upper1] undo [OF Un_upper2] .
qed

lemma encRevision_line:
  assumes "plainRevision r"
  shows "nl \<notin> set (encRevision r)" and "encRevision r \<noteq> []"
proof -
  obtain n c ms where r: "r = (n, c, ms)" by (cases r)
  have "nl \<notin> set (joinWith '','' ms)"
    using set_joinWith [of "'',''" ms] assms by (auto simp: r plainRevision_def list_all_iff)
  with assms show "nl \<notin> set (encRevision r)" "encRevision r \<noteq> []"
    by (simp_all add: r plainRevision_def encRevision_def)
qed

lemma plain_lines:
  assumes "list_all plainRevision (map revisionOf as)" and "l \<in> set (addonRevisions as)"
  shows "nl \<notin> set l" and "l \<noteq> []"
proof -
  from assms(2) obtain a where a: "a \<in> set as" and l: "l = encRevision (revisionOf a)"
    by (auto simp: addonRevisions_def addonRevision_enc)
  from assms(1) a have "plainRevision (revisionOf a)" by (simp add: list_all_iff)
  then show "nl \<notin> set l" and "l \<noteq> []" unfolding l by (simp_all add: encRevision_line)
qed

lemma joinWith_nonempty: "x \<noteq> [] \<Longrightarrow> joinWith sep (x # xs) \<noteq> []"
  by (cases xs) simp_all

lemma addonsText_Nil: "list_all plainRevision (map revisionOf as) \<Longrightarrow> addonsText as = [] \<longleftrightarrow> as = []"
proof (cases as)
  case (Cons a as')
  assume "list_all plainRevision (map revisionOf as)"
  then have "[] \<notin> set (addonRevisions as)" using plain_lines(2) by blast
  moreover have "addonRevisions as \<noteq> []"
    using Cons by (metis addonRevisions_def length_0_conv length_map length_sort list.distinct(1))
  ultimately have "joinWith [nl] (addonRevisions as) \<noteq> []"
    using joinWith_nonempty by (metis list.set_intros(1) neq_Nil_conv)
  with Cons show ?thesis by (simp add: addonsText_def)
qed (simp add: addonsText_def addonRevisions_def)

text \<open>The addons fingerprint follows the addons and nothing else. The hashed text is the same for two sets of
  ready addons exactly when they have the same names, synced commits and module sets, whatever order the
  server listed them in and whatever order the modules were reported in; so a re-sync to another commit or a
  changed module set changes the text, and a mere reordering never rolls the pods.\<close>

theorem addons_fingerprint_exact:
  assumes "list_all plainRevision (map revisionOf as)" and "list_all plainRevision (map revisionOf bs)"
  shows "addonsText as = addonsText bs \<longleftrightarrow> mset (map revisionOf as) = mset (map revisionOf bs)"
proof
  assume eq: "addonsText as = addonsText bs"
  have plain: "plainRevision r" if "r \<in> set (map revisionOf as) \<union> set (map revisionOf bs)" for r
    using that assms by (auto simp: list_all_iff)
  have line: "nl \<notin> set l" if "l \<in> set (addonRevisions as) \<union> set (addonRevisions bs)" for l
    using that plain_lines(1) [OF assms(1)] plain_lines(1) [OF assms(2)] by blast
  have revs: "addonRevisions as = addonRevisions bs"
  proof (cases "as = [] \<or> bs = []")
    case True
    with eq assms have "as = [] \<and> bs = []" by (metis addonsText_Nil)
    then show ?thesis by simp
  next
    case False
    then have "addonRevisions as \<noteq> []" "addonRevisions bs \<noteq> []"
      by (metis addonRevisions_def length_0_conv length_map length_sort)+
    with eq show ?thesis
      unfolding addonsText_def by (rule joinWith_inj) (use line in blast)+
  qed
  have maps: "map addonRevision cs = map encRevision (map revisionOf cs)" for cs
    by (simp add: addonRevision_enc)
  from revs have "mset (map encRevision (map revisionOf as)) = mset (map encRevision (map revisionOf bs))"
    unfolding addonRevisions_def maps by (metis mset_sort)
  then show "mset (map revisionOf as) = mset (map revisionOf bs)"
    by (rule mset_map_inj [rotated]) (use plain encRevision_inj in \<open>blast intro: inj_onI\<close>)
next
  assume "mset (map revisionOf as) = mset (map revisionOf bs)"
  then have "mset (map encRevision (map revisionOf as)) = mset (map encRevision (map revisionOf bs))"
    by (metis mset_map)
  moreover have "map encRevision (map revisionOf cs) = map addonRevision cs" for cs
    by (simp add: addonRevision_enc)
  ultimately have "mset (map addonRevision as) = mset (map addonRevision bs)" by metis
  then show "addonsText as = addonsText bs"
    unfolding addonsText_def addonRevisions_def using sort_mset_cong by metis
qed

definition syncedAddon :: "string \<Rightarrow> string \<Rightarrow> string list \<Rightarrow> addon" where
  "syncedAddon name commit modules = \<lparr>addonMeta = newMeta name ''shop'', addonSpec = zeroAddonSpec,
     addonStatus = zeroAddonStatus\<lparr>addonReady := True, ClonedCommit := commit, addonStatusModules := modules\<rparr>\<rparr>"

theorem addons_fingerprint_exact_witness:
  "addonsText [syncedAddon ''a'' ''c0ffee'' [''x'', ''y''], syncedAddon ''b'' ''deed'' []]
     = addonsText [syncedAddon ''b'' ''deed'' [], syncedAddon ''a'' ''c0ffee'' [''y'', ''x'']]"
proof -
  let ?as = "[syncedAddon ''a'' ''c0ffee'' [''x'', ''y''], syncedAddon ''b'' ''deed'' []]"
  let ?bs = "[syncedAddon ''b'' ''deed'' [], syncedAddon ''a'' ''c0ffee'' [''y'', ''x'']]"
  have "list_all plainRevision (map revisionOf ?as)" "list_all plainRevision (map revisionOf ?bs)" by code_simp+
  moreover have "map revisionOf ?as = rev (map revisionOf ?bs)" by code_simp
  then have "mset (map revisionOf ?as) = mset (map revisionOf ?bs)" by simp
  ultimately show ?thesis using addons_fingerprint_exact by blast
qed

section \<open>Secrets\<close>

fun encPairs :: "strmap \<Rightarrow> string" where
  "encPairs [] = ''---'' @ [nl]"
| "encPairs ((k, v) # ps) = k @ ''='' @ hexEncode v @ [nl] @ encPairs ps"

definition secretPairs :: "secret \<Rightarrow> strmap" where
  "secretPairs s = map (\<lambda>k. (k, mapGet (secretData s) k)) (sorted_keys (secretData s))"

definition plainKeys :: "secret \<Rightarrow> bool" where
  "plainKeys s \<longleftrightarrow> list_all (\<lambda>(k, v). CHR ''='' \<notin> set k \<and> nl \<notin> set k) (secretData s)"

lemma secretText_enc: "secretText s = encPairs (secretPairs s)"
proof -
  have "concat (map (\<lambda>key. key @ ''='' @ hexEncode (f key) @ [nl]) ks) @ ''---'' @ [nl] = encPairs (map (\<lambda>k. (k, f k)) ks)" for f ks
    by (induction ks) simp_all
  then show ?thesis by (simp add: secretText_def secretPairs_def)
qed

lemma hex_no_marks: "nl \<notin> set (hexEncode v)" "CHR ''='' \<notin> set (hexEncode v)"
proof -
  have "\<not> isHexDigit nl" "\<not> isHexDigit CHR ''=''" by code_simp+
  then show "nl \<notin> set (hexEncode v)" "CHR ''='' \<notin> set (hexEncode v)"
    using list_all_hexEncode [of v] unfolding list_all_iff by blast+
qed

lemma dashes_no_entry: "''---'' \<noteq> k @ ''='' @ h"
proof
  assume eq: "''---'' = k @ ''='' @ h"
  have "CHR ''='' \<in> set (k @ ''='' @ h)" by simp
  then have "CHR ''='' \<in> set ''---''" by (simp only: eq)
  then show False by simp
qed

lemma encPairs_inj:
  assumes "encPairs ps @ u = encPairs qs @ v"
    and "list_all (\<lambda>(k, v). CHR ''='' \<notin> set k \<and> nl \<notin> set k) ps" and "list_all (\<lambda>(k, v). CHR ''='' \<notin> set k \<and> nl \<notin> set k) qs"
  shows "ps = qs \<and> u = v"
  using assms
proof (induction ps arbitrary: qs)
  case Nil
  show ?case
  proof (cases qs)
    case (Cons q qs')
    obtain k w where q: "q = (k, w)" by (cases q)
    from Nil Cons q have eq: "''---'' @ nl # u = (k @ ''='' @ hexEncode w) @ nl # (encPairs qs' @ v)" by simp
    have "nl \<notin> set (k @ ''='' @ hexEncode w)"
      using Nil(3) hex_no_marks(1) [of w] by (simp add: Cons q)
    then show ?thesis using cut_unique [OF _ _ eq] dashes_no_entry [of k "hexEncode w"] by simp
  qed (use Nil in simp)
next
  case (Cons p ps)
  obtain k w where p: "p = (k, w)" by (cases p)
  show ?case
  proof (cases qs)
    case Nil
    with Cons p have eq: "''---'' @ nl # v = (k @ ''='' @ hexEncode w) @ nl # (encPairs ps @ u)" by simp
    have "nl \<notin> set (k @ ''='' @ hexEncode w)"
      using Cons.prems(2) hex_no_marks(1) [of w] by (simp add: p)
    then show ?thesis using cut_unique [OF _ _ eq] dashes_no_entry [of k "hexEncode w"] by simp
  next
    case (Cons q qs')
    obtain k' w' where q: "q = (k', w')" by (cases q)
    from Cons.prems(1) Cons p q have
      "k @ CHR ''='' # (hexEncode w @ nl # (encPairs ps @ u)) = k' @ CHR ''='' # (hexEncode w' @ nl # (encPairs qs' @ v))"
      by simp
    from cut_unique [OF _ _ this] have "k = k'"
      and rest: "hexEncode w @ nl # (encPairs ps @ u) = hexEncode w' @ nl # (encPairs qs' @ v)"
      using Cons.prems(2,3) by (simp_all add: p q Cons)
    have "w = w'" and "encPairs ps @ u = encPairs qs' @ v"
      using cut_unique [OF hex_no_marks(1) hex_no_marks(1) rest] hexEncode_inj by blast+
    with \<open>k = k'\<close> show ?thesis
      using Cons.IH [of qs'] Cons.prems(2,3) by (simp add: p q Cons)
  qed
qed

lemma secretPairs_eq: "secretPairs s = secretPairs t \<longleftrightarrow> map_of (secretData s) = map_of (secretData t)"
proof
  assume eq: "secretPairs s = secretPairs t"
  have get: "map_of (secretPairs x) k = map_of (secretData x) k" for x k
  proof (cases "map_of (secretData x) k")
    case None
    then have "k \<notin> fst ` set (secretPairs x)" by (force simp: secretPairs_def map_of_eq_None_iff)
    with None show ?thesis by (metis map_of_eq_None_iff)
  next
    case (Some v)
    then have "(k, v) \<in> set (secretPairs x)"
      by (force simp: secretPairs_def mapGet_def dest: map_of_SomeD)
    moreover have "distinct (map fst (secretPairs x))" by (simp add: secretPairs_def comp_def)
    ultimately show ?thesis using Some by simp
  qed
  show "map_of (secretData s) = map_of (secretData t)"
    by (rule ext) (simp add: eq flip: get)
next
  assume eq: "map_of (secretData s) = map_of (secretData t)"
  then show "secretPairs s = secretPairs t"
    using sorted_keys_cong [OF map_of_eq_keys [OF eq]] by (simp add: secretPairs_def mapGet_def)
qed

lemma secretPairs_maps:
  "map secretPairs ss = map secretPairs ts
    \<longleftrightarrow> map (\<lambda>s. map_of (secretData s)) ss = map (\<lambda>s. map_of (secretData s)) ts"
proof (induction ss arbitrary: ts)
  case (Cons s ss)
  then show ?case by (cases ts) (simp_all add: secretPairs_eq)
qed auto

lemma plain_secretPairs: "plainKeys s \<Longrightarrow> list_all (\<lambda>(k, v). CHR ''='' \<notin> set k \<and> nl \<notin> set k) (secretPairs s)"
  by (fastforce simp: plainKeys_def secretPairs_def list_all_iff)

lemma encPairs_neq_Nil: "encPairs ps \<noteq> []"
  by (cases ps) auto

lemma secretTexts_inj:
  "concat (map secretText ss) = concat (map secretText ts) \<Longrightarrow> list_all plainKeys ss \<Longrightarrow> list_all plainKeys ts
    \<Longrightarrow> map secretPairs ss = map secretPairs ts"
proof (induction ss arbitrary: ts)
  case Nil
  then show ?case by (cases ts) (simp_all add: secretText_enc encPairs_neq_Nil)
next
  case (Cons s ss)
  show ?case
  proof (cases ts)
    case Nil
    with Cons.prems(1) show ?thesis by (simp add: secretText_enc encPairs_neq_Nil)
  next
    case (Cons t ts')
    then have "encPairs (secretPairs s) @ concat (map secretText ss) = encPairs (secretPairs t) @ concat (map secretText ts')"
      using Cons.prems(1) secretText_enc [of s] secretText_enc [of t] by simp
    then have "secretPairs s = secretPairs t \<and> concat (map secretText ss) = concat (map secretText ts')"
      by (rule encPairs_inj) (use Cons.prems(2,3) Cons in \<open>simp_all add: plain_secretPairs\<close>)
    then show ?thesis using Cons.IH [of ts'] Cons.prems(2,3) Cons by simp
  qed
qed

text \<open>The Secrets fingerprint follows the data of the Secrets: the hashed text is the same for two lists of
  Secrets exactly when they hold the same keys with the same values, one by one. The order of the keys in the
  maps never matters, and every rotated value changes the text, so it rolls the pods.\<close>

theorem secrets_fingerprint_exact:
  assumes "list_all plainKeys ss" and "list_all plainKeys ts"
  shows "concat (map secretText ss) = concat (map secretText ts)
    \<longleftrightarrow> map (\<lambda>s. map_of (secretData s)) ss = map (\<lambda>s. map_of (secretData s)) ts"
proof
  assume "concat (map secretText ss) = concat (map secretText ts)"
  then have "map secretPairs ss = map secretPairs ts" by (rule secretTexts_inj [OF _ assms])
  then show "map (\<lambda>s. map_of (secretData s)) ss = map (\<lambda>s. map_of (secretData s)) ts"
    by (simp only: secretPairs_maps)
next
  assume "map (\<lambda>s. map_of (secretData s)) ss = map (\<lambda>s. map_of (secretData s)) ts"
  then have "map secretPairs ss = map secretPairs ts"
    by (simp only: secretPairs_maps)
  then have "map (encPairs \<circ> secretPairs) ss = map (encPairs \<circ> secretPairs) ts" by (metis map_map)
  moreover have "secretText = encPairs \<circ> secretPairs" by (rule ext) (simp add: secretText_enc)
  ultimately show "concat (map secretText ss) = concat (map secretText ts)" by metis
qed

theorem secrets_fingerprint_exact_witness:
  "concat (map secretText [\<lparr>secretMeta = newMeta ''pg'' ''shop'', secretData = [(''password'', ''one'')]\<rparr>])
   = concat (map secretText [\<lparr>secretMeta = newMeta ''pg'' ''shop'', secretData = [(''password'', ''two'')]\<rparr>]) \<longleftrightarrow> False"
proof -
  let ?s = "\<lambda>v. \<lparr>secretMeta = newMeta ''pg'' ''shop'', secretData = [(''password'', v)]\<rparr>"
  have plain: "list_all plainKeys [?s v]" for v by (simp add: plainKeys_def)
  have "map (\<lambda>s. map_of (secretData s)) [?s ''one''] \<noteq> map (\<lambda>s. map_of (secretData s)) [?s ''two'']"
  proof
    assume "map (\<lambda>s. map_of (secretData s)) [?s ''one''] = map (\<lambda>s. map_of (secretData s)) [?s ''two'']"
    then have "map_of (secretData (?s ''one'')) = map_of (secretData (?s ''two''))"
      by (simp only: list.map list.inject)
    then have "map_of (secretData (?s ''one'')) ''password'' = map_of (secretData (?s ''two'')) ''password''"
      by (rule fun_cong)
    then show False by simp
  qed
  then show ?thesis using secrets_fingerprint_exact [OF plain plain, of "''one''" "''two''"] by (simp only:)
qed

section \<open>Module paths\<close>

lemma filepathJoin_module: "moduleNameOk m \<Longrightarrow> filepathJoin addonsMountPath m = addonsMountPath @ ''/'' @ m"
proof -
  assume ok: "moduleNameOk m"
  then have "CHR ''/'' \<notin> set m" "m \<noteq> []" and dots: "m \<noteq> ''.''" "m \<noteq> ''..''"
    by (auto simp: moduleNameOk_def validPathSegment_no_slash validPathSegment_neq_Nil)
  then have "splitOn (CHR ''/'') (addonsMountPath @ ''/'' @ m) = ['''', ''mnt'', ''odoo'', ''addons'', m]"
    by (simp add: addonsMountPath_def splitOn_plain)
  with \<open>m \<noteq> []\<close> dots show ?thesis
    by (simp add: filepathJoin_def cleanRooted_def addonsMountPath_def)
qed

text \<open>The paths recorded in the status are exactly the folders of the modules, each directly under the addons
  mount, sorted and without repetition.\<close>

theorem addon_paths_exact:
  assumes "list_all moduleNameOk (concat (map addonModules addons))"
  shows "addonMountPaths addons = sort_compact (map (\<lambda>m. addonsMountPath @ ''/'' @ m) (concat (map addonModules addons)))"
proof -
  have "concat (map (\<lambda>a. map (filepathJoin addonsMountPath) (addonModules a)) addons)
      = map (filepathJoin addonsMountPath) (concat (map addonModules addons))"
    by (simp add: map_concat comp_def)
  also have "\<dots> = map (\<lambda>m. addonsMountPath @ ''/'' @ m) (concat (map addonModules addons))"
    using assms by (intro map_cong) (auto simp: list_all_iff filepathJoin_module)
  finally show ?thesis by (simp add: addonMountPaths_def)
qed

theorem addon_paths_exact_witness:
  "addonMountPaths [syncedAddon ''b'' ''deed'' [''y'', ''x''], syncedAddon ''a'' ''c0ffee'' []]
   = sort_compact (map (\<lambda>m. addonsMountPath @ ''/'' @ m) [''y'', ''x'', ''a''])"
proof -
  let ?as = "[syncedAddon ''b'' ''deed'' [''y'', ''x''], syncedAddon ''a'' ''c0ffee'' []]"
  have "list_all moduleNameOk (concat (map addonModules ?as))" by code_simp
  moreover have "concat (map addonModules ?as) = [''y'', ''x'', ''a'']" by code_simp
  ultimately show ?thesis using addon_paths_exact [of ?as] by (simp only:)
qed

end
