(* ===== verification/Instance_Gate.thy ===== *)
theory Instance_Gate
  imports Instance_Addons Kube_Reference
begin

text \<open>
  \<open>odooinstance_gate.go\<close>: which addons revision the pods may run. With \<open>spec.upgrade\<close> set, the pod template keeps the
  applied revision until an OdooUpgrade for the new one has succeeded. The decision is pure; the program
  that reads and creates the OdooUpgrade applies it.
\<close>

abbreviation (input) "gateLabelInstance \<equiv> ''odoo.operator.io/instance''"
definition gateFailedRequeue :: int where "gateFailedRequeue = 60 * second"

section \<open>The decision\<close>

record gateInput =
  giUpgradeSet :: bool
  giApplied :: string
  giCurrent :: string
  giUpgradeName :: string
  giUpgradeExists :: bool
  giUpgradePhase :: string

record gateDecision =
  gdTemplateHash :: string
  gdAppliedHash :: string
  gdActiveUpgrade :: string
  gdPhase :: string
  gdEnsureUpgrade :: bool
  gdUpgradeMessage :: string
  gdSucceededUpgrade :: string

definition rollTo :: "string \<Rightarrow> gateDecision" where
  "rollTo h = \<lparr>gdTemplateHash = h, gdAppliedHash = h, gdActiveUpgrade = '''', gdPhase = '''', gdEnsureUpgrade = False,
     gdUpgradeMessage = '''', gdSucceededUpgrade = ''''\<rparr>"

definition gateDecide :: "gateInput \<Rightarrow> gateDecision" where
  "gateDecide i =
     (if \<not> giUpgradeSet i \<or> giApplied i = '''' then rollTo (giCurrent i)
      else if giCurrent i = giApplied i then rollTo (giApplied i)
      else
        (let held = (rollTo (giApplied i))\<lparr>gdActiveUpgrade := giUpgradeName i, gdPhase := gatePhaseUpgrading\<rparr> in
         if \<not> giUpgradeExists i then held\<lparr>gdEnsureUpgrade := True\<rparr>
         else if giUpgradePhase i = UpgradePhaseSucceeded then rollTo (giCurrent i)
         else if giUpgradePhase i = UpgradePhaseFailed then held\<lparr>gdPhase := gatePhaseUpgradeFailed\<rparr>
         else held))"

definition gateUpgradeName :: "string \<Rightarrow> string \<Rightarrow> string" where
  "gateUpgradeName instanceName hash =
     (let maxPrefix = 63 - length ''-upg-'' - 8;
          prefix = trimRight (take (min (length instanceName) maxPrefix) instanceName) ''-'' in
      prefix @ ''-upg-'' @ take 8 hash)"

section \<open>Applying it\<close>

definition zeroUpgrade :: upgrade where
  "zeroUpgrade = \<lparr>upMeta = zeroMeta, upSpec = zeroUpgradeSpec, upStatus = zeroUpgradeStatus\<rparr>"

text \<open>The end both creators of an OdooUpgrade share: the owner reference, then the create.\<close>

definition createOwnedUpgrade :: "'w cluster \<Rightarrow> odoo_instance \<Rightarrow> upgrade \<Rightarrow> string \<Rightarrow> ('w, goerr option) prog" where
  "createOwnedUpgrade C ins u name =
     (case SetControllerReference C (instMeta ins) (upMeta u) of
        Inl e \<Rightarrow> State_Monad.return (Some e)
      | Inr m \<Rightarrow> do {
          err \<leftarrow> createObj C (OUpgrade (u\<lparr>upMeta := m\<rparr>));
          case err of
            Some e \<Rightarrow> State_Monad.return
              (if isAlreadyExists e then None else Some (WrapError (''create OdooUpgrade '' @ goQuote name @ '': '') e))
          | None \<Rightarrow> State_Monad.return None
        })"

definition gateUpgradeFor :: "odoo_instance \<Rightarrow> instance_upgrade_spec \<Rightarrow> string \<Rightarrow> upgrade" where
  "gateUpgradeFor ins up name =
     zeroUpgrade\<lparr>upMeta := (newMeta name (metaNamespace (instMeta ins)))\<lparr>metaLabels := [(gateLabelInstance, metaName (instMeta ins))]\<rparr>,
       upSpec := zeroUpgradeSpec\<lparr>upInstanceRef := \<lparr>refName = metaName (instMeta ins), refNamespace = ''''\<rparr>,
         upModules := iuModules up, upTimeoutSeconds := iuTimeoutSeconds up\<rparr>\<rparr>"

text \<open>Called only with \<open>spec.upgrade\<close> set; following the nil pointer otherwise is an error here.\<close>

definition gateCreateUpgrade :: "'w cluster \<Rightarrow> odoo_instance \<Rightarrow> string \<Rightarrow> ('w, goerr option) prog" where
  "gateCreateUpgrade C ins name =
     (case instUpgrade (instSpec ins) of
        None \<Rightarrow> State_Monad.return (Some (PlainError ''invalid memory address or nil pointer dereference''))
      | Some up \<Rightarrow> createOwnedUpgrade C ins (gateUpgradeFor ins up name) name)"

definition notOfInstance :: "string \<Rightarrow> upgrade \<Rightarrow> odoo_instance \<Rightarrow> goerr" where
  "notOfInstance name u ins = PlainError (''OdooUpgrade '' @ goQuote name @ '' belongs to instance ''
     @ goQuote (refName (upInstanceRef (upSpec u))) @ '', not '' @ goQuote (metaName (instMeta ins)))"

definition gateReadUpgrade :: "'w cluster \<Rightarrow> odoo_instance \<Rightarrow> string \<Rightarrow> ('w, goerr + upgrade option) prog" where
  "gateReadUpgrade C ins name = do {
     r \<leftarrow> getUpgrade C (metaNamespace (instMeta ins), name);
     case r of
       Inl e \<Rightarrow> State_Monad.return
         (if isNotFound e then Inr None else Inl (WrapError (''get OdooUpgrade '' @ goQuote name @ '': '') e))
     | Inr u \<Rightarrow> State_Monad.return
         (if refName (upInstanceRef (upSpec u)) \<noteq> metaName (instMeta ins) then Inl (notOfInstance name u ins)
          else Inr (Some u))
   }"

definition gateInputFor :: "odoo_instance \<Rightarrow> string \<Rightarrow> string \<Rightarrow> upgrade option \<Rightarrow> gateInput" where
  "gateInputFor ins current name u =
     \<lparr>giUpgradeSet = (instUpgrade (instSpec ins) \<noteq> None), giApplied = AppliedAddonsHash (instStatus ins),
      giCurrent = current, giUpgradeName = name, giUpgradeExists = (u \<noteq> None),
      giUpgradePhase = (case u of Some x \<Rightarrow> upPhase (upStatus x) | None \<Rightarrow> '''')\<rparr>"

definition gateApply ::
  "'w cluster \<Rightarrow> odoo_instance \<Rightarrow> string \<Rightarrow> string \<Rightarrow> upgrade option \<Rightarrow> ('w, goerr + gateDecision \<times> odoo_instance) prog" where
  "gateApply C ins current name u =
     (let i = gateInputFor ins current name u; d = gateDecide i in do {
        err \<leftarrow> (if gdEnsureUpgrade d then gateCreateUpgrade C ins name else State_Monad.return None);
        case err of
          Some e \<Rightarrow> State_Monad.return (Inl e)
        | None \<Rightarrow> State_Monad.return (Inr
            (d\<lparr>gdUpgradeMessage := (case u of Some x \<Rightarrow> upMessage (upStatus x) | None \<Rightarrow> ''''),
               gdSucceededUpgrade := (if giUpgradeExists i \<and> giUpgradePhase i = UpgradePhaseSucceeded then name else '''')\<rparr>,
             ins\<lparr>instStatus := (instStatus ins)\<lparr>AppliedAddonsHash := gdAppliedHash d, ActiveUpgrade := gdActiveUpgrade d\<rparr>\<rparr>))
      })"

definition gateAddonsRollout ::
  "'w cluster \<Rightarrow> odoo_instance \<Rightarrow> string \<Rightarrow> ('w, goerr + gateDecision \<times> odoo_instance) prog" where
  "gateAddonsRollout C ins current =
     (if instUpgrade (instSpec ins) \<noteq> None \<and> AppliedAddonsHash (instStatus ins) \<noteq> '''' \<and> AppliedAddonsHash (instStatus ins) \<noteq> current
      then (let name = gateUpgradeName (metaName (instMeta ins)) current in do {
        r \<leftarrow> gateReadUpgrade C ins name;
        case r of
          Inl e \<Rightarrow> State_Monad.return (Inl e)
        | Inr u \<Rightarrow> gateApply C ins current name u
      })
      else gateApply C ins current '''' None)"

section \<open>Properties of the decision\<close>

lemma rollTo_sel [simp]:
  "gdTemplateHash (rollTo h) = h" "gdAppliedHash (rollTo h) = h" "gdActiveUpgrade (rollTo h) = ''''"
  "gdPhase (rollTo h) = ''''" "gdEnsureUpgrade (rollTo h) = False"
  by (simp_all add: rollTo_def)

lemma gateDecide_template_applied: "gdTemplateHash (gateDecide i) = gdAppliedHash (gateDecide i)"
  by (simp add: gateDecide_def Let_def)

lemma gateDecide_holds:
  "gdTemplateHash (gateDecide i) =
     (if giUpgradeSet i \<and> giApplied i \<noteq> '''' \<and> \<not> (giUpgradeExists i \<and> giUpgradePhase i = UpgradePhaseSucceeded)
      then giApplied i else giCurrent i)"
  by (simp add: gateDecide_def Let_def)

lemma length_gateUpgradeName: "length (gateUpgradeName n h) \<le> 63"
proof -
  have "length (trimRight (take (min (length n) 50) n) ''-'') \<le> 50"
    using length_trimRight [of "take (min (length n) 50) n" "''-''"] by simp
  then show ?thesis by (simp add: gateUpgradeName_def Let_def)
qed

lemma gateUpgradeName_suffix: "8 \<le> length h \<Longrightarrow> \<exists>p. gateUpgradeName n h = p @ ''-upg-'' @ take 8 h \<and> length p \<le> length n"
  using length_trimRight [of "take (min (length n) 50) n" "''-''"]
  by (auto simp: gateUpgradeName_def Let_def)

section \<open>The gate over a whole pass\<close>

text \<open>An OdooUpgrade of the instance for the revision \<open>current\<close> was seen to have succeeded.\<close>

definition upgradeSeen :: "odoo_instance \<Rightarrow> string \<Rightarrow> history \<Rightarrow> bool" where
  "upgradeSeen ins current h \<longleftrightarrow>
     (\<exists>u. (Get KUpgrade (metaNamespace (instMeta ins), gateUpgradeName (metaName (instMeta ins)) current), RObj (OUpgrade u)) \<in> set h
        \<and> refName (upInstanceRef (upSpec u)) = metaName (instMeta ins) \<and> upPhase (upStatus u) = UpgradePhaseSucceeded)"

definition gated :: "odoo_instance \<Rightarrow> bool" where
  "gated ins \<longleftrightarrow> instUpgrade (instSpec ins) \<noteq> None \<and> AppliedAddonsHash (instStatus ins) \<noteq> ''''"

definition gateRespected :: "odoo_instance \<Rightarrow> string \<Rightarrow> goerr + gateDecision \<times> odoo_instance \<Rightarrow> history \<Rightarrow> bool" where
  "gateRespected ins current r h \<longleftrightarrow>
     (case r of
        Inl _ \<Rightarrow> True
      | Inr (d, ins') \<Rightarrow>
          gdTemplateHash d = AppliedAddonsHash (instStatus ins')
          \<and> gdTemplateHash d \<in> {AppliedAddonsHash (instStatus ins), current}
          \<and> (gated ins \<and> gdTemplateHash d \<noteq> AppliedAddonsHash (instStatus ins) \<longrightarrow> upgradeSeen ins current h)
          \<and> (\<not> gated ins \<longrightarrow> gdTemplateHash d = current)
          \<and> ins'\<lparr>instStatus := instStatus ins\<rparr> = ins)"

lemma gateApply_wp:
  assumes "\<And>e l. B (Inl e) (h @ l)"
    and "\<And>d l. gdTemplateHash d = gdTemplateHash (gateDecide (gateInputFor ins current name u)) \<Longrightarrow>
      B (Inr (d, ins\<lparr>instStatus := (instStatus ins)\<lparr>AppliedAddonsHash := gdTemplateHash d,
        ActiveUpgrade := gdActiveUpgrade (gateDecide (gateInputFor ins current name u))\<rparr>\<rparr>)) (h @ l)"
  shows "wp (gateApply C ins current name u) B h"
proof -
  have none: "B (Inr (d, ins\<lparr>instStatus := (instStatus ins)\<lparr>AppliedAddonsHash := gdAppliedHash (gateDecide (gateInputFor ins current name u)),
        ActiveUpgrade := gdActiveUpgrade (gateDecide (gateInputFor ins current name u))\<rparr>\<rparr>)) (h @ l)"
    if "gdTemplateHash d = gdTemplateHash (gateDecide (gateInputFor ins current name u))" for d l
    using assms(2) [OF that, of l] that by (simp add: gateDecide_template_applied)
  have err: "only (\<lambda>_. True) (gateCreateUpgrade C ins name)"
    unfolding gateCreateUpgrade_def createOwnedUpgrade_def call_defs by (auto intro!: frame_intros split: option.split)
  show ?thesis
    unfolding gateApply_def Let_def
    by (rule wp_bind, rule wp_only [of "\<lambda>_. True"])
      (intro frame_intros err wp_intros assms(1) none | simp)+
qed

lemma gateAddonsRollout_respected:
  "wp (gateAddonsRollout C ins current) (gateRespected ins current) h"
proof (cases "instUpgrade (instSpec ins) \<noteq> None \<and> AppliedAddonsHash (instStatus ins) \<noteq> '''' \<and> AppliedAddonsHash (instStatus ins) \<noteq> current")
  case False
  then show ?thesis
    unfolding gateAddonsRollout_def if_not_P [OF False]
    by (intro gateApply_wp) (auto simp: gateRespected_def gateDecide_holds gateInputFor_def gated_def)
next
  case True
  have step: "wp (gateApply C ins current name u) (gateRespected ins current) k"
    if "\<And>x. u = Some x \<Longrightarrow> upPhase (upStatus x) = UpgradePhaseSucceeded \<Longrightarrow> upgradeSeen ins current k" for name u k
  proof (rule gateApply_wp)
    show "gateRespected ins current (Inl e) (k @ l)" for e l by (simp add: gateRespected_def)
    fix d :: gateDecision and l
    assume "gdTemplateHash d = gdTemplateHash (gateDecide (gateInputFor ins current name u))"
    moreover have "upgradeSeen ins current (k @ l)" if "u = Some x" "upPhase (upStatus x) = UpgradePhaseSucceeded" for x
      using that \<open>\<And>x. u = Some x \<Longrightarrow> upPhase (upStatus x) = UpgradePhaseSucceeded \<Longrightarrow> upgradeSeen ins current k\<close>
      unfolding upgradeSeen_def set_append by blast
    ultimately show "gateRespected ins current (Inr (d, ins\<lparr>instStatus := (instStatus ins)\<lparr>AppliedAddonsHash := gdTemplateHash d,
        ActiveUpgrade := gdActiveUpgrade (gateDecide (gateInputFor ins current name u))\<rparr>\<rparr>)) (k @ l)"
      using True by (cases u) (auto simp: gateRespected_def gateDecide_holds gateInputFor_def gated_def)
  qed
  show ?thesis
    unfolding gateAddonsRollout_def if_P [OF True] gateReadUpgrade_def Let_def call_defs
    by (auto intro!: wp_intros step simp: gateRespected_def objReply_Inr_iff upgradeSeen_def split: if_splits)
qed

section \<open>Properties\<close>

text \<open>The gate decides exactly: with \<open>spec.upgrade\<close> set and a revision applied, the pods stay on that revision until
  the OdooUpgrade for the new one exists and has succeeded; otherwise they run the current revision. The
  upgrade is created exactly when it is needed and missing, and it is named in the status exactly while
  the pods are held back. Its name always fits a Kubernetes name.\<close>

theorem gateDecide_exact:
  "gdTemplateHash (gateDecide i) =
     (if giUpgradeSet i \<and> giApplied i \<noteq> '''' \<and> \<not> (giUpgradeExists i \<and> giUpgradePhase i = UpgradePhaseSucceeded)
      then giApplied i else giCurrent i)
   \<and> gdAppliedHash (gateDecide i) = gdTemplateHash (gateDecide i)
   \<and> (gdEnsureUpgrade (gateDecide i) \<longleftrightarrow>
        giUpgradeSet i \<and> giApplied i \<noteq> '''' \<and> giCurrent i \<noteq> giApplied i \<and> \<not> giUpgradeExists i)
   \<and> gdActiveUpgrade (gateDecide i) =
       (if gdTemplateHash (gateDecide i) = giCurrent i then '''' else giUpgradeName i)
   \<and> (gdPhase (gateDecide i) = gatePhaseUpgradeFailed \<longleftrightarrow>
        gdTemplateHash (gateDecide i) \<noteq> giCurrent i \<and> giUpgradeExists i \<and> giUpgradePhase i = UpgradePhaseFailed)
   \<and> length (gateUpgradeName n h) \<le> 63"
  using length_gateUpgradeName [of n h] by (auto simp: gateDecide_def Let_def)

text \<open>C17: Whatever the cluster answers, a pass with \<open>spec.upgrade\<close> set moves the pods off their applied revision only
  after it has read an OdooUpgrade of this very instance, under the name derived from the new revision, with
  phase Succeeded; a colliding upgrade of another instance is refused. The revision written to the status is
  always the one stamped on the pods, and nothing but the status changes.\<close>

theorem gate_respected_by_pass:
  "gateRespected ins current (resultOf (gateAddonsRollout C ins current) w) (callsOf (gateAddonsRollout C ins current) w)"
  by (rule wp_callsOf [OF gateAddonsRollout_respected])

text \<open>
  Many passes in a row: between two passes anything but the applied revision and the setting of \<open>spec.upgrade\<close> may
  change. \<open>rollout C a S b\<close>: on the cluster \<open>C\<close>, from the applied revision \<open>a\<close>, having seen the upgrades of the revisions in \<open>S\<close> succeed,
  the pods have come to run \<open>b\<close>.
\<close>

inductive rollout :: "'w cluster \<Rightarrow> string \<Rightarrow> string set \<Rightarrow> string \<Rightarrow> bool" for C where
  rollout_start: "rollout C a {} a"
| rollout_pass: "\<lbrakk> rollout C a S (AppliedAddonsHash (instStatus ins)); gated ins;
     resultOf (gateAddonsRollout C ins current) w = Inr (d, ins') \<rbrakk>
   \<Longrightarrow> rollout C a (S \<union> {r. r = current \<and> upgradeSeen ins r (callsOf (gateAddonsRollout C ins current) w)})
        (gdTemplateHash d)"


definition gatedInstance :: odoo_instance where
  "gatedInstance = \<lparr>instMeta = newMeta ''shop'' ''prod'',
     instSpec = zeroInstanceSpec\<lparr>instUpgrade := Some \<lparr>iuModules = [''all''], iuTimeoutSeconds = None\<rparr>\<rparr>,
     instStatus = zeroInstanceStatus\<lparr>AppliedAddonsHash := ''rev-one''\<rparr>\<rparr>"

definition upgradedCluster :: "unit cluster" where
  "upgradedCluster = scripted (\<lambda>r. RObj (OUpgrade (zeroUpgrade\<lparr>
     upSpec := zeroUpgradeSpec\<lparr>upInstanceRef := \<lparr>refName = ''shop'', refNamespace = ''''\<rparr>\<rparr>,
     upStatus := zeroUpgradeStatus\<lparr>upPhase := UpgradePhaseSucceeded\<rparr>\<rparr>)))"

lemma upgraded_pass:
  "\<exists>d ins'. resultOf (gateAddonsRollout upgradedCluster gatedInstance ''rev-two'') () = Inr (d, ins') \<and> gdTemplateHash d = ''rev-two''"
  by (simp add: resultOf_def start_def gateAddonsRollout_def gatedInstance_def gateReadUpgrade_def gateApply_def call_defs
      upgradedCluster_def scripted_def kubelib.defs zeroUpgrade_def gateInputFor_def gateDecide_def Let_def exec_simps newMeta_def)


end
