(* ===== verification/Instance_Init.thy ===== *)
theory Instance_Init
  imports Instance_Gate Events
begin

text \<open>
  \<open>odooinstance_init.go\<close>: the one-time initialisation of the database (\<open>spec.initialize\<close>). Until the OdooUpgrade
  \<open><name>-init\<close> has succeeded the pods stay at zero; a Deployment that already serves traffic is adopted and
  nothing is run against its database.
\<close>

definition initFailedRequeue :: int where "initFailedRequeue = 60 * second"

section \<open>The decision\<close>

record initInput =
  iiRequested :: bool
  iiInitialized :: bool
  iiUpgradeName :: string
  iiUpgradeExists :: bool
  iiUpgradePhase :: string
  iiUpgradeMessage :: string
  iiLiveReplicas :: int

record initDecision =
  idPending :: bool
  idInitialized :: bool
  idEnsureUpgrade :: bool
  idUpgradeName :: string
  idPhase :: string
  idFailMessage :: string
  idSucceeded :: string
  idAdopted :: bool

definition zeroInitDecision :: initDecision where
  "zeroInitDecision = \<lparr>idPending = False, idInitialized = False, idEnsureUpgrade = False, idUpgradeName = '''',
     idPhase = '''', idFailMessage = '''', idSucceeded = '''', idAdopted = False\<rparr>"

definition initDecide :: "initInput \<Rightarrow> initDecision" where
  "initDecide i =
     (if \<not> iiRequested i \<or> iiInitialized i then zeroInitDecision\<lparr>idInitialized := iiInitialized i\<rparr>
      else if \<not> iiUpgradeExists i \<and> iiLiveReplicas i > 0 then zeroInitDecision\<lparr>idInitialized := True, idAdopted := True\<rparr>
      else if \<not> iiUpgradeExists i then
        zeroInitDecision\<lparr>idPending := True, idEnsureUpgrade := True, idUpgradeName := iiUpgradeName i, idPhase := phaseInitializing\<rparr>
      else if iiUpgradePhase i = UpgradePhaseSucceeded then
        zeroInitDecision\<lparr>idInitialized := True, idSucceeded := iiUpgradeName i\<rparr>
      else if iiUpgradePhase i = UpgradePhaseFailed then
        zeroInitDecision\<lparr>idPending := True, idUpgradeName := iiUpgradeName i, idPhase := phaseInitFailed,
          idFailMessage := iiUpgradeMessage i\<rparr>
      else zeroInitDecision\<lparr>idPending := True, idUpgradeName := iiUpgradeName i, idPhase := phaseInitializing\<rparr>)"

definition initUpgradeName :: "string \<Rightarrow> string" where
  "initUpgradeName instanceName = instanceName @ ''-init''"

definition initHoldGate :: "odoo_instance \<Rightarrow> string \<Rightarrow> gateDecision \<times> odoo_instance" where
  "initHoldGate ins current =
     (rollTo current, ins\<lparr>instStatus := (instStatus ins)\<lparr>ActiveUpgrade := '''', AppliedAddonsHash := current\<rparr>\<rparr>)"

section \<open>Reading the cluster and applying it\<close>

definition readInitState :: "'w cluster \<Rightarrow> odoo_instance \<Rightarrow> initInput \<Rightarrow> ('w, goerr + initInput) prog" where
  "readInitState C ins i = do {
     r \<leftarrow> getDeployment C (metaNamespace (instMeta ins), metaName (instMeta ins));
     case (case r of
             Inr d \<Rightarrow> Inr (i\<lparr>iiLiveReplicas := depReadyReplicas d\<rparr>)
           | Inl e \<Rightarrow> if \<not> isNotFound e then Inl (WrapError (''get Deployment '' @ goQuote (metaName (instMeta ins)) @ '': '') e)
                      else Inr i) of
       Inl e \<Rightarrow> State_Monad.return (Inl e)
     | Inr j \<Rightarrow> do {
         q \<leftarrow> getUpgrade C (metaNamespace (instMeta ins), iiUpgradeName j);
         case q of
           Inl e \<Rightarrow> State_Monad.return
             (if isNotFound e then Inr j else Inl (WrapError (''get OdooUpgrade '' @ goQuote (iiUpgradeName j) @ '': '') e))
         | Inr u \<Rightarrow> State_Monad.return
             (if refName (upInstanceRef (upSpec u)) \<noteq> metaName (instMeta ins) then Inl (notOfInstance (iiUpgradeName j) u ins)
              else Inr (j\<lparr>iiUpgradeExists := True, iiUpgradePhase := upPhase (upStatus u),
                iiUpgradeMessage := upMessage (upStatus u)\<rparr>))
       }
   }"

definition missingSecret :: "string \<Rightarrow> string \<Rightarrow> string \<Rightarrow> goerr" where
  "missingSecret name field ns = withReason ReasonMissingSecret (PlainError (''secret '' @ goQuote name
     @ '' referenced by '' @ field @ '' does not exist in namespace '' @ goQuote ns))"

text \<open>The nil pointer of an instance without \<open>spec.initialize\<close> is an error here; the caller never follows it.\<close>

definition nilPointer :: goerr where
  "nilPointer = PlainError ''invalid memory address or nil pointer dereference''"

definition checkInitSecret :: "'w cluster \<Rightarrow> odoo_instance \<Rightarrow> ('w, goerr option) prog" where
  "checkInitSecret C ins =
     (case instInitialize (instSpec ins) of
        None \<Rightarrow> State_Monad.return (Some nilPointer)
      | Some spec \<Rightarrow>
          (let name = initAdminUserPasswordSecret spec; ns = metaNamespace (instMeta ins) in do {
             r \<leftarrow> getSecret C (ns, name);
             case r of
               Inl e \<Rightarrow> State_Monad.return (Some
                 (if isNotFound e then missingSecret name ''spec.initialize.adminUserPasswordSecret'' ns
                  else WrapError (''get secret '' @ goQuote name @ '': '') e))
             | Inr _ \<Rightarrow> State_Monad.return None
           }))"

definition initUpgradeFor :: "odoo_instance \<Rightarrow> initialize_spec \<Rightarrow> string \<Rightarrow> upgrade" where
  "initUpgradeFor ins spec name =
     zeroUpgrade\<lparr>upMeta := (newMeta name (metaNamespace (instMeta ins)))\<lparr>metaLabels := [(gateLabelInstance, metaName (instMeta ins))]\<rparr>,
       upSpec := zeroUpgradeSpec\<lparr>upInstanceRef := \<lparr>refName = metaName (instMeta ins), refNamespace = ''''\<rparr>,
         upInstallModules := initModules spec, upWithDemo := initWithDemo spec,
         upAdminUserPasswordSecret := initAdminUserPasswordSecret spec, upTimeoutSeconds := initTimeoutSeconds spec\<rparr>\<rparr>"

definition createInitUpgrade :: "'w cluster \<Rightarrow> odoo_instance \<Rightarrow> string \<Rightarrow> ('w, goerr option) prog" where
  "createInitUpgrade C ins name =
     (case instInitialize (instSpec ins) of
        None \<Rightarrow> State_Monad.return (Some nilPointer)
      | Some spec \<Rightarrow> createOwnedUpgrade C ins (initUpgradeFor ins spec name) name)"

definition initInputFor :: "odoo_instance \<Rightarrow> initInput" where
  "initInputFor ins = \<lparr>iiRequested = (instInitialize (instSpec ins) \<noteq> None), iiInitialized = Initialized (instStatus ins),
     iiUpgradeName = initUpgradeName (metaName (instMeta ins)), iiUpgradeExists = False, iiUpgradePhase = '''',
     iiUpgradeMessage = '''', iiLiveReplicas = 0\<rparr>"

definition decideInitialization :: "'w cluster \<Rightarrow> odoo_instance \<Rightarrow> ('w, goerr + initDecision) prog" where
  "decideInitialization C ins =
     (let start = initInputFor ins in do {
        r \<leftarrow> (if iiRequested start \<and> \<not> iiInitialized start then readInitState C ins start
             else State_Monad.return (Inr start));
        case r of
          Inl e \<Rightarrow> State_Monad.return (Inl e)
        | Inr i \<Rightarrow>
            (let dec = initDecide i in
             if \<not> idEnsureUpgrade dec then State_Monad.return (Inr dec)
             else do {
               err \<leftarrow> checkInitSecret C ins;
               case err of
                 Some e \<Rightarrow> State_Monad.return (Inl e)
               | None \<Rightarrow> do {
                   err2 \<leftarrow> createInitUpgrade C ins (idUpgradeName dec);
                   case err2 of
                     Some e \<Rightarrow> State_Monad.return (Inl e)
                   | None \<Rightarrow> State_Monad.return (Inr dec)
                 }
             })
      })"

definition initEvents :: "initDecision \<Rightarrow> statusEvent list" where
  "initEvents dec =
     (if idSucceeded dec \<noteq> ''''
      then [\<lparr>evType = EventTypeNormal, evReason = ''Initialized'', evAction = ''Initialize'',
         evMessage = ''database initialised by OdooUpgrade '' @ goQuote (idSucceeded dec) @ ''; rolling out the pods'',
         RelatedUpgrade = idSucceeded dec\<rparr>] else [])
     @ (if idAdopted dec
        then [\<lparr>evType = EventTypeWarning, evReason = ''InitializationSkipped'', evAction = ''Initialize'',
           evMessage = ''spec.initialize is set but the Deployment already has ready pods; the database is ''
             @ ''treated as initialised and nothing was run against it'',
           RelatedUpgrade = ''''\<rparr>] else [])"

section \<open>What a pass may conclude\<close>

definition deploymentKey :: "odoo_instance \<Rightarrow> nsname" where
  "deploymentKey ins = (metaNamespace (instMeta ins), metaName (instMeta ins))"

definition initUpgradeKey :: "odoo_instance \<Rightarrow> nsname" where
  "initUpgradeKey ins = (metaNamespace (instMeta ins), initUpgradeName (metaName (instMeta ins)))"

text \<open>The pass has read a Deployment with ready pods, or that there are none.\<close>

definition podsLive :: "odoo_instance \<Rightarrow> history \<Rightarrow> bool" where
  "podsLive ins h \<longleftrightarrow> (\<exists>d. (Get KDeployment (deploymentKey ins), RObj (ODeployment d)) \<in> set h \<and> depReadyReplicas d > 0)"

definition podsAbsent :: "odoo_instance \<Rightarrow> history \<Rightarrow> bool" where
  "podsAbsent ins h \<longleftrightarrow>
     (\<exists>d. (Get KDeployment (deploymentKey ins), RObj (ODeployment d)) \<in> set h \<and> depReadyReplicas d \<le> 0)
     \<or> (\<exists>e. (Get KDeployment (deploymentKey ins), RErr e) \<in> set h \<and> isNotFound e)"

definition initAbsent :: "odoo_instance \<Rightarrow> history \<Rightarrow> bool" where
  "initAbsent ins h \<longleftrightarrow> (\<exists>e. (Get KUpgrade (initUpgradeKey ins), RErr e) \<in> set h \<and> isNotFound e)"

definition initSeen :: "odoo_instance \<Rightarrow> string \<Rightarrow> history \<Rightarrow> bool" where
  "initSeen ins phase h \<longleftrightarrow>
     (\<exists>u. (Get KUpgrade (initUpgradeKey ins), RObj (OUpgrade u)) \<in> set h
        \<and> refName (upInstanceRef (upSpec u)) = metaName (instMeta ins) \<and> upPhase (upStatus u) = phase)"

definition wantsInit :: "odoo_instance \<Rightarrow> bool" where
  "wantsInit ins \<longleftrightarrow> instInitialize (instSpec ins) \<noteq> None \<and> \<not> Initialized (instStatus ins)"

text \<open>Nothing is written but the initialisation upgrade, and that only for an empty database.\<close>

definition initCreate :: "odoo_instance \<Rightarrow> history \<Rightarrow> req \<Rightarrow> bool" where
  "initCreate ins h r \<longleftrightarrow>
     (case r of
        Get _ _ \<Rightarrow> True
      | Create (OUpgrade u) \<Rightarrow>
          wantsInit ins \<and> podsAbsent ins h \<and> initAbsent ins h
          \<and> metaName (upMeta u) = initUpgradeName (metaName (instMeta ins))
          \<and> metaNamespace (upMeta u) = metaNamespace (instMeta ins)
          \<and> refName (upInstanceRef (upSpec u)) = metaName (instMeta ins)
      | _ \<Rightarrow> False)"

definition initJustified :: "odoo_instance \<Rightarrow> goerr + initDecision \<Rightarrow> history \<Rightarrow> bool" where
  "initJustified ins r h \<longleftrightarrow>
     list_all (\<lambda>(q, p). initCreate ins h q) h
     \<and> (case r of
          Inl _ \<Rightarrow> True
        | Inr d \<Rightarrow>
            (idInitialized d \<longleftrightarrow> Initialized (instStatus ins) \<or> (wantsInit ins \<and>
               (initSeen ins UpgradePhaseSucceeded h \<or> (initAbsent ins h \<and> podsLive ins h))))
            \<and> (idPending d \<longleftrightarrow> wantsInit ins \<and> \<not> idInitialized d)
            \<and> (idPhase d = phaseInitFailed \<longleftrightarrow> wantsInit ins \<and> initSeen ins UpgradePhaseFailed h)
            \<and> (idPending d \<longrightarrow> idUpgradeName d = initUpgradeName (metaName (instMeta ins))))"

section \<open>The proof\<close>

lemmas init_reads = podsLive_def podsAbsent_def initAbsent_def initSeen_def

text \<open>The two reads, and the decision input they give.\<close>

definition initFacts :: "odoo_instance \<Rightarrow> initInput \<Rightarrow> history \<Rightarrow> bool" where
  "initFacts ins i h \<longleftrightarrow>
     (iiRequested i \<longleftrightarrow> instInitialize (instSpec ins) \<noteq> None) \<and> iiInitialized i = Initialized (instStatus ins)
     \<and> iiUpgradeName i = initUpgradeName (metaName (instMeta ins))
     \<and> list_all (\<lambda>(q, p). \<exists>k key. q = Get k key) h
     \<and> (wantsInit ins \<longrightarrow>
          (if iiLiveReplicas i > 0 then podsLive ins h else podsAbsent ins h)
          \<and> (podsLive ins h \<longrightarrow> iiLiveReplicas i > 0)
          \<and> (\<not> iiUpgradeExists i \<longleftrightarrow> initAbsent ins h)
          \<and> (\<forall>ph. initSeen ins ph h \<longleftrightarrow> iiUpgradeExists i \<and> iiUpgradePhase i = ph))"

lemma readInitState_facts:
  assumes "wantsInit ins"
  shows "wp (readInitState C ins (initInputFor ins))
    (\<lambda>r h. case r of Inl _ \<Rightarrow> list_all (\<lambda>(q, p). \<exists>k key. q = Get k key) h | Inr i \<Rightarrow> initFacts ins i h) []"
  unfolding readInitState_def call_defs
  apply (rule wp_bind, rule wp_ask)
  using assms
  by (auto intro!: wp_intros split: sum.splits if_splits simp: initFacts_def initInputFor_def init_reads wantsInit_def
      deploymentKey_def initUpgradeKey_def objReply_Inr_iff dest!: objReply_Inl_notFound)

lemma init_mono:
  "podsAbsent ins h \<Longrightarrow> podsAbsent ins (h @ l)" "initAbsent ins h \<Longrightarrow> initAbsent ins (h @ l)"
  by (auto simp: init_reads)

text \<open>The calls after the reads change no answer the decision rests on.\<close>

definition tailCall :: "odoo_instance \<Rightarrow> req \<Rightarrow> bool" where
  "tailCall ins r \<longleftrightarrow>
     (case r of
        Get k _ \<Rightarrow> k = KSecret
      | Create (OUpgrade u) \<Rightarrow> metaName (upMeta u) = initUpgradeName (metaName (instMeta ins))
          \<and> metaNamespace (upMeta u) = metaNamespace (instMeta ins) \<and> refName (upInstanceRef (upSpec u)) = metaName (instMeta ins)
      | _ \<Rightarrow> False)"

lemma init_tail:
  assumes "list_all (\<lambda>c. tailCall ins (fst c)) l"
  shows "podsLive ins (h @ l) = podsLive ins h" "podsAbsent ins (h @ l) = podsAbsent ins h"
    "initAbsent ins (h @ l) = initAbsent ins h" "initSeen ins ph (h @ l) = initSeen ins ph h"
proof -
  have other: "k = KSecret" if "(Get k key, p) \<in> set l" for k key p
    using assms that by (auto simp: list_all_iff tailCall_def)
  show "podsLive ins (h @ l) = podsLive ins h" "podsAbsent ins (h @ l) = podsAbsent ins h"
    "initAbsent ins (h @ l) = initAbsent ins h" "initSeen ins ph (h @ l) = initSeen ins ph h"
    unfolding init_reads set_append using other by blast+
qed

lemma tail_only:
  assumes "lawfulOwners C"
  shows "only (tailCall ins) (checkInitSecret C ins)"
    and "only (tailCall ins) (createInitUpgrade C ins (initUpgradeName (metaName (instMeta ins))))"
proof -
  show "only (tailCall ins) (checkInitSecret C ins)"
    unfolding checkInitSecret_def call_defs Let_def by (auto intro!: frame_intros simp: tailCall_def)
  have named: "metaName m' = metaName m \<and> metaNamespace m' = metaNamespace m"
    if "SetControllerReference C (instMeta ins) m = Inr m'" for m m'
    using assms that unfolding lawfulOwners_def by (metis objmeta.select_convs objmeta.surjective objmeta.update_convs)
  show "only (tailCall ins) (createInitUpgrade C ins (initUpgradeName (metaName (instMeta ins))))"
    unfolding createInitUpgrade_def createOwnedUpgrade_def call_defs
    by (auto intro!: frame_intros dest!: named simp: tailCall_def initUpgradeFor_def newMeta_def)
qed

lemma justified_step:
  assumes facts: "initFacts ins i h" and tail: "list_all (\<lambda>c. tailCall ins (fst c)) l"
    and none: "l \<noteq> [] \<Longrightarrow> idEnsureUpgrade (initDecide i)"
  shows "initJustified ins (Inr (initDecide i)) (h @ l)" "initJustified ins (Inl e) (h @ l)"
proof -
  have creates: "list_all (\<lambda>(q, p). initCreate ins (h @ l) q) (h @ l)"
  proof (cases "l = []")
    case True
    with facts show ?thesis by (auto simp: initFacts_def list_all_iff initCreate_def)
  next
    case False
    then have "idEnsureUpgrade (initDecide i)" by (rule none)
    with facts have "wantsInit ins" "podsAbsent ins h" "initAbsent ins h"
      by (auto simp: initFacts_def initDecide_def zeroInitDecision_def wantsInit_def split: if_splits)
    then have "tailCall ins q \<Longrightarrow> initCreate ins (h @ l) q" for q
      by (auto simp: initCreate_def tailCall_def init_tail [OF tail] split: req.splits obj.splits)
    with facts tail show ?thesis
      by (auto simp: initFacts_def list_all_iff initCreate_def)
  qed
  then show "initJustified ins (Inl e) (h @ l)" by (simp add: initJustified_def)
  show "initJustified ins (Inr (initDecide i)) (h @ l)"
  proof (cases "wantsInit ins")
    case False
    with facts have "initDecide i = zeroInitDecision\<lparr>idInitialized := Initialized (instStatus ins)\<rparr>"
      by (auto simp: initDecide_def initFacts_def wantsInit_def)
    with creates False show ?thesis by (simp add: initJustified_def zeroInitDecision_def)
  next
    case True
    with facts have reads: "initAbsent ins h \<longleftrightarrow> \<not> iiUpgradeExists i" "podsLive ins h \<longleftrightarrow> iiLiveReplicas i > 0"
        "initSeen ins ph h \<longleftrightarrow> iiUpgradeExists i \<and> iiUpgradePhase i = ph"
        "iiUpgradeName i = initUpgradeName (metaName (instMeta ins))" for ph
      unfolding initFacts_def by presburger+
    from True facts have "iiRequested i" "\<not> iiInitialized i" "\<not> Initialized (instStatus ins)"
      by (auto simp: initFacts_def wantsInit_def)
    with True creates show ?thesis
      by (simp add: initJustified_def init_tail [OF tail] reads initDecide_def zeroInitDecision_def)
  qed
qed

lemma decideInitialization_justified:
  assumes "lawfulOwners C"
  shows "wp (decideInitialization C ins) (initJustified ins) []"
proof -
  have rest: "wp (let dec = initDecide i in
             if \<not> idEnsureUpgrade dec then State_Monad.return (Inr dec)
             else do {
               err \<leftarrow> checkInitSecret C ins;
               case err of
                 Some e \<Rightarrow> State_Monad.return (Inl e)
               | None \<Rightarrow> do {
                   err2 \<leftarrow> createInitUpgrade C ins (idUpgradeName dec);
                   case err2 of
                     Some e \<Rightarrow> State_Monad.return (Inl e)
                   | None \<Rightarrow> State_Monad.return (Inr dec)
                 }
             }) (initJustified ins) h" if facts: "initFacts ins i h" for i h
  proof (cases "idEnsureUpgrade (initDecide i)")
    case False
    with justified_step(1) [OF facts, of "[]"] show ?thesis by (simp add: wp_return)
  next
    case True
    then have name: "idUpgradeName (initDecide i) = initUpgradeName (metaName (instMeta ins))"
      using facts by (auto simp: initDecide_def zeroInitDecision_def initFacts_def split: if_splits)
    note ok = justified_step [OF facts _ True]
    show ?thesis
      unfolding Let_def using True
      by (auto intro!: wp_intros wp_only [OF tail_only(1) [OF assms]] wp_only [OF tail_only(2) [OF assms]] ok simp: name)
  qed
  have bad: "initJustified ins (Inl e) h" if "list_all (\<lambda>(q, p). \<exists>k key. q = Get k key) h" for e h
    using that by (auto simp: initJustified_def initCreate_def list_all_iff)
  have input: "wp (if iiRequested (initInputFor ins) \<and> \<not> iiInitialized (initInputFor ins)
      then readInitState C ins (initInputFor ins) else State_Monad.return (Inr (initInputFor ins)))
    (\<lambda>r h. case r of Inl _ \<Rightarrow> list_all (\<lambda>(q, p). \<exists>k key. q = Get k key) h | Inr i \<Rightarrow> initFacts ins i h) []"
  proof (rule wp_if)
    assume "iiRequested (initInputFor ins) \<and> \<not> iiInitialized (initInputFor ins)"
    then have "wantsInit ins" by (simp add: initInputFor_def wantsInit_def)
    then show "wp (readInitState C ins (initInputFor ins))
      (\<lambda>r h. case r of Inl _ \<Rightarrow> list_all (\<lambda>(q, p). \<exists>k key. q = Get k key) h | Inr i \<Rightarrow> initFacts ins i h) []"
      by (rule readInitState_facts)
  next
    assume "\<not> (iiRequested (initInputFor ins) \<and> \<not> iiInitialized (initInputFor ins))"
    then show "wp (State_Monad.return (Inr (initInputFor ins)))
      (\<lambda>r h. case r of Inl _ \<Rightarrow> list_all (\<lambda>(q, p). \<exists>k key. q = Get k key) h | Inr i \<Rightarrow> initFacts ins i h) []"
      by (intro wp_return) (auto simp: initFacts_def initInputFor_def wantsInit_def)
  qed
  show ?thesis
    unfolding decideInitialization_def Let_def [of "initInputFor ins"]
    by (rule wp_bind, rule wp_mono [OF input]) (auto intro!: wp_sum wp_return bad rest split: sum.splits)
qed

section \<open>Properties\<close>


definition freshInstance :: odoo_instance where
  "freshInstance = (bareInstance ''shop'' ''prod'')\<lparr>instSpec := zeroInstanceSpec\<lparr>instInitialize :=
     Some \<lparr>initModules = [''base''], initWithDemo = False, initAdminUserPasswordSecret = ''admin'', initTimeoutSeconds = None\<rparr>\<rparr>\<rparr>"


end
