(* ===== verification/Instance_Workload.thy ===== *)
theory Instance_Workload
  imports Instance_Addons Workload_Parts Instance_Config
begin

text \<open>
  \<open>odooinstance_workload.go\<close>: the builders of the web pods, the Service ports and the labels. The protocol of
  every port is TCP and is left out of the model's port types.
\<close>

abbreviation (input) "defaultOdooImage \<equiv> ''odoo:19.0''"
abbreviation (input) "containerRenderConfig \<equiv> ''render-config''"
definition portOdoo :: int where "portOdoo = 8069"
definition portLongpolling :: int where "portLongpolling = 8072"
definition odooUID :: int where "odooUID = 100"
definition terminationGraceSecs :: int where "terminationGraceSecs = 60"

section \<open>Scalars, labels and the strategy\<close>

definition desiredReplicas :: "instance_spec \<Rightarrow> int" where
  "desiredReplicas spec = (if instReplicas spec < 1 then 1 else instReplicas spec)"

definition odooImage :: "instance_spec \<Rightarrow> string" where
  "odooImage spec = (if instImage spec = '''' then defaultOdooImage else instImage spec)"

definition selectorLabels :: "string \<Rightarrow> strmap" where
  "selectorLabels instanceName = [(labelApp, appOdoo), (labelInstance, instanceName)]"

definition podLabels :: "string \<Rightarrow> strmap" where
  "podLabels instanceName = selectorLabels instanceName
     @ [(labelAppName, appOdoo), (labelAppInstance, instanceName), (labelManagedBy, managedByOperator)]"

definition deploymentStrategy :: "int \<Rightarrow> string \<Rightarrow> strategy" where
  "deploymentStrategy replicas dataAccessMode =
     (if replicas = 1 \<and> dataAccessMode \<noteq> ReadWriteMany then Recreate else RollingUpdate 0 1)"

section \<open>The container\<close>

definition buildOdooArgs :: "string list" where
  "buildOdooArgs = [''--config'', odooConfPath]"

definition adminPasswordRendered :: "instance_spec \<Rightarrow> bool" where
  "adminPasswordRendered spec \<longleftrightarrow> AdminPasswordSecret spec \<noteq> ''''"

definition buildWebArgs :: "instance_spec \<Rightarrow> string list" where
  "buildWebArgs spec = (if adminPasswordRendered spec then [''--config'', renderedConfPath] else buildOdooArgs)"

definition renderConfigScript :: "string \<Rightarrow> string \<Rightarrow> string" where
  "renderConfigScript src dst = joinWith [CHR 0x0A]
     [''set -eu'',
      ''if [ -z '' @ [CHR 0x22] @ ''${ODOO_ADMIN_PASSWD:-}'' @ [CHR 0x22] @ '' ]; then'',
      ''  echo '' @ [CHR 0x22] @ ''render-config: ODOO_ADMIN_PASSWD is empty, check spec.adminPasswordSecret'' @ [CHR 0x22] @ '' >&2'',
      ''  exit 1'',
      ''fi'',
      ''umask 077'',
      ''{ cat '' @ src @ ''; printf '' @ [CHR 0x27] @ ''admin_passwd = %s'' @ [CHR 0x5C] @ ''n'' @ [CHR 0x27] @ '' ''
        @ [CHR 0x22] @ ''$ODOO_ADMIN_PASSWD'' @ [CHR 0x22] @ ''; } > '' @ dst,
      '''']"

definition secretKeyEnv :: "string \<Rightarrow> string \<Rightarrow> env_var" where
  "secretKeyEnv envName secretName = (envName, secretKeyRef secretName secretKeyPassword)"

definition adminPasswordEnv :: "instance_spec \<Rightarrow> env_var list" where
  "adminPasswordEnv spec = (if \<not> adminPasswordRendered spec then [] else [secretKeyEnv envAdminPasswd (AdminPasswordSecret spec)])"

definition odooContainerSecurityContext :: container_security where
  "odooContainerSecurityContext = \<lparr>allowPrivilegeEscalation = Some False, readOnlyRootFilesystem = Some True,
     ctrRunAsNonRoot = None, capsDropped = [''ALL'']\<rparr>"

definition renderConfigContainer :: "odoo_instance \<Rightarrow> container" where
  "renderConfigContainer ins = zeroContainer\<lparr>ctrName := containerRenderConfig, ctrImage := odooImage (instSpec ins),
     ctrCommand := [''/bin/sh'', ''-c'', renderConfigScript odooConfPath renderedConfPath],
     ctrEnv := adminPasswordEnv (instSpec ins),
     ctrResources := \<lparr>resRequests = Some [(''cpu'', ''10m''), (''memory'', ''16Mi'')],
       resLimits = Some [(''cpu'', ''100m''), (''memory'', ''64Mi'')]\<rparr>,
     ctrMounts := [mount volumeConfig mountPathConfig True, mount volumeRendered mountPathRendered False],
     ctrSecurity := Some odooContainerSecurityContext,
     ctrTerminationPath := ''/dev/termination-log'', ctrTerminationPolicy := ''File''\<rparr>"

definition renderedVolume :: volume where
  "renderedVolume = (volumeRendered, EmptyDirVolume ''Memory'' (Some ''1Mi''))"

definition renderedVolumeMount :: volume_mount where
  "renderedVolumeMount = mount volumeRendered mountPathRendered True"

definition buildOdooEnv :: "instance_spec \<Rightarrow> env_var list" where
  "buildOdooEnv spec =
     (if pgPasswordSecret (instPostgres spec) \<noteq> ''''
      then [secretKeyEnv envPGPassword (pgPasswordSecret (instPostgres spec)),
            secretKeyEnv envDBPassword (pgPasswordSecret (instPostgres spec))] else [])
     @ (if pgDatabase (instPostgres spec) \<noteq> '''' then [(envPGSSLMode, EnvValue sslModeRequire)] else [])"

definition odooResources :: "instance_spec \<Rightarrow> resources" where
  "odooResources spec =
     (if resRequests (instResources spec) \<noteq> None \<or> resLimits (instResources spec) \<noteq> None then instResources spec
      else \<lparr>resRequests = Some [(''cpu'', ''250m''), (''memory'', ''512Mi'')],
            resLimits = Some [(''cpu'', ''1''), (''memory'', ''1Gi'')]\<rparr>)"

definition odooProbe :: "int \<Rightarrow> int \<Rightarrow> probe" where
  "odooProbe period failure = \<lparr>probePath = ''/web/health'', probePort = portOdoo, probeScheme = ''HTTP'',
     probePeriod = period, probeTimeout = 1, probeSuccess = 1, probeFailure = failure\<rparr>"

definition odooProbes :: "probe \<times> probe \<times> probe" where
  "odooProbes = (odooProbe 10 30, odooProbe 10 3, odooProbe 20 3)"

definition buildServicePorts :: "(string \<times> int \<times> int \<times> string) list" where
  "buildServicePorts = [(''odoo'', portOdoo, portOdoo, ''TCP''), (''longpolling'', portLongpolling, portLongpolling, ''TCP'')]"

definition configMapName :: "string \<Rightarrow> string" where
  "configMapName instanceName = instanceName @ ''-config''"

section \<open>The pod\<close>

definition podAnnotations :: "rolloutHashes \<Rightarrow> strmap" where
  "podAnnotations hashes = [(annotationConfigHash, rhConfig hashes), (annotationSecretsHash, rhSecrets hashes),
     (annotationAddonsHash, rhAddons hashes)]"

definition odooPodSecurityContext :: pod_security where
  "odooPodSecurityContext = \<lparr>runAsNonRoot = Some True, runAsUser = Some odooUID, runAsGroup = None,
     fsGroup = Some odooUID, seccompProfile = ''RuntimeDefault''\<rparr>"

definition odooVolumeMounts :: "volume_mount list" where
  "odooVolumeMounts = [mount volumeConfig mountPathConfig True, mount volumeAddons addonsMountPath True,
     mount volumeData mountPathData False, mount volumeTmp mountPathTmp False]"

definition odooVolumes :: "string \<Rightarrow> volume list" where
  "odooVolumes instanceName =
     [(volumeConfig, ConfigMapVolume (configMapName instanceName) (Some 420)),
      (volumeAddons, PvcVolume (addonsPVCName instanceName) True),
      (volumeData, PvcVolume (dataPVCName instanceName) False),
      (volumeTmp, EmptyDirVolume '''' None)]"

definition odooPodSpec :: "odoo_instance \<Rightarrow> container \<Rightarrow> affinity option \<Rightarrow> pod_spec" where
  "odooPodSpec ins c aff = zeroPodSpec\<lparr>podAutomountToken := Some False,
     podTerminationGrace := Some terminationGraceSecs, podRestartPolicy := ''Always'', podDNSPolicy := ''ClusterFirst'',
     podScheduler := ''default-scheduler'', podSecurity := odooPodSecurityContext, podAffinity := aff,
     podContainers := [c\<lparr>ctrImage := odooImage (instSpec ins), ctrEnv := buildOdooEnv (instSpec ins),
       ctrMounts := odooVolumeMounts, ctrSecurity := Some odooContainerSecurityContext,
       ctrTerminationPath := ''/dev/termination-log'', ctrTerminationPolicy := ''File''\<rparr>],
     podVolumes := odooVolumes (metaName (instMeta ins))\<rparr>"

definition needsColocation :: "instance_spec \<Rightarrow> bool" where
  "needsColocation spec \<longleftrightarrow> dvAccessMode (instData spec) \<noteq> ReadWriteMany \<or> avAccessMode (instAddons spec) \<noteq> ReadWriteMany"

definition colocationAffinity :: "string \<Rightarrow> instance_spec \<Rightarrow> affinity option" where
  "colocationAffinity instanceName spec =
     (if \<not> needsColocation spec then None else Some ([(labelInstance, instanceName)], nodeHostLabel))"

definition withRendered :: "odoo_instance \<Rightarrow> pod_spec \<Rightarrow> pod_spec" where
  "withRendered ins p = p\<lparr>podInitContainers := [renderConfigContainer ins],
     podContainers := (case podContainers p of
        [] \<Rightarrow> [] | c # cs \<Rightarrow> c\<lparr>ctrMounts := ctrMounts c @ [renderedVolumeMount]\<rparr> # cs),
     podVolumes := podVolumes p @ [renderedVolume]\<rparr>"

definition webContainer :: "odoo_instance \<Rightarrow> container" where
  "webContainer ins = zeroContainer\<lparr>ctrName := appOdoo, ctrArgs := buildWebArgs (instSpec ins),
     ctrResources := odooResources (instSpec ins),
     ctrPorts := [(''odoo'', portOdoo), (''longpolling'', portLongpolling)], ctrProbes := Some odooProbes\<rparr>"

definition buildPodTemplate :: "odoo_instance \<Rightarrow> rolloutHashes \<Rightarrow> pod_template" where
  "buildPodTemplate ins hashes =
     (let p = odooPodSpec ins (webContainer ins) (colocationAffinity (metaName (instMeta ins)) (instSpec ins)) in
      \<lparr>templLabels = podLabels (metaName (instMeta ins)), templAnnotations = podAnnotations hashes,
       templSpec = (if adminPasswordRendered (instSpec ins) then withRendered ins p else p)\<rparr>)"

section \<open>What the web pods guarantee\<close>

lemma podLabels_selected: "labelSelects (selectorLabels n) (podLabels m) \<longleftrightarrow> n = m"
  by (simp add: labelSelects_def selectorLabels_def podLabels_def) (auto simp: eq_commute)

lemma podSpec_hardened:
  "list_all confined (podInitContainers (odooPodSpec ins c aff) @ podContainers (odooPodSpec ins c aff))"
  "podHardened (odooPodSpec ins c aff)"
  by (simp_all add: odooPodSpec_def podHardened_def confined_def mountsResolve_def odooPodSecurityContext_def odooUID_def
      odooContainerSecurityContext_def odooVolumeMounts_def odooVolumes_def mount_def zeroPodSpec_def)

lemma withRendered_hardened:
  "podHardened (withRendered ins (odooPodSpec ins c aff))"
  by (simp add: withRendered_def odooPodSpec_def podHardened_def confined_def mountsResolve_def odooPodSecurityContext_def
      odooUID_def odooContainerSecurityContext_def odooVolumeMounts_def odooVolumes_def mount_def zeroPodSpec_def
      renderConfigContainer_def renderedVolume_def renderedVolumeMount_def zeroContainer_def)

lemma webTemplate_hardened: "podHardened (templSpec (buildPodTemplate ins hashes))"
  by (simp add: buildPodTemplate_def Let_def podSpec_hardened withRendered_hardened)

text \<open>Every Secret a container reads, by the name of the variable.\<close>

fun envSecret :: "env_var \<Rightarrow> (string \<times> string) list" where
  "envSecret (v, EnvSecretKey s k _) = [(v, s)]"
| "envSecret (v, EnvValue _) = []"

definition secretsRead :: "container \<Rightarrow> (string \<times> string) list" where
  "secretsRead c = concat (map envSecret (ctrEnv c))"

lemma odooEnv_secrets:
  "(v, s) \<in> set (concat (map envSecret (buildOdooEnv spec))) \<Longrightarrow>
     v \<in> {envPGPassword, envDBPassword} \<and> s = pgPasswordSecret (instPostgres spec)"
  by (auto simp: buildOdooEnv_def secretKeyEnv_def secretKeyRef_def split: if_splits)

lemma odooEnv_literals:
  "concat (map envLiteral (buildOdooEnv spec)) = (if pgDatabase (instPostgres spec) \<noteq> '''' then [sslModeRequire] else [])"
  by (cases "pgPasswordSecret (instPostgres spec) = ''''") (simp_all add: buildOdooEnv_def secretKeyEnv_def secretKeyRef_def)

lemma web_clearText:
  "clearText (templSpec (buildPodTemplate ins hashes)) =
     (if adminPasswordRendered (instSpec ins)
      then [''/bin/sh'', ''-c'', renderConfigScript odooConfPath renderedConfPath, ''--config'', renderedConfPath]
      else [''--config'', odooConfPath])
     @ (if pgDatabase (instPostgres (instSpec ins)) \<noteq> '''' then [sslModeRequire] else [])"
  by (simp add: buildPodTemplate_def Let_def withRendered_def odooPodSpec_def clearText_def zeroPodSpec_def webContainer_def
      zeroContainer_def renderConfigContainer_def buildWebArgs_def buildOdooArgs_def odooEnv_literals adminPasswordEnv_def
      secretKeyEnv_def secretKeyRef_def)

lemma web_containers:
  "map ctrName (podContainers (templSpec (buildPodTemplate ins hashes))) = [appOdoo]"
  "map ctrEnv (podContainers (templSpec (buildPodTemplate ins hashes))) = [buildOdooEnv (instSpec ins)]"
  "map ctrEnv (podInitContainers (templSpec (buildPodTemplate ins hashes))) =
     (if adminPasswordRendered (instSpec ins) then [adminPasswordEnv (instSpec ins)] else [])"
  by (simp_all add: buildPodTemplate_def Let_def withRendered_def odooPodSpec_def zeroPodSpec_def webContainer_def
      renderConfigContainer_def zeroContainer_def)

text \<open>The master password reaches a web pod in one place only: as a Secret reference of the render-config init
  container, and exactly when the spec names a Secret. The Odoo container reads no Secret but the database
  password, and nothing a web pod carries in clear depends on the name of a Secret, the configuration or the
  version: the clear text is fixed by whether a master password and a database are set.\<close>

theorem master_password_confined:
  "(\<exists>c\<in>set (podInitContainers (templSpec (buildPodTemplate ins hashes))). (envAdminPasswd, s) \<in> set (secretsRead c))
     = (adminPasswordRendered (instSpec ins) \<and> s = AdminPasswordSecret (instSpec ins))
   \<and> list_all (\<lambda>c. set (secretsRead c) \<subseteq> {envPGPassword, envDBPassword} \<times> {pgPasswordSecret (instPostgres (instSpec ins))})
        (podContainers (templSpec (buildPodTemplate ins hashes)))
   \<and> clearText (templSpec (buildPodTemplate ins hashes)) =
      (if adminPasswordRendered (instSpec ins)
       then [''/bin/sh'', ''-c'', renderConfigScript odooConfPath renderedConfPath, ''--config'', renderedConfPath]
       else [''--config'', odooConfPath])
      @ (if pgDatabase (instPostgres (instSpec ins)) \<noteq> '''' then [sslModeRequire] else [])"
proof (intro conjI)
  have "(\<exists>c\<in>set (podInitContainers (templSpec (buildPodTemplate ins hashes))). (v, s) \<in> set (secretsRead c))
      = (\<exists>e\<in>set (map ctrEnv (podInitContainers (templSpec (buildPodTemplate ins hashes)))).
          (v, s) \<in> set (concat (map envSecret e)))" for v
    by (simp add: secretsRead_def)
  then show "(\<exists>c\<in>set (podInitContainers (templSpec (buildPodTemplate ins hashes))). (envAdminPasswd, s) \<in> set (secretsRead c))
     = (adminPasswordRendered (instSpec ins) \<and> s = AdminPasswordSecret (instSpec ins))"
    unfolding web_containers by (auto simp: adminPasswordEnv_def secretKeyEnv_def secretKeyRef_def)
  have "\<forall>e\<in>set (map ctrEnv (podContainers (templSpec (buildPodTemplate ins hashes)))).
      set (concat (map envSecret e)) \<subseteq> {envPGPassword, envDBPassword} \<times> {pgPasswordSecret (instPostgres (instSpec ins))}"
    unfolding web_containers using odooEnv_secrets by fastforce
  then show "list_all (\<lambda>c. set (secretsRead c) \<subseteq> {envPGPassword, envDBPassword} \<times> {pgPasswordSecret (instPostgres (instSpec ins))})
      (podContainers (templSpec (buildPodTemplate ins hashes)))"
    by (simp add: list_all_iff secretsRead_def)
qed (rule web_clearText)

end
