(* ===== verification/Instance_Cron.thy ===== *)
theory Instance_Cron
  imports Instance_Workload Events Kube_Reference
begin

text \<open>
  \<open>odooinstance_cron.go\<close>, and \<open>cronCondition\<close> of \<open>conditions.go\<close>: the dedicated cron Deployment of an instance with
  \<open>spec.cron\<close> enabled, and its removal otherwise. Its pods share everything with the web pods but the
  container's arguments, ports and probes.
\<close>

abbreviation (input) "appOdooCron \<equiv> ''odoo-cron''"
abbreviation (input) "labelComponent \<equiv> ''app.kubernetes.io/component''"
abbreviation (input) "componentCron \<equiv> ''cron''"
definition defaultMaxCronThreads :: int where "defaultMaxCronThreads = 2"

record cronOutcome =
  coEnabled :: bool
  coDeployFound :: bool
  coHeld :: bool
  coReplicas :: int
  coReady :: int
  coEvents :: "statusEvent list"

definition zeroCronOutcome :: cronOutcome where
  "zeroCronOutcome = \<lparr>coEnabled = False, coDeployFound = False, coHeld = False, coReplicas = 0, coReady = 0, coEvents = []\<rparr>"

section \<open>The cron pods\<close>

definition cronDeploymentName :: "string \<Rightarrow> string" where
  "cronDeploymentName instanceName = instanceName @ ''-cron''"

definition cronSelectorLabels :: "string \<Rightarrow> strmap" where
  "cronSelectorLabels instanceName = [(labelApp, appOdooCron), (labelInstance, instanceName)]"

definition cronPodLabels :: "string \<Rightarrow> strmap" where
  "cronPodLabels instanceName = cronSelectorLabels instanceName
     @ [(labelAppName, appOdoo), (labelAppInstance, instanceName), (labelManagedBy, managedByOperator),
        (labelComponent, componentCron)]"

definition cronMaxThreads :: "instance_spec \<Rightarrow> int" where
  "cronMaxThreads spec =
     (case instCron spec of
        None \<Rightarrow> defaultMaxCronThreads
      | Some c \<Rightarrow> (case MaxCronThreads c of None \<Rightarrow> defaultMaxCronThreads | Some n \<Rightarrow> n))"

definition cronResources :: "instance_spec \<Rightarrow> resources" where
  "cronResources spec =
     (case instCron spec of
        None \<Rightarrow> odooResources spec
      | Some c \<Rightarrow>
          (case cronRes c of
             None \<Rightarrow> odooResources spec
           | Some r \<Rightarrow> if resRequests r \<noteq> None \<or> resLimits r \<noteq> None then r else odooResources spec))"

definition cronReplicas :: "bool \<Rightarrow> int" where
  "cronReplicas held = (if held then 0 else 1)"

definition buildCronArgs :: "odoo_instance \<Rightarrow> string list" where
  "buildCronArgs ins = buildOdooArgs @ [''--no-http'', ''--max-cron-threads='' @ intDec (cronMaxThreads (instSpec ins))]"

definition buildCronPodTemplate :: "odoo_instance \<Rightarrow> rolloutHashes \<Rightarrow> pod_template" where
  "buildCronPodTemplate ins hashes =
     \<lparr>templLabels = cronPodLabels (metaName (instMeta ins)), templAnnotations = podAnnotations hashes,
      templSpec = odooPodSpec ins
        (zeroContainer\<lparr>ctrName := appOdoo, ctrArgs := buildCronArgs ins, ctrResources := cronResources (instSpec ins)\<rparr>)
        (colocationAffinity (metaName (instMeta ins)) (instSpec ins))\<rparr>"

section \<open>Reconciling it\<close>

text \<open>
  A Deployment as the code starts \<open>CreateOrUpdate\<close> with it: the name and the namespace only. What comes back is the
  object the library left in place, of which the status is read.
\<close>

definition emptyTemplate :: pod_template where
  "emptyTemplate = \<lparr>templLabels = [], templAnnotations = [], templSpec = zeroPodSpec\<rparr>"

definition newDeployment :: "string \<Rightarrow> string \<Rightarrow> deployment" where
  "newDeployment name ns = \<lparr>depMeta = newMeta name ns, depReplicas = None, depSelector = [], depStrategy = RollingUpdate 0 0,
     depTemplate = emptyTemplate, depStatusReplicas = 0, depReadyReplicas = 0\<rparr>"

definition cronMutate :: "'m kubelib_scheme \<Rightarrow> odoo_instance \<Rightarrow> rolloutHashes \<Rightarrow> int \<Rightarrow> deployment \<Rightarrow> goerr + deployment" where
  "cronMutate L ins hashes replicas d =
     (case SetControllerReference L (instMeta ins) (depMeta d) of
        Inl e \<Rightarrow> Inl e
      | Inr m \<Rightarrow> Inr (d\<lparr>depMeta := m\<lparr>metaLabels := cronPodLabels (metaName (instMeta ins))\<rparr>, depReplicas := Some replicas,
          depSelector := cronSelectorLabels (metaName (instMeta ins)), depStrategy := Recreate,
          depTemplate := buildCronPodTemplate ins hashes\<rparr>))"

definition reconcileCronDeployment ::
  "'w cluster \<Rightarrow> odoo_instance \<Rightarrow> rolloutHashes \<Rightarrow> int \<Rightarrow> ('w, goerr + op_result \<times> deployment option) prog" where
  "reconcileCronDeployment C ins hashes replicas =
     ask C (UpsertDeployment (newDeployment (cronDeploymentName (metaName (instMeta ins))) (metaNamespace (instMeta ins)))
       (cronMutate C ins hashes replicas)) upsertReply"

definition deleteCronDeployment :: "'w cluster \<Rightarrow> odoo_instance \<Rightarrow> ('w, goerr + bool) prog" where
  "deleteCronDeployment C ins = do {
     r \<leftarrow> getDeployment C (metaNamespace (instMeta ins), cronDeploymentName (metaName (instMeta ins)));
     case r of
       Inl e \<Rightarrow> State_Monad.return (case ignoreNotFound (Some e) of Some e' \<Rightarrow> Inl e' | None \<Rightarrow> Inr False)
     | Inr d \<Rightarrow>
         if \<not> IsControlledBy C (depMeta d) (instMeta ins) then State_Monad.return (Inr False)
         else do {
           err \<leftarrow> doCall C (Delete (ODeployment d) None);
           State_Monad.return (case ignoreNotFound err of Some e \<Rightarrow> Inl e | None \<Rightarrow> Inr True)
         }
   }"

definition reconcileCron :: "'w cluster \<Rightarrow> odoo_instance \<Rightarrow> rolloutHashes \<Rightarrow> bool \<Rightarrow> ('w, goerr + cronOutcome) prog" where
  "reconcileCron C ins hashes held =
     (let name = cronDeploymentName (metaName (instMeta ins)) in
      if \<not> cronEnabled (instSpec ins) then do {
        r \<leftarrow> deleteCronDeployment C ins;
        State_Monad.return (case r of
          Inl e \<Rightarrow> Inl e
        | Inr deleted \<Rightarrow> Inr (zeroCronOutcome\<lparr>coEvents :=
            (if deleted then [\<lparr>evType = EventTypeNormal, evReason = ''CronDisabled'', evAction = ''Cron'',
               evMessage = ''Deployment '' @ goQuote name @ '' deleted; the web pods run the scheduled actions again'',
               RelatedUpgrade = ''''\<rparr>] else [])\<rparr>))
      }
      else do {
        r \<leftarrow> reconcileCronDeployment C ins hashes (cronReplicas held);
        State_Monad.return (case r of
          Inl e \<Rightarrow> Inl e
        | Inr (result, d) \<Rightarrow> Inr \<lparr>coEnabled = True, coDeployFound = True, coHeld = held,
            coReplicas = (case d of Some x \<Rightarrow> depStatusReplicas x | None \<Rightarrow> 0),
            coReady = (case d of Some x \<Rightarrow> depReadyReplicas x | None \<Rightarrow> 0),
            coEvents = (if result = OpCreated then [\<lparr>evType = EventTypeNormal, evReason = ''CronEnabled'', evAction = ''Cron'',
              evMessage = ''Deployment '' @ goQuote name @ '' created with '' @ intDec (cronMaxThreads (instSpec ins))
                @ '' cron worker(s); the web pods run no cron workers'',
              RelatedUpgrade = ''''\<rparr>] else [])\<rparr>)
      })"

definition cronCondition :: "cronOutcome \<Rightarrow> condition" where
  "cronCondition cron =
     (if \<not> coDeployFound cron then newCondition ConditionTypeCronReady condFalse ReasonCronPending ''cron Deployment not created yet''
      else if coReplicas cron = 0 \<and> coHeld cron then newCondition ConditionTypeCronReady condFalse ReasonCronPending
        ''no cron pod yet; pods stay at 0 replicas while the database is initialised''
      else if coReplicas cron = 0 then newCondition ConditionTypeCronReady condFalse ReasonCronPending
        ''no cron pod yet; with ReadWriteOnce volumes it starts once a web pod runs on the same node''
      else if coReady cron < 1 then newCondition ConditionTypeCronReady condFalse ReasonCronNotReady
        (''cron pod not ready: '' @ intDec (coReady cron) @ ''/'' @ intDec (coReplicas cron) @ '' replicas ready'')
      else newCondition ConditionTypeCronReady condTrue ReasonCronRunning ''cron pod ready'')"

definition applyCronCondition :: "'m kubelib_scheme \<Rightarrow> condition list \<Rightarrow> int \<Rightarrow> cronOutcome \<Rightarrow> condition list" where
  "applyCronCondition L conds gen cron =
     (if \<not> coEnabled cron then RemoveStatusCondition L conds ConditionTypeCronReady
      else setConditions L conds gen [cronCondition cron])"

section \<open>What the cron pods guarantee\<close>

lemma cronTemplate_hardened: "podHardened (templSpec (buildCronPodTemplate ins hashes))"
  by (simp add: buildCronPodTemplate_def podSpec_hardened)

lemma cron_not_selected:
  "\<not> labelSelects (selectorLabels n) (cronPodLabels m)" "\<not> labelSelects (cronSelectorLabels n) (podLabels m)"
  "\<not> labelSelects (podLabels n) (cronPodLabels m)" "labelSelects (cronSelectorLabels n) (cronPodLabels n)"
  by (simp_all add: labelSelects_def selectorLabels_def cronPodLabels_def cronSelectorLabels_def podLabels_def)

lemma colocation_matches:
  "colocationAffinity n spec = Some (sel, key) \<Longrightarrow>
     key = nodeHostLabel \<and> labelSelects sel (podLabels n) \<and> labelSelects sel (cronPodLabels n)"
  by (auto simp: colocationAffinity_def labelSelects_def podLabels_def selectorLabels_def cronPodLabels_def cronSelectorLabels_def
      split: if_splits)

lemma templates_affinity:
  "podAffinity (templSpec (buildPodTemplate ins hashes)) = colocationAffinity (metaName (instMeta ins)) (instSpec ins)"
  "podAffinity (templSpec (buildCronPodTemplate ins hashes)) = colocationAffinity (metaName (instMeta ins)) (instSpec ins)"
  by (simp_all add: buildPodTemplate_def buildCronPodTemplate_def Let_def withRendered_def odooPodSpec_def)

lemma template_parts:
  "templLabels (buildPodTemplate ins hashes) = podLabels (metaName (instMeta ins))"
  "templLabels (buildCronPodTemplate ins hashes) = cronPodLabels (metaName (instMeta ins))"
  "templAnnotations (buildPodTemplate ins hashes) = podAnnotations hashes"
  "templAnnotations (buildCronPodTemplate ins hashes) = podAnnotations hashes"
  "podInitContainers (templSpec (buildCronPodTemplate ins hashes)) = []"
  "map ctrArgs (podContainers (templSpec (buildCronPodTemplate ins hashes))) = [buildCronArgs ins]"
  by (simp_all add: buildPodTemplate_def buildCronPodTemplate_def Let_def odooPodSpec_def zeroPodSpec_def)

lemma podAnnotations_inj: "podAnnotations h = podAnnotations h' \<longleftrightarrow> h = h'"
  by (auto simp: podAnnotations_def intro: rolloutHashes.equality)

text \<open>Both templates carry the same required affinity term, which both kinds of pods satisfy for each other.\<close>

definition colocated :: "odoo_instance \<Rightarrow> rolloutHashes \<Rightarrow> bool" where
  "colocated ins hashes \<longleftrightarrow>
     podAffinity (templSpec (buildPodTemplate ins hashes)) = podAffinity (templSpec (buildCronPodTemplate ins hashes))
     \<and> (case podAffinity (templSpec (buildPodTemplate ins hashes)) of
          None \<Rightarrow> dvAccessMode (instData (instSpec ins)) = ReadWriteMany \<and> avAccessMode (instAddons (instSpec ins)) = ReadWriteMany
        | Some (sel, key) \<Rightarrow> key = nodeHostLabel
            \<and> labelSelects sel (templLabels (buildPodTemplate ins hashes))
            \<and> labelSelects sel (templLabels (buildCronPodTemplate ins hashes)))"

lemma colocated: "colocated ins hashes"
proof (cases "colocationAffinity (metaName (instMeta ins)) (instSpec ins)")
  case None
  then have "\<not> needsColocation (instSpec ins)" by (simp add: colocationAffinity_def split: if_splits)
  with None show ?thesis by (simp add: colocated_def templates_affinity needsColocation_def)
next
  case (Some a)
  with colocation_matches [of "metaName (instMeta ins)" "instSpec ins" "fst a" "snd a"] show ?thesis
    by (simp add: colocated_def templates_affinity template_parts split_def)
qed

text \<open>Web and cron pods roll together and never mix: their templates carry the same rollout annotations, which
  differ exactly if one of the three hashes does; the selector of the Service and of the web Deployment matches
  the web pods of that instance and no cron pod, the cron selector matches no web pod; on a volume that is not
  ReadWriteMany both are bound to one node by the same affinity term. The cron pod reads the plain
  configuration, so it gets no master password, and both are hardened.\<close>

theorem web_cron_together:
  "templAnnotations (buildPodTemplate ins hashes) = templAnnotations (buildCronPodTemplate ins hashes)
   \<and> (templAnnotations (buildPodTemplate ins hashes) = templAnnotations (buildPodTemplate ins' hashes') \<longleftrightarrow> hashes = hashes')
   \<and> labelSelects (selectorLabels n) (templLabels (buildPodTemplate ins hashes)) = (n = metaName (instMeta ins))
   \<and> \<not> labelSelects (selectorLabels n) (templLabels (buildCronPodTemplate ins hashes))
   \<and> \<not> labelSelects (cronSelectorLabels n) (templLabels (buildPodTemplate ins hashes))
   \<and> colocated ins hashes
   \<and> podInitContainers (templSpec (buildCronPodTemplate ins hashes)) = []
   \<and> list_all (\<lambda>a. take 2 a = [''--config'', odooConfPath]) (map ctrArgs (podContainers (templSpec (buildCronPodTemplate ins hashes))))
   \<and> podHardened (templSpec (buildPodTemplate ins hashes)) \<and> podHardened (templSpec (buildCronPodTemplate ins hashes))"
  unfolding template_parts
  by (simp add: colocated webTemplate_hardened cronTemplate_hardened podLabels_selected cron_not_selected podAnnotations_inj
      buildCronArgs_def buildOdooArgs_def)

section \<open>The cron condition\<close>

text \<open>The CronReady condition exists exactly while cron is enabled, is true exactly if a cron pod is ready, and
  setting it touches no other condition, so it never changes Ready or Degraded.\<close>

theorem cron_condition_tracks:
  assumes "lawfulConditions L"
  shows "(case FindStatusCondition L (applyCronCondition L conds gen cron) ConditionTypeCronReady of
            None \<Rightarrow> \<not> coEnabled cron
          | Some c \<Rightarrow> coEnabled cron \<and> condGeneration c = gen
              \<and> (condStatus c = condTrue \<longleftrightarrow> coDeployFound cron \<and> coReplicas cron \<noteq> 0 \<and> coReady cron \<ge> 1))
    \<and> (FindStatusCondition L (applyCronCondition L conds gen cron) t = FindStatusCondition L conds t \<or> t = ConditionTypeCronReady)"
  using assms
  by (auto simp: lawfulConditions_def applyCronCondition_def setConditions_def cronCondition_def newCondition_def)

theorem cron_condition_tracks_witness:
  "FindStatusCondition refLib (applyCronCondition refLib [] 7 (zeroCronOutcome\<lparr>coEnabled := True\<rparr>)) ''Ready'' = None"
  using conjunct2 [OF cron_condition_tracks [OF lawfulConditions_ref,
      where conds = "[]" and gen = 7 and cron = "zeroCronOutcome\<lparr>coEnabled := True\<rparr>" and t = "''Ready''"]]
  by (simp add: refLib_def refFind_def)

section \<open>Frames\<close>

text \<open>The cron Deployment is the only object touched, and it is deleted only if the instance controls it.\<close>

definition cronCall :: "'m kubelib_scheme \<Rightarrow> odoo_instance \<Rightarrow> rolloutHashes \<Rightarrow> bool \<Rightarrow> req \<Rightarrow> bool" where
  "cronCall L ins hashes held r \<longleftrightarrow>
     (case r of
        Get k key \<Rightarrow> k = KDeployment \<and> \<not> cronEnabled (instSpec ins)
          \<and> key = (metaNamespace (instMeta ins), cronDeploymentName (metaName (instMeta ins)))
      | Delete (ODeployment d) pol \<Rightarrow> \<not> cronEnabled (instSpec ins) \<and> pol = None \<and> IsControlledBy L (depMeta d) (instMeta ins)
      | UpsertDeployment d f \<Rightarrow> cronEnabled (instSpec ins)
          \<and> d = newDeployment (cronDeploymentName (metaName (instMeta ins))) (metaNamespace (instMeta ins))
          \<and> f = cronMutate L ins hashes (cronReplicas held)
      | _ \<Rightarrow> False)"

lemma only_reconcileCron: "only (cronCall C ins hashes held) (reconcileCron C ins hashes held)"
  unfolding reconcileCron_def deleteCronDeployment_def reconcileCronDeployment_def call_defs Let_def
  by (auto intro!: frame_intros simp: cronCall_def)

end
