(* ===== verification/Instance_Controller.thy ===== *)
theory Instance_Controller
  imports Instance_Storage Instance_Init Instance_Cron
begin

text \<open>
  \<open>odooinstance_controller.go\<close>: the reconciler of OdooInstance. A pass reads the cluster, writes the children of the
  instance in a fixed order and its status once at the end. The Go code works on one instance object in
  place; here the pass hands the object on, so that the error path finds the status as far as it was filled.
\<close>

abbreviation (input) "finalizerOdooInstance \<equiv> ''odoo.operator.io/instance-finalizer''"
definition conflictRequeue :: int where "conflictRequeue = second"

section \<open>Results\<close>

definition isConflict :: "goerr \<Rightarrow> bool" where
  "isConflict e = isApiConflict e"

definition conflictResult :: "goerr \<Rightarrow> outcome" where
  "conflictResult e = (if isConflict e then (conflictRequeue, None) else (0, Some e))"

type_synonym passResult = "outcome \<times> odoo_instance"

text \<open>The early returns of a pass: the error and the instance as it stands.\<close>

definition orStop :: "odoo_instance \<Rightarrow> ('w, goerr + 'a) prog \<Rightarrow> ('a \<Rightarrow> ('w, passResult) prog) \<Rightarrow> ('w, passResult) prog" where
  "orStop ins m k = do {
     r \<leftarrow> m;
     case r of Inl e \<Rightarrow> State_Monad.return ((0, Some e), ins) | Inr a \<Rightarrow> k a
   }"

definition orStopErr :: "odoo_instance \<Rightarrow> ('w, goerr option) prog \<Rightarrow> ('w, passResult) prog \<Rightarrow> ('w, passResult) prog" where
  "orStopErr ins m k = do {
     r \<leftarrow> m;
     case r of Some e \<Rightarrow> State_Monad.return ((0, Some e), ins) | None \<Rightarrow> k
   }"

section \<open>What a pass reads\<close>

fun readSecrets :: "'w cluster \<Rightarrow> string \<Rightarrow> (string \<times> string) list \<Rightarrow> ('w, goerr + secret list) prog" where
  "readSecrets C ns [] = State_Monad.return (Inr [])"
| "readSecrets C ns ((field, name) # refs) =
     (if name = '''' then readSecrets C ns refs
      else do {
        r \<leftarrow> getSecret C (ns, name);
        case r of
          Inl e \<Rightarrow> State_Monad.return (Inl
            (if isNotFound e then missingSecret name field ns else WrapError (''get secret '' @ goQuote name @ '': '') e))
        | Inr s \<Rightarrow> do {
            q \<leftarrow> readSecrets C ns refs;
            State_Monad.return (case q of Inl e \<Rightarrow> Inl e | Inr ss \<Rightarrow> Inr (s # ss))
          }
      })"

definition referencedSecrets :: "'w cluster \<Rightarrow> odoo_instance \<Rightarrow> ('w, goerr + secret list) prog" where
  "referencedSecrets C ins = readSecrets C (metaNamespace (instMeta ins))
     [(''spec.postgres.passwordSecret'', pgPasswordSecret (instPostgres (instSpec ins))),
      (''spec.adminPasswordSecret'', AdminPasswordSecret (instSpec ins))]"

definition listReadyAddons :: "'w cluster \<Rightarrow> odoo_instance \<Rightarrow> ('w, goerr + addon list) prog" where
  "listReadyAddons C ins = do {
     r \<leftarrow> listAddons C (metaNamespace (instMeta ins));
     State_Monad.return (case r of Inl e \<Rightarrow> Inl e | Inr items \<Rightarrow> Inr (filterReadyAddons items (metaName (instMeta ins))))
   }"

section \<open>What a pass writes\<close>

definition upsertErr :: "resp \<Rightarrow> goerr option" where
  "upsertErr p = (case upsertReply p of Inl e \<Rightarrow> Some e | Inr _ \<Rightarrow> None)"

definition configMapMutate :: "'m kubelib_scheme \<Rightarrow> odoo_instance \<Rightarrow> string \<Rightarrow> configmap \<Rightarrow> goerr + configmap" where
  "configMapMutate L ins conf cm =
     (case SetControllerReference L (instMeta ins) (cmMeta cm) of
        Inl e \<Rightarrow> Inl e
      | Inr m \<Rightarrow> Inr (cm\<lparr>cmMeta := m, cmData := [(confFileName, conf)]\<rparr>))"

definition reconcileConfigMap :: "'w cluster \<Rightarrow> odoo_instance \<Rightarrow> string \<Rightarrow> ('w, goerr option) prog" where
  "reconcileConfigMap C ins conf =
     ask C (UpsertConfigMap \<lparr>cmMeta = newMeta (configMapName (metaName (instMeta ins))) (metaNamespace (instMeta ins)), cmData = []\<rparr>
       (configMapMutate C ins conf)) upsertErr"

definition webMutate :: "'m kubelib_scheme \<Rightarrow> odoo_instance \<Rightarrow> rolloutHashes \<Rightarrow> int \<Rightarrow> deployment \<Rightarrow> goerr + deployment" where
  "webMutate L ins hashes replicas d =
     (case SetControllerReference L (instMeta ins) (depMeta d) of
        Inl e \<Rightarrow> Inl e
      | Inr m \<Rightarrow> Inr (d\<lparr>depMeta := m\<lparr>metaLabels := podLabels (metaName (instMeta ins))\<rparr>, depReplicas := Some replicas,
          depSelector := selectorLabels (metaName (instMeta ins)),
          depStrategy := deploymentStrategy (desiredReplicas (instSpec ins)) (dvAccessMode (instData (instSpec ins))),
          depTemplate := buildPodTemplate ins hashes\<rparr>))"

definition reconcileDeployment :: "'w cluster \<Rightarrow> odoo_instance \<Rightarrow> rolloutHashes \<Rightarrow> int \<Rightarrow> ('w, goerr option) prog" where
  "reconcileDeployment C ins hashes replicas =
     ask C (UpsertDeployment (newDeployment (metaName (instMeta ins)) (metaNamespace (instMeta ins)))
       (webMutate C ins hashes replicas)) upsertErr"

definition deletePDBIfOwned :: "'w cluster \<Rightarrow> odoo_instance \<Rightarrow> ('w, goerr option) prog" where
  "deletePDBIfOwned C ins = do {
     r \<leftarrow> getPDB C (metaNamespace (instMeta ins), metaName (instMeta ins));
     case r of
       Inl e \<Rightarrow> State_Monad.return (ignoreNotFound (Some e))
     | Inr p \<Rightarrow>
         if \<not> IsControlledBy C (pdbMeta p) (instMeta ins) then State_Monad.return None
         else do {
           err \<leftarrow> doCall C (Delete (OPDB p) None);
           State_Monad.return (ignoreNotFound err)
         }
   }"

definition pdbMutate :: "'m kubelib_scheme \<Rightarrow> odoo_instance \<Rightarrow> pdb \<Rightarrow> goerr + pdb" where
  "pdbMutate L ins p =
     (case SetControllerReference L (instMeta ins) (pdbMeta p) of
        Inl e \<Rightarrow> Inl e
      | Inr m \<Rightarrow> Inr (p\<lparr>pdbMeta := m, pdbMinAvailable := None, pdbMaxUnavailable := Some 1,
          pdbSelector := podLabels (metaName (instMeta ins))\<rparr>))"

definition reconcilePDB :: "'w cluster \<Rightarrow> odoo_instance \<Rightarrow> ('w, goerr option) prog" where
  "reconcilePDB C ins =
     (if desiredReplicas (instSpec ins) \<le> 1 then deletePDBIfOwned C ins
      else ask C (UpsertPDB \<lparr>pdbMeta = newMeta (metaName (instMeta ins)) (metaNamespace (instMeta ins)),
          pdbMinAvailable = None, pdbMaxUnavailable = None, pdbSelector = []\<rparr> (pdbMutate C ins)) upsertErr)"

definition serviceMutate :: "'m kubelib_scheme \<Rightarrow> odoo_instance \<Rightarrow> service \<Rightarrow> goerr + service" where
  "serviceMutate L ins s =
     (case SetControllerReference L (instMeta ins) (svcMeta s) of
        Inl e \<Rightarrow> Inl e
      | Inr m \<Rightarrow> Inr (s\<lparr>svcMeta := m, svcType := ''ClusterIP'', svcSelector := selectorLabels (metaName (instMeta ins)),
          svcPorts := buildServicePorts\<rparr>))"

definition reconcileService :: "'w cluster \<Rightarrow> odoo_instance \<Rightarrow> ('w, goerr option) prog" where
  "reconcileService C ins =
     ask C (UpsertService \<lparr>svcMeta = newMeta (metaName (instMeta ins)) (metaNamespace (instMeta ins)), svcType = '''',
       svcSelector = [], svcPorts = []\<rparr> (serviceMutate C ins)) upsertErr"

section \<open>The status at the end of a pass\<close>

definition finishStatus ::
  "'m kubelib_scheme \<Rightarrow> odoo_instance \<Rightarrow> addon list \<Rightarrow> gateDecision \<Rightarrow> initDecision \<Rightarrow> cronOutcome \<Rightarrow> goerr + deployment
    \<Rightarrow> int \<times> odoo_instance" where
  "finishStatus L ins addons gate dec cron r =
     (let desired = desiredReplicas (instSpec ins);
          gen = metaGeneration (instMeta ins);
          found = (case r of Inr _ \<Rightarrow> True | Inl _ \<Rightarrow> False);
          ready = (case r of Inr d \<Rightarrow> depReadyReplicas d | Inl _ \<Rightarrow> 0);
          running = (found \<and> ready \<ge> desired);
          phase1 = (if gdPhase gate \<noteq> '''' then gdPhase gate else if running then phaseRunning else phaseCreating);
          phase = (if idPending dec then idPhase dec else phase1);
          isReady = (if idPending dec \<or> gdPhase gate = gatePhaseUpgradeFailed then False else running);
          requeue = (if idPhase dec = phaseInitFailed then initFailedRequeue
                     else if gdPhase gate = gatePhaseUpgradeFailed then gateFailedRequeue else 0);
          conds = setConditions L (applyCronCondition L (instConds (instStatus ins)) gen cron) gen
            (instanceConditions \<lparr>factPhase = phase, DeploymentFound = found, ReadyReplicas = ready, DesiredReplicas = desired,
               factActiveUpgrade = ActiveUpgrade (instStatus ins), UpgradeMessage = gdUpgradeMessage gate,
               factInitUpgrade = InitUpgrade (instStatus ins), InitMessage = idFailMessage dec,
               ErrReason = '''', ErrMessage = ''''\<rparr>) in
      (requeue, ins\<lparr>instStatus := (instStatus ins)\<lparr>AddonPaths := addonMountPaths addons, instPhase := phase,
         instReady := isReady, instConds := conds, instMessage := instanceSummary L conds\<rparr>\<rparr>))"

section \<open>A pass\<close>

definition startPass :: "odoo_instance \<Rightarrow> odoo_instance" where
  "startPass ins = ins\<lparr>instStatus := (instStatus ins)\<lparr>instPhase := phaseCreating,
     instObservedGeneration := metaGeneration (instMeta ins)\<rparr>\<rparr>"

definition recordInit :: "odoo_instance \<Rightarrow> initDecision \<Rightarrow> odoo_instance" where
  "recordInit ins dec = ins\<lparr>instStatus := (instStatus ins)\<lparr>Initialized := idInitialized dec, InitUpgrade := idUpgradeName dec\<rparr>\<rparr>"

definition chooseAddons ::
  "'w cluster \<Rightarrow> odoo_instance \<Rightarrow> initDecision \<Rightarrow> string \<Rightarrow> ('w, goerr + gateDecision \<times> odoo_instance) prog" where
  "chooseAddons C ins dec current =
     (if idPending dec then State_Monad.return (Inr (initHoldGate ins current)) else gateAddonsRollout C ins current)"

text \<open>The workload: the web Deployment, the disruption budget, the Service and the cron Deployment, in this order.\<close>

definition reconcileWorkload ::
  "'w cluster \<Rightarrow> odoo_instance \<Rightarrow> rolloutHashes \<Rightarrow> bool \<Rightarrow> ('w, goerr + cronOutcome) prog" where
  "reconcileWorkload C ins hashes pending = do {
     e1 \<leftarrow> reconcileDeployment C ins hashes (if pending then 0 else desiredReplicas (instSpec ins));
     case e1 of Some e \<Rightarrow> State_Monad.return (Inl e) | None \<Rightarrow> do {
       e2 \<leftarrow> reconcilePDB C ins;
       case e2 of Some e \<Rightarrow> State_Monad.return (Inl e) | None \<Rightarrow> do {
         e3 \<leftarrow> reconcileService C ins;
         case e3 of Some e \<Rightarrow> State_Monad.return (Inl e) | None \<Rightarrow> reconcileCron C ins hashes pending
       }
     }
   }"

definition writeInstanceStatus ::
  "'w cluster \<Rightarrow> instance_status \<Rightarrow> odoo_instance \<Rightarrow> int \<Rightarrow> gateDecision \<Rightarrow> initDecision \<Rightarrow> cronOutcome \<Rightarrow> ('w, passResult) prog" where
  "writeInstanceStatus C before ins requeue gate dec cron = do {
     err \<leftarrow> updateStatus C (OInstance ins);
     case err of
       Some e \<Rightarrow> State_Monad.return ((requeue, Some e), ins)
     | None \<Rightarrow> do {
         _ \<leftarrow> emitEvents C (OInstance ins)
           (instanceEvents C before (instStatus ins) (gdSucceededUpgrade gate) @ initEvents dec @ coEvents cron);
         State_Monad.return ((requeue, None), ins)
       }
   }"

text \<open>The second half of a pass, once the addons revision is chosen: the workload, then the status.\<close>

definition finishPass ::
  "'w cluster \<Rightarrow> instance_status \<Rightarrow> string \<Rightarrow> secret list \<Rightarrow> addon list \<Rightarrow> initDecision \<Rightarrow> gateDecision \<times> odoo_instance
    \<Rightarrow> ('w, passResult) prog" where
  "finishPass C before conf secrets addons dec choice =
     (let gate = fst choice; ins = snd choice in
      orStop ins (reconcileWorkload C ins
          \<lparr>rhConfig = configHash conf, rhSecrets = secretsHash secrets, rhAddons = gdTemplateHash gate\<rparr> (idPending dec)) (\<lambda>cron.
        do {
          r \<leftarrow> getDeployment C (metaNamespace (instMeta ins), metaName (instMeta ins));
          (case finishStatus C ins addons gate dec cron r of
             (requeue, ins') \<Rightarrow> writeInstanceStatus C before ins' requeue gate dec cron)
        }))"

definition reconcileOdooInstance :: "'w cluster \<Rightarrow> odoo_instance \<Rightarrow> ('w, passResult) prog" where
  "reconcileOdooInstance C ins0 =
     (let ins = startPass ins0 in
      orStopErr ins (reconcilePVC C ins) (
      orStop ins (State_Monad.return (case renderOdooConf (instSpec ins) of
          Inl e \<Rightarrow> Inl (withReason ReasonInvalidConfig e) | Inr conf \<Rightarrow> Inr conf)) (\<lambda>conf.
      orStopErr ins (reconcileConfigMap C ins conf) (
      orStop ins (referencedSecrets C ins) (\<lambda>secrets.
      orStop ins (listReadyAddons C ins) (\<lambda>addons.
      orStop ins (decideInitialization C ins) (\<lambda>dec.
      orStop (recordInit ins dec) (chooseAddons C (recordInit ins dec) dec (addonsHash addons))
        (finishPass C (instStatus ins0) conf secrets addons dec))))))))"

section \<open>The reconciler\<close>

definition handleFinalizer :: "'w cluster \<Rightarrow> odoo_instance \<Rightarrow> ('w, goerr option) prog" where
  "handleFinalizer C ins =
     (if ContainsFinalizer C (instMeta ins) finalizerOdooInstance
      then updateObj C (OInstance (ins\<lparr>instMeta := RemoveFinalizer C (instMeta ins) finalizerOdooInstance\<rparr>))
      else State_Monad.return None)"

definition failedStatus :: "'m kubelib_scheme \<Rightarrow> odoo_instance \<Rightarrow> goerr \<Rightarrow> odoo_instance" where
  "failedStatus L ins e =
     (let conds = setConditions L (instConds (instStatus ins)) (metaGeneration (instMeta ins))
        (instanceConditions \<lparr>factPhase = phaseFailing, DeploymentFound = False, ReadyReplicas = 0, DesiredReplicas = 0,
           factActiveUpgrade = '''', UpgradeMessage = '''', factInitUpgrade = '''', InitMessage = '''',
           ErrReason = reconcileErrorReason e, ErrMessage = errText e\<rparr>) in
      ins\<lparr>instStatus := (instStatus ins)\<lparr>instPhase := phaseFailing, instReady := False, instConds := conds,
        instMessage := instanceSummary L conds\<rparr>\<rparr>)"

definition recordFailure :: "'w cluster \<Rightarrow> odoo_instance \<Rightarrow> odoo_instance \<Rightarrow> goerr \<Rightarrow> ('w, outcome) prog" where
  "recordFailure C before ins e = do {
     serr \<leftarrow> updateStatus C (OInstance (failedStatus C ins e));
     _ \<leftarrow> (case serr of
            Some _ \<Rightarrow> State_Monad.return ()
          | None \<Rightarrow> emitEvents C (OInstance (failedStatus C ins e))
              (instanceEvents C (instStatus before) (instStatus (failedStatus C ins e)) ''''));
     State_Monad.return (0, Some e)
   }"

definition runPass :: "'w cluster \<Rightarrow> odoo_instance \<Rightarrow> ('w, outcome) prog" where
  "runPass C ins = do {
     p \<leftarrow> reconcileOdooInstance C ins;
     (case snd (fst p) of
        None \<Rightarrow> State_Monad.return (fst (fst p), None)
      | Some e \<Rightarrow> if isConflict e then State_Monad.return (conflictResult e) else recordFailure C ins (snd p) e)
   }"

definition instanceReconcile :: "'w cluster \<Rightarrow> nsname \<Rightarrow> ('w, outcome) prog" where
  "instanceReconcile C key = do {
     r \<leftarrow> getInstance C key;
     case r of
       Inl e \<Rightarrow> State_Monad.return (if isNotFound e then (0, None) else (0, Some e))
     | Inr ins \<Rightarrow>
         if metaDeleted (instMeta ins) \<noteq> None then do {
           err \<leftarrow> handleFinalizer C ins;
           State_Monad.return (case err of Some e \<Rightarrow> conflictResult e | None \<Rightarrow> (0, None))
         }
         else if \<not> ContainsFinalizer C (instMeta ins) finalizerOdooInstance then
           (let ins' = ins\<lparr>instMeta := AddFinalizer C (instMeta ins) finalizerOdooInstance\<rparr> in do {
              err \<leftarrow> updateObj C (OInstance ins');
              case err of
                Some e \<Rightarrow> State_Monad.return (conflictResult e)
              | None \<Rightarrow> runPass C ins'
            })
         else runPass C ins
   }"

section \<open>Watches\<close>

definition usesSecret :: "string \<Rightarrow> odoo_instance \<Rightarrow> bool" where
  "usesSecret name ins \<longleftrightarrow> \<not> (pgPasswordSecret (instPostgres (instSpec ins)) \<noteq> name \<and> AdminPasswordSecret (instSpec ins) \<noteq> name)"

definition instancesUsingSecret :: "'w cluster \<Rightarrow> secret \<Rightarrow> ('w, nsname list) prog" where
  "instancesUsingSecret C s = do {
     r \<leftarrow> listInstances C (metaNamespace (secretMeta s));
     State_Monad.return (case r of
       Inl _ \<Rightarrow> []
     | Inr items \<Rightarrow> map (\<lambda>ins. (metaNamespace (instMeta ins), metaName (instMeta ins)))
         (filter (usesSecret (metaName (secretMeta s))) items))
   }"

text \<open>The instance an OdooAddon belongs to.\<close>

definition instanceOfAddon :: "addon \<Rightarrow> nsname list" where
  "instanceOfAddon a =
     (if refName (addonInstanceRef (addonSpec a)) = '''' then []
      else [(metaNamespace (addonMeta a), refName (addonInstanceRef (addonSpec a)))])"

end
