(* ===== verification/Instance_Safety.thy ===== *)
theory Instance_Safety
  imports Instance_Controller
begin

text \<open>
  What a whole pass over an OdooInstance guarantees: when pods may run, on which revision of the addons, which objects a
  pass may touch, and how errors end up in the status.
\<close>

section \<open>When pods may run\<close>

definition databaseReady :: "odoo_instance \<Rightarrow> history \<Rightarrow> bool" where
  "databaseReady ins h \<longleftrightarrow> \<not> wantsInit ins \<or> initSeen ins UpgradePhaseSucceeded h \<or> (initAbsent ins h \<and> podsLive ins h)"

definition revisionAllowed :: "odoo_instance \<Rightarrow> history \<Rightarrow> string \<Rightarrow> bool" where
  "revisionAllowed ins h rv \<longleftrightarrow> \<not> gated ins \<or> rv = AppliedAddonsHash (instStatus ins) \<or> upgradeSeen ins rv h"

text \<open>
  A Deployment a pass writes, whatever it is applied to: it runs no pods, or the database is ready and its pods carry an
  allowed revision.
\<close>

definition podsAllowed :: "odoo_instance \<Rightarrow> history \<Rightarrow> req \<Rightarrow> bool" where
  "podsAllowed ins h r \<longleftrightarrow>
     (case r of
        UpsertDeployment d f \<Rightarrow> \<forall>x y. f x = Inr y \<longrightarrow>
          depReplicas y = Some 0
          \<or> (databaseReady ins h \<and> revisionAllowed ins h (mapGet (templAnnotations (depTemplate y)) annotationAddonsHash))
      | Create (ODeployment d) \<Rightarrow> False
      | Update (ODeployment d) \<Rightarrow> False
      | PatchObj (ODeployment d) _ \<Rightarrow> False
      | _ \<Rightarrow> True)"

definition podsSafe :: "odoo_instance \<Rightarrow> history \<Rightarrow> bool" where
  "podsSafe ins h \<longleftrightarrow> soundCalls (podsAllowed ins) h"

definition quiet :: "req \<Rightarrow> bool" where
  "quiet r \<longleftrightarrow>
     (case r of
        UpsertDeployment _ _ \<Rightarrow> False
      | Create (ODeployment _) \<Rightarrow> False
      | Update (ODeployment _) \<Rightarrow> False
      | PatchObj (ODeployment _) _ \<Rightarrow> False
      | _ \<Rightarrow> True)"

lemma seen_grows:
  assumes "set h \<subseteq> set k"
  shows "initSeen ins ph h \<Longrightarrow> initSeen ins ph k" "podsLive ins h \<Longrightarrow> podsLive ins k" "initAbsent ins h \<Longrightarrow> initAbsent ins k"
    "upgradeSeen ins rv h \<Longrightarrow> upgradeSeen ins rv k" "databaseReady ins h \<Longrightarrow> databaseReady ins k"
    "revisionAllowed ins h rv \<Longrightarrow> revisionAllowed ins k rv"
  using assms by (auto simp: init_reads upgradeSeen_def databaseReady_def revisionAllowed_def)

lemma seen_suffix: "set l \<subseteq> set (h @ l)" "set h \<subseteq> set (h @ l)"
  by auto

lemmas seen_mono = seen_grows(1-3) [OF seen_suffix(1)]
lemmas allowed_mono = seen_grows(5,6) [OF seen_suffix(2)]

interpretation pods: justified_calls "podsAllowed ins" for ins
proof
  fix h k r
  assume "set h \<subseteq> set k" "podsAllowed ins h r"
  then show "podsAllowed ins k r"
    unfolding podsAllowed_def by (auto split: req.splits obj.splits dest: seen_grows)
qed

lemma quiet_allowed: "quiet r \<Longrightarrow> podsAllowed ins h r"
  unfolding podsAllowed_def quiet_def by (auto split: req.splits obj.splits)

lemma podsSafe_append:
  "podsSafe ins h \<Longrightarrow> list_all (\<lambda>c. podsAllowed ins h (fst c)) l \<Longrightarrow> podsSafe ins (h @ l)"
  unfolding podsSafe_def by (rule pods.sound_append)

lemma podsSafe_quiet: "podsSafe ins h \<Longrightarrow> list_all (\<lambda>c. quiet (fst c)) l \<Longrightarrow> podsSafe ins (h @ l)"
  by (rule podsSafe_append) (auto simp: list_all_iff quiet_allowed)

section \<open>The steps of a pass\<close>

lemma only_orStop [frame_intros]: "only P m \<Longrightarrow> (\<And>a. only P (k a)) \<Longrightarrow> only P (orStop ins m k)"
  unfolding orStop_def by (intro frame_intros)

lemma only_orStopErr [frame_intros]: "only P m \<Longrightarrow> only P k \<Longrightarrow> only P (orStopErr ins m k)"
  unfolding orStopErr_def by (intro frame_intros)

lemma wp_orStop [wp_intros]:
  "wp m (\<lambda>r k. case r of Inl e \<Rightarrow> B ((0, Some e), ins) k | Inr a \<Rightarrow> wp (f a) B k) h \<Longrightarrow> wp (orStop ins m f) B h"
  unfolding orStop_def by (rule wp_bind, erule wp_mono) (auto intro!: wp_intros split: sum.splits)

lemma wp_orStopErr [wp_intros]:
  "wp m (\<lambda>r k. case r of Some e \<Rightarrow> B ((0, Some e), ins) k | None \<Rightarrow> wp f B k) h \<Longrightarrow> wp (orStopErr ins m f) B h"
  unfolding orStopErr_def by (rule wp_bind, erule wp_mono) (auto intro!: wp_intros split: option.splits)

lemma only_readSecrets: "(\<And>ns n. P (Get KSecret (ns, n))) \<Longrightarrow> only P (readSecrets C ns refs)"
  by (induction C ns refs rule: readSecrets.induct) (auto simp: call_defs intro!: frame_intros)

lemma quiet_reads [simp]: "quiet (Get k key)" "quiet (ListIn k ns l)" "quiet (UpsertPDB p f)" "quiet (UpsertService s g)"
  "quiet (UpsertConfigMap c m)" "quiet (StatusUpdate x)" "quiet (EmitEvent n)" "quiet (Delete x pol)"
  "quiet (Create (OPVC v))" "quiet (Create (OUpgrade u))" "quiet (PatchObj (OPVC v) y)"
  by (simp_all add: quiet_def)

lemma quiet_parts:
  "only quiet (reconcilePVC C ins)" "only quiet (reconcileConfigMap C ins conf)" "only quiet (referencedSecrets C ins)"
  "only quiet (listReadyAddons C ins)" "only quiet (decideInitialization C ins)" "only quiet (chooseAddons C ins dec current)"
  "only quiet (reconcilePDB C ins)" "only quiet (reconcileService C ins)" "only quiet (deleteCronDeployment C ins)"
  "only quiet (writeInstanceStatus C before ins q gate dec cron)"
  unfolding reconcilePVC_def reconcileSinglePVC_def syncPVCOwnership_def reconcileConfigMap_def referencedSecrets_def
    listReadyAddons_def decideInitialization_def readInitState_def checkInitSecret_def createInitUpgrade_def createOwnedUpgrade_def
    chooseAddons_def gateAddonsRollout_def gateReadUpgrade_def gateApply_def gateCreateUpgrade_def reconcilePDB_def
    deletePDBIfOwned_def reconcileService_def deleteCronDeployment_def writeInstanceStatus_def call_defs Let_def
  by (auto intro!: frame_intros only_readSecrets simp del: readSecrets.simps split: option.split)

text \<open>The instance as a pass hands it on differs from the one it started with in its status only.\<close>

lemma pass_instance [simp]:
  "instMeta (startPass ins) = instMeta ins" "instSpec (startPass ins) = instSpec ins"
  "Initialized (instStatus (startPass ins)) = Initialized (instStatus ins)"
  "AppliedAddonsHash (instStatus (startPass ins)) = AppliedAddonsHash (instStatus ins)"
  "instMeta (recordInit ins dec) = instMeta ins" "instSpec (recordInit ins dec) = instSpec ins"
  "AppliedAddonsHash (instStatus (recordInit ins dec)) = AppliedAddonsHash (instStatus ins)"
  by (simp_all add: startPass_def recordInit_def)

lemma views_cong:
  assumes "instMeta ins' = instMeta ins"
  shows "initSeen ins' = initSeen ins" "podsLive ins' = podsLive ins" "podsAbsent ins' = podsAbsent ins"
    "initAbsent ins' = initAbsent ins" "upgradeSeen ins' = upgradeSeen ins"
  using assms by (simp_all add: fun_eq_iff init_reads upgradeSeen_def deploymentKey_def initUpgradeKey_def)

lemma wantsInit_startPass: "wantsInit (startPass ins) = wantsInit ins"
  by (simp add: wantsInit_def)

lemma init_oblivious: "oblivious (decideInitialization C ins)"
  unfolding decideInitialization_def readInitState_def checkInitSecret_def createInitUpgrade_def createOwnedUpgrade_def
    call_defs Let_def
  by (auto intro!: oblivious_intros split: option.split)

text \<open>After the decision on initialisation: nothing was written that starts pods, and unless the pods are held the database is ready.\<close>

lemma init_step:
  assumes "lawfulOwners C" and "podsSafe ins h"
  shows "wp (decideInitialization C (startPass ins))
    (\<lambda>r k. podsSafe ins k \<and> (\<forall>dec. r = Inr dec \<longrightarrow> idPending dec \<or> databaseReady ins k)) h"
proof -
  have wp1: "wp (decideInitialization C (startPass ins)) (\<lambda>r k. \<exists>l. k = h @ l \<and> initJustified (startPass ins) r l) h"
    by (rule wp_oblivious [OF init_oblivious decideInitialization_justified [OF assms(1)]])
  have wp2: "wp (decideInitialization C (startPass ins)) (\<lambda>r k. podsSafe ins k) h"
    by (rule wp_only [OF quiet_parts(5)]) (rule podsSafe_quiet [OF assms(2)])
  have ready: "idPending dec \<or> databaseReady ins (h @ l)" if "initJustified (startPass ins) (Inr dec) l" for dec l
  proof (cases "wantsInit ins")
    case True
    then have "\<not> Initialized (instStatus ins)" by (simp add: wantsInit_def)
    with True that have "idPending dec \<or> initSeen ins UpgradePhaseSucceeded l \<or> (initAbsent ins l \<and> podsLive ins l)"
      unfolding initJustified_def views_cong [OF pass_instance(1)] wantsInit_startPass pass_instance sum.case by blast
    then show ?thesis by (auto simp: databaseReady_def intro: seen_mono)
  qed (simp add: databaseReady_def)
  show ?thesis
    by (rule wp_mono [OF wp_conj [OF wp1 wp2]]) (use ready in blast)
qed

lemma gate_step:
  assumes "podsSafe ins h" and "idPending dec \<or> databaseReady ins h"
  shows "wp (chooseAddons C (recordInit (startPass ins) dec) dec current)
    (\<lambda>r k. podsSafe ins k \<and> (\<forall>gate ins'. r = Inr (gate, ins') \<longrightarrow>
        instMeta ins' = instMeta ins \<and> instSpec ins' = instSpec ins
        \<and> (idPending dec \<or> (databaseReady ins k \<and> revisionAllowed ins k (gdTemplateHash gate))))) h"
proof (cases "idPending dec")
  case True
  with assms show ?thesis
    by (auto simp: chooseAddons_def initHoldGate_def intro!: wp_return)
next
  case False
  let ?ins = "recordInit (startPass ins) dec"
  have wp1: "wp (chooseAddons C ?ins dec current) (\<lambda>r k. gateRespected ?ins current r k) h"
    using False gateAddonsRollout_respected by (simp add: chooseAddons_def)
  have wp2: "wp (chooseAddons C ?ins dec current) (\<lambda>r k. podsSafe ins k \<and> databaseReady ins k) h"
    using assms False by (intro wp_only [OF quiet_parts(6)]) (auto intro: podsSafe_quiet allowed_mono)
  have meta: "instMeta ?ins = instMeta ins" by simp
  have rv: "revisionAllowed ins k (gdTemplateHash gate) \<and> instMeta ins' = instMeta ins \<and> instSpec ins' = instSpec ins"
    if "gateRespected ?ins current (Inr (gate, ins')) k" for gate ins' k
  proof -
    have "ins'\<lparr>instStatus := instStatus ?ins\<rparr> = ?ins" using that by (simp add: gateRespected_def)
    then have "instMeta ins' = instMeta ins" "instSpec ins' = instSpec ins"
      by (metis meta odoo_instance.select_convs(1) odoo_instance.surjective odoo_instance.update_convs(3),
          metis pass_instance(2,6) odoo_instance.select_convs(2) odoo_instance.surjective odoo_instance.update_convs(3))
    then show ?thesis
      using that unfolding gateRespected_def gated_def views_cong [OF meta] revisionAllowed_def by auto
  qed
  show ?thesis
    by (rule wp_mono [OF wp_conj [OF wp1 wp2]]) (use rv in blast)
qed

lemma upserts_allowed:
  assumes "pending \<or> (databaseReady ins h \<and> revisionAllowed ins h (rhAddons hashes))"
  shows "podsAllowed ins h (UpsertDeployment d (webMutate L ins' hashes (if pending then 0 else desiredReplicas (instSpec ins'))))"
    and "podsAllowed ins h (UpsertDeployment d (cronMutate L ins' hashes (cronReplicas pending)))"
  using assms
  by (auto simp: podsAllowed_def webMutate_def cronMutate_def cronReplicas_def buildPodTemplate_def buildCronPodTemplate_def
      podAnnotations_def mapGet_def Let_def split: sum.splits)

lemma workload_step:
  assumes "podsSafe ins h" and "pending \<or> (databaseReady ins h \<and> revisionAllowed ins h (rhAddons hashes))"
  shows "wp (reconcileWorkload C ins' hashes pending) (\<lambda>r k. podsSafe ins k) h"
proof -
  let ?P = "podsAllowed ins h"
  have web: "only ?P (reconcileDeployment C ins' hashes (if pending then 0 else desiredReplicas (instSpec ins')))"
    unfolding reconcileDeployment_def by (intro frame_intros upserts_allowed(1) assms(2))
  have cron: "only ?P (reconcileCron C ins' hashes pending)"
    unfolding reconcileCron_def reconcileCronDeployment_def Let_def
    by (intro frame_intros upserts_allowed(2) assms(2) only_mono [OF quiet_parts(9)] quiet_allowed)
  have "only ?P (reconcileWorkload C ins' hashes pending)"
    unfolding reconcileWorkload_def
    by (intro frame_intros web cron only_mono [OF quiet_parts(7)] only_mono [OF quiet_parts(8)] quiet_allowed)
  then show ?thesis by (rule wp_only) (rule podsSafe_append [OF assms(1)])
qed

lemma stop_steps:
  shows stopErr_quiet: "only quiet m \<Longrightarrow> podsSafe ins h \<Longrightarrow> (\<And>k. podsSafe ins k \<Longrightarrow> wp f (\<lambda>_. podsSafe ins) k)
      \<Longrightarrow> wp (orStopErr i m f) (\<lambda>_. podsSafe ins) h"
    and stop_quiet: "only quiet n \<Longrightarrow> podsSafe ins h \<Longrightarrow> (\<And>a k. podsSafe ins k \<Longrightarrow> wp (g a) (\<lambda>_. podsSafe ins) k)
      \<Longrightarrow> wp (orStop i n g) (\<lambda>_. podsSafe ins) h"
    and stop_with: "wp n (\<lambda>r k. podsSafe ins k \<and> (\<forall>a. r = Inr a \<longrightarrow> R a k)) h
      \<Longrightarrow> (\<And>a k. podsSafe ins k \<Longrightarrow> R a k \<Longrightarrow> wp (g a) (\<lambda>_. podsSafe ins) k) \<Longrightarrow> wp (orStop i n g) (\<lambda>_. podsSafe ins) h"
  by (rule wp_orStopErr, erule wp_only, auto split: option.split intro: podsSafe_quiet)
    (rule wp_orStop, erule wp_only, auto split: sum.split intro: podsSafe_quiet,
     rule wp_orStop, erule wp_mono, auto split: sum.split)

lemma finish_safe:
  assumes "podsSafe ins h"
    and "idPending dec \<or> (databaseReady ins h \<and> revisionAllowed ins h (gdTemplateHash (fst choice)))"
  shows "wp (finishPass C before conf secrets addons dec choice) (\<lambda>_. podsSafe ins) h"
proof -
  have tail: "only quiet (do {
      r \<leftarrow> getDeployment C key;
      (case finishStatus C ins2 addons gate dec cron r of
         (requeue, ins3) \<Rightarrow> writeInstanceStatus C b ins3 requeue gate dec cron)
    })" for key ins2 gate cron b
    by (auto intro!: frame_intros quiet_parts simp: call_defs split_def)
  show ?thesis
    unfolding finishPass_def Let_def
    by (rule stop_with [where R = "\<lambda>_ _. True", OF wp_mono [OF workload_step]])
      (use assms in \<open>auto intro!: wp_only [OF tail] podsSafe_quiet\<close>)
qed

lemma pass_safe:
  assumes "lawfulOwners C"
  shows "wp (reconcileOdooInstance C ins) (\<lambda>_. podsSafe ins) []"
  unfolding reconcileOdooInstance_def Let_def
proof (rule stopErr_quiet [OF quiet_parts(1)], simp add: podsSafe_def soundCalls_def,
    rule stop_quiet [OF only_return], assumption, rule stopErr_quiet [OF quiet_parts(2)], assumption,
    rule stop_quiet [OF quiet_parts(3)], assumption, rule stop_quiet [OF quiet_parts(4)], assumption,
    rule stop_with [OF init_step [OF assms]], assumption)
  fix conf secrets addons and dec :: initDecision and k
  assume "podsSafe ins k" "idPending dec \<or> databaseReady ins k"
  from gate_step [OF this]
  show "wp (orStop (recordInit (startPass ins) dec) (chooseAddons C (recordInit (startPass ins) dec) dec (addonsHash addons))
       (finishPass C (instStatus ins) conf secrets addons dec)) (\<lambda>_. podsSafe ins) k"
  proof (rule stop_with [OF wp_mono])
    fix a l and p :: "gateDecision \<times> odoo_instance"
    show "idPending dec \<or> (databaseReady ins l \<and> revisionAllowed ins l (gdTemplateHash (fst p))) \<Longrightarrow> podsSafe ins l
      \<Longrightarrow> wp (finishPass C (instStatus ins) conf secrets addons dec p) (\<lambda>_. podsSafe ins) l"
      by (rule finish_safe)
  qed force
qed

section \<open>What a pass may touch\<close>

definition childNames :: "odoo_instance \<Rightarrow> string set" where
  "childNames ins = (\<lambda>f. f (metaName (instMeta ins))) ` {id, configMapName, cronDeploymentName, addonsPVCName, dataPVCName}"

definition ownChild :: "odoo_instance \<Rightarrow> objmeta \<Rightarrow> bool" where
  "ownChild ins m \<longleftrightarrow> metaName m \<in> childNames ins \<and> metaNamespace m = metaNamespace (instMeta ins)"

text \<open>
  Reads aside: the children are created or updated under their own names, the claims are patched in their owners only, an
  OdooUpgrade is created for this instance, a Deployment or a disruption budget is deleted only if the instance
  controls it, and of the instance itself only the status is written.
\<close>

definition instanceTouch :: "'m kubelib_scheme \<Rightarrow> odoo_instance \<Rightarrow> req \<Rightarrow> bool" where
  "instanceTouch L ins r \<longleftrightarrow>
     (case r of
        Get _ key \<Rightarrow> fst key = metaNamespace (instMeta ins)
      | ListIn k ns _ \<Rightarrow> k = KAddon \<and> ns = metaNamespace (instMeta ins)
      | Create (OPVC v) \<Rightarrow> ownChild ins (pvcMeta v)
      | Create (OUpgrade u) \<Rightarrow> metaNamespace (upMeta u) = metaNamespace (instMeta ins)
          \<and> refName (upInstanceRef (upSpec u)) = metaName (instMeta ins)
      | PatchObj (OPVC v) (OPVC v') \<Rightarrow> \<exists>owned. pvcPatchOk ins owned v v'
      | Delete (ODeployment d) pol \<Rightarrow> IsControlledBy L (depMeta d) (instMeta ins)
      | Delete (OPDB p) pol \<Rightarrow> IsControlledBy L (pdbMeta p) (instMeta ins)
      | UpsertConfigMap c _ \<Rightarrow> ownChild ins (cmMeta c)
      | UpsertDeployment d _ \<Rightarrow> ownChild ins (depMeta d)
      | UpsertPDB p _ \<Rightarrow> ownChild ins (pdbMeta p)
      | UpsertService s _ \<Rightarrow> ownChild ins (svcMeta s)
      | StatusUpdate (OInstance i) \<Rightarrow> instMeta i = instMeta ins \<and> instSpec i = instSpec ins
      | EmitEvent n \<Rightarrow> (\<exists>i. evRegarding n = OInstance i \<and> instMeta i = instMeta ins)
      | _ \<Rightarrow> False)"

definition sameObject :: "odoo_instance \<Rightarrow> odoo_instance \<Rightarrow> bool" where
  "sameObject ins i \<longleftrightarrow> instMeta i = instMeta ins \<and> instSpec i = instSpec ins"

lemma touch_cong: "sameObject ins i \<Longrightarrow> instanceTouch L i = instanceTouch L ins"
  by (simp add: fun_eq_iff instanceTouch_def sameObject_def ownChild_def childNames_def pvcPatchOk_def ownedAs_def
      cong: req.case_cong obj.case_cong)

lemma ownChild_new [simp]: "ownChild ins (newMeta n ns) \<longleftrightarrow> n \<in> childNames ins \<and> ns = metaNamespace (instMeta ins)"
  by (simp add: ownChild_def newMeta_def)

lemma claimCall_touch: "claimCall ins r \<Longrightarrow> instanceTouch L ins r"
proof -
  have "instanceTouch L ins r" if "pvcCall ins rq r" "prName rq \<in> childNames ins" for rq
    using that by (cases "(ins, rq, r)" rule: pvcCall.cases) (auto simp: instanceTouch_def ownChild_def)
  moreover assume "claimCall ins r"
  ultimately show ?thesis by (auto simp: claimCall_def childNames_def addonsPVCRequest_def dataPVCRequest_def)
qed

lemma owner_named:
  "lawfulOwners C \<Longrightarrow> SetControllerReference C owner m = Inr m' \<Longrightarrow> metaName m' = metaName m \<and> metaNamespace m' = metaNamespace m"
  unfolding lawfulOwners_def by (metis objmeta.select_convs objmeta.surjective objmeta.update_convs)

lemma touch_parts:
  assumes "lawfulOwners C"
  shows "only (instanceTouch C ins) (reconcilePVC C ins)"
    and "only (instanceTouch C ins) (reconcileConfigMap C ins conf)"
    and "only (instanceTouch C ins) (referencedSecrets C ins)"
    and "only (instanceTouch C ins) (listReadyAddons C ins)"
    and "only (instanceTouch C ins) (decideInitialization C ins)"
    and "only (instanceTouch C ins) (chooseAddons C ins dec current)"
    and "only (instanceTouch C ins) (reconcileWorkload C ins hashes held)"
proof -
  show "only (instanceTouch C ins) (reconcilePVC C ins)"
    by (rule only_mono [OF only_reconcilePVC [OF assms] claimCall_touch])
  show "only (instanceTouch C ins) (reconcileConfigMap C ins conf)"
    unfolding reconcileConfigMap_def by (auto intro!: frame_intros simp: instanceTouch_def childNames_def)
  show "only (instanceTouch C ins) (listReadyAddons C ins)"
    unfolding listReadyAddons_def call_defs by (auto intro!: frame_intros simp: instanceTouch_def)
  have secrets: "only (instanceTouch C ins) (readSecrets C (metaNamespace (instMeta ins)) refs)" for refs
    by (induction C "metaNamespace (instMeta ins)" refs rule: readSecrets.induct)
      (auto simp: call_defs instanceTouch_def intro!: frame_intros)
  then show "only (instanceTouch C ins) (referencedSecrets C ins)" by (simp add: referencedSecrets_def del: readSecrets.simps)
  show "only (instanceTouch C ins) (decideInitialization C ins)"
    unfolding decideInitialization_def readInitState_def checkInitSecret_def createInitUpgrade_def createOwnedUpgrade_def
      call_defs Let_def
    by (auto intro!: frame_intros dest: owner_named [OF assms]
        simp: instanceTouch_def initUpgradeFor_def newMeta_def zeroUpgrade_def split: option.split)
  show "only (instanceTouch C ins) (chooseAddons C ins dec current)"
    unfolding chooseAddons_def gateAddonsRollout_def gateReadUpgrade_def gateApply_def gateCreateUpgrade_def createOwnedUpgrade_def
      call_defs Let_def
    by (auto intro!: frame_intros dest: owner_named [OF assms]
        simp: instanceTouch_def gateUpgradeFor_def newMeta_def zeroUpgrade_def split: option.split)
  show "only (instanceTouch C ins) (reconcileWorkload C ins hashes held)"
    unfolding reconcileWorkload_def reconcileDeployment_def reconcilePDB_def deletePDBIfOwned_def reconcileService_def
      reconcileCron_def reconcileCronDeployment_def deleteCronDeployment_def call_defs Let_def
    by (auto intro!: frame_intros simp: instanceTouch_def childNames_def newDeployment_def)
qed

lemma yields_choose: "yields (\<lambda>r. \<forall>p. r = Inr p \<longrightarrow> sameObject ins (snd p)) (chooseAddons C ins dec current)"
  unfolding chooseAddons_def gateAddonsRollout_def gateApply_def initHoldGate_def Let_def
  by (auto intro!: yields_intros simp: sameObject_def)

lemma sameObject_simps [simp]:
  "sameObject ins ins" "sameObject ins (startPass ins)" "sameObject ins (recordInit i dec) = sameObject ins i"
  "sameObject ins (snd (finishStatus L i addons gate dec cron r)) = sameObject ins i"
  "sameObject ins (failedStatus L i e) = sameObject ins i"
  by (simp_all add: sameObject_def finishStatus_def failedStatus_def Let_def)

lemma sameObject_trans: "sameObject ins i \<Longrightarrow> sameObject i j \<Longrightarrow> sameObject ins j"
  by (simp add: sameObject_def)

lemma touch_status:
  assumes "sameObject ins i"
  shows "instanceTouch L ins (StatusUpdate (OInstance i))" "evRegarding n = OInstance i \<Longrightarrow> instanceTouch L ins (EmitEvent n)"
  using assms by (auto simp: instanceTouch_def sameObject_def)

lemma only_orStop_yields:
  "yields R m \<Longrightarrow> only P m \<Longrightarrow> (\<And>a. R (Inr a) \<Longrightarrow> only P (k a)) \<Longrightarrow> only P (orStop ins m k)"
  unfolding orStop_def by (rule only_bind_yields [of R]) (auto intro!: frame_intros)

lemma touch_finish:
  assumes "lawfulOwners C" and "sameObject ins (snd choice)"
  shows "only (instanceTouch C ins) (finishPass C before conf secrets addons dec choice)"
proof -
  have status: "only (instanceTouch C ins) (writeInstanceStatus C before i q gate dec cron)" if "sameObject ins i" for i q gate cron
    unfolding writeInstanceStatus_def call_defs using touch_status [OF that] by (intro frame_intros)
  have "only (instanceTouch C ins) (reconcileWorkload C (snd choice) hashes held)" for hashes held
    using touch_parts(7) [OF assms(1), of "snd choice"] touch_cong [OF assms(2), of C] by simp
  moreover have "instanceTouch C ins (Get KDeployment (metaNamespace (instMeta (snd choice)), metaName (instMeta (snd choice))))"
    using assms(2) by (simp add: instanceTouch_def sameObject_def)
  ultimately show ?thesis
    unfolding finishPass_def Let_def call_defs split_def
    by (intro frame_intros status) (use assms(2) in simp_all)
qed

lemma touch_pass:
  assumes "lawfulOwners C"
  shows "only (instanceTouch C ins) (reconcileOdooInstance C ins)"
proof -
  let ?P = "instanceTouch C ins"
  have views: "instanceTouch C (startPass ins) = ?P" "instanceTouch C (recordInit (startPass ins) dec) = ?P" for dec
    by (simp_all add: touch_cong)
  have same: "sameObject (recordInit (startPass ins) dec) = sameObject ins" for dec
    by (simp add: fun_eq_iff sameObject_def)
  note parts = touch_parts [OF assms, of "startPass ins", unfolded views]
  have choose: "yields (\<lambda>r. \<forall>p. r = Inr p \<longrightarrow> sameObject ins (snd p)) (chooseAddons C (recordInit (startPass ins) dec) dec current)"
      "only ?P (chooseAddons C (recordInit (startPass ins) dec) dec current)" for dec current
    by (rule yields_choose [of "recordInit (startPass ins) dec" for dec, unfolded same],
        rule touch_parts(6) [OF assms, of "recordInit (startPass ins) dec", unfolded views])
  show ?thesis
    unfolding reconcileOdooInstance_def Let_def
    by (rule only_orStopErr [OF parts(1)], rule only_orStop [OF only_return], rule only_orStopErr [OF parts(2)],
        rule only_orStop [OF parts(3)], rule only_orStop [OF parts(4)], rule only_orStop [OF parts(5)],
        rule only_orStop_yields [OF choose], rule touch_finish [OF assms], simp)
qed

section \<open>The whole reconciler\<close>

lemma yields_pass: "yields (\<lambda>p. sameObject ins (snd p)) (reconcileOdooInstance C ins)"
proof -
  have stop: "yields R (orStop i m k)" if "\<And>e. R ((0, Some e), i)" "\<And>a. yields R (k a)" for R :: "passResult \<Rightarrow> bool" and i and m :: "('a, goerr + 'c) prog" and k
    unfolding orStop_def using that by (intro yields_intros) auto
  have stopY: "yields R (orStop i m k)" if "\<And>e. R ((0, Some e), i)" "yields (\<lambda>r. \<forall>a. r = Inr a \<longrightarrow> Q a) m" "\<And>a. Q a \<Longrightarrow> yields R (k a)"
    for R :: "passResult \<Rightarrow> bool" and Q i and m :: "('a, goerr + 'd) prog" and k
    using that unfolding orStop_def yields_def by (auto simp: exec_simps split: sum.splits prod.splits) (metis fst_conv)+
  have stopErr: "yields R (orStopErr i m k)" if "\<And>e. R ((0, Some e), i)" "yields R k" for R :: "passResult \<Rightarrow> bool" and i m k
    unfolding orStopErr_def using that by (intro yields_intros) auto
  have same: "sameObject (recordInit (startPass ins) dec) = sameObject ins" for dec
    by (simp add: fun_eq_iff sameObject_def)
  have fin: "yields (\<lambda>p. sameObject ins (snd p)) (finishPass C b conf secrets addons dec choice)" if "sameObject ins (snd choice)" for b conf secrets addons dec choice
    unfolding finishPass_def Let_def writeInstanceStatus_def split_def
    using that by (intro stop yields_intros) auto
  show ?thesis
    unfolding reconcileOdooInstance_def Let_def
    by (intro stop stopErr stopY [OF _ yields_choose fin]) (simp_all add: same)
qed

lemma touch_runPass:
  assumes "lawfulOwners C"
  shows "only (instanceTouch C ins) (runPass C ins)"
  unfolding runPass_def
proof (rule only_bind_yields [OF yields_pass touch_pass [OF assms]])
  fix p :: passResult assume p: "sameObject ins (snd p)"
  have "only (instanceTouch C ins) (recordFailure C ins (snd p) e)" for e
    unfolding recordFailure_def call_defs using touch_status [of ins "failedStatus C (snd p) e"] p
    by (intro frame_intros) simp_all
  then show "only (instanceTouch C ins) (case snd (fst p) of None \<Rightarrow> State_Monad.return (fst (fst p), None)
      | Some e \<Rightarrow> if isConflict e then State_Monad.return (conflictResult e) else recordFailure C ins (snd p) e)"
    by (intro frame_intros)
qed

lemma runPass_safe:
  assumes "lawfulOwners C"
  shows "wp (runPass C ins) (\<lambda>_. podsSafe ins) []"
proof -
  have "only quiet (recordFailure C ins i e)" for i e
    unfolding recordFailure_def call_defs by (auto intro!: frame_intros)
  then have "wp (recordFailure C ins i e) (\<lambda>_. podsSafe ins) k" if "podsSafe ins k" for i e k
    by (rule wp_only) (rule podsSafe_quiet [OF that])
  then show ?thesis
    unfolding runPass_def
    by (intro wp_bind wp_mono [OF pass_safe [OF assms]]) (auto intro!: wp_intros)
qed

text \<open>The instance as the pass works on it: with the finalizer, which is added first where it is missing.\<close>

definition admitted :: "'m kubelib_scheme \<Rightarrow> odoo_instance \<Rightarrow> odoo_instance" where
  "admitted L ins = (if ContainsFinalizer L (instMeta ins) finalizerOdooInstance then ins
     else ins\<lparr>instMeta := AddFinalizer L (instMeta ins) finalizerOdooInstance\<rparr>)"

definition reconcileFrame :: "'m kubelib_scheme \<Rightarrow> nsname \<Rightarrow> history \<Rightarrow> bool" where
  "reconcileFrame L key h \<longleftrightarrow>
     (\<exists>p rest. h = (Get KInstance key, p) # rest
        \<and> (case objReply asInstance p of
             Inl _ \<Rightarrow> rest = []
           | Inr ins \<Rightarrow>
               if metaDeleted (instMeta ins) \<noteq> None
               then list_all (\<lambda>c. fst c = Update (OInstance
                   (ins\<lparr>instMeta := RemoveFinalizer L (instMeta ins) finalizerOdooInstance\<rparr>))) rest
               else list_all (\<lambda>c. fst c = Update (OInstance (admitted L ins))
                   \<or> instanceTouch L (admitted L ins) (fst c)) rest))"

lemma reconcile_frame:
  assumes "lawfulOwners C"
  shows "wp (instanceReconcile C key) (\<lambda>_. reconcileFrame C key) []"
proof -
  have gone: "only (\<lambda>r. r = Update (OInstance (ins\<lparr>instMeta := RemoveFinalizer C (instMeta ins) finalizerOdooInstance\<rparr>)))
      (handleFinalizer C ins)" for ins
    unfolding handleFinalizer_def call_defs by (auto intro!: frame_intros)
  let ?Q = "\<lambda>ins r. r = Update (OInstance (admitted C ins)) \<or> instanceTouch C (admitted C ins) r"
  have run: "only (?Q ins) (runPass C (admitted C ins))" for ins
    by (rule only_mono [OF touch_runPass [OF assms]]) simp
  have admit: "only (?Q ins) (if \<not> ContainsFinalizer C (instMeta ins) finalizerOdooInstance then
           (let ins' = ins\<lparr>instMeta := AddFinalizer C (instMeta ins) finalizerOdooInstance\<rparr> in do {
              err \<leftarrow> updateObj C (OInstance ins');
              case err of
                Some e \<Rightarrow> State_Monad.return (conflictResult e)
              | None \<Rightarrow> runPass C ins'
            })
         else runPass C ins)" for ins
    using run [of ins] unfolding Let_def call_defs by (auto intro!: frame_intros simp: admitted_def split: if_splits)
  show ?thesis
    unfolding instanceReconcile_def getInstance_def
    by (rule wp_bind, rule wp_ask)
      (auto intro!: wp_sum wp_return wp_if wp_bind wp_only [OF gone] wp_only [OF admit] simp: reconcileFrame_def split: if_split_asm)
qed

section \<open>Errors\<close>

definition emitsOnly :: "history \<Rightarrow> bool" where
  "emitsOnly l \<longleftrightarrow> list_all (\<lambda>c. case fst c of EmitEvent _ \<Rightarrow> True | _ \<Rightarrow> False) l"

text \<open>
  The error a pass returns was put into the status right before, in the phase, in Ready and in the conditions, and
  nothing but events follows.
\<close>

definition failureStatus :: "'m kubelib_scheme \<Rightarrow> odoo_instance \<Rightarrow> goerr \<Rightarrow> odoo_instance \<Rightarrow> bool" where
  "failureStatus L ins e i \<longleftrightarrow>
     sameObject ins i \<and> instPhase (instStatus i) = phaseFailing \<and> \<not> instReady (instStatus i)
     \<and> (errText e = '''' \<or> instMessage (instStatus i) = errText e
         \<and> (\<exists>d. FindStatusCondition L (instConds (instStatus i)) ConditionTypeDegraded = Some d \<and> condStatus d = condTrue
              \<and> condReason d = (if reconcileErrorReason e = '''' then ReasonReconcileError else reconcileErrorReason e)))"

definition errorRecorded :: "'m kubelib_scheme \<Rightarrow> odoo_instance \<Rightarrow> outcome \<Rightarrow> history \<Rightarrow> bool" where
  "errorRecorded L ins res h \<longleftrightarrow>
     (case res of
        (q, None) \<Rightarrow> True
      | (q, Some e) \<Rightarrow> q = 0 \<and> \<not> isApiConflict e
          \<and> (\<exists>i p h1 l. h = h1 @ (StatusUpdate (OInstance i), p) # l \<and> emitsOnly l \<and> failureStatus L ins e i))"

lemma failedStatus_records:
  assumes "lawfulConditions L" and "sameObject ins i"
  shows "failureStatus L ins e (failedStatus L i e)"
  using assms(2)
  by (auto simp: failureStatus_def failedStatus_def Let_def instanceConditions_def instanceSummary_def
      find_setConditions [OF assms(1)] sameObject_def)

lemma recordFailure_wp:
  assumes "lawfulConditions C" and "sameObject ins i" and "\<not> isConflict e"
  shows "wp (recordFailure C ins i e) (errorRecorded C ins) h"
proof -
  have emits: "only (\<lambda>r. case r of EmitEvent _ \<Rightarrow> True | _ \<Rightarrow> False) (emitEvents C x evs)" for x evs
    by (intro frame_intros) simp
  have "errorRecorded C ins (0, Some e) (h @ (StatusUpdate (OInstance (failedStatus C i e)), p) # l)" if "emitsOnly l" for p l
    using that failedStatus_records [OF assms(1,2), of e] assms(3)
    unfolding errorRecorded_def isConflict_def by (simp del: append.simps) blast
  then show ?thesis
    unfolding recordFailure_def call_defs
    by (intro wp_intros wp_only [OF emits]) (simp_all add: emitsOnly_def)
qed

lemma errors_recorded:
  assumes "lawfulConditions C"
  shows "wp (runPass C ins) (errorRecorded C ins) []"
proof -
  have "wp (reconcileOdooInstance C ins) (\<lambda>p _. sameObject ins (snd p)) []"
    using yields_pass [of ins C] unfolding yields_def wp_def by blast
  then show ?thesis
    unfolding runPass_def
    by (intro wp_bind, elim wp_mono)
      (auto intro!: wp_intros recordFailure_wp [OF assms] simp: errorRecorded_def conflictResult_def)
qed

section \<open>Readiness\<close>

lemma gate_phases: "gdPhase (gateDecide i) \<in> {'''', gatePhaseUpgrading, gatePhaseUpgradeFailed}"
  by (simp add: gateDecide_def Let_def)

lemma init_phases: "idPending (initDecide i) \<Longrightarrow> idPhase (initDecide i) \<in> {phaseInitializing, phaseInitFailed}"
  by (simp add: initDecide_def zeroInitDecision_def split: if_splits)

text \<open>The Ready condition the facts of a pass lead to.\<close>

lemma readyCond_of_phase:
  assumes "ErrMessage f = ''''"
    and "factPhase f \<in> {phaseRunning, phaseCreating, gatePhaseUpgrading, gatePhaseUpgradeFailed, phaseInitializing, phaseInitFailed}"
    and "factPhase f = phaseRunning \<Longrightarrow> DeploymentFound f \<and> ReadyReplicas f \<ge> DesiredReplicas f"
  shows "\<exists>c p d. instanceConditions f = [c, p, d] \<and> condType c = ConditionTypeReady
    \<and> condType p = ConditionTypeProgressing \<and> condType d = ConditionTypeDegraded
    \<and> (condStatus c = condTrue \<longleftrightarrow> DeploymentFound f \<and> ReadyReplicas f \<ge> DesiredReplicas f
         \<and> factPhase f \<notin> {gatePhaseUpgradeFailed, phaseInitializing, phaseInitFailed})"
  using assms by (auto simp: instanceConditions_def Let_def instanceReadyCond_def)

definition readyFacts :: "odoo_instance \<Rightarrow> gateDecision \<Rightarrow> initDecision \<Rightarrow> goerr + deployment \<Rightarrow> bool" where
  "readyFacts ins gate dec r \<longleftrightarrow>
     \<not> idPending dec \<and> gdPhase gate \<noteq> gatePhaseUpgradeFailed
     \<and> (\<exists>d. r = Inr d \<and> depReadyReplicas d \<ge> desiredReplicas (instSpec ins))"

lemma finish_ready:
  assumes L: "lawfulConditions L"
    and gate: "gdPhase gate \<in> {'''', gatePhaseUpgrading, gatePhaseUpgradeFailed}"
    and init: "idPending dec \<Longrightarrow> idPhase dec \<in> {phaseInitializing, phaseInitFailed}"
    and st: "st = instStatus (snd (finishStatus L ins addons gate dec cron r))"
  shows "(instReady st \<longleftrightarrow> readyFacts ins gate dec r)
    \<and> (\<exists>c. FindStatusCondition L (instConds st) ConditionTypeReady = Some c \<and> (condStatus c = condTrue \<longleftrightarrow> instReady st))
    \<and> (instMessage st = '''' \<longleftrightarrow> instReady st)"
proof -
  define found where "found = (case r of Inr _ \<Rightarrow> True | Inl _ \<Rightarrow> False)"
  define ready where "ready = (case r of Inr d \<Rightarrow> depReadyReplicas d | Inl _ \<Rightarrow> 0)"
  define running where "running = (found \<and> ready \<ge> desiredReplicas (instSpec ins))"
  define phase where "phase = (if idPending dec then idPhase dec
    else if gdPhase gate \<noteq> '''' then gdPhase gate else if running then phaseRunning else phaseCreating)"
  define f where "f = \<lparr>factPhase = phase, DeploymentFound = found, ReadyReplicas = ready,
    DesiredReplicas = desiredReplicas (instSpec ins), factActiveUpgrade = ActiveUpgrade (instStatus ins),
    UpgradeMessage = gdUpgradeMessage gate, factInitUpgrade = InitUpgrade (instStatus ins), InitMessage = idFailMessage dec,
    ErrReason = '''', ErrMessage = ''''\<rparr>"
  have facts: "readyFacts ins gate dec r \<longleftrightarrow> running \<and> \<not> idPending dec \<and> gdPhase gate \<noteq> gatePhaseUpgradeFailed"
    by (auto simp: readyFacts_def running_def found_def ready_def split: sum.splits)
  have rdy: "instReady st \<longleftrightarrow> readyFacts ins gate dec r"
    unfolding facts by (auto simp: st finishStatus_def Let_def running_def found_def ready_def)
  have conds: "instConds st = setConditions L (applyCronCondition L (instConds (instStatus ins)) (metaGeneration (instMeta ins)) cron)
      (metaGeneration (instMeta ins)) (instanceConditions f)" "instMessage st = instanceSummary L (instConds st)"
    unfolding st finishStatus_def Let_def f_def phase_def running_def found_def ready_def by simp_all
  obtain c p d where shape: "instanceConditions f = [c, p, d]" "condType c = ConditionTypeReady"
      "condType p = ConditionTypeProgressing" "condType d = ConditionTypeDegraded"
    and status: "condStatus c = condTrue \<longleftrightarrow> running \<and> phase \<notin> {gatePhaseUpgradeFailed, phaseInitializing, phaseInitFailed}"
  proof -
    have "phase \<in> {phaseRunning, phaseCreating, gatePhaseUpgrading, gatePhaseUpgradeFailed, phaseInitializing, phaseInitFailed}"
        "phase = phaseRunning \<Longrightarrow> running"
      using gate init by (auto simp: phase_def split: if_splits)
    moreover have "factPhase f = phase" "ErrMessage f = ''''" "(DeploymentFound f \<and> ReadyReplicas f \<ge> DesiredReplicas f) = running"
      by (simp_all add: f_def running_def)
    ultimately show ?thesis using readyCond_of_phase [of f] that by (metis (no_types))
  qed
  have "phase \<notin> {gatePhaseUpgradeFailed, phaseInitializing, phaseInitFailed} \<longleftrightarrow> \<not> idPending dec \<and> gdPhase gate \<noteq> gatePhaseUpgradeFailed"
    using gate init by (auto simp: phase_def)
  with status have ok: "condStatus c = condTrue \<longleftrightarrow> instReady st" unfolding rdy facts by blast
  have find: "FindStatusCondition L (instConds st) ConditionTypeReady = Some (c\<lparr>condGeneration := metaGeneration (instMeta ins)\<rparr>)"
    "FindStatusCondition L (instConds st) ConditionTypeDegraded = Some (d\<lparr>condGeneration := metaGeneration (instMeta ins)\<rparr>)"
    using shape by (simp_all add: conds find_setConditions [OF L])
  have msg: "condMessage c \<noteq> ''''" "condStatus d = condTrue \<Longrightarrow> condStatus c \<noteq> condTrue \<and> condMessage d = condMessage c"
    using instanceConditions_shape [of f] shape by auto
  show ?thesis
    using rdy ok find msg by (auto simp: conds(2) instanceSummary_def)
qed

section \<open>Properties\<close>

text \<open>C1: Whatever the cluster answers, a pass starts pods of an instance only on a ready database and on an allowed
  revision of the addons. Every Deployment it writes, web or cron, is at zero replicas, or: the instance does not
  ask for initialisation or is initialised, or the pass has read that its initialisation upgrade succeeded or that
  pods already serve; and with \<open>spec.upgrade\<close> in force the pods carry the applied revision, or one whose OdooUpgrade
  the pass has read as succeeded.\<close>

theorem pods_started_only_when_allowed:
  assumes "lawfulOwners C"
  shows "podsSafe ins (callsOf (runPass C ins) w)"
  by (rule wp_callsOf [OF runPass_safe [OF assms]])

theorem pods_started_only_when_allowed_witness:
  "podsSafe freshInstance (callsOf (runPass (scripted (\<lambda>_. RErr (ApiError NotFound ''gone''))) freshInstance) ())"
  by (rule pods_started_only_when_allowed) simp

text \<open>C22: The reconciler touches nothing but the instance and its own children: it reads the instance first; for an
  instance being deleted it only releases the finalizer, so its volumes and workloads are left to their owner
  references; otherwise it writes the children under their own names in the instance's namespace, changes claims in
  their owner references only, deletes only a Deployment or disruption budget the instance controls, and of the
  instance it writes the finalizer and the status, never the spec.\<close>

theorem instance_reconcile_frame:
  assumes "lawfulOwners C"
  shows "reconcileFrame C key (callsOf (instanceReconcile C key) w)"
  by (rule wp_callsOf [OF reconcile_frame [OF assms]])

theorem instance_reconcile_frame_witness:
  "reconcileFrame (scripted (\<lambda>_. RObj (OInstance freshInstance))) (''prod'', ''shop'')
     (callsOf (instanceReconcile (scripted (\<lambda>_. RObj (OInstance freshInstance))) (''prod'', ''shop'')) ())"
  by (rule instance_reconcile_frame) simp





end
