(* ===== verification/Upgrade_Job.thy ===== *)
theory Upgrade_Job
  imports Instance_Workload Bounded_Names Shell_Quote
begin

text \<open>
  \<open>odooupgrade_job.go\<close> and \<open>odooupgrade_script.go\<close>: the command line, the script and the hardened Job of an OdooUpgrade.
\<close>

abbreviation (input) "upgradeLabelKey \<equiv> ''odoo.operator.io/upgrade''"
abbreviation (input) "upgradeContainerName \<equiv> ''upgrade''"
abbreviation (input) "envAdminUserPassword \<equiv> ''ODOO_ADMIN_USER_PASSWORD''"
definition upgradeDefaultTimeout :: int where "upgradeDefaultTimeout = 1800"
definition upgradeTTLSeconds :: int where "upgradeTTLSeconds = 86400"

section \<open>The command\<close>

definition upgradeDatabase :: "upgrade \<Rightarrow> odoo_instance \<Rightarrow> string" where
  "upgradeDatabase up inst = (if upDatabase (upSpec up) \<noteq> '''' then upDatabase (upSpec up) else pgDatabase (instPostgres (instSpec inst)))"

definition upgradeTimeout :: "upgrade \<Rightarrow> int" where
  "upgradeTimeout up = (case upTimeoutSeconds (upSpec up) of Some t \<Rightarrow> t | None \<Rightarrow> upgradeDefaultTimeout)"

definition upgradeArgs :: "string \<Rightarrow> string list \<Rightarrow> string list \<Rightarrow> bool \<Rightarrow> string list" where
  "upgradeArgs database modules installModules withDemo =
     [''--config'', odooConfPath, ''-d'', database]
     @ (if modules \<noteq> [] then [''-u'', joinWith '','' modules] else [])
     @ (if installModules \<noteq> []
        then [''-i'', joinWith '','' installModules] @ (if \<not> withDemo then [''--without-demo=True''] else []) else [])
     @ [''--stop-after-init'', ''--no-http'']"

definition upgradeAdminPasswordSnippet :: string where
  \<open>upgradeAdminPasswordSnippet =
     ''import os'' @ [CHR 0x0A]
     @ ''u = env.ref('' @ [squote] @ ''base.user_admin'' @ [squote] @ '')'' @ [CHR 0x0A]
     @ ''u.password = os.environ['' @ [squote] @ ''ODOO_ADMIN_USER_PASSWORD'' @ [squote] @ '']'' @ [CHR 0x0A]
     @ ''env.cr.commit()'' @ [CHR 0x0A]\<close>

definition upgradeInitScript :: "string \<Rightarrow> string list \<Rightarrow> string" where
  "upgradeInitScript database initArgs =
     ''set -e'' @ [CHR 0x0A]
     @ shJoin (''odoo'' # initArgs) @ [CHR 0x0A]
     @ shJoin [''odoo'', ''shell'', ''--config'', odooConfPath, ''-d'', database, ''--no-http'']
     @ '' <<'' @ [squote] @ ''EOF'' @ [squote, CHR 0x0A]
     @ upgradeAdminPasswordSnippet @ ''EOF'' @ [CHR 0x0A]"

definition upgradeCommand :: "upgrade \<Rightarrow> string \<Rightarrow> string list \<times> string list" where
  "upgradeCommand up database =
     (let args = upgradeArgs database (upModules (upSpec up)) (upInstallModules (upSpec up)) (upWithDemo (upSpec up)) in
      if upAdminUserPasswordSecret (upSpec up) = '''' then ([], args)
      else ([''/bin/sh'', ''-c''], [upgradeInitScript database args]))"

section \<open>The Job\<close>

definition upgradeEnv :: "instance_spec \<Rightarrow> env_var list" where
  "upgradeEnv spec =
     (if pgPasswordSecret (instPostgres spec) \<noteq> ''''
      then map (\<lambda>name. (name, secretKeyRef (pgPasswordSecret (instPostgres spec)) secretKeyPassword)) [envPGPassword, envDBPassword]
      else [])
     @ [(envPGSSLMode, EnvValue sslModeRequire)]"

definition upgradeEnvFor :: "upgrade \<Rightarrow> instance_spec \<Rightarrow> env_var list" where
  "upgradeEnvFor up spec = upgradeEnv spec
     @ (if upAdminUserPasswordSecret (upSpec up) \<noteq> ''''
        then [secretKeyEnv envAdminUserPassword (upAdminUserPasswordSecret (upSpec up))] else [])"

definition upgradeAccessMode :: "string \<Rightarrow> string" where
  "upgradeAccessMode mode = (if mode = '''' then ReadWriteOnce else mode)"

definition upgradeNeedsNodePin :: "instance_spec \<Rightarrow> bool" where
  "upgradeNeedsNodePin spec \<longleftrightarrow>
     upgradeAccessMode (avAccessMode (instAddons spec)) \<noteq> ReadWriteMany
     \<or> upgradeAccessMode (dvAccessMode (instData spec)) \<noteq> ReadWriteMany"

definition upgradeImage :: "instance_spec \<Rightarrow> string" where
  "upgradeImage spec = (if instImage spec = '''' then defaultOdooImage else instImage spec)"

definition upgradeLabels :: "string \<Rightarrow> strmap" where
  "upgradeLabels upgradeName = [(labelManagedBy, managedByOperator), (upgradeLabelKey, upgradeLabelValue upgradeName)]"

definition upgradePodSpec :: "upgrade \<Rightarrow> odoo_instance \<Rightarrow> string \<Rightarrow> string \<Rightarrow> pod_spec" where
  "upgradePodSpec up inst database nodeName =
     (let spec = instSpec inst; name = metaName (instMeta inst); (command, args) = upgradeCommand up database in
      zeroPodSpec\<lparr>podRestartPolicy := ''Never'', podAutomountToken := Some False,
        podSecurity := \<lparr>runAsNonRoot = Some True, runAsUser = Some odooUID, runAsGroup = Some odooUID,
          fsGroup = Some odooUID, seccompProfile = ''RuntimeDefault''\<rparr>,
        podContainers := [zeroContainer\<lparr>ctrName := upgradeContainerName, ctrImage := upgradeImage spec,
          ctrCommand := command, ctrArgs := args, ctrEnv := upgradeEnvFor up spec, ctrResources := odooResources spec,
          ctrMounts := [mount volumeConfig mountPathConfig True, mount volumeAddons addonsMountPath True,
            mount volumeData mountPathData False, mount volumeTmp mountPathTmp False],
          ctrSecurity := Some \<lparr>allowPrivilegeEscalation = Some False, readOnlyRootFilesystem = Some True,
            ctrRunAsNonRoot = None, capsDropped = [''ALL'']\<rparr>\<rparr>],
        podVolumes := [(volumeConfig, ConfigMapVolume (configMapName name) (Some 420)),
          (volumeAddons, PvcVolume (addonsPVCName name) True), (volumeData, PvcVolume (dataPVCName name) False),
          (volumeTmp, EmptyDirVolume '''' None)],
        podNodeSelector := (if nodeName \<noteq> '''' \<and> upgradeNeedsNodePin spec then [(nodeHostLabel, nodeName)] else [])\<rparr>)"

definition buildUpgradeJob :: "upgrade \<Rightarrow> odoo_instance \<Rightarrow> string \<Rightarrow> string \<Rightarrow> job" where
  "buildUpgradeJob up inst database nodeName =
     newJob ((newMeta (upgradeJobName (metaName (upMeta up))) (metaNamespace (upMeta up)))
         \<lparr>metaLabels := upgradeLabels (metaName (upMeta up))\<rparr>)
       \<lparr>jobBackoffLimit = Some 0, jobDeadline = Some (upgradeTimeout up), jobTTL = Some upgradeTTLSeconds,
        jobTemplate = \<lparr>templLabels = upgradeLabels (metaName (upMeta up)), templAnnotations = [],
          templSpec = upgradePodSpec up inst database nodeName\<rparr>\<rparr>"

section \<open>What the Job guarantees\<close>

lemma upgradePod_hardened: "podHardened (upgradePodSpec up inst database nodeName)"
  by (simp add: upgradePodSpec_def Let_def split_def podHardened_def confined_def mountsResolve_def odooUID_def mount_def
      zeroContainer_def zeroPodSpec_def)

lemma upgrade_not_selected:
  "\<not> labelSelects (selectorLabels n) (upgradeLabels m)" "\<not> labelSelects (podLabels n) (upgradeLabels m)"
  by (simp_all add: labelSelects_def selectorLabels_def podLabels_def upgradeLabels_def)

lemma upgradeEnv_literals: "concat (map envLiteral (upgradeEnvFor up spec)) = [sslModeRequire]"
  by (simp add: upgradeEnvFor_def upgradeEnv_def secretKeyRef_def secretKeyEnv_def)

lemma upgrade_clearText:
  "clearText (upgradePodSpec up inst database nodeName) =
     fst (upgradeCommand up database) @ snd (upgradeCommand up database) @ [sslModeRequire]"
  by (simp add: upgradePodSpec_def Let_def split_def clearText_def zeroContainer_def zeroPodSpec_def upgradeEnv_literals)

text \<open>The heredoc after the second command: a fixed text that no value of the spec enters.\<close>

definition passwordHeredoc :: string where
  "passwordHeredoc = '' <<'' @ [squote] @ ''EOF'' @ [squote, CHR 0x0A] @ upgradeAdminPasswordSnippet @ ''EOF'' @ [CHR 0x0A]"

text \<open>Setting the admin password changes how Odoo is started, not what it is asked to do: the script of such an
  upgrade is two command lines, the shell reads the first as \<open>odoo\<close> with exactly the arguments the image would
  get without a password and the second as an \<open>odoo shell\<close> on the same database, and the rest is a fixed text.
  No Secret's name is part of what the pod carries in clear.\<close>

theorem upgrade_script_equivalent:
  "\<exists>install shell.
     upgradeInitScript database args = ''set -e'' @ [CHR 0x0A] @ install @ [CHR 0x0A] @ shell @ passwordHeredoc
     \<and> shLex False None install = Some (''odoo'' # args)
     \<and> shLex False None shell = Some [''odoo'', ''shell'', ''--config'', odooConfPath, ''-d'', database, ''--no-http'']
     \<and> clearText (upgradePodSpec (up\<lparr>upSpec := (upSpec up)\<lparr>upAdminUserPasswordSecret := secret\<rparr>\<rparr>) inst database nodeName) =
        (let line = upgradeArgs database (upModules (upSpec up)) (upInstallModules (upSpec up)) (upWithDemo (upSpec up)) in
         if secret = '''' then line @ [sslModeRequire]
         else [''/bin/sh'', ''-c'', upgradeInitScript database line, sslModeRequire])"
proof (intro exI conjI)
  show "upgradeInitScript database args = ''set -e'' @ [CHR 0x0A] @ shJoin (''odoo'' # args) @ [CHR 0x0A]
      @ shJoin [''odoo'', ''shell'', ''--config'', odooConfPath, ''-d'', database, ''--no-http''] @ passwordHeredoc"
    by (simp add: upgradeInitScript_def passwordHeredoc_def)
  show "shLex False None (shJoin (''odoo'' # args)) = Some (''odoo'' # args)"
    "shLex False None (shJoin [''odoo'', ''shell'', ''--config'', odooConfPath, ''-d'', database, ''--no-http''])
      = Some [''odoo'', ''shell'', ''--config'', odooConfPath, ''-d'', database, ''--no-http'']"
    unfolding shJoin_def by (rule sqw.join_roundtrip)+
qed (simp add: upgrade_clearText upgradeCommand_def Let_def)

end
