(* ===== verification/Upgrade_Controller.thy ===== *)
theory Upgrade_Controller
  imports Upgrade_Job Admission_Queue Job_State Events Kube_Reference
begin

text \<open>
  \<open>odooupgrade_controller.go\<close>: the reconciler of OdooUpgrade. An upgrade waits for its instance and its turn, starts one
  Job, and follows it to a terminal phase. Every status write goes through \<open>upgradeWriteStatus\<close>, which works on the
  freshest copy. The functions the code passes to it may read the clock, so they are programs here.
\<close>

definition upgradeRequeuePending :: int where "upgradeRequeuePending = 10 * second"
definition upgradeRequeueRunning :: int where "upgradeRequeueRunning = 5 * second"
definition upgradeJobGrace :: int where "upgradeJobGrace = 30 * second"
definition upgradeLogTailLines :: int where "upgradeLogTailLines = 200"
definition upgradeLogTailBytes :: nat where "upgradeLogTailBytes = 2000"
definition upgradeLogReadLimit :: nat where "upgradeLogReadLimit = 2 ^ 20"
definition upgradeMsgLogHeader :: string where
  "upgradeMsgLogHeader = [CHR 0x0A] @ ''--- last log lines ---'' @ [CHR 0x0A]"

type_synonym 'w status_change = "upgrade_status \<Rightarrow> ('w, upgrade_status) prog"

section \<open>Status writes\<close>

definition upgradePhaseTerminal :: "string \<Rightarrow> bool" where
  "upgradePhaseTerminal phase \<longleftrightarrow> phase = UpgradePhaseSucceeded \<or> phase = UpgradePhaseFailed"

definition upgradeNewStatus :: "'m kubelib_scheme \<Rightarrow> upgrade \<Rightarrow> string \<Rightarrow> upgrade_status \<Rightarrow> upgrade_status" where
  "upgradeNewStatus L cur reason s =
     (let gen = metaGeneration (upMeta cur); t = s\<lparr>upObservedGeneration := gen\<rparr> in
      t\<lparr>upConds := setConditions L (upConds t) gen (upgradeConditions t reason)\<rparr>)"

text \<open>Writing a new status, if it is one, and the events of the change.\<close>

definition upgradeCommit :: "'w cluster \<Rightarrow> upgrade \<Rightarrow> upgrade_status \<Rightarrow> ('w, goerr option) prog" where
  "upgradeCommit C cur after =
     (if after = upStatus cur then State_Monad.return None
      else do {
        err \<leftarrow> updateStatus C (OUpgrade (cur\<lparr>upStatus := after\<rparr>));
        case err of
          Some e \<Rightarrow> State_Monad.return (Some e)
        | None \<Rightarrow> do {
            _ \<leftarrow> emitEvents C (OUpgrade (cur\<lparr>upStatus := after\<rparr>)) (upgradeEvents (upStatus cur) after);
            State_Monad.return None
          }
      })"

definition upgradeWriteOnce ::
  "'w cluster \<Rightarrow> nsname \<Rightarrow> string \<Rightarrow> string \<Rightarrow> 'w status_change \<Rightarrow> ('w, goerr option) prog" where
  "upgradeWriteOnce C key target reason mutate = do {
     r \<leftarrow> getUpgrade C key;
     case r of
       Inl e \<Rightarrow> State_Monad.return (Some e)
     | Inr cur \<Rightarrow>
         if upgradePhaseTerminal (upPhase (upStatus cur)) then State_Monad.return None
         else if target = UpgradePhasePending \<and> upPhase (upStatus cur) = UpgradePhaseRunning then State_Monad.return None
         else do {
           s \<leftarrow> mutate (upStatus cur);
           upgradeCommit C cur (upgradeNewStatus C cur reason s)
         }
   }"

definition upgradeWriteStatus ::
  "'w cluster \<Rightarrow> nsname \<Rightarrow> string \<Rightarrow> string \<Rightarrow> 'w status_change \<Rightarrow> ('w, goerr option) prog" where
  "upgradeWriteStatus C key target reason mutate = do {
     err \<leftarrow> retryOnConflict (retrySteps C) (upgradeWriteOnce C key target reason mutate);
     State_Monad.return (ignoreNotFound err)
   }"

definition upgradeBackfillOnce :: "'w cluster \<Rightarrow> nsname \<Rightarrow> ('w, goerr option) prog" where
  "upgradeBackfillOnce C key = do {
     r \<leftarrow> getUpgrade C key;
     case r of
       Inl e \<Rightarrow> State_Monad.return (Some e)
     | Inr cur \<Rightarrow>
         if upPhase (upStatus cur) = '''' \<or> upConds (upStatus cur) \<noteq> [] then State_Monad.return None
         else updateStatus C (OUpgrade (cur\<lparr>upStatus := (upStatus cur)\<lparr>upConds :=
           setConditions C (upConds (upStatus cur)) (metaGeneration (upMeta cur)) (upgradeConditions (upStatus cur) '''')\<rparr>\<rparr>))
   }"

definition upgradeBackfillConditions :: "'w cluster \<Rightarrow> nsname \<Rightarrow> ('w, goerr option) prog" where
  "upgradeBackfillConditions C key = do {
     err \<leftarrow> retryOnConflict (retrySteps C) (upgradeBackfillOnce C key);
     State_Monad.return (ignoreNotFound err)
   }"

text \<open>The changes the reconciler writes.\<close>

definition failUpgrade :: "string \<Rightarrow> 'w status_change" where
  "failUpgrade msg s = State_Monad.return (s\<lparr>upPhase := UpgradePhaseFailed, upMessage := msg\<rparr>)"

definition failUpgradeNow :: "'w cluster \<Rightarrow> string \<Rightarrow> 'w status_change" where
  "failUpgradeNow C msg s = do {
     now \<leftarrow> timeNow C;
     State_Monad.return (s\<lparr>upPhase := UpgradePhaseFailed, upMessage := msg, upCompletionTime := Some now\<rparr>)
   }"

definition upgradeSetPending :: "'w cluster \<Rightarrow> nsname \<Rightarrow> string \<Rightarrow> string \<Rightarrow> ('w, outcome) prog" where
  "upgradeSetPending C key reason msg = do {
     err \<leftarrow> upgradeWriteStatus C key UpgradePhasePending reason
       (\<lambda>s. State_Monad.return (s\<lparr>upPhase := UpgradePhasePending, upMessage := msg\<rparr>));
     State_Monad.return (upgradeRequeuePending, err)
   }"

section \<open>Validation\<close>

definition upgradeValidateSpec :: "upgrade \<Rightarrow> goerr option" where
  "upgradeValidateSpec up =
     (let spec = upSpec up; ns = refNamespace (upInstanceRef spec) in
      if refName (upInstanceRef spec) = '''' then Some (PlainError ''instanceRef.name is required'')
      else if ns \<noteq> '''' \<and> ns \<noteq> metaNamespace (upMeta up) then
        Some (PlainError (''instanceRef.namespace '' @ goQuote ns @ '' must be empty or the upgrade'' @ [CHR 0x27]
          @ ''s namespace '' @ goQuote (metaNamespace (upMeta up))))
      else if ''all'' \<in> set (upModules spec) \<and> length (upModules spec) > 1 then
        Some (PlainError (''modules: '' @ goQuote ''all'' @ '' must be the only entry when used''))
      else if upAdminUserPasswordSecret spec \<noteq> '''' \<and> upInstallModules spec = [] then
        Some (PlainError ''adminUserPasswordSecret requires installModules'')
      else None)"

section \<open>Starting and following the Job\<close>

definition upgradeOdooPodNode :: "'w cluster \<Rightarrow> odoo_instance \<Rightarrow> ('w, string) prog" where
  "upgradeOdooPodNode C inst = do {
     r \<leftarrow> listPods C (metaNamespace (instMeta inst)) [(labelApp, appOdoo), (labelInstance, metaName (instMeta inst))];
     State_Monad.return (case r of Inl _ \<Rightarrow> '''' | Inr pods \<Rightarrow> runningNode pods)
   }"

definition upgradeLogTail :: "'w cluster \<Rightarrow> upgrade \<Rightarrow> ('w, string) prog" where
  "upgradeLogTail C up =
     (if \<not> hasClientset C then State_Monad.return ''''
      else do {
        r \<leftarrow> listPods C (metaNamespace (upMeta up)) [(upgradeLabelKey, upgradeLabelValue (metaName (upMeta up)))];
        case (case r of Inl _ \<Rightarrow> None | Inr pods \<Rightarrow> newestPod pods) of
          None \<Rightarrow> State_Monad.return ''''
        | Some p \<Rightarrow> do {
            logs \<leftarrow> podLogs C (metaNamespace (upMeta up)) (metaName (podMeta p)) upgradeContainerName (Some upgradeLogTailLines);
            State_Monad.return (case logs of Inl _ \<Rightarrow> '''' | Inr t \<Rightarrow> upgradeTail (take upgradeLogReadLimit t) upgradeLogTailBytes)
          }
      })"

definition startUpgrade :: "string \<Rightarrow> int \<Rightarrow> 'w status_change" where
  "startUpgrade jobName now s = State_Monad.return (s\<lparr>upPhase := UpgradePhaseRunning, upJobName := jobName, upMessage := '''',
     upCompletionTime := None, upStartTime := (case upStartTime s of None \<Rightarrow> Some now | Some t \<Rightarrow> Some t)\<rparr>)"

definition upgradeStart :: "'w cluster \<Rightarrow> upgrade \<Rightarrow> odoo_instance \<Rightarrow> ('w, outcome) prog" where
  "upgradeStart C up inst =
     (let key = (metaNamespace (upMeta up), metaName (upMeta up)); database = upgradeDatabase up inst in
      if database = '''' then do {
        err \<leftarrow> upgradeWriteStatus C key UpgradePhaseFailed ReasonInvalidSpec (failUpgrade ''no database configured'');
        State_Monad.return (0, err)
      }
      else do {
        node \<leftarrow> (if upgradeNeedsNodePin (instSpec inst) then upgradeOdooPodNode C inst else State_Monad.return '''');
        (let j = buildUpgradeJob up inst database node in
         case SetControllerReference C (upMeta up) (jobMeta j) of
           Inl e \<Rightarrow> State_Monad.return (0, Some e)
         | Inr m \<Rightarrow> do {
             err \<leftarrow> createObj C (OJob (j\<lparr>jobMeta := m\<rparr>));
             case (case err of Some e \<Rightarrow> if isAlreadyExists e then None else Some e | None \<Rightarrow> None) of
               Some e \<Rightarrow> State_Monad.return (0, Some (WrapError ''failed to create upgrade job: '' e))
             | None \<Rightarrow> do {
                 now \<leftarrow> timeNow C;
                 werr \<leftarrow> upgradeWriteStatus C key UpgradePhaseRunning ReasonRunning (startUpgrade (metaName m) now);
                 State_Monad.return (upgradeRequeueRunning, werr)
               }
           })
      })"

definition upgradeMonitor :: "'w cluster \<Rightarrow> upgrade \<Rightarrow> ('w, outcome) prog" where
  "upgradeMonitor C up =
     (let key = (metaNamespace (upMeta up), metaName (upMeta up)); jobName = upJobName (upStatus up) in do {
        r \<leftarrow> getJob C (metaNamespace (upMeta up), jobName);
        case r of
          Inl e \<Rightarrow>
            if \<not> isNotFound e then State_Monad.return (0, Some e)
            else do {
              fresh \<leftarrow> (case upStartTime (upStatus up) of
                         None \<Rightarrow> State_Monad.return False
                       | Some t \<Rightarrow> do { now \<leftarrow> timeNow C; State_Monad.return (timeSub now t < upgradeJobGrace) });
              if fresh then State_Monad.return (upgradeRequeueRunning, None)
              else do {
                err \<leftarrow> upgradeWriteStatus C key UpgradePhaseFailed ReasonJobFailed
                  (failUpgradeNow C (''upgrade Job '' @ jobName @ '' no longer exists''));
                State_Monad.return (0, err)
              }
            }
        | Inr j \<Rightarrow>
            if upgradeJobSucceeded j then do {
              completion \<leftarrow> upgradeJobCompletion C j;
              err \<leftarrow> upgradeWriteStatus C key UpgradePhaseSucceeded ReasonComplete (\<lambda>s. State_Monad.return
                (s\<lparr>upPhase := UpgradePhaseSucceeded, upMessage := '''', upCompletionTime := completion\<rparr>));
              State_Monad.return (0, err)
            }
            else if fst (upgradeJobFailure j) then do {
              tail \<leftarrow> upgradeLogTail C up;
              err \<leftarrow> upgradeWriteStatus C key UpgradePhaseFailed ReasonJobFailed
                (failUpgradeNow C (snd (upgradeJobFailure j) @ (if tail \<noteq> '''' then upgradeMsgLogHeader @ tail else '''')));
              State_Monad.return (0, err)
            }
            else State_Monad.return (upgradeRequeueRunning, None)
      })"

section \<open>The reconciler\<close>

definition upgradeAdmit :: "'w cluster \<Rightarrow> nsname \<Rightarrow> upgrade \<Rightarrow> ('w, outcome) prog" where
  "upgradeAdmit C key up =
     (case upgradeValidateSpec up of
        Some e \<Rightarrow> do {
          err \<leftarrow> upgradeWriteStatus C key UpgradePhaseFailed ReasonInvalidSpec (failUpgrade (errText e));
          State_Monad.return (0, err)
        }
      | None \<Rightarrow> do {
          r \<leftarrow> getInstance C (metaNamespace (upMeta up), refName (upInstanceRef (upSpec up)));
          case r of
            Inl e \<Rightarrow> if isNotFound e then upgradeSetPending C key ReasonInstanceNotFound ''waiting for OdooInstance''
                     else State_Monad.return (0, Some e)
          | Inr inst \<Rightarrow> do {
              q \<leftarrow> listUpgrades C (metaNamespace (upMeta up));
              case q of
                Inl e \<Rightarrow> State_Monad.return (0, Some e)
              | Inr siblings \<Rightarrow>
                  (let d = upgradeDecideStart up siblings in
                   if \<not> MayStart d then upgradeSetPending C key ReasonPending
                     (''waiting for upgrade '' @ goQuote (BlockedBy d) @ '' on the same instance to finish'')
                   else upgradeStart C up inst)
            }
        })"

definition upgradeReconcile :: "'w cluster \<Rightarrow> nsname \<Rightarrow> ('w, outcome) prog" where
  "upgradeReconcile C key = do {
     r \<leftarrow> getUpgrade C key;
     case r of
       Inl e \<Rightarrow> State_Monad.return (0, ignoreNotFound (Some e))
     | Inr up \<Rightarrow> do {
         berr \<leftarrow> (if upPhase (upStatus up) \<noteq> '''' \<and> upConds (upStatus up) = []
                 then upgradeBackfillConditions C key else State_Monad.return None);
         case berr of
           Some e \<Rightarrow> State_Monad.return (0, Some e)
         | None \<Rightarrow>
             if upgradePhaseTerminal (upPhase (upStatus up)) then State_Monad.return (0, None)
             else if upPhase (upStatus up) = UpgradePhaseRunning \<and> upJobName (upStatus up) \<noteq> '''' then upgradeMonitor C up
             else upgradeAdmit C key up
       }
   }"

end
