(* ===== verification/Upgrade_Safety.thy ===== *)
theory Upgrade_Safety
  imports Upgrade_Controller
begin

text \<open>
  What a pass over an OdooUpgrade guarantees: its phase only moves forward, success is only reported after a Job has
  succeeded, and a Job is only started for a valid upgrade whose turn it is.
\<close>

section \<open>The abstract upgrade\<close>

text \<open>An upgrade, seen from outside, is its phase; this is how it may move.\<close>

definition upgradePhases :: "string set" where
  "upgradePhases = {UpgradePhasePending, UpgradePhaseRunning, UpgradePhaseSucceeded, UpgradePhaseFailed}"

definition phaseStep :: "string \<Rightarrow> string \<Rightarrow> bool" where
  "phaseStep p q \<longleftrightarrow> \<not> upgradePhaseTerminal p \<and> q \<in> upgradePhases \<and> \<not> (p = UpgradePhaseRunning \<and> q = UpgradePhasePending)"

definition phaseRank :: "string \<Rightarrow> nat" where
  "phaseRank p = (if upgradePhaseTerminal p then 3 else if p = UpgradePhaseRunning then 2 else if p = UpgradePhasePending then 1 else 0)"

lemma phaseStep_forward: "phaseStep p q \<Longrightarrow> phaseRank p \<le> phaseRank q \<and> phaseRank p < 3"
  by (auto simp: phaseStep_def phaseRank_def upgradePhases_def upgradePhaseTerminal_def)

section \<open>Justified calls\<close>

definition upgradeRead :: "history \<Rightarrow> upgrade \<Rightarrow> bool" where
  "upgradeRead h u \<longleftrightarrow> (\<exists>key. (Get KUpgrade key, RObj (OUpgrade u)) \<in> set h)"

text \<open>The Job an upgrade names was read, and it has succeeded.\<close>

definition successRead :: "history \<Rightarrow> bool" where
  "successRead h \<longleftrightarrow> (\<exists>up j. upgradeRead h up \<and> upgradeJobSucceeded j
     \<and> (Get KJob (metaNamespace (upMeta up), upJobName (upStatus up)), RObj (OJob j)) \<in> set h)"

definition mayRun :: "history \<Rightarrow> upgrade \<Rightarrow> odoo_instance \<Rightarrow> bool" where
  "mayRun h up inst \<longleftrightarrow>
     upgradeRead h up \<and> \<not> upgradePhaseTerminal (upPhase (upStatus up)) \<and> upgradeValidateSpec up = None
     \<and> (Get KInstance (metaNamespace (upMeta up), refName (upInstanceRef (upSpec up))), RObj (OInstance inst)) \<in> set h
     \<and> upgradeDatabase up inst \<noteq> ''''
     \<and> (\<exists>items. (ListIn KUpgrade (metaNamespace (upMeta up)) [], RObjs items) \<in> set h
          \<and> MayStart (upgradeDecideStart up (List.map_filter asUpgrade items)))"

definition upgradeJobStarted :: "history \<Rightarrow> string \<Rightarrow> bool" where
  "upgradeJobStarted h name \<longleftrightarrow> (\<exists>j p. (Create (OJob j), p) \<in> set h \<and> metaName (jobMeta j) = name)"

definition upgradeWriteOk :: "history \<Rightarrow> upgrade \<Rightarrow> bool" where
  "upgradeWriteOk h u' \<longleftrightarrow>
     (\<exists>u. upgradeRead h u \<and> u' = u\<lparr>upStatus := upStatus u'\<rparr>
        \<and> (phaseStep (upPhase (upStatus u)) (upPhase (upStatus u'))
             \<and> (upPhase (upStatus u') = UpgradePhaseSucceeded \<longrightarrow> successRead h)
             \<and> (upPhase (upStatus u') = UpgradePhaseRunning \<longrightarrow> upgradeJobStarted h (upJobName (upStatus u')))
           \<or> upConds (upStatus u) = [] \<and> upStatus u' = (upStatus u)\<lparr>upConds := upConds (upStatus u')\<rparr>))"

fun upgradeJustified :: "history \<Rightarrow> req \<Rightarrow> bool" where
  "upgradeJustified h (StatusUpdate (OUpgrade u')) = upgradeWriteOk h u'"
| "upgradeJustified h (Create (OJob j)) =
     (\<exists>up inst node. mayRun h up inst \<and> jobSpec j = jobSpec (buildUpgradeJob up inst (upgradeDatabase up inst) node))"
| "upgradeJustified h (Get k key) = True"
| "upgradeJustified h (ListIn k ns l) = True"
| "upgradeJustified h (PodLogs ns n c t) = True"
| "upgradeJustified h (EmitEvent n) = (\<exists>u. evRegarding n = OUpgrade u)"
| "upgradeJustified h Now = True"
| "upgradeJustified h _ = False"

lemma read_grows:
  assumes "set h \<subseteq> set k"
  shows "upgradeRead h u \<Longrightarrow> upgradeRead k u" "successRead h \<Longrightarrow> successRead k" "mayRun h up inst \<Longrightarrow> mayRun k up inst"
    "upgradeJobStarted h n \<Longrightarrow> upgradeJobStarted k n"
  using assms by (auto simp: upgradeRead_def successRead_def mayRun_def upgradeJobStarted_def subset_iff; blast)+

lemma writeOk_grows: "set h \<subseteq> set k \<Longrightarrow> upgradeWriteOk h u \<Longrightarrow> upgradeWriteOk k u"
  unfolding upgradeWriteOk_def using read_grows by metis

interpretation upgrading: justified_calls upgradeJustified
proof
  fix h k r
  assume "set h \<subseteq> set k" "upgradeJustified h r"
  then show "upgradeJustified k r"
    by (cases "(h, r)" rule: upgradeJustified.cases) (auto intro: writeOk_grows read_grows)
qed

section \<open>Every write is justified\<close>

text \<open>A change that reads at most the clock, sets the phase it is meant for, and keeps a running upgrade's Job.\<close>

definition setsPhase :: "history \<Rightarrow> string \<Rightarrow> 'w status_change \<Rightarrow> bool" where
  "setsPhase h target mutate \<longleftrightarrow>
     (\<forall>s. only (\<lambda>r. r = Now) (mutate s)
        \<and> yields (\<lambda>t. upPhase t = target \<and> (target = UpgradePhaseRunning \<longrightarrow> upgradeJobStarted h (upJobName t))) (mutate s))"

lemma setsPhase_simps:
  "setsPhase h UpgradePhaseFailed (failUpgrade msg)"
  "setsPhase h UpgradePhaseFailed (failUpgradeNow C msg)"
  "setsPhase h UpgradePhasePending (\<lambda>s. State_Monad.return (s\<lparr>upPhase := UpgradePhasePending, upMessage := msg\<rparr>))"
  "setsPhase h UpgradePhaseSucceeded (\<lambda>s. State_Monad.return (s\<lparr>upPhase := UpgradePhaseSucceeded, upMessage := '''', upCompletionTime := c\<rparr>))"
  "upgradeJobStarted h n \<Longrightarrow> setsPhase h UpgradePhaseRunning (startUpgrade n now)"
  unfolding setsPhase_def failUpgrade_def failUpgradeNow_def startUpgrade_def call_defs
  by (auto intro!: frame_intros yields_intros)

lemma commit_sound:
  assumes "soundCalls upgradeJustified m" "upgradeWriteOk m (cur\<lparr>upStatus := after\<rparr>)"
    and finish: "\<And>a l. soundCalls upgradeJustified l \<Longrightarrow> set m \<subseteq> set l \<Longrightarrow> B a l"
  shows "wp (upgradeCommit C cur after) B m"
proof -
  have emit: "only (\<lambda>r. case r of EmitEvent n \<Rightarrow> \<exists>u. evRegarding n = OUpgrade u | _ \<Rightarrow> False)
      (emitEvents C (OUpgrade u) evs)" for u evs
    by (intro frame_intros) simp
  have events: "upgradeJustified m r" if "case r of EmitEvent n \<Rightarrow> \<exists>u. evRegarding n = OUpgrade u | _ \<Rightarrow> False" for m r
    using that by (cases r) auto
  show ?thesis
    unfolding upgradeCommit_def call_defs
    by (intro wp_intros upgrading.sound_ask [OF assms(1)] upgrading.sound_only [OF emit] finish) (use assms events in auto)
qed

lemma read_upgrade: "(Get KUpgrade key, p) \<in> set h \<Longrightarrow> objReply asUpgrade p = Inr u \<Longrightarrow> upgradeRead h u"
  unfolding upgradeRead_def objReply_Inr_iff as_iff by blast

lemma writeOnce_sound:
  assumes target: "setsPhase h target mutate" "target \<in> upgradePhases" "target = UpgradePhaseSucceeded \<Longrightarrow> successRead h"
    and sound: "soundCalls upgradeJustified k" "set h \<subseteq> set k"
    and finish: "\<And>a l. soundCalls upgradeJustified l \<Longrightarrow> set k \<subseteq> set l \<Longrightarrow> B a l"
  shows "wp (upgradeWriteOnce C key target reason mutate) B k"
proof -
  have commit: "wp (upgradeCommit C cur (upgradeNewStatus C cur reason s)) B m"
    if "soundCalls upgradeJustified m" "set k \<subseteq> set m" "upgradeRead m cur" "\<not> upgradePhaseTerminal (upPhase (upStatus cur))"
      "\<not> (target = UpgradePhasePending \<and> upPhase (upStatus cur) = UpgradePhaseRunning)"
      "upPhase s = target \<and> (target = UpgradePhaseRunning \<longrightarrow> upgradeJobStarted h (upJobName s))" for m cur s
  proof (rule commit_sound [OF that(1)])
    show "upgradeWriteOk m (cur\<lparr>upStatus := upgradeNewStatus C cur reason s\<rparr>)"
      unfolding upgradeWriteOk_def
      using that(3-) target(2,3) read_grows [OF subset_trans [OF sound(2) that(2)]]
      by (intro exI [of _ cur]) (auto simp: upgradeNewStatus_def Let_def phaseStep_def)
  qed (use that(2) finish in blast)
  have reads: "yields (\<lambda>t. upPhase t = target \<and> (target = UpgradePhaseRunning \<longrightarrow> upgradeJobStarted h (upJobName t))) (mutate s)"
      "only (\<lambda>r. r = Now) (mutate s)" for s
    using target(1) by (simp_all add: setsPhase_def)
  have change: "wp (mutate (upStatus cur)) (\<lambda>s. wp (upgradeCommit C cur (upgradeNewStatus C cur reason s)) B) l"
    if "soundCalls upgradeJustified l" "set k \<subseteq> set l" "upgradeRead l cur" "\<not> upgradePhaseTerminal (upPhase (upStatus cur))"
      "\<not> (target = UpgradePhasePending \<and> upPhase (upStatus cur) = UpgradePhaseRunning)" for l cur
    by (rule upgrading.sound_yields [OF reads that(1)])
      (use that in \<open>auto intro!: commit intro: read_grows\<close>)
  show ?thesis
    unfolding upgradeWriteOnce_def call_defs
    by (intro wp_bind upgrading.sound_ask [OF sound(1)] wp_sum wp_if wp_return change finish read_upgrade) auto
qed

lemma writeStatus_sound:
  assumes "setsPhase h target mutate" "target \<in> upgradePhases" "target = UpgradePhaseSucceeded \<Longrightarrow> successRead h"
    and "soundCalls upgradeJustified h" and "\<And>a k. soundCalls upgradeJustified k \<Longrightarrow> set h \<subseteq> set k \<Longrightarrow> B a k"
  shows "wp (upgradeWriteStatus C key target reason mutate) B h"
  unfolding upgradeWriteStatus_def
  by (intro wp_bind upgrading.sound_retry [OF writeOnce_sound] wp_return assms) (use assms in auto)

lemma backfill_sound:
  assumes "soundCalls upgradeJustified h" and "\<And>a k. soundCalls upgradeJustified k \<Longrightarrow> set h \<subseteq> set k \<Longrightarrow> B a k"
  shows "wp (upgradeBackfillConditions C key) B h"
proof -
  have once: "wp (upgradeBackfillOnce C key) D k"
    if "soundCalls upgradeJustified k" "\<And>a l. soundCalls upgradeJustified l \<Longrightarrow> set k \<subseteq> set l \<Longrightarrow> D a l" for k D
  proof -
    have ok: "upgradeJustified l (StatusUpdate (OUpgrade (cur\<lparr>upStatus := (upStatus cur)\<lparr>upConds := cs\<rparr>\<rparr>)))"
      if "upgradeRead l cur" "upConds (upStatus cur) = []" for l cur cs
      using that by (auto simp: upgradeWriteOk_def)
    show ?thesis
      unfolding upgradeBackfillOnce_def call_defs
      by (intro wp_bind upgrading.sound_ask [OF that(1)] wp_sum wp_if wp_return that(2))
        (auto intro!: upgrading.sound_ask that(2) ok read_upgrade)
  qed
  show ?thesis
    unfolding upgradeBackfillConditions_def
    by (intro wp_bind upgrading.sound_retry [OF once] wp_return assms) (use assms in auto)
qed

section \<open>The reconciler\<close>

lemma phases_in [simp]:
  "UpgradePhasePending \<in> upgradePhases" "UpgradePhaseRunning \<in> upgradePhases"
  "UpgradePhaseSucceeded \<in> upgradePhases" "UpgradePhaseFailed \<in> upgradePhases"
  by (simp_all add: upgradePhases_def)

lemma reads_sound:
  "only (\<lambda>r. \<exists>ns l. r = ListIn KPod ns l) (upgradeOdooPodNode C inst)"
  "only (\<lambda>r. (\<exists>ns l. r = ListIn KPod ns l) \<or> (\<exists>a b c d. r = PodLogs a b c d)) (upgradeLogTail C up)"
  "only (\<lambda>r. r = Now) (upgradeJobCompletion C j)"
  unfolding upgradeOdooPodNode_def upgradeLogTail_def upgradeJobCompletion_def call_defs by (auto intro!: frame_intros)

abbreviation (input) "keepsSound h m \<equiv> wp m (\<lambda>_ k. soundCalls upgradeJustified k \<and> set h \<subseteq> set k) h"

lemma keep:
  "keepsSound k m \<Longrightarrow> set h \<subseteq> set k \<Longrightarrow> wp m (\<lambda>_ l. soundCalls upgradeJustified l \<and> set h \<subseteq> set l) k"
  by (erule wp_mono) auto

lemma pending_sound: "soundCalls upgradeJustified h \<Longrightarrow> keepsSound h (upgradeSetPending C key reason msg)"
  unfolding upgradeSetPending_def
  by (intro wp_bind writeStatus_sound [OF setsPhase_simps(3)] wp_return) auto

lemma failing_sound:
  assumes "soundCalls upgradeJustified h"
  shows "keepsSound h (do { err \<leftarrow> upgradeWriteStatus C key UpgradePhaseFailed reason (failUpgrade msg); State_Monad.return (q, err) })"
    and "keepsSound h (do { err \<leftarrow> upgradeWriteStatus C key UpgradePhaseFailed reason (failUpgradeNow C msg); State_Monad.return (q, err) })"
  by (intro wp_bind writeStatus_sound [OF setsPhase_simps(1)] writeStatus_sound [OF setsPhase_simps(2)] wp_return, (use assms in auto))+

lemma start_sound:
  assumes sound: "soundCalls upgradeJustified h" and may: "upgradeDatabase up inst \<noteq> '''' \<Longrightarrow> mayRun h up inst"
  shows "keepsSound h (upgradeStart C up inst)"
proof (cases "upgradeDatabase up inst = ''''")
  case True
  show ?thesis unfolding upgradeStart_def Let_def if_P [OF True] by (rule failing_sound(1) [OF sound])
next
  case False
  have create: "upgradeJustified k (Create (OJob ((buildUpgradeJob up inst (upgradeDatabase up inst) node)\<lparr>jobMeta := m\<rparr>)))"
    if "set h \<subseteq> set k" for k node m
    using read_grows(3) [OF that may [OF False]] by auto
  have started: "setsPhase l UpgradePhaseRunning (startUpgrade (metaName m) now)"
    if "(Create (OJob (j\<lparr>jobMeta := m\<rparr>)), p) \<in> set k" "set k \<subseteq> set l" for k l m now j p
  proof (rule setsPhase_simps(5))
    have "(Create (OJob (j\<lparr>jobMeta := m\<rparr>)), p) \<in> set l \<and> metaName (jobMeta (j\<lparr>jobMeta := m\<rparr>)) = metaName m"
      using that by auto
    then show "upgradeJobStarted l (metaName m)" unfolding upgradeJobStarted_def by blast
  qed
  have node: "wp (if b then upgradeOdooPodNode C inst else State_Monad.return '''') B h"
    if "\<And>a k. soundCalls upgradeJustified k \<Longrightarrow> set h \<subseteq> set k \<Longrightarrow> B a k" for b B
    by (intro wp_if wp_return upgrading.sound_only [OF reads_sound(1) sound]) (auto intro: that sound)
  show ?thesis
    unfolding upgradeStart_def Let_def if_not_P [OF False] call_defs
    apply (intro wp_bind node wp_sum wp_return)
     apply blast
    apply (rule upgrading.sound_ask, assumption, erule create)
    apply (intro wp_option wp_return)
     apply (intro wp_bind, rule upgrading.sound_ask, assumption, simp)
     apply (rule wp_bind, rule writeStatus_sound [OF started], assumption, assumption, simp, simp, assumption)
    by (auto intro!: wp_return)
qed

lemma monitor_sound:
  assumes sound: "soundCalls upgradeJustified h" and up: "upgradeRead h up"
  shows "keepsSound h (upgradeMonitor C up)"
proof -
  have success: "successRead l" if "(Get KJob (metaNamespace (upMeta up), upJobName (upStatus up)), p) \<in> set k"
      "objReply asJob p = Inr j" "upgradeJobSucceeded j" "set h \<subseteq> set k" "set k \<subseteq> set l" for k l p j
    using that read_grows(1) [OF subset_trans [OF that(4,5)] up] unfolding successRead_def objReply_Inr_iff as_iff by blast
  have fresh: "wp (case t of None \<Rightarrow> State_Monad.return False
       | Some t \<Rightarrow> do { now \<leftarrow> ask C Now timeReply; State_Monad.return (timeSub now t < upgradeJobGrace) }) B k"
    if "soundCalls upgradeJustified k" "\<And>a l. soundCalls upgradeJustified l \<Longrightarrow> set k \<subseteq> set l \<Longrightarrow> B a l" for t B k
    by (intro wp_intros upgrading.sound_ask that) (use that in auto)
  show ?thesis
    unfolding upgradeMonitor_def Let_def getJob_def timeNow_def
    apply (rule wp_bind, rule upgrading.sound_ask [OF sound], simp, rule wp_sum; (intro wp_if wp_return)?)
         apply simp
        apply (rule wp_bind, rule fresh, assumption, intro wp_if wp_return, simp)
        apply (rule keep [OF failing_sound(2)], assumption, blast)
       apply (rule wp_bind, rule upgrading.sound_only [OF reads_sound(3)], assumption, simp, rule wp_bind)
       apply (rule writeStatus_sound [OF setsPhase_simps(4)], simp, erule success, assumption, assumption, blast, blast, assumption)
       apply (intro wp_return, blast)
      apply (rule wp_bind, rule upgrading.sound_only [OF reads_sound(2)], assumption, force)
      apply (rule keep [OF failing_sound(2)], assumption, blast)
    by auto
qed

lemma admit_sound:
  assumes sound: "soundCalls upgradeJustified h" and up: "upgradeRead h up" "\<not> upgradePhaseTerminal (upPhase (upStatus up))"
  shows "keepsSound h (upgradeAdmit C key up)"
proof -
  have listed: "listReply asUpgrade p = Inr xs \<Longrightarrow> \<exists>items. p = RObjs items \<and> xs = List.map_filter asUpgrade items" for p xs
    by (cases p) (auto simp: badReply_def)
  have may: "mayRun l up inst" if "upgradeValidateSpec up = None" "upgradeDatabase up inst \<noteq> ''''"
      "(Get KInstance (metaNamespace (upMeta up), refName (upInstanceRef (upSpec up))), p) \<in> set k" "objReply asInstance p = Inr inst"
      "(ListIn KUpgrade (metaNamespace (upMeta up)) [], q) \<in> set l" "listReply asUpgrade q = Inr xs" "MayStart (upgradeDecideStart up xs)"
      "set h \<subseteq> set k" "set k \<subseteq> set l" for inst p q xs k l
    using that up read_grows(1) [OF subset_trans [OF that(8,9)] up(1)] listed [OF that(6)]
    unfolding mayRun_def objReply_Inr_iff as_iff by blast
  show ?thesis
    unfolding upgradeAdmit_def Let_def getInstance_def listUpgrades_def
    apply (rule wp_option)
     apply (rule wp_bind, rule upgrading.sound_ask [OF sound], simp, rule wp_sum; (intro wp_if wp_return)?)
       apply (rule keep [OF pending_sound], assumption, assumption)
      apply blast
     apply (rule wp_bind, rule upgrading.sound_ask, assumption, simp, rule wp_sum; (intro wp_if wp_return)?)
       apply blast
      apply (rule keep [OF pending_sound], assumption, blast)
     apply (rule keep [OF start_sound], assumption, erule may, assumption+, simp, assumption+, blast)
    by (rule failing_sound(1) [OF sound])
qed

lemma reconcile_sound: "wp (upgradeReconcile C key) (\<lambda>_. soundCalls upgradeJustified) []"
proof -
  have fill: "wp (if b then upgradeBackfillConditions C key else State_Monad.return None) B k"
    if "soundCalls upgradeJustified k" "\<And>a l. soundCalls upgradeJustified l \<Longrightarrow> set k \<subseteq> set l \<Longrightarrow> B a l" for b B k
    by (intro wp_if wp_return backfill_sound that) auto
  have weaken: "keepsSound k m \<Longrightarrow> wp m (\<lambda>_. soundCalls upgradeJustified) k" for m :: "('a, outcome) prog" and k
    by (erule wp_mono) simp
  show ?thesis
    unfolding upgradeReconcile_def getUpgrade_def
    apply (rule wp_bind, rule upgrading.sound_ask [OF upgrading.sound_Nil], simp, rule wp_sum, rule wp_return, assumption)
    apply (rule wp_bind, rule fill, assumption)
    apply (intro wp_option wp_if wp_return, assumption)
      apply (rule weaken [OF monitor_sound], assumption, blast intro: read_grows(1) read_upgrade)
     apply (rule weaken [OF admit_sound], assumption, blast intro: read_grows(1) read_upgrade, assumption+)
    done
qed

section \<open>Properties\<close>

text \<open>C2: The upgrade reconciler refines its abstract machine, whatever the cluster answers: every status it writes is based
  on a copy it has read and moves the phase forward (never out of a terminal phase, never from Running back to
  Pending), or only fills in missing conditions; Succeeded is written only after the Job the upgrade names was read
  as succeeded, Running only after that Job's creation was asked for; a Job is created only for a valid,
  unfinished upgrade of an existing instance with a database, after the queue let it start. Nothing else is written.\<close>

theorem upgrade_reconcile_refines:
  "soundCalls upgradeJustified (callsOf (upgradeReconcile C key) w)"
  by (rule wp_callsOf [OF reconcile_sound])

text \<open>
  The life of one OdooUpgrade over any number of passes: \<open>upgradeLife C u v\<close>, from the stored copy \<open>u\<close>, accepted writes have led
  to the stored copy \<open>v\<close>. The server refuses a write based on a stale copy, so every copy read that a write can be based
  on is the stored one.
\<close>

inductive upgradeLife :: "'w cluster \<Rightarrow> upgrade \<Rightarrow> upgrade \<Rightarrow> bool" for C where
  life_start: "upgradeLife C u u"
| life_write: "\<lbrakk> upgradeLife C u v; h = callsOf (upgradeReconcile C key) w; (StatusUpdate (OUpgrade v'), ROk) \<in> set h;
     \<forall>x. upgradeRead h x \<and> v' = x\<lparr>upStatus := upStatus v'\<rparr> \<longrightarrow> x = v \<rbrakk> \<Longrightarrow> upgradeLife C u v'"

lemma conds_phase: "s = (t :: upgrade_status)\<lparr>upConds := c\<rparr> \<Longrightarrow> upPhase s = upPhase t"
  by simp

lemma status_spec: "v = (x :: upgrade)\<lparr>upStatus := t\<rparr> \<Longrightarrow> upSpec v = upSpec x"
  by simp

text \<open>Over any number of passes the phase of an upgrade never goes back, and a finished upgrade keeps its outcome for ever.\<close>

theorem upgrade_phase_monotone:
  assumes "upgradeLife C u v"
  shows "phaseRank (upPhase (upStatus u)) \<le> phaseRank (upPhase (upStatus v))
    \<and> (upgradePhaseTerminal (upPhase (upStatus u)) \<longrightarrow> upPhase (upStatus v) = upPhase (upStatus u))
    \<and> upSpec v = upSpec u"
  using assms
proof induction
  case (life_write u v h key w v')
  have "soundCalls upgradeJustified h" unfolding life_write(2) by (rule wp_callsOf [OF reconcile_sound])
  with life_write(3) have "upgradeWriteOk h v'" by (force simp: soundCalls_def list_all_iff)
  then obtain x where x: "upgradeRead h x" "v' = x\<lparr>upStatus := upStatus v'\<rparr>"
    and step: "phaseStep (upPhase (upStatus x)) (upPhase (upStatus v')) \<or> upStatus v' = (upStatus x)\<lparr>upConds := upConds (upStatus v')\<rparr>"
    unfolding upgradeWriteOk_def by blast
  from x life_write(4) have "x = v" by blast
  from step have "phaseStep (upPhase (upStatus v)) (upPhase (upStatus v')) \<or> upPhase (upStatus v') = upPhase (upStatus v)"
    unfolding \<open>x = v\<close> using conds_phase by blast
  moreover have "upSpec v' = upSpec v"
    using status_spec [OF x(2)] by (simp add: \<open>x = v\<close>)
  ultimately show ?case
    using life_write.IH phaseStep_forward unfolding phaseStep_def by fastforce
qed simp

definition invalidCluster :: "unit cluster" where
  "invalidCluster = (scripted (\<lambda>r. case r of Get _ _ \<Rightarrow> RObj (OUpgrade (sampleUpgrade '''')) | _ \<Rightarrow> ROk))\<lparr>hasRecorder := False\<rparr>"

definition failedSample :: upgrade where
  "failedSample = (sampleUpgrade '''')\<lparr>upStatus := upgradeNewStatus refLib (sampleUpgrade '''') ReasonInvalidSpec
     ((upStatus (sampleUpgrade ''''))\<lparr>upPhase := UpgradePhaseFailed, upMessage := ''instanceRef.name is required''\<rparr>)\<rparr>"

lemma new_invalid: "upgradeNewStatus invalidCluster = upgradeNewStatus refLib"
  by (simp add: fun_eq_iff upgradeNewStatus_def invalidCluster_def scripted_def setConditions_def kubelib.defs)

lemma failedSample_phase: "upPhase (upStatus failedSample) = UpgradePhaseFailed"
  by (simp add: failedSample_def upgradeNewStatus_def Let_def)

lemma invalid_answers:
  "api invalidCluster (Get k key) s = (RObj (OUpgrade (sampleUpgrade '''')), s)" "api invalidCluster (StatusUpdate x) s = (ROk, s)"
  "hasRecorder invalidCluster = False" "retrySteps invalidCluster = 4"
  by (simp_all add: invalidCluster_def scripted_def kubelib.defs)

lemma invalid_calls:
  "callsOf (upgradeReconcile invalidCluster (''ns'', ''up'')) () =
     [(Get KUpgrade (''ns'', ''up''), RObj (OUpgrade (sampleUpgrade ''''))),
      (Get KUpgrade (''ns'', ''up''), RObj (OUpgrade (sampleUpgrade ''''))),
      (StatusUpdate (OUpgrade failedSample), ROk)]"
proof -
  have bad: "upgradeValidateSpec (sampleUpgrade '''') = Some (PlainError ''instanceRef.name is required'')"
    by (simp add: upgradeValidateSpec_def sampleUpgrade_def Let_def)
  have changed: "upgradeNewStatus refLib (sampleUpgrade '''') ReasonInvalidSpec
      ((upStatus (sampleUpgrade ''''))\<lparr>upPhase := UpgradePhaseFailed, upMessage := ''instanceRef.name is required''\<rparr>)
      \<noteq> upStatus (sampleUpgrade '''')"
    using failedSample_phase by (auto simp: failedSample_def dest: arg_cong [of _ _ upPhase])
  show ?thesis
    using changed
    by (simp add: callsOf_def start_def upgradeReconcile_def upgradeAdmit_def bad upgradeWriteStatus_def upgradeWriteOnce_def
        upgradeCommit_def failUpgrade_def call_defs exec_simps invalid_answers new_invalid upgradePhaseTerminal_def emitEvents_def
        failedSample_def numeral_eq_Suc)
qed

theorem upgrade_phase_monotone_witness:
  "upgradeLife invalidCluster (sampleUpgrade '''') failedSample \<and> upSpec failedSample = upSpec (sampleUpgrade '''')"
proof -
  have "upgradeLife invalidCluster (sampleUpgrade '''') failedSample"
    by (rule life_write [OF life_start refl, of _ invalidCluster "(''ns'', ''up'')" "()"])
      (auto simp: invalid_calls upgradeRead_def)
  then show ?thesis using upgrade_phase_monotone by blast
qed

end
