(* ===== verification/Backup_Script.thy ===== *)
theory Backup_Script
  imports Workload_Parts Shell_Quote
begin

text \<open>
  \<open>odoobackup_script.go\<close>: the shell scripts of the backup pods, as text, and what their loops do: which files the retention
  step removes from a claim and from a bucket, and which files of the manifest the upload step visits.
\<close>

section \<open>Names\<close>

abbreviation (input) "envBackupDatabase \<equiv> ''BACKUP_DATABASE''"
abbreviation (input) "envBackupRetention \<equiv> ''BACKUP_RETENTION''"
abbreviation (input) "envBackupBucket \<equiv> ''BACKUP_BUCKET''"
abbreviation (input) "envBackupPrefix \<equiv> ''BACKUP_PREFIX''"
abbreviation (input) "envBackupEndpoint \<equiv> ''BACKUP_ENDPOINT''"
abbreviation (input) "envBackupForcePath \<equiv> ''BACKUP_FORCE_PATH_STYLE''"
abbreviation (input) "envBackupRegion \<equiv> ''AWS_DEFAULT_REGION''"
abbreviation (input) "envAWSAccessKeyID \<equiv> ''AWS_ACCESS_KEY_ID''"
abbreviation (input) "envAWSSecretAccessKey \<equiv> ''AWS_SECRET_ACCESS_KEY''"
abbreviation (input) "envPGDatabase \<equiv> ''PGDATABASE''"
abbreviation (input) "envPGHost \<equiv> ''PGHOST''"
abbreviation (input) "envPGPort \<equiv> ''PGPORT''"
abbreviation (input) "envPGUser \<equiv> ''PGUSER''"
abbreviation (input) "secretKeyAccessKeyID \<equiv> ''accessKeyID''"
abbreviation (input) "secretKeySecretKey \<equiv> ''secretAccessKey''"

definition backupAWSConfigPath :: string where "backupAWSConfigPath = ''/tmp/aws-config''"
definition backupFilestoreRoot :: string where "backupFilestoreRoot = mountPathData @ ''/filestore''"
definition backupPVCDir :: string where "backupPVCDir = ''/backup''"
definition backupScratchDir :: string where "backupScratchDir = ''/scratch''"
definition backupManifestName :: string where "backupManifestName = ''.files''"
definition backupResultPrefix :: string where "backupResultPrefix = ''backup: ''"
definition backupDumpSuffix :: string where "backupDumpSuffix = ''.dump''"
definition backupFilestoreSuffix :: string where "backupFilestoreSuffix = ''-filestore.tar.gz''"
definition backupDumpTimestampFmt :: string where "backupDumpTimestampFmt = ''%Y%m%dT%H%M%SZ''"

section \<open>Scripts\<close>

definition pgDumpStep :: string where
  \<open>pgDumpStep = ''pg_dump --format=custom --no-owner --no-password --file "$DIR/.$DUMP.partial"'' @ [CHR 0x0A]\<close>

definition filestoreSteps :: string where
  \<open>filestoreSteps = textLines
    [''FS="$'' @ envBackupDatabase @ ''-$STAMP'' @ backupFilestoreSuffix @ ''"'',
     ''FSDIR='' @ backupFilestoreRoot @ ''/"$'' @ envBackupDatabase @ ''"'',
     ''if [ -d "$FSDIR" ]; then'',
     ''  tar -C "${FSDIR%/*}" -czf "$DIR/.$FS.partial" "${FSDIR##*/}"'',
     ''  mv "$DIR/.$FS.partial" "$DIR/$FS"'',
     ''  record "$FS"'',
     ''else'',
     ''  echo "warning: filestore directory $FSDIR does not exist yet, skipping the filestore archive"'',
     ''fi'']\<close>

definition dumpHead :: "string \<Rightarrow> string" where
  \<open>dumpHead dir = textLines
    [''DIR='' @ goQuote dir,
     ''STAMP=$(date -u +'' @ goQuote backupDumpTimestampFmt @ '')'',
     ''FILES=""'',
     ''record() {'',
     ''  FILES="${FILES:+$FILES,}$1"'',
     ''}'',
     ''DUMP="$'' @ envBackupDatabase @ ''-$STAMP'' @ backupDumpSuffix @ ''"'']\<close>

definition backupDumpSteps :: "string \<Rightarrow> bool \<Rightarrow> string" where
  \<open>backupDumpSteps dir includeFilestore =
     dumpHead dir
     @ pgDumpStep
     @ textLines [''mv "$DIR/.$DUMP.partial" "$DIR/$DUMP"'', ''record "$DUMP"'']
     @ (if includeFilestore then filestoreSteps else '''')\<close>

definition backupCleanupTrap :: string where
  \<open>backupCleanupTrap = textLines [''trap \'rm -f -- "$DIR"/.*.partial 2>/dev/null\' EXIT'']\<close>

definition scriptHead :: string where
  "scriptHead = textLines [''set -eu'', ''export LC_ALL=C'']"

definition stampGlob :: string where
  "stampGlob = ''-[0-9][0-9][0-9][0-9][0-9][0-9][0-9][0-9]T[0-9][0-9][0-9][0-9][0-9][0-9]Z.dump''"

definition pruneDumpsFn :: string where
  \<open>pruneDumpsFn = textLines
    ['''',
     ''# Retention: names carry a UTC timestamp, so the glob sorts oldest first.'',
     ''prune_dumps() {'',
     ''  keep=$1'',
     ''  total=0'',
     ''  for f in "$DIR/$BACKUP_DATABASE"'' @ stampGlob @ ''; do'',
     ''    [ -e "$f" ] || continue'',
     ''    total=$((total + 1))'',
     ''  done'',
     ''  drop=$((total - keep))'',
     ''  i=0'',
     ''  for f in "$DIR/$BACKUP_DATABASE"'' @ stampGlob @ ''; do'',
     ''    [ -e "$f" ] || continue'',
     ''    i=$((i + 1))'',
     ''    if [ "$i" -le "$drop" ]; then'',
     ''      rm -f -- "$f" "${f%.dump}-filestore.tar.gz"'',
     ''      echo "pruned: $(basename "$f")"'',
     ''    fi'',
     ''  done'',
     ''}'']\<close>

definition buildBackupPVCScript :: "bool \<Rightarrow> string" where
  \<open>buildBackupPVCScript includeFilestore =
     scriptHead @ backupDumpSteps backupPVCDir includeFilestore @ backupCleanupTrap @ pruneDumpsFn
     @ textLines
       [''if [ "${'' @ envBackupRetention @ '':-0}" -gt 0 ]; then'',
        ''  prune_dumps "$'' @ envBackupRetention @ ''"'',
        ''fi'',
        ''echo "'' @ backupResultPrefix @ ''$FILES"'']\<close>

definition buildBackupDumpScript :: "bool \<Rightarrow> string" where
  \<open>buildBackupDumpScript includeFilestore =
     scriptHead @ backupDumpSteps backupScratchDir includeFilestore @ backupCleanupTrap
     @ textLines
       [''printf \'%s\' "$FILES" | tr \',\' '' @ [squote, bslash] @ ''n\' > "$DIR/'' @ backupManifestName @ ''"'',
        ''echo "dumped: $FILES"'']\<close>

definition uploadStep :: string where
  \<open>uploadStep = textLines
    [''set -eu'',
     ''export LC_ALL=C'',
     ''DIR=/scratch'',
     ''export AWS_CONFIG_FILE='' @ backupAWSConfigPath,
     ''if [ "${'' @ envBackupForcePath @ '':-false}" = "true" ]; then'',
     ''  printf \'[default]'' @ [bslash] @ ''ns3 ='' @ [bslash] @ ''n  addressing_style = path'' @ [bslash] @ ''n\' > "$AWS_CONFIG_FILE"'',
     ''fi'',
     ''awscli() {'',
     ''  if [ -n "${'' @ envBackupEndpoint @ '':-}" ]; then'',
     ''    aws --endpoint-url "$'' @ envBackupEndpoint @ ''" "$@"'',
     ''  else'',
     ''    aws "$@"'',
     ''  fi'',
     ''}'',
     ''KEYPREFIX=""'',
     ''if [ -n "${'' @ envBackupPrefix @ '':-}" ]; then'',
     ''  KEYPREFIX="${'' @ envBackupPrefix @ ''%/}/"'',
     ''fi'',
     ''if [ ! -s "$DIR/'' @ backupManifestName @ ''" ]; then'',
     ''  echo "error: backup manifest $DIR/'' @ backupManifestName @ '' is missing" >&2'',
     ''  exit 1'',
     ''fi'',
     ''FILES=""'',
     ''while IFS= read -r name; do'',
     ''  [ -n "$name" ] || continue'',
     ''  awscli s3 cp "$DIR/$name" "s3://$'' @ envBackupBucket @ ''/$KEYPREFIX$name"'',
     ''  FILES="${FILES:+$FILES,}$name"'',
     ''done < "$DIR/'' @ backupManifestName @ ''"'']\<close>

definition s3PruneStep :: string where
  \<open>s3PruneStep = textLines
    ['''',
     ''# Retention: list the database\'s dumps under the prefix, newest first, and delete the rest.'',
     ''if [ "${'' @ envBackupRetention @ '':-0}" -gt 0 ]; then'',
     ''  awscli s3api list-objects-v2 --bucket "$'' @ envBackupBucket @ ''" '' @ [bslash],
     ''    --prefix "$KEYPREFIX$'' @ envBackupDatabase @ ''-" --query \'Contents[].Key\' --output text '' @ [bslash],
     ''    | tr '' @ [squote] @ [bslash] @ ''t\' '' @ [squote] @ [bslash] @ ''n\' | sort -r > "$DIR/.keys"'',
     ''  : > "$DIR/.dumpkeys"'',
     ''  while IFS= read -r key; do'',
     ''    case "$key" in'',
     ''      "$KEYPREFIX$'' @ envBackupDatabase @ ''"-[0-9][0-9][0-9][0-9][0-9][0-9][0-9][0-9]T[0-9][0-9][0-9][0-9][0-9][0-9]Z.dump)'',
     ''        echo "$key" >> "$DIR/.dumpkeys" ;;'',
     ''    esac'',
     ''  done < "$DIR/.keys"'',
     ''  n=0'',
     ''  while IFS= read -r key; do'',
     ''    n=$((n + 1))'',
     ''    if [ "$n" -gt "$'' @ envBackupRetention @ ''" ]; then'',
     ''      awscli s3api delete-object --bucket "$'' @ envBackupBucket @ ''" --key "$key" >/dev/null'',
     ''      awscli s3api delete-object --bucket "$'' @ envBackupBucket @ ''" --key "${key%.dump}-filestore.tar.gz" >/dev/null'',
     ''      echo "pruned: $key"'',
     ''    fi'',
     ''  done < "$DIR/.dumpkeys"'',
     ''fi'']\<close>

definition buildBackupUploadScript :: string where
  \<open>buildBackupUploadScript = uploadStep @ s3PruneStep @ textLines [''echo "'' @ backupResultPrefix @ ''$FILES"'']\<close>

section \<open>What retention removes\<close>

definition archiveOf :: "string \<Rightarrow> string" where
  "archiveOf dump = trimSuffix dump ''.dump'' @ ''-filestore.tar.gz''"

text \<open>The pattern \<open>stampGlob\<close>: a UTC timestamp and the suffix of a dump, after a literal start.\<close>

definition isStamp :: "string \<Rightarrow> bool" where
  "isStamp s \<longleftrightarrow> length s = 16 \<and> list_all (byteIn 48 57) (take 8 s) \<and> s ! 8 = CHR ''T''
     \<and> list_all (byteIn 48 57) (take 6 (drop 9 s)) \<and> s ! 15 = CHR ''Z''"

definition isDumpOf :: "string \<Rightarrow> string \<Rightarrow> bool" where
  "isDumpOf start name \<longleftrightarrow>
     (case cutPrefix name (start @ ''-'') of
        None \<Rightarrow> False
      | Some rest \<Rightarrow> isStamp (take 16 rest) \<and> drop 16 rest = ''.dump'')"

text \<open>
  The second loop of \<open>prune_dumps\<close> over the matches of the glob, which the shell sorts by bytes under \<open>LC_ALL=C\<close>,
  and the loop over \<open>.dumpkeys\<close>. Both give the names that are removed.
\<close>

fun pruneLoop :: "int \<Rightarrow> int \<Rightarrow> string list \<Rightarrow> string list" where
  "pruneLoop drops i [] = []"
| "pruneLoop drops i (f # fs) =
     (if i + 1 \<le> drops then [f, archiveOf f] else []) @ pruneLoop drops (i + 1) fs"

definition pvcPruned :: "string \<Rightarrow> int \<Rightarrow> string list \<Rightarrow> string list" where
  "pvcPruned db retention dir =
     (if retention > 0
      then (let dumps = sort (filter (isDumpOf db) dir) in pruneLoop (int (length dumps) - retention) 0 dumps)
      else [])"

fun s3PruneLoop :: "int \<Rightarrow> int \<Rightarrow> string list \<Rightarrow> string list" where
  "s3PruneLoop retention n [] = []"
| "s3PruneLoop retention n (key # keys) =
     (if n + 1 > retention then [key, archiveOf key] else []) @ s3PruneLoop retention (n + 1) keys"

definition keyPrefix :: "string \<Rightarrow> string" where
  "keyPrefix prefix = (if prefix \<noteq> '''' then trimSuffix prefix ''/'' @ ''/'' else '''')"

definition s3Pruned :: "string \<Rightarrow> string \<Rightarrow> int \<Rightarrow> string list \<Rightarrow> string list" where
  "s3Pruned prefix db retention keys =
     (if retention > 0
      then s3PruneLoop retention 0 (filter (isDumpOf (keyPrefix prefix @ db))
        (rev (sort (filter (\<lambda>k. hasPrefix k (keyPrefix prefix @ db @ ''-'')) keys))))
      else [])"

section \<open>What the upload visits\<close>

text \<open>
  \<open>while IFS= read -r name\<close> runs its body for every line that ends in a newline: at the end of the file \<open>read\<close> fails,
  also when it has read the start of a line.
\<close>

definition readLoop :: "string \<Rightarrow> string list" where
  "readLoop txt = butlast (splitOn (CHR 0x0A) txt)"

definition manifestText :: "string \<Rightarrow> string" where
  "manifestText files = replaceChar (CHR '','') [CHR 0x0A] files"

definition uploadedNames :: "string \<Rightarrow> string list" where
  "uploadedNames manifest = filter (\<lambda>name. name \<noteq> '''') (readLoop manifest)"

section \<open>Retention keeps the newest dumps\<close>

lemma pruneLoop_set:
  "set (pruneLoop drops (int i) fs) = (let p = take (nat drops - i) fs in set p \<union> archiveOf ` set p)"
proof (induction fs arbitrary: i)
  case (Cons f fs)
  have IH: "set (pruneLoop drops (int i + 1) fs) = (let p = take (nat drops - Suc i) fs in set p \<union> archiveOf ` set p)"
    using Cons.IH [of "Suc i"] by (simp add: add.commute)
  show ?case
  proof (cases "nat drops - i")
    case (Suc m)
    moreover from Suc have "nat drops - Suc i = m" "int i + 1 \<le> drops" by simp_all
    ultimately show ?thesis using IH by (simp add: Let_def insert_commute)
  next
    case 0
    then have "\<not> int i + 1 \<le> drops" "nat drops - Suc i = 0" by simp_all
    then show ?thesis using IH 0 by simp
  qed
qed simp

lemma s3PruneLoop_set:
  "set (s3PruneLoop r (int n) keys) = (let p = drop (nat r - n) keys in set p \<union> archiveOf ` set p)"
proof (induction keys arbitrary: n)
  case (Cons k keys)
  have IH: "set (s3PruneLoop r (int n + 1) keys) = (let p = drop (nat r - Suc n) keys in set p \<union> archiveOf ` set p)"
    using Cons.IH [of "Suc n"] by (simp add: add.commute)
  show ?case
  proof (cases "nat r - n")
    case 0
    then have "int n + 1 > r" "nat r - Suc n = 0" by simp_all
    then show ?thesis using IH 0 by (simp add: Let_def insert_commute)
  next
    case (Suc m)
    moreover from Suc have "nat r - Suc n = m" "\<not> int n + 1 > r" by simp_all
    ultimately show ?thesis using IH by (simp add: Let_def)
  qed
qed simp

text \<open>The dumps of a database, oldest first, and those that are too many.\<close>

definition dumpsOf :: "string \<Rightarrow> string list \<Rightarrow> string list" where
  "dumpsOf db dir = sort (filter (isDumpOf db) dir)"

definition surplus :: "string \<Rightarrow> int \<Rightarrow> string list \<Rightarrow> string list" where
  "surplus db retention dir = (if retention > 0 then take (length (dumpsOf db dir) - nat retention) (dumpsOf db dir) else [])"

lemma pvcPruned_set: "set (pvcPruned db r dir) = set (surplus db r dir) \<union> archiveOf ` set (surplus db r dir)"
proof (cases "r > 0")
  case True
  then have "nat (int (length (dumpsOf db dir)) - r) = length (dumpsOf db dir) - nat r" by simp
  with True pruneLoop_set [of "int (length (dumpsOf db dir)) - r" 0 "dumpsOf db dir"] show ?thesis
    by (simp add: pvcPruned_def surplus_def Let_def flip: dumpsOf_def)
qed (simp add: pvcPruned_def surplus_def)

lemma isDumpOf_prefix: "isDumpOf (kp @ db) (kp @ f) = isDumpOf db f"
  by (simp add: isDumpOf_def cutPrefix_def hasPrefix_def)

lemma isDumpOf_hasPrefix: "isDumpOf db f \<Longrightarrow> hasPrefix f (db @ ''-'')"
  by (auto simp: isDumpOf_def cutPrefix_def split: if_splits)

lemma append_mono: "x \<le> y \<Longrightarrow> kp @ x \<le> kp @ (y :: string)"
  by (induction kp) simp_all

lemma sort_map_prefix: "sort (map ((@) kp) xs) = map ((@) kp) (sort (xs :: string list))"
  by (rule properties_for_sort) (simp_all add: sorted_map_mono mono_on_def append_mono)

lemma s3_dumps:
  "filter (isDumpOf (kp @ db)) (rev (sort (filter (\<lambda>k. hasPrefix k (kp @ db @ ''-'')) (map ((@) kp) dir))))
     = rev (map ((@) kp) (dumpsOf db dir))"
proof -
  have "hasPrefix (kp @ x) (kp @ db @ ''-'') \<and> isDumpOf db x \<longleftrightarrow> isDumpOf db x" for x
    using isDumpOf_hasPrefix [of db x] by (auto simp: hasPrefix_def)
  then show ?thesis
    by (simp add: rev_filter [symmetric] filter_sort rev_map [symmetric] dumpsOf_def filter_map o_def isDumpOf_prefix sort_map_prefix)
qed

lemma isDumpOf_ends: assumes "isDumpOf db f" obtains g where "f = g @ ''.dump''" "length g = length db + 17" "take (length db) g = db"
proof -
  from assms obtain rest where f: "f = db @ ''-'' @ rest" and s: "isStamp (take 16 rest)" "drop 16 rest = ''.dump''"
    by (auto simp: isDumpOf_def cutPrefix_def hasPrefix_iff split: if_splits)
  show thesis
  proof (rule that)
    show "f = (db @ ''-'' @ take 16 rest) @ ''.dump''"
      using f s(2) append_take_drop_id [of 16 rest] by simp
    show "length (db @ ''-'' @ take 16 rest) = length db + 17"
      using s(1) by (simp add: isStamp_def)
  qed simp
qed

lemma isDumpOf_unique: "isDumpOf a f \<Longrightarrow> isDumpOf b f \<Longrightarrow> a = b"
  by (elim isDumpOf_ends) (metis add_right_cancel append_same_eq)

lemma archiveOf_append: "archiveOf (g @ ''.dump'') = g @ ''-filestore.tar.gz''"
  by (simp add: archiveOf_def trimSuffix_def hasSuffix_def)

lemma archiveOf_prefix: "isDumpOf db f \<Longrightarrow> archiveOf (kp @ f) = kp @ archiveOf f"
  by (erule isDumpOf_ends) (metis append.assoc archiveOf_append)

lemma archive_not_dump: "isDumpOf db f \<Longrightarrow> f \<noteq> archiveOf x"
  by (erule isDumpOf_ends) (simp add: archiveOf_def)

lemma set_dumpsOf [simp]: "set (dumpsOf db dir) = {f \<in> set dir. isDumpOf db f}"
  by (auto simp: dumpsOf_def)

lemma surplus_dumps: "f \<in> set (surplus db r dir) \<Longrightarrow> f \<in> set dir \<and> isDumpOf db f"
  using set_take_subset [of "length (dumpsOf db dir) - nat r" "dumpsOf db dir"] by (auto simp: surplus_def split: if_splits)

lemma filter_not_taken: "distinct xs \<Longrightarrow> filter (\<lambda>x. x \<notin> set (take n xs)) xs = drop n xs"
proof -
  assume "distinct xs"
  then have "set (take n xs) \<inter> set (drop n xs) = {}" by (rule set_take_disj_set_drop_if_distinct) simp
  moreover have "filter P xs = filter P (take n xs) @ filter P (drop n xs)" for P
    by (metis append_take_drop_id filter_append)
  ultimately show ?thesis
    by (metis (no_types, lifting) append_Nil disjoint_iff filter_False filter_True)
qed

lemma pvcPruned_dump: "isDumpOf db f \<Longrightarrow> f \<in> set (pvcPruned db r dir) \<longleftrightarrow> f \<in> set (surplus db r dir)"
  using archive_not_dump [of db f] by (auto simp: pvcPruned_set)

lemma dumps_after_prune:
  assumes "distinct dir" "r > 0"
  shows "dumpsOf db (filter (\<lambda>f. f \<notin> set (pvcPruned db r dir)) dir) = drop (length (dumpsOf db dir) - nat r) (dumpsOf db dir)"
proof -
  have "filter (isDumpOf db) (filter (\<lambda>f. f \<notin> set (pvcPruned db r dir)) dir)
      = filter (\<lambda>f. f \<notin> set (surplus db r dir)) (filter (isDumpOf db) dir)"
    by (auto intro: filter_cong simp: pvcPruned_dump conj_commute)
  then have "dumpsOf db (filter (\<lambda>f. f \<notin> set (pvcPruned db r dir)) dir)
      = filter (\<lambda>f. f \<notin> set (surplus db r dir)) (dumpsOf db dir)"
    by (simp add: dumpsOf_def filter_sort)
  also have "\<dots> = drop (length (dumpsOf db dir) - nat r) (dumpsOf db dir)"
    using assms by (simp add: surplus_def filter_not_taken dumpsOf_def)
  finally show ?thesis .
qed

lemma s3Pruned_set:
  "set (s3Pruned prefix db r (map ((@) (keyPrefix prefix)) dir)) = (@) (keyPrefix prefix) ` set (pvcPruned db r dir)"
proof (cases "r > 0")
  case True
  let ?k = "(@) (keyPrefix prefix)"
  have "set (s3Pruned prefix db r (map ?k dir)) = (let p = drop (nat r) (rev (map ?k (dumpsOf db dir))) in set p \<union> archiveOf ` set p)"
    using s3PruneLoop_set [of r 0] True by (simp add: s3Pruned_def s3_dumps)
  moreover have "set (drop (nat r) (rev (map ?k (dumpsOf db dir)))) = ?k ` set (surplus db r dir)"
    using True by (simp add: drop_rev surplus_def take_map)
  ultimately have "set (s3Pruned prefix db r (map ?k dir)) = ?k ` set (surplus db r dir) \<union> archiveOf ` ?k ` set (surplus db r dir)"
    by (simp add: Let_def)
  moreover have "archiveOf ` ?k ` set (surplus db r dir) = ?k ` archiveOf ` set (surplus db r dir)"
    by (simp add: image_image archiveOf_prefix [OF conjunct2 [OF surplus_dumps]] cong: image_cong)
  ultimately show ?thesis
    by (simp add: pvcPruned_set image_Un)
qed (simp add: s3Pruned_def pvcPruned_def)

text \<open>C31: Retention keeps exactly the newest dumps of the backup's own database, and does the same in a claim and in a
  bucket: whatever the directory holds, a claim and a bucket prefix with the same names lose the same names; with a
  retention \<open>r\<close> above zero the dumps of the database that are left are the last \<open>r\<close> in the order of their
  timestamps, with none above zero nothing is removed; dumps of another database are never removed.\<close>

theorem retention_equivalent:
  assumes "distinct dir"
  shows "set (s3Pruned prefix db r (map ((@) (keyPrefix prefix)) dir)) = (@) (keyPrefix prefix) ` set (pvcPruned db r dir)
    \<and> (if r > 0 then dumpsOf db (filter (\<lambda>f. f \<notin> set (pvcPruned db r dir)) dir)
           = drop (length (dumpsOf db dir) - nat r) (dumpsOf db dir)
       else pvcPruned db r dir = [])
    \<and> (\<forall>f other. isDumpOf other f \<and> f \<in> set (pvcPruned db r dir) \<longrightarrow> other = db)"
proof -
  have "other = db" if "isDumpOf other f" "f \<in> set (pvcPruned db r dir)" for f other
    using that isDumpOf_unique [of other f db] archive_not_dump [of other f] surplus_dumps [of f db r dir] by (auto simp: pvcPruned_set)
  moreover have "r \<le> 0 \<Longrightarrow> pvcPruned db r dir = []" by (simp add: pvcPruned_def)
  ultimately show ?thesis using assms by (auto simp: s3Pruned_set dumps_after_prune)
qed

definition dayDump :: "string \<Rightarrow> string" where
  "dayDump d = ''shop-202601'' @ d @ ''T000000Z.dump''"

lemma day_dumps: "isDumpOf ''shop'' (dayDump ''01'')" "isDumpOf ''shop'' (dayDump ''02'')"
  by (simp_all add: isDumpOf_def dayDump_def cutPrefix_def isStamp_def byteIn_def)

theorem retention_equivalent_witness:
  "distinct [dayDump ''02'', dayDump ''01''] \<and>
   pvcPruned ''shop'' 1 [dayDump ''02'', dayDump ''01''] = [dayDump ''01'', ''shop-20260101T000000Z-filestore.tar.gz''] \<and>
   dumpsOf ''shop'' (filter (\<lambda>f. f \<notin> set (pvcPruned ''shop'' 1 [dayDump ''02'', dayDump ''01''])) [dayDump ''02'', dayDump ''01''])
     = [dayDump ''02'']"
proof -
  have d: "distinct [dayDump ''02'', dayDump ''01'']" by (simp add: dayDump_def)
  have "sort [dayDump ''02'', dayDump ''01''] = [dayDump ''01'', dayDump ''02'']" by (simp add: dayDump_def less_char_def less_eq_char_def)
  then have s: "dumpsOf ''shop'' [dayDump ''02'', dayDump ''01''] = [dayDump ''01'', dayDump ''02'']"
    by (simp add: dumpsOf_def day_dumps)
  have "archiveOf (dayDump ''01'') = ''shop-20260101T000000Z-filestore.tar.gz''"
    by (simp add: archiveOf_def dayDump_def trimSuffix_def hasSuffix_def hasPrefix_def)
  with s have p: "pvcPruned ''shop'' 1 [dayDump ''02'', dayDump ''01''] = [dayDump ''01'', ''shop-20260101T000000Z-filestore.tar.gz'']"
    unfolding pvcPruned_def dumpsOf_def [symmetric] s by simp
  have "dumpsOf ''shop'' (filter (\<lambda>f. f \<notin> set (pvcPruned ''shop'' 1 [dayDump ''02'', dayDump ''01''])) [dayDump ''02'', dayDump ''01''])
      = drop (length (dumpsOf ''shop'' [dayDump ''02'', dayDump ''01'']) - nat 1) (dumpsOf ''shop'' [dayDump ''02'', dayDump ''01''])"
    using retention_equivalent [OF d, of "''x''" "''shop''" 1] unfolding if_P [OF zero_less_one] by blast
  then have "dumpsOf ''shop'' (filter (\<lambda>f. f \<notin> set (pvcPruned ''shop'' 1 [dayDump ''02'', dayDump ''01''])) [dayDump ''02'', dayDump ''01''])
      = [dayDump ''02'']"
    unfolding s by simp
  with d p show ?thesis by blast
qed

section \<open>The manifest of an upload\<close>

text \<open>
  The manifest is written without a final newline, so the last file it names is never visited: the filestore archive of
  a backup is not uploaded, and a backup without one uploads nothing at all and still ends well.
\<close>

lemma replaceChar_append [simp]: "replaceChar c r (x @ y) = replaceChar c r x @ replaceChar c r y"
  by (simp add: replaceChar_def)

lemma replaceChar_plain: "c \<notin> set x \<Longrightarrow> replaceChar c r x = x"
  by (induction x) (auto simp: replaceChar_def)

lemma manifest_lines:
  "list_all (\<lambda>n. CHR '','' \<notin> set n \<and> CHR 0x0A \<notin> set n) names \<Longrightarrow> names \<noteq> [] \<Longrightarrow>
   splitOn (CHR 0x0A) (manifestText (joinWith '','' names)) = names"
proof (induction names)
  case (Cons x names)
  have comma: "replaceChar (CHR '','') [CHR 0x0A] (CHR '','' # s) = CHR 0x0A # replaceChar (CHR '','') [CHR 0x0A] s" for s
    by (simp add: replaceChar_def)
  show ?case
  proof (cases "names = []")
    case True
    with Cons.prems show ?thesis by (simp add: manifestText_def splitOn_plain replaceChar_plain)
  next
    case False
    with Cons show ?thesis by (simp add: manifestText_def joinWith_Cons replaceChar_plain comma splitOn_append_sep)
  qed
qed simp

text \<open>C38: An S3 backup reports success without its last file. The manifest is the list of the files with commas turned into
  newlines and no newline at its end; the upload loop visits exactly the files before the last one.\<close>

theorem upload_skips_last:
  assumes "list_all (\<lambda>n. n \<noteq> '''' \<and> CHR '','' \<notin> set n \<and> CHR 0x0A \<notin> set n) names" "names \<noteq> []"
  shows "uploadedNames (manifestText (joinWith '','' names)) = butlast names"
proof -
  have "uploadedNames (manifestText (joinWith '','' names)) = filter (\<lambda>n. n \<noteq> '''') (butlast names)"
    using assms manifest_lines [of names] by (auto simp: uploadedNames_def readLoop_def list_all_iff)
  also have "\<dots> = butlast names"
    using assms(1) by (auto simp: filter_id_conv list_all_iff dest: in_set_butlastD)
  finally show ?thesis .
qed

theorem upload_skips_last_witness:
  "uploadedNames (manifestText (joinWith '','' [''a.dump'', ''a.tgz''])) = [''a.dump''] \<and> uploadedNames (manifestText (joinWith '','' [''a.dump''])) = []"
  using upload_skips_last [of "[''a.dump'', ''a.tgz'']"] upload_skips_last [of "[''a.dump'']"] by simp

text \<open>The trap that removes partial files is only set once the dump has succeeded: under \<open>set -e\<close> a failing
  \<open>pg_dump\<close> ends the script before it.\<close>

lemma trap_after_dump:
  "\<exists>after rest. backupDumpSteps backupPVCDir fs = dumpHead backupPVCDir @ pgDumpStep @ after
     \<and> buildBackupPVCScript fs = scriptHead @ dumpHead backupPVCDir @ pgDumpStep @ after @ backupCleanupTrap @ rest"
proof -
  obtain after where "backupDumpSteps backupPVCDir fs = dumpHead backupPVCDir @ pgDumpStep @ after"
    unfolding backupDumpSteps_def by blast
  then show ?thesis
    unfolding buildBackupPVCScript_def by auto
qed

end
