(* ===== verification/Backup_Job.thy ===== *)
theory Backup_Job
  imports Instance_Workload Bounded_Names Backup_Script Kube_Reference
begin

text \<open>
  \<open>odoobackup_job.go\<close>: the hardened pod template shared by the one-shot Job and the CronJob of an OdooBackup, the hash the
  reconciler compares CronJobs by, and the reading of the result line. \<open>json.Marshal\<close> of a Job spec is a field of the
  library.
\<close>

abbreviation (input) "backupLabelKey \<equiv> ''odoo.operator.io/backup''"
abbreviation (input) "backupHashAnnotation \<equiv> ''odoo.operator.io/backup-hash''"
abbreviation (input) "backupInitContainer \<equiv> ''dump''"
abbreviation (input) "backupMainContainer \<equiv> ''backup''"
abbreviation (input) "backupVolumeScratch \<equiv> ''scratch''"
abbreviation (input) "volumeDestination \<equiv> ''destination''"
abbreviation (input) "backupShell \<equiv> ''/bin/sh''"

definition backupPGPortDefault :: string where "backupPGPortDefault = ''5432''"
definition backupHome :: string where "backupHome = ''/tmp''"
definition backupDefaultTimeout :: int where "backupDefaultTimeout = 3600"
definition backupDefaultScratch :: string where "backupDefaultScratch = ''10Gi''"
definition backupTTLSeconds :: int where "backupTTLSeconds = 86400"
definition backupHistoryLimit :: int where "backupHistoryLimit = 3"
definition backupStartingDeadline :: int where "backupStartingDeadline = 300"
definition backupPodUID :: int where "backupPodUID = 70"

section \<open>Settings\<close>

definition backupImage :: "'w cluster \<Rightarrow> string" where
  "backupImage C = (if getenv C ''OPERATOR_BACKUP_IMAGE'' \<noteq> '''' then getenv C ''OPERATOR_BACKUP_IMAGE'' else ''postgres:17-alpine'')"

definition backupS3Image :: "'w cluster \<Rightarrow> string" where
  "backupS3Image C = (if getenv C ''OPERATOR_S3_IMAGE'' \<noteq> '''' then getenv C ''OPERATOR_S3_IMAGE'' else ''amazon/aws-cli:2.27.50'')"

definition backupLabels :: "string \<Rightarrow> strmap" where
  "backupLabels backupName = [(labelManagedBy, managedByOperator), (backupLabelKey, backupLabelValue backupName)]"

definition backupDatabase :: "backup \<Rightarrow> odoo_instance \<Rightarrow> string" where
  "backupDatabase bk inst = (if bkDatabase (bkSpec bk) \<noteq> '''' then bkDatabase (bkSpec bk) else pgDatabase (instPostgres (instSpec inst)))"

definition backupIncludeFilestore :: "backup \<Rightarrow> bool" where
  "backupIncludeFilestore bk = (case bkIncludeFilestore (bkSpec bk) of None \<Rightarrow> True | Some b \<Rightarrow> b)"

definition backupRetention :: "backup \<Rightarrow> int" where
  "backupRetention bk = (case bkRetention (bkSpec bk) of None \<Rightarrow> 0 | Some n \<Rightarrow> n)"

definition backupTimeout :: "backup \<Rightarrow> int" where
  "backupTimeout bk = (case bkTimeoutSeconds (bkSpec bk) of Some t \<Rightarrow> t | None \<Rightarrow> backupDefaultTimeout)"

definition backupScratchQuantity :: "'m kubelib_scheme \<Rightarrow> backup \<Rightarrow> string" where
  "backupScratchQuantity L bk =
     (let raw = (if bkScratchSize (bkSpec bk) = '''' then backupDefaultScratch else bkScratchSize (bkSpec bk)) in
      case ParseQuantity L raw of Inr q \<Rightarrow> q | Inl _ \<Rightarrow> backupDefaultScratch)"

definition backupAccessMode :: "string \<Rightarrow> string" where
  "backupAccessMode mode = (if mode = '''' then ReadWriteOnce else mode)"

definition backupNeedsNodePin :: "instance_spec \<Rightarrow> bool \<Rightarrow> bool" where
  "backupNeedsNodePin spec includeFilestore \<longleftrightarrow> includeFilestore \<and> backupAccessMode (dvAccessMode (instData spec)) \<noteq> ReadWriteMany"

section \<open>Environments\<close>

definition secretEnv :: "string \<Rightarrow> string \<Rightarrow> string \<Rightarrow> env_var" where
  "secretEnv name secret key = (name, secretKeyRef secret key)"

definition backupPGEnv :: "instance_spec \<Rightarrow> string \<Rightarrow> env_var list" where
  "backupPGEnv spec database =
     (let pg = instPostgres spec in
      [(envPGDatabase, EnvValue database)]
      @ (if pgHost pg \<noteq> '''' then [(envPGHost, EnvValue (pgHost pg))] else [])
      @ [(envPGPort, EnvValue (if pgPort pg > 0 then intDec (pgPort pg) else backupPGPortDefault))]
      @ (if pgUser pg \<noteq> '''' then [(envPGUser, EnvValue (pgUser pg))] else [])
      @ (if pgPasswordSecret pg \<noteq> '''' then [secretEnv envPGPassword (pgPasswordSecret pg) secretKeyPassword] else [])
      @ [(envPGSSLMode, EnvValue sslModeRequire)])"

definition backupS3Env :: "backup_s3 \<Rightarrow> int \<Rightarrow> string \<Rightarrow> env_var list" where
  "backupS3Env s3 retention database =
     [(envBackupDatabase, EnvValue database), (envBackupRetention, EnvValue (intDec retention)),
      (envBackupBucket, EnvValue (Bucket s3)), (envBackupForcePath, EnvValue (if ForcePathStyle s3 then ''true'' else ''false'')),
      (''HOME'', EnvValue backupHome),
      secretEnv envAWSAccessKeyID (CredentialsSecret s3) secretKeyAccessKeyID,
      secretEnv envAWSSecretAccessKey (CredentialsSecret s3) secretKeySecretKey]
     @ (if Prefix s3 \<noteq> '''' then [(envBackupPrefix, EnvValue (Prefix s3))] else [])
     @ (if Endpoint s3 \<noteq> '''' then [(envBackupEndpoint, EnvValue (Endpoint s3))] else [])
     @ (if Region s3 \<noteq> '''' then [(envBackupRegion, EnvValue (Region s3))] else [])"

section \<open>The pod\<close>

definition backupContainerSecurity :: container_security where
  "backupContainerSecurity = \<lparr>allowPrivilegeEscalation = Some False, readOnlyRootFilesystem = Some True,
     ctrRunAsNonRoot = Some True, capsDropped = [''ALL'']\<rparr>"

definition backupPodSecurity :: pod_security where
  "backupPodSecurity = \<lparr>runAsNonRoot = Some True, runAsUser = Some backupPodUID, runAsGroup = Some backupPodUID,
     fsGroup = Some odooUID, seccompProfile = ''RuntimeDefault''\<rparr>"

definition backupResources :: resources where
  "backupResources = \<lparr>resRequests = Some [(''cpu'', ''100m''), (''memory'', ''256Mi'')],
     resLimits = Some [(''cpu'', ''1''), (''memory'', ''1Gi'')]\<rparr>"

definition backupContainer :: "string \<Rightarrow> string \<Rightarrow> string \<Rightarrow> env_var list \<Rightarrow> volume_mount list \<Rightarrow> container" where
  "backupContainer name img script env mounts = zeroContainer\<lparr>ctrName := name, ctrImage := img,
     ctrCommand := [backupShell, ''-c'', script], ctrEnv := env, ctrResources := backupResources, ctrMounts := mounts,
     ctrSecurity := Some backupContainerSecurity\<rparr>"

definition dataMount :: "bool \<Rightarrow> volume_mount list" where
  "dataMount includeFS = (if includeFS then [mount volumeData mountPathData True] else [])"

definition backupTmpMount :: volume_mount where
  "backupTmpMount = mount volumeTmp mountPathTmp False"

text \<open>The containers of a claim destination and of an S3 destination: init containers, containers, and the extra volume.\<close>

definition pvcBackup ::
  "'w cluster \<Rightarrow> backup \<Rightarrow> odoo_instance \<Rightarrow> string \<Rightarrow> backup_pvc \<Rightarrow> container list \<times> container list \<times> volume" where
  "pvcBackup C bk inst database p =
     (let fs = backupIncludeFilestore bk in
      ([], [backupContainer backupMainContainer (backupImage C) (buildBackupPVCScript fs)
              (backupPGEnv (instSpec inst) database
                @ [(envBackupDatabase, EnvValue database), (envBackupRetention, EnvValue (intDec (backupRetention bk)))])
              (dataMount fs @ [(mount volumeDestination backupPVCDir False)\<lparr>mountSubPath := SubPath p\<rparr>, backupTmpMount])],
       (volumeDestination, PvcVolume (ClaimName p) False)))"

definition s3Backup ::
  "'w cluster \<Rightarrow> backup \<Rightarrow> odoo_instance \<Rightarrow> string \<Rightarrow> backup_s3 \<Rightarrow> container list \<times> container list \<times> volume" where
  "s3Backup C bk inst database s3 =
     (let fs = backupIncludeFilestore bk; scratch = mount backupVolumeScratch backupScratchDir False in
      ([backupContainer backupInitContainer (backupImage C) (buildBackupDumpScript fs)
          (backupPGEnv (instSpec inst) database @ [(envBackupDatabase, EnvValue database)])
          (dataMount fs @ [scratch, backupTmpMount])],
       [backupContainer backupMainContainer (backupS3Image C) buildBackupUploadScript
          (backupS3Env s3 (backupRetention bk) database) [scratch, backupTmpMount]],
       (backupVolumeScratch, EmptyDirVolume '''' (Some (backupScratchQuantity C bk)))))"

text \<open>
  The source takes the S3 branch whenever there is no claim; its callers have validated that one of the two is there.
  With neither, reading \<open>s3.Bucket\<close> of the nil pointer panics, which is \<open>None\<close> here.
\<close>

definition backupParts ::
  "'w cluster \<Rightarrow> backup \<Rightarrow> odoo_instance \<Rightarrow> string \<Rightarrow> (container list \<times> container list \<times> volume) option" where
  "backupParts C bk inst database =
     (case destPVC (bkDestination (bkSpec bk)) of
        Some p \<Rightarrow> Some (pvcBackup C bk inst database p)
      | None \<Rightarrow> map_option (s3Backup C bk inst database) (destS3 (bkDestination (bkSpec bk))))"

definition backupPodOf :: "backup \<Rightarrow> odoo_instance \<Rightarrow> string \<Rightarrow> container list \<times> container list \<times> volume \<Rightarrow> pod_spec" where
  "backupPodOf bk inst nodeName parts =
     (case parts of (inits, mains, vol) \<Rightarrow>
        zeroPodSpec\<lparr>podRestartPolicy := ''Never'', podAutomountToken := Some False, podSecurity := backupPodSecurity,
          podInitContainers := inits, podContainers := mains,
          podVolumes := [(volumeTmp, EmptyDirVolume '''' None)]
            @ (if backupIncludeFilestore bk then [(volumeData, PvcVolume (dataPVCName (metaName (instMeta inst))) True)] else [])
            @ [vol],
          podNodeSelector := (if nodeName \<noteq> '''' \<and> backupNeedsNodePin (instSpec inst) (backupIncludeFilestore bk)
            then [(nodeHostLabel, nodeName)] else [])\<rparr>)"

definition buildBackupPodSpec :: "'w cluster \<Rightarrow> backup \<Rightarrow> odoo_instance \<Rightarrow> string \<Rightarrow> string \<Rightarrow> pod_spec option" where
  "buildBackupPodSpec C bk inst database nodeName = map_option (backupPodOf bk inst nodeName) (backupParts C bk inst database)"

section \<open>The Job and the CronJob\<close>

definition buildBackupJobSpec :: "'w cluster \<Rightarrow> backup \<Rightarrow> odoo_instance \<Rightarrow> string \<Rightarrow> string \<Rightarrow> job_spec option" where
  "buildBackupJobSpec C bk inst database nodeName =
     map_option (\<lambda>p. \<lparr>jobBackoffLimit = Some 0, jobDeadline = Some (backupTimeout bk), jobTTL = Some backupTTLSeconds,
       jobTemplate = \<lparr>templLabels = backupLabels (metaName (bkMeta bk)), templAnnotations = [], templSpec = p\<rparr>\<rparr>)
     (buildBackupPodSpec C bk inst database nodeName)"

definition buildBackupJob :: "'w cluster \<Rightarrow> backup \<Rightarrow> odoo_instance \<Rightarrow> string \<Rightarrow> string \<Rightarrow> job option" where
  "buildBackupJob C bk inst database nodeName =
     map_option (newJob ((newMeta (backupJobName (metaName (bkMeta bk))) (metaNamespace (bkMeta bk)))
        \<lparr>metaLabels := backupLabels (metaName (bkMeta bk))\<rparr>))
     (buildBackupJobSpec C bk inst database nodeName)"

definition backupSpecHash :: "'m kubelib_scheme \<Rightarrow> job_spec \<Rightarrow> string" where
  "backupSpecHash L v = (case MarshalJobSpec L v of Inl _ \<Rightarrow> '''' | Inr raw \<Rightarrow> fnvHex raw)"

definition backupCronJobOf :: "'w cluster \<Rightarrow> backup \<Rightarrow> job_spec \<Rightarrow> cronjob" where
  "backupCronJobOf C bk spec =
     \<lparr>cronMeta = (newMeta (backupCronJobName (metaName (bkMeta bk))) (metaNamespace (bkMeta bk)))
        \<lparr>metaLabels := backupLabels (metaName (bkMeta bk)), metaAnnotations := [(backupHashAnnotation, backupSpecHash C spec)]\<rparr>,
      cronSpec = \<lparr>cronSchedule = bkSchedule (bkSpec bk), cronStartingDeadline = Some backupStartingDeadline,
        cronConcurrency = ''Forbid'', cronSuspend = Some (bkSuspend (bkSpec bk)), cronSuccessHistory = Some backupHistoryLimit,
        cronFailedHistory = Some backupHistoryLimit, cronTemplateLabels = backupLabels (metaName (bkMeta bk)), cronJobSpec = spec\<rparr>,
      cronLastSchedule = None, cronLastSuccess = None\<rparr>"

definition buildBackupCronJob :: "'w cluster \<Rightarrow> backup \<Rightarrow> odoo_instance \<Rightarrow> string \<Rightarrow> string \<Rightarrow> cronjob option" where
  "buildBackupCronJob C bk inst database nodeName =
     map_option (backupCronJobOf C bk) (buildBackupJobSpec C bk inst database nodeName)"

section \<open>The result line\<close>

fun lastResult :: "string \<Rightarrow> string list \<Rightarrow> string" where
  "lastResult result [] = result"
| "lastResult result (line # ls) =
     lastResult (case cutPrefix (trimSpace line) backupResultPrefix of Some rest \<Rightarrow> trimSpace rest | None \<Rightarrow> result) ls"

definition backupParseResult :: "string \<Rightarrow> string" where
  "backupParseResult logs = lastResult '''' (splitOn (CHR 0x0A) logs)"

section \<open>What the pod guarantees\<close>

lemma backupContainer_simps [simp]:
  "confined (backupContainer n i s e m)" "ctrEnv (backupContainer n i s e m) = e" "ctrMounts (backupContainer n i s e m) = m"
  "ctrCommand (backupContainer n i s e m) = [backupShell, ''-c'', s]"
  by (simp_all add: backupContainer_def confined_def backupContainerSecurity_def zeroContainer_def)

lemma backup_not_selected:
  "\<not> labelSelects (selectorLabels n) (backupLabels m)" "\<not> labelSelects (podLabels n) (backupLabels m)"
  by (simp_all add: labelSelects_def selectorLabels_def podLabels_def backupLabels_def)

lemma pg_env_names: "fst ` set (backupPGEnv spec database) \<subseteq> {envPGDatabase, envPGHost, envPGPort, envPGUser, envPGPassword, envPGSSLMode}"
  by (auto simp: backupPGEnv_def Let_def secretEnv_def)

lemma s3_env_names:
  "fst ` set (backupS3Env s3 r database) \<subseteq> {envBackupDatabase, envBackupRetention, envBackupBucket, envBackupForcePath, ''HOME'',
     envAWSAccessKeyID, envAWSSecretAccessKey, envBackupPrefix, envBackupEndpoint, envBackupRegion}"
  by (auto simp: backupS3Env_def secretEnv_def)

definition backupContainers :: "pod_spec \<Rightarrow> container list" where
  "backupContainers p = podInitContainers p @ podContainers p"

text \<open>What a single container of a backup may do: run one of the fixed scripts, mount the data of the instance read-only, and
  hold the database password or the S3 keys, but not both.\<close>

definition backupScripts :: "string set" where
  "backupScripts = {buildBackupPVCScript True, buildBackupPVCScript False, buildBackupDumpScript True, buildBackupDumpScript False,
     buildBackupUploadScript}"

definition singleDuty :: "container \<Rightarrow> bool" where
  "singleDuty c \<longleftrightarrow>
     (\<exists>s \<in> backupScripts. ctrCommand c = [backupShell, ''-c'', s])
     \<and> (\<forall>m \<in> set (ctrMounts c). mountName m = volumeData \<longrightarrow> mountReadOnly m)
     \<and> (envPGPassword \<in> fst ` set (ctrEnv c) \<longrightarrow> envAWSSecretAccessKey \<notin> fst ` set (ctrEnv c))"

lemma names_apart:
  "envAWSSecretAccessKey \<notin> fst ` set (backupPGEnv spec database)" "envPGPassword \<notin> fst ` set (backupS3Env s3 r database)"
   apply (rule notI, drule subsetD [OF pg_env_names], simp)
  apply (rule notI, drule subsetD [OF s3_env_names], simp)
  done

lemma duty_container:
  assumes "s \<in> backupScripts" "envPGPassword \<in> fst ` set e \<longrightarrow> envAWSSecretAccessKey \<notin> fst ` set e"
    and "\<forall>m \<in> set ms. mountName m = volumeData \<longrightarrow> mountReadOnly m"
  shows "singleDuty (backupContainer n i s e ms)"
  using assms unfolding singleDuty_def backupContainer_simps by blast

lemma data_readonly:
  "\<forall>m \<in> set (dataMount fs @ [(mount volumeDestination d False)\<lparr>mountSubPath := q\<rparr>, backupTmpMount]). mountName m = volumeData \<longrightarrow> mountReadOnly m"
  "\<forall>m \<in> set (dataMount fs @ [mount backupVolumeScratch d False, backupTmpMount]). mountName m = volumeData \<longrightarrow> mountReadOnly m"
  "\<forall>m \<in> set [mount backupVolumeScratch d False, backupTmpMount]. mountName m = volumeData \<longrightarrow> mountReadOnly m"
  by (simp_all add: dataMount_def mount_def backupTmpMount_def)

lemma scripts_in:
  "buildBackupPVCScript fs \<in> backupScripts" "buildBackupDumpScript fs \<in> backupScripts" "buildBackupUploadScript \<in> backupScripts"
  by (cases fs; simp add: backupScripts_def)+

definition soundParts :: "container list \<times> container list \<times> volume \<Rightarrow> bool" where
  "soundParts parts = list_all singleDuty (fst parts @ fst (snd parts))"

lemma pvc_duty: "soundParts (pvcBackup C bk inst database p)"
proof -
  have "envAWSSecretAccessKey \<notin> fst ` set (backupPGEnv (instSpec inst) database
      @ [(envBackupDatabase, EnvValue database), (envBackupRetention, EnvValue r)])" for r
    using names_apart(1) [of "instSpec inst" database] by simp
  then show ?thesis
    unfolding pvcBackup_def Let_def soundParts_def by (simp add: duty_container scripts_in data_readonly)
qed

lemma s3_duty: "soundParts (s3Backup C bk inst database s)"
proof -
  have "envAWSSecretAccessKey \<notin> fst ` set (backupPGEnv (instSpec inst) database @ [(envBackupDatabase, EnvValue database)])"
    using names_apart(1) [of "instSpec inst" database] by simp
  with names_apart(2) show ?thesis
    unfolding s3Backup_def Let_def soundParts_def
    by (simp add: duty_container [OF scripts_in(2) _ data_readonly(2)] duty_container [OF scripts_in(3) _ data_readonly(3)])
qed

lemma parts_cases:
  assumes "backupParts C bk inst database = Some parts"
  obtains p where "parts = pvcBackup C bk inst database p" | s where "parts = s3Backup C bk inst database s"
  using assms by (auto simp: backupParts_def split: option.splits)

lemma pvc_hardened: "podHardened (backupPodOf bk inst nodeName (pvcBackup C bk inst database p))"
  by (simp add: backupPodOf_def pvcBackup_def Let_def podHardened_def mountsResolve_def backupPodSecurity_def backupPodUID_def
      zeroPodSpec_def dataMount_def mount_def backupTmpMount_def)

lemma s3_hardened: "podHardened (backupPodOf bk inst nodeName (s3Backup C bk inst database s))"
  by (simp add: backupPodOf_def s3Backup_def Let_def podHardened_def mountsResolve_def backupPodSecurity_def backupPodUID_def
      zeroPodSpec_def dataMount_def mount_def backupTmpMount_def)

text \<open>A backup pod has one duty per container: it is hardened, every container runs one of five fixed scripts into which no
  value of the spec is spliced, mounts the instance's data read-only, and never holds both the database password and the
  S3 credentials; the pod is never selected by the instance's Service.\<close>

theorem backup_pod_single_duty:
  assumes "buildBackupPodSpec C bk inst database nodeName = Some p"
  shows "podHardened p \<and> list_all singleDuty (backupContainers p)
    \<and> \<not> labelSelects (selectorLabels n) (backupLabels (metaName (bkMeta bk)))"
proof -
  from assms obtain parts where parts: "backupParts C bk inst database = Some parts" and p: "p = backupPodOf bk inst nodeName parts"
    unfolding buildBackupPodSpec_def by blast
  from parts have "podHardened p \<and> soundParts parts"
    unfolding p by (rule parts_cases) (simp_all only: pvc_hardened s3_hardened pvc_duty s3_duty simp_thms)
  moreover have "backupContainers p = fst parts @ fst (snd parts)"
    by (simp add: p backupPodOf_def backupContainers_def zeroPodSpec_def split_def)
  ultimately show ?thesis using backup_not_selected(1) unfolding soundParts_def by simp
qed

definition claimBackup :: backup where
  "claimBackup = (sampleBackup '''')\<lparr>bkSpec := zeroBackupSpec\<lparr>bkInstanceRef := \<lparr>refName = ''shop'', refNamespace = ''''\<rparr>,
     bkDatabase := ''shop'', bkDestination := \<lparr>destPVC = Some \<lparr>ClaimName = ''backups'', SubPath = ''''\<rparr>, destS3 = None\<rparr>\<rparr>\<rparr>"

theorem backup_pod_single_duty_witness:
  "\<exists>p. buildBackupPodSpec (scripted (\<lambda>_. ROk)) claimBackup (bareInstance ''shop'' ''ns'') ''shop'' '''' = Some p \<and> podHardened p"
proof -
  have "\<exists>p. buildBackupPodSpec (scripted (\<lambda>_. ROk)) claimBackup (bareInstance ''shop'' ''ns'') ''shop'' '''' = Some p"
    by (simp add: buildBackupPodSpec_def backupParts_def claimBackup_def)
  then show ?thesis using backup_pod_single_duty by blast
qed




end
