(* ===== verification/Backup_Validate.thy ===== *)
theory Backup_Validate
  imports Shell_Quote Kube_Client
begin

text \<open>
  \<open>odoobackup_validate.go\<close>: which OdooBackup specs the reconciler accepts. Quantities are parsed by the resource package,
  a field of the library.
\<close>

definition backupCronFieldCount :: nat where "backupCronFieldCount = 5"
definition backupMinTimeout :: int where "backupMinTimeout = 60"
definition backupMaxTimeout :: int where "backupMaxTimeout = 86400"

section \<open>Character classes\<close>

definition backupPathRe :: "string \<Rightarrow> bool" where
  "backupPathRe = matchClass (\<lambda>c. isAlnum c \<or> c \<in> set ''._/-'')"

definition backupDatabaseRe :: "string \<Rightarrow> bool" where
  "backupDatabaseRe = matchClass (\<lambda>c. isAlnum c \<or> c \<in> set ''_.-'')"

definition lowerAlnum :: "char \<Rightarrow> bool" where
  "lowerAlnum c \<longleftrightarrow> byteIn 48 57 c \<or> byteIn 97 122 c"

definition backupBucketRe :: "string \<Rightarrow> bool" where
  "backupBucketRe s \<longleftrightarrow>
     3 \<le> length s \<and> length s \<le> 63 \<and> lowerAlnum (hd s) \<and> lowerAlnum (last s)
     \<and> list_all (\<lambda>c. lowerAlnum c \<or> c \<in> set ''.-'') (butlast (tl s))"

section \<open>Checks\<close>

definition apostrophe :: string where "apostrophe = [squote]"

definition pathError :: "string \<Rightarrow> string \<Rightarrow> string \<Rightarrow> goerr option" where
  "pathError field value what = Some (PlainError (field @ '' '' @ goQuote value @ '' '' @ what))"

fun badSegment :: "string list \<Rightarrow> string option" where
  "badSegment [] = None"
| "badSegment (seg # segs) =
     (if seg = '''' then Some ''must not contain empty segments''
      else if seg = ''..'' then Some (''must not contain '' @ apostrophe @ ''..'' @ apostrophe)
      else badSegment segs)"

definition backupValidatePath :: "string \<Rightarrow> string \<Rightarrow> goerr option" where
  "backupValidatePath field value =
     (if value = '''' then None
      else if \<not> backupPathRe value then
        pathError field value (''may only contain letters, digits, '' @ apostrophe @ ''.'' @ apostrophe @ '', '' @ apostrophe @ ''_''
          @ apostrophe @ '', '' @ apostrophe @ ''-'' @ apostrophe @ '' and '' @ apostrophe @ ''/'' @ apostrophe)
      else if hasPrefix value ''/'' then pathError field value (''must not start with '' @ apostrophe @ ''/'' @ apostrophe)
      else (case badSegment (splitOn CHR ''/'' (trimSuffix value ''/'')) of
              Some what \<Rightarrow> pathError field value what
            | None \<Rightarrow> None))"

definition backupValidateDestination :: "backup_destination \<Rightarrow> goerr option" where
  "backupValidateDestination d =
     (case (destPVC d, destS3 d) of
        (Some p, None) \<Rightarrow>
          if ClaimName p = '''' then Some (PlainError ''destination.pvc.claimName is required'')
          else backupValidatePath ''destination.pvc.subPath'' (SubPath p)
      | (None, Some s) \<Rightarrow>
          if \<not> backupBucketRe (Bucket s) then
            Some (PlainError (''destination.s3.bucket '' @ goQuote (Bucket s) @ '' is not a valid bucket name''))
          else (case backupValidatePath ''destination.s3.prefix'' (Prefix s) of
            Some e \<Rightarrow> Some e
          | None \<Rightarrow>
              if Endpoint s \<noteq> '''' \<and> \<not> hasPrefix (Endpoint s) ''http://'' \<and> \<not> hasPrefix (Endpoint s) ''https://'' then
                Some (PlainError (''destination.s3.endpoint '' @ goQuote (Endpoint s) @ '' must start with http:// or https://''))
              else if CredentialsSecret s = '''' then Some (PlainError ''destination.s3.credentialsSecret is required'')
              else None)
      | _ \<Rightarrow> Some (PlainError ''destination: exactly one of pvc or s3 must be set''))"

definition scratchError :: "'m kubelib_scheme \<Rightarrow> string \<Rightarrow> goerr option" where
  "scratchError L raw =
     (if raw = '''' then None
      else (case ParseQuantity L raw of
        Inl e \<Rightarrow> Some (WrapError (''scratchSize '' @ goQuote raw @ '' is not a quantity: '') e)
      | Inr q \<Rightarrow> if QuantitySign L q \<le> 0 then Some (PlainError (''scratchSize '' @ goQuote raw @ '' must be positive'')) else None))"

definition retentionError :: "backup_spec \<Rightarrow> goerr option" where
  "retentionError spec =
     (case bkRetention spec of
        Some n \<Rightarrow> if n < 1 then Some (PlainError (''retention must be at least 1, got '' @ intDec n)) else None
      | None \<Rightarrow> None)"

definition timeoutError :: "backup_spec \<Rightarrow> goerr option" where
  "timeoutError spec =
     (case bkTimeoutSeconds spec of
        Some t \<Rightarrow> if t < backupMinTimeout \<or> t > backupMaxTimeout
                  then Some (PlainError (''timeoutSeconds must be between '' @ intDec backupMinTimeout @ '' and ''
                    @ intDec backupMaxTimeout @ '', got '' @ intDec t)) else None
      | None \<Rightarrow> None)"

definition scheduleError :: "backup_spec \<Rightarrow> goerr option" where
  "scheduleError spec =
     (let n = length (strFields (bkSchedule spec)) in
      if bkSchedule spec \<noteq> '''' \<and> n \<noteq> backupCronFieldCount
      then Some (PlainError (''schedule '' @ goQuote (bkSchedule spec) @ '' must have '' @ intDec (int backupCronFieldCount)
        @ '' fields, got '' @ intDec (int n)))
      else None)"

text \<open>The first error of a sequence of checks.\<close>

fun firstError :: "goerr option list \<Rightarrow> goerr option" where
  "firstError [] = None"
| "firstError (Some e # es) = Some e"
| "firstError (None # es) = firstError es"

definition backupValidateSpec :: "'m kubelib_scheme \<Rightarrow> backup \<Rightarrow> goerr option" where
  "backupValidateSpec L bk =
     (let spec = bkSpec bk; ns = refNamespace (bkInstanceRef spec); db = bkDatabase spec in
      firstError
       [if refName (bkInstanceRef spec) = '''' then Some (PlainError ''instanceRef.name is required'') else None,
        if ns \<noteq> '''' \<and> ns \<noteq> metaNamespace (bkMeta bk)
          then Some (PlainError (''instanceRef.namespace '' @ goQuote ns @ '' must be empty or the backup'' @ apostrophe
            @ ''s namespace '' @ goQuote (metaNamespace (bkMeta bk)))) else None,
        if db \<noteq> '''' \<and> \<not> backupDatabaseRe db
          then Some (PlainError (''database '' @ goQuote db @ '' may only contain letters, digits, '' @ apostrophe @ ''_'' @ apostrophe
            @ '', '' @ apostrophe @ ''.'' @ apostrophe @ '' and '' @ apostrophe @ ''-'' @ apostrophe)) else None,
        backupValidateDestination (bkDestination spec),
        retentionError spec,
        scratchError L (bkScratchSize spec),
        timeoutError spec,
        scheduleError spec])"

section \<open>What is accepted\<close>

text \<open>A path below the mount: plain characters, not absolute, and no segment that is empty or leads upwards.\<close>

definition plainPath :: "string \<Rightarrow> bool" where
  "plainPath p \<longleftrightarrow> p = '''' \<or>
     (backupPathRe p \<and> \<not> hasPrefix p ''/'' \<and> '''' \<notin> set (splitOn CHR ''/'' (trimSuffix p ''/''))
      \<and> ''..'' \<notin> set (splitOn CHR ''/'' (trimSuffix p ''/'')))"

definition destinationOk :: "backup_destination \<Rightarrow> bool" where
  "destinationOk d \<longleftrightarrow>
     (\<exists>p. d = \<lparr>destPVC = Some p, destS3 = None\<rparr> \<and> ClaimName p \<noteq> '''' \<and> plainPath (SubPath p))
     \<or> (\<exists>s. d = \<lparr>destPVC = None, destS3 = Some s\<rparr> \<and> backupBucketRe (Bucket s) \<and> plainPath (Prefix s) \<and> CredentialsSecret s \<noteq> ''''
          \<and> (Endpoint s = '''' \<or> hasPrefix (Endpoint s) ''http://'' \<or> hasPrefix (Endpoint s) ''https://''))"

definition backupSpecOk :: "'m kubelib_scheme \<Rightarrow> backup \<Rightarrow> bool" where
  "backupSpecOk L bk \<longleftrightarrow>
     (let spec = bkSpec bk in
      refName (bkInstanceRef spec) \<noteq> '''' \<and> refNamespace (bkInstanceRef spec) \<in> {'''', metaNamespace (bkMeta bk)}
      \<and> (bkDatabase spec = '''' \<or> backupDatabaseRe (bkDatabase spec))
      \<and> destinationOk (bkDestination spec)
      \<and> (case bkRetention spec of None \<Rightarrow> True | Some n \<Rightarrow> n \<ge> 1)
      \<and> (bkScratchSize spec = '''' \<or> (\<exists>q. ParseQuantity L (bkScratchSize spec) = Inr q \<and> QuantitySign L q > 0))
      \<and> (case bkTimeoutSeconds spec of None \<Rightarrow> True | Some t \<Rightarrow> 60 \<le> t \<and> t \<le> 86400)
      \<and> (bkSchedule spec = '''' \<or> length (strFields (bkSchedule spec)) = 5))"

lemma firstError_None: "firstError es = None \<longleftrightarrow> set es \<subseteq> {None}"
  by (induction es rule: firstError.induct) auto

lemma badSegment_None: "badSegment segs = None \<longleftrightarrow> '''' \<notin> set segs \<and> ''..'' \<notin> set segs"
  by (induction segs) auto

lemma validatePath_None: "backupValidatePath field p = None \<longleftrightarrow> plainPath p"
  by (auto simp: backupValidatePath_def pathError_def plainPath_def badSegment_None [symmetric] split: option.split)

lemma validatePath_Some: "backupValidatePath field p = Some e \<Longrightarrow> \<not> plainPath p"
  using validatePath_None [of field p] by simp

lemma validateDestination_None: "backupValidateDestination d = None \<longleftrightarrow> destinationOk d"
proof (cases d)
  case (fields p s)
  then show ?thesis
    by (cases p; cases s)
      (auto simp: backupValidateDestination_def destinationOk_def validatePath_None split: option.split dest: validatePath_Some)
qed

lemma limits_None:
  "retentionError spec = None \<longleftrightarrow> (case bkRetention spec of None \<Rightarrow> True | Some n \<Rightarrow> n \<ge> 1)"
  "timeoutError spec = None \<longleftrightarrow> (case bkTimeoutSeconds spec of None \<Rightarrow> True | Some t \<Rightarrow> 60 \<le> t \<and> t \<le> 86400)"
  "scratchError L raw = None \<longleftrightarrow> raw = '''' \<or> (\<exists>q. ParseQuantity L raw = Inr q \<and> QuantitySign L q > 0)"
  "scheduleError spec = None \<longleftrightarrow> bkSchedule spec = '''' \<or> length (strFields (bkSchedule spec)) = 5"
  by (auto simp: retentionError_def timeoutError_def scratchError_def scheduleError_def Let_def backupMinTimeout_def
      backupMaxTimeout_def backupCronFieldCount_def split: option.splits sum.splits)


end
