(* ===== verification/Backup_Controller.thy ===== *)
theory Backup_Controller
  imports Backup_Job Backup_Validate Admission_Queue Job_State Events Kube_Reference
begin

text \<open>
  \<open>odoobackup_controller.go\<close>: the reconciler of OdooBackup. A one-shot backup runs one Job and follows it to a terminal phase; a
  scheduled backup keeps a CronJob. As for upgrades, the functions passed to the status writer may read the clock.
\<close>

definition backupRequeuePending :: int where "backupRequeuePending = 10 * second"
definition backupRequeueRunning :: int where "backupRequeueRunning = 5 * second"
definition backupRequeueScheduled :: int where "backupRequeueScheduled = 10 * minute"
definition backupJobGrace :: int where "backupJobGrace = 30 * second"
definition backupLogTailLines :: int where "backupLogTailLines = 200"
definition backupLogTailBytes :: nat where "backupLogTailBytes = 2000"
definition backupLogReadLimit :: nat where "backupLogReadLimit = 2 ^ 20"
definition backupMsgNoDatabase :: string where
  "backupMsgNoDatabase = ''no database configured: set spec.database or the instance'' @ [CHR 0x27] @ ''s postgres.database''"
definition backupMsgLogHeader :: string where
  "backupMsgLogHeader = [CHR 0x0A] @ ''--- last log lines ---'' @ [CHR 0x0A]"

type_synonym 'w backup_change = "backup_status \<Rightarrow> ('w, backup_status) prog"

section \<open>Status writes\<close>

definition backupPhaseTerminal :: "string \<Rightarrow> bool" where
  "backupPhaseTerminal phase \<longleftrightarrow> phase = BackupPhaseSucceeded \<or> phase = BackupPhaseFailed"

definition backupNewStatus :: "'m kubelib_scheme \<Rightarrow> backup \<Rightarrow> string \<Rightarrow> backup_status \<Rightarrow> backup_status" where
  "backupNewStatus L cur reason s =
     (let gen = metaGeneration (bkMeta cur); t = s\<lparr>bkObservedGeneration := gen\<rparr> in
      t\<lparr>bkConds := setConditions L (bkConds t) gen (backupConditions t reason)\<rparr>)"

definition backupCommit :: "'w cluster \<Rightarrow> backup \<Rightarrow> backup_status \<Rightarrow> ('w, goerr option) prog" where
  "backupCommit C cur after =
     (if after = bkStatus cur then State_Monad.return None
      else do {
        err \<leftarrow> updateStatus C (OBackup (cur\<lparr>bkStatus := after\<rparr>));
        case err of
          Some e \<Rightarrow> State_Monad.return (Some e)
        | None \<Rightarrow> do {
            _ \<leftarrow> emitEvents C (OBackup (cur\<lparr>bkStatus := after\<rparr>)) (backupEvents (bkStatus cur) after);
            State_Monad.return None
          }
      })"

definition backupWriteOnce ::
  "'w cluster \<Rightarrow> nsname \<Rightarrow> string \<Rightarrow> string \<Rightarrow> 'w backup_change \<Rightarrow> ('w, goerr option) prog" where
  "backupWriteOnce C key target reason mutate = do {
     r \<leftarrow> getBackup C key;
     case r of
       Inl e \<Rightarrow> State_Monad.return (Some e)
     | Inr cur \<Rightarrow>
         if bkSchedule (bkSpec cur) = '''' \<and> backupPhaseTerminal (bkPhase (bkStatus cur)) then State_Monad.return None
         else if target = BackupPhasePending \<and> bkPhase (bkStatus cur) = BackupPhaseRunning then State_Monad.return None
         else do {
           s \<leftarrow> mutate (bkStatus cur);
           backupCommit C cur (backupNewStatus C cur reason s)
         }
   }"

definition backupWriteStatus ::
  "'w cluster \<Rightarrow> nsname \<Rightarrow> string \<Rightarrow> string \<Rightarrow> 'w backup_change \<Rightarrow> ('w, goerr option) prog" where
  "backupWriteStatus C key target reason mutate = do {
     err \<leftarrow> retryOnConflict (retrySteps C) (backupWriteOnce C key target reason mutate);
     State_Monad.return (ignoreNotFound err)
   }"

definition failBackup :: "string \<Rightarrow> 'w backup_change" where
  "failBackup msg s = State_Monad.return (s\<lparr>bkPhase := BackupPhaseFailed, bkMessage := msg\<rparr>)"

definition failBackupNow :: "'w cluster \<Rightarrow> string \<Rightarrow> 'w backup_change" where
  "failBackupNow C msg s = do {
     now \<leftarrow> timeNow C;
     State_Monad.return (s\<lparr>bkPhase := BackupPhaseFailed, bkMessage := msg, bkCompletionTime := Some now\<rparr>)
   }"

text \<open>A write that ends the pass.\<close>

definition endBackup :: "'w cluster \<Rightarrow> nsname \<Rightarrow> string \<Rightarrow> string \<Rightarrow> 'w backup_change \<Rightarrow> ('w, outcome) prog" where
  "endBackup C key target reason mutate = do {
     err \<leftarrow> backupWriteStatus C key target reason mutate;
     State_Monad.return (0, err)
   }"

definition backupSetPending :: "'w cluster \<Rightarrow> nsname \<Rightarrow> string \<Rightarrow> string \<Rightarrow> ('w, outcome) prog" where
  "backupSetPending C key reason msg = do {
     err \<leftarrow> backupWriteStatus C key BackupPhasePending reason
       (\<lambda>s. State_Monad.return (s\<lparr>bkPhase := BackupPhasePending, bkMessage := msg\<rparr>));
     State_Monad.return (backupRequeuePending, err)
   }"

section \<open>Pods and logs\<close>

definition backupOdooPodNode :: "'w cluster \<Rightarrow> odoo_instance \<Rightarrow> ('w, string) prog" where
  "backupOdooPodNode C inst = do {
     r \<leftarrow> listPods C (metaNamespace (instMeta inst)) [(labelApp, appOdoo), (labelInstance, metaName (instMeta inst))];
     State_Monad.return (case r of Inl _ \<Rightarrow> '''' | Inr pods \<Rightarrow> runningNode pods)
   }"

definition backupNodeFor :: "'w cluster \<Rightarrow> backup \<Rightarrow> odoo_instance \<Rightarrow> ('w, string) prog" where
  "backupNodeFor C bk inst =
     (if backupNeedsNodePin (instSpec inst) (backupIncludeFilestore bk) then backupOdooPodNode C inst else State_Monad.return '''')"

definition backupLatestPod :: "'w cluster \<Rightarrow> backup \<Rightarrow> ('w, pod option) prog" where
  "backupLatestPod C bk = do {
     r \<leftarrow> listPods C (metaNamespace (bkMeta bk)) [(backupLabelKey, backupLabelValue (metaName (bkMeta bk)))];
     State_Monad.return (case r of Inl _ \<Rightarrow> None | Inr pods \<Rightarrow> newestPod pods)
   }"

definition backupPodLogs :: "'w cluster \<Rightarrow> backup \<Rightarrow> string \<Rightarrow> ('w, string) prog" where
  "backupPodLogs C bk container =
     (if \<not> hasClientset C then State_Monad.return ''''
      else do {
        pod \<leftarrow> backupLatestPod C bk;
        case pod of
          None \<Rightarrow> State_Monad.return ''''
        | Some p \<Rightarrow> do {
            logs \<leftarrow> podLogs C (metaNamespace (bkMeta bk)) (metaName (podMeta p)) container (Some backupLogTailLines);
            State_Monad.return (case logs of Inl _ \<Rightarrow> '''' | Inr t \<Rightarrow> take backupLogReadLimit t)
          }
      })"

definition backupResultLine :: "'w cluster \<Rightarrow> backup \<Rightarrow> ('w, string) prog" where
  "backupResultLine C bk = do {
     logs \<leftarrow> backupPodLogs C bk backupMainContainer;
     State_Monad.return (backupParseResult logs)
   }"

definition backupLogTail :: "'w cluster \<Rightarrow> backup \<Rightarrow> ('w, string) prog" where
  "backupLogTail C bk = do {
     logs \<leftarrow> backupPodLogs C bk backupMainContainer;
     logs' \<leftarrow> (if trimSpace logs = '''' then backupPodLogs C bk backupInitContainer else State_Monad.return logs);
     State_Monad.return (if trimSpace logs' = '''' then '''' else backupTail logs' backupLogTailBytes)
   }"

section \<open>One-shot backups\<close>

definition startBackup :: "string \<Rightarrow> int \<Rightarrow> 'w backup_change" where
  "startBackup jobName now s = State_Monad.return (s\<lparr>bkPhase := BackupPhaseRunning, bkJobName := jobName, bkMessage := '''',
     bkCompletionTime := None, bkStartTime := (case bkStartTime s of None \<Rightarrow> Some now | Some t \<Rightarrow> Some t)\<rparr>)"

text \<open>A panic of the reconciler reaches the caller as an error.\<close>

definition nilDestination :: outcome where
  "nilDestination = (0, Some (PlainError ''panic: runtime error: invalid memory address or nil pointer dereference''))"

definition backupStart :: "'w cluster \<Rightarrow> backup \<Rightarrow> odoo_instance \<Rightarrow> ('w, outcome) prog" where
  "backupStart C bk inst =
     (let key = (metaNamespace (bkMeta bk), metaName (bkMeta bk)); database = backupDatabase bk inst in
      if database = '''' then endBackup C key BackupPhaseFailed ReasonInvalidSpec (failBackup backupMsgNoDatabase)
      else do {
        node \<leftarrow> backupNodeFor C bk inst;
        case buildBackupJob C bk inst database node of
          None \<Rightarrow> State_Monad.return nilDestination
        | Some j \<Rightarrow>
            (case SetControllerReference C (bkMeta bk) (jobMeta j) of
               Inl e \<Rightarrow> State_Monad.return (0, Some e)
             | Inr m \<Rightarrow> do {
                 err \<leftarrow> createObj C (OJob (j\<lparr>jobMeta := m\<rparr>));
                 case (case err of Some e \<Rightarrow> if isAlreadyExists e then None else Some e | None \<Rightarrow> None) of
                   Some e \<Rightarrow> State_Monad.return (0, Some (WrapError ''failed to create backup job: '' e))
                 | None \<Rightarrow> do {
                     now \<leftarrow> timeNow C;
                     werr \<leftarrow> backupWriteStatus C key BackupPhaseRunning ReasonRunning (startBackup (metaName m) now);
                     State_Monad.return (backupRequeueRunning, werr)
                   }
               })
      })"

definition backupMonitor :: "'w cluster \<Rightarrow> backup \<Rightarrow> ('w, outcome) prog" where
  "backupMonitor C bk =
     (let key = (metaNamespace (bkMeta bk), metaName (bkMeta bk)); jobName = bkJobName (bkStatus bk) in do {
        r \<leftarrow> getJob C (metaNamespace (bkMeta bk), jobName);
        case r of
          Inl e \<Rightarrow>
            if \<not> isNotFound e then State_Monad.return (0, Some e)
            else do {
              fresh \<leftarrow> (case bkStartTime (bkStatus bk) of
                         None \<Rightarrow> State_Monad.return False
                       | Some t \<Rightarrow> do { now \<leftarrow> timeNow C; State_Monad.return (timeSub now t < backupJobGrace) });
              if fresh then State_Monad.return (backupRequeueRunning, None)
              else endBackup C key BackupPhaseFailed ReasonJobFailed
                (failBackupNow C (''backup Job '' @ jobName @ '' no longer exists''))
            }
        | Inr j \<Rightarrow>
            if backupJobSucceeded j then do {
              completion \<leftarrow> backupJobCompletion C j;
              result \<leftarrow> backupResultLine C bk;
              endBackup C key BackupPhaseSucceeded ReasonComplete (\<lambda>s. State_Monad.return
                (s\<lparr>bkPhase := BackupPhaseSucceeded, bkMessage := '''', bkCompletionTime := completion, bkLastBackup := result\<rparr>))
            }
            else if fst (backupJobFailure j) then do {
              tail \<leftarrow> backupLogTail C bk;
              endBackup C key BackupPhaseFailed ReasonJobFailed
                (failBackupNow C (snd (backupJobFailure j) @ (if tail \<noteq> '''' then backupMsgLogHeader @ tail else '''')))
            }
            else State_Monad.return (backupRequeueRunning, None)
      })"

definition backupAdmit :: "'w cluster \<Rightarrow> nsname \<Rightarrow> backup \<Rightarrow> ('w, outcome) prog" where
  "backupAdmit C key bk =
     (case backupValidateSpec C bk of
        Some e \<Rightarrow> endBackup C key BackupPhaseFailed ReasonInvalidSpec (failBackup (errText e))
      | None \<Rightarrow> do {
          r \<leftarrow> getInstance C (metaNamespace (bkMeta bk), refName (bkInstanceRef (bkSpec bk)));
          case r of
            Inl e \<Rightarrow> if isNotFound e then backupSetPending C key ReasonInstanceNotFound ''waiting for OdooInstance''
                     else State_Monad.return (0, Some e)
          | Inr inst \<Rightarrow> do {
              q \<leftarrow> listBackups C (metaNamespace (bkMeta bk));
              case q of
                Inl e \<Rightarrow> State_Monad.return (0, Some e)
              | Inr siblings \<Rightarrow>
                  (let d = backupDecideStart bk siblings in
                   if \<not> MayStart d then backupSetPending C key ReasonPending
                     (''waiting for backup '' @ goQuote (BlockedBy d) @ '' on the same instance to finish'')
                   else backupStart C bk inst)
            }
        })"

definition reconcileOneShot :: "'w cluster \<Rightarrow> backup \<Rightarrow> ('w, outcome) prog" where
  "reconcileOneShot C bk =
     (let key = (metaNamespace (bkMeta bk), metaName (bkMeta bk)) in
      if backupPhaseTerminal (bkPhase (bkStatus bk)) then State_Monad.return (0, None)
      else if bkPhase (bkStatus bk) = BackupPhaseRunning \<and> bkJobName (bkStatus bk) \<noteq> '''' then backupMonitor C bk
      else backupAdmit C key bk)"

section \<open>Scheduled backups\<close>

definition cronUpToDate :: "cronjob \<Rightarrow> cronjob \<Rightarrow> bool" where
  "cronUpToDate cur desired \<longleftrightarrow>
     mapGet (metaAnnotations (cronMeta cur)) backupHashAnnotation = mapGet (metaAnnotations (cronMeta desired)) backupHashAnnotation
     \<and> gomap_eq (metaLabels (cronMeta cur)) (metaLabels (cronMeta desired))"

definition cronWritten :: "cronjob \<Rightarrow> cronjob \<Rightarrow> cronjob" where
  "cronWritten cur desired = cur\<lparr>cronMeta := (cronMeta cur)\<lparr>metaLabels := metaLabels (cronMeta desired),
     metaAnnotations := metaAnnotations (cronMeta desired)\<rparr>, cronSpec := cronSpec desired\<rparr>"

definition backupApplyCronJob :: "'w cluster \<Rightarrow> cronjob \<Rightarrow> ('w, goerr + cronjob) prog" where
  "backupApplyCronJob C desired = do {
     r \<leftarrow> getCronJob C (metaNamespace (cronMeta desired), metaName (cronMeta desired));
     case r of
       Inl e \<Rightarrow>
         if isNotFound e then do {
           err \<leftarrow> createObj C (OCronJob desired);
           State_Monad.return (case err of
             Some e' \<Rightarrow> if isAlreadyExists e' then Inr desired else Inl e'
           | None \<Rightarrow> Inr desired)
         }
         else State_Monad.return (Inl e)
     | Inr cur \<Rightarrow>
         if cronUpToDate cur desired then State_Monad.return (Inr cur)
         else do {
           err \<leftarrow> updateObj C (OCronJob (cronWritten cur desired));
           State_Monad.return (case err of Some e \<Rightarrow> Inl e | None \<Rightarrow> Inr (cronWritten cur desired))
         }
   }"

definition scheduleBackup :: "cronjob \<Rightarrow> 'w backup_change" where
  "scheduleBackup cron s = State_Monad.return (s\<lparr>bkPhase := BackupPhaseScheduled, bkCronJobName := metaName (cronMeta cron),
     bkMessage := '''', bkLastScheduleTime := cronLastSchedule cron, bkLastSuccessfulTime := cronLastSuccess cron\<rparr>)"

definition applySchedule :: "'w cluster \<Rightarrow> nsname \<Rightarrow> cronjob \<Rightarrow> ('w, outcome) prog" where
  "applySchedule C key desired = do {
     r \<leftarrow> backupApplyCronJob C desired;
     case r of
       Inl e \<Rightarrow>
         if isInvalid e then endBackup C key BackupPhaseFailed ReasonCronJobRejected (\<lambda>s. State_Monad.return
           (s\<lparr>bkPhase := BackupPhaseFailed, bkCronJobName := metaName (cronMeta desired),
              bkMessage := ''CronJob was rejected: '' @ errText e\<rparr>))
         else State_Monad.return (0, Some e)
     | Inr cron \<Rightarrow> do {
         err \<leftarrow> backupWriteStatus C key BackupPhaseScheduled ReasonScheduled (scheduleBackup cron);
         State_Monad.return (backupRequeueScheduled, err)
       }
   }"

definition reconcileScheduled :: "'w cluster \<Rightarrow> backup \<Rightarrow> ('w, outcome) prog" where
  "reconcileScheduled C bk =
     (let key = (metaNamespace (bkMeta bk), metaName (bkMeta bk)) in
      case backupValidateSpec C bk of
        Some e \<Rightarrow> endBackup C key BackupPhaseFailed ReasonInvalidSpec (failBackup (errText e))
      | None \<Rightarrow> do {
          r \<leftarrow> getInstance C (metaNamespace (bkMeta bk), refName (bkInstanceRef (bkSpec bk)));
          case r of
            Inl e \<Rightarrow> if isNotFound e then backupSetPending C key ReasonInstanceNotFound ''waiting for OdooInstance''
                     else State_Monad.return (0, Some e)
          | Inr inst \<Rightarrow>
              (let database = backupDatabase bk inst in
               if database = '''' then endBackup C key BackupPhaseFailed ReasonInvalidSpec (failBackup backupMsgNoDatabase)
               else do {
                 node \<leftarrow> backupNodeFor C bk inst;
                 case buildBackupCronJob C bk inst database node of
                   None \<Rightarrow> State_Monad.return nilDestination
                 | Some desired \<Rightarrow>
                     (case SetControllerReference C (bkMeta bk) (cronMeta desired) of
                        Inl e \<Rightarrow> State_Monad.return (0, Some e)
                      | Inr m \<Rightarrow> applySchedule C key (desired\<lparr>cronMeta := m\<rparr>))
               })
        })"

definition backupReconcile :: "'w cluster \<Rightarrow> nsname \<Rightarrow> ('w, outcome) prog" where
  "backupReconcile C key = do {
     r \<leftarrow> getBackup C key;
     case r of
       Inl e \<Rightarrow> State_Monad.return (0, ignoreNotFound (Some e))
     | Inr bk \<Rightarrow> if bkSchedule (bkSpec bk) \<noteq> '''' then reconcileScheduled C bk else reconcileOneShot C bk
   }"

section \<open>No panic\<close>

text \<open>A spec that passed validation has a destination, so the Job and the CronJob can be built.\<close>

lemma validated_destination:
  assumes "backupValidateSpec L bk = None"
  shows "backupParts C bk inst database \<noteq> None"
proof -
  have "destinationOk (bkDestination (bkSpec bk))"
    using assms by (auto simp: backupValidateSpec_def Let_def firstError_None validateDestination_None)
  then have "destPVC (bkDestination (bkSpec bk)) \<noteq> None \<or> destS3 (bkDestination (bkSpec bk)) \<noteq> None"
    by (auto simp: destinationOk_def)
  then show ?thesis
    unfolding backupParts_def by (cases "destPVC (bkDestination (bkSpec bk))") (auto simp del: not_None_eq)
qed

lemma validated_builds:
  assumes "backupValidateSpec L bk = None"
  obtains j c where "buildBackupJob C bk inst database node = Some j" "buildBackupCronJob C bk inst database node = Some c"
  using validated_destination [OF assms, of C inst database]
  by (auto simp: buildBackupJob_def buildBackupCronJob_def buildBackupJobSpec_def buildBackupPodSpec_def)

end
