(* ===== verification/Backup_Safety.thy ===== *)
theory Backup_Safety
  imports Backup_Controller
begin

text \<open>
  What a pass over an OdooBackup guarantees, by the same interface as for upgrades: every call is justified by what was read
  before it. A one-shot backup keeps its outcome, success follows a succeeded Job, and the Job and the CronJob carry exactly
  the spec built from a validated backup.
\<close>

section \<open>The abstract backup\<close>

definition backupPhases :: "string set" where
  "backupPhases = {BackupPhasePending, BackupPhaseRunning, BackupPhaseSucceeded, BackupPhaseFailed, BackupPhaseScheduled}"

definition backupStep :: "string \<Rightarrow> string \<Rightarrow> string \<Rightarrow> bool" where
  "backupStep schedule p q \<longleftrightarrow>
     (schedule = '''' \<longrightarrow> \<not> backupPhaseTerminal p) \<and> q \<in> backupPhases \<and> \<not> (p = BackupPhaseRunning \<and> q = BackupPhasePending)"

lemma backupPhases_in [simp]:
  "BackupPhasePending \<in> backupPhases" "BackupPhaseRunning \<in> backupPhases" "BackupPhaseSucceeded \<in> backupPhases"
  "BackupPhaseFailed \<in> backupPhases" "BackupPhaseScheduled \<in> backupPhases"
  by (simp_all add: backupPhases_def)

section \<open>Justified calls\<close>

definition backupRead :: "history \<Rightarrow> backup \<Rightarrow> bool" where
  "backupRead h b \<longleftrightarrow> (\<exists>key. (Get KBackup key, RObj (OBackup b)) \<in> set h)"

definition backupSuccessRead :: "history \<Rightarrow> bool" where
  "backupSuccessRead h \<longleftrightarrow> (\<exists>bk j. backupRead h bk \<and> backupJobSucceeded j
     \<and> (Get KJob (metaNamespace (bkMeta bk), bkJobName (bkStatus bk)), RObj (OJob j)) \<in> set h)"

definition backupJobStarted :: "history \<Rightarrow> string \<Rightarrow> bool" where
  "backupJobStarted h name \<longleftrightarrow> (\<exists>j p. (Create (OJob j), p) \<in> set h \<and> metaName (jobMeta j) = name)"

text \<open>The CronJob a status names was read, or its creation was asked for.\<close>

definition cronSeen :: "history \<Rightarrow> string \<Rightarrow> bool" where
  "cronSeen h name \<longleftrightarrow> (\<exists>c. metaName (cronMeta c) = name
     \<and> ((\<exists>key. (Get KCronJob key, RObj (OCronJob c)) \<in> set h) \<or> (\<exists>p. (Create (OCronJob c), p) \<in> set h)))"

definition backupPhaseOk :: "history \<Rightarrow> backup_status \<Rightarrow> bool" where
  "backupPhaseOk h s \<longleftrightarrow>
     (bkPhase s = BackupPhaseSucceeded \<longrightarrow> backupSuccessRead h)
     \<and> (bkPhase s = BackupPhaseRunning \<longrightarrow> backupJobStarted h (bkJobName s))
     \<and> (bkPhase s = BackupPhaseScheduled \<longrightarrow> cronSeen h (bkCronJobName s))"

definition backupWriteOk :: "history \<Rightarrow> backup \<Rightarrow> bool" where
  "backupWriteOk h b' \<longleftrightarrow>
     (\<exists>b. backupRead h b \<and> b' = b\<lparr>bkStatus := bkStatus b'\<rparr>
        \<and> backupStep (bkSchedule (bkSpec b)) (bkPhase (bkStatus b)) (bkPhase (bkStatus b')) \<and> backupPhaseOk h (bkStatus b'))"

definition mayBackup :: "'m kubelib_scheme \<Rightarrow> history \<Rightarrow> backup \<Rightarrow> odoo_instance \<Rightarrow> bool" where
  "mayBackup L h bk inst \<longleftrightarrow>
     backupRead h bk \<and> backupValidateSpec L bk = None \<and> backupDatabase bk inst \<noteq> ''''
     \<and> (Get KInstance (metaNamespace (bkMeta bk), refName (bkInstanceRef (bkSpec bk))), RObj (OInstance inst)) \<in> set h"

definition backupTurn :: "history \<Rightarrow> backup \<Rightarrow> bool" where
  "backupTurn h bk \<longleftrightarrow> \<not> backupPhaseTerminal (bkPhase (bkStatus bk))
     \<and> (\<exists>items. (ListIn KBackup (metaNamespace (bkMeta bk)) [], RObjs items) \<in> set h
          \<and> MayStart (backupDecideStart bk (List.map_filter asBackup items)))"

definition jobJustified :: "'w cluster \<Rightarrow> history \<Rightarrow> job \<Rightarrow> bool" where
  "jobJustified C h j \<longleftrightarrow>
     (\<exists>bk inst node b. mayBackup C h bk inst \<and> bkSchedule (bkSpec bk) = '''' \<and> backupTurn h bk
        \<and> buildBackupJob C bk inst (backupDatabase bk inst) node = Some b \<and> jobSpec j = jobSpec b)"

definition cronJustified :: "'w cluster \<Rightarrow> history \<Rightarrow> cronjob \<Rightarrow> bool" where
  "cronJustified C h c \<longleftrightarrow>
     (\<exists>bk inst node b. mayBackup C h bk inst \<and> bkSchedule (bkSpec bk) \<noteq> ''''
        \<and> buildBackupCronJob C bk inst (backupDatabase bk inst) node = Some b \<and> cronSpec c = cronSpec b)"

definition cronBasedOn :: "history \<Rightarrow> cronjob \<Rightarrow> bool" where
  "cronBasedOn h c \<longleftrightarrow> (\<exists>cur desired key. (Get KCronJob key, RObj (OCronJob cur)) \<in> set h \<and> c = cronWritten cur desired)"

fun backupJustified :: "'w cluster \<Rightarrow> history \<Rightarrow> req \<Rightarrow> bool" where
  "backupJustified C h (StatusUpdate (OBackup b')) = backupWriteOk h b'"
| "backupJustified C h (Create (OJob j)) = jobJustified C h j"
| "backupJustified C h (Create (OCronJob c)) = cronJustified C h c"
| "backupJustified C h (Update (OCronJob c)) = (cronJustified C h c \<and> cronBasedOn h c)"
| "backupJustified C h (Get k key) = True"
| "backupJustified C h (ListIn k ns l) = True"
| "backupJustified C h (PodLogs ns n c t) = True"
| "backupJustified C h (EmitEvent n) = (\<exists>b. evRegarding n = OBackup b)"
| "backupJustified C h Now = True"
| "backupJustified C h _ = False"

lemma backup_grows:
  assumes "set h \<subseteq> set k"
  shows "backupRead h b \<Longrightarrow> backupRead k b" "backupSuccessRead h \<Longrightarrow> backupSuccessRead k" "backupJobStarted h n \<Longrightarrow> backupJobStarted k n"
    "cronSeen h n \<Longrightarrow> cronSeen k n" "mayBackup L h bk inst \<Longrightarrow> mayBackup L k bk inst" "backupTurn h bk \<Longrightarrow> backupTurn k bk"
    "cronBasedOn h c \<Longrightarrow> cronBasedOn k c"
  using assms
  by (auto simp: backupRead_def backupSuccessRead_def backupJobStarted_def cronSeen_def mayBackup_def backupTurn_def
      cronBasedOn_def subset_iff; blast)+

lemma phaseOk_grows: "set h \<subseteq> set k \<Longrightarrow> backupPhaseOk h s \<Longrightarrow> backupPhaseOk k s"
  unfolding backupPhaseOk_def using backup_grows by blast

lemma justified_grows:
  assumes "set h \<subseteq> set k"
  shows "backupWriteOk h b \<Longrightarrow> backupWriteOk k b" "jobJustified C h j \<Longrightarrow> jobJustified C k j" "cronJustified C h c \<Longrightarrow> cronJustified C k c"
  unfolding backupWriteOk_def jobJustified_def cronJustified_def using backup_grows [OF assms] phaseOk_grows [OF assms] by blast+

interpretation backing: justified_calls "backupJustified C" for C
proof
  fix h k r
  assume "set h \<subseteq> set k" "backupJustified C h r"
  then show "backupJustified C k r"
    by (cases "(C, h, r)" rule: backupJustified.cases) (auto intro: justified_grows backup_grows)
qed

section \<open>Every write is justified\<close>

definition setsBackupPhase :: "history \<Rightarrow> string \<Rightarrow> 'w backup_change \<Rightarrow> bool" where
  "setsBackupPhase h target mutate \<longleftrightarrow>
     (\<forall>s. only (\<lambda>r. r = Now) (mutate s) \<and> yields (\<lambda>t. bkPhase t = target \<and> backupPhaseOk h t) (mutate s))"

lemma setsBackupPhase_simps:
  "setsBackupPhase h BackupPhaseFailed (failBackup msg)"
  "setsBackupPhase h BackupPhaseFailed (failBackupNow C msg)"
  "setsBackupPhase h BackupPhaseFailed (\<lambda>s. State_Monad.return (s\<lparr>bkPhase := BackupPhaseFailed, bkCronJobName := n, bkMessage := msg\<rparr>))"
  "setsBackupPhase h BackupPhasePending (\<lambda>s. State_Monad.return (s\<lparr>bkPhase := BackupPhasePending, bkMessage := msg\<rparr>))"
  "backupSuccessRead h \<Longrightarrow> setsBackupPhase h BackupPhaseSucceeded (\<lambda>s. State_Monad.return
     (s\<lparr>bkPhase := BackupPhaseSucceeded, bkMessage := '''', bkCompletionTime := c, bkLastBackup := l\<rparr>))"
  "backupJobStarted h n \<Longrightarrow> setsBackupPhase h BackupPhaseRunning (startBackup n now)"
  "cronSeen h (metaName (cronMeta cron)) \<Longrightarrow> setsBackupPhase h BackupPhaseScheduled (scheduleBackup cron)"
  unfolding setsBackupPhase_def failBackup_def failBackupNow_def startBackup_def scheduleBackup_def call_defs
  by (auto intro!: frame_intros yields_intros simp: backupPhaseOk_def)

lemma backup_commit_sound:
  assumes "soundCalls (backupJustified C) m" "backupWriteOk m (cur\<lparr>bkStatus := after\<rparr>)"
    and finish: "\<And>a l. soundCalls (backupJustified C) l \<Longrightarrow> set m \<subseteq> set l \<Longrightarrow> B a l"
  shows "wp (backupCommit C cur after) B m"
proof -
  have emit: "only (\<lambda>r. case r of EmitEvent n \<Rightarrow> \<exists>b. evRegarding n = OBackup b | _ \<Rightarrow> False) (emitEvents C (OBackup b) evs)" for b evs
    by (intro frame_intros) simp
  have events: "backupJustified C m r" if "case r of EmitEvent n \<Rightarrow> \<exists>b. evRegarding n = OBackup b | _ \<Rightarrow> False" for m r
    using that by (cases r) auto
  show ?thesis
    unfolding backupCommit_def call_defs
    by (intro wp_intros backing.sound_ask [OF assms(1)] backing.sound_only [OF emit] finish) (use assms events in auto)
qed

lemma read_backup: "(Get KBackup key, p) \<in> set h \<Longrightarrow> objReply asBackup p = Inr b \<Longrightarrow> backupRead h b"
  unfolding backupRead_def objReply_Inr_iff as_iff by blast

lemma newStatus_simps [simp]:
  "bkPhase (backupNewStatus L cur reason s) = bkPhase s"
  "backupPhaseOk h (backupNewStatus L cur reason s) = backupPhaseOk h s"
  by (simp_all add: backupNewStatus_def Let_def backupPhaseOk_def)

lemma backup_writeOnce_sound:
  assumes target: "setsBackupPhase h target mutate" "target \<in> backupPhases"
    and sound: "soundCalls (backupJustified C) k" "set h \<subseteq> set k"
    and finish: "\<And>a l. soundCalls (backupJustified C) l \<Longrightarrow> set k \<subseteq> set l \<Longrightarrow> B a l"
  shows "wp (backupWriteOnce C key target reason mutate) B k"
proof -
  let ?guard = "\<lambda>cur. \<not> (bkSchedule (bkSpec cur) = '''' \<and> backupPhaseTerminal (bkPhase (bkStatus cur)))
    \<and> \<not> (target = BackupPhasePending \<and> bkPhase (bkStatus cur) = BackupPhaseRunning)"
  have commit: "wp (backupCommit C cur (backupNewStatus C cur reason s)) B m"
    if "soundCalls (backupJustified C) m" "set k \<subseteq> set m" "backupRead m cur" "?guard cur" "bkPhase s = target \<and> backupPhaseOk h s" for m cur s
  proof (rule backup_commit_sound [OF that(1)])
    show "backupWriteOk m (cur\<lparr>bkStatus := backupNewStatus C cur reason s\<rparr>)"
      unfolding backupWriteOk_def
      using that(3-) target(2) phaseOk_grows [OF subset_trans [OF sound(2) that(2)]]
      by (intro exI [of _ cur]) (auto simp: backupStep_def)
  qed (use that(2) finish in blast)
  have reads: "yields (\<lambda>t. bkPhase t = target \<and> backupPhaseOk h t) (mutate s)" "only (\<lambda>r. r = Now) (mutate s)" for s
    using target(1) by (simp_all add: setsBackupPhase_def)
  have change: "wp (mutate (bkStatus cur)) (\<lambda>s. wp (backupCommit C cur (backupNewStatus C cur reason s)) B) l"
    if "soundCalls (backupJustified C) l" "set k \<subseteq> set l" "backupRead l cur" "?guard cur" for l cur
    by (rule backing.sound_yields [OF reads that(1)]) (use that in \<open>auto intro!: commit intro: backup_grows\<close>)
  show ?thesis
    unfolding backupWriteOnce_def call_defs
    by (intro wp_bind backing.sound_ask [OF sound(1)] wp_sum wp_if wp_return change finish read_backup) auto
qed

lemma backup_write_sound:
  assumes "setsBackupPhase h target mutate" "target \<in> backupPhases"
    and "soundCalls (backupJustified C) h" and "\<And>a k. soundCalls (backupJustified C) k \<Longrightarrow> set h \<subseteq> set k \<Longrightarrow> B a k"
  shows "wp (backupWriteStatus C key target reason mutate) B h"
  unfolding backupWriteStatus_def
  by (intro wp_bind backing.sound_retry [OF backup_writeOnce_sound] wp_return assms) (use assms in auto)

section \<open>The reconciler\<close>

abbreviation (input) "keepsBackup C h m \<equiv> wp m (\<lambda>_ k. soundCalls (backupJustified C) k \<and> set h \<subseteq> set k) h"

lemma keepB:
  "keepsBackup C k m \<Longrightarrow> set h \<subseteq> set k \<Longrightarrow> wp m (\<lambda>_ l. soundCalls (backupJustified C) l \<and> set h \<subseteq> set l) k"
  by (erule wp_mono) auto

lemma end_sound:
  assumes "setsBackupPhase h target mutate" "target \<in> backupPhases" "soundCalls (backupJustified C) h"
  shows "keepsBackup C h (endBackup C key target reason mutate)"
  unfolding endBackup_def by (intro wp_bind backup_write_sound [OF assms] wp_return) auto

lemmas fail_sound = end_sound [OF setsBackupPhase_simps(1) backupPhases_in(4)]
lemmas fail_now_sound = end_sound [OF setsBackupPhase_simps(2) backupPhases_in(4)]
lemmas reject_sound = end_sound [OF setsBackupPhase_simps(3) backupPhases_in(4)]

lemma backup_pending_sound: "soundCalls (backupJustified C) h \<Longrightarrow> keepsBackup C h (backupSetPending C key reason msg)"
  unfolding backupSetPending_def
  by (intro wp_bind backup_write_sound [OF setsBackupPhase_simps(4)] wp_return) auto

definition podReads :: "req \<Rightarrow> bool" where
  "podReads r \<longleftrightarrow> (\<exists>ns l. r = ListIn KPod ns l) \<or> (\<exists>a b c d. r = PodLogs a b c d) \<or> r = Now"

lemma podReads_justified: "podReads r \<Longrightarrow> backupJustified C h r"
  by (auto simp: podReads_def)

lemma backup_reads:
  "only podReads (backupNodeFor C bk inst)" "only podReads (backupPodLogs C bk ctr)" "only podReads (backupJobCompletion C j)"
  unfolding backupNodeFor_def backupOdooPodNode_def backupPodLogs_def backupLatestPod_def backupJobCompletion_def call_defs
  by (auto intro!: frame_intros simp: podReads_def)

lemma backup_log_reads: "only podReads (backupResultLine C bk)" "only podReads (backupLogTail C bk)"
  unfolding backupResultLine_def backupLogTail_def by (auto intro!: frame_intros backup_reads)

lemmas backup_read_sound = backing.sound_only [OF backup_reads(1) _ podReads_justified]
  backing.sound_only [OF backup_reads(3) _ podReads_justified]
  backing.sound_only [OF backup_log_reads(1) _ podReads_justified]
  backing.sound_only [OF backup_log_reads(2) _ podReads_justified]

lemma backup_start_sound:
  assumes sound: "soundCalls (backupJustified C) h"
    and may: "backupDatabase bk inst \<noteq> '''' \<Longrightarrow> mayBackup C h bk inst" "backupTurn h bk" "bkSchedule (bkSpec bk) = ''''"
  shows "keepsBackup C h (backupStart C bk inst)"
proof (cases "backupDatabase bk inst = ''''")
  case True
  show ?thesis unfolding backupStart_def Let_def if_P [OF True] by (rule fail_sound [OF sound])
next
  case False
  have create: "backupJustified C k (Create (OJob (j\<lparr>jobMeta := m\<rparr>)))"
    if "buildBackupJob C bk inst (backupDatabase bk inst) node = Some j" "set h \<subseteq> set k" for k node j m
    using backup_grows(5) [OF that(2) may(1) [OF False]] backup_grows(6) [OF that(2) may(2)] may(3) that(1)
    by (auto simp: jobJustified_def)
  have started: "setsBackupPhase l BackupPhaseRunning (startBackup (metaName m) now)"
    if "(Create (OJob (j\<lparr>jobMeta := m\<rparr>)), p) \<in> set k" "set k \<subseteq> set l" for k l m now j p
  proof (rule setsBackupPhase_simps(6))
    have "(Create (OJob (j\<lparr>jobMeta := m\<rparr>)), p) \<in> set l \<and> metaName (jobMeta (j\<lparr>jobMeta := m\<rparr>)) = metaName m"
      using that by auto
    then show "backupJobStarted l (metaName m)" unfolding backupJobStarted_def by blast
  qed
  show ?thesis
    unfolding backupStart_def Let_def if_not_P [OF False] createObj_def doCall_def timeNow_def
    apply (rule wp_bind, rule backup_read_sound(1) [OF sound], assumption, rule wp_option, rule wp_return, blast)
    apply (rule wp_sum, rule wp_return, blast)
    apply (rule wp_bind, rule backing.sound_ask, assumption, erule create, assumption)
    apply (intro wp_option wp_return)
     apply (rule wp_bind, rule backing.sound_ask, assumption, simp)
     apply (rule wp_bind, rule backup_write_sound [OF started], assumption, assumption, simp, assumption)
    by (auto intro!: wp_return)
qed

lemma backup_monitor_sound:
  assumes sound: "soundCalls (backupJustified C) h" and bk: "backupRead h bk"
  shows "keepsBackup C h (backupMonitor C bk)"
proof -
  have success: "backupSuccessRead l" if "(Get KJob (metaNamespace (bkMeta bk), bkJobName (bkStatus bk)), p) \<in> set k"
      "objReply asJob p = Inr j" "backupJobSucceeded j" "set h \<subseteq> set k" "set k \<subseteq> set l" for k l p j
    using that backup_grows(1) [OF subset_trans [OF that(4,5)] bk] unfolding backupSuccessRead_def objReply_Inr_iff as_iff by blast
  have fresh: "wp (case t of None \<Rightarrow> State_Monad.return False
       | Some t \<Rightarrow> do { now \<leftarrow> ask C Now timeReply; State_Monad.return (timeSub now t < backupJobGrace) }) B k"
    if "soundCalls (backupJustified C) k" "\<And>a l. soundCalls (backupJustified C) l \<Longrightarrow> set k \<subseteq> set l \<Longrightarrow> B a l" for t B k
    by (intro wp_intros backing.sound_ask that) (use that in auto)
  show ?thesis
    unfolding backupMonitor_def Let_def getJob_def timeNow_def
    apply (rule wp_bind, rule backing.sound_ask [OF sound], simp, rule wp_sum; (intro wp_if wp_return)?)
         apply simp
        apply (rule wp_bind, rule fresh, assumption, intro wp_if wp_return, simp)
        apply (rule keepB [OF fail_now_sound], assumption, blast)
       apply (rule wp_bind, rule backup_read_sound(2), assumption, assumption, rule wp_bind, rule backup_read_sound(3), assumption, assumption)
       apply (rule keepB [OF end_sound [OF setsBackupPhase_simps(5)]], erule success, assumption, assumption, blast, blast, simp, assumption, blast)
      apply (rule wp_bind, rule backup_read_sound(4), assumption, assumption)
      apply (rule keepB [OF fail_now_sound], assumption, blast)
    by auto
qed

lemma listed_backups: "listReply asBackup p = Inr xs \<Longrightarrow> \<exists>items. p = RObjs items \<and> xs = List.map_filter asBackup items"
  by (cases p) (auto simp: badReply_def)

lemma may_backup:
  assumes "backupRead h bk" "backupValidateSpec C bk = None" "backupDatabase bk inst \<noteq> ''''" "set h \<subseteq> set k" "objReply asInstance p = Inr inst"
    "(Get KInstance (metaNamespace (bkMeta bk), refName (bkInstanceRef (bkSpec bk))), p) \<in> set k"
  shows "mayBackup C k bk inst"
  using assms backup_grows(1) unfolding mayBackup_def objReply_Inr_iff as_iff by blast

lemma backup_admit_sound:
  assumes sound: "soundCalls (backupJustified C) h" and bk: "backupRead h bk" "\<not> backupPhaseTerminal (bkPhase (bkStatus bk))"
    and shot: "bkSchedule (bkSpec bk) = ''''"
  shows "keepsBackup C h (backupAdmit C key bk)"
proof -
  have turn: "backupTurn l bk" if "(ListIn KBackup (metaNamespace (bkMeta bk)) [], q) \<in> set l" "listReply asBackup q = Inr xs"
      "MayStart (backupDecideStart bk xs)" for q xs l
    using that bk(2) listed_backups [OF that(2)] unfolding backupTurn_def by blast
  show ?thesis
    unfolding backupAdmit_def Let_def getInstance_def listBackups_def
    apply (rule wp_option)
     apply (rule wp_bind, rule backing.sound_ask [OF sound], simp, rule wp_sum; (intro wp_if wp_return)?)
       apply (rule keepB [OF backup_pending_sound], assumption, assumption)
      apply blast
     apply (rule wp_bind, rule backing.sound_ask, assumption, simp, rule wp_sum; (intro wp_if wp_return)?)
       apply blast
      apply (rule keepB [OF backup_pending_sound], assumption, blast)
     apply (rule keepB [OF backup_start_sound [OF _ _ turn shot]], assumption)
         apply (rule backup_grows(5), assumption, rule may_backup [OF bk(1)], assumption+, simp, blast)
    by (rule fail_sound [OF sound])
qed

section \<open>Scheduled backups\<close>

lemma written_simps [simp]:
  "cronSpec (cronWritten cur desired) = cronSpec desired" "metaName (cronMeta (cronWritten cur desired)) = metaName (cronMeta cur)"
  by (simp_all add: cronWritten_def)

lemma cronJustified_spec: "cronJustified C h c \<Longrightarrow> cronSpec d = cronSpec c \<Longrightarrow> cronJustified C h d"
  by (simp add: cronJustified_def)

lemma apply_cron_sound:
  assumes sound: "soundCalls (backupJustified C) h" and just: "cronJustified C h desired"
    and finish: "\<And>r k. soundCalls (backupJustified C) k \<Longrightarrow> set h \<subseteq> set k
      \<Longrightarrow> (\<And>c. r = Inr c \<Longrightarrow> cronSeen k (metaName (cronMeta c))) \<Longrightarrow> B r k"
  shows "wp (backupApplyCronJob C desired) B h"
proof -
  have created: "cronSeen l (metaName (cronMeta desired))" if "(Create (OCronJob desired), p) \<in> set l" for p l
    using that unfolding cronSeen_def by blast
  have read: "cronSeen l (metaName (cronMeta cur))" "cronBasedOn l (cronWritten cur desired)"
    if "(Get KCronJob key, p) \<in> set k" "objReply asCronJob p = Inr cur" "set k \<subseteq> set l" for p k l key cur
    using that unfolding cronSeen_def cronBasedOn_def objReply_Inr_iff as_iff by blast+
  have update: "backupJustified C l (Update (OCronJob (cronWritten cur desired)))"
    if "(Get KCronJob key, p) \<in> set l" "objReply asCronJob p = Inr cur" "set h \<subseteq> set l" for p l key cur
    using read(2) [OF that(1,2) subset_refl] cronJustified_spec [OF justified_grows(3) [OF that(3) just]] by simp
  show ?thesis
    unfolding backupApplyCronJob_def getCronJob_def createObj_def updateObj_def doCall_def
    apply (rule wp_bind, rule backing.sound_ask [OF sound], simp, rule wp_sum; (intro wp_if wp_return)?)
       apply (rule wp_bind, rule backing.sound_ask, assumption, simp, erule justified_grows(3) [OF _ just])
       apply (intro wp_return finish, assumption, blast)
       apply (auto dest: created split: option.splits if_splits)[1]
      apply (intro finish; simp)
     apply (intro finish, assumption, assumption, simp, erule read(1), assumption, simp)
    apply (rule wp_bind, rule backing.sound_ask, assumption, rule update, assumption+)
    apply (intro wp_return finish, assumption, blast)
    apply (auto dest: read(1) split: option.splits)
    done
qed

lemma apply_schedule_sound:
  assumes sound: "soundCalls (backupJustified C) h" and just: "cronJustified C h desired"
  shows "keepsBackup C h (applySchedule C key desired)"
  unfolding applySchedule_def
  apply (rule wp_bind, rule apply_cron_sound [OF sound just], rule wp_sum; (intro wp_if wp_return)?)
    apply (rule keepB [OF reject_sound], assumption, assumption)
   apply blast
  apply (rule wp_bind, rule backup_write_sound [OF setsBackupPhase_simps(7)], simp, simp, assumption)
  by (auto intro!: wp_return)

lemma scheduled_sound:
  assumes sound: "soundCalls (backupJustified C) h" and bk: "backupRead h bk" and sched: "bkSchedule (bkSpec bk) \<noteq> ''''"
  shows "keepsBackup C h (reconcileScheduled C bk)"
proof -
  have desired: "cronJustified C l (c\<lparr>cronMeta := m\<rparr>)"
    if "backupValidateSpec C bk = None" "backupDatabase bk inst \<noteq> ''''" "set h \<subseteq> set k" "objReply asInstance p = Inr inst"
      "(Get KInstance (metaNamespace (bkMeta bk), refName (bkInstanceRef (bkSpec bk))), p) \<in> set k" "set k \<subseteq> set l"
      "buildBackupCronJob C bk inst (backupDatabase bk inst) node = Some c" for k l p inst c m node
    using backup_grows(5) [OF that(6) may_backup [OF bk that(1-5)]] sched that(7) by (auto simp: cronJustified_def)
  show ?thesis
    unfolding reconcileScheduled_def Let_def getInstance_def
    apply (rule wp_option)
     apply (rule wp_bind, rule backing.sound_ask [OF sound], simp, rule wp_sum; (intro wp_if wp_return)?)
        apply (rule keepB [OF backup_pending_sound], assumption, assumption)
       apply blast
      apply (rule keepB [OF fail_sound], assumption, assumption)
     apply (rule wp_bind, rule backup_read_sound(1), assumption, assumption, rule wp_option, rule wp_return, blast)
     apply (rule wp_sum, rule wp_return, blast)
     apply (rule keepB [OF apply_schedule_sound], assumption, rule desired, assumption+, blast)
    by (rule fail_sound [OF sound])
qed

lemma backup_reconcile_sound: "wp (backupReconcile C key) (\<lambda>_. soundCalls (backupJustified C)) []"
proof -
  have weaken: "keepsBackup C k m \<Longrightarrow> wp m (\<lambda>_. soundCalls (backupJustified C)) k" for m :: "('a, outcome) prog" and k
    by (erule wp_mono) simp
  show ?thesis
    unfolding backupReconcile_def reconcileOneShot_def Let_def getBackup_def
    apply (rule wp_bind, rule backing.sound_ask [OF backing.sound_Nil], simp, rule wp_sum, rule wp_return, assumption)
    apply (intro wp_if wp_return)
       apply (rule weaken [OF scheduled_sound], assumption, erule read_backup, assumption+)
     apply (rule weaken [OF backup_monitor_sound], assumption, erule read_backup, assumption)
    apply (rule weaken [OF backup_admit_sound], assumption, erule read_backup, assumption+, simp)
    done
qed

section \<open>Properties\<close>

text \<open>C3: The backup reconciler refines its abstract machine, whatever the cluster answers: every status it writes is based on
  a copy it has read and is a step of the machine (a finished one-shot backup is never changed, Running never goes back to
  Pending); Succeeded follows a Job read as succeeded, Running a Job whose creation was asked for, Scheduled a CronJob
  that was read or asked for; a Job is created only for a valid one-shot backup of an existing instance with a database
  whose turn it is, with exactly the spec built for it; a CronJob is created or rewritten only with the spec built for a
  valid scheduled backup. Nothing else is written.\<close>

theorem backup_reconcile_refines:
  "soundCalls (backupJustified C) (callsOf (backupReconcile C key) w)"
  by (rule wp_callsOf [OF backup_reconcile_sound])

section \<open>A changed schedule\<close>

text \<open>
  The hash a CronJob is compared by covers its Job spec only. A backup of which only the schedule or the suspension
  changes therefore finds its old CronJob up to date, and writes nothing.
\<close>

lemma reschedule_parts:
  fixes bk s b
  defines "bk' \<equiv> bk\<lparr>bkSpec := (bkSpec bk)\<lparr>bkSchedule := s, bkSuspend := b\<rparr>\<rparr>"
  shows "pvcBackup C bk' = pvcBackup C bk" "s3Backup C bk' = s3Backup C bk" "backupPodOf bk' = backupPodOf bk"
  by (simp_all add: bk'_def fun_eq_iff pvcBackup_def s3Backup_def backupPodOf_def backupIncludeFilestore_def backupRetention_def
      backupScratchQuantity_def Let_def)

lemma reschedule_job:
  "buildBackupJobSpec C (bk\<lparr>bkSpec := (bkSpec bk)\<lparr>bkSchedule := s, bkSuspend := b\<rparr>\<rparr>) inst database node = buildBackupJobSpec C bk inst database node"
proof -
  have "backupParts C (bk\<lparr>bkSpec := (bkSpec bk)\<lparr>bkSchedule := s, bkSuspend := b\<rparr>\<rparr>) inst database = backupParts C bk inst database"
    unfolding backupParts_def reschedule_parts by (simp split: option.split)
  then show ?thesis
    unfolding buildBackupJobSpec_def buildBackupPodSpec_def reschedule_parts by (simp add: backupTimeout_def)
qed

text \<open>A scheduled backup of which only the schedule or the suspension changed does not update its CronJob: the CronJob
  built before the change is taken for up to date, and the pass only reads it.\<close>

theorem schedule_change_ignored:
  assumes "buildBackupCronJob C bk inst database node = Some cur"
    and "buildBackupCronJob C (bk\<lparr>bkSpec := (bkSpec bk)\<lparr>bkSchedule := s, bkSuspend := b\<rparr>\<rparr>) inst database node = Some desired"
    and "api C (Get KCronJob (metaNamespace (cronMeta desired), metaName (cronMeta desired))) w = (RObj (OCronJob cur), w')"
  shows "callsOf (backupApplyCronJob C desired) w = [(Get KCronJob (metaNamespace (cronMeta desired), metaName (cronMeta desired)), RObj (OCronJob cur))]
    \<and> cronSchedule (cronSpec desired) = s \<and> cronSchedule (cronSpec cur) = bkSchedule (bkSpec bk)"
proof -
  obtain spec where c: "cur = backupCronJobOf C bk spec"
      "desired = backupCronJobOf C (bk\<lparr>bkSpec := (bkSpec bk)\<lparr>bkSchedule := s, bkSuspend := b\<rparr>\<rparr>) spec"
    using assms(1,2) unfolding buildBackupCronJob_def reschedule_job by (auto simp: map_option_eq_Some)
  have "cronUpToDate cur desired"
    unfolding c cronUpToDate_def by (simp add: backupCronJobOf_def newMeta_def gomap_eq_iff)
  with assms(3) show ?thesis
    by (simp add: callsOf_def start_def backupApplyCronJob_def call_defs exec_simps) (simp add: c backupCronJobOf_def)
qed

lemma scripted_cron: "buildBackupCronJob (scripted f) = buildBackupCronJob (scripted g)"
proof -
  have "backupImage (scripted f) = backupImage (scripted g)" "backupS3Image (scripted f) = backupS3Image (scripted g)"
    "backupScratchQuantity (scripted f) = backupScratchQuantity (scripted g)" "backupSpecHash (scripted f) = backupSpecHash (scripted g)"
    by (simp_all add: fun_eq_iff backupImage_def backupS3Image_def backupScratchQuantity_def backupSpecHash_def scripted_def kubelib.defs)
  then show ?thesis
    by (simp add: fun_eq_iff buildBackupCronJob_def buildBackupJobSpec_def buildBackupPodSpec_def backupParts_def pvcBackup_def
        s3Backup_def backupCronJobOf_def map_option_case split: option.split)
qed

definition hourly :: backup where
  "hourly = claimBackup\<lparr>bkSpec := (bkSpec claimBackup)\<lparr>bkSchedule := ''0 * * * *'', bkSuspend := False\<rparr>\<rparr>"

theorem schedule_change_ignored_witness:
  "\<exists>f desired. buildBackupCronJob (scripted f) hourly (bareInstance ''shop'' ''ns'') ''shop'' '''' = Some desired
     \<and> cronSchedule (cronSpec desired) = ''0 * * * *''
     \<and> (\<exists>cur. cronSchedule (cronSpec cur) = '''' \<and> callsOf (backupApplyCronJob (scripted f) desired) () =
          [(Get KCronJob (metaNamespace (cronMeta desired), metaName (cronMeta desired)), RObj (OCronJob cur))])"
proof -
  have some: "\<exists>c. buildBackupCronJob (scripted (\<lambda>_. ROk)) bk (bareInstance ''shop'' ''ns'') ''shop'' '''' = Some c"
    if "destPVC (bkDestination (bkSpec bk)) \<noteq> None" for bk
    using that by (auto simp: buildBackupCronJob_def buildBackupJobSpec_def buildBackupPodSpec_def backupParts_def simp del: split_paired_Ex)
  obtain cur where cur: "buildBackupCronJob (scripted (\<lambda>_. ROk)) claimBackup (bareInstance ''shop'' ''ns'') ''shop'' '''' = Some cur"
    using some [of claimBackup] by (auto simp: claimBackup_def)
  obtain desired where desired: "buildBackupCronJob (scripted (\<lambda>_. ROk)) hourly (bareInstance ''shop'' ''ns'') ''shop'' '''' = Some desired"
    using some [of hourly] by (auto simp: hourly_def claimBackup_def)
  let ?f = "\<lambda>_ :: req. RObj (OCronJob cur)"
  have "api (scripted ?f) r () = (RObj (OCronJob cur), ())" for r
    by (simp add: scripted_def kubelib.defs)
  then have "callsOf (backupApplyCronJob (scripted ?f) desired) () =
        [(Get KCronJob (metaNamespace (cronMeta desired), metaName (cronMeta desired)), RObj (OCronJob cur))]
      \<and> cronSchedule (cronSpec desired) = ''0 * * * *'' \<and> cronSchedule (cronSpec cur) = bkSchedule (bkSpec claimBackup)"
    using schedule_change_ignored [where C = "scripted ?f" and bk = claimBackup and cur = cur and s = "''0 * * * *''" and b = False
      and desired = desired and w = "()" and w' = "()" and inst = "bareInstance ''shop'' ''ns''" and database = "''shop''" and node = "''''"]
      cur desired scripted_cron [of "\<lambda>_. ROk" ?f] unfolding hourly_def by simp
  moreover have "bkSchedule (bkSpec claimBackup) = ''''" by (simp add: claimBackup_def)
  ultimately show ?thesis using desired scripted_cron [of "\<lambda>_. ROk" ?f] by auto
qed

end
