(* ===== verification/Call_Bounds.thy ===== *)
theory Call_Bounds
  imports Upgrade_Controller Backup_Controller Addon_Controller Instance_Controller
begin

text \<open>
  How much one pass may cost: the loops of the four reconcilers end, and a bound on the calls a pass makes, whatever the cluster
  answers. The only unbounded-looking loop is the retry on conflicts, which \<open>retrySteps\<close> limits.
\<close>

named_theorems cost_intros \<open>rules for the number of calls a program makes\<close>

definition costs :: "nat \<Rightarrow> ('w, 'a) prog \<Rightarrow> bool" where
  "costs n m \<longleftrightarrow> (\<forall>s. length (hist (snd (run_state m s))) \<le> length (hist s) + n)"

lemma costs_return [cost_intros]: "costs n (State_Monad.return a)"
  by (simp add: costs_def exec_simps)

lemma costs_ask [cost_intros]: "1 \<le> n \<Longrightarrow> costs n (ask C r f)"
  by (simp add: costs_def exec_simps split_def)

lemma costs_bind:
  assumes m: "costs a m" and f: "\<And>x. costs b (f x)" and le: "a + b \<le> n"
  shows "costs n (State_Monad.bind m f)"
  unfolding costs_def
proof
  fix s
  obtain x t where run: "run_state m s = (x, t)" by fastforce
  then have "length (hist t) \<le> length (hist s) + a" using m unfolding costs_def by (metis snd_conv)
  moreover have "length (hist (snd (run_state (f x) t))) \<le> length (hist t) + b" using f unfolding costs_def by blast
  ultimately show "length (hist (snd (run_state (State_Monad.bind m f) s))) \<le> length (hist s) + n"
    using le run by (simp add: exec_simps)
qed

lemma costs_ask_bind: "(\<And>x. costs n (f x)) \<Longrightarrow> costs (Suc n) (State_Monad.bind (ask C r g) f)"
  by (rule costs_bind [OF costs_ask]) auto

lemma costs_mono: "costs a m \<Longrightarrow> a \<le> n \<Longrightarrow> costs n m"
  unfolding costs_def by (meson add_left_mono order_trans)

lemma costs_if [cost_intros]: "(b \<Longrightarrow> costs n m) \<Longrightarrow> (\<not> b \<Longrightarrow> costs n k) \<Longrightarrow> costs n (if b then m else k)"
  by simp

lemma costs_sum [cost_intros]:
  "(\<And>e. x = Inl e \<Longrightarrow> costs n (f e)) \<Longrightarrow> (\<And>a. x = Inr a \<Longrightarrow> costs n (g a)) \<Longrightarrow> costs n (case x of Inl e \<Rightarrow> f e | Inr a \<Rightarrow> g a)"
  by (cases x) simp_all

lemma costs_option [cost_intros]:
  "(x = None \<Longrightarrow> costs n f) \<Longrightarrow> (\<And>a. x = Some a \<Longrightarrow> costs n (g a)) \<Longrightarrow> costs n (case x of None \<Rightarrow> f | Some a \<Rightarrow> g a)"
  by (cases x) simp_all

lemma costs_let [cost_intros]: "costs n (f x) \<Longrightarrow> costs n (let y = x in f y)"
  by simp

lemma costs_retry: "costs a body \<Longrightarrow> costs (a * Suc k) (retryOnConflict k body)"
proof (induction k)
  case (Suc k)
  then show ?case by (auto intro!: costs_bind [where a = a and b = "a * Suc k"] cost_intros)
qed simp

lemma costs_retry_return:
  "costs a body \<Longrightarrow> a * Suc k \<le> n \<Longrightarrow> costs n (do { err \<leftarrow> retryOnConflict k body; State_Monad.return (g err) })"
  by (rule costs_bind [OF costs_retry costs_return [where n = 0]]) simp_all

lemma costs_callsOf: "costs n m \<Longrightarrow> length (callsOf m w) \<le> n"
  unfolding costs_def callsOf_def start_def by (metis add_0 list.size(3) run.select_convs(2))

lemma costs_emit: "length evs \<le> n \<Longrightarrow> costs n (emitEvents C x evs)"
proof -
  assume le: "length evs \<le> n"
  have "costs (length evs) (emitAll C x evs)"
    by (induction evs) (auto intro!: cost_intros costs_ask_bind simp: doCall_def)
  then show ?thesis unfolding emitEvents_def by (intro cost_intros) (rule costs_mono [OF _ le])
qed

section \<open>Upgrades\<close>

definition writeCost :: "'w cluster \<Rightarrow> nat" where
  "writeCost C = 4 * Suc (retrySteps C)"

lemma one_event: "length (upgradeEvents b a) \<le> 1" "length (backupEvents d c) \<le> 1"
  by (simp_all add: upgradeEvents_def backupEvents_def)

lemma commit_costs: "costs 2 (upgradeCommit C cur after)" "costs 2 (backupCommit C bk status)"
  unfolding upgradeCommit_def backupCommit_def call_defs numeral_2_eq_2
  by (intro cost_intros costs_ask_bind costs_bind [where a = 1 and b = 0] costs_emit one_event; simp)+

lemma upgrade_write_costs:
  assumes "\<And>s. costs 1 (mutate s)"
  shows "costs (writeCost C) (upgradeWriteStatus C key target reason mutate)"
proof -
  have "costs 4 (upgradeWriteOnce C key target reason mutate)"
    unfolding upgradeWriteOnce_def call_defs
    by (intro costs_bind [where a = 1 and b = 3] cost_intros costs_bind [where a = 1 and b = 2] assms commit_costs) simp_all
  from costs_retry_return [OF this order_refl] show ?thesis
    unfolding upgradeWriteStatus_def writeCost_def .
qed

lemma upgrade_changes:
  "costs 1 (failUpgrade msg s)" "costs 1 (failUpgradeNow C msg s)" "costs 1 (startUpgrade n now s)"
  unfolding failUpgrade_def failUpgradeNow_def startUpgrade_def call_defs by (intro cost_intros costs_bind [where a = 1 and b = 0]; simp)+

lemma upgrade_reads_cost: "costs 1 (upgradeOdooPodNode C inst)" "costs 2 (upgradeLogTail C up)" "costs 1 (upgradeJobCompletion C j)"
  unfolding upgradeOdooPodNode_def upgradeLogTail_def upgradeJobCompletion_def call_defs
  by (intro cost_intros costs_bind [where a = 1 and b = 0] costs_bind [where a = 1 and b = 1]; simp)+

lemma upgrade_end_cost:
  "(\<And>s. costs 1 (mutate s)) \<Longrightarrow> writeCost C \<le> n \<Longrightarrow>
   costs n (do { err \<leftarrow> upgradeWriteStatus C key target reason mutate; State_Monad.return (q, err) })"
  by (intro costs_bind [where a = "writeCost C" and b = 0] upgrade_write_costs cost_intros) auto

lemma upgrade_start_cost: "costs (3 + writeCost C) (upgradeStart C up inst)"
proof -
  have rest: "costs (2 + writeCost C) (case SetControllerReference C (upMeta up) (jobMeta j) of Inl e \<Rightarrow> State_Monad.return (0, Some e)
     | Inr m \<Rightarrow> do {
         err \<leftarrow> ask C (Create (OJob (j\<lparr>jobMeta := m\<rparr>))) errReply;
         case (case err of Some e \<Rightarrow> if isAlreadyExists e then None else Some e | None \<Rightarrow> None) of
           Some e \<Rightarrow> State_Monad.return (0, Some (WrapError ''failed to create upgrade job: '' e))
         | None \<Rightarrow> do {
             now \<leftarrow> ask C Now timeReply;
             werr \<leftarrow> upgradeWriteStatus C key UpgradePhaseRunning ReasonRunning (startUpgrade (metaName m) now);
             State_Monad.return (upgradeRequeueRunning, werr)
           }
       })" for j key
    by (intro cost_intros costs_bind [where a = 1 and b = "Suc (writeCost C)"] costs_ask_bind upgrade_end_cost upgrade_changes) simp_all
  show ?thesis
    unfolding upgradeStart_def Let_def call_defs
    by (intro cost_intros upgrade_end_cost upgrade_changes costs_bind [where a = 1 and b = "2 + writeCost C"] rest upgrade_reads_cost)
      simp_all
qed

lemma upgrade_monitor_cost: "costs (3 + writeCost C) (upgradeMonitor C up)"
proof -
  have fresh: "costs 1 (case t of None \<Rightarrow> State_Monad.return False
      | Some t \<Rightarrow> do { now \<leftarrow> ask C Now timeReply; State_Monad.return (timeSub now t < upgradeJobGrace) })" for t
    by (intro cost_intros costs_bind [where a = 1 and b = 0]) simp_all
  show ?thesis
    unfolding upgradeMonitor_def Let_def getJob_def timeNow_def
    by (intro costs_bind [where a = 1 and b = "2 + writeCost C"] cost_intros costs_bind [OF fresh, where b = "writeCost C"]
        costs_bind [OF upgrade_reads_cost(2), where b = "writeCost C"] costs_bind [OF upgrade_reads_cost(3), where b = "writeCost C"]
        upgrade_end_cost upgrade_changes) simp_all
qed

lemma upgrade_admit_cost: "costs (5 + writeCost C) (upgradeAdmit C key up)"
  unfolding upgradeAdmit_def upgradeSetPending_def Let_def getInstance_def listUpgrades_def
  by (intro cost_intros costs_bind [where a = 1 and b = "4 + writeCost C"] costs_bind [where a = 1 and b = "3 + writeCost C"]
      upgrade_end_cost upgrade_changes upgrade_start_cost) simp_all

lemma upgrade_backfill_cost: "costs (2 * Suc (retrySteps C)) (upgradeBackfillConditions C key)"
proof -
  have "costs 2 (upgradeBackfillOnce C key)"
    unfolding upgradeBackfillOnce_def call_defs by (intro costs_bind [where a = 1 and b = 1] cost_intros) simp_all
  from costs_retry_return [OF this order_refl] show ?thesis
    unfolding upgradeBackfillConditions_def .
qed

lemma upgrade_reconcile_cost: "costs (6 + 6 * Suc (retrySteps C)) (upgradeReconcile C key)"
proof -
  have fill: "costs (2 * Suc (retrySteps C)) (if b then upgradeBackfillConditions C key else State_Monad.return None)" for b
    by (intro cost_intros upgrade_backfill_cost)
  show ?thesis
    unfolding upgradeReconcile_def getUpgrade_def
    by (intro costs_bind [where a = 1 and b = "5 + 6 * Suc (retrySteps C)"] cost_intros
        costs_bind [OF fill, where b = "5 + 4 * Suc (retrySteps C)"] costs_mono [OF upgrade_monitor_cost]
        costs_mono [OF upgrade_admit_cost]) (simp_all add: writeCost_def)
qed

section \<open>Backups\<close>

lemma backup_write_costs:
  assumes "\<And>s. costs 1 (mutate s)"
  shows "costs (writeCost C) (backupWriteStatus C key target reason mutate)"
proof -
  have "costs 4 (backupWriteOnce C key target reason mutate)"
    unfolding backupWriteOnce_def call_defs
    by (intro costs_bind [where a = 1 and b = 3] cost_intros costs_bind [where a = 1 and b = 2] assms commit_costs) simp_all
  from costs_retry_return [OF this order_refl] show ?thesis
    unfolding backupWriteStatus_def writeCost_def .
qed

lemma backup_changes:
  "costs 1 (failBackup msg s)" "costs 1 (failBackupNow C msg s)" "costs 1 (startBackup n now s)" "costs 1 (scheduleBackup c s)"
  unfolding failBackup_def failBackupNow_def startBackup_def scheduleBackup_def call_defs
  by (intro cost_intros costs_bind [where a = 1 and b = 0]; simp)+

lemma backup_end_cost:
  "(\<And>s. costs 1 (mutate s)) \<Longrightarrow> writeCost C \<le> n \<Longrightarrow> costs n (endBackup C key target reason mutate)"
  "(\<And>s. costs 1 (mutate s)) \<Longrightarrow> writeCost C \<le> n \<Longrightarrow>
   costs n (do { err \<leftarrow> backupWriteStatus C key target reason mutate; State_Monad.return (q, err) })"
  unfolding endBackup_def by (intro costs_bind [where a = "writeCost C" and b = 0] backup_write_costs cost_intros; simp)+

lemma backup_logs_cost: "costs 2 (backupPodLogs C bk ctr)"
  unfolding backupPodLogs_def backupLatestPod_def call_defs
  by (intro cost_intros costs_bind [where a = 1 and b = 1] costs_bind [where a = 1 and b = 0]) simp_all

lemma backup_reads_cost:
  "costs 1 (backupNodeFor C bk inst)" "costs 2 (backupResultLine C bk)" "costs 4 (backupLogTail C bk)" "costs 1 (backupJobCompletion C j)"
  unfolding backupNodeFor_def backupOdooPodNode_def backupResultLine_def backupLogTail_def backupJobCompletion_def call_defs
     apply (intro cost_intros costs_bind [where a = 1 and b = 0]; simp)
    apply (intro costs_bind [OF backup_logs_cost costs_return [where n = 0]]; simp)
   apply (intro costs_bind [OF backup_logs_cost, where b = 2] costs_bind [where a = 2 and b = 0] cost_intros backup_logs_cost; simp)
  apply (intro cost_intros costs_bind [where a = 1 and b = 0]; simp)
  done

lemma backup_start_cost: "costs (3 + writeCost C) (backupStart C bk inst)"
  unfolding backupStart_def Let_def createObj_def doCall_def timeNow_def
  by (intro cost_intros backup_end_cost backup_changes costs_bind [OF backup_reads_cost(1), where b = "2 + writeCost C"]
      costs_bind [where a = 1 and b = "Suc (writeCost C)"] costs_ask_bind) simp_all

lemma backup_monitor_cost: "costs (5 + writeCost C) (backupMonitor C bk)"
proof -
  have fresh: "costs 1 (case t of None \<Rightarrow> State_Monad.return False
      | Some t \<Rightarrow> do { now \<leftarrow> ask C Now timeReply; State_Monad.return (timeSub now t < backupJobGrace) })" for t
    by (intro cost_intros costs_bind [where a = 1 and b = 0]) simp_all
  show ?thesis
    unfolding backupMonitor_def Let_def getJob_def timeNow_def
    by (intro costs_bind [OF costs_ask [OF order_refl], where b = "4 + writeCost C"] cost_intros costs_bind [OF fresh, where b = "writeCost C"]
        costs_bind [OF backup_reads_cost(4), where b = "2 + writeCost C"] costs_bind [OF backup_reads_cost(2), where b = "writeCost C"]
        costs_bind [OF backup_reads_cost(3), where b = "writeCost C"] backup_end_cost backup_changes) simp_all
qed

lemma backup_admit_cost: "costs (5 + writeCost C) (backupAdmit C key bk)"
  unfolding backupAdmit_def backupSetPending_def Let_def getInstance_def listBackups_def
  by (intro cost_intros costs_bind [where a = 1 and b = "4 + writeCost C"] costs_bind [where a = 1 and b = "3 + writeCost C"]
      backup_end_cost backup_changes backup_start_cost) simp_all

lemma apply_cron_cost: "costs 2 (backupApplyCronJob C desired)"
  unfolding backupApplyCronJob_def call_defs
  by (intro costs_bind [where a = 1 and b = 1] cost_intros costs_bind [where a = 1 and b = 0]) simp_all

lemma scheduled_cost: "costs (4 + writeCost C) (reconcileScheduled C bk)"
proof -
  have apply_: "costs (2 + writeCost C) (applySchedule C key desired)" for key desired
    unfolding applySchedule_def
    by (intro costs_bind [OF apply_cron_cost, where b = "writeCost C"] cost_intros backup_end_cost backup_changes) simp_all
  show ?thesis
    unfolding reconcileScheduled_def backupSetPending_def Let_def getInstance_def
    by (intro cost_intros costs_bind [OF costs_ask [OF order_refl], where b = "3 + writeCost C"] backup_end_cost backup_changes
        costs_bind [OF backup_reads_cost(1), where b = "2 + writeCost C"] apply_) simp_all
qed

lemma backup_reconcile_cost: "costs (6 + 4 * Suc (retrySteps C)) (backupReconcile C key)"
  unfolding backupReconcile_def reconcileOneShot_def Let_def getBackup_def
  by (intro costs_bind [OF costs_ask [OF order_refl], where b = "5 + writeCost C"] cost_intros costs_mono [OF scheduled_cost]
      costs_mono [OF backup_monitor_cost] costs_mono [OF backup_admit_cost]) (simp_all add: writeCost_def)

section \<open>Adding up\<close>

text \<open>
  The same rules in the form that computes the bound: a proof starts with \<open>costs_mono\<close>, the rules fill in the number of calls, and
  arithmetic compares it with the bound.
\<close>

named_theorems tally_intros \<open>rules that compute a bound on the calls a program makes\<close>

lemma tally_step [tally_intros]: "costs 0 (State_Monad.return a)" "costs 1 (ask C r f)"
  by (auto intro: cost_intros)

lemma tally_bind [tally_intros]: "costs a m \<Longrightarrow> (\<And>x. costs b (f x)) \<Longrightarrow> costs (a + b) (State_Monad.bind m f)"
  by (rule costs_bind) auto

lemma tally_if [tally_intros]: "costs a m \<Longrightarrow> costs b k \<Longrightarrow> costs (max a b) (if c then m else k)"
  by (auto intro: costs_mono)

lemma tally_sum [tally_intros]:
  "(\<And>e. costs a (f e)) \<Longrightarrow> (\<And>x. costs b (g x)) \<Longrightarrow> costs (max a b) (case y of Inl e \<Rightarrow> f e | Inr x \<Rightarrow> g x)"
  by (intro costs_sum) (blast intro: costs_mono max.cobounded1 max.cobounded2)+

lemma tally_option [tally_intros]:
  "costs a f \<Longrightarrow> (\<And>x. costs b (g x)) \<Longrightarrow> costs (max a b) (case y of None \<Rightarrow> f | Some x \<Rightarrow> g x)"
  by (intro costs_option) (blast intro: costs_mono max.cobounded1 max.cobounded2)+

lemma tally_pair [tally_intros]: "(\<And>x y. costs a (f x y)) \<Longrightarrow> costs a (case p of (x, y) \<Rightarrow> f x y)"
  by (cases p) simp

lemma tally_let [tally_intros]: "(\<And>x. costs a (f x)) \<Longrightarrow> costs a (let x = y in f x)"
  by simp

section \<open>Addons\<close>

lemma addon_events: "length (addonEvents L b a) \<le> 3"
  by (auto simp: addonEvents_def split: option.split)

lemma addon_write_cost [tally_intros]: "costs 4 (writeAddonStatus C addon reason msg mutate)"
  unfolding writeAddonStatus_def Let_def call_defs
  by (rule costs_mono, (rule tally_intros costs_emit [OF addon_events])+, simp)

lemma addon_parts_cost [tally_intros]:
  "costs 4 (setPhase C addon phase)" "costs 4 (pendingAddon C addon reason msg)" "costs 5 (markFailed C addon reason msg)"
  "costs 1 (deleteJob C j)" "costs 2 (readJobLogs C j)"
  unfolding setPhase_def pendingAddon_def markFailed_def deleteJob_def readJobLogs_def jobPod_def Let_def timeNow_def doCall_def listPods_def podLogs_def
  by (rule costs_mono, (rule tally_intros)+, simp)+

lemma addon_jobs_cost [tally_intros]:
  "costs 2 (createSyncJob C addon ins p s)" "costs 2 (createCleanupJob C addon ins p)" "costs 1 (getSyncJob C addon)"
  "costs 1 (getCleanupJob C addon)" "costs 1 (retireJob C j q)"
  unfolding createSyncJob_def createCleanupJob_def odooPodNode_def createOwnedJob_def getSyncJob_def getCleanupJob_def getJobIfAny_def
    retireJob_def call_defs
  by (rule costs_mono, (rule tally_intros)+, simp)+

lemma addon_record_cost [tally_intros]:
  "costs 6 (finishFailedSyncJob C addon j reason msg)" "costs 8 (recordSyncSuccess C addon j)" "costs 8 (recordSyncFailure C addon j)"
proof -
  show fin: "costs 6 (finishFailedSyncJob C addon j reason msg)" for reason msg
    unfolding finishFailedSyncJob_def timeNow_def by (rule costs_mono, (rule tally_intros)+, simp)
  have "costs 2 (readSyncOutput C j)"
    unfolding readSyncOutput_def Let_def by (rule costs_mono, (rule tally_intros)+, simp)
  then show "costs 8 (recordSyncSuccess C addon j)"
    unfolding recordSyncSuccess_def timeNow_def by (intro costs_mono [OF tally_bind]) (rule tally_intros fin | simp)+
  show "costs 8 (recordSyncFailure C addon j)"
    unfolding recordSyncFailure_def Let_def by (rule costs_mono, (rule tally_intros fin)+, simp)
qed

lemma addon_act_cost [tally_intros]: "costs 8 (actOnDecision C addon ins p jb d)"
proof -
  have act: "costs 8 (case a of addonActionInvalidSpec \<Rightarrow> m1 | addonActionJobConflict \<Rightarrow> m2 | addonActionDeleteStaleJob \<Rightarrow> m3
      | addonActionRecordSuccess \<Rightarrow> m4 | addonActionRecordFailure \<Rightarrow> m5 | addonActionAwaitJob \<Rightarrow> m6 | addonActionCooldown \<Rightarrow> m7
      | addonActionSkipResync \<Rightarrow> m8 | addonActionCreateJob \<Rightarrow> m9)"
    if "costs 8 m1" "costs 8 m2" "costs 8 m3" "costs 8 m4" "costs 8 m5" "costs 8 m6" "costs 8 m7" "costs 8 m8" "costs 8 m9"
    for a :: addonSyncAction and m1 m2 m3 m4 m5 m6 m7 m8 m9 :: "('w, outcome) prog"
    using that by (cases a) simp_all
  show ?thesis
    unfolding actOnDecision_def Let_def withJob_def
    by (intro act; rule costs_mono, (rule tally_intros)+, simp)
qed

lemma addon_sync_cost [tally_intros]: "costs 10 (syncAddon C addon ins p)"
  unfolding syncAddon_def timeNow_def by (rule costs_mono, (rule tally_intros)+, simp)

lemma addon_live_cost [tally_intros]: "costs 12 (reconcileOdooAddon C addon)"
  unfolding reconcileOdooAddon_def ensureVolumeMounted_def Let_def getInstance_def getPVC_def
  by (rule costs_mono, (rule tally_intros)+, simp)

lemma addon_deletion_cost [tally_intros]: "costs 3 (finishDeletion C addon jb owned cleanup)" "costs 5 (judgeCleanup C addon j)"
proof -
  show fin: "costs 3 (finishDeletion C addon jb owned cleanup)" for jb owned cleanup
    unfolding finishDeletion_def dropFinalizer_def updateObj_def doCall_def by (rule costs_mono, (rule tally_intros)+, simp)
  have one: "costs 1 (emitEvents C x [e])" for x e by (rule costs_emit) simp
  show "costs 5 (judgeCleanup C addon j)"
    unfolding judgeCleanup_def Let_def timeNow_def by (rule costs_mono, (rule tally_intros fin one)+, simp)
qed

lemma addon_finalizer_cost [tally_intros]: "costs 9 (Addon_Controller.handleFinalizer C addon)"
  unfolding Addon_Controller.handleFinalizer_def addonVolume_def withJob_def Let_def getInstance_def getPVC_def
  by (rule costs_mono, (rule tally_intros)+, simp)

lemma addon_reconcile_cost: "costs 14 (ReconcileAddon C key)"
  unfolding ReconcileAddon_def getAddon_def updateObj_def doCall_def Let_def
  by (rule costs_mono, (rule tally_intros)+, simp)

section \<open>Instances\<close>

text \<open>A step whose result is known to be small in some sense.\<close>

lemma costs_bind_yields:
  assumes m: "costs a m" and R: "yields R m" and f: "\<And>x. R x \<Longrightarrow> costs b (f x)" and le: "a + b \<le> n"
  shows "costs n (State_Monad.bind m f)"
  unfolding costs_def
proof
  fix s
  obtain x t where run: "run_state m s = (x, t)" by fastforce
  then have "length (hist t) \<le> length (hist s) + a" "R x" using m R unfolding costs_def yields_def by (metis snd_conv, metis fst_conv)
  moreover from f [OF \<open>R x\<close>] have "length (hist (snd (run_state (f x) t))) \<le> length (hist t) + b" unfolding costs_def by blast
  ultimately show "length (hist (snd (run_state (State_Monad.bind m f) s))) \<le> length (hist s) + n"
    using le run by (simp add: exec_simps)
qed

lemma instance_events: "length (instanceEvents L b a n) \<le> 4" "length (initEvents dec) \<le> 2"
  by (auto simp: instanceEvents_def initEvents_def split: option.split)

lemma tally_stop [tally_intros]:
  "costs a m \<Longrightarrow> (\<And>x. costs b (k x)) \<Longrightarrow> costs (a + b) (orStop ins m k)"
  "costs a m' \<Longrightarrow> costs b k' \<Longrightarrow> costs (a + b) (orStopErr ins m' k')"
  unfolding orStop_def orStopErr_def by (rule costs_mono, (rule tally_intros | assumption)+, simp)+

lemma instance_storage_cost [tally_intros]: "costs 4 (reconcilePVC C ins)"
proof -
  have "costs 2 (reconcileSinglePVC C ins rq)" for rq
    unfolding reconcileSinglePVC_def syncPVCOwnership_def Let_def call_defs by (rule costs_mono, (rule tally_intros)+, simp)
  then show ?thesis unfolding reconcilePVC_def by - (rule costs_mono, (rule tally_intros | assumption)+, simp)
qed

lemma secrets_cost: "costs (length refs) (readSecrets C ns refs)"
proof (induction refs)
  case (Cons ref refs)
  obtain field name where "ref = (field, name)" by (cases ref)
  have "costs (max (length refs) (1 + length refs)) (readSecrets C ns ((field, name) # refs))"
    unfolding readSecrets.simps getSecret_def by (rule costs_mono, (rule tally_intros Cons.IH)+, simp)
  then show ?case by (simp add: \<open>ref = (field, name)\<close> max_def)
qed (simp add: costs_return)

lemma instance_reads_cost [tally_intros]:
  "costs 2 (referencedSecrets C ins)" "costs 1 (listReadyAddons C ins)" "costs 1 (reconcileConfigMap C ins conf)"
  unfolding referencedSecrets_def listReadyAddons_def reconcileConfigMap_def listAddons_def
  by (rule costs_mono [OF secrets_cost], simp, (rule costs_mono, (rule tally_intros)+, simp)+)

lemma instance_init_cost [tally_intros]: "costs 4 (decideInitialization C ins)" "costs 2 (gateAddonsRollout C ins h)"
  unfolding decideInitialization_def readInitState_def checkInitSecret_def createInitUpgrade_def createOwnedUpgrade_def
    gateAddonsRollout_def gateReadUpgrade_def gateApply_def gateCreateUpgrade_def Let_def call_defs
  by (rule costs_mono, (rule tally_intros)+, simp)+


lemma deletes_cost [tally_intros]: "costs 2 (deletePDBIfOwned C ins)" "costs 2 (deleteCronDeployment C ins)"
  unfolding deletePDBIfOwned_def deleteCronDeployment_def call_defs by (rule costs_mono, (rule tally_intros)+, simp)+

lemma instance_cron_cost [tally_intros]: "costs 2 (reconcileCron C ins hashes held)"
  unfolding reconcileCron_def reconcileCronDeployment_def Let_def by (rule costs_mono, (rule tally_intros)+, simp)

lemma instance_workload_cost [tally_intros]: "costs 6 (reconcileWorkload C ins hashes pending)"
  unfolding reconcileWorkload_def reconcileDeployment_def reconcilePDB_def reconcileService_def
  by (rule costs_mono, (rule tally_intros)+, simp)

text \<open>The cron part announces at most one event.\<close>

definition fewEvents :: "goerr + cronOutcome \<Rightarrow> bool" where
  "fewEvents r \<longleftrightarrow> (case r of Inl _ \<Rightarrow> True | Inr cron \<Rightarrow> length (coEvents cron) \<le> 1)"

lemma workload_events: "yields fewEvents (reconcileWorkload C ins hashes pending)"
  unfolding reconcileWorkload_def reconcileCron_def Let_def
  by (auto intro!: yields_intros simp: fewEvents_def zeroCronOutcome_def split: sum.split)

lemma write_status_cost: "length (coEvents cron) \<le> 1 \<Longrightarrow> costs 8 (writeInstanceStatus C before ins q gate dec cron)"
proof -
  assume "length (coEvents cron) \<le> 1"
  then have "length (instanceEvents C before (instStatus ins) (gdSucceededUpgrade gate) @ initEvents dec @ coEvents cron) \<le> 7"
    using instance_events(1) [of C before "instStatus ins" "gdSucceededUpgrade gate"] instance_events(2) [of dec] by simp
  from costs_emit [OF this] show ?thesis
    unfolding writeInstanceStatus_def updateStatus_def doCall_def by - (rule costs_mono, (rule tally_intros | assumption)+, simp)
qed

lemma finish_pass_cost [tally_intros]: "costs 15 (finishPass C before conf secrets addons dec choice)"
proof -
  have rest: "costs 9 (do { r \<leftarrow> getDeployment C key; case f r of (q, i) \<Rightarrow> writeInstanceStatus C before i q gate dec cron })"
    if "length (coEvents cron) \<le> 1" for cron key f gate
    unfolding getDeployment_def by (rule costs_mono, (rule tally_intros write_status_cost [OF that])+, simp)
  show ?thesis
    unfolding finishPass_def Let_def orStop_def
    by (rule costs_bind_yields [OF instance_workload_cost workload_events, where b = 9])
      (auto simp: fewEvents_def intro!: costs_sum costs_return rest)
qed

lemma instance_pass_cost [tally_intros]: "costs 29 (reconcileOdooInstance C ins)"
  unfolding reconcileOdooInstance_def chooseAddons_def Let_def by (rule costs_mono, (rule tally_intros)+, simp)

lemma run_pass_cost [tally_intros]: "costs 34 (runPass C ins)"
  unfolding runPass_def recordFailure_def updateStatus_def doCall_def
  by (rule costs_mono, (rule tally_intros costs_emit [OF instance_events(1)])+, simp)

lemma instance_reconcile_cost: "costs 36 (instanceReconcile C key)"
  unfolding instanceReconcile_def Instance_Controller.handleFinalizer_def getInstance_def updateObj_def doCall_def Let_def
  by (rule costs_mono, (rule tally_intros)+, simp)

section \<open>Property\<close>

text \<open>C30: A pass ends: whatever the cluster answers, and however often it answers with conflicts, a pass over an OdooUpgrade
  makes at most \<open>6 + 6 (r + 1)\<close> calls and a pass over an OdooBackup at most \<open>6 + 4 (r + 1)\<close>, where \<open>r\<close> is the
  number of retries after a conflict; a pass over an OdooAddon makes at most 14 calls and one over an OdooInstance at most 36,
  the events included.\<close>

theorem passes_bounded:
  "length (callsOf (upgradeReconcile C key) w) \<le> 6 + 6 * Suc (retrySteps C)
   \<and> length (callsOf (backupReconcile C key) w) \<le> 6 + 4 * Suc (retrySteps C)
   \<and> length (callsOf (ReconcileAddon C key) w) \<le> 14
   \<and> length (callsOf (instanceReconcile C key) w) \<le> 36"
  by (intro conjI costs_callsOf upgrade_reconcile_cost backup_reconcile_cost addon_reconcile_cost instance_reconcile_cost)

end
