(* ===== verification/Webhook.thy ===== *)
theory Webhook
  imports Addon_Sync
begin

text \<open>
  \<open>odooaddon_webhook.go\<close>: the admission webhook of OdooAddon, which repeats part of the validation of the sync so that a
  mistake is refused at once.
\<close>

definition allowedSchemes :: "string list" where
  "allowedSchemes = [''https://'', ''http://'', ''git@'', ''ssh://'']"

definition validAddonGitRef :: "string \<Rightarrow> bool" where
  "validAddonGitRef = matchClass (\<lambda>c. isAlnum c \<or> c \<in> set ''._/-'')"

definition crossNamespace :: "addon \<Rightarrow> goerr" where
  "crossNamespace a = PlainError (''cross-namespace instanceRef is not permitted: instanceRef.namespace ''
     @ goQuote (refNamespace (addonInstanceRef (addonSpec a))) @ '' must equal addon namespace '' @ goQuote (metaNamespace (addonMeta a)))"

definition validateOdooAddonSpec :: "addon \<Rightarrow> goerr option" where
  \<open>validateOdooAddonSpec a =
     (let url = GitUrl (addonSpec a); ref = GitRef (addonSpec a); ns = refNamespace (addonInstanceRef (addonSpec a)) in
      if \<not> list_ex (hasPrefix url) allowedSchemes then
        Some (PlainError (''gitUrl scheme not allowed: '' @ goQuote url @ ''; must start with one of: https://, http://, git@, ssh://''))
      else if ref \<noteq> '''' \<and> (strContains ref ''..'' \<or> hasPrefix ref ''-'') then
        Some (PlainError (''invalid gitRef '' @ goQuote ref @ '': must not contain \'..\' or start with \'-'' @ [squote]))
      else if ref \<noteq> '''' \<and> \<not> validAddonGitRef ref then
        Some (PlainError (''gitRef '' @ goQuote ref
          @ '' contains disallowed characters; only alphanumeric, \'.\', \'_\', \'-\', \'/\' allowed''))
      else if ns \<noteq> '''' \<and> ns \<noteq> metaNamespace (addonMeta a) then Some (crossNamespace a)
      else None)\<close>

definition ValidateCreate :: "addon \<Rightarrow> goerr option" where
  "ValidateCreate a = validateOdooAddonSpec a"

definition ValidateUpdate :: "addon \<Rightarrow> addon \<Rightarrow> goerr option" where
  "ValidateUpdate old a = validateOdooAddonSpec a"

definition ValidateDelete :: "addon \<Rightarrow> goerr option" where
  "ValidateDelete a = None"

section \<open>Agreement with the sync\<close>

lemma validAddonGitRef_same: "validAddonGitRef = validGitRef"
  by (simp add: validAddonGitRef_def validGitRef_def)

lemma webhook_exact:
  "validateOdooAddonSpec a = None \<longleftrightarrow>
     list_ex (hasPrefix (GitUrl (addonSpec a))) allowedSchemes
     \<and> (GitRef (addonSpec a) = '''' \<or> validateGitRef (GitRef (addonSpec a)) = None)
     \<and> refNamespace (addonInstanceRef (addonSpec a)) \<in> {'''', metaNamespace (addonMeta a)}"
  by (auto simp: validateOdooAddonSpec_def Let_def validateGitRef_def validAddonGitRef_same)

text \<open>C33: The webhook and the sync agree: an addon whose sync spec resolves is refused by the webhook only for an instance in
  another namespace; an addon is refused at creation and at update for the same reasons, never at deletion; and what the
  webhook accepts has a scheme the sync knows and a ref the sync accepts.\<close>

theorem webhook_agrees_with_sync:
  "(resolveSyncSpec L a = Inr s \<longrightarrow>
      (ValidateCreate a = None \<longleftrightarrow> refNamespace (addonInstanceRef (addonSpec a)) \<in> {'''', metaNamespace (addonMeta a)}))
   \<and> ValidateUpdate old a = ValidateCreate a \<and> ValidateDelete a = None
   \<and> (ValidateCreate a = None \<longrightarrow> validateGitRef (ssGitRef (defaultedSpec a)) = None
        \<and> (hasPrefix (GitUrl (addonSpec a)) schemeHTTPS \<or> hasPrefix (GitUrl (addonSpec a)) schemeHTTP
           \<or> hasPrefix (GitUrl (addonSpec a)) schemeSSH \<or> hasPrefix (GitUrl (addonSpec a)) scpStylePrefix))"
proof -
  have schemes: "list_ex (hasPrefix u) allowedSchemes \<longleftrightarrow>
      hasPrefix u schemeHTTPS \<or> hasPrefix u schemeHTTP \<or> hasPrefix u schemeSSH \<or> hasPrefix u scpStylePrefix" for u
    by (auto simp: allowedSchemes_def)
  have main: "validateGitRef ''main'' = None" by code_simp
  show ?thesis
  proof (intro conjI impI)
    assume r: "resolveSyncSpec L a = Inr s"
    have "validateGitUrl L (GitUrl (addonSpec a)) = None" using resolveSyncSpec_Inr(1,8) [OF r] by simp
    then have url: "list_ex (hasPrefix (GitUrl (addonSpec a))) allowedSchemes"
      unfolding schemes by (rule validateGitUrl_None)
    have "ssGitRef s = ssGitRef (defaultedSpec a)"
      using r by (auto simp: resolveSyncSpec_def Let_def split: option.splits sum.splits)
    then have "GitRef (addonSpec a) = '''' \<or> validateGitRef (GitRef (addonSpec a)) = None"
      using resolveSyncSpec_Inr(2) [OF r] by (auto simp: defaultedSpec_def Let_def split: if_splits)
    with url show "ValidateCreate a = None \<longleftrightarrow> refNamespace (addonInstanceRef (addonSpec a)) \<in> {'''', metaNamespace (addonMeta a)}"
      by (simp add: ValidateCreate_def webhook_exact)
  qed (auto simp: ValidateCreate_def ValidateUpdate_def ValidateDelete_def webhook_exact schemes defaultedSpec_def Let_def main)
qed

theorem webhook_agrees_with_sync_witness:
  "\<exists>s. resolveSyncSpec refLib sampleAddon = Inr s \<and> ValidateCreate sampleAddon = None \<and> validateGitRef (ssGitRef (defaultedSpec sampleAddon)) = None"
proof -
  have ok: "ValidateCreate sampleAddon = None" by code_simp
  have "\<exists>s. resolveSyncSpec refLib sampleAddon = Inr s" using resolve_sample by blast
  with ok webhook_agrees_with_sync [of refLib sampleAddon] show ?thesis by blast
qed

end
