(* ===== verification/Operator_Main.thy ===== *)
theory Operator_Main
  imports Go_Text
begin

text \<open>
  What \<open>cmd/main.go\<close> computes before it starts the manager: which namespaces the operator watches, the flags with their
  defaults, and the options of the manager and of its two servers. The order of the setup is in \<open>Operator_Setup\<close>.
\<close>

fun splitFrom :: "string list \<Rightarrow> string list \<Rightarrow> string list" where
  "splitFrom seen [] = []"
| "splitFrom seen (x # xs) =
     (let ns = trimSpace x in
      if ns = '''' \<or> ns \<in> set seen then splitFrom seen xs else ns # splitFrom (ns # seen) xs)"

definition splitNamespaces :: "string \<Rightarrow> string list" where
  "splitNamespaces v = splitFrom [] (splitOn (CHR '','') v)"

text \<open>\<open>cacheOpts.DefaultNamespaces\<close>: nil watches every namespace.\<close>

definition defaultNamespaces :: "string \<Rightarrow> string list option" where
  "defaultNamespaces watchNamespaces =
     (let namespaces = splitNamespaces watchNamespaces in if length namespaces > 0 then Some namespaces else None)"

definition watched :: "string \<Rightarrow> string \<Rightarrow> bool" where
  "watched watchNamespaces ns \<longleftrightarrow> (case defaultNamespaces watchNamespaces of None \<Rightarrow> True | Some nss \<Rightarrow> ns \<in> set nss)"

lemma splitFrom_set: "set (splitFrom seen xs) = trimSpace ` set xs - {''''} - set seen"
  by (induction xs arbitrary: seen) (auto simp: Let_def)

lemma splitFrom_distinct: "distinct (splitFrom seen xs)"
  by (induction xs arbitrary: seen) (simp_all add: Let_def splitFrom_set)

text \<open>The operator watches exactly the namespaces listed in its flag, each once and blanks ignored, and every namespace
  exactly when the flag lists none.\<close>

theorem watched_namespaces:
  "distinct (splitNamespaces v)
   \<and> set (splitNamespaces v) = {ns. ns \<noteq> '''' \<and> (\<exists>x \<in> set (splitOn (CHR '','') v). ns = trimSpace x)}
   \<and> (watched v ns \<longleftrightarrow> ns \<in> set (splitNamespaces v) \<or> (\<forall>x \<in> set (splitOn (CHR '','') v). trimSpace x = ''''))"
proof -
  have names: "set (splitNamespaces v) = {ns. ns \<noteq> '''' \<and> (\<exists>x \<in> set (splitOn (CHR '','') v). ns = trimSpace x)}"
    by (auto simp: splitNamespaces_def splitFrom_set)
  then have "splitNamespaces v = [] \<longleftrightarrow> (\<forall>x \<in> set (splitOn (CHR '','') v). trimSpace x = '''')"
    by (auto simp flip: set_empty2)
  then show ?thesis
    using names by (auto simp: splitNamespaces_def splitFrom_distinct watched_def defaultNamespaces_def Let_def)
qed

section \<open>Flags\<close>

record flags =
  metricsAddr :: string
  probeAddr :: string
  enableLeaderElection :: bool
  secureMetrics :: bool
  webhookCertPath :: string
  webhookCertName :: string
  webhookCertKey :: string
  metricsCertPath :: string
  metricsCertName :: string
  metricsCertKey :: string
  enableHTTP2 :: bool
  watchNamespaces :: string
  enableWebhooks :: bool
  addonMaxConcurrentReconciles :: int

definition flagDefaults :: "(string \<Rightarrow> string) \<Rightarrow> flags" where
  "flagDefaults env =
     \<lparr>metricsAddr = ''0'', probeAddr = '':8081'', enableLeaderElection = False, secureMetrics = True,
      webhookCertPath = '''', webhookCertName = ''tls.crt'', webhookCertKey = ''tls.key'',
      metricsCertPath = '''', metricsCertName = ''tls.crt'', metricsCertKey = ''tls.key'', enableHTTP2 = False,
      watchNamespaces = env ''WATCH_NAMESPACES'', enableWebhooks = False, addonMaxConcurrentReconciles = 4\<rparr>"

section \<open>TLS\<close>

text \<open>
  \<open>filepath.Join\<close> of two elements and \<open>filepath.Clean\<close>, for rooted and relative paths.
\<close>

fun cleanStep :: "bool \<Rightarrow> string list \<Rightarrow> string list \<Rightarrow> string list" where
  "cleanStep rooted acc [] = List.rev acc"
| "cleanStep rooted acc (s # ss) =
     (if s = '''' \<or> s = ''.'' then cleanStep rooted acc ss
      else if s \<noteq> ''..'' then cleanStep rooted (s # acc) ss
      else (case acc of
          [] \<Rightarrow> cleanStep rooted (if rooted then [] else [''..'']) ss
        | a # as \<Rightarrow> if a = ''..'' then cleanStep rooted (''..'' # acc) ss else cleanStep rooted as ss))"

definition pathClean :: "string \<Rightarrow> string" where
  "pathClean p =
     (let rooted = hasPrefix p ''/''; out = joinWith ''/'' (cleanStep rooted [] (splitOn (CHR ''/'') p)) in
      if rooted then ''/'' @ out else if out = '''' then ''.'' else out)"

definition pathJoin :: "string \<Rightarrow> string \<Rightarrow> string" where
  "pathJoin a b = (case filter (\<lambda>s. s \<noteq> '''') [a, b] of [] \<Rightarrow> '''' | parts \<Rightarrow> pathClean (joinWith ''/'' parts))"

text \<open>The functions that \<open>main\<close> passes as TLS options, and what a server makes of them: it applies them in order.\<close>

record tls_config =
  NextProtos :: "string list"
  GetCertificate :: "(string \<times> string) option"

datatype tls_option = DisableHTTP2 | CertificateOf "string \<times> string"

fun applyTLS :: "tls_option \<Rightarrow> tls_config \<Rightarrow> tls_config" where
  "applyTLS DisableHTTP2 c = c\<lparr>NextProtos := [''http/1.1'']\<rparr>"
| "applyTLS (CertificateOf w) c = c\<lparr>GetCertificate := Some w\<rparr>"

definition serverConfig :: "tls_option list \<Rightarrow> tls_config \<Rightarrow> tls_config" where
  "serverConfig opts c = foldl (\<lambda>c opt. applyTLS opt c) c opts"

definition tlsOpts :: "flags \<Rightarrow> tls_option list" where
  "tlsOpts f = (if \<not> enableHTTP2 f then [DisableHTTP2] else [])"

text \<open>The certificate watchers, by the paths of the certificate and the key; no path, no watcher.\<close>

definition webhookCertWatcher :: "flags \<Rightarrow> (string \<times> string) option" where
  "webhookCertWatcher f =
     (if length (webhookCertPath f) > 0
      then Some (pathJoin (webhookCertPath f) (webhookCertName f), pathJoin (webhookCertPath f) (webhookCertKey f)) else None)"

definition metricsCertWatcher :: "flags \<Rightarrow> (string \<times> string) option" where
  "metricsCertWatcher f =
     (if length (metricsCertPath f) > 0
      then Some (pathJoin (metricsCertPath f) (metricsCertName f), pathJoin (metricsCertPath f) (metricsCertKey f)) else None)"

definition webhookTLSOpts :: "flags \<Rightarrow> tls_option list" where
  "webhookTLSOpts f = tlsOpts f @ (case webhookCertWatcher f of None \<Rightarrow> [] | Some w \<Rightarrow> [CertificateOf w])"

record metrics_options =
  BindAddress :: string
  SecureServing :: bool
  TLSOpts :: "tls_option list"
  authFilter :: bool

definition metricsServerOptions :: "flags \<Rightarrow> metrics_options" where
  "metricsServerOptions f =
     \<lparr>BindAddress = metricsAddr f, SecureServing = secureMetrics f,
      TLSOpts = tlsOpts f @ (case metricsCertWatcher f of None \<Rightarrow> [] | Some w \<Rightarrow> [CertificateOf w]),
      authFilter = secureMetrics f\<rparr>"

section \<open>The manager\<close>

record manager_options =
  cacheNamespaces :: "string list option"
  mgrMetrics :: metrics_options
  webhookServerTLS :: "tls_option list"
  HealthProbeBindAddress :: string
  LeaderElection :: bool
  LeaderElectionID :: string

definition managerOptions :: "flags \<Rightarrow> manager_options" where
  "managerOptions f =
     \<lparr>cacheNamespaces = defaultNamespaces (watchNamespaces f), mgrMetrics = metricsServerOptions f,
      webhookServerTLS = webhookTLSOpts f, HealthProbeBindAddress = probeAddr f,
      LeaderElection = enableLeaderElection f, LeaderElectionID = ''686a6249.odoo.io''\<rparr>"

text \<open>The servers of the operator are configured as its flags say, whatever their base configuration: without
  \<open>--enable-http2\<close> both speak HTTP/1.1 only, each serves the watched certificate exactly if a certificate path is given for
  it, and the metrics endpoint demands authentication and authorisation exactly if it is served securely, which is the default.\<close>

theorem servers_configured:
  "NextProtos (serverConfig (webhookServerTLS (managerOptions f)) c) = (if enableHTTP2 f then NextProtos c else [''http/1.1''])
   \<and> NextProtos (serverConfig (TLSOpts (mgrMetrics (managerOptions f))) c) = (if enableHTTP2 f then NextProtos c else [''http/1.1''])
   \<and> GetCertificate (serverConfig (webhookServerTLS (managerOptions f)) c) =
       (if webhookCertPath f = '''' then GetCertificate c else webhookCertWatcher f)
   \<and> GetCertificate (serverConfig (TLSOpts (mgrMetrics (managerOptions f))) c) =
       (if metricsCertPath f = '''' then GetCertificate c else metricsCertWatcher f)
   \<and> authFilter (mgrMetrics (managerOptions f)) = SecureServing (mgrMetrics (managerOptions f))
   \<and> authFilter (mgrMetrics (managerOptions (flagDefaults env)))"
  by (simp add: managerOptions_def webhookTLSOpts_def metricsServerOptions_def tlsOpts_def serverConfig_def
      webhookCertWatcher_def metricsCertWatcher_def flagDefaults_def)

end
