(* ===== verification/Operator_Setup.thy ===== *)
theory Operator_Setup
  imports Operator_Main Addon_Controller Instance_Safety Upgrade_Safety Backup_Safety
begin

text \<open>
  The setup of the operator: what each \<open>SetupWithManager\<close> makes its controller watch, and the calls of \<open>main\<close> in their order.
  The properties tie the watches to what the reconcilers read and write.
\<close>

section \<open>Controllers\<close>

text \<open>ConfigMaps and Services are written by upserts only and have no kind of their own in the client's requests.\<close>

datatype watched_kind = Objects kind | ConfigMaps | Services

record controller_setup =
  Named :: string
  For :: kind
  Owns :: "watched_kind list"
  Watches :: "kind list"
  MaxConcurrentReconciles :: int

definition instanceSetup :: controller_setup where
  "instanceSetup = \<lparr>Named = ''odooinstance'', For = KInstance,
     Owns = [Objects KDeployment, Services, Objects KPVC, ConfigMaps, Objects KPDB, Objects KUpgrade],
     Watches = [KAddon, KSecret], MaxConcurrentReconciles = 1\<rparr>"

definition addonSetup :: "int \<Rightarrow> controller_setup" where
  "addonSetup maxConcurrent = \<lparr>Named = ''odooaddon'', For = KAddon, Owns = [Objects KJob], Watches = [],
     MaxConcurrentReconciles = (if maxConcurrent \<le> 0 then 1 else maxConcurrent)\<rparr>"

definition upgradeSetup :: controller_setup where
  "upgradeSetup = \<lparr>Named = ''odooupgrade'', For = KUpgrade, Owns = [Objects KJob], Watches = [], MaxConcurrentReconciles = 1\<rparr>"

definition backupSetup :: controller_setup where
  "backupSetup = \<lparr>Named = ''odoobackup'', For = KBackup, Owns = [Objects KJob, Objects KCronJob], Watches = [],
     MaxConcurrentReconciles = 1\<rparr>"

section \<open>What a pass writes is watched\<close>

fun writtenKind :: "req \<Rightarrow> watched_kind option" where
  "writtenKind (Create x) = Some (Objects (objKind x))"
| "writtenKind (Update x) = Some (Objects (objKind x))"
| "writtenKind (StatusUpdate x) = Some (Objects (objKind x))"
| "writtenKind (PatchObj x y) = Some (Objects (objKind y))"
| "writtenKind (Delete x uid) = Some (Objects (objKind x))"
| "writtenKind (UpsertConfigMap c f) = Some ConfigMaps"
| "writtenKind (UpsertDeployment d f) = Some (Objects KDeployment)"
| "writtenKind (UpsertPDB p f) = Some (Objects KPDB)"
| "writtenKind (UpsertService s f) = Some Services"
| "writtenKind _ = None"

definition watchesWrite :: "controller_setup \<Rightarrow> req \<Rightarrow> bool" where
  "watchesWrite cs r \<longleftrightarrow> (case writtenKind r of None \<Rightarrow> True | Some k \<Rightarrow> k = Objects (For cs) \<or> k \<in> set (Owns cs))"

definition watchesWrites :: "controller_setup \<Rightarrow> history \<Rightarrow> bool" where
  "watchesWrites cs h \<longleftrightarrow> list_all (\<lambda>c. watchesWrite cs (fst c)) h"

lemma touch_watched: "instanceTouch L ins r \<Longrightarrow> watchesWrite instanceSetup r"
  by (auto simp: instanceTouch_def watchesWrite_def instanceSetup_def split: req.splits obj.splits)

lemma addonCall_watched: "addonCall L a r \<Longrightarrow> watchesWrite (addonSetup n) r"
  by (cases "(L, a, r)" rule: addonCall.cases) (auto simp: watchesWrite_def addonSetup_def)

lemma upgrade_watched: "upgradeJustified h r \<Longrightarrow> watchesWrite upgradeSetup r"
  by (cases "(h, r)" rule: upgradeJustified.cases) (auto simp: watchesWrite_def upgradeSetup_def)

lemma backup_watched: "backupJustified C h r \<Longrightarrow> watchesWrite backupSetup r"
  by (cases "(C, h, r)" rule: backupJustified.cases) (auto simp: watchesWrite_def backupSetup_def)

lemma instance_writes_watched:
  assumes "lawfulOwners C"
  shows "watchesWrites instanceSetup (callsOf (instanceReconcile C key) w)"
proof -
  have self: "watchesWrite instanceSetup (Update (OInstance i))" "watchesWrite instanceSetup (Get k n)" for i k n
    by (simp_all add: watchesWrite_def instanceSetup_def)
  have "reconcileFrame C key (callsOf (instanceReconcile C key) w)" by (rule wp_callsOf [OF reconcile_frame [OF assms]])
  then show ?thesis
    unfolding reconcileFrame_def watchesWrites_def list_all_iff
    using self touch_watched by (fastforce split: sum.splits if_splits)
qed

lemma addon_writes_watched: "watchesWrites (addonSetup n) (callsOf (ReconcileAddon C key) w)"
proof -
  have self: "watchesWrite (addonSetup n) (Get k x)" "watchesWrite (addonSetup n) (Update (OAddon a))" for k x a
    by (simp_all add: watchesWrite_def addonSetup_def)
  have "only (watchesWrite (addonSetup n)) (ReconcileAddon C key)"
    unfolding ReconcileAddon_def call_defs Let_def
    by (auto intro!: frame_intros self intro: only_mono [OF stays_finalizer addonCall_watched]
        only_mono [OF stays_reconcile addonCall_watched])
  then show ?thesis unfolding watchesWrites_def by (drule_tac w = w in only_callsOf) (simp add: split_def)
qed

lemma sound_watched:
  assumes "soundCalls J h" and "\<And>r. J h r \<Longrightarrow> watchesWrite cs r"
  shows "watchesWrites cs h"
  using assms by (auto simp: soundCalls_def watchesWrites_def list_all_iff)

lemma upgrade_writes_watched: "watchesWrites upgradeSetup (callsOf (upgradeReconcile C key) w)"
  by (rule sound_watched [OF wp_callsOf [OF reconcile_sound]]) (rule upgrade_watched)

lemma backup_writes_watched: "watchesWrites backupSetup (callsOf (backupReconcile C key) w)"
  by (rule sound_watched [OF wp_callsOf [OF backup_reconcile_sound]]) (rule backup_watched)



section \<open>What a pass reads of others wakes it\<close>

text \<open>
  The map functions of the two \<open>Watches\<close> of the instance controller: an addon wakes the instance it names, a Secret every
  instance of its namespace that names it.
\<close>

lemma secrets_read:
  "only (\<lambda>r. \<exists>name. r = Get KSecret (metaNamespace (instMeta ins), name) \<and> usesSecret name ins) (referencedSecrets C ins)"
proof -
  have "only (\<lambda>r. \<exists>name. r = Get KSecret (ns, name) \<and> name \<in> names) (readSecrets C ns refs)" if "snd ` set refs \<subseteq> names"
    for ns refs names
    using that
  proof (induction refs)
    case (Cons ref refs)
    obtain field name where "ref = (field, name)" by (cases ref)
    with Cons show ?case by (auto simp: call_defs intro!: frame_intros)
  qed (simp add: frame_intros)
  note reads = this
  show ?thesis
    unfolding referencedSecrets_def by (rule only_mono, rule reads [OF subset_refl]) (auto simp: usesSecret_def)
qed

lemma secret_wakes:
  assumes "resultOf (listInstances C (metaNamespace (instMeta ins))) w = Inr items" and "ins \<in> set items"
    and "usesSecret (metaName (secretMeta s)) ins" and "metaNamespace (secretMeta s) = metaNamespace (instMeta ins)"
  shows "(metaNamespace (instMeta ins), metaName (instMeta ins)) \<in> set (resultOf (instancesUsingSecret C s) w)"
proof -
  obtain t where "run_state (listInstances C (metaNamespace (instMeta ins))) (start w) = (Inr items, t)"
    using assms(1) by (metis prod.collapse resultOf_def)
  then show ?thesis
    using assms(2-4) by (auto simp: instancesUsingSecret_def resultOf_def exec_simps)
qed

lemma addon_wakes:
  assumes "a \<in> set (filterReadyAddons items n)" and "n \<noteq> ''''"
  shows "instanceOfAddon a = [(metaNamespace (addonMeta a), n)]"
  using assms by (auto simp: filterReadyAddons_def instanceOfAddon_def)

text \<open>The inputs of an instance that belong to other objects wake it. A pass reads no Secret for its fingerprints but those
  the instance names, and a change of such a Secret enqueues the instance whenever the instances of the namespace can be
  listed; and a change of any addon that counts for the instance, listed in its namespace, enqueues exactly that instance.\<close>

theorem instance_inputs_wake:
  assumes "metaName (instMeta ins) \<noteq> ''''" and "metaNamespace (secretMeta s) = metaNamespace (instMeta ins)"
    and "resultOf (listInstances C (metaNamespace (instMeta ins))) w = Inr instances" and "ins \<in> set instances"
    and "a \<in> set (filterReadyAddons items (metaName (instMeta ins)))" and "metaNamespace (addonMeta a) = metaNamespace (instMeta ins)"
  shows "list_all (\<lambda>c. \<exists>name. fst c = Get KSecret (metaNamespace (instMeta ins), name)
      \<and> (metaName (secretMeta s) = name \<longrightarrow>
           (metaNamespace (instMeta ins), metaName (instMeta ins)) \<in> set (resultOf (instancesUsingSecret C s) w)))
      (callsOf (referencedSecrets C ins) v)
    \<and> instanceOfAddon a = [(metaNamespace (instMeta ins), metaName (instMeta ins))]"
proof
  show "list_all (\<lambda>c. \<exists>name. fst c = Get KSecret (metaNamespace (instMeta ins), name)
      \<and> (metaName (secretMeta s) = name \<longrightarrow>
           (metaNamespace (instMeta ins), metaName (instMeta ins)) \<in> set (resultOf (instancesUsingSecret C s) w)))
      (callsOf (referencedSecrets C ins) v)"
    using only_callsOf [OF secrets_read] secret_wakes [OF assms(3,4) _ assms(2)]
    by (fastforce simp: list_all_iff split_def)
  show "instanceOfAddon a = [(metaNamespace (instMeta ins), metaName (instMeta ins))]"
    using addon_wakes [OF assms(5,1)] assms(6) by simp
qed

text \<open>A sample: an instance that names a Secret, and an addon of it.\<close>

definition wakeInstance :: odoo_instance where
  "wakeInstance = (bareInstance ''shop'' ''ns'')\<lparr>instSpec := (instSpec (bareInstance ''shop'' ''ns''))\<lparr>AdminPasswordSecret := ''master''\<rparr>\<rparr>"

definition wakeAddon :: addon where
  "wakeAddon = \<lparr>addonMeta = newMeta ''theme'' ''ns'', addonSpec = zeroAddonSpec\<lparr>addonInstanceRef := \<lparr>refName = ''shop'', refNamespace = ''''\<rparr>\<rparr>,
     addonStatus = zeroAddonStatus\<lparr>addonReady := True\<rparr>\<rparr>"

theorem instance_inputs_wake_witness:
  "instanceOfAddon wakeAddon = [(''ns'', ''shop'')]"
proof -
  define s where "s = \<lparr>secretMeta = newMeta ''master'' ''ns'', secretData = []\<rparr>"
  have listed: "resultOf (listInstances (scripted (\<lambda>_. RObjs [OInstance wakeInstance])) (metaNamespace (instMeta wakeInstance))) () = Inr [wakeInstance]"
    by (simp add: call_defs resultOf_def exec_simps map_filter_def scripted_def kubelib.defs)
  have "metaName (instMeta wakeInstance) = ''shop''" "metaNamespace (instMeta wakeInstance) = ''ns''"
    by (simp_all add: wakeInstance_def bareInstance_def newMeta_def)
  moreover have "metaNamespace (secretMeta s) = metaNamespace (instMeta wakeInstance)" "wakeInstance \<in> set [wakeInstance]"
    "wakeAddon \<in> set (filterReadyAddons [wakeAddon] ''shop'')" "metaNamespace (addonMeta wakeAddon) = ''ns''"
    by (simp_all add: s_def wakeInstance_def bareInstance_def newMeta_def filterReadyAddons_def wakeAddon_def)
  ultimately show ?thesis using instance_inputs_wake [of wakeInstance s, OF _ _ listed, of wakeAddon "[wakeAddon]"] by simp
qed

section \<open>The setup\<close>

text \<open>
  The calls \<open>main\<close> makes to set the operator up, in order. Each can fail, which ends the program with exit status 1; the
  answers are a parameter. \<open>GetConfigOrDie\<close> and the logger, which \<open>main\<close> does not check, are left out.
\<close>

datatype setup_call =
  NewCertWatcher "string \<times> string"
| NewManager manager_options
| SetupController controller_setup
| NewClientset
| SetupAddonWebhook
| AddCertWatcher "string \<times> string"
| AddHealthzCheck string
| AddReadyzCheck string
| StartManager

definition setupCalls :: "flags \<Rightarrow> setup_call list" where
  "setupCalls f =
     map NewCertWatcher (case webhookCertWatcher f of None \<Rightarrow> [] | Some w \<Rightarrow> [w])
     @ map NewCertWatcher (case metricsCertWatcher f of None \<Rightarrow> [] | Some w \<Rightarrow> [w])
     @ [NewManager (managerOptions f),
        SetupController instanceSetup,
        NewClientset,
        SetupController (addonSetup (addonMaxConcurrentReconciles f)),
        SetupController upgradeSetup,
        SetupController backupSetup]
     @ (if enableWebhooks f then [SetupAddonWebhook] else [])
     @ map AddCertWatcher (case metricsCertWatcher f of None \<Rightarrow> [] | Some w \<Rightarrow> [w])
     @ map AddCertWatcher (case webhookCertWatcher f of None \<Rightarrow> [] | Some w \<Rightarrow> [w])
     @ [AddHealthzCheck ''healthz'', AddReadyzCheck ''readyz'', StartManager]"

fun runCalls :: "(setup_call \<Rightarrow> bool) \<Rightarrow> setup_call list \<Rightarrow> setup_call list \<times> nat" where
  "runCalls ok [] = ([], 0)"
| "runCalls ok (c # cs) = (if ok c then (case runCalls ok cs of (done', code) \<Rightarrow> (c # done', code)) else ([c], 1))"

definition main :: "(setup_call \<Rightarrow> bool) \<Rightarrow> flags \<Rightarrow> setup_call list \<times> nat" where
  "main ok f = runCalls ok (setupCalls f)"

lemma runCalls_takeWhile:
  "runCalls ok cs =
     (if list_all ok cs then (cs, 0) else (takeWhile ok cs @ [hd (dropWhile ok cs)], 1))"
  by (induction cs) auto

lemma setupCalls_split: "\<exists>cs. setupCalls f = cs @ [StartManager] \<and> StartManager \<notin> set cs \<and> {SetupController instanceSetup,
    SetupController (addonSetup (addonMaxConcurrentReconciles f)), SetupController upgradeSetup, SetupController backupSetup} \<subseteq> set cs
    \<and> (SetupAddonWebhook \<in> set cs \<longleftrightarrow> enableWebhooks f)"
  by (intro exI [of _ "butlast (setupCalls f)"])
    (auto simp: setupCalls_def butlast_append split: option.splits)

text \<open>The manager is started only when everything is set up: \<open>main\<close> makes its calls in order, stops with status 1 at the first
  that fails, and starts the manager exactly if all calls before succeeded; by then the four controllers are set up, and the
  admission webhook exactly if the flag enables it.\<close>

theorem main_starts_when_set_up:
  "case main ok f of (calls, code) \<Rightarrow>
     (\<exists>rest. setupCalls f = calls @ rest)
     \<and> (code = 0 \<longleftrightarrow> list_all ok (setupCalls f)) \<and> (code \<noteq> 0 \<longrightarrow> code = 1 \<and> \<not> ok (last calls) \<and> list_all ok (butlast calls))
     \<and> (StartManager \<in> set calls \<longleftrightarrow> list_all ok (butlast (setupCalls f)))
     \<and> (StartManager \<in> set calls \<longrightarrow>
          {SetupController instanceSetup, SetupController (addonSetup (addonMaxConcurrentReconciles f)),
           SetupController upgradeSetup, SetupController backupSetup} \<subseteq> set calls
          \<and> (SetupAddonWebhook \<in> set calls \<longleftrightarrow> enableWebhooks f))"
proof -
  obtain cs where cs: "setupCalls f = cs @ [StartManager]" "StartManager \<notin> set cs"
    "{SetupController instanceSetup, SetupController (addonSetup (addonMaxConcurrentReconciles f)),
      SetupController upgradeSetup, SetupController backupSetup} \<subseteq> set cs"
    "SetupAddonWebhook \<in> set cs \<longleftrightarrow> enableWebhooks f"
    using setupCalls_split by blast
  show ?thesis
  proof (cases "list_all ok cs")
    case True
    then have "main ok f = (cs @ [StartManager], if ok StartManager then 0 else 1)"
      unfolding main_def cs(1) by (induction cs) auto
    then show ?thesis using cs True by auto
  next
    case False
    let ?d = "takeWhile ok cs" and ?r = "dropWhile ok cs"
    from False have r: "?r \<noteq> []" "\<not> ok (hd ?r)"
      by (auto simp: list_all_iff hd_dropWhile)
    have run: "main ok f = (?d @ [hd ?r], 1)"
      unfolding main_def cs(1) using False by (induction cs) auto
    have split: "cs = ?d @ hd ?r # tl ?r" using r(1) by (metis hd_Cons_tl takeWhile_dropWhile_id)
    then have "StartManager \<notin> set (?d @ [hd ?r])" using cs(2) by (metis Un_iff list.set_intros(1) set_append set_ConsD empty_iff empty_set)
    moreover have "setupCalls f = (?d @ [hd ?r]) @ (tl ?r @ [StartManager])" using cs(1) split by (metis append.assoc append_Cons append_Nil)
    then have "\<exists>rest. setupCalls f = (?d @ [hd ?r]) @ rest" by blast
    moreover have "\<not> list_all ok (setupCalls f)" "\<not> list_all ok (butlast (setupCalls f))" using False by (simp_all add: cs(1))
    moreover have "list_all ok ?d" by (auto simp: list_all_iff dest: set_takeWhileD)
    ultimately show ?thesis using r(2) by (simp add: run)
  qed
qed

theorem main_starts_when_set_up_witness:
  "case main (\<lambda>c. c \<noteq> NewClientset) (flagDefaults (\<lambda>_. '''')) of (calls, code) \<Rightarrow>
     code = 1 \<and> last calls = NewClientset \<and> StartManager \<notin> set calls"
proof -
  have plan: "NewClientset \<in> set (butlast (setupCalls (flagDefaults (\<lambda>_. ''''))))"
    by (simp add: setupCalls_def butlast_append)
  then have "NewClientset \<in> set (setupCalls (flagDefaults (\<lambda>_. '''')))" by (rule in_set_butlastD)
  with plan main_starts_when_set_up [where ok = "\<lambda>c. c \<noteq> NewClientset" and f = "flagDefaults (\<lambda>_. '''')"] show ?thesis
    by (auto simp: list_all_iff split: prod.splits)
qed

end
