(* ===== verification/Pod_Types.thy ===== *)
theory Pod_Types
  imports Addon_Job Instance_Cron Upgrade_Job Backup_Job Backup_Validate
begin

text \<open>
  The typing of pods: the rules for names, volumes, mounts, environments and ports by which an API server takes a pod
  template, as an executable predicate, and the pods the operator builds from objects that passed its validation. A
  template that breaks one of the rules is refused when the Job or Deployment is created, so the object never gets on.
\<close>

section \<open>Rules\<close>

definition dnsLabel :: "string \<Rightarrow> bool" where
  "dnsLabel s \<longleftrightarrow> s \<noteq> '''' \<and> length s \<le> 63 \<and> list_all (\<lambda>c. c \<in> set ''abcdefghijklmnopqrstuvwxyz0123456789-'') s
     \<and> hd s \<noteq> CHR ''-'' \<and> last s \<noteq> CHR ''-''"

definition envTyped :: "env_var list \<Rightarrow> bool" where
  "envTyped env \<longleftrightarrow> distinct (map fst env)
     \<and> list_all (\<lambda>(n, src). n \<noteq> '''' \<and> (case src of EnvValue _ \<Rightarrow> True | EnvSecretKey s k _ \<Rightarrow> s \<noteq> '''' \<and> k \<noteq> '''')) env"

definition mountTyped :: "string list \<Rightarrow> volume_mount \<Rightarrow> bool" where
  "mountTyped vols m \<longleftrightarrow> mountName m \<in> set vols \<and> hasPrefix (mountPath m) ''/''
     \<and> \<not> hasPrefix (mountSubPath m) ''/'' \<and> ''..'' \<notin> set (splitOn CHR ''/'' (trimSuffix (mountSubPath m) ''/''))"

definition volumeTyped :: "volume \<Rightarrow> bool" where
  "volumeTyped v \<longleftrightarrow> dnsLabel (fst v) \<and>
     (case snd v of PvcVolume n _ \<Rightarrow> n \<noteq> '''' | ConfigMapVolume n _ \<Rightarrow> n \<noteq> '''' | SecretVolume n _ \<Rightarrow> n \<noteq> ''''
      | EmptyDirVolume medium _ \<Rightarrow> medium \<in> {'''', ''Memory''})"

definition containerTyped :: "string list \<Rightarrow> container \<Rightarrow> bool" where
  "containerTyped vols c \<longleftrightarrow> dnsLabel (ctrName c) \<and> ctrImage c \<noteq> '''' \<and> envTyped (ctrEnv c)
     \<and> list_all (mountTyped vols) (ctrMounts c) \<and> distinct (map mountPath (ctrMounts c))
     \<and> distinct (map fst (ctrPorts c)) \<and> list_all (\<lambda>(n, p). n \<noteq> '''' \<and> 0 < p \<and> p < 65536) (ctrPorts c)"

definition podTyped :: "pod_spec \<Rightarrow> bool" where
  "podTyped p \<longleftrightarrow> podContainers p \<noteq> []
     \<and> distinct (map ctrName (podInitContainers p @ podContainers p))
     \<and> distinct (map fst (podVolumes p)) \<and> list_all volumeTyped (podVolumes p)
     \<and> list_all (containerTyped (map fst (podVolumes p))) (podInitContainers p @ podContainers p)"

definition labelsTyped :: "strmap \<Rightarrow> bool" where
  "labelsTyped ls \<longleftrightarrow> distinct (map fst ls) \<and> list_all (\<lambda>(k, v). length v \<le> 63) ls"

definition templateTyped :: "pod_template \<Rightarrow> bool" where
  "templateTyped t \<longleftrightarrow> labelsTyped (templLabels t) \<and> podTyped (templSpec t)"

definition jobTyped :: "job_spec \<Rightarrow> bool" where
  "jobTyped j \<longleftrightarrow> templateTyped (jobTemplate j) \<and> podRestartPolicy (templSpec (jobTemplate j)) = ''Never''
     \<and> (case jobBackoffLimit j of Some n \<Rightarrow> n \<ge> 0 | None \<Rightarrow> True) \<and> (case jobDeadline j of Some n \<Rightarrow> n > 0 | None \<Rightarrow> True)
     \<and> (case jobTTL j of Some n \<Rightarrow> n \<ge> 0 | None \<Rightarrow> True)"

section \<open>Parts\<close>

lemma mount_typed:
  "mountTyped vols (mount n p ro) \<longleftrightarrow> n \<in> set vols \<and> hasPrefix p ''/''"
  "mountTyped vols ((mount n p ro)\<lparr>mountSubPath := q\<rparr>) \<longleftrightarrow> n \<in> set vols \<and> hasPrefix p ''/''
     \<and> \<not> hasPrefix q ''/'' \<and> ''..'' \<notin> set (splitOn CHR ''/'' (trimSuffix q ''/''))"
  "mountPath (mount n p ro) = p" "mountPath ((mount n p ro)\<lparr>mountSubPath := q\<rparr>) = p"
proof -
  have "\<not> hasPrefix '''' ''/'' \<and> ''..'' \<notin> set (splitOn CHR ''/'' (trimSuffix '''' ''/''))" by code_simp
  then show "mountTyped vols (mount n p ro) \<longleftrightarrow> n \<in> set vols \<and> hasPrefix p ''/''" by (simp add: mountTyped_def mount_def)
qed (simp_all add: mountTyped_def mount_def)

lemma plain_subPath:
  "plainPath q \<Longrightarrow> \<not> hasPrefix q ''/'' \<and> ''..'' \<notin> set (splitOn CHR ''/'' (trimSuffix q ''/''))"
proof -
  have "\<not> hasPrefix '''' ''/'' \<and> ''..'' \<notin> set (splitOn CHR ''/'' (trimSuffix '''' ''/''))" by code_simp
  then show "plainPath q \<Longrightarrow> \<not> hasPrefix q ''/'' \<and> ''..'' \<notin> set (splitOn CHR ''/'' (trimSuffix q ''/''))"
    unfolding plainPath_def by blast
qed

lemma label_names:
  "dnsLabel ''odoo''" "dnsLabel ''render-config''" "dnsLabel ''sync''" "dnsLabel ''upgrade''" "dnsLabel ''dump''" "dnsLabel ''backup''"
  "dnsLabel ''addons''" "dnsLabel ''data''" "dnsLabel ''odoo-config''" "dnsLabel ''tmp''" "dnsLabel ''odoo-rendered''"
  "dnsLabel ''git-secret''" "dnsLabel ''scratch''" "dnsLabel ''destination''"
  by code_simp+

lemma mount_paths:
  "hasPrefix addonsMountPath ''/''" "hasPrefix mountPathTmp ''/''" "hasPrefix mountPathConfig ''/''" "hasPrefix mountPathData ''/''"
  "hasPrefix mountPathRendered ''/''" "hasPrefix scratchMount ''/''" "hasPrefix ''/etc/git-secret'' ''/''"
  "hasPrefix backupPVCDir ''/''" "hasPrefix backupScratchDir ''/''"
  by code_simp+

lemma paths_apart:
  "distinct [mountPathConfig, addonsMountPath, mountPathData, mountPathTmp, mountPathRendered]"
  "distinct [addonsMountPath, scratchMount, ''/etc/git-secret'']"
  "distinct [mountPathData, backupPVCDir, mountPathTmp]" "distinct [mountPathData, backupScratchDir, mountPathTmp]"
  by code_simp+

lemmas typed_parts = label_names mount_paths mount_typed volumeTyped_def

section \<open>Environments\<close>

lemma odoo_env_typed: "envTyped (buildOdooEnv spec)" "envTyped (upgradeEnvFor up spec)" "envTyped (adminPasswordEnv spec)"
  by (cases "pgPasswordSecret (instPostgres spec) = ''''"; cases "upAdminUserPasswordSecret (upSpec up) = ''''";
      simp add: envTyped_def buildOdooEnv_def upgradeEnvFor_def upgradeEnv_def adminPasswordEnv_def adminPasswordRendered_def
        secretKeyEnv_def secretKeyRef_def)+

lemma sync_env_typed:
  assumes "ssAuth s = authNone \<longleftrightarrow> ssSecretName s = ''''"
  shows "envTyped ((''HOME'', EnvValue scratchMount) # wiringEnv (syncWiring s))"
  using assms by (cases "ssAuth s") (simp_all add: envTyped_def syncWiring_def secretEnvSource_def)

lemma syncWiring_mounts:
  assumes "ssAuth s = authNone \<longleftrightarrow> ssSecretName s = ''''"
  shows "wiringVolumes (syncWiring s) = [] \<and> wiringMounts (syncWiring s) = []
    \<or> (\<exists>n m. n \<noteq> '''' \<and> wiringVolumes (syncWiring s) = [(''git-secret'', SecretVolume n m)]
        \<and> wiringMounts (syncWiring s) = [mount ''git-secret'' ''/etc/git-secret'' True])"
  using assms by (cases "ssAuth s") (simp_all add: syncWiring_def)

lemma backup_env_typed:
  "envTyped (backupPGEnv spec database @ [(envBackupDatabase, EnvValue database), (envBackupRetention, EnvValue r)])"
  "envTyped (backupPGEnv spec database @ [(envBackupDatabase, EnvValue database)])"
  "CredentialsSecret s3 \<noteq> '''' \<Longrightarrow> envTyped (backupS3Env s3 n database)"
  by (simp_all add: envTyped_def backupPGEnv_def backupS3Env_def Let_def secretEnv_def secretKeyRef_def)

section \<open>Pods\<close>

lemma odooPod_typed:
  assumes "ctrName c = appOdoo" and "ctrPorts c \<in> {[], [(''odoo'', portOdoo), (''longpolling'', portLongpolling)]}"
  shows "podTyped (odooPodSpec ins c aff)" and "podTyped (withRendered ins (odooPodSpec ins c aff))"
proof -
  have image: "odooImage (instSpec ins) \<noteq> ''''" by (simp add: odooImage_def)
  have ports: "distinct (map fst (ctrPorts c)) \<and> list_all (\<lambda>(n, p). n \<noteq> '''' \<and> 0 < p \<and> p < 65536) (ctrPorts c)"
    using assms(2) by (auto simp: portOdoo_def portLongpolling_def)
  note pod = podTyped_def odooPodSpec_def zeroPodSpec_def containerTyped_def odooVolumeMounts_def odooVolumes_def typed_parts
    addonsPVCName_def dataPVCName_def configMapName_def
  show "podTyped (odooPodSpec ins c aff)"
    using paths_apart(1) by (simp add: pod assms(1) image ports odoo_env_typed)
  show "podTyped (withRendered ins (odooPodSpec ins c aff))"
    using paths_apart(1)
    by (simp add: pod withRendered_def renderConfigContainer_def renderedVolume_def renderedVolumeMount_def zeroContainer_def
        assms(1) image ports odoo_env_typed)
qed

lemma addonPod_typed:
  assumes "optImage opts \<noteq> ''''" and "optPVCName opts \<noteq> ''''" and "envTyped ((''HOME'', EnvValue scratchMount) # wiringEnv w)"
    and "wiringVolumes w = [] \<and> wiringMounts w = []
      \<or> (\<exists>n m. n \<noteq> '''' \<and> wiringVolumes w = [(''git-secret'', SecretVolume n m)]
          \<and> wiringMounts w = [mount ''git-secret'' ''/etc/git-secret'' True])"
  shows "podTyped (templSpec (jobTemplate (jobSpec (buildAddonJob addon jobName ann script w opts))))"
  using assms paths_apart(2)
  by (auto simp: buildAddonJob_def Let_def podTyped_def containerTyped_def zeroContainer_def typed_parts)

lemma upgradePod_typed: "podTyped (upgradePodSpec up ins database node)"
  using paths_apart(1)
  by (simp add: upgradePodSpec_def Let_def split_def podTyped_def containerTyped_def zeroContainer_def zeroPodSpec_def typed_parts
      addonsPVCName_def dataPVCName_def configMapName_def odoo_env_typed upgradeImage_def)

lemma backupPod_typed:
  assumes "buildBackupPodSpec C bk ins database node = Some p" and "backupValidateSpec L bk = None"
  shows "podTyped p"
proof -
  have images: "backupImage C \<noteq> ''''" "backupS3Image C \<noteq> ''''" by (simp_all add: backupImage_def backupS3Image_def)
  note parts = podTyped_def containerTyped_def backupContainer_def backupPodOf_def zeroContainer_def zeroPodSpec_def typed_parts
    dataMount_def backupTmpMount_def dataPVCName_def images backup_env_typed
  have dest: "destinationOk (bkDestination (bkSpec bk))"
    using assms(2) by (simp add: backupValidateSpec_def Let_def firstError_None validateDestination_None split: option.splits if_splits)
  then consider (claim) d where "bkDestination (bkSpec bk) = \<lparr>destPVC = Some d, destS3 = None\<rparr>" "ClaimName d \<noteq> ''''" "plainPath (SubPath d)"
    | (bucket) s where "bkDestination (bkSpec bk) = \<lparr>destPVC = None, destS3 = Some s\<rparr>" "CredentialsSecret s \<noteq> ''''"
    unfolding destinationOk_def by blast
  then show ?thesis
  proof cases
    case claim
    then have "p = backupPodOf bk ins node (pvcBackup C bk ins database d)"
      using assms(1) by (simp add: buildBackupPodSpec_def backupParts_def)
    then show ?thesis
      using claim(2) plain_subPath [OF claim(3)] paths_apart(3) by (auto simp: parts pvcBackup_def Let_def)
  next
    case bucket
    then have "p = backupPodOf bk ins node (s3Backup C bk ins database s)"
      using assms(1) by (simp add: buildBackupPodSpec_def backupParts_def)
    then show ?thesis
      using bucket(2) paths_apart(4) by (auto simp: parts s3Backup_def Let_def)
  qed
qed

section \<open>The pods of validated objects\<close>

text \<open>
  The pod templates and Jobs of the operator for objects that passed its checks: \<open>resolveSyncSpec\<close> for an addon,
  \<open>backupValidateSpec\<close> for a backup. Names of addons and instances become label values as they are, so they must fit; the
  names of upgrades and backups are shortened by the operator itself. The claim of an addon Job is the instance's, and the
  timeout of an upgrade is positive by the schema of its resource.
\<close>

inductive startedWorkload :: "'w cluster \<Rightarrow> pod_template \<Rightarrow> bool" for C where
  web: "length (metaName (instMeta ins)) \<le> 63 \<Longrightarrow> startedWorkload C (buildPodTemplate ins hashes)"
| cron: "length (metaName (instMeta ins)) \<le> 63 \<Longrightarrow> startedWorkload C (buildCronPodTemplate ins hashes)"

inductive startedJob :: "'w cluster \<Rightarrow> job_spec \<Rightarrow> bool" for C where
  sync: "resolveSyncSpec C addon = Inr spec \<Longrightarrow> length (metaName (addonMeta addon)) \<le> 63 \<Longrightarrow>
     opts = \<lparr>optImage = syncImage C, optPVCName = addonsPVCName n, optNodeName = node, AddonsAccessMode = mode\<rparr> \<Longrightarrow>
     startedJob C (jobSpec (buildSyncJob addon spec opts))"
| cleanup: "length (metaName (addonMeta addon)) \<le> 63 \<Longrightarrow>
     opts = \<lparr>optImage = syncImage C, optPVCName = addonsPVCName n, optNodeName = node, AddonsAccessMode = mode\<rparr> \<Longrightarrow>
     startedJob C (jobSpec (buildCleanupJob addon opts))"
| upgrade: "0 < upgradeTimeout up \<Longrightarrow> startedJob C (jobSpec (buildUpgradeJob up ins database node))"
| backup: "backupValidateSpec C bk = None \<Longrightarrow> buildBackupJob C bk ins database node = Some j \<Longrightarrow> startedJob C (jobSpec j)"
| scheduled: "backupValidateSpec C bk = None \<Longrightarrow> buildBackupCronJob C bk ins database node = Some c \<Longrightarrow>
     startedJob C (cronJobSpec (cronSpec c))"

lemma backup_deadline: "backupValidateSpec L bk = None \<Longrightarrow> 0 < backupTimeout bk"
  by (auto simp: backupValidateSpec_def Let_def firstError_None limits_None backupTimeout_def backupDefaultTimeout_def
      split: option.splits)

lemma backupJobSpec_typed:
  assumes "buildBackupJobSpec C bk ins database node = Some j" and "backupValidateSpec L bk = None"
  shows "jobTyped j"
proof -
  obtain p where p: "buildBackupPodSpec C bk ins database node = Some p"
    and j: "j = \<lparr>jobBackoffLimit = Some 0, jobDeadline = Some (backupTimeout bk), jobTTL = Some backupTTLSeconds,
       jobTemplate = \<lparr>templLabels = backupLabels (metaName (bkMeta bk)), templAnnotations = [], templSpec = p\<rparr>\<rparr>"
    using assms(1) by (auto simp: buildBackupJobSpec_def)
  have "length (backupLabelValue n) \<le> 63" for n
    unfolding backupLabelValue_def by (rule backup_names.name_length) simp
  then have "labelsTyped (backupLabels n)" for n by (simp add: labelsTyped_def backupLabels_def)
  moreover have "podRestartPolicy p = ''Never''"
    using p by (auto simp: buildBackupPodSpec_def backupPodOf_def)
  ultimately show ?thesis
    using backupPod_typed [OF p assms(2)] backup_deadline [OF assms(2)]
    by (simp add: j jobTyped_def templateTyped_def backupTTLSeconds_def)
qed

lemma started_template_typed: "startedWorkload C t \<Longrightarrow> templateTyped t"
  by (induction rule: startedWorkload.induct)
    (simp_all add: templateTyped_def labelsTyped_def buildPodTemplate_def Let_def podLabels_def selectorLabels_def odooPod_typed
      webContainer_def buildCronPodTemplate_def cronPodLabels_def cronSelectorLabels_def zeroContainer_def)

lemma addonJob_typed:
  assumes "podTyped (templSpec (jobTemplate (jobSpec (buildAddonJob addon n ann script w opts))))" and "length (metaName (addonMeta addon)) \<le> 63"
  shows "jobTyped (jobSpec (buildAddonJob addon n ann script w opts))"
  using assms by (simp add: jobTyped_def templateTyped_def labelsTyped_def buildAddonJob_def Let_def)

lemma syncJob_typed:
  assumes "resolveSyncSpec L addon = Inr spec" and "length (metaName (addonMeta addon)) \<le> 63"
    and "opts = \<lparr>optImage = syncImage C, optPVCName = addonsPVCName n, optNodeName = node, AddonsAccessMode = mode\<rparr>"
  shows "jobTyped (jobSpec (buildSyncJob addon spec opts))"
proof -
  have "ssAuth spec = authNone \<longleftrightarrow> ssSecretName spec = ''''"
    using resolveSyncSpec_Inr(6,7) [OF assms(1)] resolveGitAuth_Inr by (cases "GitSecretRef (addonSpec addon)") fastforce+
  then show ?thesis
    unfolding buildSyncJob_def
    by (intro addonJob_typed addonPod_typed sync_env_typed syncWiring_mounts assms(2))
      (simp_all add: assms(3) syncImage_def addonsPVCName_def)
qed

lemma cleanupJob_typed:
  assumes "length (metaName (addonMeta addon)) \<le> 63"
    and "opts = \<lparr>optImage = syncImage C, optPVCName = addonsPVCName n, optNodeName = node, AddonsAccessMode = mode\<rparr>"
  shows "jobTyped (jobSpec (buildCleanupJob addon opts))"
  unfolding buildCleanupJob_def
  by (intro addonJob_typed addonPod_typed assms(1)) (simp_all add: assms(2) syncImage_def addonsPVCName_def envTyped_def)

lemma upgradeJob_typed:
  assumes "0 < upgradeTimeout up"
  shows "jobTyped (jobSpec (buildUpgradeJob up ins database node))"
proof -
  have "length (upgradeLabelValue n) \<le> 63" for n
    unfolding upgradeLabelValue_def by (rule upgrade_names.name_length) simp
  moreover have "podRestartPolicy (upgradePodSpec up ins database node) = ''Never''"
    by (simp add: upgradePodSpec_def Let_def split_def)
  ultimately show ?thesis
    using assms upgradePod_typed
    by (simp add: jobTyped_def templateTyped_def labelsTyped_def buildUpgradeJob_def newJob_def upgradeLabels_def
        upgradeTTLSeconds_def)
qed

lemma started_job_typed: "startedJob C j \<Longrightarrow> jobTyped j"
  by (induction rule: startedJob.induct)
    (auto intro: syncJob_typed cleanupJob_typed upgradeJob_typed backupJobSpec_typed
      simp: buildBackupJob_def newJob_def buildBackupCronJob_def backupCronJobOf_def)

text \<open>C26: Every workload the operator starts is well-typed for the API server: for objects that passed validation, each pod
  template has distinct, well-formed container and volume names, an image in every container, mounts of declared volumes
  at distinct absolute paths below which no sub-path leads out, distinct variables that name a Secret and a key where they
  read one, ports in range and labels that fit; each Job never restarts its pod and has a positive deadline.\<close>

theorem started_workloads_typed:
  "(startedWorkload C t \<longrightarrow> templateTyped t) \<and> (startedJob C j \<longrightarrow> jobTyped j)"
  using started_template_typed started_job_typed by blast

text \<open>A validated S3 backup and the pods of the samples.\<close>

definition bucketBackup :: backup where
  "bucketBackup = claimBackup\<lparr>bkSpec := (bkSpec claimBackup)\<lparr>bkDestination := \<lparr>destPVC = None,
     destS3 = Some \<lparr>Bucket = ''dumps'', Prefix = '''', Endpoint = '''', Region = '''', CredentialsSecret = ''keys'', ForcePathStyle = False\<rparr>\<rparr>\<rparr>\<rparr>"

lemma bucketBackup_valid: "backupValidateSpec refLib bucketBackup = None"
  by code_simp

theorem started_workloads_typed_witness:
  "(\<exists>j. startedJob (scripted (\<lambda>_. ROk)) j \<and> jobTyped j) \<and> (\<exists>t. startedWorkload (scripted (\<lambda>_. ROk)) t \<and> templateTyped t)"
proof
  have "\<exists>j. buildBackupJob (scripted (\<lambda>_. ROk)) bucketBackup (bareInstance ''shop'' ''ns'') ''shop'' '''' = Some j"
    by (simp add: buildBackupJob_def buildBackupJobSpec_def buildBackupPodSpec_def backupParts_def bucketBackup_def)
  then obtain j where "buildBackupJob (scripted (\<lambda>_. ROk)) bucketBackup (bareInstance ''shop'' ''ns'') ''shop'' '''' = Some j" ..
  moreover have "backupValidateSpec (scripted (\<lambda>_. ROk)) bucketBackup = None" by code_simp
  ultimately have "startedJob (scripted (\<lambda>_. ROk)) (jobSpec j)" by (intro startedJob.backup)
  with started_workloads_typed show "\<exists>j. startedJob (scripted (\<lambda>_. ROk)) j \<and> jobTyped j" by blast
  have "startedWorkload (scripted (\<lambda>_. ROk)) (buildPodTemplate (bareInstance ''shop'' ''ns'') hashes)" for hashes
    by (rule startedWorkload.web) (simp add: bareInstance_def newMeta_def)
  with started_workloads_typed show "\<exists>t. startedWorkload (scripted (\<lambda>_. ROk)) t \<and> templateTyped t" by blast
qed

section \<open>References in values\<close>

text \<open>
  Kubernetes replaces \<open>$(NAME)\<close> in the value of a variable by the variable of that name if it is declared before it in the
  container. The upload container of an S3 backup declares the keys of the bucket first and the endpoint after them.
\<close>

definition withEndpoint :: "backup \<Rightarrow> backup_s3 \<Rightarrow> string \<Rightarrow> backup" where
  "withEndpoint bk s3 url = bk\<lparr>bkSpec := (bkSpec bk)\<lparr>bkDestination := \<lparr>destPVC = None, destS3 = Some (s3\<lparr>Endpoint := url\<rparr>)\<rparr>\<rparr>\<rparr>"

text \<open>C35: The endpoint of an S3 backup is not checked beyond its scheme, and it comes after the secret key. Whatever follows
  the scheme, for example a host and the reference \<open>$(AWS_SECRET_ACCESS_KEY)\<close>, the backup still passes validation, and the
  upload container has the endpoint as a literal value after the variable that holds the key, where a reference to it is
  replaced: the key is then part of the URL the pod calls.\<close>

theorem s3_endpoint_unchecked:
  assumes "backupValidateSpec L bk = None" and "destS3 (bkDestination (bkSpec bk)) = Some s3"
  shows "backupValidateSpec L (withEndpoint bk s3 (''https://'' @ x)) = None
    \<and> (\<exists>p c before after. buildBackupPodSpec C (withEndpoint bk s3 (''https://'' @ x)) ins database node = Some p
         \<and> c \<in> set (podContainers p)
         \<and> ctrEnv c = before @ (envBackupEndpoint, EnvValue (''https://'' @ x)) # after
         \<and> secretEnv envAWSSecretAccessKey (CredentialsSecret s3) secretKeySecretKey \<in> set before)"
proof
  let ?bk = "withEndpoint bk s3 (''https://'' @ x)" and ?s = "s3\<lparr>Endpoint := ''https://'' @ x\<rparr>"
  show "backupValidateSpec L ?bk = None"
  proof -
    have "destinationOk (bkDestination (bkSpec bk))"
      using assms(1) by (simp add: backupValidateSpec_def Let_def firstError_None validateDestination_None)
    with assms(2) have "destinationOk (bkDestination (bkSpec ?bk))"
      by (auto simp: destinationOk_def withEndpoint_def hasPrefix_def)
    moreover have error: "(if b then Some e else None) = None \<longleftrightarrow> \<not> b" for b and e :: goerr by simp
    ultimately show ?thesis
      using assms(1)
      by (simp add: backupValidateSpec_def Let_def firstError_None withEndpoint_def validateDestination_None limits_None error)
  qed
  let ?c = "backupContainer backupMainContainer (backupS3Image C) buildBackupUploadScript (backupS3Env ?s (backupRetention ?bk) database)
    [mount backupVolumeScratch backupScratchDir False, backupTmpMount]"
  have "buildBackupPodSpec C ?bk ins database node = Some (backupPodOf ?bk ins node (s3Backup C ?bk ins database ?s))"
    by (simp add: buildBackupPodSpec_def backupParts_def withEndpoint_def)
  moreover have "?c \<in> set (podContainers (backupPodOf ?bk ins node (s3Backup C ?bk ins database ?s)))"
    by (simp add: backupPodOf_def s3Backup_def Let_def)
  moreover have "\<exists>before after. ctrEnv ?c = before @ (envBackupEndpoint, EnvValue (''https://'' @ x)) # after
      \<and> secretEnv envAWSSecretAccessKey (CredentialsSecret s3) secretKeySecretKey \<in> set before"
    by (intro exI [of _ "backupS3Env (s3\<lparr>Endpoint := '''', Region := ''''\<rparr>) (backupRetention ?bk) database"]
        exI [of _ "if Region s3 \<noteq> '''' then [(envBackupRegion, EnvValue (Region s3))] else []"] conjI)
      (simp_all add: backupS3Env_def)
  ultimately show "\<exists>p c before after. buildBackupPodSpec C ?bk ins database node = Some p \<and> c \<in> set (podContainers p)
         \<and> ctrEnv c = before @ (envBackupEndpoint, EnvValue (''https://'' @ x)) # after
         \<and> secretEnv envAWSSecretAccessKey (CredentialsSecret s3) secretKeySecretKey \<in> set before" by blast
qed

theorem s3_endpoint_unchecked_witness:
  "backupValidateSpec refLib (withEndpoint bucketBackup (the (destS3 (bkDestination (bkSpec bucketBackup))))
     ''https://host.example/$(AWS_SECRET_ACCESS_KEY)'') = None"
proof -
  have "destS3 (bkDestination (bkSpec bucketBackup)) = Some (the (destS3 (bkDestination (bkSpec bucketBackup))))"
    by (simp add: bucketBackup_def)
  from s3_endpoint_unchecked [OF bucketBackup_valid this, where x = "''host.example/$(AWS_SECRET_ACCESS_KEY)''", THEN conjunct1]
  show ?thesis by simp
qed

end
