(* ===== verification/Shell_Volume.thy ===== *)
theory Shell_Volume
  imports Prelude "HOL-Library.Sublist"
begin

text \<open>
  The files the addon scripts work on: a file system as the paths that exist and what is there, the system
  calls that change it, and the file utilities the scripts of \<open>odooaddon_sync.go\<close> use (\<open>cp -a\<close>, \<open>mv\<close>,
  \<open>ln -sfn\<close>, \<open>rm -rf\<close>, \<open>mkdir -p\<close>, \<open>touch\<close>, \<open>ls -1t\<close>) as the sequences of calls they make. A utility is not
  atomic: a pod can be stopped between any two of its calls.
\<close>

section \<open>Files\<close>

text \<open>A path is the list of its components from the root. A link holds the path it points to.\<close>

type_synonym path = "string list"

datatype node = Directory | File "string list" | Link path

record file_system =
  fsNodes :: "(path \<times> node) list"
  fsTimes :: "path \<Rightarrow> nat"

definition look :: "file_system \<Rightarrow> path \<Rightarrow> node option" where
  "look F p = map_of (fsNodes F) p"

definition existing :: "file_system \<Rightarrow> path list" where
  "existing F = remdups (map fst (fsNodes F))"

definition below :: "path \<Rightarrow> file_system \<Rightarrow> path list" where
  "below d F = filter (prefix d) (existing F)"

definition entryNames :: "path \<Rightarrow> file_system \<Rightarrow> string list" where
  "entryNames d F = map last (filter (\<lambda>p. p \<noteq> [] \<and> butlast p = d) (existing F))"

text \<open>A test of the shell follows a link at the end of the path, up to the kernel's limit of 40 links.\<close>

fun followed :: "nat \<Rightarrow> file_system \<Rightarrow> path \<Rightarrow> node option" where
  "followed 0 F p = None"
| "followed (Suc n) F p = (case look F p of Some (Link t) \<Rightarrow> followed n F t | x \<Rightarrow> x)"

definition isDirectory :: "file_system \<Rightarrow> path \<Rightarrow> bool" where
  "isDirectory F p \<longleftrightarrow> followed 41 F p = Some Directory"

definition isRegular :: "file_system \<Rightarrow> path \<Rightarrow> bool" where
  "isRegular F p \<longleftrightarrow> (case followed 41 F p of Some (File ls) \<Rightarrow> True | _ \<Rightarrow> False)"

definition isSymlink :: "file_system \<Rightarrow> path \<Rightarrow> bool" where
  "isSymlink F p \<longleftrightarrow> (case look F p of Some (Link t) \<Rightarrow> True | _ \<Rightarrow> False)"

definition linesOf :: "file_system \<Rightarrow> path \<Rightarrow> string list" where
  "linesOf F p = (case look F p of Some (File ls) \<Rightarrow> ls | _ \<Rightarrow> [])"

section \<open>System calls\<close>

datatype syscall = Make path node | Unlink path | Rename path path | Utimes path

definition moved :: "path \<Rightarrow> path \<Rightarrow> path \<Rightarrow> path" where
  "moved a b p = b @ drop (length a) p"

fun effect :: "nat \<Rightarrow> syscall \<Rightarrow> file_system \<Rightarrow> file_system" where
  "effect now (Make p n) F =
     \<lparr>fsNodes = (p, n) # filter (\<lambda>e. fst e \<noteq> p) (fsNodes F), fsTimes = (fsTimes F)(p := now, butlast p := now)\<rparr>"
| "effect now (Unlink p) F =
     \<lparr>fsNodes = filter (\<lambda>e. fst e \<noteq> p) (fsNodes F), fsTimes = (fsTimes F)(butlast p := now)\<rparr>"
| "effect now (Rename a b) F =
     \<lparr>fsNodes = map (\<lambda>e. (moved a b (fst e), snd e)) (filter (\<lambda>e. prefix a (fst e)) (fsNodes F))
        @ filter (\<lambda>e. \<not> prefix a (fst e) \<and> \<not> prefix b (fst e)) (fsNodes F),
      fsTimes = (\<lambda>q. if q = butlast a \<or> q = butlast b then now
        else if prefix b q then fsTimes F (moved b a q) else fsTimes F q)\<rparr>"
| "effect now (Utimes p) F = F\<lparr>fsTimes := (fsTimes F)(p := now)\<rparr>"

fun effects :: "nat \<Rightarrow> syscall list \<Rightarrow> file_system \<Rightarrow> file_system" where
  "effects now [] F = F"
| "effects now (c # cs) F = effects (Suc now) cs (effect now c F)"

section \<open>Utilities\<close>

text \<open>What a utility does on the files it finds: the calls it makes, or \<open>None\<close> when it fails before the first.\<close>

definition rmRf :: "path \<Rightarrow> file_system \<Rightarrow> syscall list" where
  "rmRf p F = map Unlink (rev (sort_key length (below p F)))"

definition rmF :: "path \<Rightarrow> file_system \<Rightarrow> syscall list option" where
  "rmF p F = (case look F p of None \<Rightarrow> Some [] | Some Directory \<Rightarrow> None | Some n \<Rightarrow> Some [Unlink p])"

definition copyTree :: "path \<Rightarrow> path \<Rightarrow> file_system \<Rightarrow> syscall list" where
  "copyTree a b F = map (\<lambda>p. Make (moved a b p) (the (look F p))) (sort_key length (below a F))"

definition cpA :: "path \<Rightarrow> path \<Rightarrow> file_system \<Rightarrow> syscall list option" where
  "cpA a b F =
     (if look F a = None then None
      else Some (copyTree a (if isDirectory F b then b @ [last a] else b) F))"

definition cpFile :: "path \<Rightarrow> path \<Rightarrow> file_system \<Rightarrow> syscall list option" where
  "cpFile a b F =
     (case look F a of Some (File ls) \<Rightarrow> Some [Make (if isDirectory F b then b @ [last a] else b) (File ls)] | _ \<Rightarrow> None)"

definition mvT :: "path \<Rightarrow> path \<Rightarrow> file_system \<Rightarrow> syscall list option" where
  "mvT a b F =
     (case (look F a, look F b) of
        (None, _) \<Rightarrow> None
      | (Some Directory, Some Directory) \<Rightarrow> if entryNames b F = [] then Some [Rename a b] else None
      | (Some n, Some Directory) \<Rightarrow> None
      | (Some Directory, Some n) \<Rightarrow> None
      | _ \<Rightarrow> Some [Rename a b])"

definition mv :: "path \<Rightarrow> path \<Rightarrow> file_system \<Rightarrow> syscall list option" where
  "mv a b F = mvT a (if isDirectory F b then b @ [last a] else b) F"

definition lnSfn :: "path \<Rightarrow> path \<Rightarrow> file_system \<Rightarrow> syscall list option" where
  "lnSfn t l F =
     (let l' = (if look F l = Some Directory then l @ [last t] else l) in
      case look F l' of
        None \<Rightarrow> Some [Make l' (Link t)]
      | Some Directory \<Rightarrow> None
      | Some n \<Rightarrow> Some [Unlink l', Make l' (Link t)])"

definition mkdirP :: "path \<Rightarrow> file_system \<Rightarrow> syscall list option" where
  "mkdirP p F =
     (let ps = map (\<lambda>n. take (Suc n) p) [0..<length p] in
      if list_all (\<lambda>q. look F q = None \<or> isDirectory F q) ps
      then Some (map (\<lambda>q. Make q Directory) (filter (\<lambda>q. look F q = None) ps)) else None)"

definition touch :: "path \<Rightarrow> file_system \<Rightarrow> syscall list option" where
  "touch p F = Some (if look F p = None then [Make p (File [])] else [Utimes p])"

text \<open>The names \<open>ls -1t\<close> prints: the newest entry first, those with a leading dot left out.\<close>

definition newestFirst :: "path \<Rightarrow> file_system \<Rightarrow> string list" where
  "newestFirst d F =
     rev (sort_key (\<lambda>n. fsTimes F (d @ [n])) (rev (sort (filter (\<lambda>n. \<not> prefix ''.'' n) (entryNames d F)))))"

definition linksIn :: "path \<Rightarrow> file_system \<Rightarrow> string list" where
  "linksIn d F = filter (\<lambda>n. isSymlink F (d @ [n])) (entryNames d F)"

section \<open>Looking at the files after a call\<close>

named_theorems looks \<open>what is at a path after a system call\<close>

lemma look_existing: "p \<in> set (existing F) \<longleftrightarrow> look F p \<noteq> None"
  by (force simp: existing_def look_def map_of_eq_None_iff)

lemma look_below: "p \<in> set (below d F) \<longleftrightarrow> prefix d p \<and> look F p \<noteq> None"
  by (auto simp: below_def look_existing)

lemma distinct_existing [simp]: "distinct (existing F)"
  by (simp add: existing_def)

lemma in_entryNames: "n \<in> set (entryNames d F) \<longleftrightarrow> look F (d @ [n]) \<noteq> None"
proof -
  have "p \<noteq> [] \<Longrightarrow> butlast p = d \<longleftrightarrow> p = d @ [last p]" for p :: path
    by (metis append_butlast_last_id butlast_snoc)
  then have "n \<in> set (entryNames d F) \<longleftrightarrow> d @ [n] \<in> set (existing F)"
    by (auto simp: entryNames_def image_iff)
  then show ?thesis by (simp add: look_existing)
qed

lemma distinct_entryNames: "distinct (entryNames d F)"
proof -
  have "inj_on last {p. p \<noteq> [] \<and> butlast p = d}"
    by (rule inj_onI) (metis (mono_tags, lifting) append_butlast_last_id mem_Collect_eq)
  then show ?thesis
    by (auto simp: entryNames_def distinct_map elim: inj_on_subset)
qed

lemma map_of_filter_key: "map_of (filter (\<lambda>e. P (fst e)) xs) q = (if P q then map_of xs q else None)"
  by (induction xs) auto

lemma look_Make [looks]: "look (effect now (Make p n) F) q = (if q = p then Some n else look F q)"
  by (simp add: look_def map_of_filter_key [where P = "\<lambda>x. x \<noteq> p"])

lemma look_Unlink [looks]: "look (effect now (Unlink p) F) q = (if q = p then None else look F q)"
  by (simp add: look_def map_of_filter_key [where P = "\<lambda>x. x \<noteq> p"])

lemma look_Utimes [looks]: "look (effect now (Utimes p) F) q = look F q"
  by (simp add: look_def)

lemma moved_back: "prefix a p \<Longrightarrow> moved b a (moved a b p) = p" and moved_prefix [simp]: "prefix b (moved a b p)"
  by (auto simp: moved_def prefix_def)

lemma moved_inj: "prefix a p \<Longrightarrow> prefix a q \<Longrightarrow> moved a b p = moved a b q \<Longrightarrow> p = q"
  by (metis moved_back)

lemma moved_under [simp]: "moved a b (a @ q) = b @ q" and moved_root [simp]: "moved a b a = b"
  by (simp_all add: moved_def)

lemma map_of_moved:
  "map_of (map (\<lambda>e. (moved a b (fst e), snd e)) (filter (\<lambda>e. prefix a (fst e)) xs)) q
     = (if prefix b q then map_of xs (moved b a q) else None)"
proof (induction xs)
  case (Cons e xs)
  have "prefix b q \<Longrightarrow> prefix a (fst e) \<Longrightarrow> moved a b (fst e) = q \<longleftrightarrow> fst e = moved b a q"
    by (metis moved_back)
  moreover have "\<not> prefix b q \<Longrightarrow> moved a b (fst e) \<noteq> q"
    using moved_prefix by blast
  moreover have "moved b a q = fst e \<Longrightarrow> prefix a (fst e)"
    by (metis moved_prefix)
  ultimately show ?case
    using Cons by (cases "prefix a (fst e)") auto
qed auto

lemma look_Rename [looks]:
  "look (effect now (Rename a b) F) q =
     (if prefix b q then look F (moved b a q) else if prefix a q then None else look F q)"
proof -
  have "prefix b q \<Longrightarrow> map_of (filter (\<lambda>e. \<not> prefix a (fst e) \<and> \<not> prefix b (fst e)) (fsNodes F)) q = None"
    by (simp add: map_of_filter_key [where P = "\<lambda>x. \<not> prefix a x \<and> \<not> prefix b x"])
  then show ?thesis
    by (auto simp: look_def map_of_moved map_add_def map_of_filter_key [where P = "\<lambda>x. \<not> prefix a x \<and> \<not> prefix b x"]
        split: option.split)
qed

declare effect.simps [simp del]

subsection \<open>Sequences of calls\<close>

lemma effects_append: "effects now (xs @ ys) F = effects (now + length xs) ys (effects now xs F)"
  by (induction xs arbitrary: now F) simp_all

lemma look_unlinks:
  "look (effects now (map Unlink ps) F) q = (if q \<in> set ps then None else look F q)"
  by (induction ps arbitrary: now F) (auto simp: looks)

lemma look_rmRf [looks]:
  "look (effects now (rmRf d F) F) q = (if prefix d q then None else look F q)"
  by (auto simp: rmRf_def look_unlinks look_below)

lemma look_makes:
  "look (effects now (map (\<lambda>p. Make (f p) (g p)) ps) F) q =
     (if q \<in> f ` set ps then Some (g (last (filter (\<lambda>p. f p = q) ps))) else look F q)"
proof (induction ps arbitrary: now F)
  case (Cons p ps)
  have "q \<notin> f ` set ps \<Longrightarrow> filter (\<lambda>x. f x = q) ps = []"
    by (auto simp: filter_empty_conv)
  moreover have "q \<in> f ` set ps \<Longrightarrow> filter (\<lambda>x. f x = q) ps \<noteq> []"
    by (auto simp: filter_empty_conv)
  ultimately show ?case
    using Cons by (auto simp: looks)
qed simp

lemma look_copyTree [looks]:
  "look (effects now (copyTree a b F) F) q =
     (if prefix b q \<and> look F (moved b a q) \<noteq> None then look F (moved b a q) else look F q)"
proof -
  let ?ps = "sort_key length (below a F)"
  have mem: "q \<in> moved a b ` set ?ps \<longleftrightarrow> prefix b q \<and> look F (moved b a q) \<noteq> None"
    by (auto simp: look_below moved_back intro!: image_eqI [where x = "moved b a q"])
  have "last (filter (\<lambda>p. moved a b p = q) ?ps) = moved b a q" if "q \<in> moved a b ` set ?ps"
  proof -
    from that have "filter (\<lambda>p. moved a b p = q) ?ps \<noteq> []" by (auto simp: filter_empty_conv)
    then have "last (filter (\<lambda>p. moved a b p = q) ?ps) \<in> set (filter (\<lambda>p. moved a b p = q) ?ps)"
      by (rule last_in_set)
    then have "prefix a (last (filter (\<lambda>p. moved a b p = q) ?ps))"
      and "moved a b (last (filter (\<lambda>p. moved a b p = q) ?ps)) = q"
      by (simp_all add: look_below)
    then show ?thesis by (metis moved_back)
  qed
  then show ?thesis
    using mem by (auto simp: copyTree_def look_makes)
qed

subsection \<open>What a call leaves alone\<close>

text \<open>Two file systems agree outside a path: what is not below it is the same, with the same times but for the
  directory that holds the path.\<close>

definition agree :: "path \<Rightarrow> file_system \<Rightarrow> file_system \<Rightarrow> bool" where
  "agree d F G \<longleftrightarrow> (\<forall>q. \<not> prefix d q \<longrightarrow> look G q = look F q \<and> (q \<noteq> butlast d \<longrightarrow> fsTimes G q = fsTimes F q))"

definition callsBelow :: "path \<Rightarrow> syscall list \<Rightarrow> bool" where
  "callsBelow d cs = list_all (\<lambda>c. case c of Make p n \<Rightarrow> prefix d p | Unlink p \<Rightarrow> prefix d p | Utimes p \<Rightarrow> prefix d p
     | Rename a b \<Rightarrow> prefix d a \<and> prefix d b) cs"

lemma agree_refl [simp]: "agree d F F"
  by (simp add: agree_def)

lemma agree_trans: "agree d F G \<Longrightarrow> agree d G H \<Longrightarrow> agree d F H"
  by (simp add: agree_def)

lemma agree_look: "agree d F G \<Longrightarrow> \<not> prefix d q \<Longrightarrow> look G q = look F q"
  by (simp add: agree_def)

lemma agree_times: "agree d F G \<Longrightarrow> \<not> prefix d q \<Longrightarrow> q \<noteq> butlast d \<Longrightarrow> fsTimes G q = fsTimes F q"
  by (simp add: agree_def)

lemma butlast_below: "prefix d p \<Longrightarrow> \<not> prefix d (butlast p) \<Longrightarrow> butlast p = butlast d"
  by (metis append_butlast_last_id prefix_bot.extremum_uniqueI prefix_snoc)

lemma times_effect:
  "fsTimes (effect now (Make p n) F) = (fsTimes F)(p := now, butlast p := now)"
  "fsTimes (effect now (Unlink p) F) = (fsTimes F)(butlast p := now)"
  "fsTimes (effect now (Utimes p) F) = (fsTimes F)(p := now)"
  "fsTimes (effect now (Rename a b) F) q = (if q = butlast a \<or> q = butlast b then now
     else if prefix b q then fsTimes F (moved b a q) else fsTimes F q)"
  by (simp_all add: effect.simps)

lemma effect_agree: "callsBelow d [c] \<Longrightarrow> agree d F (effect now c F)"
  using butlast_below [of d]
  by (cases c) (auto simp: callsBelow_def looks agree_def times_effect dest: prefix_order.trans)

lemma callsBelow_Cons: "callsBelow d (c # cs) \<longleftrightarrow> callsBelow d [c] \<and> callsBelow d cs"
  by (simp add: callsBelow_def)

lemma callsBelow_Nil [simp]: "callsBelow d []"
  by (simp add: callsBelow_def)

lemma rmRf_below: "callsBelow d (rmRf d F)"
  by (auto simp: callsBelow_def rmRf_def list_all_iff look_below)

lemma copyTree_below: "callsBelow b (copyTree a b F)"
  by (auto simp: callsBelow_def copyTree_def list_all_iff)

lemma callsBelow_upwards: "callsBelow d cs \<Longrightarrow> prefix e d \<Longrightarrow> callsBelow e cs"
  by (fastforce simp: callsBelow_def list_all_iff split: syscall.splits intro: prefix_order.trans)

lemma rmRf_no_link:
  "look (effects now (take n (rmRf d F)) F) q = Some x \<Longrightarrow> look F q = Some x"
  by (auto simp: rmRf_def take_map look_unlinks split: if_splits)

end
