(* ===== verification/Shell_Script.thy ===== *)
theory Shell_Script
  imports Shell_Volume Shell_Quote Workload_Parts
begin

text \<open>
  The fragment of the POSIX shell in which \<open>buildSyncScript\<close> and \<open>buildCleanupScript\<close> (\<open>odooaddon_sync.go\<close>)
  write their scripts: its syntax, the text of a program, and what running the program under \<open>set -e\<close> does to
  the files. A construct of which the scripts use one layout has one constructor. The git remote is a
  parameter: what a fetch leaves in the work tree.
\<close>

section \<open>Words\<close>

text \<open>A part of a double-quoted word: a variable that holds a path, a constant path, or one component after a slash,
  made of constant text and of variables that hold a name.\<close>

datatype fragment = Text string | NameVar string

datatype piece = PathVar string | Abs path | Part "fragment list"

type_synonym "word" = "piece list"

text \<open>An argument of a call: a word in double quotes, a name or a path quoted by the operator, or a bare path.\<close>

datatype arg = Dq "word" | Sq string | Bare path

type_synonym vars = "string \<Rightarrow> path"

definition pathText :: "path \<Rightarrow> string" where
  "pathText p = concat (map (\<lambda>c. ''/'' @ c) p)"

fun fragmentText :: "fragment \<Rightarrow> string" where
  "fragmentText (Text t) = t"
| "fragmentText (NameVar v) = ''$'' @ v"

fun pieceText :: "piece \<Rightarrow> string" where
  "pieceText (PathVar v) = ''$'' @ v"
| "pieceText (Abs p) = pathText p"
| "pieceText (Part fs) = ''/'' @ concat (map fragmentText fs)"

definition wordText :: "word \<Rightarrow> string" where
  "wordText w = [dquote] @ concat (map pieceText w) @ [dquote]"

fun argText :: "arg \<Rightarrow> string" where
  "argText (Dq w) = wordText w"
| "argText (Sq n) = shQuote n"
| "argText (Bare p) = pathText p"

fun fragmentValue :: "vars \<Rightarrow> fragment \<Rightarrow> string" where
  "fragmentValue V (Text t) = t"
| "fragmentValue V (NameVar v) = concat (V v)"

fun pieceValue :: "vars \<Rightarrow> piece \<Rightarrow> path" where
  "pieceValue V (PathVar v) = V v"
| "pieceValue V (Abs p) = p"
| "pieceValue V (Part fs) = [concat (map (fragmentValue V) fs)]"

definition wordValue :: "vars \<Rightarrow> word \<Rightarrow> path" where
  "wordValue V w = concat (map (pieceValue V) w)"

fun argValue :: "vars \<Rightarrow> arg \<Rightarrow> path" where
  "argValue V (Dq w) = wordValue V w"
| "argValue V (Sq n) = [n]"
| "argValue V (Bare p) = p"

section \<open>Utilities and tests\<close>

datatype utility =
    RmRf "word" | RmF "word" | CpA "word" "word" | Cp "word" "word" | Mv "word" "word" | MvT "word" "word"
  | LnSfn "word" "word" | MkdirP "word" | Touch "word" | Truncate "word" | SortU "word"
  | AppendBase "word" "word" | PrintLine string "word"

fun utilityText :: "utility \<Rightarrow> string" where
  "utilityText (RmRf w) = ''rm -rf '' @ wordText w"
| "utilityText (RmF w) = ''rm -f '' @ wordText w"
| "utilityText (CpA a b) = ''cp -a '' @ wordText a @ '' '' @ wordText b"
| "utilityText (Cp a b) = ''cp '' @ wordText a @ '' '' @ wordText b"
| "utilityText (Mv a b) = ''mv '' @ wordText a @ '' '' @ wordText b"
| "utilityText (MvT a b) = ''mv -T '' @ wordText a @ '' '' @ wordText b"
| "utilityText (LnSfn a b) = ''ln -sfn '' @ wordText a @ '' '' @ wordText b"
| "utilityText (MkdirP w) = ''mkdir -p '' @ wordText w"
| "utilityText (Touch w) = ''touch '' @ wordText w"
| "utilityText (Truncate w) = '': > '' @ wordText w"
| "utilityText (SortU w) = ''sort -u '' @ wordText w @ '' -o '' @ wordText w"
| "utilityText (AppendBase a w) = ''basename '' @ wordText a @ '' >> '' @ wordText w"
| "utilityText (PrintLine l w) = ''printf '' @ [squote] @ ''%s'' @ [bslash] @ ''n'' @ [squote] @ '' '' @ shQuote l @ '' > '' @ wordText w"

text \<open>The calls a utility makes on the files it finds; \<open>None\<close> when it fails.\<close>

fun utilityCalls :: "vars \<Rightarrow> utility \<Rightarrow> file_system \<Rightarrow> syscall list option" where
  "utilityCalls V (RmRf w) F = Some (rmRf (wordValue V w) F)"
| "utilityCalls V (RmF w) F = rmF (wordValue V w) F"
| "utilityCalls V (CpA a b) F = cpA (wordValue V a) (wordValue V b) F"
| "utilityCalls V (Cp a b) F = cpFile (wordValue V a) (wordValue V b) F"
| "utilityCalls V (Mv a b) F = mv (wordValue V a) (wordValue V b) F"
| "utilityCalls V (MvT a b) F = mvT (wordValue V a) (wordValue V b) F"
| "utilityCalls V (LnSfn a b) F = lnSfn (wordValue V a) (wordValue V b) F"
| "utilityCalls V (MkdirP w) F = mkdirP (wordValue V w) F"
| "utilityCalls V (Touch w) F = touch (wordValue V w) F"
| "utilityCalls V (Truncate w) F = Some [Make (wordValue V w) (File [])]"
| "utilityCalls V (SortU w) F =
     Some [Make (wordValue V w) (File (sort (remdups (linesOf F (wordValue V w)))))]"
| "utilityCalls V (AppendBase a w) F =
     Some [Make (wordValue V w) (File (linesOf F (wordValue V w) @ [last (wordValue V a)]))]"
| "utilityCalls V (PrintLine l w) F = Some [Make (wordValue V w) (File [l])]"

datatype test =
    IsDir "word" | NotDir "word" | IsLink "word" | NotLink "word" | IsFile "word" | HasContent "word" | NotEmpty "word"
  | Both test test | Listed "word" "word"

fun testText :: "test \<Rightarrow> string" where
  "testText (IsDir w) = ''[ -d '' @ wordText w @ '' ]''"
| "testText (NotDir w) = ''[ ! -d '' @ wordText w @ '' ]''"
| "testText (IsLink w) = ''[ -L '' @ wordText w @ '' ]''"
| "testText (NotLink w) = ''[ ! -L '' @ wordText w @ '' ]''"
| "testText (IsFile w) = ''[ -f '' @ wordText w @ '' ]''"
| "testText (HasContent w) = ''[ -s '' @ wordText w @ '' ]''"
| "testText (NotEmpty w) = ''[ -n '' @ wordText w @ '' ]''"
| "testText (Both a b) = testText a @ '' && '' @ testText b"
| "testText (Listed w f) = ''grep -qxF '' @ wordText w @ '' '' @ wordText f"

fun holds :: "vars \<Rightarrow> test \<Rightarrow> file_system \<Rightarrow> bool" where
  "holds V (IsDir w) F = isDirectory F (wordValue V w)"
| "holds V (NotDir w) F = (\<not> isDirectory F (wordValue V w))"
| "holds V (IsLink w) F = isSymlink F (wordValue V w)"
| "holds V (NotLink w) F = (\<not> isSymlink F (wordValue V w))"
| "holds V (IsFile w) F = isRegular F (wordValue V w)"
| "holds V (HasContent w) F = (linesOf F (wordValue V w) \<noteq> [])"
| "holds V (NotEmpty w) F = (concat (wordValue V w) \<noteq> [])"
| "holds V (Both a b) F = (holds V a F \<and> holds V b F)"
| "holds V (Listed w f) F = (concat (wordValue V w) \<in> set (linesOf F (wordValue V f)))"

section \<open>Programs\<close>

datatype subject = VarSubject string | LinkSubject "word"

datatype sh =
    Raw string
  | Fetch "string list"
  | ManifestAtRoot path string
  | SetPath string path
  | SetWord string "word"
  | SetHead string path
  | SetLink string "word"
  | SetFirst string
  | SetSecond string
  | StripPrefix string string "word"
  | FirstPart string
  | Run utility
  | Echo string
  | ExitOne
  | IfThen test "sh list"
  | IfContinue test
  | IfElse test utility utility
  | OrContinue test
  | OrDie test string
  | CaseOf subject "arm list"
  | WhileRead string "word" "sh list"
  | ForDirs string path "sh list"
  | ForLinks string "word" "sh list"
  | ForOlder "word" string utility
  | Define string "sh list"
  | Call string "sh list" "arg list"
  | PrintModules "word"
  | PrintHead path
and arm = InlineArm "word" utility | SkipArm "word" | BlockArm "word" "sh list" | ElseArm "sh list"

fun subjectText :: "subject \<Rightarrow> string" where
  "subjectText (VarSubject v) = wordText [PathVar v]"
| "subjectText (LinkSubject w) = [dquote] @ ''$(readlink '' @ wordText w @ '')'' @ [dquote]"

definition indented :: "string list \<Rightarrow> string list" where
  "indented ls = map (\<lambda>l. ''  '' @ l) ls"

definition underText :: "word \<Rightarrow> string" where
  "underText w = [dquote] @ concat (map pieceText w) @ ''/'' @ [dquote] @ ''*)''"

fun shLines :: "sh \<Rightarrow> string list" and shsLines :: "sh list \<Rightarrow> string list" and armLines :: "arm list \<Rightarrow> string list" where
  "shLines (Raw t) = [t]"
| "shLines (Fetch ls) = ls"
| "shLines (ManifestAtRoot p t) = [''[ -f '' @ pathText p @ '' ] || { echo '' @ [dquote] @ t @ [dquote] @ '' >&2; exit 1; }'']"
| "shLines (SetPath v p) = [v @ ''='' @ shQuote (pathText p)]"
| "shLines (SetWord v w) = [v @ ''='' @ wordText w]"
| "shLines (SetHead v p) = [v @ ''=$(git -C '' @ pathText p @ '' rev-parse HEAD)'']"
| "shLines (SetLink v w) = [v @ ''=$(readlink '' @ wordText w @ '')'']"
| "shLines (SetFirst v) = [v @ ''=$1'']"
| "shLines (SetSecond v) = [v @ ''=$2'']"
| "shLines (StripPrefix v u w) = [v @ ''=${'' @ u @ ''#'' @ [dquote] @ concat (map pieceText w) @ ''/'' @ [dquote] @ ''}'']"
| "shLines (FirstPart v) = [v @ ''=${'' @ v @ ''%%/*}'']"
| "shLines (Run u) = [utilityText u]"
| "shLines (Echo t) = [''echo '' @ [dquote] @ t @ [dquote] @ '' >&2'']"
| "shLines ExitOne = [''exit 1'']"
| "shLines (IfThen t b) = [''if '' @ testText t @ ''; then''] @ indented (shsLines b) @ [''fi'']"
| "shLines (IfContinue t) = [''if '' @ testText t @ ''; then continue; fi'']"
| "shLines (IfElse t a b) = [''if '' @ testText t @ ''; then '' @ utilityText a @ ''; else '' @ utilityText b @ ''; fi'']"
| "shLines (OrContinue t) = [testText t @ '' || continue'']"
| "shLines (OrDie t m) = [testText t @ '' || { echo '' @ [dquote] @ m @ [dquote] @ '' >&2; exit 1; }'']"
| "shLines (CaseOf s as) = [''case '' @ subjectText s @ '' in''] @ indented (armLines as) @ [''esac'']"
| "shLines (WhileRead v w b) =
     [''while IFS= read -r '' @ v @ ''; do''] @ indented (shsLines b) @ [''done < '' @ wordText w]"
| "shLines (ForDirs v p b) = [''for '' @ v @ '' in '' @ pathText p @ ''/*/; do''] @ indented (shsLines b) @ [''done'']"
| "shLines (ForLinks v w b) =
     [''find '' @ wordText w @ '' -mindepth 1 -maxdepth 1 -type l | while IFS= read -r '' @ v @ ''; do'']
       @ indented (shsLines b) @ [''done'']"
| "shLines (ForOlder w v u) =
     [''ls -1t '' @ wordText w @ '' | tail -n +3 | while IFS= read -r '' @ v @ ''; do '' @ utilityText u @ ''; done'']"
| "shLines (Define f b) = [f @ ''() {''] @ indented (shsLines b) @ [''}'']"
| "shLines (Call f b args) = [f @ concat (map (\<lambda>a. '' '' @ argText a) args)]"
| "shLines (PrintModules w) =
     [''printf '' @ [squote] @ ''modules: %s'' @ [bslash] @ ''n'' @ [squote] @ '' '' @ [dquote] @ ''$(paste -sd, ''
        @ wordText w @ '')'' @ [dquote]]"
| "shLines (PrintHead p) = [''git -C '' @ pathText p @ '' rev-parse HEAD'']"
| "shsLines [] = []"
| "shsLines (c # cs) = shLines c @ shsLines cs"
| "armLines [] = []"
| "armLines (InlineArm w u # as) = [underText w @ '' '' @ utilityText u @ '' ;;''] @ armLines as"
| "armLines (SkipArm w # as) = [underText w @ '' ;;''] @ armLines as"
| "armLines (BlockArm w b # as) = [underText w] @ indented (shsLines b @ ['';;'']) @ armLines as"
| "armLines (ElseArm b # as) = [''*)''] @ indented (shsLines b @ ['';;'']) @ armLines as"

definition scriptText :: "sh list \<Rightarrow> string" where
  "scriptText cs = textLines (shsLines cs)"

section \<open>Running a program\<close>

text \<open>\<open>remote\<close> is what the git commands of the script see: the tree of the commit they fetch, if they succeed, and
  its id. \<open>moments\<close> are the states the files have gone through, the latest first.\<close>

record remote =
  fetchedTree :: "(path \<times> node) list option"
  headCommit :: string

record shell =
  files :: file_system
  vars :: vars
  params :: "path list"
  clock :: nat
  stdout :: "string list"
  moments :: "file_system list"

datatype outcome = Running | Continuing | Exited nat

fun doCalls :: "syscall list \<Rightarrow> shell \<Rightarrow> shell" where
  "doCalls [] st = st"
| "doCalls (c # cs) st =
     (let F = effect (clock st) c (files st) in
      doCalls cs (st\<lparr>files := F, clock := Suc (clock st), moments := F # moments st\<rparr>))"

definition setVar :: "string \<Rightarrow> path \<Rightarrow> shell \<Rightarrow> shell" where
  "setVar v p st = st\<lparr>vars := (vars st)(v := p)\<rparr>"

definition runUtility :: "utility \<Rightarrow> shell \<Rightarrow> outcome \<times> shell" where
  "runUtility u st =
     (case utilityCalls (vars st) u (files st) of None \<Rightarrow> (Exited 1, st) | Some cs \<Rightarrow> (Running, doCalls cs st))"

definition linkTarget :: "file_system \<Rightarrow> path \<Rightarrow> path option" where
  "linkTarget F p = (case look F p of Some (Link t) \<Rightarrow> Some t | _ \<Rightarrow> None)"

definition subjectValue :: "shell \<Rightarrow> subject \<Rightarrow> path" where
  "subjectValue st s =
     (case s of VarSubject v \<Rightarrow> vars st v
      | LinkSubject w \<Rightarrow> (case linkTarget (files st) (wordValue (vars st) w) of None \<Rightarrow> [] | Some t \<Rightarrow> t))"

fun iterate :: "('x \<Rightarrow> shell \<Rightarrow> outcome \<times> shell) \<Rightarrow> 'x list \<Rightarrow> shell \<Rightarrow> outcome \<times> shell" where
  "iterate f [] st = (Running, st)"
| "iterate f (x # xs) st =
     (case f x st of (Exited n, st') \<Rightarrow> (Exited n, st') | (_, st') \<Rightarrow> iterate f xs st')"

lemma iterate_cong [fundef_cong]:
  "(\<And>x st. x \<in> set xs \<Longrightarrow> f x st = g x st) \<Longrightarrow> xs = ys \<Longrightarrow> st = st' \<Longrightarrow> iterate f xs st = iterate g ys st'"
  unfolding atomize_imp
  by (induction xs arbitrary: ys st st') (auto split: prod.split outcome.split)

text \<open>A loop at the end of a pipeline runs in a shell of its own: its variables are gone after it.\<close>

definition inSubshell :: "shell \<Rightarrow> outcome \<times> shell \<Rightarrow> outcome \<times> shell" where
  "inSubshell st r = (fst r, (snd r)\<lparr>vars := vars st\<rparr>)"

fun exec :: "remote \<Rightarrow> sh \<Rightarrow> shell \<Rightarrow> outcome \<times> shell"
  and execs :: "remote \<Rightarrow> sh list \<Rightarrow> shell \<Rightarrow> outcome \<times> shell"
  and execArms :: "remote \<Rightarrow> path \<Rightarrow> arm list \<Rightarrow> shell \<Rightarrow> outcome \<times> shell" where
  "exec R (Raw t) st = (Running, st)"
| "exec R (Fetch ls) st =
     (case fetchedTree R of None \<Rightarrow> (Exited 128, st)
      | Some tree \<Rightarrow> (Running, doCalls (map (\<lambda>e. Make ([''tmp'', ''repo''] @ fst e) (snd e)) tree) st))"
| "exec R (ManifestAtRoot p t) st = (if isRegular (files st) p then (Running, st) else (Exited 1, st))"
| "exec R (SetPath v p) st = (Running, setVar v p st)"
| "exec R (SetWord v w) st = (Running, setVar v (wordValue (vars st) w) st)"
| "exec R (SetHead v p) st = (Running, setVar v [headCommit R] st)"
| "exec R (SetLink v w) st =
     (case linkTarget (files st) (wordValue (vars st) w) of
        None \<Rightarrow> (Exited 1, st) | Some t \<Rightarrow> (Running, setVar v t st))"
| "exec R (SetFirst v) st = (Running, setVar v (case params st of p # ps \<Rightarrow> p | _ \<Rightarrow> []) st)"
| "exec R (SetSecond v) st = (Running, setVar v (case params st of p # q # ps \<Rightarrow> q | _ \<Rightarrow> []) st)"
| "exec R (StripPrefix v u w) st =
     (let p = vars st u; d = wordValue (vars st) w in
      (Running, setVar v (if strict_prefix d p then drop (length d) p else p) st))"
| "exec R (FirstPart v) st = (Running, setVar v (take 1 (vars st v)) st)"
| "exec R (Run u) st = runUtility u st"
| "exec R (Echo t) st = (Running, st)"
| "exec R ExitOne st = (Exited 1, st)"
| "exec R (IfThen t b) st = (if holds (vars st) t (files st) then execs R b st else (Running, st))"
| "exec R (IfContinue t) st = (if holds (vars st) t (files st) then (Continuing, st) else (Running, st))"
| "exec R (IfElse t a b) st = (if holds (vars st) t (files st) then runUtility a st else runUtility b st)"
| "exec R (OrContinue t) st = (if holds (vars st) t (files st) then (Running, st) else (Continuing, st))"
| "exec R (OrDie t m) st = (if holds (vars st) t (files st) then (Running, st) else (Exited 1, st))"
| "exec R (CaseOf s as) st = execArms R (subjectValue st s) as st"
| "exec R (WhileRead v w b) st =
     iterate (\<lambda>l st'. execs R b (setVar v [l] st')) (linesOf (files st) (wordValue (vars st) w)) st"
| "exec R (ForDirs v p b) st =
     iterate (\<lambda>n st'. execs R b (setVar v (p @ [n]) st'))
       (sort (filter (\<lambda>n. \<not> prefix ''.'' n \<and> isDirectory (files st) (p @ [n])) (entryNames p (files st)))) st"
| "exec R (ForLinks v w b) st =
     (let d = wordValue (vars st) w in
      inSubshell st (iterate (\<lambda>n st'. execs R b (setVar v (d @ [n]) st')) (linksIn d (files st)) st))"
| "exec R (ForOlder w v u) st =
     inSubshell st (iterate (\<lambda>n st'. runUtility u (setVar v [n] st'))
       (drop 2 (newestFirst (wordValue (vars st) w) (files st))) st)"
| "exec R (Define f b) st = (Running, st)"
| "exec R (Call f b args) st =
     (case execs R b (st\<lparr>params := map (argValue (vars st)) args\<rparr>) of
        (r, st') \<Rightarrow> (r, st'\<lparr>params := params st\<rparr>))"
| "exec R (PrintModules w) st =
     (Running, st\<lparr>stdout := stdout st @ [''modules: '' @ joinWith '','' (linesOf (files st) (wordValue (vars st) w))]\<rparr>)"
| "exec R (PrintHead p) st = (Running, st\<lparr>stdout := stdout st @ [headCommit R]\<rparr>)"
| "execs R [] st = (Running, st)"
| "execs R (c # cs) st = (case exec R c st of (Running, st') \<Rightarrow> execs R cs st' | r \<Rightarrow> r)"
| "execArms R p [] st = (Running, st)"
| "execArms R p (InlineArm w u # as) st =
     (if strict_prefix (wordValue (vars st) w) p then runUtility u st else execArms R p as st)"
| "execArms R p (SkipArm w # as) st =
     (if strict_prefix (wordValue (vars st) w) p then (Running, st) else execArms R p as st)"
| "execArms R p (BlockArm w b # as) st =
     (if strict_prefix (wordValue (vars st) w) p then execs R b st else execArms R p as st)"
| "execArms R p (ElseArm b # as) st = execs R b st"

section \<open>Running in steps\<close>

text \<open>\<open>goes P st st'\<close>: every state the files went through from \<open>st\<close> to \<open>st'\<close> satisfies \<open>P\<close>.\<close>

definition goes :: "(file_system \<Rightarrow> bool) \<Rightarrow> shell \<Rightarrow> shell \<Rightarrow> bool" where
  "goes P st st' \<longleftrightarrow>
     (\<exists>ms. moments st' = ms @ moments st \<and> (\<forall>F \<in> set ms. P F) \<and> (ms = [] \<longrightarrow> files st' = files st)
        \<and> (ms \<noteq> [] \<longrightarrow> files st' = hd ms))"

lemma goes_refl: "moments st' = moments st \<Longrightarrow> files st' = files st \<Longrightarrow> goes P st st'"
  by (simp add: goes_def)

lemma goes_trans: "goes P st st' \<Longrightarrow> goes P st' st'' \<Longrightarrow> goes P st st''"
  unfolding goes_def
  by (elim exE conjE, rule_tac x = "msa @ ms" in exI) (auto simp: hd_append)

lemma goes_mono: "goes P st st' \<Longrightarrow> (\<And>F. P F \<Longrightarrow> Q F) \<Longrightarrow> goes Q st st'"
  unfolding goes_def by blast

lemma goes_conj: "goes P st st' \<Longrightarrow> goes Q st st' \<Longrightarrow> goes (\<lambda>F. P F \<and> Q F) st st'"
  unfolding goes_def by auto

lemma goes_files: "goes P st st' \<Longrightarrow> P (files st) \<Longrightarrow> P (files st')"
  unfolding goes_def by auto

lemma goes_here:
  "goes P st st' \<Longrightarrow> files st0 = files st \<Longrightarrow> moments st0 = moments st \<Longrightarrow> files st1 = files st' \<Longrightarrow> moments st1 = moments st'
     \<Longrightarrow> goes P st0 st1"
  by (simp add: goes_def)

lemma doCalls_simps [simp]:
  "files (doCalls cs st) = effects (clock st) cs (files st)"
  "vars (doCalls cs st) = vars st" "params (doCalls cs st) = params st" "stdout (doCalls cs st) = stdout st"
  "clock (doCalls cs st) = clock st + length cs"
  by (induction cs arbitrary: st) (simp_all add: Let_def)

lemma goes_doCalls:
  assumes "\<And>n. 0 < n \<Longrightarrow> n \<le> length cs \<Longrightarrow> P (effects (clock st) (take n cs) (files st))"
  shows "goes P st (doCalls cs st)"
  using assms
proof (induction cs arbitrary: st)
  case (Cons c cs)
  let ?F = "effect (clock st) c (files st)"
  let ?st = "st\<lparr>files := ?F, clock := Suc (clock st), moments := ?F # moments st\<rparr>"
  have "P ?F" using Cons.prems [of 1] by simp
  then have "goes P st ?st"
    unfolding goes_def by (intro exI [of _ "[?F]"]) simp
  moreover have "goes P ?st (doCalls cs ?st)"
  proof (rule Cons.IH)
    fix n assume "0 < n" and "n \<le> length cs"
    with Cons.prems [of "Suc n"] show "P (effects (clock ?st) (take n cs) (files ?st))" by simp
  qed
  ultimately show ?case by (auto simp: Let_def intro: goes_trans)
qed (simp add: goes_refl)

lemma effects_agree: "callsBelow d cs \<Longrightarrow> agree d F (effects now cs F)"
proof (induction cs arbitrary: now F)
  case (Cons c cs)
  from Cons.prems have "callsBelow d [c]" and "callsBelow d cs" by (simp_all add: callsBelow_Cons [of d c cs])
  with effect_agree Cons.IH show ?case by (simp only: effects.simps) (blast intro: agree_trans)
qed simp

declare doCalls.simps(2) [simp del]

lemma callsBelow_take: "callsBelow d cs \<Longrightarrow> callsBelow d (take n cs)"
  by (auto simp: callsBelow_def list_all_iff dest: in_set_takeD)

lemma goes_below: "callsBelow d cs \<Longrightarrow> goes (agree d (files st)) st (doCalls cs st)"
  by (rule goes_doCalls) (simp add: effects_agree callsBelow_take)

lemma runUtility_Some: "utilityCalls (vars st) u (files st) = Some cs \<Longrightarrow> runUtility u st = (Running, doCalls cs st)"
  by (simp add: runUtility_def)

lemma execs_append:
  "execs R (a @ b) st = (case execs R a st of (Running, st') \<Rightarrow> execs R b st' | r \<Rightarrow> r)"
  by (induction a arbitrary: st) (auto split: prod.split outcome.split)

lemma setVar_simps [simp]:
  "files (setVar v p st) = files st" "params (setVar v p st) = params st" "clock (setVar v p st) = clock st"
  "stdout (setVar v p st) = stdout st" "moments (setVar v p st) = moments st"
  "vars (setVar v p st) = (vars st)(v := p)"
  by (simp_all add: setVar_def)

subsection \<open>Staying within some paths\<close>

definition agrees :: "path set \<Rightarrow> file_system \<Rightarrow> file_system \<Rightarrow> bool" where
  "agrees D F G \<longleftrightarrow>
     (\<forall>q. (\<forall>d \<in> D. \<not> prefix d q) \<longrightarrow> look G q = look F q \<and> (q \<notin> butlast ` D \<longrightarrow> fsTimes G q = fsTimes F q))"

definition within :: "path set \<Rightarrow> shell \<Rightarrow> shell \<Rightarrow> bool" where
  "within D st st' \<longleftrightarrow> goes (agrees D (files st)) st st'"

lemma agrees_refl [simp]: "agrees D F F"
  by (simp add: agrees_def)

lemma agrees_trans: "agrees D F G \<Longrightarrow> agrees D G H \<Longrightarrow> agrees D F H"
  by (simp add: agrees_def)

lemma agrees_one: "agree d F G \<Longrightarrow> d \<in> D \<Longrightarrow> agrees D F G"
  by (auto simp: agrees_def agree_def)

lemma agrees_mono: "agrees D F G \<Longrightarrow> D \<subseteq> E \<Longrightarrow> agrees E F G"
  unfolding agrees_def by (meson image_mono subsetD)

lemma agrees_upwards:
  assumes "agrees D F G" and "\<And>d. d \<in> D \<Longrightarrow> \<exists>e \<in> E. prefix e d \<and> (e = d \<or> prefix e (butlast d))"
  shows "agrees E F G"
  unfolding agrees_def
proof (intro allI impI)
  fix q assume q: "\<forall>e \<in> E. \<not> prefix e q"
  have "\<not> prefix d q" if "d \<in> D" for d
    using assms(2) [OF that] q by (meson prefix_order.trans)
  moreover have "q \<notin> butlast ` D" if "q \<notin> butlast ` E"
  proof
    assume "q \<in> butlast ` D"
    then obtain d where d: "d \<in> D" "q = butlast d" by blast
    with assms(2) [OF d(1)] q that show False by (metis imageI)
  qed
  ultimately show "look G q = look F q \<and> (q \<notin> butlast ` E \<longrightarrow> fsTimes G q = fsTimes F q)"
    using assms(1) by (simp add: agrees_def)
qed

lemma agrees_look: "agrees D F G \<Longrightarrow> (\<And>d. d \<in> D \<Longrightarrow> \<not> prefix d q) \<Longrightarrow> look G q = look F q"
  by (simp add: agrees_def)

lemma agrees_times: "agrees D F G \<Longrightarrow> (\<And>d. d \<in> D \<Longrightarrow> \<not> prefix d q \<and> butlast d \<noteq> q) \<Longrightarrow> fsTimes G q = fsTimes F q"
  unfolding agrees_def by blast

lemma within_files: "within D st st' \<Longrightarrow> agrees D (files st) (files st')"
  using goes_files [of "agrees D (files st)" st st'] by (simp add: within_def)

lemma within_refl: "files st' = files st \<Longrightarrow> moments st' = moments st \<Longrightarrow> within D st st'"
  by (simp add: within_def goes_refl)

lemma within_trans: "within D st st' \<Longrightarrow> within D st' st'' \<Longrightarrow> within D st st''"
  using within_files [of D st st'] unfolding within_def
  by (blast intro: goes_trans goes_mono agrees_trans)

lemma within_mono: "within D st st' \<Longrightarrow> D \<subseteq> E \<Longrightarrow> within E st st'"
  unfolding within_def by (blast intro: goes_mono agrees_mono)

lemma within_calls: "callsBelow d cs \<Longrightarrow> d \<in> D \<Longrightarrow> within D st (doCalls cs st)"
  unfolding within_def by (rule goes_mono [OF goes_below]) (auto intro: agrees_one)

lemma within_rename:
  assumes "a \<in> D" and "b \<in> D"
  shows "within D st (doCalls [Rename a b] st)"
proof -
  have "agrees D (files st) (effect (clock st) (Rename a b) (files st))"
    using assms by (auto simp: agrees_def looks times_effect)
  then show ?thesis
    unfolding within_def by (intro goes_doCalls) (auto simp: le_Suc_eq)
qed

lemma within_here:
  "within D st st' \<Longrightarrow> files st0 = files st \<Longrightarrow> moments st0 = moments st \<Longrightarrow> files st1 = files st' \<Longrightarrow> moments st1 = moments st'
     \<Longrightarrow> within D st0 st1"
  unfolding within_def by (simp add: goes_here)

end
