(* ===== verification/Sync_Program.thy ===== *)
theory Sync_Program
  imports Shell_Script Addon_Job
begin

text \<open>
  The sync and the cleanup script as programs of \<open>Shell_Script\<close>, piece by piece as \<open>buildSyncScript\<close> and
  \<open>buildCleanupScript\<close> of \<open>odooaddon_sync.go\<close> put them together. The text of the programs is proved to be the
  script the operator puts into the Job, so what the other theories prove of the programs holds of the scripts.
\<close>

section \<open>Paths of the volume\<close>

definition addonsDir :: path where "addonsDir = [''mnt'', ''odoo'', ''addons'']"
definition releasesDir :: path where "releasesDir = addonsDir @ [syncReleasesDir]"
definition storeDir :: "string \<Rightarrow> path" where "storeDir addonName = releasesDir @ [addonName]"
definition repoDir :: path where "repoDir = [''tmp'', ''repo'']"
definition modulesScratch :: path where "modulesScratch = [''tmp'', ''modules.list'']"
definition prevScratch :: path where "prevScratch = [''tmp'', ''modules.prev'']"

definition sourceDir :: "syncSpec \<Rightarrow> path" where
  "sourceDir s = (if \<not> ssSingleAddon s \<and> ssAddonPath s \<noteq> '''' then repoDir @ [ssAddonPath s] else repoDir)"

section \<open>Words of the scripts\<close>

abbreviation "inAddons fs \<equiv> [PathVar ''ADDONS'', Part fs]"
abbreviation "inRel fs \<equiv> [PathVar ''REL'', Part fs]"
abbreviation "inRelRoot fs \<equiv> [PathVar ''RELROOT'', Part fs]"
abbreviation "pathVar v \<equiv> [PathVar v]"

section \<open>The sync script\<close>

definition publishBody :: "sh list" where
  "publishBody =
     [SetFirst ''name'',
      SetSecond ''src'',
      IfThen (NotDir (inRel [NameVar ''name'']))
        [Run (RmRf (inRel [Text ''.'', NameVar ''name'', Text ''.partial''])),
         Run (CpA (pathVar ''src'') (inRel [Text ''.'', NameVar ''name'', Text ''.partial''])),
         Run (RmRf (inRel [Text ''.'', NameVar ''name'', Text ''.partial''] @ [Part [Text ''.git'']])),
         Run (Mv (inRel [Text ''.'', NameVar ''name'', Text ''.partial'']) (inRel [NameVar ''name'']))],
      SetWord ''target'' (inAddons [NameVar ''name'']),
      IfThen (Both (IsDir (pathVar ''target'')) (NotLink (pathVar ''target'')))
        [Run (RmRf (pathVar ''target''))],
      Run (LnSfn (inRel [NameVar ''name'']) (inAddons [Text ''.'', NameVar ''name'', Text ''.tmp''])),
      Run (MvT (inAddons [Text ''.'', NameVar ''name'', Text ''.tmp'']) (pathVar ''target''))]"

definition conflictLoop :: sh where
  "conflictLoop =
     WhileRead ''name'' (pathVar ''MODLIST'')
       [SetWord ''target'' (inAddons [NameVar ''name'']),
        IfThen (IsLink (pathVar ''target''))
          [SetLink ''dest'' (pathVar ''target''),
           CaseOf (VarSubject ''dest'')
             [BlockArm (inAddons [Text syncReleasesDir])
                [CaseOf (VarSubject ''dest'')
                   [SkipArm (pathVar ''RELROOT''),
                    ElseArm
                      [StripPrefix ''other'' ''dest'' (inAddons [Text syncReleasesDir]),
                       FirstPart ''other'',
                       Echo (''module $name '' @ addonModuleConflictMarker @ '' $other''),
                       ExitOne]]]]]]"

definition staleLoop :: sh where
  "staleLoop =
     WhileRead ''old'' (pathVar ''PREV'')
       [OrContinue (NotEmpty (pathVar ''old'')),
        IfContinue (Listed (pathVar ''old'') (pathVar ''MODLIST'')),
        SetWord ''target'' (inAddons [NameVar ''old'']),
        IfThen (IsLink (pathVar ''target''))
          [CaseOf (LinkSubject (pathVar ''target'')) [InlineArm (pathVar ''RELROOT'') (RmF (pathVar ''target''))]]]"

definition discoverProgram :: "syncSpec \<Rightarrow> sh list" where
  "discoverProgram s =
     (if ssSingleAddon s then [Run (PrintLine (ssModuleName s) (pathVar ''MODLIST''))]
      else
        [ForDirs ''mod'' (sourceDir s)
           [IfThen (IsFile [PathVar ''mod'', Part [Text syncManifest]])
              [Run (AppendBase (pathVar ''mod'') (pathVar ''MODLIST''))]],
         OrDie (HasContent (pathVar ''MODLIST'')) (''no Odoo modules found in '' @ pathText (sourceDir s))])"

definition publishProgram :: "syncSpec \<Rightarrow> sh list" where
  "publishProgram s =
     (if ssSingleAddon s then [Call ''publish'' publishBody [Sq (ssModuleName s), Bare repoDir]]
      else
        [WhileRead ''name'' (pathVar ''MODLIST'')
           [Call ''publish'' publishBody
              [Dq (pathVar ''name''), Dq [Abs (sourceDir s), Part [NameVar ''name'']]]]])"

definition manifestProgram :: "syncSpec \<Rightarrow> sh list" where
  "manifestProgram s =
     (if ssSingleAddon s then
        [ManifestAtRoot (repoDir @ [syncManifest]) (''no '' @ syncManifest @ '' at the repository root of '' @ ssModuleName s)]
      else [])"

definition fetchLines :: "syncSpec \<Rightarrow> string list" where
  \<open>fetchLines s =
     (if isCommitSHA (ssGitRef s) then
        [''git init '' @ syncRepoDir,
         ''git -C '' @ syncRepoDir @ '' remote add origin "$GIT_URL"'',
         gitCmd s @ '' -C '' @ syncRepoDir @ '' fetch --depth 1 origin "$GIT_REF"'',
         ''git -C '' @ syncRepoDir @ '' checkout --detach FETCH_HEAD'']
      else [gitCmd s @ '' clone --depth 1 --branch "$GIT_REF" "$GIT_URL" '' @ syncRepoDir])\<close>

definition authLines :: "syncSpec \<Rightarrow> string list" where
  \<open>authLines s =
     (if ssAuth s = authHTTPSToken then
        [''GIT_USERNAME="${GIT_USERNAME:-x-access-token}"'',
         ''AUTH=$(printf \'%s:%s\' "$GIT_USERNAME" "$GIT_TOKEN" | base64 | tr -d '' @ [squote, bslash] @ ''n'' @ [squote] @ '')'']
      else [])\<close>

definition setupProgram :: "syncSpec \<Rightarrow> sh list" where
  "setupProgram s =
     [SetHead ''SHA'' repoDir,
      SetPath ''ADDONS'' addonsDir,
      SetPath ''RELROOT'' (storeDir (ssAddonName s)),
      SetWord ''REL'' [PathVar ''RELROOT'', Part [NameVar ''SHA'']],
      SetPath ''MODLIST'' modulesScratch,
      SetPath ''PREV'' prevScratch,
      Run (Truncate (pathVar ''MODLIST''))]"

definition recordProgram :: "sh list" where
  "recordProgram =
     [Run (Cp (pathVar ''MODLIST'') (inRelRoot [Text syncModulesFile, Text ''.tmp''])),
      Run (Mv (inRelRoot [Text syncModulesFile, Text ''.tmp'']) (inRelRoot [Text syncModulesFile]))]"

definition pruneProgram :: sh where
  "pruneProgram = ForOlder (pathVar ''RELROOT'') ''old'' (RmRf (inRelRoot [NameVar ''old'']))"

definition syncProgram :: "syncSpec \<Rightarrow> sh list" where
  "syncProgram s =
     map Raw ([''set -e'', ''set +x'', ''export GIT_TERMINAL_PROMPT=0''] @ authLines s)
     @ [Fetch (fetchLines s)] @ manifestProgram s @ setupProgram s @ discoverProgram s
     @ [Run (SortU (pathVar ''MODLIST'')), conflictLoop,
        IfElse (IsFile (inRelRoot [Text syncModulesFile]))
          (Cp (inRelRoot [Text syncModulesFile]) (pathVar ''PREV'')) (Truncate (pathVar ''PREV'')),
        Run (MkdirP (pathVar ''REL'')), Define ''publish'' publishBody]
     @ publishProgram s @ [Run (Touch (pathVar ''REL'')), staleLoop] @ recordProgram
     @ [pruneProgram, PrintModules (pathVar ''MODLIST''), PrintHead repoDir]"

section \<open>The cleanup script\<close>

definition cleanupLoop :: sh where
  "cleanupLoop =
     ForLinks ''link'' (pathVar ''ADDONS'')
       [CaseOf (LinkSubject (pathVar ''link'')) [InlineArm (pathVar ''RELROOT'') (RmF (pathVar ''link''))]]"

definition cleanupProgram :: "string \<Rightarrow> sh list" where
  "cleanupProgram addonName =
     [Raw ''set -e'', Raw ''set +x'', SetPath ''ADDONS'' addonsDir, SetPath ''RELROOT'' (storeDir addonName),
      IfThen (IsDir (pathVar ''ADDONS'')) [cleanupLoop], Run (RmRf (pathVar ''RELROOT''))]"

section \<open>The programs are the scripts\<close>

lemma scriptText_append: "scriptText (a @ b) = scriptText a @ scriptText b"
proof -
  have "shsLines (a @ b) = shsLines a @ shsLines b" by (induction a) simp_all
  then show ?thesis by (simp add: scriptText_def textLines_def)
qed

lemma scriptText_raw: "scriptText (map Raw ls) = textLines ls"
proof -
  have "shsLines (map Raw ls) = ls" by (induction ls) simp_all
  then show ?thesis by (simp add: scriptText_def)
qed

lemma publish_text: "scriptText [Define ''publish'' publishBody] = publishFn"
  by code_simp

lemma conflict_text: "scriptText [conflictLoop] = conflictCheck"
  by code_simp

lemma stale_text: "scriptText [staleLoop] = staleRemoval"
  by code_simp

lemma storeDir_text: "pathText (storeDir n) = releaseRoot n"
proof -
  have "pathText releasesDir = addonsMountPath @ ''/'' @ syncReleasesDir" by code_simp
  then show ?thesis by (simp add: storeDir_def releaseRoot_def pathText_def)
qed

lemma sourceDir_text: "pathText (sourceDir s) = syncSource s"
proof -
  have "pathText repoDir = syncRepoDir" by code_simp
  then show ?thesis by (simp add: sourceDir_def syncSource_def pathText_def)
qed

lemma constant_paths:
  "pathText repoDir = syncRepoDir" "pathText (repoDir @ [syncManifest]) = syncRepoDir @ ''/'' @ syncManifest"
  "shQuote (pathText addonsDir) = addonsMountPath" "shQuote (pathText modulesScratch) = syncModulesScratch"
  "shQuote (pathText prevScratch) = syncPrevScratch"
  by code_simp+

lemma scriptText_lines: "scriptText cs = textLines (shsLines cs)"
  by (simp add: scriptText_def)

lemma textLines_append: "textLines (a @ b) = textLines a @ textLines b"
  by (simp add: textLines_def)

lemma textLines_Nil: "textLines [] = []"
  by (simp add: textLines_def)

lemma fetch_text: "textLines (fetchLines s) = fetchStep s" and auth_text: "textLines (authLines s) = authSetup s"
  by (simp_all add: fetchLines_def fetchStep_def authLines_def authSetup_def textLines_Nil)

lemma setup_text:
  \<open>scriptText (setupProgram s) = textLines
     [''SHA=$(git -C '' @ syncRepoDir @ '' rev-parse HEAD)'',
      ''ADDONS='' @ addonsMountPath,
      ''RELROOT='' @ shQuote (releaseRoot (ssAddonName s)),
      ''REL="$RELROOT/$SHA"'',
      ''MODLIST='' @ syncModulesScratch,
      ''PREV='' @ syncPrevScratch,
      '': > "$MODLIST"'']\<close>
  by (simp add: setupProgram_def scriptText_lines constant_paths storeDir_text wordText_def)

lemma manifest_text: "scriptText (manifestProgram s) = manifestCheck s"
  by (simp add: manifestProgram_def manifestCheck_def scriptText_lines constant_paths textLines_Nil)

lemma discover_text: "scriptText (discoverProgram s) = discoverStep s"
  by (simp add: discoverProgram_def discoverStep_def scriptText_lines sourceDir_text wordText_def indented_def)

lemma publish_calls_text: "scriptText (publishProgram s) = publishCalls s"
  by (simp add: publishProgram_def publishCalls_def scriptText_lines sourceDir_text wordText_def indented_def constant_paths)

lemma middle_text:
  \<open>scriptText [Run (SortU (pathVar ''MODLIST'')), conflictLoop,
        IfElse (IsFile (inRelRoot [Text syncModulesFile]))
          (Cp (inRelRoot [Text syncModulesFile]) (pathVar ''PREV'')) (Truncate (pathVar ''PREV'')),
        Run (MkdirP (pathVar ''REL'')), Define ''publish'' publishBody]
   = textLines [''sort -u "$MODLIST" -o "$MODLIST"''] @ conflictCheck
     @ textLines
        [''if [ -f "$RELROOT/'' @ syncModulesFile @ ''" ]; then cp "$RELROOT/'' @ syncModulesFile
           @ ''" "$PREV"; else : > "$PREV"; fi'',
         ''mkdir -p "$REL"''] @ publishFn\<close>
  by code_simp

lemma final_text:
  \<open>scriptText ([Run (Touch (pathVar ''REL'')), staleLoop] @ recordProgram
     @ [pruneProgram, PrintModules (pathVar ''MODLIST''), PrintHead repoDir])
   = textLines [''touch "$REL"''] @ staleRemoval
     @ textLines
        [''cp "$MODLIST" "$RELROOT/'' @ syncModulesFile @ ''.tmp"'',
         ''mv "$RELROOT/'' @ syncModulesFile @ ''.tmp" "$RELROOT/'' @ syncModulesFile @ ''"'',
         ''ls -1t "$RELROOT" | tail -n +3 | while IFS= read -r old; do rm -rf "$RELROOT/$old"; done'',
         ''printf \'modules: %s'' @ [bslash] @ ''n\' "$(paste -sd, "$MODLIST")"'',
         ''git -C '' @ syncRepoDir @ '' rev-parse HEAD'']\<close>
  by code_simp

lemma fetch_program_text: "scriptText [Fetch (fetchLines s)] = fetchStep s"
  by (simp add: scriptText_lines fetch_text)

lemma sync_program_text: "scriptText (syncProgram s) = buildSyncScript s"
  by (simp only: syncProgram_def buildSyncScript_def scriptText_append scriptText_raw textLines_append append_assoc
      auth_text setup_text fetch_program_text manifest_text discover_text publish_calls_text middle_text
      final_text [unfolded scriptText_append])

lemma cleanup_program_text: "scriptText (cleanupProgram n) = buildCleanupScript n"
  by (simp add: cleanupProgram_def buildCleanupScript_def cleanupLoop_def scriptText_lines constant_paths storeDir_text
      wordText_def indented_def underText_def)

text \<open>C9: The model of the two scripts is their text: for every spec, the text of the program that the theories on
  the addons volume run is, byte for byte, the script \<open>buildSyncScript\<close> puts into the sync Job, and the same holds
  of the cleanup program and \<open>buildCleanupScript\<close>.\<close>

theorem scripts_are_programs:
  "scriptText (syncProgram s) = buildSyncScript s \<and> scriptText (cleanupProgram n) = buildCleanupScript n"
  by (simp only: sync_program_text cleanup_program_text)

end
