(* ===== verification/Sync_Volume.thy ===== *)
theory Sync_Volume
  imports Sync_Program
begin

text \<open>
  What the sync script does to the addons volume: the modules it finds, the conflict check, the publishing of a
  module, the removal of stale links, the bookkeeping and the pruning of old releases, each as a lemma about the
  piece of the program, and the whole run put together from them.
\<close>

section \<open>The volume\<close>

definition visible :: "string \<Rightarrow> bool" where
  "visible n \<longleftrightarrow> n \<noteq> '''' \<and> \<not> prefix ''.'' n"

text \<open>Every module link into a release store points to a whole module of its own name, and the store's module
  list, which the next sync compares with, names it.\<close>

definition linkRecorded :: "file_system \<Rightarrow> string \<Rightarrow> path \<Rightarrow> bool" where
  "linkRecorded F n t =
     (case drop (length releasesDir) t of
        [x, c, m] \<Rightarrow> m = n \<and> visible c \<and> look F t = Some Directory \<and> n \<in> set (linesOf F (storeDir x @ [syncModulesFile]))
      | _ \<Rightarrow> False)"

definition linksRecorded :: "file_system \<Rightarrow> bool" where
  "linksRecorded F =
     list_all (\<lambda>n. case linkTarget F (addonsDir @ [n]) of
          None \<Rightarrow> True | Some t \<Rightarrow> visible n \<and> prefix releasesDir t \<longrightarrow> linkRecorded F n t) (entryNames addonsDir F)"

text \<open>The shape of the volume: directories where the scripts put directories, files where they put files.\<close>

definition placed :: "path \<Rightarrow> node \<Rightarrow> bool" where
  "placed p n =
     (case drop (length releasesDir) p of
        [x, e] \<Rightarrow> if e \<in> {syncModulesFile, syncModulesFile @ ''.tmp''} then (case n of File ls \<Rightarrow> list_all visible ls | _ \<Rightarrow> False) else n = Directory
      | [x, c, m] \<Rightarrow> visible m \<longrightarrow> n = Directory
      | _ # _ # _ # _ # _ \<Rightarrow> True
      | _ \<Rightarrow> n = Directory)"

definition volumeShape :: "file_system \<Rightarrow> bool" where
  "volumeShape F \<longleftrightarrow>
     list_all (\<lambda>k. look F (take k addonsDir) = Some Directory) [1, 2, 3]
     \<and> list_all (\<lambda>p. prefix releasesDir p \<longrightarrow> (case look F p of Some n \<Rightarrow> placed p n | None \<Rightarrow> True)) (existing F)
     \<and> list_all (\<lambda>n. n \<noteq> syncReleasesDir \<and> prefix ''.'' n \<longrightarrow> look F (addonsDir @ [n]) \<noteq> Some Directory)
         (entryNames addonsDir F)"

lemma linksRecordedD:
  assumes "linksRecorded F" and "visible n" and "look F (addonsDir @ [n]) = Some (Link t)" and "prefix releasesDir t"
  obtains x c where "t = storeDir x @ [c, n]" and "visible c" and "look F t = Some Directory"
    and "n \<in> set (linesOf F (storeDir x @ [syncModulesFile]))"
proof -
  from assms(3) have "n \<in> set (entryNames addonsDir F)" and "linkTarget F (addonsDir @ [n]) = Some t"
    by (simp_all add: in_entryNames linkTarget_def)
  with assms have "linkRecorded F n t"
    unfolding linksRecorded_def list_all_iff by (metis (no_types, lifting) option.simps(5))
  moreover from assms(4) have "t = releasesDir @ drop (length releasesDir) t"
    by (auto simp: prefix_def)
  ultimately show thesis
    using that by (auto simp: linkRecorded_def storeDir_def split: list.splits)
qed

lemma linksRecordedI:
  assumes "\<And>n t. visible n \<Longrightarrow> look F (addonsDir @ [n]) = Some (Link t) \<Longrightarrow> prefix releasesDir t \<Longrightarrow>
    \<exists>x c. t = storeDir x @ [c, n] \<and> visible c \<and> look F t = Some Directory
      \<and> n \<in> set (linesOf F (storeDir x @ [syncModulesFile]))"
  shows "linksRecorded F"
  using assms
  by (fastforce simp: linksRecorded_def list_all_iff linkTarget_def linkRecorded_def storeDir_def split: node.splits option.splits)

lemma volumeShape_place:
  assumes "volumeShape F" and "look F p = Some d" and "prefix releasesDir p"
  shows "placed p d"
proof -
  from assms(2) have "p \<in> set (existing F)" by (simp add: look_existing)
  with assms show ?thesis by (auto simp: volumeShape_def list_all_iff)
qed

lemma visible_Cons: "visible n \<longleftrightarrow> (case n of [] \<Rightarrow> False | c # cs \<Rightarrow> c \<noteq> CHR ''.'')"
  by (cases n) (auto simp: visible_def)

lemma visible_not_special:
  "visible n \<Longrightarrow> n \<noteq> syncModulesFile \<and> n \<noteq> syncModulesFile @ ''.tmp'' \<and> n \<noteq> syncReleasesDir \<and> n \<noteq> CHR ''.'' # k"
  by (auto simp: visible_Cons syncModulesFile_def syncReleasesDir_def)

lemma dot_names: "CHR ''.'' # n @ ''.tmp'' \<noteq> syncReleasesDir" "CHR ''.'' # n @ ''.partial'' \<noteq> syncReleasesDir"
proof -
  have "last syncReleasesDir = CHR ''s''" by (simp add: syncReleasesDir_def)
  moreover have "last (CHR ''.'' # n @ ''.tmp'') = CHR ''p''" and "last (CHR ''.'' # n @ ''.partial'') = CHR ''l''" by simp_all
  ultimately show "CHR ''.'' # n @ ''.tmp'' \<noteq> syncReleasesDir" "CHR ''.'' # n @ ''.partial'' \<noteq> syncReleasesDir"
    by fastforce+
qed

lemma volumeShape_hidden:
  assumes "volumeShape F" and "prefix ''.'' n" and "n \<noteq> syncReleasesDir"
  shows "look F (addonsDir @ [n]) \<noteq> Some Directory"
proof (cases "look F (addonsDir @ [n]) = None")
  case False
  then have mem: "n \<in> set (entryNames addonsDir F)" by (simp add: in_entryNames)
  from assms(1) have "\<forall>k \<in> set (entryNames addonsDir F). k \<noteq> syncReleasesDir \<and> prefix ''.'' k \<longrightarrow> look F (addonsDir @ [k]) \<noteq> Some Directory"
    by (simp add: volumeShape_def list_all_iff)
  from bspec [OF this mem] assms(2,3) show ?thesis by simp
qed simp

lemma volumeShapeD:
  assumes "volumeShape F"
  shows "look F [''mnt''] = Some Directory" and "look F [''mnt'', ''odoo''] = Some Directory"
    and "look F addonsDir = Some Directory"
    and "look F releasesDir = Some d \<Longrightarrow> d = Directory"
    and "look F (storeDir x) = Some d \<Longrightarrow> d = Directory"
    and "visible c \<Longrightarrow> look F (storeDir x @ [c]) = Some d \<Longrightarrow> d = Directory"
    and "visible m \<Longrightarrow> look F (storeDir x @ [c, m]) = Some d \<Longrightarrow> d = Directory"
    and "look F (storeDir x @ [syncModulesFile]) = Some d \<Longrightarrow> \<exists>ls. d = File ls \<and> list_all visible ls"
    and "look F (storeDir x @ [syncModulesFile @ ''.tmp'']) = Some d \<Longrightarrow> \<exists>ls. d = File ls"
    and "look F (addonsDir @ [''.'' @ n @ ''.tmp'']) \<noteq> Some Directory"
proof -
  note place = volumeShape_place [OF assms]
  show "look F [''mnt''] = Some Directory" and "look F [''mnt'', ''odoo''] = Some Directory"
    and "look F addonsDir = Some Directory"
    using assms by (simp_all add: volumeShape_def addonsDir_def numeral_eq_Suc)
  show "look F releasesDir = Some d \<Longrightarrow> d = Directory"
    by (drule place) (simp_all add: placed_def)
  show "look F (storeDir x) = Some d \<Longrightarrow> d = Directory"
    by (drule place) (simp_all add: placed_def storeDir_def)
  show "visible c \<Longrightarrow> look F (storeDir x @ [c]) = Some d \<Longrightarrow> d = Directory"
    by (drule place) (auto simp: placed_def storeDir_def dest: visible_not_special)
  show "visible m \<Longrightarrow> look F (storeDir x @ [c, m]) = Some d \<Longrightarrow> d = Directory"
    by (drule place) (simp_all add: placed_def storeDir_def)
  show "look F (storeDir x @ [syncModulesFile]) = Some d \<Longrightarrow> \<exists>ls. d = File ls \<and> list_all visible ls"
    by (drule place) (auto simp: placed_def storeDir_def split: node.splits)
  show "look F (storeDir x @ [syncModulesFile @ ''.tmp'']) = Some d \<Longrightarrow> \<exists>ls. d = File ls"
    by (drule place) (auto simp: placed_def storeDir_def split: node.splits)
  show "look F (addonsDir @ [''.'' @ n @ ''.tmp'']) \<noteq> Some Directory"
    using volumeShape_hidden [OF assms, of "''.'' @ n @ ''.tmp''"] dot_names(1) [of n] by simp
qed

section \<open>Publishing a module\<close>

declare within_trans [trans]

definition partialName :: "string \<Rightarrow> string" where "partialName m = CHR ''.'' # m @ ''.partial''"
definition tmpName :: "string \<Rightarrow> string" where "tmpName m = CHR ''.'' # m @ ''.tmp''"

definition copyStep :: sh where
  "copyStep = IfThen (NotDir (inRel [NameVar ''name'']))
     [Run (RmRf (inRel [Text ''.'', NameVar ''name'', Text ''.partial''])),
      Run (CpA (pathVar ''src'') (inRel [Text ''.'', NameVar ''name'', Text ''.partial''])),
      Run (RmRf (inRel [Text ''.'', NameVar ''name'', Text ''.partial''] @ [Part [Text ''.git'']])),
      Run (Mv (inRel [Text ''.'', NameVar ''name'', Text ''.partial'']) (inRel [NameVar ''name'']))]"

definition dropStep :: sh where
  "dropStep = IfThen (Both (IsDir (pathVar ''target'')) (NotLink (pathVar ''target''))) [Run (RmRf (pathVar ''target''))]"

definition linkSteps :: "sh list" where
  "linkSteps =
     [Run (LnSfn (inRel [NameVar ''name'']) (inAddons [Text ''.'', NameVar ''name'', Text ''.tmp''])),
      Run (MvT (inAddons [Text ''.'', NameVar ''name'', Text ''.tmp'']) (pathVar ''target''))]"

lemma publishBody_steps:
  "publishBody = [SetFirst ''name'', SetSecond ''src'', copyStep, SetWord ''target'' (inAddons [NameVar ''name'']), dropStep]
     @ linkSteps"
  by (simp add: publishBody_def copyStep_def dropStep_def linkSteps_def)

lemma wordValue_simps [simp]:
  "wordValue V [] = []" "wordValue V (p # w) = pieceValue V p @ wordValue V w"
  by (simp_all add: wordValue_def)

text \<open>The copy of a module: the source directory without its \<open>.git\<close>.\<close>

definition copyOf :: "file_system \<Rightarrow> path \<Rightarrow> path \<Rightarrow> node option" where
  "copyOf F src q = (if prefix [''.git''] q then None else look F (src @ q))"

lemma isDirectory_None: "look F p = None \<Longrightarrow> \<not> isDirectory F p"
  by (simp add: isDirectory_def numeral_eq_Suc)

lemma isDirectory_Directory: "look F p = Some Directory \<Longrightarrow> isDirectory F p"
  by (simp add: isDirectory_def numeral_eq_Suc)

lemma isSymlink_iff: "isSymlink F p \<longleftrightarrow> (\<exists>t. look F p = Some (Link t))"
  by (simp add: isSymlink_def split: option.splits node.splits)

lemma apart_append: "\<not> prefix a b \<Longrightarrow> \<not> prefix b a \<Longrightarrow> \<not> prefix (a @ x) (b @ y)"
  by (metis append_prefixD prefixI prefix_same_cases)

lemma copyStep_run:
  fixes st :: shell
  defines "F \<equiv> files st"
  assumes V: "vars st ''REL'' = rel" "vars st ''name'' = [m]" "vars st ''src'' = src"
    and src: "look F src = Some Directory" and apart: "\<not> prefix rel src" "\<not> prefix src rel"
    and place: "look F (rel @ [m]) \<in> {None, Some Directory}" and vis: "visible m"
  obtains st' where "exec R copyStep st = (Running, st')"
    and "vars st' = vars st" "params st' = params st" "stdout st' = stdout st" "clock st \<le> clock st'"
    and "\<And>q. look (files st') q =
      (if look F (rel @ [m]) \<noteq> None then look F q
       else if prefix (rel @ [m]) q then copyOf F src (drop (length rel + 1) q)
       else if prefix (rel @ [partialName m]) q then None else look F q)"
    and "within {rel @ [m], rel @ [partialName m]} st st'" and "look F (rel @ [m]) \<noteq> None \<Longrightarrow> st' = st"
proof (cases "look F (rel @ [m]) = None")
  case False
  with place have "look F (rel @ [m]) = Some Directory" by simp
  then have "exec R copyStep st = (Running, st)"
    using V by (simp add: copyStep_def F_def isDirectory_Directory)
  then show thesis
    by (rule that) (use False in \<open>simp_all add: F_def within_refl\<close>)
next
  case True
  let ?p = "rel @ [partialName m]" and ?m = "rel @ [m]"
  have apart': "\<not> prefix ?p (src @ q)" "\<not> prefix ?m (src @ q)" for q
    using apart by (simp_all add: apart_append)
  have ne: "m \<noteq> partialName m" using vis by (auto simp: visible_Cons partialName_def)
  define st1 where "st1 = doCalls (rmRf ?p F) st"
  have l1: "look (files st1) q = (if prefix ?p q then None else look F q)" for q
    by (simp add: st1_def F_def looks)
  define st2 where "st2 = doCalls (copyTree src ?p (files st1)) st1"
  have l2: "look (files st2) q = (if prefix ?p q then look F (src @ drop (length rel + 1) q) else look F q)" for q
    using apart' by (auto simp: st2_def looks l1 moved_def)
  define st3 where "st3 = doCalls (rmRf (?p @ [''.git'']) (files st2)) st2"
  have l3: "look (files st3) q = (if prefix ?p q then copyOf F src (drop (length rel + 1) q) else look F q)" for q
    by (auto simp: st3_def looks l2 copyOf_def prefix_def)
  define st4 where "st4 = doCalls [Rename ?p ?m] st3"
  have l4: "look (files st4) q = (if prefix ?m q then copyOf F src (drop (length rel + 1) q)
      else if prefix ?p q then None else look F q)" for q
    using ne by (auto simp: st4_def looks l3 moved_def prefix_def)
  show thesis
  proof (rule that)
    have "mv ?p ?m (files st3) = Some [Rename ?p ?m]"
      using True ne src l3 by (simp add: mv_def mvT_def isDirectory_None copyOf_def)
    moreover have "cpA src ?p (files st1) = Some (copyTree src ?p (files st1))"
      using apart' [of "[]"] src l1 by (simp add: cpA_def isDirectory_None)
    ultimately show "exec R copyStep st = (Running, st4)"
      using V True by (simp add: copyStep_def F_def isDirectory_None runUtility_def partialName_def
          st1_def st2_def st3_def st4_def)
    let ?D = "{?m, ?p}"
    have "within ?D st st1" unfolding st1_def by (rule within_calls [OF rmRf_below]) simp
    also have "within ?D st1 st2" unfolding st2_def by (rule within_calls [OF copyTree_below]) simp
    also have "within ?D st2 st3"
      unfolding st3_def by (rule within_calls [OF callsBelow_upwards [OF rmRf_below], of ?p]) simp_all
    also have "within ?D st3 st4" unfolding st4_def by (rule within_rename) simp_all
    finally show "within ?D st st4" .
  qed (use True in \<open>simp_all add: l4, simp_all add: st1_def st2_def st3_def st4_def\<close>)
qed

definition switchSteps :: "sh list" where
  "switchSteps = [SetWord ''target'' (inAddons [NameVar ''name'']), dropStep] @ linkSteps"

lemma real_directory: "isDirectory F p \<and> \<not> isSymlink F p \<longleftrightarrow> look F p = Some Directory"
  by (auto simp: isDirectory_def isSymlink_iff numeral_eq_Suc split: option.splits node.splits)

lemma dropStep_run:
  fixes st :: shell
  defines "F \<equiv> files st"
  assumes V: "vars st ''target'' = d"
  obtains st' where "exec R dropStep st = (Running, st')"
    and "vars st' = vars st" "params st' = params st" "stdout st' = stdout st" "clock st \<le> clock st'"
    and "\<And>q. look (files st') q = (if look F d = Some Directory \<and> prefix d q then None else look F q)"
    and "within {d} st st'" and "goes (\<lambda>G. \<forall>t. look G d = Some (Link t) \<longrightarrow> look F d = Some (Link t)) st st'"
proof (cases "look F d = Some Directory")
  case False
  then have "exec R dropStep st = (Running, st)"
    using V real_directory [of F d] by (auto simp: dropStep_def F_def)
  then show thesis
    by (rule that) (use False in \<open>simp_all add: F_def within_refl goes_refl\<close>)
next
  case True
  let ?st = "doCalls (rmRf d F) st"
  have run: "exec R dropStep st = (Running, ?st)"
    using V True real_directory [of F d] by (simp add: dropStep_def F_def runUtility_def)
  have w: "within {d} st ?st" by (rule within_calls [OF rmRf_below]) simp
  have g: "goes (\<lambda>G. \<forall>t. look G d = Some (Link t) \<longrightarrow> look F d = Some (Link t)) st ?st"
    by (rule goes_doCalls) (auto simp: F_def intro: rmRf_no_link)
  show thesis
    by (rule that [OF run]) (use True w g in \<open>simp_all add: F_def looks\<close>)
qed

lemma linkSteps_run:
  fixes st :: shell
  defines "F \<equiv> files st"
  assumes V: "vars st ''REL'' = rel" "vars st ''name'' = [m]" "vars st ''ADDONS'' = ad" "vars st ''target'' = ad @ [m]"
    and place: "look F (ad @ [tmpName m]) \<noteq> Some Directory" "look F (ad @ [m]) \<noteq> Some Directory" and vis: "visible m"
  obtains st' where "execs R linkSteps st = (Running, st')"
    and "vars st' = vars st" "params st' = params st" "stdout st' = stdout st" "clock st \<le> clock st'"
    and "look (files st') (ad @ [m]) = Some (Link (rel @ [m]))" "look (files st') (ad @ [tmpName m]) = None"
    and "within {ad @ [m], ad @ [tmpName m]} st st'"
    and "goes (\<lambda>G. \<forall>t. look G (ad @ [m]) = Some (Link t) \<longrightarrow> look F (ad @ [m]) = Some (Link t) \<or> t = rel @ [m]) st st'"
proof -
  let ?l = "ad @ [tmpName m]" and ?d = "ad @ [m]" and ?t = "rel @ [m]"
  have ne: "m \<noteq> tmpName m" using vis by (auto simp: visible_Cons tmpName_def)
  obtain cs where cs: "lnSfn ?t ?l F = Some cs" "callsBelow ?l cs"
    "\<And>now. look (effects now cs F) q = (if q = ?l then Some (Link ?t) else look F q)" for q
  proof (cases "look F ?l = None")
    case True
    then show thesis
      using that [of "[Make ?l (Link ?t)]"] by (simp add: lnSfn_def callsBelow_def looks)
  next
    case False
    then obtain n where "look F ?l = Some n" and "n \<noteq> Directory" using place(1) by auto
    then have "lnSfn ?t ?l F = Some [Unlink ?l, Make ?l (Link ?t)]"
      by (cases n) (simp_all add: lnSfn_def Let_def)
    then show thesis
      by (rule that) (simp_all add: callsBelow_def looks)
  qed
  define st1 where "st1 = doCalls cs st"
  have l1: "look (files st1) q = (if q = ?l then Some (Link ?t) else look F q)" for q
    using cs by (simp add: st1_def F_def)
  define st2 where "st2 = doCalls [Rename ?l ?d] st1"
  have "mvT ?l ?d (files st1) = Some [Rename ?l ?d]"
    using place ne by (auto simp: mvT_def l1 split: option.split node.split)
  then have run: "execs R linkSteps st = (Running, st2)"
    using V cs(1) by (simp add: linkSteps_def runUtility_def tmpName_def st1_def st2_def F_def)
  let ?P = "\<lambda>G. \<forall>t. look G ?d = Some (Link t) \<longrightarrow> look F ?d = Some (Link t) \<or> t = ?t"
  have "goes ?P st st1"
    unfolding st1_def using ne
    by (intro goes_mono [OF goes_below [OF cs(2)]]) (auto simp: agree_def F_def prefix_def)
  moreover have "goes ?P st1 st2"
    unfolding st2_def using ne by (intro goes_doCalls) (auto simp: le_Suc_eq looks l1)
  ultimately have "goes ?P st st2" by (rule goes_trans)
  moreover have "within {?d, ?l} st st1"
    unfolding st1_def by (rule within_calls [OF cs(2)]) simp
  then have "within {?d, ?l} st st2"
    by (rule within_trans) (simp add: st2_def within_rename)
  moreover have "look (files st2) ?d = Some (Link ?t)" "look (files st2) ?l = None"
    using ne by (simp_all add: st2_def looks l1)
  ultimately show thesis
    using that run by (simp add: st2_def st1_def)
qed

lemma entry_not_store: "n \<noteq> syncReleasesDir \<Longrightarrow> prefix releasesDir q \<Longrightarrow> \<not> prefix (addonsDir @ [n]) q"
  by (auto simp: releasesDir_def prefix_def)

lemma store_below: "prefix releasesDir (storeDir x @ q)"
  by (simp add: storeDir_def)

definition kept :: "string list \<Rightarrow> shell \<Rightarrow> shell \<Rightarrow> bool" where
  "kept vs st st' \<longleftrightarrow> (\<forall>v. v \<notin> set vs \<longrightarrow> vars st' v = vars st v) \<and> params st' = params st \<and> stdout st' = stdout st
     \<and> clock st \<le> clock st'"

lemma kept_trans: "kept vs st st' \<Longrightarrow> kept vs st' st'' \<Longrightarrow> kept vs st st''"
  by (simp add: kept_def)

lemma kept_mono: "kept vs st st' \<Longrightarrow> set vs \<subseteq> set ws \<Longrightarrow> kept ws st st'"
  by (auto simp: kept_def)

lemma publish_run:
  fixes st :: shell and x sha :: string
  defines "F \<equiv> files st" and "rel \<equiv> storeDir x @ [sha]"
  assumes V: "vars st ''REL'' = rel" "vars st ''ADDONS'' = addonsDir"
    and args: "map (argValue (vars st)) args = [[m], src]"
    and src: "look F src = Some Directory" and apart: "\<not> prefix rel src" "\<not> prefix src rel"
    and place: "look F (rel @ [m]) \<in> {None, Some Directory}" "look F (addonsDir @ [tmpName m]) \<noteq> Some Directory"
    and vis: "visible m"
  obtains st' where "exec R (Call ''publish'' publishBody args) st = (Running, st')"
    and "kept [''name'', ''src'', ''target''] st st'"
    and "look (files st') (addonsDir @ [m]) = Some (Link (rel @ [m]))"
    and "look (files st') (addonsDir @ [tmpName m]) = None"
    and "\<And>q. look (files st') (rel @ m # q) = (if look F (rel @ [m]) \<noteq> None then look F (rel @ m # q) else copyOf F src q)"
    and "within {addonsDir @ [m], addonsDir @ [tmpName m], rel @ [m], rel @ [partialName m]} st st'"
    and "goes (\<lambda>G. \<forall>t. look G (addonsDir @ [m]) = Some (Link t) \<longrightarrow> look F (addonsDir @ [m]) = Some (Link t)
           \<or> t = rel @ [m] \<and> (\<forall>q. look G (rel @ m # q) = look (files st') (rel @ m # q))) st st'"
    and "look F (rel @ [m]) \<noteq> None \<Longrightarrow> within {addonsDir @ [m], addonsDir @ [tmpName m]} st st'"
proof -
  let ?E = "{addonsDir @ [m], addonsDir @ [tmpName m]}" and ?S = "{rel @ [m], rel @ [partialName m]}"
  define st0 where "st0 = setVar ''src'' src (setVar ''name'' [m] (st\<lparr>params := [[m], src]\<rparr>))"
  have st0: "files st0 = F" "moments st0 = moments st" "vars st0 = (vars st)(''name'' := [m], ''src'' := src)"
    "stdout st0 = stdout st" "clock st0 = clock st"
    by (simp_all add: st0_def F_def)
  have "vars st0 ''REL'' = rel" "vars st0 ''name'' = [m]" "vars st0 ''src'' = src" using V st0 by simp_all
  from copyStep_run [OF this, of R, unfolded st0(1), OF src apart place(1) vis]
  obtain st1 where e1: "exec R copyStep st0 = (Running, st1)" and v1: "vars st1 = vars st0" "params st1 = params st0"
      "stdout st1 = stdout st0" "clock st0 \<le> clock st1"
    and l1: "\<And>q. look (files st1) q =
      (if look F (rel @ [m]) \<noteq> None then look F q
       else if prefix (rel @ [m]) q then copyOf F src (drop (length rel + 1) q)
       else if prefix (rel @ [partialName m]) q then None else look F q)"
    and w1: "within ?S st0 st1" and h1: "look F (rel @ [m]) \<noteq> None \<Longrightarrow> st1 = st0"
    by blast
  have mrel: "m \<noteq> syncReleasesDir" and trel: "tmpName m \<noteq> syncReleasesDir" and mt: "m \<noteq> tmpName m"
    using visible_not_special [OF vis] dot_names(1) by (auto simp: tmpName_def)
  have rel: "prefix releasesDir (rel @ q)" for q by (simp add: rel_def storeDir_def)
  have out: "\<not> prefix (rel @ [n]) (addonsDir @ [k])" for n k
    by (auto simp: rel_def storeDir_def releasesDir_def dest: prefix_length_le)
  define st2 where "st2 = setVar ''target'' (addonsDir @ [m]) st1"
  have st2: "files st2 = files st1" "moments st2 = moments st1" by (simp_all add: st2_def)
  have "vars st2 ''target'' = addonsDir @ [m]" by (simp add: st2_def)
  from dropStep_run [OF this, of R, unfolded st2(1)]
  obtain st3 where e3: "exec R dropStep st2 = (Running, st3)" and v3: "vars st3 = vars st2" "params st3 = params st2"
      "stdout st3 = stdout st2" "clock st2 \<le> clock st3"
    and l3: "\<And>q. look (files st3) q =
      (if look (files st1) (addonsDir @ [m]) = Some Directory \<and> prefix (addonsDir @ [m]) q then None else look (files st1) q)"
    and w3: "within {addonsDir @ [m]} st2 st3"
    and g3: "goes (\<lambda>G. \<forall>t. look G (addonsDir @ [m]) = Some (Link t) \<longrightarrow> look (files st1) (addonsDir @ [m]) = Some (Link t)) st2 st3"
    by blast
  have F_entry: "look (files st1) (addonsDir @ [n]) = look F (addonsDir @ [n])" for n
    using out [of m n] out [of "partialName m" n] by (simp add: l1 del: prefix_snoc)
  have "look (files st3) (addonsDir @ [m]) \<noteq> Some Directory" by (simp add: l3)
  moreover have "look (files st3) (addonsDir @ [tmpName m]) \<noteq> Some Directory"
    using place(2) mt by (simp add: l3 F_entry)
  moreover have "vars st3 ''REL'' = rel" "vars st3 ''name'' = [m]" "vars st3 ''ADDONS'' = addonsDir"
      "vars st3 ''target'' = addonsDir @ [m]"
    using V by (simp_all add: v3 st2_def v1 st0)
  ultimately obtain st4 where e4: "execs R linkSteps st3 = (Running, st4)"
    and v4: "vars st4 = vars st3" "params st4 = params st3" "stdout st4 = stdout st3" "clock st3 \<le> clock st4"
    and l4: "look (files st4) (addonsDir @ [m]) = Some (Link (rel @ [m]))" "look (files st4) (addonsDir @ [tmpName m]) = None"
    and w4: "within ?E st3 st4"
    and g4: "goes (\<lambda>G. \<forall>t. look G (addonsDir @ [m]) = Some (Link t) \<longrightarrow> look (files st3) (addonsDir @ [m]) = Some (Link t)
       \<or> t = rel @ [m]) st3 st4"
    using linkSteps_run vis by blast
  define st' where "st' = st4\<lparr>params := params st\<rparr>"
  have st': "files st' = files st4" "moments st' = moments st4" by (simp_all add: st'_def)
  have run: "exec R (Call ''publish'' publishBody args) st = (Running, st')"
    using e1 e3 e4 args
    by (simp add: publishBody_steps st0_def st2_def st'_def v1 st0 V numeral_eq_Suc split: list.splits)
  have w24: "within ?E st2 st4"
    by (rule within_trans [OF within_mono [OF w3] w4]) simp
  have sub: "look G (rel @ m # q) = look (files st1) (rel @ m # q)" if "agrees ?E (files st2) G" for G q
    using agrees_look [OF that, of "rel @ m # q"] entry_not_store [OF mrel rel] entry_not_store [OF trel rel]
    by (auto simp: st2)
  have final: "look (files st') (rel @ m # q) = look (files st1) (rel @ m # q)" for q
    unfolding st' by (rule sub [OF within_files [OF w24]])
  let ?P = "\<lambda>G. \<forall>t. look G (addonsDir @ [m]) = Some (Link t) \<longrightarrow> look F (addonsDir @ [m]) = Some (Link t)
           \<or> t = rel @ [m] \<and> (\<forall>q. look G (rel @ m # q) = look (files st') (rel @ m # q))"
  have entry: "look G (addonsDir @ [m]) = look F (addonsDir @ [m])" if "agrees ?S F G" for G
    using agrees_look [OF that, of "addonsDir @ [m]"] out by blast
  have "goes ?P st0 st1"
    using w1 unfolding within_def st0(1) by (rule goes_mono) (drule entry, simp)
  then have "goes ?P st st1"
    by (rule goes_here) (simp_all add: st0 F_def)
  moreover have "goes ?P st2 st4"
  proof -
    have "goes (\<lambda>G. \<forall>t. look G (addonsDir @ [m]) = Some (Link t) \<longrightarrow> look F (addonsDir @ [m]) = Some (Link t) \<or> t = rel @ [m]) st2 st4"
      by (rule goes_trans [OF goes_mono [OF g3] goes_mono [OF g4]]) (auto simp: l3 F_entry split: if_splits)
    from goes_conj [OF this w24 [unfolded within_def]] show ?thesis
      by (rule goes_mono) (auto simp: sub final)
  qed
  then have "goes ?P st1 st'"
    by (rule goes_here) (simp_all add: st2 st')
  ultimately have goes: "goes ?P st st'" by (rule goes_trans)
  have w: "within ?E st1 st'"
    using w24 by (rule within_here) (simp_all add: st2 st')
  have w0: "within ?S st st1"
    using w1 by (rule within_here) (simp_all add: st0 F_def)
  show thesis
  proof (rule that [OF run])
    show "kept [''name'', ''src'', ''target''] st st'"
      using v1 v3 v4 by (auto simp: kept_def st'_def st2_def st0)
    show "look (files st') (rel @ m # q) = (if look F (rel @ [m]) \<noteq> None then look F (rel @ m # q) else copyOf F src q)" for q
      by (simp add: final l1)
    show "within {addonsDir @ [m], addonsDir @ [tmpName m], rel @ [m], rel @ [partialName m]} st st'"
      by (rule within_trans [OF within_mono [OF w0] within_mono [OF w]]) auto
    show "within ?E st st'" if "look F (rel @ [m]) \<noteq> None"
      using w by (rule within_here) (simp_all add: h1 [OF that] st0 F_def)
  qed (use l4 goes in \<open>simp_all add: st'\<close>)
qed

section \<open>Publishing all modules\<close>

text \<open>Where publishing a module writes: its link, and its place in the release when the release lacks it.\<close>

definition publishArea :: "file_system \<Rightarrow> path \<Rightarrow> string \<Rightarrow> path set" where
  "publishArea F rel m = {addonsDir @ [m], addonsDir @ [tmpName m]}
     \<union> (if look F (rel @ [m]) = None then {rel @ [m], rel @ [partialName m]} else {})"

definition publishedAs :: "file_system \<Rightarrow> path \<Rightarrow> (string \<Rightarrow> path) \<Rightarrow> string \<Rightarrow> path \<Rightarrow> node option" where
  "publishedAs F rel srcOf m q =
     (if look F (rel @ [m]) \<noteq> None then look F (rel @ m # q) else copyOf F (srcOf m) q)"

text \<open>While modules are published, a module link is the one of before, or the new one of a published module.\<close>

definition linksMoved :: "file_system \<Rightarrow> path \<Rightarrow> (string \<Rightarrow> path) \<Rightarrow> string set \<Rightarrow> file_system \<Rightarrow> bool" where
  "linksMoved F rel srcOf S G \<longleftrightarrow>
     agrees (\<Union>m\<in>S. publishArea F rel m) F G
     \<and> (\<forall>n t. visible n \<and> look G (addonsDir @ [n]) = Some (Link t) \<longrightarrow>
          look F (addonsDir @ [n]) = Some (Link t)
          \<or> n \<in> S \<and> t = rel @ [n] \<and> (\<forall>q. look G (rel @ n # q) = publishedAs F rel srcOf n q))"

definition published :: "file_system \<Rightarrow> path \<Rightarrow> (string \<Rightarrow> path) \<Rightarrow> string set \<Rightarrow> file_system \<Rightarrow> bool" where
  "published F rel srcOf S G \<longleftrightarrow>
     agrees (\<Union>m\<in>S. publishArea F rel m) F G
     \<and> (\<forall>m\<in>S. look G (addonsDir @ [m]) = Some (Link (rel @ [m])) \<and> look G (addonsDir @ [tmpName m]) = None
          \<and> (\<forall>q. look G (rel @ m # q) = publishedAs F rel srcOf m q))"

lemma linksMovedD:
  "linksMoved F rel srcOf S G \<Longrightarrow> visible n \<Longrightarrow> look G (addonsDir @ [n]) = Some (Link t) \<Longrightarrow>
     look F (addonsDir @ [n]) = Some (Link t)
     \<or> n \<in> S \<and> t = rel @ [n] \<and> (\<forall>q. look G (rel @ n # q) = publishedAs F rel srcOf n q)"
  unfolding linksMoved_def by blast

lemma entry_outside:
  assumes "prefix releasesDir rel" and "n \<notin> S" and "\<And>m. m \<in> S \<Longrightarrow> n \<noteq> tmpName m"
    and "d \<in> (\<Union>m\<in>S. publishArea F rel m)"
  shows "\<not> prefix d (addonsDir @ [n])"
proof -
  from assms(1) have "\<not> prefix (rel @ [k]) (addonsDir @ [n])" for k
    by (auto simp: releasesDir_def dest!: prefix_length_le)
  with assms show ?thesis
    by (auto simp: publishArea_def split: if_splits)
qed

lemma store_outside:
  assumes "\<And>m. m \<in> S \<Longrightarrow> visible m" and "prefix releasesDir q"
    and "\<And>m. m \<in> S \<Longrightarrow> look F (rel @ [m]) = None \<Longrightarrow> \<not> prefix (rel @ [m]) q \<and> \<not> prefix (rel @ [partialName m]) q"
    and "d \<in> (\<Union>m\<in>S. publishArea F rel m)"
  shows "\<not> prefix d q"
  using assms entry_not_store [OF _ assms(2)] visible_not_special dot_names(1)
  by (auto simp: publishArea_def tmpName_def split: if_splits)

lemma linksMoved_published:
  assumes "published F rel srcOf S G" and "prefix releasesDir rel"
  shows "linksMoved F rel srcOf S G"
  unfolding linksMoved_def
proof (intro conjI allI impI)
  from assms show ag: "agrees (\<Union>m\<in>S. publishArea F rel m) F G" by (simp add: published_def)
  fix n t assume n: "visible n \<and> look G (addonsDir @ [n]) = Some (Link t)"
  show "look F (addonsDir @ [n]) = Some (Link t)
          \<or> n \<in> S \<and> t = rel @ [n] \<and> (\<forall>q. look G (rel @ n # q) = publishedAs F rel srcOf n q)"
  proof (cases "n \<in> S")
    case True
    with n assms show ?thesis by (simp add: published_def)
  next
    case False
    then have "look G (addonsDir @ [n]) = look F (addonsDir @ [n])"
      using n visible_not_special [of n]
      by (intro agrees_look [OF ag] entry_outside [OF assms(2)]) (auto simp: tmpName_def)
    with n show ?thesis by simp
  qed
qed

lemma publish_step:
  fixes st :: shell and x sha :: string and F :: file_system
  defines "rel \<equiv> storeDir x @ [sha]"
  assumes inv: "published F rel srcOf S (files st)" and new: "m \<notin> S" and vis: "visible m" "\<And>k. k \<in> S \<Longrightarrow> visible k"
    and V: "vars st ''REL'' = rel" "vars st ''ADDONS'' = addonsDir"
    and args: "map (argValue (vars st)) args = [[m], srcOf m]"
    and src: "look F (srcOf m) = Some Directory" "prefix [''tmp''] (srcOf m)"
    and place: "look F (rel @ [m]) \<in> {None, Some Directory}" "look F (addonsDir @ [tmpName m]) \<noteq> Some Directory"
  obtains st' where "exec R (Call ''publish'' publishBody args) st = (Running, st')"
    and "kept [''name'', ''src'', ''target''] st st'" and "published F rel srcOf (insert m S) (files st')"
    and "goes (linksMoved F rel srcOf (insert m S)) st st'"
proof -
  let ?G = "files st" and ?A = "\<lambda>T. \<Union>m\<in>T. publishArea F rel m"
  have rel: "prefix releasesDir (rel @ q)" for q by (simp add: rel_def storeDir_def)
  from inv have ag: "agrees (?A S) F ?G" by (simp add: published_def)
  have area: "d \<in> publishArea F rel k \<Longrightarrow> prefix addonsDir d" for d k
    using rel [of "[]"] by (auto simp: publishArea_def releasesDir_def split: if_splits dest: append_prefixD)
  have source: "look ?G (srcOf m @ q) = look F (srcOf m @ q)" for q
  proof (rule agrees_look [OF ag])
    fix d assume "d \<in> ?A S"
    then have "prefix addonsDir d" using area by blast
    then show "\<not> prefix d (srcOf m @ q)"
      using src(2) by (auto simp: addonsDir_def prefix_def)
  qed
  have part: "k \<noteq> partialName j" if "visible k" for k j
    using that by (auto simp: visible_Cons partialName_def)
  have pinj: "partialName j = partialName k \<longleftrightarrow> j = k" and tinj: "tmpName j = tmpName k \<longleftrightarrow> j = k" for j k
    by (simp_all add: partialName_def tmpName_def)
  have notmp: "tmpName j \<notin> S" for j
    using vis(2) [of "tmpName j"] by (auto simp: visible_Cons tmpName_def)
  have store: "look ?G (rel @ m # q) = look F (rel @ m # q)" for q
    by (rule agrees_look [OF ag], rule store_outside [OF vis(2)])
      (use rel [of "m # q"] new part [OF vis(1)] in \<open>auto simp: prefix_append\<close>)
  have temp: "look ?G (addonsDir @ [tmpName m]) = look F (addonsDir @ [tmpName m])"
    by (rule agrees_look [OF ag], rule entry_outside) (use rel [of "[]"] new notmp in \<open>auto simp: tinj\<close>)
  have entry: "look ?G (addonsDir @ [m]) = look F (addonsDir @ [m])"
    by (rule agrees_look [OF ag], rule entry_outside)
      (use rel [of "[]"] new vis(1) in \<open>auto simp: tmpName_def visible_Cons\<close>)
  have "\<not> prefix rel (srcOf m)" "\<not> prefix (srcOf m) rel"
    using src(2) by (auto simp: rel_def storeDir_def releasesDir_def addonsDir_def prefix_def)
  moreover have "look ?G (srcOf m) = Some Directory" using source [of "[]"] src(1) by simp
  moreover have "look ?G (rel @ [m]) \<in> {None, Some Directory}" "look ?G (addonsDir @ [tmpName m]) \<noteq> Some Directory"
    using place store [of "[]"] temp by simp_all
  ultimately obtain st' where run: "exec R (Call ''publish'' publishBody args) st = (Running, st')"
    and kept: "kept [''name'', ''src'', ''target''] st st'"
    and link: "look (files st') (addonsDir @ [m]) = Some (Link (rel @ [m]))"
    and tmp: "look (files st') (addonsDir @ [tmpName m]) = None"
    and copy: "\<And>q. look (files st') (rel @ m # q) =
       (if look ?G (rel @ [m]) \<noteq> None then look ?G (rel @ m # q) else copyOf ?G (srcOf m) q)"
    and w: "within {addonsDir @ [m], addonsDir @ [tmpName m], rel @ [m], rel @ [partialName m]} st st'"
    and g: "goes (\<lambda>G. \<forall>t. look G (addonsDir @ [m]) = Some (Link t) \<longrightarrow> look ?G (addonsDir @ [m]) = Some (Link t)
           \<or> t = rel @ [m] \<and> (\<forall>q. look G (rel @ m # q) = look (files st') (rel @ m # q))) st st'"
    and w': "look ?G (rel @ [m]) \<noteq> None \<Longrightarrow> within {addonsDir @ [m], addonsDir @ [tmpName m]} st st'"
    using publish_run [OF V(1) [unfolded rel_def] V(2) args _ _ _ _ _ vis(1), folded rel_def] by blast
  have copy': "look (files st') (rel @ m # q) = publishedAs F rel srcOf m q" for q
    using store [of q] store [of "[]"] source by (simp add: copy publishedAs_def copyOf_def)
  have W: "within (publishArea F rel m) st st'"
    using w w' store [of "[]"] by (auto simp: publishArea_def insert_commute)
  have new_area: "agrees (?A (insert m S)) F G" if "agrees (publishArea F rel m) ?G G" for G
    by (rule agrees_trans [OF agrees_mono [OF ag] agrees_mono [OF that]]) auto
  have others: "look G (addonsDir @ [n]) = look ?G (addonsDir @ [n])" "look G (rel @ n # q) = look ?G (rel @ n # q)"
    if G: "agrees (publishArea F rel m) ?G G" and n: "n \<noteq> m" "visible n" for G n q
  proof -
    have "n \<noteq> tmpName m" using n(2) by (auto simp: visible_Cons tmpName_def)
    then show "look G (addonsDir @ [n]) = look ?G (addonsDir @ [n])"
      using entry_outside [of rel n "{m}" _ F] rel [of "[]"] n by (intro agrees_look [OF G]) auto
    have "\<not> prefix (rel @ [k]) (rel @ n # q)" if "k = m \<or> k = partialName m" for k
      using that n part [OF n(2)] by (auto simp: prefix_append)
    then show "look G (rel @ n # q) = look ?G (rel @ n # q)"
      using store_outside [of "{m}" "rel @ n # q" F rel] rel vis(1) by (intro agrees_look [OF G]) auto
  qed
  have "published F rel srcOf (insert m S) (files st')"
  proof -
    have "look (files st') (addonsDir @ [tmpName k]) = look ?G (addonsDir @ [tmpName k])" if "k \<in> S" for k
    proof -
      have "tmpName k \<noteq> m" using vis(1) by (auto simp: visible_Cons tmpName_def)
      moreover have "k \<noteq> m" using that new by auto
      ultimately show ?thesis
        using entry_outside [of rel "tmpName k" "{m}" _ F] rel [of "[]"]
        by (intro agrees_look [OF within_files [OF W]]) (auto simp: tinj)
    qed
    then show ?thesis
      using inv new_area [OF within_files [OF W]] link tmp copy' others [OF within_files [OF W]] vis new
      unfolding published_def by (metis insert_iff)
  qed
  moreover have "goes (linksMoved F rel srcOf (insert m S)) st st'"
  proof (rule goes_mono [OF goes_conj [OF g W [unfolded within_def]]])
    fix G assume G: "(\<forall>t. look G (addonsDir @ [m]) = Some (Link t) \<longrightarrow> look ?G (addonsDir @ [m]) = Some (Link t)
           \<or> t = rel @ [m] \<and> (\<forall>q. look G (rel @ m # q) = look (files st') (rel @ m # q))) \<and> agrees (publishArea F rel m) ?G G"
    have moved: "linksMoved F rel srcOf S ?G" by (rule linksMoved_published [OF inv]) (use rel [of "[]"] in simp)
    show "linksMoved F rel srcOf (insert m S) G"
      unfolding linksMoved_def
    proof (intro conjI allI impI)
      show "agrees (?A (insert m S)) F G" using G new_area by blast
      fix n t assume n: "visible n \<and> look G (addonsDir @ [n]) = Some (Link t)"
      show "look F (addonsDir @ [n]) = Some (Link t)
          \<or> n \<in> insert m S \<and> t = rel @ [n] \<and> (\<forall>q. look G (rel @ n # q) = publishedAs F rel srcOf n q)"
      proof (cases "n = m")
        case True
        with G n entry copy' show ?thesis by auto
      next
        case False
        with n G have link: "look ?G (addonsDir @ [n]) = Some (Link t)" and "look G (rel @ n # q) = look ?G (rel @ n # q)" for q
          using others [of G n] by simp_all
        with linksMovedD [OF moved _ link] n show ?thesis by auto
      qed
    qed
  qed
  ultimately show thesis by (rule that [OF run kept])
qed

lemma linksMoved_mono: "linksMoved F rel srcOf S G \<Longrightarrow> S \<subseteq> T \<Longrightarrow> linksMoved F rel srcOf T G"
  unfolding linksMoved_def
  by (meson UN_mono agrees_mono order_refl subsetD)

definition publishable :: "file_system \<Rightarrow> path \<Rightarrow> (string \<Rightarrow> path) \<Rightarrow> string \<Rightarrow> bool" where
  "publishable F rel srcOf m \<longleftrightarrow>
     visible m \<and> look F (srcOf m) = Some Directory \<and> prefix [''tmp''] (srcOf m)
     \<and> look F (rel @ [m]) \<in> {None, Some Directory} \<and> look F (addonsDir @ [tmpName m]) \<noteq> Some Directory"

lemma publish_loop:
  fixes F :: file_system and x sha :: string
  defines "rel \<equiv> storeDir x @ [sha]"
  assumes "published F rel (\<lambda>m. sd @ [m]) S (files st)" and "distinct ms" and "set ms \<inter> S = {}"
    and "\<forall>m \<in> set ms \<union> S. publishable F rel (\<lambda>m. sd @ [m]) m"
    and "vars st ''REL'' = rel" "vars st ''ADDONS'' = addonsDir"
  shows "\<exists>st'. iterate (\<lambda>l st'. execs R
        [Call ''publish'' publishBody [Dq (pathVar ''name''), Dq [Abs sd, Part [NameVar ''name'']]]] (setVar ''name'' [l] st')) ms st
      = (Running, st')
    \<and> kept [''name'', ''src'', ''target''] st st' \<and> published F rel (\<lambda>m. sd @ [m]) (S \<union> set ms) (files st')
    \<and> goes (linksMoved F rel (\<lambda>m. sd @ [m]) (S \<union> set ms)) st st'"
  using assms(2-)
proof (induction ms arbitrary: S st)
  case Nil
  then show ?case by (simp add: kept_def goes_refl)
next
  case (Cons m ms)
  let ?srcOf = "\<lambda>m. sd @ [m]" and ?args = "[Dq (pathVar ''name''), Dq [Abs sd, Part [NameVar ''name'']]]"
  let ?st = "setVar ''name'' [m] st"
  have m: "publishable F rel ?srcOf m" and new: "m \<notin> S" using Cons.prems by auto
  have vis: "\<And>k. k \<in> S \<Longrightarrow> visible k" using Cons.prems by (simp add: publishable_def)
  have args: "map (argValue (vars ?st)) ?args = [[m], ?srcOf m]" by simp
  have inv: "published F rel ?srcOf S (files ?st)" and V: "vars ?st ''REL'' = rel" "vars ?st ''ADDONS'' = addonsDir"
    using Cons.prems by simp_all
  obtain st1 where run: "exec R (Call ''publish'' publishBody ?args) ?st = (Running, st1)"
    and kept: "kept [''name'', ''src'', ''target''] ?st st1" and pub: "published F rel ?srcOf (insert m S) (files st1)"
    and g: "goes (linksMoved F rel ?srcOf (insert m S)) ?st st1"
    using publish_step [OF inv [unfolded rel_def] new _ vis V [unfolded rel_def] args, folded rel_def, of R] m
    unfolding publishable_def by blast
  have "vars st1 ''REL'' = rel" "vars st1 ''ADDONS'' = addonsDir"
    using kept V by (simp_all add: kept_def)
  moreover have "distinct ms" "set ms \<inter> insert m S = {}" "\<forall>k \<in> set ms \<union> insert m S. publishable F rel ?srcOf k"
    using Cons.prems by auto
  ultimately obtain st' where run': "iterate (\<lambda>l st'. execs R [Call ''publish'' publishBody ?args] (setVar ''name'' [l] st')) ms st1
      = (Running, st')" and kept': "kept [''name'', ''src'', ''target''] st1 st'"
    and pub': "published F rel ?srcOf (insert m S \<union> set ms) (files st')"
    and g': "goes (linksMoved F rel ?srcOf (insert m S \<union> set ms)) st1 st'"
    using Cons.IH [OF pub] by blast
  have eq: "S \<union> set (m # ms) = insert m S \<union> set ms" by auto
  have "iterate (\<lambda>l st'. execs R [Call ''publish'' publishBody ?args] (setVar ''name'' [l] st')) (m # ms) st = (Running, st')"
    using run run' by (simp del: exec.simps(26))
  moreover have "kept [''name'', ''src'', ''target''] st st'"
    using kept kept' by (auto simp: kept_def)
  moreover have "goes (linksMoved F rel ?srcOf (insert m S)) st st1"
    using g by (rule goes_here) simp_all
  then have "goes (linksMoved F rel ?srcOf (insert m S \<union> set ms)) st st'"
    by (rule goes_trans [OF goes_mono g']) (auto elim: linksMoved_mono)
  ultimately show ?case using pub' unfolding eq by blast
qed

definition sourceOf :: "syncSpec \<Rightarrow> string \<Rightarrow> path" where
  "sourceOf s m = (if ssSingleAddon s then repoDir else sourceDir s @ [m])"

lemma publishProgram_run:
  fixes st :: shell and x sha :: string
  defines "rel \<equiv> storeDir x @ [sha]" and "F \<equiv> files st"
  assumes ms: "linesOf F modulesScratch = ms" "distinct ms" "ssSingleAddon s \<Longrightarrow> ms = [ssModuleName s]"
    and ok: "\<forall>m \<in> set ms. publishable F rel (sourceOf s) m"
    and V: "vars st ''REL'' = rel" "vars st ''ADDONS'' = addonsDir" "vars st ''MODLIST'' = modulesScratch"
  obtains st' where "execs R (publishProgram s) st = (Running, st')" and "kept [''name'', ''src'', ''target''] st st'"
    and "published F rel (sourceOf s) (set ms) (files st')" and "goes (linksMoved F rel (sourceOf s) (set ms)) st st'"
proof (cases "ssSingleAddon s")
  case True
  let ?m = "ssModuleName s"
  have inv: "published F rel (sourceOf s) {} (files st)" by (simp add: published_def F_def)
  have args: "map (argValue (vars st)) [Sq ?m, Bare repoDir] = [[?m], sourceOf s ?m]"
    using True by (simp add: sourceOf_def)
  from ok ms(3) [OF True] have m: "publishable F rel (sourceOf s) ?m" by simp
  obtain st' where "exec R (Call ''publish'' publishBody [Sq ?m, Bare repoDir]) st = (Running, st')"
    "kept [''name'', ''src'', ''target''] st st'" "published F rel (sourceOf s) (set ms) (files st')"
    "goes (linksMoved F rel (sourceOf s) (set ms)) st st'"
    using publish_step [OF inv [unfolded rel_def] _ _ _ V(1,2) [unfolded rel_def] args, folded rel_def, of R] m ms(3) [OF True]
    unfolding publishable_def by auto
  with that True show thesis by (simp add: publishProgram_def del: exec.simps)
next
  case False
  have src: "sourceOf s = (\<lambda>m. sourceDir s @ [m])" using False by (simp add: sourceOf_def fun_eq_iff)
  have inv: "published F rel (\<lambda>m. sourceDir s @ [m]) {} (files st)" by (simp add: published_def F_def)
  from publish_loop [OF inv [unfolded rel_def] ms(2), of R] ok V
  show thesis
    using False that V ms(1) unfolding src rel_def [symmetric]
    by (auto simp: publishProgram_def F_def)
qed

section \<open>Stale links\<close>

definition pointsInto :: "file_system \<Rightarrow> path \<Rightarrow> path \<Rightarrow> bool" where
  "pointsInto F root p \<longleftrightarrow> (case look F p of Some (Link t) \<Rightarrow> strict_prefix root t | _ \<Rightarrow> False)"

definition staleBody :: "sh list" where
  "staleBody =
     [OrContinue (NotEmpty (pathVar ''old'')),
      IfContinue (Listed (pathVar ''old'') (pathVar ''MODLIST'')),
      SetWord ''target'' (inAddons [NameVar ''old'']),
      IfThen (IsLink (pathVar ''target''))
        [CaseOf (LinkSubject (pathVar ''target'')) [InlineArm (pathVar ''RELROOT'') (RmF (pathVar ''target''))]]]"

definition isStale :: "file_system \<Rightarrow> path \<Rightarrow> string \<Rightarrow> bool" where
  "isStale F root n \<longleftrightarrow> n \<noteq> '''' \<and> n \<notin> set (linesOf F modulesScratch) \<and> pointsInto F root (addonsDir @ [n])"

lemma staleBody_run:
  assumes V: "vars st ''ADDONS'' = addonsDir" "vars st ''RELROOT'' = root" "vars st ''MODLIST'' = modulesScratch"
  shows "execs R staleBody (setVar ''old'' [n] st) =
    (if n = '''' \<or> n \<in> set (linesOf (files st) modulesScratch) then (Continuing, setVar ''old'' [n] st)
     else let st1 = setVar ''target'' (addonsDir @ [n]) (setVar ''old'' [n] st) in
       (Running, if isStale (files st) root n then doCalls [Unlink (addonsDir @ [n])] st1 else st1))"
proof (cases "n = '''' \<or> n \<in> set (linesOf (files st) modulesScratch)")
  case False
  then show ?thesis
    using V by (cases "look (files st) (addonsDir @ [n])")
      (auto simp: staleBody_def Let_def isStale_def pointsInto_def isSymlink_iff subjectValue_def linkTarget_def
        runUtility_def rmF_def split: node.splits)
qed (use V in \<open>auto simp: staleBody_def\<close>)

definition staleArea :: "string list \<Rightarrow> path set" where
  "staleArea ns = (\<lambda>n. addonsDir @ [n]) ` set ns"

text \<open>A state in which some entries are gone and nothing else has changed.\<close>

definition onlyRemoved :: "file_system \<Rightarrow> file_system \<Rightarrow> bool" where
  "onlyRemoved F G \<longleftrightarrow> (\<forall>q. look G q = look F q \<or> look G q = None)"

lemma stale_loop:
  assumes "vars st ''ADDONS'' = addonsDir" "vars st ''RELROOT'' = root" "vars st ''MODLIST'' = modulesScratch"
    and "set ns \<subseteq> set prev"
  shows "\<exists>st'. iterate (\<lambda>l st'. execs R staleBody (setVar ''old'' [l] st')) ns st = (Running, st')
    \<and> kept [''old'', ''target''] st st' \<and> within (staleArea prev) st st' \<and> goes (onlyRemoved (files st)) st st'
    \<and> (\<forall>q. look (files st') q =
         (if \<exists>n \<in> set ns. q = addonsDir @ [n] \<and> isStale (files st) root n then None else look (files st) q))"
  using assms
proof (induction ns arbitrary: st)
  case Nil
  then show ?case by (auto simp: kept_def goes_refl within_refl)
next
  case (Cons n ns)
  note V = Cons.prems(1-3)
  let ?F = "files st" and ?p = "addonsDir @ [n]"
  define stale where "stale = isStale ?F root n"
  define st1 where "st1 = snd (execs R staleBody (setVar ''old'' [n] st))"
  have not_exit: "\<exists>r. execs R staleBody (setVar ''old'' [n] st) = (r, st1) \<and> (\<forall>k. r \<noteq> Exited k)"
    by (auto simp: st1_def staleBody_run [OF V] Let_def)
  then have run: "iterate (\<lambda>l st'. execs R staleBody (setVar ''old'' [l] st')) (n # ns) st
      = iterate (\<lambda>l st'. execs R staleBody (setVar ''old'' [l] st')) ns st1"
    by (auto split: outcome.split)
  have kept: "kept [''old'', ''target''] st st1"
    by (simp add: st1_def staleBody_run [OF V] Let_def kept_def)
  have files: "files st1 = (if stale then effect (clock st) (Unlink ?p) ?F else ?F)"
    by (auto simp: st1_def staleBody_run [OF V] Let_def stale_def isStale_def)
  have below: "callsBelow ?p [Unlink ?p]" by (simp add: callsBelow_def)
  have area: "?p \<in> staleArea prev" using Cons.prems(4) by (simp add: staleArea_def)
  have step: "\<exists>st0. files st0 = ?F \<and> moments st0 = moments st \<and> (st1 = st0 \<or> st1 = doCalls [Unlink ?p] st0)"
    by (rule exI [of _ "if n = '''' \<or> n \<in> set (linesOf ?F modulesScratch) then setVar ''old'' [n] st
         else setVar ''target'' ?p (setVar ''old'' [n] st)"])
      (simp add: st1_def staleBody_run [OF V] Let_def)
  have w: "within (staleArea prev) st st1"
    using step
  proof (elim exE conjE disjE)
    fix st0 assume "files st0 = ?F" "moments st0 = moments st" "st1 = doCalls [Unlink ?p] st0"
    with within_here [OF within_calls [OF below area, of st0], of st st1] show ?thesis by simp
  qed (simp_all add: within_refl)
  have g: "goes (onlyRemoved ?F) st st1"
    using step
  proof (elim exE conjE disjE)
    fix st0 assume st0: "files st0 = ?F" "moments st0 = moments st" "st1 = doCalls [Unlink ?p] st0"
    have "goes (onlyRemoved ?F) st0 (doCalls [Unlink ?p] st0)"
      by (rule goes_doCalls) (auto simp: le_Suc_eq onlyRemoved_def looks st0)
    with st0 show ?thesis using goes_here [of _ st0 st1 st st1] by simp
  qed (simp_all add: goes_refl)
  have V1: "vars st1 ''ADDONS'' = addonsDir" "vars st1 ''RELROOT'' = root" "vars st1 ''MODLIST'' = modulesScratch"
    using kept V by (simp_all add: kept_def)
  obtain st' where run': "iterate (\<lambda>l st'. execs R staleBody (setVar ''old'' [l] st')) ns st1 = (Running, st')"
    and kept': "kept [''old'', ''target''] st1 st'" and w': "within (staleArea prev) st1 st'"
    and g': "goes (onlyRemoved (files st1)) st1 st'"
    and l': "\<And>q. look (files st') q =
         (if \<exists>n \<in> set ns. q = addonsDir @ [n] \<and> isStale (files st1) root n then None else look (files st1) q)"
    using Cons.IH [OF V1] Cons.prems(4) by auto
  have l1: "look (files st1) q = (if stale \<and> q = ?p then None else look ?F q)" for q
    by (simp add: files looks)
  have "linesOf (files st1) modulesScratch = linesOf ?F modulesScratch"
    by (simp add: linesOf_def l1 addonsDir_def modulesScratch_def)
  then have stale1: "isStale (files st1) root k \<longleftrightarrow> isStale ?F root k \<and> \<not> (stale \<and> k = n)" for k
    by (auto simp: isStale_def pointsInto_def l1)
  have "look (files st') q = (if \<exists>k \<in> set (n # ns). q = addonsDir @ [k] \<and> isStale ?F root k then None else look ?F q)" for q
    by (auto simp: l' l1 stale1 stale_def)
  moreover have "goes (onlyRemoved ?F) st1 st'"
    using g' by (rule goes_mono) (metis l1 onlyRemoved_def)
  ultimately show ?case
    using run run' kept_trans [OF kept kept'] within_trans [OF w w'] goes_trans [OF g] by auto
qed

end
