(* ===== verification/Sync_Run.thy ===== *)
theory Sync_Run
  imports Sync_Volume
begin

text \<open>
  The remaining pieces of the sync script (fetch, discovery, conflict check, bookkeeping, pruning), the whole
  run, and the cleanup run.
\<close>

section \<open>Conflicts\<close>

definition conflicting :: "file_system \<Rightarrow> path \<Rightarrow> string \<Rightarrow> bool" where
  "conflicting F root n =
     (pointsInto F releasesDir (addonsDir @ [n]) \<and> \<not> pointsInto F root (addonsDir @ [n]))"

definition conflictBody :: "sh list" where
  "conflictBody =
     [SetWord ''target'' (inAddons [NameVar ''name'']),
      IfThen (IsLink (pathVar ''target''))
        [SetLink ''dest'' (pathVar ''target''),
         CaseOf (VarSubject ''dest'')
           [BlockArm (inAddons [Text syncReleasesDir])
              [CaseOf (VarSubject ''dest'')
                 [SkipArm (pathVar ''RELROOT''),
                  ElseArm
                    [StripPrefix ''other'' ''dest'' (inAddons [Text syncReleasesDir]),
                     FirstPart ''other'',
                     Echo (''module $name '' @ addonModuleConflictMarker @ '' $other''),
                     ExitOne]]]]]]"

lemma conflictBody_run:
  assumes V: "vars st ''ADDONS'' = addonsDir" "vars st ''RELROOT'' = root"
  obtains st' where "execs R conflictBody (setVar ''name'' [n] st) =
      (if conflicting (files st) root n then Exited 1 else Running, st')"
    and "kept [''name'', ''target'', ''dest'', ''other''] st st'" "files st' = files st" "moments st' = moments st"
proof (cases "\<exists>t. look (files st) (addonsDir @ [n]) = Some (Link t)")
  case False
  let ?st = "setVar ''target'' (addonsDir @ [n]) (setVar ''name'' [n] st)"
  from False have "execs R conflictBody (setVar ''name'' [n] st) = (Running, ?st)" and "\<not> conflicting (files st) root n"
    using V by (auto simp: conflictBody_def isSymlink_iff conflicting_def pointsInto_def split: option.splits node.splits)
  then show thesis by (intro that [of ?st]) (auto simp: kept_def)
next
  case True
  then obtain t where t: "look (files st) (addonsDir @ [n]) = Some (Link t)" by blast
  let ?st = "setVar ''dest'' t (setVar ''target'' (addonsDir @ [n]) (setVar ''name'' [n] st))"
  let ?other = "setVar ''other'' (drop (length releasesDir) t) ?st"
  let ?final = "if conflicting (files st) root n then setVar ''other'' (take 1 (drop (length releasesDir) t)) ?other else ?st"
  have "execs R conflictBody (setVar ''name'' [n] st) = (if conflicting (files st) root n then Exited 1 else Running, ?final)"
    using V t by (simp add: conflictBody_def isSymlink_iff linkTarget_def conflicting_def pointsInto_def subjectValue_def
        releasesDir_def Let_def)
  then show thesis by (rule that) (simp_all add: kept_def)
qed

lemma conflictLoop_exec:
  "exec R conflictLoop st =
     iterate (\<lambda>l st'. execs R conflictBody (setVar ''name'' [l] st')) (linesOf (files st) (vars st ''MODLIST'')) st"
  by (simp add: conflictLoop_def conflictBody_def)

lemma conflict_iterate:
  assumes "vars st ''ADDONS'' = addonsDir" "vars st ''RELROOT'' = root"
  shows "\<exists>st'. iterate (\<lambda>l st'. execs R conflictBody (setVar ''name'' [l] st')) ms st =
      (if \<exists>n \<in> set ms. conflicting (files st) root n then Exited 1 else Running, st')
    \<and> kept [''name'', ''target'', ''dest'', ''other''] st st' \<and> files st' = files st \<and> moments st' = moments st"
  using assms
proof (induction ms arbitrary: st)
  case (Cons n ms)
  obtain st1 where run: "execs R conflictBody (setVar ''name'' [n] st) =
      (if conflicting (files st) root n then Exited 1 else Running, st1)"
    and st1: "kept [''name'', ''target'', ''dest'', ''other''] st st1" "files st1 = files st" "moments st1 = moments st"
    using conflictBody_run [OF Cons.prems] by blast
  have "vars st1 ''ADDONS'' = addonsDir" "vars st1 ''RELROOT'' = root"
    using st1(1) Cons.prems by (simp_all add: kept_def)
  from Cons.IH [OF this] st1 obtain st' where
    "iterate (\<lambda>l st'. execs R conflictBody (setVar ''name'' [l] st')) ms st1 =
      (if \<exists>n \<in> set ms. conflicting (files st) root n then Exited 1 else Running, st')"
    "kept [''name'', ''target'', ''dest'', ''other''] st1 st'" "files st' = files st" "moments st' = moments st"
    by auto
  then show ?case using run st1 kept_trans [OF st1(1)] by auto
qed (simp add: kept_def)

section \<open>Bookkeeping and pruning\<close>

lemma recordProgram_run:
  fixes st :: shell and x :: string
  defines "F \<equiv> files st" and "root \<equiv> storeDir x"
  assumes V: "vars st ''MODLIST'' = modulesScratch" "vars st ''RELROOT'' = root"
    and ms: "look F modulesScratch = Some (File ms)"
    and place: "\<And>d. look F (root @ [syncModulesFile]) = Some d \<Longrightarrow> \<exists>ls. d = File ls"
      "\<And>d. look F (root @ [syncModulesFile @ ''.tmp'']) = Some d \<Longrightarrow> \<exists>ls. d = File ls"
  obtains st' where "execs R recordProgram st = (Running, st')" and "kept [] st st'"
    and "look (files st') (root @ [syncModulesFile]) = Some (File ms)"
    and "within {root @ [syncModulesFile], root @ [syncModulesFile @ ''.tmp'']} st st'"
    and "\<And>q. look (files st') q = (if q = root @ [syncModulesFile] then Some (File ms)
       else if prefix (root @ [syncModulesFile]) q then look F (root @ (syncModulesFile @ ''.tmp'') # drop (length root + 1) q)
       else if prefix (root @ [syncModulesFile @ ''.tmp'']) q then None else look F q)"
proof -
  let ?t = "root @ [syncModulesFile @ ''.tmp'']" and ?m = "root @ [syncModulesFile]"
  have not_dir: "\<not> isDirectory F p" if "\<And>d. look F p = Some d \<Longrightarrow> \<exists>ls. d = File ls" for p
    using that by (cases "look F p") (auto simp: isDirectory_def numeral_eq_Suc)
  define st1 where "st1 = doCalls [Make ?t (File ms)] st"
  define st2 where "st2 = doCalls [Rename ?t ?m] st1"
  have l1: "look (files st1) q = (if q = ?t then Some (File ms) else look F q)" for q
    by (simp add: st1_def F_def looks)
  have "\<not> isDirectory (files st1) ?m"
    using not_dir [OF place(1)] place(1) l1 [of ?m] by (cases "look F ?m") (auto simp: isDirectory_def numeral_eq_Suc)
  moreover have "look (files st1) ?m = None \<or> (\<exists>ls. look (files st1) ?m = Some (File ls))"
    using place(1) l1 [of ?m] by (cases "look F ?m") auto
  ultimately have "mv ?t ?m (files st1) = Some [Rename ?t ?m]"
    by (auto simp: mv_def mvT_def l1)
  then have run: "execs R recordProgram st = (Running, st2)"
    using V ms not_dir [OF place(2)]
    by (simp add: recordProgram_def runUtility_def cpFile_def F_def st1_def st2_def del: prefix_snoc)
  show thesis
  proof (rule that [OF run])
    have "callsBelow ?t [Make ?t (File ms)]" by (simp add: callsBelow_def)
    then show "within {?m, ?t} st st2"
      unfolding st1_def st2_def
      by (intro within_trans [OF within_calls within_rename]) auto
    show "look (files st2) q = (if q = ?m then Some (File ms)
       else if prefix ?m q then look F (root @ (syncModulesFile @ ''.tmp'') # drop (length root + 1) q)
       else if prefix ?t q then None else look F q)" for q
      by (auto simp: st2_def l1 looks moved_def prefix_def)
  qed (simp_all add: st2_def st1_def kept_def looks moved_def)
qed

lemma newest_first_kept:
  assumes "look F (d @ [n]) \<noteq> None" and "\<not> prefix ''.'' n"
    and "\<And>k. look F (d @ [k]) \<noteq> None \<Longrightarrow> \<not> prefix ''.'' k \<Longrightarrow> k \<noteq> n \<Longrightarrow> fsTimes F (d @ [k]) < fsTimes F (d @ [n])"
  shows "n \<notin> set (drop 2 (newestFirst d F))"
proof -
  let ?f = "\<lambda>k. fsTimes F (d @ [k])" and ?xs = "newestFirst d F"
  have set: "k \<in> set ?xs \<longleftrightarrow> look F (d @ [k]) \<noteq> None \<and> \<not> prefix ''.'' k" for k
    by (simp add: newestFirst_def in_entryNames)
  have "distinct ?xs" by (simp add: newestFirst_def distinct_entryNames)
  moreover have "sorted (map ?f (rev ?xs))" by (simp add: newestFirst_def)
  moreover from assms set have "n \<in> set ?xs" by simp
  ultimately show ?thesis
  proof (cases ?xs)
    case (Cons y ys)
    have "y = n"
    proof (rule ccontr)
      assume "y \<noteq> n"
      with Cons \<open>n \<in> set ?xs\<close> have "n \<in> set ys" by simp
      with \<open>sorted (map ?f (rev ?xs))\<close> Cons have "?f n \<le> ?f y" by (auto simp: sorted_append)
      moreover have "?f y < ?f n" using assms(3) [of y] set [of y] Cons \<open>y \<noteq> n\<close> by simp
      ultimately show False by simp
    qed
    with \<open>distinct ?xs\<close> Cons show ?thesis by (cases ys) (auto dest: in_set_dropD)
  qed simp
qed

lemma prune_iterate:
  assumes "vars st ''RELROOT'' = root" and "set ns \<subseteq> N"
  shows "\<exists>st'. iterate (\<lambda>n st'. runUtility (RmRf (inRelRoot [NameVar ''old''])) (setVar ''old'' [n] st')) ns st = (Running, st')
    \<and> kept [''old''] st st' \<and> within ((\<lambda>n. root @ [n]) ` N) st st'
    \<and> (\<forall>q. look (files st') q = (if \<exists>n \<in> set ns. prefix (root @ [n]) q then None else look (files st) q))"
  using assms
proof (induction ns arbitrary: st)
  case (Cons n ns)
  let ?D = "(\<lambda>n. root @ [n]) ` N"
  define st1 where "st1 = doCalls (rmRf (root @ [n]) (files st)) (setVar ''old'' [n] st)"
  have run: "runUtility (RmRf (inRelRoot [NameVar ''old''])) (setVar ''old'' [n] st) = (Running, st1)"
    using Cons.prems by (simp add: runUtility_def st1_def)
  have kept: "kept [''old''] st st1" by (simp add: kept_def st1_def)
  then have "vars st1 ''RELROOT'' = root" using Cons.prems by (simp add: kept_def)
  from Cons.IH [OF this] Cons.prems(2) obtain st' where
    run': "iterate (\<lambda>n st'. runUtility (RmRf (inRelRoot [NameVar ''old''])) (setVar ''old'' [n] st')) ns st1 = (Running, st')"
    and kept': "kept [''old''] st1 st'" and w': "within ?D st1 st'"
    and l': "\<And>q. look (files st') q = (if \<exists>n \<in> set ns. prefix (root @ [n]) q then None else look (files st1) q)"
    by auto
  have "within ?D (setVar ''old'' [n] st) st1"
    unfolding st1_def using Cons.prems(2) by (intro within_calls [OF rmRf_below]) auto
  then have "within ?D st st1" by (rule within_here) simp_all
  moreover have "look (files st1) q = (if prefix (root @ [n]) q then None else look (files st) q)" for q
    by (simp add: st1_def looks)
  ultimately show ?case
    using run run' l' kept_trans [OF kept kept'] within_trans [OF _ w'] by auto
qed (simp add: kept_def within_refl)

lemma pruneProgram_run:
  assumes V: "vars st ''RELROOT'' = root"
  obtains st' where "exec R pruneProgram st = (Running, st')" and "kept [] st st'"
    and "within ((\<lambda>n. root @ [n]) ` set (drop 2 (newestFirst root (files st)))) st st'"
    and "\<And>q. look (files st') q =
      (if \<exists>n \<in> set (drop 2 (newestFirst root (files st))). prefix (root @ [n]) q then None else look (files st) q)"
proof -
  from prune_iterate [OF V order_refl, of "drop 2 (newestFirst root (files st))"] obtain st' where
    run: "iterate (\<lambda>n st'. runUtility (RmRf (inRelRoot [NameVar ''old''])) (setVar ''old'' [n] st'))
      (drop 2 (newestFirst root (files st))) st = (Running, st')"
    and st': "kept [''old''] st st'" "within ((\<lambda>n. root @ [n]) ` set (drop 2 (newestFirst root (files st)))) st st'"
      "\<And>q. look (files st') q =
        (if \<exists>n \<in> set (drop 2 (newestFirst root (files st))). prefix (root @ [n]) q then None else look (files st) q)"
    by blast
  show thesis
  proof (rule that [of "st'\<lparr>vars := vars st\<rparr>"])
    show "exec R pruneProgram st = (Running, st'\<lparr>vars := vars st\<rparr>)"
      using run V by (simp add: pruneProgram_def inSubshell_def)
    show "within ((\<lambda>n. root @ [n]) ` set (drop 2 (newestFirst root (files st)))) st (st'\<lparr>vars := vars st\<rparr>)"
      using st'(2) by (rule within_here) simp_all
  qed (use st' in \<open>simp_all add: kept_def\<close>)
qed

section \<open>The release directory\<close>

definition releasePath :: "string \<Rightarrow> string \<Rightarrow> path set" where
  "releasePath x sha = {releasesDir, storeDir x, storeDir x @ [sha]}"

lemma mkdir_release:
  fixes st :: shell and x sha :: string
  defines "F \<equiv> files st" and "rel \<equiv> storeDir x @ [sha]"
  assumes V: "vars st ''REL'' = rel" and shape: "volumeShape F0" and vis: "visible sha"
    and same: "\<And>q. \<not> prefix [''tmp''] q \<Longrightarrow> look F q = look F0 q"
  obtains st' where "exec R (Run (MkdirP (pathVar ''REL''))) st = (Running, st')" and "kept [] st st'"
    and "\<And>q. look (files st') q = (if q \<in> releasePath x sha \<and> look F q = None then Some Directory else look F q)"
    and "goes (\<lambda>G. (\<forall>q. q \<notin> releasePath x sha \<longrightarrow> look G q = look F q \<and> (q \<noteq> addonsDir \<longrightarrow> fsTimes G q = fsTimes F q))
        \<and> (\<forall>q. look G q = look F q \<or> look F q = None)) st st'"
proof -
  define ps where "ps = filter (\<lambda>q. look F q = None) [releasesDir, storeDir x, rel]"
  have prefixes: "map (\<lambda>n. take (Suc n) rel) [0..<length rel]
      = [[''mnt''], [''mnt'', ''odoo''], addonsDir, releasesDir, storeDir x, rel]"
    by (simp add: rel_def storeDir_def releasesDir_def addonsDir_def upt_rec numeral_eq_Suc)
  have dirs: "look F [''mnt''] = Some Directory" "look F [''mnt'', ''odoo''] = Some Directory"
      "look F addonsDir = Some Directory"
    using volumeShapeD(1-3) [OF shape] by (simp_all add: same addonsDir_def)
  have ok: "look F q = None \<or> isDirectory F q" if "q \<in> {releasesDir, storeDir x, rel}" for q
  proof -
    have "look F q = look F0 q"
      using that by (intro same) (auto simp: rel_def storeDir_def releasesDir_def addonsDir_def)
    moreover have "look F0 q = Some d \<Longrightarrow> d = Directory" for d
      using that volumeShapeD(4) [OF shape] volumeShapeD(5) [OF shape, of x] volumeShapeD(6) [OF shape vis, of x]
      by (auto simp: rel_def)
    ultimately show ?thesis by (cases "look F q") (auto intro: isDirectory_Directory)
  qed
  have "mkdirP rel F = Some (map (\<lambda>q. Make q Directory) ps)"
    unfolding mkdirP_def prefixes Let_def ps_def using ok dirs by (simp add: isDirectory_Directory)
  then have run: "exec R (Run (MkdirP (pathVar ''REL''))) st = (Running, doCalls (map (\<lambda>q. Make q Directory) ps) st)"
    using V by (simp add: runUtility_def F_def)
  have look: "look (effects now (map (\<lambda>q. Make q Directory) ps) G) q = (if q \<in> set ps then Some Directory else look G q)"
    for now ps q G by (induction ps arbitrary: now G) (auto simp: looks)
  have times: "fsTimes (effects now (map (\<lambda>q. Make q Directory) ps) G) q = fsTimes G q"
    if "q \<notin> set ps" "q \<notin> butlast ` set ps" for now ps q G
    using that by (induction ps arbitrary: now G) (auto simp: times_effect)
  have sub: "set (take n ps) \<subseteq> releasePath x sha" for n
    by (auto simp: releasePath_def rel_def ps_def dest!: in_set_takeD)
  have none: "q \<in> set (take n ps) \<Longrightarrow> look F q = None" for n q
    by (drule in_set_takeD) (simp only: ps_def set_filter mem_Collect_eq)
  have butl: "butlast ` set (take n ps) \<subseteq> insert addonsDir (releasePath x sha)" for n
    by (auto simp: releasePath_def rel_def storeDir_def releasesDir_def butlast_append ps_def dest!: in_set_takeD)
  show thesis
  proof (rule that [OF run])
    show "look (files (doCalls (map (\<lambda>q. Make q Directory) ps) st)) q =
      (if q \<in> releasePath x sha \<and> look F q = None then Some Directory else look F q)" for q
      by (auto simp: look F_def [symmetric] releasePath_def rel_def ps_def)
    show "goes (\<lambda>G. (\<forall>q. q \<notin> releasePath x sha \<longrightarrow> look G q = look F q \<and> (q \<noteq> addonsDir \<longrightarrow> fsTimes G q = fsTimes F q))
        \<and> (\<forall>q. look G q = look F q \<or> look F q = None)) st (doCalls (map (\<lambda>q. Make q Directory) ps) st)"
    proof (rule goes_doCalls, intro conjI allI impI)
      fix n q
      show "look (effects (clock st) (take n (map (\<lambda>q. Make q Directory) ps)) (files st)) q = look F q \<or> look F q = None"
        using none by (auto simp: take_map look F_def [symmetric])
      assume q: "q \<notin> releasePath x sha"
      then show "look (effects (clock st) (take n (map (\<lambda>q. Make q Directory) ps)) (files st)) q = look F q"
        using sub [of n] by (auto simp: take_map look F_def [symmetric])
      assume "q \<noteq> addonsDir"
      then show "fsTimes (effects (clock st) (take n (map (\<lambda>q. Make q Directory) ps)) (files st)) q = fsTimes F q"
        using q sub [of n] butl [of n] unfolding take_map F_def [symmetric] by (intro times) auto
    qed
  qed (simp add: kept_def)
qed

section \<open>Discovery\<close>

definition discovered :: "syncSpec \<Rightarrow> file_system \<Rightarrow> string list" where
  "discovered s F =
     (if ssSingleAddon s then [ssModuleName s]
      else filter (\<lambda>n. isRegular F (sourceDir s @ [n, syncManifest]))
        (sort (filter (\<lambda>n. \<not> prefix ''.'' n \<and> isDirectory F (sourceDir s @ [n])) (entryNames (sourceDir s) F))))"

lemma discovered_sorted: "sorted (discovered s F)" and discovered_distinct: "distinct (discovered s F)"
  by (simp_all add: discovered_def sorted_filter distinct_entryNames sorted_wrt_filter)

definition sameButLines :: "path \<Rightarrow> file_system \<Rightarrow> file_system \<Rightarrow> bool" where
  "sameButLines p F G \<longleftrightarrow>
     (\<forall>q. q \<noteq> p \<longrightarrow> look G q = look F q) \<and> (\<exists>a b. look F p = Some (File a) \<and> look G p = Some (File b))"

lemma isRegular_lines: "sameButLines p F G \<Longrightarrow> isRegular G q = isRegular F q"
proof -
  assume same: "sameButLines p F G"
  have "followed n G q = followed n F q \<or> (\<exists>a b. followed n G q = Some (File a) \<and> followed n F q = Some (File b))" for n
  proof (induction n arbitrary: q)
    case (Suc n)
    show ?case
    proof (cases "q = p")
      case False
      with same have "look G q = look F q" by (simp add: sameButLines_def)
      with Suc show ?thesis by (auto split: option.split node.split)
    qed (use same in \<open>auto simp: sameButLines_def\<close>)
  qed simp
  from this [of 41] show ?thesis by (auto simp: isRegular_def simp del: followed.simps)
qed

definition discoverBody :: "sh list" where
  "discoverBody = [IfThen (IsFile [PathVar ''mod'', Part [Text syncManifest]]) [Run (AppendBase (pathVar ''mod'') (pathVar ''MODLIST''))]]"

lemma discover_iterate:
  assumes "vars st ''MODLIST'' = modulesScratch" and "sameButLines modulesScratch F (files st)"
    and "look (files st) modulesScratch = Some (File ls)"
  shows "\<exists>st'. iterate (\<lambda>n st'. execs R discoverBody (setVar ''mod'' (p @ [n]) st')) ns st = (Running, st')
    \<and> kept [''mod''] st st' \<and> within {modulesScratch} st st' \<and> sameButLines modulesScratch F (files st')
    \<and> look (files st') modulesScratch = Some (File (ls @ filter (\<lambda>n. isRegular F (p @ [n, syncManifest])) ns))"
  using assms
proof (induction ns arbitrary: st ls)
  case (Cons n ns)
  let ?st = "setVar ''mod'' (p @ [n]) st" and ?found = "isRegular F (p @ [n, syncManifest])"
  let ?c = "Make modulesScratch (File (ls @ [n]))"
  define st1 where "st1 = (if ?found then doCalls [?c] ?st else ?st)"
  have same: "isRegular (files st) (p @ [n, syncManifest]) \<longleftrightarrow> ?found"
    using Cons.prems(2) by (rule isRegular_lines)
  have run: "execs R discoverBody ?st = (Running, st1)"
    using Cons.prems(1,3) same by (simp add: discoverBody_def st1_def runUtility_def linesOf_def)
  have kept: "kept [''mod''] st st1" by (simp add: kept_def st1_def)
  have lines: "look (files st1) modulesScratch = Some (File (if ?found then ls @ [n] else ls))"
    using Cons.prems(3) by (simp add: st1_def looks)
  have "sameButLines modulesScratch F (files st1)"
    using Cons.prems(2) lines by (auto simp: sameButLines_def st1_def looks)
  moreover have "vars st1 ''MODLIST'' = modulesScratch" using Cons.prems(1) by (simp add: st1_def)
  ultimately obtain st' where
    run': "iterate (\<lambda>n st'. execs R discoverBody (setVar ''mod'' (p @ [n]) st')) ns st1 = (Running, st')"
    and st': "kept [''mod''] st1 st'" "within {modulesScratch} st1 st'" "sameButLines modulesScratch F (files st')"
      "look (files st') modulesScratch = Some (File ((if ?found then ls @ [n] else ls)
         @ filter (\<lambda>n. isRegular F (p @ [n, syncManifest])) ns))"
    using Cons.IH [OF _ _ lines] by blast
  have "within {modulesScratch} ?st st1"
    unfolding st1_def using within_calls [of modulesScratch "[?c]" "{modulesScratch}" ?st]
    by (simp add: callsBelow_def within_refl)
  then have "within {modulesScratch} st st1" by (rule within_here) simp_all
  then show ?case
    using run run' st' kept_trans [OF kept st'(1)] within_trans by auto
qed (simp add: kept_def within_refl)

lemma discoverProgram_run:
  fixes st :: shell
  defines "F \<equiv> files st"
  assumes V: "vars st ''MODLIST'' = modulesScratch" and blank: "look F modulesScratch = Some (File [])"
  obtains st' where "execs R (discoverProgram s) st = (if discovered s F = [] then Exited 1 else Running, st')"
    and "kept [''mod''] st st'" and "within {modulesScratch} st st'"
    and "look (files st') modulesScratch = Some (File (discovered s F))"
    and "\<And>q. q \<noteq> modulesScratch \<Longrightarrow> look (files st') q = look F q"
proof (cases "ssSingleAddon s")
  case True
  let ?st = "doCalls [Make modulesScratch (File [ssModuleName s])] st"
  have run: "execs R (discoverProgram s) st = (if discovered s F = [] then Exited 1 else Running, ?st)"
    using True V by (simp add: discoverProgram_def discovered_def runUtility_def)
  show thesis
    by (rule that [OF run])
      (use True in \<open>simp_all add: kept_def looks discovered_def F_def within_calls [of modulesScratch] callsBelow_def\<close>)
next
  case False
  let ?ns = "sort (filter (\<lambda>n. \<not> prefix ''.'' n \<and> isDirectory F (sourceDir s @ [n])) (entryNames (sourceDir s) F))"
  have "sameButLines modulesScratch F (files st)" using blank by (simp add: sameButLines_def F_def)
  from discover_iterate [OF V this blank [unfolded F_def], of R "sourceDir s" ?ns] obtain st' where
    run: "iterate (\<lambda>n st'. execs R discoverBody (setVar ''mod'' (sourceDir s @ [n]) st')) ?ns st = (Running, st')"
    and st': "kept [''mod''] st st'" "within {modulesScratch} st st'"
      "look (files st') modulesScratch = Some (File (discovered s F))" "sameButLines modulesScratch F (files st')"
    using False by (auto simp: discovered_def)
  have "vars st' ''MODLIST'' = modulesScratch" using st'(1) V by (simp add: kept_def)
  then have "execs R (discoverProgram s) st = (if discovered s F = [] then Exited 1 else Running, st')"
    using False run st'(3) by (simp add: discoverProgram_def discoverBody_def F_def linesOf_def)
  then show thesis using st' by (intro that) (auto simp: sameButLines_def)
qed

section \<open>Up to the first write\<close>

definition initialShell :: "file_system \<Rightarrow> nat \<Rightarrow> shell" where
  "initialShell F now = \<lparr>files = F, vars = (\<lambda>v. []), params = [], clock = now, stdout = [], moments = []\<rparr>"

text \<open>The files after the fetch: the tree of the commit in the scratch directory of the pod.\<close>

definition fetched :: "remote \<Rightarrow> file_system \<Rightarrow> nat \<Rightarrow> file_system" where
  "fetched R F now =
     (case fetchedTree R of None \<Rightarrow> F
      | Some tree \<Rightarrow> effects now (map (\<lambda>e. Make (repoDir @ fst e) (snd e)) tree) F)"

definition checkedOut :: "remote \<Rightarrow> file_system \<Rightarrow> nat \<Rightarrow> file_system" where
  "checkedOut R F now = effect now (Make modulesScratch (File [])) (fetched R F now)"

lemma discovered_cong:
  assumes "\<And>q. look F q = look G q"
  shows "discovered s F = discovered s G"
proof -
  have eq: "look F = look G" using assms by blast
  have fol: "followed n F q = followed n G q" for n q
    by (induction n arbitrary: q) (simp_all add: eq split: option.split node.split)
  have "mset (entryNames d F) = mset (entryNames d G)" for d
    by (subst set_eq_iff_mset_eq_distinct [symmetric]) (auto simp: distinct_entryNames in_entryNames eq)
  then have "sort (filter P (entryNames d F)) = sort (filter P (entryNames d G))" for P d
    by (metis mset_filter properties_for_sort sorted_sort mset_sort)
  then show ?thesis
    by (simp add: discovered_def isRegular_def isDirectory_def fol)
qed

definition frontProgram :: "syncSpec \<Rightarrow> sh list" where
  "frontProgram s =
     map Raw ([''set -e'', ''set +x'', ''export GIT_TERMINAL_PROMPT=0''] @ authLines s)
     @ [Fetch (fetchLines s)] @ manifestProgram s @ setupProgram s @ discoverProgram s
     @ [Run (SortU (pathVar ''MODLIST'')), conflictLoop]"

definition backProgram :: "syncSpec \<Rightarrow> sh list" where
  "backProgram s =
     [IfElse (IsFile (inRelRoot [Text syncModulesFile]))
          (Cp (inRelRoot [Text syncModulesFile]) (pathVar ''PREV'')) (Truncate (pathVar ''PREV'')),
        Run (MkdirP (pathVar ''REL'')), Define ''publish'' publishBody]
     @ publishProgram s @ [Run (Touch (pathVar ''REL'')), staleLoop] @ recordProgram
     @ [pruneProgram, PrintModules (pathVar ''MODLIST''), PrintHead repoDir]"

lemma syncProgram_split: "syncProgram s = frontProgram s @ backProgram s"
  by (simp add: syncProgram_def frontProgram_def backProgram_def)

text \<open>How a sync that writes nothing ends, and when it goes on.\<close>

definition syncOutcome :: "remote \<Rightarrow> syncSpec \<Rightarrow> file_system \<Rightarrow> nat \<Rightarrow> outcome" where
  "syncOutcome R s F now =
     (let F1 = checkedOut R F now in
      if fetchedTree R = None then Exited 128
      else if ssSingleAddon s \<and> \<not> isRegular (fetched R F now) (repoDir @ [syncManifest]) then Exited 1
      else if discovered s F1 = [] then Exited 1
      else if list_ex (conflicting F (storeDir (ssAddonName s))) (discovered s F1) then Exited 1
      else Running)"

lemma execs_raw: "execs R (map Raw ls) st = (Running, st)"
  by (induction ls) simp_all

lemma fetched_outside: "\<not> prefix repoDir q \<Longrightarrow> look (fetched R F now) q = look F q"
proof (cases "fetchedTree R")
  case (Some tree)
  assume "\<not> prefix repoDir q"
  moreover have "callsBelow repoDir (map (\<lambda>e. Make (repoDir @ fst e) (snd e)) tree)"
    by (simp add: callsBelow_def list_all_iff)
  ultimately show ?thesis
    using agree_look [OF effects_agree] Some by (simp add: fetched_def)
qed (simp add: fetched_def)

definition setVars :: "remote \<Rightarrow> syncSpec \<Rightarrow> shell \<Rightarrow> bool" where
  "setVars R s st \<longleftrightarrow>
     vars st ''ADDONS'' = addonsDir \<and> vars st ''RELROOT'' = storeDir (ssAddonName s)
     \<and> vars st ''REL'' = storeDir (ssAddonName s) @ [headCommit R] \<and> vars st ''MODLIST'' = modulesScratch
     \<and> vars st ''PREV'' = prevScratch"

lemma setVars_kept: "setVars R s st \<Longrightarrow> kept vs st st' \<Longrightarrow>
  list_all (\<lambda>v. v \<notin> set vs) [''ADDONS'', ''RELROOT'', ''REL'', ''MODLIST'', ''PREV''] \<Longrightarrow> setVars R s st'"
  by (simp add: setVars_def kept_def)

lemma setup_run:
  obtains st' where "execs R (setupProgram s) st = (Running, st')" and "setVars R s st'"
    and "files st' = effect (clock st) (Make modulesScratch (File [])) (files st)"
    and "stdout st' = stdout st" and "clock st \<le> clock st'" and "within {[''tmp'']} st st'"
proof -
  let ?st = "setVar ''PREV'' prevScratch (setVar ''MODLIST'' modulesScratch (setVar ''REL''
    (storeDir (ssAddonName s) @ [headCommit R]) (setVar ''RELROOT'' (storeDir (ssAddonName s))
      (setVar ''ADDONS'' addonsDir (setVar ''SHA'' [headCommit R] st)))))"
  let ?c = "Make modulesScratch (File [])"
  have run: "execs R (setupProgram s) st = (Running, doCalls [?c] ?st)"
    by (simp add: setupProgram_def runUtility_def)
  have "callsBelow [''tmp''] [?c]" by (simp add: callsBelow_def modulesScratch_def)
  then have "within {[''tmp'']} ?st (doCalls [?c] ?st)" by (rule within_calls) simp
  then have "within {[''tmp'']} st (doCalls [?c] ?st)" by (rule within_here) simp_all
  then show thesis by (intro that [OF run]) (simp_all add: setVars_def)
qed

lemma effects_one: "effects now [c] F = effect now c F"
  by simp

lemma conflicting_cong:
  "look F (addonsDir @ [n]) = look G (addonsDir @ [n]) \<Longrightarrow> conflicting F root n = conflicting G root n"
  by (simp add: conflicting_def pointsInto_def)

lemma checkedOut_outside: "\<not> prefix [''tmp''] q \<Longrightarrow> look (checkedOut R F now) q = look F q"
  using fetched_outside [of q R F now] by (auto simp: checkedOut_def looks modulesScratch_def repoDir_def prefix_def)

lemma front_run:
  fixes F :: file_system and now :: nat
  obtains st where "execs R (frontProgram s) (initialShell F now) = (syncOutcome R s F now, st)"
    and "within {[''tmp'']} (initialShell F now) st" and "stdout st = []" and "now \<le> clock st"
    and "syncOutcome R s F now = Running \<Longrightarrow> setVars R s st
      \<and> (\<forall>q. look (files st) q =
           (if q = modulesScratch then Some (File (discovered s (checkedOut R F now))) else look (checkedOut R F now) q))"
proof -
  let ?st = "initialShell F now" and ?D = "{[''tmp'']}" and ?F1 = "checkedOut R F now"
  have st: "files ?st = F" "stdout ?st = []" "clock ?st = now" "moments ?st = []" by (simp_all add: initialShell_def)
  show thesis
  proof (cases "fetchedTree R")
    case None
    then show thesis
      by (intro that [of ?st]) (simp_all add: frontProgram_def execs_append execs_raw syncOutcome_def Let_def within_refl st
          del: map_append append.simps)
  next
    case (Some tree)
    let ?cs = "map (\<lambda>e. Make (repoDir @ fst e) (snd e)) tree"
    define st1 where "st1 = doCalls ?cs ?st"
    have f1: "files st1 = fetched R F now" using Some by (simp add: st1_def fetched_def st)
    have st1: "stdout st1 = []" "now \<le> clock st1" by (simp_all add: st1_def st)
    have "callsBelow [''tmp''] ?cs" by (simp add: callsBelow_def list_all_iff repoDir_def)
    then have w1: "within ?D ?st st1" unfolding st1_def by (rule within_calls) simp
    have run1: "exec R (Fetch ls) ?st = (Running, st1)" for ls
      using Some by (simp add: st1_def repoDir_def)
    have front: "execs R (frontProgram s) ?st = execs R (manifestProgram s @ setupProgram s @ discoverProgram s
        @ [Run (SortU (pathVar ''MODLIST'')), conflictLoop]) st1"
      by (simp add: frontProgram_def execs_append execs_raw run1 del: exec.simps map_append append.simps(2))
    show thesis
    proof (cases "ssSingleAddon s \<and> \<not> isRegular (fetched R F now) (repoDir @ [syncManifest])")
      case True
      then have "execs R (manifestProgram s) st1 = (Exited 1, st1)" by (simp add: manifestProgram_def f1)
      then show thesis
        using w1 st1 True Some by (intro that [of st1]) (simp_all add: front execs_append syncOutcome_def Let_def)
    next
      case False
      have manifest: "execs R (manifestProgram s) st1 = (Running, st1)"
        using False by (auto simp: manifestProgram_def f1)
      obtain st2 where run2: "execs R (setupProgram s) st1 = (Running, st2)" and v2: "setVars R s st2"
        and f2: "files st2 = effect (clock st1) (Make modulesScratch (File [])) (files st1)"
        and st2: "stdout st2 = stdout st1" "clock st1 \<le> clock st2" and w2: "within ?D st1 st2"
        using setup_run by blast
      let ?ms = "discovered s ?F1"
      have l2: "look (files st2) q = look ?F1 q" for q by (simp add: f2 f1 checkedOut_def looks)
      then have same: "discovered s (files st2) = ?ms" by (rule discovered_cong)
      have "vars st2 ''MODLIST'' = modulesScratch" "look (files st2) modulesScratch = Some (File [])"
        using v2 by (simp_all add: setVars_def f2 looks)
      then obtain st3 where run3: "execs R (discoverProgram s) st2 = (if ?ms = [] then Exited 1 else Running, st3)"
        and k3: "kept [''mod''] st2 st3" and w3: "within {modulesScratch} st2 st3"
        and l3: "look (files st3) modulesScratch = Some (File ?ms)"
        and o3: "\<And>q. q \<noteq> modulesScratch \<Longrightarrow> look (files st3) q = look ?F1 q"
        using discoverProgram_run [where st = st2 and s = s and R = R] unfolding same l2 by blast
      have tmp: "within ?D st st'" if "within {modulesScratch} st st'" for st st'
        using that unfolding within_def
        by (rule goes_mono) (rule agrees_upwards [where D = "{modulesScratch}"], auto simp: modulesScratch_def)
      have v3: "setVars R s st3" using setVars_kept [OF v2 k3] by simp
      define st4 where "st4 = doCalls [Make modulesScratch (File ?ms)] st3"
      have run4: "exec R (Run (SortU (pathVar ''MODLIST''))) st3 = (Running, st4)"
        using v3 l3 discovered_sorted [of s ?F1] discovered_distinct [of s ?F1]
        by (simp add: runUtility_def st4_def setVars_def linesOf_def distinct_remdups_id sorted_sort_id)
      have v4: "setVars R s st4" using v3 by (simp add: setVars_def st4_def)
      have l4: "look (files st4) q = (if q = modulesScratch then Some (File ?ms) else look ?F1 q)" for q
        using o3 [of q] by (simp add: st4_def looks)
      have w4: "within ?D ?st st4"
      proof -
        have "within {modulesScratch} st3 st4"
          unfolding st4_def by (rule within_calls [of modulesScratch]) (simp_all add: callsBelow_def)
        then show ?thesis
          using within_trans [OF within_trans [OF w1 w2] within_trans [OF tmp [OF w3] tmp]] by blast
      qed
      have conflicts: "conflicting (files st4) root n = conflicting F root n" for root n
        by (rule conflicting_cong) (simp add: l4 checkedOut_outside modulesScratch_def addonsDir_def)
      have "vars st4 ''ADDONS'' = addonsDir" "vars st4 ''RELROOT'' = storeDir (ssAddonName s)"
        using v4 by (simp_all add: setVars_def)
      from conflict_iterate [OF this, of R ?ms] obtain st5 where
        run5: "iterate (\<lambda>l st'. execs R conflictBody (setVar ''name'' [l] st')) ?ms st4 =
          (if \<exists>n \<in> set ?ms. conflicting F (storeDir (ssAddonName s)) n then Exited 1 else Running, st5)"
        and st5: "kept [''name'', ''target'', ''dest'', ''other''] st4 st5" "files st5 = files st4" "moments st5 = moments st4"
        unfolding conflicts by blast
      have run5': "exec R conflictLoop st4 =
          (if list_ex (conflicting F (storeDir (ssAddonName s))) ?ms then Exited 1 else Running, st5)"
        using run5 v4 l4 [of modulesScratch]
        by (simp add: conflictLoop_exec setVars_def linesOf_def list_ex_iff)
      have w5: "within ?D ?st st5" using w4 by (rule within_here) (simp_all add: st5)
      have v5: "setVars R s st5" using setVars_kept [OF v4 st5(1)] by simp
      show thesis
      proof (cases "?ms = []")
        case True
        have "execs R (frontProgram s) ?st = (syncOutcome R s F now, st3)"
          using True Some False run2 run3
          by (auto simp: front execs_append manifest syncOutcome_def Let_def)
        moreover have "within ?D ?st st3" by (rule within_trans [OF within_trans [OF w1 w2] tmp [OF w3]])
        moreover have "stdout st3 = []" "now \<le> clock st3" using k3 st1 st2 by (simp_all add: kept_def)
        moreover have "syncOutcome R s F now \<noteq> Running" using True Some by (simp add: syncOutcome_def Let_def)
        ultimately show thesis using that by blast
      next
        case ne: False
        have "execs R (frontProgram s) ?st = (syncOutcome R s F now, st5)"
          using ne Some False run2 run3 run4 run5'
          by (auto simp: front execs_append manifest syncOutcome_def Let_def simp del: exec.simps)
        moreover have "stdout st5 = []" "now \<le> clock st5"
          using k3 st1 st2 st5(1) by (simp_all add: kept_def st4_def)
        ultimately show thesis
          using that w5 v5 l4 st5(2) by simp
      qed
    qed
  qed
qed

end
