(* ===== verification/Sync_Safety.thy ===== *)
theory Sync_Safety
  imports Sync_Run
begin

text \<open>
  What a run of the sync script and of the cleanup script guarantees: the links and releases at its end, what
  Odoo sees at every moment of it, and the invariants of the volume over any sequence of runs.
\<close>

section \<open>What a run starts from\<close>

definition runSync :: "remote \<Rightarrow> syncSpec \<Rightarrow> file_system \<Rightarrow> nat \<Rightarrow> outcome \<times> shell" where
  "runSync R s F now = execs R (syncProgram s) (initialShell F now)"

text \<open>What a run needs besides a volume in order: the scratch directory of the pod is new, the clock is ahead of the
  store's times, and the modules of the commit are real directories.\<close>

definition commitReady :: "remote \<Rightarrow> syncSpec \<Rightarrow> file_system \<Rightarrow> nat \<Rightarrow> bool" where
  "commitReady R s F now \<longleftrightarrow>
     list_all (\<lambda>p. \<not> strict_prefix [''tmp''] p) (existing F)
     \<and> list_all (\<lambda>n. fsTimes F (storeDir (ssAddonName s) @ [n]) < now) (entryNames (storeDir (ssAddonName s)) F)
     \<and> visible (headCommit R)
     \<and> list_all (\<lambda>m. visible m \<and> look (checkedOut R F now) (sourceOf s m) = Some Directory) (discovered s (checkedOut R F now))"

definition syncReady :: "remote \<Rightarrow> syncSpec \<Rightarrow> file_system \<Rightarrow> nat \<Rightarrow> bool" where
  "syncReady R s F now \<longleftrightarrow> volumeShape F \<and> linksRecorded F \<and> commitReady R s F now"

definition releaseOf :: "remote \<Rightarrow> syncSpec \<Rightarrow> path" where
  "releaseOf R s = storeDir (ssAddonName s) @ [headCommit R]"

text \<open>A successful sync: the module links of the addon are those of the modules it found, into the current release.\<close>

definition synced :: "remote \<Rightarrow> syncSpec \<Rightarrow> file_system \<Rightarrow> file_system \<Rightarrow> string list \<Rightarrow> file_system \<Rightarrow> bool" where
  "synced R s F F1 ms G \<longleftrightarrow>
     (\<forall>n. visible n \<longrightarrow> look G (addonsDir @ [n]) =
        (if n \<in> set ms then Some (Link (releaseOf R s @ [n]))
         else if pointsInto F (storeDir (ssAddonName s)) (addonsDir @ [n]) then None else look F (addonsDir @ [n])))
     \<and> (\<forall>m q. m \<in> set ms \<longrightarrow> look G (releaseOf R s @ m # q) = publishedAs F1 (releaseOf R s) (sourceOf s) m q)
     \<and> look G (storeDir (ssAddonName s) @ [syncModulesFile]) = Some (File ms)
     \<and> (\<forall>y q. y \<noteq> ssAddonName s \<longrightarrow> look G (storeDir y @ q) = look F (storeDir y @ q))"

text \<open>What Odoo sees at a moment of the run: each module link that leads into a release store is the one of before, to
  a release nothing has touched, or the new one, to the whole module.\<close>

definition momentSafe :: "remote \<Rightarrow> syncSpec \<Rightarrow> file_system \<Rightarrow> file_system \<Rightarrow> string list \<Rightarrow> file_system \<Rightarrow> bool" where
  "momentSafe R s F F1 ms G \<longleftrightarrow>
     (\<forall>n t. visible n \<and> look G (addonsDir @ [n]) = Some (Link t) \<and> prefix releasesDir t \<longrightarrow>
        look F (addonsDir @ [n]) = Some (Link t) \<and> (\<forall>q. look G (t @ q) = look F (t @ q))
        \<or> n \<in> set ms \<and> t = releaseOf R s @ [n]
          \<and> (\<forall>q. look G (t @ q) = publishedAs F1 (releaseOf R s) (sourceOf s) n q))"

lemma momentSafe_later:
  assumes "momentSafe R s F F1 ms H"
    and "\<And>n t. visible n \<Longrightarrow> look G (addonsDir @ [n]) = Some (Link t) \<Longrightarrow> prefix releasesDir t \<Longrightarrow>
      look H (addonsDir @ [n]) = Some (Link t) \<and> (\<forall>q. look G (t @ q) = look H (t @ q))"
  shows "momentSafe R s F F1 ms G"
  using assms unfolding momentSafe_def by metis

section \<open>The steps after the conflict check\<close>

lemma prev_run:
  fixes st :: shell
  assumes v: "setVars R s st" and shape: "volumeShape F"
    and same: "\<And>q. \<not> prefix [''tmp''] q \<Longrightarrow> look (files st) q = look F q"
    and blank: "look (files st) prevScratch = None"
  defines "prev \<equiv> linesOf F (storeDir (ssAddonName s) @ [syncModulesFile])"
  obtains st' where "exec R (IfElse (IsFile (inRelRoot [Text syncModulesFile]))
          (Cp (inRelRoot [Text syncModulesFile]) (pathVar ''PREV'')) (Truncate (pathVar ''PREV''))) st = (Running, st')"
    and "kept [] st st'" and "within {prevScratch} st st'"
    and "\<And>q. look (files st') q = (if q = prevScratch then Some (File prev) else look (files st) q)"
proof -
  let ?m = "storeDir (ssAddonName s) @ [syncModulesFile]" and ?c = "Make prevScratch (File prev)"
  have m: "look (files st) ?m = look F ?m"
    by (rule same) (simp add: storeDir_def releasesDir_def addonsDir_def)
  have run: "exec R (IfElse (IsFile (inRelRoot [Text syncModulesFile]))
          (Cp (inRelRoot [Text syncModulesFile]) (pathVar ''PREV'')) (Truncate (pathVar ''PREV''))) st = (Running, doCalls [?c] st)"
  proof (cases "look F ?m")
    case None
    then show ?thesis
      using v m by (simp add: setVars_def isRegular_def numeral_eq_Suc runUtility_def prev_def linesOf_def)
  next
    case (Some d)
    with volumeShapeD(8) [OF shape] obtain ls where "look F ?m = Some (File ls)" by blast
    then show ?thesis
      using v m blank isDirectory_None [OF blank]
      by (simp add: setVars_def isRegular_def numeral_eq_Suc runUtility_def prev_def linesOf_def cpFile_def)
  qed
  show thesis
    by (rule that [OF run]) (simp_all add: kept_def looks within_calls [of prevScratch] callsBelow_def)
qed

lemma syncReadyD:
  assumes "syncReady R s F now"
  shows "volumeShape F" and "linksRecorded F" and "look F ([''tmp''] @ k # q) = None"
    and "look F (storeDir (ssAddonName s) @ [n]) \<noteq> None \<Longrightarrow> fsTimes F (storeDir (ssAddonName s) @ [n]) < now"
    and "visible (headCommit R)"
    and "m \<in> set (discovered s (checkedOut R F now)) \<Longrightarrow> visible m"
    and "m \<in> set (discovered s (checkedOut R F now)) \<Longrightarrow> look (checkedOut R F now) (sourceOf s m) = Some Directory"
proof -
  have "[''tmp''] @ k # q \<in> set (existing F) \<Longrightarrow> False"
    using assms by (auto simp: syncReady_def commitReady_def list_all_iff)
  then show "look F ([''tmp''] @ k # q) = None" unfolding look_existing by blast
qed (use assms in \<open>auto simp: syncReady_def commitReady_def list_all_iff in_entryNames\<close>)

lemma release_paths:
  "prefix releasesDir (releaseOf R s @ q)" "\<not> prefix [''tmp''] (storeDir x @ q)" "\<not> prefix [''tmp''] (addonsDir @ q)"
  by (simp_all add: releaseOf_def storeDir_def releasesDir_def addonsDir_def)

lemma source_under_repo: "prefix repoDir (sourceOf s m)"
  by (simp add: sourceOf_def sourceDir_def)

lemma agrees_safe:
  assumes safe: "momentSafe R s F F1 ms H" and G: "agrees D H G"
    and D: "\<And>d. d \<in> D \<Longrightarrow> \<exists>k. prefix [''tmp'', k] d \<or> d = [''tmp'']"
  shows "momentSafe R s F F1 ms G"
proof (rule momentSafe_later [OF safe])
  have out: "look G (addonsDir @ q) = look H (addonsDir @ q)" for q
    by (rule agrees_look [OF G]) (use D in \<open>fastforce simp: addonsDir_def prefix_def\<close>)
  fix n t assume "look G (addonsDir @ [n]) = Some (Link t)" "prefix releasesDir t"
  then show "look H (addonsDir @ [n]) = Some (Link t) \<and> (\<forall>q. look G (t @ q) = look H (t @ q))"
    using out by (auto simp: releasesDir_def prefix_def)
qed

text \<open>The state the front of the script leaves.\<close>

definition checkedState :: "remote \<Rightarrow> syncSpec \<Rightarrow> file_system \<Rightarrow> nat \<Rightarrow> shell \<Rightarrow> bool" where
  "checkedState R s F now st \<longleftrightarrow>
     setVars R s st \<and> now \<le> clock st \<and> within {[''tmp'']} (initialShell F now) st
     \<and> (\<forall>q. look (files st) q = (if q = modulesScratch then Some (File (discovered s (checkedOut R F now)))
          else look (checkedOut R F now) q))"

text \<open>The state before the first module is published.\<close>

definition preparedState :: "remote \<Rightarrow> syncSpec \<Rightarrow> file_system \<Rightarrow> nat \<Rightarrow> shell \<Rightarrow> bool" where
  "preparedState R s F now st \<longleftrightarrow>
     setVars R s st \<and> now \<le> clock st
     \<and> (\<forall>q. look (files st) q =
          (if q = prevScratch then Some (File (linesOf F (storeDir (ssAddonName s) @ [syncModulesFile])))
           else if q = modulesScratch then Some (File (discovered s (checkedOut R F now)))
           else if q \<in> releasePath (ssAddonName s) (headCommit R) \<and> look F q = None then Some Directory
           else look (checkedOut R F now) q))
     \<and> (\<forall>k. k \<noteq> headCommit R \<longrightarrow>
          fsTimes (files st) (storeDir (ssAddonName s) @ [k]) = fsTimes F (storeDir (ssAddonName s) @ [k]))"

lemma prepare_run:
  assumes ready: "syncReady R s F now" and st: "checkedState R s F now st"
  defines "F1 \<equiv> checkedOut R F now"
  obtains st' where "execs R [IfElse (IsFile (inRelRoot [Text syncModulesFile]))
          (Cp (inRelRoot [Text syncModulesFile]) (pathVar ''PREV'')) (Truncate (pathVar ''PREV'')),
        Run (MkdirP (pathVar ''REL'')), Define ''publish'' publishBody] st = (Running, st')"
    and "preparedState R s F now st'" and "stdout st' = stdout st"
    and "goes (momentSafe R s F F1 (discovered s F1)) (initialShell F now) st'"
proof -
  let ?x = "ssAddonName s" and ?D = "{[''tmp'']}" and ?safe = "momentSafe R s F F1 (discovered s F1)"
  note ready' = syncReadyD [OF ready]
  have l: "look (files st) q = (if q = modulesScratch then Some (File (discovered s F1)) else look F1 q)" for q
    using st by (simp add: checkedState_def F1_def)
  have same: "look (files st) q = look F q" if "\<not> prefix [''tmp''] q" for q
    using that by (auto simp: l F1_def checkedOut_outside modulesScratch_def)
  have "look F1 prevScratch = look F prevScratch"
    by (simp add: F1_def checkedOut_def looks modulesScratch_def prevScratch_def fetched_outside repoDir_def)
  then have blank: "look (files st) prevScratch = None"
    using ready'(3) [of "''modules.prev''" "[]"] by (simp add: l modulesScratch_def prevScratch_def)
  have v: "setVars R s st" and w: "within ?D (initialShell F now) st" and now: "now \<le> clock st"
    using st by (simp_all add: checkedState_def)
  obtain st1 where run1: "exec R (IfElse (IsFile (inRelRoot [Text syncModulesFile]))
          (Cp (inRelRoot [Text syncModulesFile]) (pathVar ''PREV'')) (Truncate (pathVar ''PREV''))) st = (Running, st1)"
    and k1: "kept [] st st1" and w1: "within {prevScratch} st st1"
    and l1: "\<And>q. look (files st1) q = (if q = prevScratch
      then Some (File (linesOf F (storeDir ?x @ [syncModulesFile]))) else look (files st) q)"
    using prev_run [OF v ready'(1) same blank] by blast
  have v1: "setVars R s st1" using setVars_kept [OF v k1] by simp
  have rel: "vars st1 ''REL'' = storeDir ?x @ [headCommit R]" using v1 by (simp add: setVars_def)
  have same1: "look (files st1) q = look F q" if "\<not> prefix [''tmp''] q" for q
    using that same by (auto simp: l1 prevScratch_def)
  obtain st2 where run2: "exec R (Run (MkdirP (pathVar ''REL''))) st1 = (Running, st2)" and k2: "kept [] st1 st2"
    and l2: "\<And>q. look (files st2) q =
      (if q \<in> releasePath ?x (headCommit R) \<and> look (files st1) q = None then Some Directory else look (files st1) q)"
    and g2: "goes (\<lambda>G. (\<forall>q. q \<notin> releasePath ?x (headCommit R) \<longrightarrow> look G q = look (files st1) q
          \<and> (q \<noteq> addonsDir \<longrightarrow> fsTimes G q = fsTimes (files st1) q))
        \<and> (\<forall>q. look G q = look (files st1) q \<or> look (files st1) q = None)) st1 st2"
    using mkdir_release [OF rel ready'(1,5) same1] by blast
  have F: "files (initialShell F now) = F" by (simp add: initialShell_def)
  have safe0: "?safe F" by (simp add: momentSafe_def)
  have g0: "goes ?safe (initialShell F now) st"
    using w unfolding within_def F by (rule goes_mono) (rule agrees_safe [OF safe0], auto)
  then have safe: "?safe (files st)" by (rule goes_files) (simp add: F safe0)
  have g1: "goes ?safe st st1"
    using w1 unfolding within_def by (rule goes_mono) (rule agrees_safe [OF safe], auto simp: prevScratch_def)
  then have safe1: "?safe (files st1)" by (rule goes_files) (rule safe)
  have "goes ?safe st1 st2"
    using g2
  proof (rule goes_mono, elim conjE, intro momentSafe_later [OF safe1])
    fix G n t
    assume G: "\<forall>q. q \<notin> releasePath ?x (headCommit R) \<longrightarrow> look G q = look (files st1) q
          \<and> (q \<noteq> addonsDir \<longrightarrow> fsTimes G q = fsTimes (files st1) q)"
      and n: "visible n" and link: "look G (addonsDir @ [n]) = Some (Link t)" and t: "prefix releasesDir t"
    have "addonsDir @ [n] \<notin> releasePath ?x (headCommit R)"
      using visible_not_special [OF n] by (auto simp: releasePath_def storeDir_def releasesDir_def)
    with G link have link1: "look (files st1) (addonsDir @ [n]) = Some (Link t)" by simp
    then have "look F (addonsDir @ [n]) = Some (Link t)" using same1 [OF release_paths(3)] by simp
    then obtain y c where "t = storeDir y @ [c, n]"
      using linksRecordedD [OF ready'(2) n _ t] by blast
    then have "t @ q \<notin> releasePath ?x (headCommit R)" for q
      by (auto simp: releasePath_def storeDir_def releasesDir_def)
    with G link1 show "look (files st1) (addonsDir @ [n]) = Some (Link t) \<and> (\<forall>q. look G (t @ q) = look (files st1) (t @ q))"
      by simp
  qed
  then have "goes ?safe (initialShell F now) st2" by (rule goes_trans [OF goes_trans [OF g0 g1]])
  moreover have "preparedState R s F now st2"
    unfolding preparedState_def
  proof (intro conjI allI impI)
    show "setVars R s st2" using setVars_kept [OF v1 k2] by simp
    show "now \<le> clock st2" using now k1 k2 by (simp add: kept_def)
    fix q
    have "look (files st1) q = look F q" if "q \<in> releasePath ?x (headCommit R)"
      using that by (intro same1) (auto simp: releasePath_def storeDir_def releasesDir_def addonsDir_def)
    moreover have here: "look (checkedOut R F now) q = look F q" if "q \<in> releasePath ?x (headCommit R)" for q
      using that by (intro checkedOut_outside) (auto simp: releasePath_def storeDir_def releasesDir_def addonsDir_def)
    moreover have "prevScratch \<notin> releasePath ?x (headCommit R)" "modulesScratch \<notin> releasePath ?x (headCommit R)"
      by (auto simp: releasePath_def storeDir_def releasesDir_def addonsDir_def prevScratch_def modulesScratch_def)
    ultimately show "look (files st2) q =
          (if q = prevScratch then Some (File (linesOf F (storeDir ?x @ [syncModulesFile])))
           else if q = modulesScratch then Some (File (discovered s (checkedOut R F now)))
           else if q \<in> releasePath ?x (headCommit R) \<and> look F q = None then Some Directory
           else look (checkedOut R F now) q)"
      using l2 [of q] l1 [of q] l [of q] here [of q]
      by (cases "q \<in> releasePath ?x (headCommit R)") (auto simp: F1_def)
  next
    fix k assume k: "k \<noteq> headCommit R"
    let ?p = "storeDir ?x @ [k]"
    have "?p \<notin> releasePath ?x (headCommit R)" "?p \<noteq> addonsDir"
      using k by (auto simp: releasePath_def storeDir_def releasesDir_def)
    then have "fsTimes (files st2) ?p = fsTimes (files st1) ?p"
      using goes_files [OF g2] by simp
    also have "\<dots> = fsTimes (files st) ?p"
      by (rule agrees_times [OF within_files [OF w1]])
        (auto simp: prevScratch_def storeDir_def releasesDir_def addonsDir_def)
    also have "\<dots> = fsTimes F ?p"
      using within_files [OF w] unfolding F
      by (rule agrees_times) (auto simp: storeDir_def releasesDir_def addonsDir_def)
    finally show "fsTimes (files st2) ?p = fsTimes F ?p" .
  qed
  moreover have "stdout st2 = stdout st" using k1 k2 by (simp add: kept_def)
  ultimately show thesis
    using run1 run2 by (intro that [of st2]) simp_all
qed

text \<open>The state after the last module is published.\<close>

definition publishedState :: "remote \<Rightarrow> syncSpec \<Rightarrow> file_system \<Rightarrow> nat \<Rightarrow> shell \<Rightarrow> bool" where
  "publishedState R s F now st \<longleftrightarrow>
     (let x = ssAddonName s; rel = releaseOf R s; F1 = checkedOut R F now; ms = discovered s F1; H = files st in
      setVars R s st \<and> now \<le> clock st
      \<and> look H modulesScratch = Some (File ms) \<and> look H prevScratch = Some (File (linesOf F (storeDir x @ [syncModulesFile])))
      \<and> (\<forall>n. visible n \<longrightarrow> look H (addonsDir @ [n]) = (if n \<in> set ms then Some (Link (rel @ [n])) else look F (addonsDir @ [n])))
      \<and> (\<forall>m q. m \<in> set ms \<longrightarrow> look H (rel @ m # q) = publishedAs F1 rel (sourceOf s) m q)
      \<and> (\<forall>m q. visible m \<and> m \<notin> set ms \<longrightarrow> look H (rel @ m # q) = look F (rel @ m # q))
      \<and> (\<forall>y q. y \<noteq> x \<longrightarrow> look H (storeDir y @ q) = look F (storeDir y @ q))
      \<and> (\<forall>k q. k \<noteq> headCommit R \<longrightarrow> look H (storeDir x @ k # q) = look F (storeDir x @ k # q))
      \<and> (\<forall>k. k \<noteq> headCommit R \<longrightarrow> fsTimes H (storeDir x @ [k]) = fsTimes F (storeDir x @ [k]))
      \<and> look H releasesDir = Some Directory \<and> look H (storeDir x) = Some Directory \<and> look H rel = Some Directory
      \<and> (\<forall>n. prefix ''.'' n \<and> n \<noteq> syncReleasesDir \<longrightarrow> look H (addonsDir @ [n]) \<noteq> Some Directory)
      \<and> (\<forall>k. k \<le> 3 \<longrightarrow> look H (take k addonsDir) = look F (take k addonsDir)))"

lemma published_safe:
  assumes ready: "syncReady R s F now" and G: "linksMoved H (releaseOf R s) (sourceOf s) (set ms) G"
    and vis: "\<And>m. m \<in> set ms \<Longrightarrow> visible m"
    and H: "\<And>k. visible k \<Longrightarrow> look H (addonsDir @ [k]) = look F (addonsDir @ [k])"
      "\<And>y c n q. visible n \<Longrightarrow> look H (storeDir y @ [c, n] @ q) = look F (storeDir y @ [c, n] @ q)"
    and as: "\<And>m q. m \<in> set ms \<Longrightarrow> publishedAs H (releaseOf R s) (sourceOf s) m q = publishedAs F1 (releaseOf R s) (sourceOf s) m q"
  shows "momentSafe R s F F1 ms G"
  unfolding momentSafe_def
proof (intro allI impI, elim conjE)
  let ?rel = "releaseOf R s"
  fix n t assume n: "visible n" and link: "look G (addonsDir @ [n]) = Some (Link t)" and t: "prefix releasesDir t"
  from linksMovedD [OF G n link] show "look F (addonsDir @ [n]) = Some (Link t) \<and> (\<forall>q. look G (t @ q) = look F (t @ q))
        \<or> n \<in> set ms \<and> t = ?rel @ [n] \<and> (\<forall>q. look G (t @ q) = publishedAs F1 ?rel (sourceOf s) n q)"
  proof
    assume "look H (addonsDir @ [n]) = Some (Link t)"
    then have old: "look F (addonsDir @ [n]) = Some (Link t)" by (simp add: H n)
    then obtain y c where yc: "t = storeDir y @ [c, n]" and dir: "look F t = Some Directory"
      using linksRecordedD [OF syncReadyD(2) [OF ready] n _ t] by blast
    have H_t: "look H t = Some Directory" using H(2) [OF n, of y c "[]"] dir yc by simp
    have far: "\<not> prefix (?rel @ [m]) (t @ q) \<and> \<not> prefix (?rel @ [partialName m]) (t @ q)"
      if "look H (?rel @ [m]) = None" for m q
      using that H_t n yc by (auto simp: releaseOf_def storeDir_def releasesDir_def visible_Cons partialName_def)
    have "look G (t @ q) = look H (t @ q)" for q
    proof (rule agrees_look)
      show "agrees (\<Union>m\<in>set ms. publishArea H ?rel m) H G" using G by (simp add: linksMoved_def)
      have "prefix releasesDir (t @ q)" using t by (auto simp: prefix_def)
      then show "\<not> prefix d (t @ q)" if "d \<in> (\<Union>m\<in>set ms. publishArea H ?rel m)" for d
        using store_outside [of "set ms" "t @ q" H ?rel d] vis far that by blast
    qed
    with old H(2) [OF n] yc show ?thesis by simp
  qed (simp add: as)
qed

lemma publish_state:
  assumes ready: "syncReady R s F now" and st: "preparedState R s F now st"
  defines "F1 \<equiv> checkedOut R F now"
  obtains st' where "execs R (publishProgram s) st = (Running, st')" and "publishedState R s F now st'"
    and "stdout st' = stdout st" and "goes (momentSafe R s F F1 (discovered s F1)) st st'"
proof -
  let ?x = "ssAddonName s" and ?rel = "releaseOf R s" and ?ms = "discovered s F1" and ?H = "files st"
  note ready' = syncReadyD [OF ready, folded F1_def]
  have v: "setVars R s st" and now: "now \<le> clock st" and l: "look ?H q =
          (if q = prevScratch then Some (File (linesOf F (storeDir ?x @ [syncModulesFile])))
           else if q = modulesScratch then Some (File ?ms)
           else if q \<in> releasePath ?x (headCommit R) \<and> look F q = None then Some Directory
           else look F1 q)" for q
    using st by (simp_all add: preparedState_def F1_def)
  have outside: "look ?H q = look F q" if "\<not> prefix [''tmp''] q" "q \<notin> releasePath ?x (headCommit R)" for q
    using that checkedOut_outside [of q R F now]
    by (auto simp: l F1_def prevScratch_def modulesScratch_def)
  have repo: "look ?H q = look F1 q" if "prefix repoDir q" for q
    using that by (auto simp: l repoDir_def prevScratch_def modulesScratch_def prefix_def releasePath_def storeDir_def
        releasesDir_def addonsDir_def)
  have deep: "look ?H (storeDir y @ k # n # q) = look F (storeDir y @ k # n # q)" for y k n q
    by (rule outside) (rule release_paths(2), auto simp: releasePath_def storeDir_def releasesDir_def)
  have entry: "look ?H (addonsDir @ [n]) = look F (addonsDir @ [n])" if "n \<noteq> syncReleasesDir" for n
    by (rule outside) (rule release_paths(3), use that in \<open>auto simp: releasePath_def storeDir_def releasesDir_def\<close>)
  have F1F: "look F1 (storeDir y @ q) = look F (storeDir y @ q)" for y q
    unfolding F1_def by (rule checkedOut_outside) (rule release_paths(2))
  have as: "publishedAs ?H ?rel (sourceOf s) m q = publishedAs F1 ?rel (sourceOf s) m q" for m q
    using deep [of ?x "headCommit R" m q] deep [of ?x "headCommit R" m "[]"] repo [of "sourceOf s m @ q"]
      F1F [of ?x "headCommit R # m # q"] F1F [of ?x "[headCommit R, m]"] source_under_repo [of s m]
    by (simp add: publishedAs_def releaseOf_def copyOf_def)
  have ok: "publishable ?H ?rel (sourceOf s) m" if m: "m \<in> set ?ms" for m
    unfolding publishable_def
  proof (intro conjI)
    show "visible m" by (rule ready'(6) [OF m])
    show "look ?H (sourceOf s m) = Some Directory" using repo [OF source_under_repo] ready'(7) [OF m] by simp
    show "prefix [''tmp''] (sourceOf s m)" using source_under_repo [of s m] by (auto simp: repoDir_def prefix_def)
    show "look ?H (?rel @ [m]) \<in> {None, Some Directory}"
      using volumeShapeD(7) [OF ready'(1) ready'(6) [OF m], of ?x "headCommit R"] deep [of ?x "headCommit R" m "[]"]
      by (cases "look F (?rel @ [m])") (auto simp: releaseOf_def)
    show "look ?H (addonsDir @ [tmpName m]) \<noteq> Some Directory"
      using volumeShapeD(10) [OF ready'(1), of m] entry [of "tmpName m"] dot_names(1) [of m] by (simp add: tmpName_def)
  qed
  have "linesOf ?H modulesScratch = ?ms" by (simp add: linesOf_def l prevScratch_def modulesScratch_def)
  moreover have "ssSingleAddon s \<Longrightarrow> ?ms = [ssModuleName s]" by (simp add: discovered_def)
  moreover have "vars st ''REL'' = ?rel" "vars st ''ADDONS'' = addonsDir" "vars st ''MODLIST'' = modulesScratch"
    using v by (simp_all add: setVars_def releaseOf_def)
  ultimately obtain st' where run: "execs R (publishProgram s) st = (Running, st')"
    and k: "kept [''name'', ''src'', ''target''] st st'" and pub: "published ?H ?rel (sourceOf s) (set ?ms) (files st')"
    and g: "goes (linksMoved ?H ?rel (sourceOf s) (set ?ms)) st st'"
    using publishProgram_run [where st = st and x = ?x and sha = "headCommit R" and R = R, folded releaseOf_def, where s = s and ms = "?ms"] discovered_distinct ok by blast
  have "goes (momentSafe R s F F1 ?ms) st st'"
    using g by (rule goes_mono) (rule published_safe [where H = ?H, OF ready], use ready'(6) deep entry as in \<open>auto dest: visible_not_special\<close>)
  moreover have "publishedState R s F now st'"
    unfolding publishedState_def Let_def F1_def [symmetric]
  proof (intro conjI allI impI)
    let ?A = "\<Union>m\<in>set ?ms. publishArea ?H ?rel m" and ?H' = "files st'"
    have ag: "agrees ?A ?H ?H'" using pub by (simp add: published_def)
    have area: "d \<in> ?A \<Longrightarrow> prefix addonsDir d \<and> length d \<ge> 4" for d
      by (auto simp: publishArea_def releaseOf_def storeDir_def releasesDir_def split: if_splits) (simp_all add: addonsDir_def)
    have vis: "\<And>m. m \<in> set ?ms \<Longrightarrow> visible m" by (rule ready'(6))
    have off: "look ?H' q = look ?H q" if "\<not> prefix addonsDir q \<or> length q \<le> 3" for q
      by (rule agrees_look [OF ag]) (use area that prefix_length_le in \<open>fastforce dest: prefix_order.trans\<close>)
    have store: "look ?H' q = look ?H q"
      if "prefix releasesDir q" "\<And>m. m \<in> set ?ms \<Longrightarrow> \<not> prefix (?rel @ [m]) q \<and> \<not> prefix (?rel @ [partialName m]) q" for q
      using store_outside [of "set ?ms" q ?H ?rel] vis that by (intro agrees_look [OF ag]) blast
    show "setVars R s st'" using setVars_kept [OF v k] by simp
    show "now \<le> clock st'" using now k by (simp add: kept_def)
    show "look ?H' modulesScratch = Some (File ?ms)"
        "look ?H' prevScratch = Some (File (linesOf F (storeDir ?x @ [syncModulesFile])))"
      by (simp_all add: off l prevScratch_def modulesScratch_def addonsDir_def)
    fix n :: string and q y
    show "look ?H' (?rel @ n # q) = publishedAs F1 ?rel (sourceOf s) n q" if "n \<in> set ?ms"
      using pub that by (simp add: published_def as)
    show "look ?H' (?rel @ n # q) = look F (?rel @ n # q)" if n: "visible n \<and> n \<notin> set ?ms"
    proof -
      have "n \<noteq> m \<and> n \<noteq> partialName m" if "m \<in> set ?ms" for m
        using n that by (auto simp: visible_Cons partialName_def)
      then have "look ?H' (?rel @ n # q) = look ?H (?rel @ n # q)"
        by (intro store) (auto simp: release_paths(1))
      then show ?thesis using deep [of ?x "headCommit R" n q] by (simp add: releaseOf_def)
    qed
    show "look ?H' (addonsDir @ [n]) = (if n \<in> set ?ms then Some (Link (?rel @ [n])) else look F (addonsDir @ [n]))"
      if n: "visible n"
    proof (cases "n \<in> set ?ms")
      case False
      have "n \<noteq> tmpName m" for m using n by (auto simp: visible_Cons tmpName_def)
      then have "look ?H' (addonsDir @ [n]) = look ?H (addonsDir @ [n])"
        using entry_outside [of ?rel n "set ?ms" _ ?H] False release_paths(1) [of R s "[]"]
        by (intro agrees_look [OF ag]) simp
      then show ?thesis using False entry [of n] visible_not_special [OF n] by simp
    qed (use pub in \<open>simp add: published_def\<close>)
    show "look ?H' (storeDir y @ q) = look F (storeDir y @ q)" if y: "y \<noteq> ?x"
    proof -
      have "look ?H' (storeDir y @ q) = look ?H (storeDir y @ q)"
        using y by (intro store) (auto simp: store_below, auto simp: releaseOf_def storeDir_def)
      also have "\<dots> = look F (storeDir y @ q)"
        using y by (intro outside) (auto simp: release_paths releasePath_def storeDir_def releasesDir_def)
      finally show ?thesis .
    qed
    show "look ?H' (storeDir ?x @ n # q) = look F (storeDir ?x @ n # q)" if n: "n \<noteq> headCommit R"
    proof -
      have "look ?H' (storeDir ?x @ n # q) = look ?H (storeDir ?x @ n # q)"
        using n by (intro store) (auto simp: store_below, auto simp: releaseOf_def storeDir_def)
      also have "\<dots> = look F (storeDir ?x @ n # q)"
        using n by (intro outside) (auto simp: release_paths releasePath_def storeDir_def releasesDir_def)
      finally show ?thesis .
    qed
    show "fsTimes ?H' (storeDir ?x @ [n]) = fsTimes F (storeDir ?x @ [n])" if n: "n \<noteq> headCommit R"
    proof -
      have "fsTimes ?H' (storeDir ?x @ [n]) = fsTimes ?H (storeDir ?x @ [n])"
      proof (rule agrees_times [OF ag])
        fix d assume "d \<in> ?A"
        then obtain m where m: "m \<in> set ?ms" and d: "d \<in> {addonsDir @ [m], addonsDir @ [tmpName m], ?rel @ [m], ?rel @ [partialName m]}"
          by (auto simp: publishArea_def split: if_splits)
        have "m \<noteq> syncReleasesDir" "tmpName m \<noteq> syncReleasesDir"
          using visible_not_special [OF vis [OF m]] dot_names(1) [of m] by (auto simp: tmpName_def)
        then show "\<not> prefix d (storeDir ?x @ [n]) \<and> butlast d \<noteq> storeDir ?x @ [n]"
          using d n by (auto simp: releaseOf_def storeDir_def releasesDir_def butlast_append)
      qed
      then show ?thesis using st n by (simp add: preparedState_def)
    qed
    show "look ?H' (addonsDir @ [n]) \<noteq> Some Directory" if n: "prefix ''.'' n \<and> n \<noteq> syncReleasesDir"
    proof (cases "\<exists>m \<in> set ?ms. n = tmpName m")
      case False
      moreover have "n \<notin> set ?ms" using n vis by (auto simp: visible_def)
      ultimately have "look ?H' (addonsDir @ [n]) = look ?H (addonsDir @ [n])"
        using entry_outside [of ?rel n "set ?ms" _ ?H] release_paths(1) [of R s "[]"]
        by (intro agrees_look [OF ag]) auto
      then show ?thesis using entry [of n] volumeShape_hidden [OF ready'(1)] n by simp
    qed (use pub in \<open>auto simp: published_def\<close>)
    show "look ?H' (take k addonsDir) = look F (take k addonsDir)" for k
    proof -
      have "look ?H' (take k addonsDir) = look ?H (take k addonsDir)" by (rule off) (auto simp: addonsDir_def min_le_iff_disj)
      also have "\<dots> = look F (take k addonsDir)"
      proof (rule outside)
        have "q \<in> releasePath ?x (headCommit R) \<Longrightarrow> 4 \<le> length q" for q
          by (auto simp: releasePath_def storeDir_def releasesDir_def addonsDir_def)
        moreover have "length (take k addonsDir) \<le> 3" by (auto simp: addonsDir_def min_le_iff_disj)
        ultimately show "take k addonsDir \<notin> releasePath ?x (headCommit R)" by fastforce
      qed (cases k, auto simp: addonsDir_def)
      finally show ?thesis .
    qed
    have dir: "look ?H' p = Some Directory" if p: "p \<in> releasePath ?x (headCommit R)" for p
    proof -
      have "look ?H' p = look ?H p"
        using p by (intro store) (auto simp: releasePath_def releaseOf_def storeDir_def)
      moreover have "d = Directory" if "look F p = Some d" for d
        using p that volumeShapeD(4) [OF ready'(1)] volumeShapeD(5) [OF ready'(1), of ?x]
          volumeShapeD(6) [OF ready'(1,5), of ?x] by (auto simp: releasePath_def)
      moreover have "look F1 p = look F p" "p \<noteq> prevScratch" "p \<noteq> modulesScratch"
        using p F1F [of ?x "[]"] F1F [of ?x "[headCommit R]"] checkedOut_outside [of releasesDir R F now]
        by (auto simp: releasePath_def storeDir_def releasesDir_def addonsDir_def prevScratch_def modulesScratch_def F1_def)
      ultimately show ?thesis using p l [of p] by (cases "look F p") auto
    qed
    then show "look ?H' releasesDir = Some Directory" "look ?H' (storeDir ?x) = Some Directory" "look ?H' ?rel = Some Directory"
      by (simp_all add: releasePath_def releaseOf_def)
  qed
  moreover have "stdout st' = stdout st" using k by (simp add: kept_def)
  ultimately show thesis using that run by blast
qed

lemma safe_target:
  assumes ready: "syncReady R s F now" and safe: "momentSafe R s F F1 ms H"
    and n: "visible n" and link: "look H (addonsDir @ [n]) = Some (Link t)" and t: "prefix releasesDir t"
  obtains y c where "t = storeDir y @ [c, n]" and "visible c"
  using safe linksRecordedD [OF syncReadyD(2) [OF ready] n _ t] syncReadyD(5) [OF ready] n link t
  unfolding momentSafe_def releaseOf_def by (metis append.assoc append_Cons append_Nil)

lemma same_looks_safe: "momentSafe R s F F1 ms H \<Longrightarrow> (\<And>q. look G q = look H q) \<Longrightarrow> momentSafe R s F F1 ms G"
  by (simp add: momentSafe_def)

lemma staleLoop_exec:
  "exec R staleLoop st =
     iterate (\<lambda>l st'. execs R staleBody (setVar ''old'' [l] st')) (linesOf (files st) (vars st ''PREV'')) st"
  by (simp add: staleLoop_def staleBody_def)

text \<open>The state before old releases are pruned.\<close>

definition tidyState :: "remote \<Rightarrow> syncSpec \<Rightarrow> file_system \<Rightarrow> nat \<Rightarrow> shell \<Rightarrow> bool" where
  "tidyState R s F now st \<longleftrightarrow>
     (let x = ssAddonName s; rel = releaseOf R s; ms = discovered s (checkedOut R F now); H = files st in
      setVars R s st \<and> synced R s F (checkedOut R F now) ms H
      \<and> look H modulesScratch = Some (File ms)
      \<and> (\<forall>m q. visible m \<and> m \<notin> set ms \<longrightarrow> look H (rel @ m # q) = look F (rel @ m # q))
      \<and> (\<forall>k q. k \<noteq> headCommit R \<and> k \<noteq> syncModulesFile \<and> k \<noteq> syncModulesFile @ ''.tmp'' \<longrightarrow>
           look H (storeDir x @ k # q) = look F (storeDir x @ k # q))
      \<and> (\<forall>q. q \<noteq> [] \<longrightarrow> look H (storeDir x @ syncModulesFile # q) = look F (storeDir x @ (syncModulesFile @ ''.tmp'') # q))
      \<and> (\<forall>q. look H (storeDir x @ (syncModulesFile @ ''.tmp'') # q) = None)
      \<and> (\<forall>k. \<not> prefix ''.'' k \<and> k \<noteq> headCommit R \<and> look H (storeDir x @ [k]) \<noteq> None \<longrightarrow>
           fsTimes H (storeDir x @ [k]) < fsTimes H rel)
      \<and> look H releasesDir = Some Directory \<and> look H (storeDir x) = Some Directory \<and> look H rel = Some Directory
      \<and> (\<forall>n. prefix ''.'' n \<and> n \<noteq> syncReleasesDir \<longrightarrow> look H (addonsDir @ [n]) \<noteq> Some Directory)
      \<and> (\<forall>k. k \<le> 3 \<longrightarrow> look H (take k addonsDir) = look F (take k addonsDir)))"

lemma own_recorded:
  assumes "syncReady R s F now" and "visible n" and "pointsInto F (storeDir x) (addonsDir @ [n])"
  shows "n \<in> set (linesOf F (storeDir x @ [syncModulesFile]))"
proof -
  from assms(3) obtain t where t: "look F (addonsDir @ [n]) = Some (Link t)" "strict_prefix (storeDir x) t"
    by (auto simp: pointsInto_def split: option.splits node.splits)
  then have "prefix releasesDir t" by (auto simp: storeDir_def strict_prefix_def dest: append_prefixD)
  with linksRecordedD [OF syncReadyD(2) [OF assms(1)] assms(2) t(1)] obtain y c where
    "t = storeDir y @ [c, n]" "n \<in> set (linesOf F (storeDir y @ [syncModulesFile]))" by blast
  moreover have "y = x" using t(2) calculation(1) by (auto simp: storeDir_def strict_prefix_def)
  ultimately show ?thesis by simp
qed

lemma stale_state:
  assumes ready: "syncReady R s F now" and st: "publishedState R s F now st"
  defines "F1 \<equiv> checkedOut R F now" and "ms \<equiv> discovered s (checkedOut R F now)"
  assumes safe: "momentSafe R s F F1 ms (files st)"
  obtains st' where "execs R [Run (Touch (pathVar ''REL'')), staleLoop] st = (Running, st')"
    and "kept [''old'', ''target''] st st'" and "goes (momentSafe R s F F1 ms) st st'"
    and "\<And>q. look (files st') q = (if \<exists>n. q = addonsDir @ [n] \<and> visible n \<and> n \<notin> set ms
            \<and> pointsInto F (storeDir (ssAddonName s)) (addonsDir @ [n]) then None else look (files st) q)"
    and "now \<le> fsTimes (files st') (releaseOf R s)"
    and "\<And>k. k \<noteq> headCommit R \<Longrightarrow>
      fsTimes (files st') (storeDir (ssAddonName s) @ [k]) = fsTimes F (storeDir (ssAddonName s) @ [k])"
proof -
  let ?x = "ssAddonName s" and ?rel = "releaseOf R s" and ?H = "files st"
  let ?prev = "linesOf F (storeDir ?x @ [syncModulesFile])"
  note ready' = syncReadyD [OF ready, folded ms_def F1_def]
  note st' = st [unfolded publishedState_def Let_def, folded F1_def ms_def [unfolded F1_def]]
  have v: "setVars R s st" using st' by blast
  define st5 where "st5 = doCalls [Utimes ?rel] st"
  have run5: "exec R (Run (Touch (pathVar ''REL''))) st = (Running, st5)"
    using st' by (simp add: setVars_def runUtility_def touch_def st5_def releaseOf_def)
  have l5: "look (files st5) q = look ?H q" for q by (simp add: st5_def looks)
  have v5: "setVars R s st5" using v by (simp add: setVars_def st5_def)
  have g5: "goes (momentSafe R s F F1 ms) st st5"
    unfolding st5_def by (rule goes_doCalls, rule same_looks_safe [OF safe]) (auto simp: le_Suc_eq looks)
  have prev_vis: "visible n" if "n \<in> set ?prev" for n
  proof (cases "look F (storeDir ?x @ [syncModulesFile])")
    case (Some d)
    with volumeShapeD(8) [OF ready'(1)] obtain ls where "d = File ls" "list_all visible ls" by blast
    with Some that show ?thesis by (simp add: linesOf_def list_all_iff)
  qed (use that in \<open>simp add: linesOf_def\<close>)
  have V: "vars st5 ''ADDONS'' = addonsDir" "vars st5 ''RELROOT'' = storeDir ?x" "vars st5 ''MODLIST'' = modulesScratch"
    using v5 by (simp_all add: setVars_def)
  obtain st6 where run6: "iterate (\<lambda>l st'. execs R staleBody (setVar ''old'' [l] st')) ?prev st5 = (Running, st6)"
    and k6: "kept [''old'', ''target''] st5 st6" and w6: "within (staleArea ?prev) st5 st6"
    and g6: "goes (onlyRemoved (files st5)) st5 st6"
    and l6: "\<And>q. look (files st6) q = (if \<exists>n \<in> set ?prev. q = addonsDir @ [n] \<and> isStale (files st5) (storeDir ?x) n
        then None else look (files st5) q)"
    using stale_loop [OF V order_refl] by blast
  have "linesOf (files st5) prevScratch = ?prev" and ms: "linesOf (files st5) modulesScratch = ms"
    using st' by (simp_all add: linesOf_def l5)
  then have run: "execs R [Run (Touch (pathVar ''REL'')), staleLoop] st = (Running, st6)"
    using run5 run6 v5 by (simp add: staleLoop_exec setVars_def del: exec.simps)
  have area: "\<exists>n. d = addonsDir @ [n] \<and> n \<noteq> syncReleasesDir" if "d \<in> staleArea ?prev" for d
    using that prev_vis visible_not_special by (auto simp: staleArea_def)
  have off_store: "\<not> prefix d q" if "d \<in> staleArea ?prev" "prefix releasesDir q" for d q
    using area [OF that(1)] entry_not_store that(2) by blast
  have g: "goes (momentSafe R s F F1 ms) st5 st6"
    using goes_conj [OF g6 w6 [unfolded within_def]]
  proof (rule goes_mono, elim conjE)
    fix G assume G: "onlyRemoved (files st5) G" "agrees (staleArea ?prev) (files st5) G"
    show "momentSafe R s F F1 ms G"
    proof (rule momentSafe_later [OF same_looks_safe [OF safe l5]])
      fix n t assume "look G (addonsDir @ [n]) = Some (Link t)" and t: "prefix releasesDir t"
      then have "look (files st5) (addonsDir @ [n]) = Some (Link t)"
        using G(1) unfolding onlyRemoved_def by (metis option.discI)
      moreover have "look G (t @ q) = look (files st5) (t @ q)" for q
        using off_store [of _ "t @ q"] t by (intro agrees_look [OF G(2)]) (auto simp: prefix_def)
      ultimately show "look (files st5) (addonsDir @ [n]) = Some (Link t) \<and> (\<forall>q. look G (t @ q) = look (files st5) (t @ q))"
        by blast
    qed
  qed
  have times: "fsTimes (files st6) (storeDir ?x @ [k]) = fsTimes (files st5) (storeDir ?x @ [k])" for k
  proof (rule agrees_times [OF within_files [OF w6]])
    fix d assume d: "d \<in> staleArea ?prev"
    then show "\<not> prefix d (storeDir ?x @ [k]) \<and> butlast d \<noteq> storeDir ?x @ [k]"
      using off_store [OF d store_below] area [OF d] by (auto simp: storeDir_def releasesDir_def)
  qed
  have stale: "isStale (files st5) (storeDir ?x) n \<longleftrightarrow> visible n \<and> n \<notin> set ms \<and> pointsInto F (storeDir ?x) (addonsDir @ [n])"
    if "n \<in> set ?prev" for n
    using prev_vis [OF that] st' by (auto simp: isStale_def ms pointsInto_def l5 visible_def)
  show thesis
  proof (rule that [OF run])
    show "kept [''old'', ''target''] st st6" using k6 by (simp add: kept_def st5_def)
    show "goes (momentSafe R s F F1 ms) st st6" by (rule goes_trans [OF g5 g])
    show "look (files st6) q = (if \<exists>n. q = addonsDir @ [n] \<and> visible n \<and> n \<notin> set ms
            \<and> pointsInto F (storeDir ?x) (addonsDir @ [n]) then None else look (files st) q)" for q
      using stale own_recorded [OF ready] unfolding l6 l5 by (metis (no_types, lifting))
    show "now \<le> fsTimes (files st6) ?rel"
      using times [of "headCommit R"] st' by (simp add: releaseOf_def st5_def times_effect)
    show "fsTimes (files st6) (storeDir ?x @ [k]) = fsTimes F (storeDir ?x @ [k])" if "k \<noteq> headCommit R" for k
      using times [of k] st' that by (simp add: st5_def times_effect releaseOf_def)
  qed
qed

lemma store_not_entry: "\<not> prefix (storeDir x @ q) (addonsDir @ [n])"
  by (auto simp: storeDir_def releasesDir_def dest: prefix_length_le)

lemma tidy_state:
  assumes ready: "syncReady R s F now" and st: "publishedState R s F now st"
  defines "F1 \<equiv> checkedOut R F now" and "ms \<equiv> discovered s (checkedOut R F now)"
  assumes safe: "momentSafe R s F F1 ms (files st)"
  obtains st' where "execs R ([Run (Touch (pathVar ''REL'')), staleLoop] @ recordProgram) st = (Running, st')"
    and "tidyState R s F now st'" and "stdout st' = stdout st" and "goes (momentSafe R s F F1 ms) st st'"
proof -
  let ?x = "ssAddonName s" and ?rel = "releaseOf R s" and ?H = "files st" and ?root = "storeDir (ssAddonName s)"
  let ?m = "?root @ [syncModulesFile]" and ?t = "?root @ [syncModulesFile @ ''.tmp'']"
  note ready' = syncReadyD [OF ready, folded ms_def F1_def]
  note H = st [unfolded publishedState_def Let_def, folded F1_def ms_def [unfolded F1_def]]
  obtain st6 where run6: "execs R [Run (Touch (pathVar ''REL'')), staleLoop] st = (Running, st6)"
    and k6: "kept [''old'', ''target''] st st6" and g6: "goes (momentSafe R s F F1 ms) st st6"
    and l6: "\<And>q. look (files st6) q = (if \<exists>n. q = addonsDir @ [n] \<and> visible n \<and> n \<notin> set ms
            \<and> pointsInto F ?root (addonsDir @ [n]) then None else look ?H q)"
    and times6: "now \<le> fsTimes (files st6) ?rel"
      "\<And>k. k \<noteq> headCommit R \<Longrightarrow> fsTimes (files st6) (?root @ [k]) = fsTimes F (?root @ [k])"
    using stale_state [OF ready st safe [unfolded F1_def ms_def], folded F1_def ms_def] by blast
  have v6: "setVars R s st6" using setVars_kept [OF _ k6] H by simp
  have off6: "look (files st6) (?root @ q) = look ?H (?root @ q)" for q
    by (auto simp: l6 storeDir_def releasesDir_def dest: visible_not_special)
  have scratch: "look (files st6) modulesScratch = Some (File ms)"
    using H by (simp add: l6 modulesScratch_def addonsDir_def)
  have "syncModulesFile \<noteq> headCommit R" "syncModulesFile @ ''.tmp'' \<noteq> headCommit R"
    using visible_not_special [OF ready'(5)] by auto
  then have old: "look (files st6) (?root @ syncModulesFile # q) = look F (?root @ syncModulesFile # q)"
      "look (files st6) (?root @ (syncModulesFile @ ''.tmp'') # q) = look F (?root @ (syncModulesFile @ ''.tmp'') # q)" for q
    using H off6 by simp_all
  have place: "look (files st6) ?m = Some d \<Longrightarrow> \<exists>ls. d = File ls" "look (files st6) ?t = Some d \<Longrightarrow> \<exists>ls. d = File ls" for d
    using old [of "[]"] volumeShapeD(8,9) [OF ready'(1), of ?x] by auto
  have V: "vars st6 ''MODLIST'' = modulesScratch" "vars st6 ''RELROOT'' = ?root" using v6 by (simp_all add: setVars_def)
  obtain st7 where run7: "execs R recordProgram st6 = (Running, st7)" and k7: "kept [] st6 st7"
    and w7: "within {?m, ?t} st6 st7"
    and l7: "\<And>q. look (files st7) q = (if q = ?m then Some (File ms)
       else if prefix ?m q then look (files st6) (?root @ (syncModulesFile @ ''.tmp'') # drop (length ?root + 1) q)
       else if prefix ?t q then None else look (files st6) q)"
    using recordProgram_run [OF V scratch place] by blast
  have safe6: "momentSafe R s F F1 ms (files st6)" using g6 safe by (rule goes_files)
  have not_entry: "\<not> prefix d (addonsDir @ [n])" if "d \<in> {?m, ?t}" for d n
    using that by (elim insertE emptyE) (simp_all only: store_not_entry not_False_eq_True)
  have g7: "goes (momentSafe R s F F1 ms) st6 st7"
    using w7 unfolding within_def
  proof (rule goes_mono)
    fix G assume G: "agrees {?m, ?t} (files st6) G"
    show "momentSafe R s F F1 ms G"
    proof (rule momentSafe_later [OF safe6])
      fix n t assume n: "visible n" and link: "look G (addonsDir @ [n]) = Some (Link t)" and t: "prefix releasesDir t"
      have link6: "look (files st6) (addonsDir @ [n]) = Some (Link t)"
        using agrees_look [OF G not_entry] link by simp
      then obtain y c where yc: "t = storeDir y @ [c, n]" "visible c" using safe_target [OF ready safe6 n _ t] by blast
      have "look G (t @ q) = look (files st6) (t @ q)" for q
        by (rule agrees_look [OF G]) (use yc visible_not_special [OF yc(2)] in \<open>auto simp: storeDir_def\<close>)
      with link6 show "look (files st6) (addonsDir @ [n]) = Some (Link t) \<and> (\<forall>q. look G (t @ q) = look (files st6) (t @ q))"
        by blast
    qed
  qed
  have off7: "look (files st7) q = look (files st6) q" if "\<not> prefix ?m q" "\<not> prefix ?t q" for q
    using that by (auto simp: l7)
  have times7: "fsTimes (files st7) (?root @ [k]) = fsTimes (files st6) (?root @ [k])"
    if "k \<noteq> syncModulesFile" "k \<noteq> syncModulesFile @ ''.tmp''" for k
    by (rule agrees_times [OF within_files [OF w7]]) (use that in auto)
  have entry7: "look (files st7) (addonsDir @ [n]) = look (files st6) (addonsDir @ [n])" for n
    by (rule off7) (rule store_not_entry)+
  have dot_file: "prefix ''.'' syncModulesFile" "prefix ''.'' (syncModulesFile @ ''.tmp'')"
    by (simp_all add: syncModulesFile_def)
  have rel_not: "headCommit R \<noteq> syncModulesFile" "headCommit R \<noteq> syncModulesFile @ ''.tmp''"
    using visible_not_special [OF ready'(5)] by simp_all
  have f1: "synced R s F F1 ms (files st7)"
    unfolding synced_def
  proof (intro conjI allI impI)
    fix n :: string and q y
    show "look (files st7) (addonsDir @ [n]) = (if n \<in> set ms then Some (Link (?rel @ [n]))
         else if pointsInto F ?root (addonsDir @ [n]) then None else look F (addonsDir @ [n]))" if "visible n"
      using that H by (auto simp: entry7 l6)
    show "look (files st7) (?rel @ n # q) = publishedAs F1 ?rel (sourceOf s) n q" if "n \<in> set ms"
    proof -
      have "look (files st7) (?rel @ n # q) = look ?H (?rel @ n # q)"
        using off7 [of "?rel @ n # q"] off6 [of "headCommit R # n # q"] rel_not by (simp add: releaseOf_def)
      with H that show ?thesis by simp
    qed
    show "look (files st7) ?m = Some (File ms)" by (simp add: l7)
    show "look (files st7) (storeDir y @ q) = look F (storeDir y @ q)" if y: "y \<noteq> ?x"
    proof -
      have "look (files st7) (storeDir y @ q) = look (files st6) (storeDir y @ q)"
        using y by (intro off7) (auto simp: storeDir_def)
      also have "\<dots> = look ?H (storeDir y @ q)"
        by (auto simp: l6 storeDir_def releasesDir_def dest: visible_not_special)
      finally show ?thesis using H y by simp
    qed
  qed
  have f2: "fsTimes (files st7) (?root @ [k]) < fsTimes (files st7) ?rel"
    if k: "\<not> prefix ''.'' k \<and> k \<noteq> headCommit R \<and> look (files st7) (?root @ [k]) \<noteq> None" for k
  proof -
    from k dot_file have k': "k \<noteq> syncModulesFile" "k \<noteq> syncModulesFile @ ''.tmp''" by auto
    then have "look (files st7) (?root @ [k]) = look F (?root @ [k])"
      using off7 [of "?root @ [k]"] off6 [of "[k]"] H k by simp
    then have "fsTimes F (?root @ [k]) < now" using ready'(4) [of k] k by simp
    then show ?thesis
      using times7 [OF k'] times6(2) [of k] k times7 [OF rel_not] times6(1) by (simp add: releaseOf_def)
  qed
  have f3: "look (files st7) modulesScratch = Some (File ms)"
    using scratch off7 [of modulesScratch] by (simp add: storeDir_def releasesDir_def addonsDir_def modulesScratch_def)
  have f4: "look (files st7) (?rel @ m # q) = look F (?rel @ m # q)" if "visible m" "m \<notin> set ms" for m q
    using off7 [of "?rel @ m # q"] off6 [of "headCommit R # m # q"] rel_not H that by (simp add: releaseOf_def)
  have f5: "look (files st7) (?root @ k # q) = look F (?root @ k # q)"
    if "k \<noteq> headCommit R" "k \<noteq> syncModulesFile" "k \<noteq> syncModulesFile @ ''.tmp''" for k q
    using off7 [of "?root @ k # q"] off6 [of "k # q"] H that by simp
  have f6: "look (files st7) (?root @ syncModulesFile # q) = look F (?root @ (syncModulesFile @ ''.tmp'') # q)" if "q \<noteq> []" for q
    using that old(2) [of q] by (simp add: l7)
  have f7: "look (files st7) (?root @ (syncModulesFile @ ''.tmp'') # q) = None" for q
    by (auto simp: l7)
  have f8: "look (files st7) releasesDir = Some Directory" "look (files st7) ?root = Some Directory" "look (files st7) ?rel = Some Directory"
    using H off7 [of releasesDir] off7 [of ?root] off7 [of ?rel] off6 [of "[]"] off6 [of "[headCommit R]"] rel_not
    by (auto simp: l6 releaseOf_def releasesDir_def storeDir_def dest: visible_not_special)
  have f9: "look (files st7) (addonsDir @ [n]) \<noteq> Some Directory" if "prefix ''.'' n" "n \<noteq> syncReleasesDir" for n
    using H that by (simp add: entry7 l6)
  have f10: "look (files st7) (take k addonsDir) = look F (take k addonsDir)" if "k \<le> 3" for k
  proof -
    have len: "length (take k addonsDir) \<le> 3" by (auto simp: addonsDir_def min_le_iff_disj)
    have "length ?m = 6" "length ?t = 6" by (simp_all add: storeDir_def releasesDir_def addonsDir_def)
    then have "look (files st7) (take k addonsDir) = look (files st6) (take k addonsDir)"
      using len by (intro off7) (auto dest!: prefix_length_le)
    moreover have "take k addonsDir \<noteq> addonsDir @ [n]" for n
    proof
      assume "take k addonsDir = addonsDir @ [n]"
      with len have "length (addonsDir @ [n]) \<le> 3" by (simp only:)
      then show False by (simp add: addonsDir_def)
    qed
    ultimately show ?thesis using H that by (simp add: l6)
  qed
  have f11: "setVars R s st7" using setVars_kept [OF v6 k7] by simp

  have "tidyState R s F now st7"
    unfolding tidyState_def Let_def unfolding ms_def [symmetric] unfolding F1_def [symmetric]
    by (intro conjI allI impI) (blast intro: f1 f2 f3 f4 f5 f6 f7 f8 f9 f10 f11 | simp add: f9)+
  moreover have "execs R ([Run (Touch (pathVar ''REL'')), staleLoop] @ recordProgram) st = (Running, st7)"
    by (simp only: execs_append run6 prod.case outcome.case run7)
  moreover have "stdout st7 = stdout st" using k6 k7 by (simp add: kept_def)
  ultimately show thesis
    using goes_trans [OF g6 g7] that by blast
qed

section \<open>The end of a run\<close>

lemma volumeShapeI:
  assumes "\<And>k. k \<in> {1, 2, 3} \<Longrightarrow> look F (take k addonsDir) = Some Directory"
    and "\<And>p d. look F p = Some d \<Longrightarrow> prefix releasesDir p \<Longrightarrow> placed p d"
    and "\<And>n. prefix ''.'' n \<Longrightarrow> n \<noteq> syncReleasesDir \<Longrightarrow> look F (addonsDir @ [n]) \<noteq> Some Directory"
  shows "volumeShape F"
  using assms by (auto simp: volumeShape_def list_all_iff split: option.split)

lemma placed_cases:
  "placed releasesDir d \<longleftrightarrow> d = Directory"
  "placed (storeDir y) d \<longleftrightarrow> d = Directory"
  "placed (storeDir y @ [k]) d \<longleftrightarrow>
     (if k \<in> {syncModulesFile, syncModulesFile @ ''.tmp''} then (case d of File ls \<Rightarrow> list_all visible ls | _ \<Rightarrow> False) else d = Directory)"
  "placed (storeDir y @ [k, m]) d \<longleftrightarrow> (visible m \<longrightarrow> d = Directory)"
  "placed (storeDir y @ k # m # z # q) d"
  by (simp_all add: placed_def storeDir_def)

lemma published_directory:
  assumes ready: "syncReady R s F now" and m: "m \<in> set (discovered s (checkedOut R F now))"
  shows "publishedAs (checkedOut R F now) (releaseOf R s) (sourceOf s) m [] = Some Directory"
proof -
  let ?F1 = "checkedOut R F now" and ?p = "releaseOf R s @ [m]"
  have "look ?F1 ?p = look F ?p" by (rule checkedOut_outside) (simp add: releaseOf_def release_paths(2) del: append.simps)
  moreover have "d = Directory" if "look F ?p = Some d" for d
    using that volumeShapeD(7) [OF syncReadyD(1) [OF ready] syncReadyD(6) [OF ready m]] by (simp add: releaseOf_def)
  ultimately show ?thesis
    using syncReadyD(7) [OF ready m] by (auto simp: publishedAs_def copyOf_def)
qed

lemma synced_recorded:
  assumes ready: "syncReady R s F now"
    and synced: "synced R s F (checkedOut R F now) (discovered s (checkedOut R F now)) G"
  shows "linksRecorded G"
proof (rule linksRecordedI)
  let ?x = "ssAddonName s" and ?F1 = "checkedOut R F now" and ?ms = "discovered s (checkedOut R F now)"
  fix n t assume n: "visible n" and link: "look G (addonsDir @ [n]) = Some (Link t)" and t: "prefix releasesDir t"
  show "\<exists>x c. t = storeDir x @ [c, n] \<and> visible c \<and> look G t = Some Directory
      \<and> n \<in> set (linesOf G (storeDir x @ [syncModulesFile]))"
  proof (cases "n \<in> set ?ms")
    case True
    then have t: "t = releaseOf R s @ [n]" and "look G (releaseOf R s @ n # []) = Some Directory"
      using synced n link published_directory [OF ready True] unfolding synced_def by auto
    then have "t = storeDir ?x @ [headCommit R, n]" "look G t = Some Directory" by (simp_all add: releaseOf_def)
    with True synced syncReadyD(5) [OF ready] show ?thesis by (auto simp: synced_def linesOf_def)
  next
    case False
    then have old: "look F (addonsDir @ [n]) = Some (Link t)" and out: "\<not> pointsInto F (storeDir ?x) (addonsDir @ [n])"
      using synced n link by (auto simp: synced_def split: if_splits)
    obtain y c where yc: "t = storeDir y @ [c, n]" "visible c" "look F t = Some Directory"
      and rec: "n \<in> set (linesOf F (storeDir y @ [syncModulesFile]))"
      using linksRecordedD [OF syncReadyD(2) [OF ready] n old t] by blast
    have "y \<noteq> ?x" using out old yc(1) by (auto simp: pointsInto_def strict_prefix_def)
    with synced have "look G (storeDir y @ q) = look F (storeDir y @ q)" for q by (simp add: synced_def)
    then have "look G t = look F t"
      and "linesOf G (storeDir y @ [syncModulesFile]) = linesOf F (storeDir y @ [syncModulesFile])"
      by (simp_all add: yc(1) linesOf_def)
    with yc rec show ?thesis by auto
  qed
qed

lemma tidy_own_place:
  assumes ready: "syncReady R s F now" and st: "tidyState R s F now st"
    and d: "look (files st) (storeDir (ssAddonName s) @ k # q) = Some d"
  shows "placed (storeDir (ssAddonName s) @ k # q) d"
proof -
  let ?root = "storeDir (ssAddonName s)" and ?ms = "discovered s (checkedOut R F now)"
  note H = st [unfolded tidyState_def Let_def]
  note ready' = syncReadyD [OF ready] and place = volumeShape_place [OF syncReadyD(1) [OF ready]]
  consider (record_file) "k = syncModulesFile" | (tmp) "k = syncModulesFile @ ''.tmp''" | (rel) "k = headCommit R"
    | (other) "k \<noteq> syncModulesFile" "k \<noteq> syncModulesFile @ ''.tmp''" "k \<noteq> headCommit R" by blast
  then show ?thesis
  proof cases
    case record_file
    show ?thesis
    proof (cases q)
      case Nil
      then have "d = File ?ms" using H d record_file by (simp add: synced_def)
      with Nil record_file ready'(6) show ?thesis by (simp add: placed_cases list_all_iff)
    next
      case (Cons m q')
      then have "look F (?root @ (syncModulesFile @ ''.tmp'') # q) = Some d" using H d record_file by simp
      from place [OF this store_below] Cons record_file show ?thesis by (cases q') (simp_all add: placed_cases)
    qed
  next
    case tmp
    with H d show ?thesis by simp
  next
    case rel
    show ?thesis
    proof (cases q)
      case Nil
      with H d rel ready'(5) visible_not_special [of k] show ?thesis by (simp add: placed_cases releaseOf_def)
    next
      case (Cons m q')
      show ?thesis
      proof (cases q')
        case Nil
        have "d = Directory" if "visible m"
        proof (cases "m \<in> set ?ms")
          case True
          with H d rel Cons Nil published_directory [OF ready True] show ?thesis by (simp add: synced_def releaseOf_def)
        next
          case False
          with H d rel Cons Nil that have "look F (?root @ [k, m]) = Some d" by (simp add: releaseOf_def)
          with volumeShapeD(7) [OF ready'(1) that] show ?thesis by blast
        qed
        with Cons Nil show ?thesis by (simp add: placed_cases)
      qed (simp add: placed_cases Cons)
    qed
  next
    case other
    with H d have "look F (?root @ k # q) = Some d" by simp
    then show ?thesis using place store_below by blast
  qed
qed

lemma prune_state:
  assumes ready: "syncReady R s F now" and st: "tidyState R s F now st"
  defines "F1 \<equiv> checkedOut R F now" and "ms \<equiv> discovered s (checkedOut R F now)"
  assumes safe: "momentSafe R s F F1 ms (files st)"
  obtains st' where "execs R [pruneProgram, PrintModules (pathVar ''MODLIST''), PrintHead repoDir] st = (Running, st')"
    and "stdout st' = stdout st @ [''modules: '' @ joinWith '','' ms, headCommit R]"
    and "goes (momentSafe R s F F1 ms) st st'"
    and "synced R s F F1 ms (files st')" and "volumeShape (files st')"
proof -
  let ?x = "ssAddonName s" and ?rel = "releaseOf R s" and ?H = "files st" and ?root = "storeDir (ssAddonName s)"
  note ready' = syncReadyD [OF ready, folded ms_def F1_def]
  note H = st [unfolded tidyState_def Let_def, folded F1_def ms_def [unfolded F1_def]]
  define olds where "olds = drop 2 (newestFirst ?root ?H)"
  have vis_olds: "\<not> prefix ''.'' n" if "n \<in> set olds" for n
    using that by (auto simp: olds_def newestFirst_def dest: in_set_dropD)
  have sha: "headCommit R \<notin> set olds"
    unfolding olds_def
    by (rule newest_first_kept) (use H ready'(5) in \<open>auto simp: releaseOf_def visible_def\<close>)
  have "vars st ''RELROOT'' = ?root" using H by (simp add: setVars_def)
  then obtain st8 where run: "exec R pruneProgram st = (Running, st8)" and k8: "kept [] st st8"
    and w8: "within ((\<lambda>n. ?root @ [n]) ` set olds) st st8"
    and l8: "\<And>q. look (files st8) q = (if \<exists>n \<in> set olds. prefix (?root @ [n]) q then None else look ?H q)"
    using pruneProgram_run unfolding olds_def by blast
  have dots: "syncModulesFile \<notin> set olds" "syncModulesFile @ ''.tmp'' \<notin> set olds"
    using vis_olds [of syncModulesFile] vis_olds [of "syncModulesFile @ ''.tmp''"] by (auto simp: syncModulesFile_def)
  have entry: "look (files st8) (addonsDir @ [n]) = look ?H (addonsDir @ [n])" for n
    using store_not_entry [of ?x "[_]" n] by (simp add: l8 del: prefix_snoc)
  have other: "look (files st8) (storeDir y @ q) = look ?H (storeDir y @ q)" if "y \<noteq> ?x" for y q
    using that by (auto simp: l8 storeDir_def)
  have own: "look (files st8) (?root @ k # q) = look ?H (?root @ k # q)" if "k \<notin> set olds" for k q
    using that by (auto simp: l8)
  have synced: "synced R s F F1 ms (files st8)"
    using H entry other own [OF sha] own [OF dots(1)] by (simp add: synced_def releaseOf_def)
  define st9 where "st9 = st8\<lparr>stdout := stdout st @ [''modules: '' @ joinWith '','' ms, headCommit R]\<rparr>"
  have "look (files st8) modulesScratch = Some (File ms)"
    using H by (simp add: l8 modulesScratch_def storeDir_def releasesDir_def addonsDir_def)
  then have "execs R [pruneProgram, PrintModules (pathVar ''MODLIST''), PrintHead repoDir] st = (Running, st9)"
    using run k8 H by (simp add: kept_def setVars_def linesOf_def st9_def)
  moreover have "goes (momentSafe R s F F1 ms) st st8"
    using w8 unfolding within_def
  proof (rule goes_mono)
    fix G assume G: "agrees ((\<lambda>n. ?root @ [n]) ` set olds) ?H G"
    have entryG: "look G (addonsDir @ [n]) = look ?H (addonsDir @ [n])" for n
      by (rule agrees_look [OF G]) (use store_not_entry [of ?x "[_]" n] in \<open>auto simp del: prefix_snoc\<close>)
    show "momentSafe R s F F1 ms G"
    proof (rule momentSafe_later [OF safe])
      fix n t assume n: "visible n" and link: "look G (addonsDir @ [n]) = Some (Link t)" and t: "prefix releasesDir t"
      obtain y c where yc: "t = storeDir y @ [c, n]" "y = ?x \<Longrightarrow> c = headCommit R"
      proof (cases "n \<in> set ms")
        case True
        then have "t = ?rel @ [n]" using H n link entryG [of n] by (simp add: synced_def)
        then show thesis by (intro that [of ?x "headCommit R"]) (simp_all add: releaseOf_def)
      next
        case False
        then have old: "look F (addonsDir @ [n]) = Some (Link t)" and out: "\<not> pointsInto F ?root (addonsDir @ [n])"
          using H n link entryG [of n] by (auto simp: synced_def split: if_splits)
        obtain y c where yc: "t = storeDir y @ [c, n]" using linksRecordedD [OF ready'(2) n old t] by blast
        moreover have "y \<noteq> ?x" using out old yc by (auto simp: pointsInto_def strict_prefix_def)
        ultimately show thesis using that by blast
      qed
      have "look G (t @ q) = look ?H (t @ q)" for q
        by (rule agrees_look [OF G]) (use yc sha in \<open>auto simp: storeDir_def\<close>)
      then show "look ?H (addonsDir @ [n]) = Some (Link t) \<and> (\<forall>q. look G (t @ q) = look ?H (t @ q))"
        using link entryG by simp
    qed
  qed
  then have "goes (momentSafe R s F F1 ms) st st9" by (rule goes_here) (simp_all add: st9_def)
  moreover have "volumeShape (files st8)"
  proof (rule volumeShapeI)
    fix k :: nat assume k: "k \<in> {1, 2, 3}"
    have "\<not> prefix (?root @ [n]) (take k addonsDir)" for n
      using prefix_length_le [of "?root @ [n]" "take k addonsDir"] by (auto simp: storeDir_def releasesDir_def addonsDir_def)
    then have "look (files st8) (take k addonsDir) = look F (take k addonsDir)"
      using H k by (auto simp: l8)
    then show "look (files st8) (take k addonsDir) = Some Directory"
      using k volumeShapeD(1-3) [OF ready'(1)] by (auto simp: addonsDir_def numeral_eq_Suc)
  next
    fix n assume "prefix ''.'' n" "n \<noteq> syncReleasesDir"
    then show "look (files st8) (addonsDir @ [n]) \<noteq> Some Directory" using H by (simp add: entry)
  next
    fix p d assume d: "look (files st8) p = Some d" and p: "prefix releasesDir p"
    then have Hd: "look ?H p = Some d" by (auto simp: l8 split: if_splits)
    note place = volumeShape_place [OF ready'(1)]
    from p obtain r where r: "p = releasesDir @ r" by (auto simp: prefix_def)
    show "placed p d"
    proof (cases r)
      case Nil
      with Hd H r show ?thesis by (simp add: placed_cases)
    next
      case (Cons y q)
      then have pq: "p = storeDir y @ q" by (simp add: r storeDir_def)
      show ?thesis
      proof (cases "y = ?x")
        case False
        with H Hd pq have "look F p = Some d" by (simp add: synced_def)
        then show ?thesis using place p by blast
      next
        case y: True
        show ?thesis
        proof (cases q)
          case Nil
          with Hd H pq y show ?thesis by (simp add: placed_cases)
        next
          case (Cons k q')
          then have pk: "p = ?root @ k # q'" by (simp add: pq y)
          show ?thesis using tidy_own_place [OF ready st] Hd unfolding pk by blast
        qed
      qed
    qed
  qed
  ultimately show thesis
    using synced by (intro that [of st9]) (simp_all add: st9_def)
qed

section \<open>The whole run\<close>

lemma sync_run:
  assumes ready: "syncReady R s F now"
  defines "F1 \<equiv> checkedOut R F now" and "ms \<equiv> discovered s (checkedOut R F now)"
  obtains st where "runSync R s F now = (syncOutcome R s F now, st)"
    and "goes (momentSafe R s F F1 ms) (initialShell F now) st"
    and "syncOutcome R s F now \<noteq> Running \<Longrightarrow>
      stdout st = [] \<and> (\<forall>q. \<not> prefix [''tmp''] q \<longrightarrow> look (files st) q = look F q)"
    and "syncOutcome R s F now = Running \<Longrightarrow>
      stdout st = [''modules: '' @ joinWith '','' ms, headCommit R] \<and> synced R s F F1 ms (files st) \<and> volumeShape (files st)"
proof -
  let ?st = "initialShell F now" and ?safe = "momentSafe R s F F1 ms"
  have F: "files ?st = F" by (simp add: initialShell_def)
  have safe0: "?safe F" by (simp add: momentSafe_def)
  have "look F modulesScratch = None"
    using syncReadyD(3) [OF ready, of "''modules.list''" "[]"] by (simp add: modulesScratch_def)
  obtain st1 where run1: "execs R (frontProgram s) ?st = (syncOutcome R s F now, st1)"
    and w1: "within {[''tmp'']} ?st st1" and st1: "stdout st1 = []" "now \<le> clock st1"
    and checked: "syncOutcome R s F now = Running \<Longrightarrow> setVars R s st1
      \<and> (\<forall>q. look (files st1) q =
           (if q = modulesScratch then Some (File (discovered s (checkedOut R F now))) else look (checkedOut R F now) q))"
    using front_run by blast
  have g1: "goes ?safe ?st st1"
    using w1 unfolding within_def F by (rule goes_mono) (rule agrees_safe [OF safe0], auto)
  show thesis
  proof (cases "syncOutcome R s F now = Running")
    case False
    then have "runSync R s F now = (syncOutcome R s F now, st1)"
      by (simp add: runSync_def syncProgram_split execs_append run1 split: outcome.split)
    moreover have "look (files st1) q = look F q" if "\<not> prefix [''tmp''] q" for q
      using within_files [OF w1] that unfolding F by (auto intro: agrees_look)
    ultimately show thesis using that g1 st1 False by blast
  next
    case True
    then have "checkedState R s F now st1" using checked st1 w1 by (simp add: checkedState_def)
    then obtain st2 where run2: "execs R [IfElse (IsFile (inRelRoot [Text syncModulesFile]))
          (Cp (inRelRoot [Text syncModulesFile]) (pathVar ''PREV'')) (Truncate (pathVar ''PREV'')),
        Run (MkdirP (pathVar ''REL'')), Define ''publish'' publishBody] st1 = (Running, st2)"
      and p2: "preparedState R s F now st2" and o2: "stdout st2 = stdout st1" and g2: "goes ?safe ?st st2"
      using prepare_run [OF ready] unfolding ms_def F1_def by blast
    obtain st3 where run3: "execs R (publishProgram s) st2 = (Running, st3)" and p3: "publishedState R s F now st3"
      and o3: "stdout st3 = stdout st2" and g3: "goes ?safe st2 st3"
      using publish_state [OF ready p2] unfolding ms_def F1_def by blast
    have s3: "?safe (files st3)" by (rule goes_files [OF goes_trans [OF g2 g3]]) (simp add: F safe0)
    obtain st4 where run4: "execs R ([Run (Touch (pathVar ''REL'')), staleLoop] @ recordProgram) st3 = (Running, st4)"
      and p4: "tidyState R s F now st4" and o4: "stdout st4 = stdout st3" and g4: "goes ?safe st3 st4"
      using tidy_state [OF ready p3] s3 unfolding ms_def F1_def by blast
    have s4: "?safe (files st4)" by (rule goes_files [OF g4 s3])
    obtain st5 where run5: "execs R [pruneProgram, PrintModules (pathVar ''MODLIST''), PrintHead repoDir] st4 = (Running, st5)"
      and o5: "stdout st5 = stdout st4 @ [''modules: '' @ joinWith '','' ms, headCommit R]"
      and g5: "goes ?safe st4 st5" and fin: "synced R s F F1 ms (files st5)" "volumeShape (files st5)"
      using prune_state [OF ready p4] s4 unfolding ms_def F1_def by blast
    obtain x where touched: "execs R [Run (Touch (pathVar ''REL'')), staleLoop] st3 = (Running, x)"
      and recorded: "execs R recordProgram x = (Running, st4)"
      using run4 unfolding execs_append by (auto split: prod.splits outcome.splits)
    have "execs R (backProgram s) st1 = (Running, st5)"
      unfolding backProgram_def append_assoc
      by (simp only: execs_append run2 run3 touched recorded run5 prod.case outcome.case)
    then have "runSync R s F now = (syncOutcome R s F now, st5)"
      by (simp add: runSync_def syncProgram_split execs_append run1 True)
    moreover have "goes ?safe ?st st5"
      by (rule goes_trans [OF goes_trans [OF goes_trans [OF g2 g3] g4] g5])
    ultimately show thesis
      using that True o2 o3 o4 o5 st1 fin by simp
  qed
qed

end
