(* ===== verification/Volume_History.thy ===== *)
theory Volume_History
  imports Sync_Safety
begin

text \<open>
  The cleanup run, any sequence of sync and cleanup runs on a volume, and the properties of the scripts: what a
  sync does to the volume, what Odoo sees while it runs, that addons do not touch each other's modules, and that
  the operator reads back from the log what the sync left on the volume.
\<close>

section \<open>The cleanup run\<close>

definition runCleanup :: "remote \<Rightarrow> string \<Rightarrow> file_system \<Rightarrow> nat \<Rightarrow> outcome \<times> shell" where
  "runCleanup R addonName F now = execs R (cleanupProgram addonName) (initialShell F now)"

definition cleanupBody :: "sh list" where
  "cleanupBody = [CaseOf (LinkSubject (pathVar ''link'')) [InlineArm (pathVar ''RELROOT'') (RmF (pathVar ''link''))]]"

definition cleanupArea :: "string list \<Rightarrow> path set" where
  "cleanupArea ns = (\<lambda>n. addonsDir @ [n]) ` set ns"

lemma cleanup_iterate:
  assumes "vars st ''RELROOT'' = root" and "set ns \<subseteq> set all" and "\<And>n. n \<in> set ns \<Longrightarrow> n \<noteq> syncReleasesDir"
  shows "\<exists>st'. iterate (\<lambda>n st'. execs R cleanupBody (setVar ''link'' (addonsDir @ [n]) st')) ns st = (Running, st')
    \<and> kept [''link''] st st' \<and> within (cleanupArea all) st st' \<and> goes (onlyRemoved (files st)) st st'
    \<and> (\<forall>q. look (files st') q =
         (if \<exists>n \<in> set ns. q = addonsDir @ [n] \<and> pointsInto (files st) root q then None else look (files st) q))"
  using assms
proof (induction ns arbitrary: st)
  case (Cons n ns)
  let ?p = "addonsDir @ [n]" and ?F = "files st"
  define b where "b = pointsInto ?F root ?p"
  let ?st = "setVar ''link'' ?p st"
  define st1 where "st1 = (if b then doCalls [Unlink ?p] ?st else ?st)"
  have run: "execs R cleanupBody ?st = (Running, st1)"
    using Cons.prems(1)
    by (cases "look ?F ?p") (auto simp: cleanupBody_def subjectValue_def linkTarget_def pointsInto_def b_def st1_def
        runUtility_def rmF_def split: node.splits)
  have kept: "kept [''link''] st st1" by (simp add: kept_def st1_def)
  have l1: "look (files st1) q = (if b \<and> q = ?p then None else look ?F q)" for q by (simp add: st1_def looks)
  have "callsBelow ?p [Unlink ?p]" by (simp add: callsBelow_def)
  then have "within (cleanupArea all) ?st st1"
    unfolding st1_def using within_calls [of ?p "[Unlink ?p]" "cleanupArea all" ?st] Cons.prems(2)
    by (auto simp: cleanupArea_def within_refl)
  then have w: "within (cleanupArea all) st st1" by (rule within_here) simp_all
  have "goes (onlyRemoved ?F) ?st st1"
    unfolding st1_def by (auto intro!: goes_doCalls goes_refl simp: le_Suc_eq onlyRemoved_def looks)
  then have g: "goes (onlyRemoved ?F) st st1" by (rule goes_here) simp_all
  have "vars st1 ''RELROOT'' = root" using kept Cons.prems(1) by (simp add: kept_def)
  then obtain st' where run': "iterate (\<lambda>n st'. execs R cleanupBody (setVar ''link'' (addonsDir @ [n]) st')) ns st1 = (Running, st')"
    and kept': "kept [''link''] st1 st'" and w': "within (cleanupArea all) st1 st'" and g': "goes (onlyRemoved (files st1)) st1 st'"
    and l': "\<And>q. look (files st') q =
         (if \<exists>n \<in> set ns. q = addonsDir @ [n] \<and> pointsInto (files st1) root q then None else look (files st1) q)"
    using Cons.IH [of st1] Cons.prems by auto
  have into: "pointsInto (files st1) root q \<longleftrightarrow> pointsInto ?F root q \<and> \<not> (b \<and> q = ?p)" for q
    by (simp add: pointsInto_def l1)
  have "look (files st') q = (if \<exists>k \<in> set (n # ns). q = addonsDir @ [k] \<and> pointsInto ?F root q then None else look ?F q)" for q
    by (auto simp: l' l1 into b_def)
  moreover have "goes (onlyRemoved ?F) st1 st'"
    using g' by (rule goes_mono) (metis l1 onlyRemoved_def)
  ultimately show ?case
    using run run' kept_trans [OF kept kept'] within_trans [OF w w'] goes_trans [OF g] by auto
qed (auto simp: kept_def within_refl goes_refl)

text \<open>What Odoo sees at a moment of the cleanup: every module link that is left leads where it led before, to a release
  nothing has touched.\<close>

definition cleanupSafe :: "file_system \<Rightarrow> file_system \<Rightarrow> bool" where
  "cleanupSafe F G \<longleftrightarrow>
     (\<forall>n t. visible n \<and> look G (addonsDir @ [n]) = Some (Link t) \<and> prefix releasesDir t \<longrightarrow>
        look F (addonsDir @ [n]) = Some (Link t) \<and> (\<forall>q. look G (t @ q) = look F (t @ q)))"

lemma cleanup_run:
  assumes shape: "volumeShape F" and rec: "linksRecorded F"
  obtains st where "runCleanup R x F now = (Running, st)" and "goes (cleanupSafe F) (initialShell F now) st"
    and "\<And>q. look (files st) q = (if prefix (storeDir x) q \<or> (\<exists>n. q = addonsDir @ [n]) \<and> pointsInto F (storeDir x) q
           then None else look F q)"
proof -
  let ?st0 = "setVar ''RELROOT'' (storeDir x) (setVar ''ADDONS'' addonsDir (initialShell F now))"
  let ?ns = "linksIn addonsDir F" and ?root = "storeDir x"
  have FI: "files (initialShell F now) = F" by (simp add: initialShell_def)
  have F: "files ?st0 = F" "moments ?st0 = moments (initialShell F now)" by (simp_all add: initialShell_def)
  have no_store: "n \<noteq> syncReleasesDir" if "n \<in> set ?ns" for n
    using that volumeShapeD(4) [OF shape] by (auto simp: linksIn_def isSymlink_iff releasesDir_def)
  then obtain st1 where run1: "iterate (\<lambda>n st'. execs R cleanupBody (setVar ''link'' (addonsDir @ [n]) st')) ?ns ?st0 = (Running, st1)"
    and k1: "kept [''link''] ?st0 st1" and w1: "within (cleanupArea ?ns) ?st0 st1" and g1: "goes (onlyRemoved F) ?st0 st1"
    and l1: "\<And>q. look (files st1) q =
      (if \<exists>n \<in> set ?ns. q = addonsDir @ [n] \<and> pointsInto F ?root q then None else look F q)"
    using cleanup_iterate [of ?st0 ?root ?ns ?ns R] unfolding F by (auto simp: setVar_simps)
  define st2 where "st2 = st1\<lparr>vars := vars ?st0\<rparr>"
  define st3 where "st3 = doCalls (rmRf ?root (files st2)) st2"
  have "exec R cleanupLoop ?st0 = (Running, st2)"
    using run1 by (simp add: cleanupLoop_def cleanupBody_def inSubshell_def st2_def FI del: execs.simps)
  moreover have "isDirectory F addonsDir" using volumeShapeD(3) [OF shape] by (rule isDirectory_Directory)
  ultimately have run: "runCleanup R x F now = (Running, st3)"
    by (simp add: runCleanup_def cleanupProgram_def runUtility_def st3_def F del: setVar_simps)
      (simp add: st2_def)
  have area: "\<not> prefix d q" if "d \<in> cleanupArea ?ns" "prefix releasesDir q" for d q
    using that no_store entry_not_store by (auto simp: cleanupArea_def)
  have g: "goes (cleanupSafe F) ?st0 st1"
    using goes_conj [OF g1 w1 [unfolded within_def F]]
  proof (rule goes_mono, elim conjE)
    fix G assume G: "onlyRemoved F G" "agrees (cleanupArea ?ns) F G"
    show "cleanupSafe F G"
      unfolding cleanupSafe_def
    proof (intro allI impI, elim conjE)
      fix n t assume "look G (addonsDir @ [n]) = Some (Link t)" and t: "prefix releasesDir t"
      then have "look F (addonsDir @ [n]) = Some (Link t)" using G(1) unfolding onlyRemoved_def by (metis option.discI)
      moreover have "look G (t @ q) = look F (t @ q)" for q
        using area [of _ "t @ q"] t by (intro agrees_look [OF G(2)]) (auto simp: prefix_def)
      ultimately show "look F (addonsDir @ [n]) = Some (Link t) \<and> (\<forall>q. look G (t @ q) = look F (t @ q))" by blast
    qed
  qed
  have l1': "look (files st1) q = (if (\<exists>n. q = addonsDir @ [n]) \<and> pointsInto F ?root q then None else look F q)" for q
  proof -
    have "n \<in> set ?ns" if "pointsInto F ?root (addonsDir @ [n])" for n
      using that by (auto simp: pointsInto_def linksIn_def in_entryNames isSymlink_iff split: option.splits node.splits)
    then show ?thesis by (auto simp: l1)
  qed
  have "goes (agree ?root (files st1)) st2 st3"
    unfolding st3_def by (rule goes_mono [OF goes_below [OF rmRf_below]]) (simp add: st2_def)
  then have "goes (cleanupSafe F) st2 st3"
  proof (rule goes_mono)
    fix G assume G: "agree ?root (files st1) G"
    show "cleanupSafe F G"
      unfolding cleanupSafe_def
    proof (intro allI impI, elim conjE)
      fix n t assume n: "visible n" and link: "look G (addonsDir @ [n]) = Some (Link t)" and t: "prefix releasesDir t"
      have "look G (addonsDir @ [n]) = look (files st1) (addonsDir @ [n])"
        using agree_look [OF G] store_not_entry [of x "[]" n] by simp
      with link have old: "look F (addonsDir @ [n]) = Some (Link t)" and out: "\<not> pointsInto F ?root (addonsDir @ [n])"
        by (auto simp: l1' split: if_splits)
      obtain y c where yc: "t = storeDir y @ [c, n]" using linksRecordedD [OF rec n old t] by blast
      moreover have "y \<noteq> x" using out old yc by (auto simp: pointsInto_def strict_prefix_def)
      ultimately have "\<not> prefix ?root (t @ q)" for q by (auto simp: storeDir_def)
      moreover have "t @ q \<noteq> addonsDir @ [k]" for q k using yc by (auto simp: storeDir_def releasesDir_def)
      ultimately have "look G (t @ q) = look F (t @ q)" for q
        using agree_look [OF G] by (auto simp: l1')
      with old show "look F (addonsDir @ [n]) = Some (Link t) \<and> (\<forall>q. look G (t @ q) = look F (t @ q))" by blast
    qed
  qed
  moreover have "goes (cleanupSafe F) (initialShell F now) st2"
    using g by (rule goes_here) (simp_all add: st2_def initialShell_def)
  ultimately have "goes (cleanupSafe F) (initialShell F now) st3" using goes_trans by blast
  with run show thesis
    by (rule that) (auto simp: st3_def st2_def looks l1')
qed

section \<open>Sequences of runs\<close>

text \<open>The scratch directory of a pod is gone with the pod.\<close>

definition podGone :: "file_system \<Rightarrow> file_system" where
  "podGone F = F\<lparr>fsNodes := filter (\<lambda>e. \<not> strict_prefix [''tmp''] (fst e)) (fsNodes F)\<rparr>"

inductive volumeHistory :: "file_system \<Rightarrow> bool" where
  new: "volumeShape F \<Longrightarrow> linksIn addonsDir F = [] \<Longrightarrow> volumeHistory F"
| synced: "volumeHistory F \<Longrightarrow> commitReady R s F now \<Longrightarrow> volumeHistory (podGone (files (snd (runSync R s F now))))"
| cleaned: "volumeHistory F \<Longrightarrow> volumeHistory (podGone (files (snd (runCleanup R x F now))))"

definition plainDirs :: "path list \<Rightarrow> (path \<times> node) list" where
  "plainDirs ps = map (\<lambda>p. (p, Directory)) ps"

definition sampleVolume :: file_system where
  "sampleVolume = \<lparr>fsNodes = plainDirs [[''mnt''], [''mnt'', ''odoo''], addonsDir, [''tmp'']], fsTimes = (\<lambda>p. 0)\<rparr>"

definition sampleSync :: "string \<Rightarrow> syncSpec" where
  "sampleSync addonPath = \<lparr>ssGitURL = ''https://host/repo.git'', ssGitRef = ''main'', ssAddonName = ''acme'',
     ssModuleName = ''acme'', ssAddonPath = addonPath, ssSingleAddon = False, ssSecretName = '''', ssAuth = authNone\<rparr>"

definition sampleRemote :: remote where
  "sampleRemote = \<lparr>fetchedTree = Some (plainDirs [[], [''v16''], [''v16'', ''crm''], [''v17''], [''v17'', ''crm'']]
       @ [([''v16'', ''crm'', syncManifest], File [''16.0'']), ([''v17'', ''crm'', syncManifest], File [''17.0''])]),
     headCommit = replicate 40 CHR ''a''\<rparr>"

lemma sample_ready: "syncReady sampleRemote (sampleSync ''v16'') sampleVolume 2"
  by code_simp
lemma sample_outcome: "syncOutcome sampleRemote (sampleSync ''v16'') sampleVolume 2 = Running"
  by code_simp
lemma sample_found: "discovered (sampleSync ''v16'') (checkedOut sampleRemote sampleVolume 2) = [''crm'']"
  by code_simp

lemma sample_run:
  obtains st where "runSync sampleRemote (sampleSync ''v16'') sampleVolume 2 = (Running, st)"
    and "files st \<in> set (moments st)"
    and "look (files st) (addonsDir @ [''crm'']) = Some (Link (releaseOf sampleRemote (sampleSync ''v16'') @ [''crm'']))"
    and "volumeShape (files st)" and "stdout st = [''modules: crm'', headCommit sampleRemote]"
proof -
  obtain st where run: "runSync sampleRemote (sampleSync ''v16'') sampleVolume 2 = (Running, st)"
    and g: "goes (momentSafe sampleRemote (sampleSync ''v16'') sampleVolume (checkedOut sampleRemote sampleVolume 2) [''crm''])
      (initialShell sampleVolume 2) st"
    and end_state: "synced sampleRemote (sampleSync ''v16'') sampleVolume (checkedOut sampleRemote sampleVolume 2) [''crm''] (files st)"
      "volumeShape (files st)" "stdout st = [''modules: crm'', headCommit sampleRemote]"
    using sync_run [OF sample_ready] by (auto simp: sample_outcome sample_found)
  have "visible ''crm''" by code_simp
  with end_state have link: "look (files st) (addonsDir @ [''crm'']) = Some (Link (releaseOf sampleRemote (sampleSync ''v16'') @ [''crm'']))"
    by (simp add: synced_def)
  moreover have "look sampleVolume (addonsDir @ [''crm'']) = None" by code_simp
  ultimately have "files st \<noteq> files (initialShell sampleVolume 2)" by (auto simp: initialShell_def)
  with g have "files st \<in> set (moments st)" by (auto simp: goes_def neq_Nil_conv)
  with that run link end_state show thesis by blast
qed

section \<open>Properties of a sync\<close>

lemma goes_moments: "goes P (initialShell F now) st \<Longrightarrow> G \<in> set (moments st) \<Longrightarrow> P G"
  by (auto simp: goes_def initialShell_def)

text \<open>C5: A sync run ends as the checks before its first write say. When it succeeds, the module links of the addon on
  the volume are exactly those of the modules the commit has, each into the release of that commit; the links of other
  addons, all other entries and the stores of other addons are as before; each published module is the copy the release
  already had or a copy of the commit's; the store's list names the modules; and the log reports them and the commit.
  When it fails, nothing on the volume has changed and nothing is reported.\<close>

theorem sync_run_exact:
  assumes "syncReady R s F now"
  shows "case runSync R s F now of (r, st) \<Rightarrow>
     r = syncOutcome R s F now
     \<and> (if r = Running then
          synced R s F (checkedOut R F now) (discovered s (checkedOut R F now)) (files st)
          \<and> stdout st = [''modules: '' @ joinWith '','' (discovered s (checkedOut R F now)), headCommit R]
        else stdout st = [] \<and> (\<forall>q. \<not> prefix [''tmp''] q \<longrightarrow> look (files st) q = look F q))"
  using sync_run [OF assms] by (fastforce split: if_splits)

theorem sync_run_exact_witness:
  "case runSync sampleRemote (sampleSync ''v16'') sampleVolume 2 of (r, st) \<Rightarrow>
     r = Running \<and> stdout st = [''modules: crm'', headCommit sampleRemote]"
  using sync_run_exact [OF sample_ready] by (auto simp: sample_outcome sample_found split: prod.splits)

text \<open>C6: Odoo never sees a half-copied module. At every moment of a sync run, also when the pod is stopped there, a
  module link that leads into a release store leads to a directory that is there, and it is either the link of before
  the run, to a release of which nothing has changed, or the link to the module the run publishes, whose copy is
  complete.\<close>

theorem sync_moments_whole:
  assumes "syncReady R s F now" and "G \<in> set (moments (snd (runSync R s F now)))"
    and "visible n" and "look G (addonsDir @ [n]) = Some (Link t)" and "prefix releasesDir t"
  shows "look G t = Some Directory
    \<and> (look F (addonsDir @ [n]) = Some (Link t) \<and> (\<forall>q. look G (t @ q) = look F (t @ q))
       \<or> n \<in> set (discovered s (checkedOut R F now)) \<and> t = releaseOf R s @ [n]
         \<and> (\<forall>q. look G (t @ q) = publishedAs (checkedOut R F now) (releaseOf R s) (sourceOf s) n q))"
proof -
  let ?ms = "discovered s (checkedOut R F now)"
  obtain st where run: "runSync R s F now = (syncOutcome R s F now, st)"
    and g: "goes (momentSafe R s F (checkedOut R F now) ?ms) (initialShell F now) st"
    using sync_run [OF assms(1)] by blast
  have "momentSafe R s F (checkedOut R F now) ?ms G" using goes_moments [OF g] assms(2) run by simp
  then have cases: "look F (addonsDir @ [n]) = Some (Link t) \<and> (\<forall>q. look G (t @ q) = look F (t @ q))
       \<or> n \<in> set ?ms \<and> t = releaseOf R s @ [n]
         \<and> (\<forall>q. look G (t @ q) = publishedAs (checkedOut R F now) (releaseOf R s) (sourceOf s) n q)"
    using assms(3-5) unfolding momentSafe_def by blast
  then have "look G t = Some Directory"
  proof
    assume old: "look F (addonsDir @ [n]) = Some (Link t) \<and> (\<forall>q. look G (t @ q) = look F (t @ q))"
    then have "look F t = Some Directory"
      using linksRecordedD [OF syncReadyD(2) [OF assms(1)] assms(3) _ assms(5)] by blast
    with spec [OF conjunct2 [OF old], of "[]"] show ?thesis by simp
  next
    assume new: "n \<in> set ?ms \<and> t = releaseOf R s @ [n]
         \<and> (\<forall>q. look G (t @ q) = publishedAs (checkedOut R F now) (releaseOf R s) (sourceOf s) n q)"
    from new have "look G (t @ []) = publishedAs (checkedOut R F now) (releaseOf R s) (sourceOf s) n []" by blast
    with new published_directory [OF assms(1)] show ?thesis by simp
  qed
  with cases show ?thesis by blast
qed

theorem sync_moments_whole_witness:
  "\<exists>G \<in> set (moments (snd (runSync sampleRemote (sampleSync ''v16'') sampleVolume 2))).
     look G (releaseOf sampleRemote (sampleSync ''v16'') @ [''crm'']) = Some Directory"
proof -
  obtain st where run: "runSync sampleRemote (sampleSync ''v16'') sampleVolume 2 = (Running, st)"
    and G: "files st \<in> set (moments st)"
    and link: "look (files st) (addonsDir @ [''crm'']) = Some (Link (releaseOf sampleRemote (sampleSync ''v16'') @ [''crm'']))"
    by (rule sample_run)
  have "visible ''crm''" by code_simp
  from sync_moments_whole [OF sample_ready _ this link release_paths(1)] G run show ?thesis by auto
qed

section \<open>Invariants of the volume\<close>

lemma volumeShape_cong:
  assumes "volumeShape F" and same: "\<And>q. \<not> prefix [''tmp''] q \<Longrightarrow> look G q = look F q"
  shows "volumeShape G"
proof (rule volumeShapeI)
  fix k :: nat assume "k \<in> {1, 2, 3}"
  then show "look G (take k addonsDir) = Some Directory"
    using volumeShapeD(1-3) [OF assms(1)] by (auto simp: same addonsDir_def numeral_eq_Suc)
next
  fix p d assume "look G p = Some d" "prefix releasesDir p"
  moreover from this(2) have "\<not> prefix [''tmp''] p" by (auto simp: releasesDir_def addonsDir_def prefix_def)
  ultimately show "placed p d" using volumeShape_place [OF assms(1)] by (simp add: same)
next
  fix n assume "prefix ''.'' n" "n \<noteq> syncReleasesDir"
  then show "look G (addonsDir @ [n]) \<noteq> Some Directory"
    using volumeShape_hidden [OF assms(1)] same [OF release_paths(3)] by simp
qed

lemma linksRecorded_cong:
  assumes "linksRecorded F" and same: "\<And>q. \<not> prefix [''tmp''] q \<Longrightarrow> look G q = look F q"
  shows "linksRecorded G"
proof (rule linksRecordedI)
  fix n t assume n: "visible n" and "look G (addonsDir @ [n]) = Some (Link t)" and t: "prefix releasesDir t"
  then have "look F (addonsDir @ [n]) = Some (Link t)" using same [OF release_paths(3)] by simp
  then obtain y c where "t = storeDir y @ [c, n]" "visible c" "look F t = Some Directory"
    "n \<in> set (linesOf F (storeDir y @ [syncModulesFile]))"
    using linksRecordedD [OF assms(1) n _ t] by blast
  moreover have "look G (storeDir y @ q) = look F (storeDir y @ q)" for q using same [OF release_paths(2)] by simp
  ultimately show "\<exists>x c. t = storeDir x @ [c, n] \<and> visible c \<and> look G t = Some Directory
      \<and> n \<in> set (linesOf G (storeDir x @ [syncModulesFile]))"
    by (auto simp: linesOf_def intro!: exI [of _ y])
qed

lemma cleanup_invariants:
  assumes shape: "volumeShape F" and rec: "linksRecorded F"
    and G: "\<And>q. look G q = (if prefix (storeDir x) q \<or> (\<exists>n. q = addonsDir @ [n]) \<and> pointsInto F (storeDir x) q
           then None else look F q)"
  shows "volumeShape G" and "linksRecorded G"
proof -
  have into: "\<not> pointsInto F p addonsDir" for p using volumeShapeD(3) [OF shape] by (simp add: pointsInto_def)
  show "volumeShape G"
  proof (rule volumeShapeI)
    fix k :: nat assume k: "k \<in> {1, 2, 3}"
    then have "\<not> prefix (storeDir x) (take k addonsDir)"
      using prefix_length_le [of "storeDir x" "take k addonsDir"] by (auto simp: storeDir_def releasesDir_def addonsDir_def)
    moreover have "take k addonsDir \<noteq> addonsDir @ [n]" for n
      using k by (auto simp: addonsDir_def numeral_eq_Suc)
    ultimately show "look G (take k addonsDir) = Some Directory"
      using k volumeShapeD(1-3) [OF shape] by (auto simp: G addonsDir_def numeral_eq_Suc)
  next
    fix p d assume "look G p = Some d" "prefix releasesDir p"
    then show "placed p d" using volumeShape_place [OF shape] by (simp add: G split: if_splits)
  next
    fix n assume "prefix ''.'' n" "n \<noteq> syncReleasesDir"
    then show "look G (addonsDir @ [n]) \<noteq> Some Directory"
      using volumeShape_hidden [OF shape] by (simp add: G)
  qed
  show "linksRecorded G"
  proof (rule linksRecordedI)
    fix n t assume n: "visible n" and link: "look G (addonsDir @ [n]) = Some (Link t)" and t: "prefix releasesDir t"
    from link have old: "look F (addonsDir @ [n]) = Some (Link t)" and out: "\<not> pointsInto F (storeDir x) (addonsDir @ [n])"
      by (auto simp: G split: if_splits)
    obtain y c where yc: "t = storeDir y @ [c, n]" "visible c" "look F t = Some Directory"
      and m: "n \<in> set (linesOf F (storeDir y @ [syncModulesFile]))"
      using linksRecordedD [OF rec n old t] by blast
    have "y \<noteq> x" using out old yc(1) by (auto simp: pointsInto_def strict_prefix_def)
    then have "look G (storeDir y @ k # q) = look F (storeDir y @ k # q)" for k q
      by (auto simp: G storeDir_def releasesDir_def)
    then have "look G (storeDir y @ [c, n]) = look F (storeDir y @ [c, n])"
      "look G (storeDir y @ [syncModulesFile]) = look F (storeDir y @ [syncModulesFile])" by blast+
    with yc m show "\<exists>x c. t = storeDir x @ [c, n] \<and> visible c \<and> look G t = Some Directory
      \<and> n \<in> set (linesOf G (storeDir x @ [syncModulesFile]))"
      by (auto simp: linesOf_def intro!: exI [of _ y])
  qed
qed

lemma sync_invariants:
  assumes "syncReady R s F now"
  shows "volumeShape (files (snd (runSync R s F now)))" and "linksRecorded (files (snd (runSync R s F now)))"
proof -
  obtain st where run: "runSync R s F now = (syncOutcome R s F now, st)"
    and bad: "syncOutcome R s F now \<noteq> Running \<Longrightarrow> \<forall>q. \<not> prefix [''tmp''] q \<longrightarrow> look (files st) q = look F q"
    and good: "syncOutcome R s F now = Running \<Longrightarrow>
      synced R s F (checkedOut R F now) (discovered s (checkedOut R F now)) (files st) \<and> volumeShape (files st)"
    using sync_run [OF assms] by blast
  show "volumeShape (files (snd (runSync R s F now)))" "linksRecorded (files (snd (runSync R s F now)))"
    using run bad good synced_recorded [OF assms] volumeShape_cong [OF syncReadyD(1) [OF assms]]
      linksRecorded_cong [OF syncReadyD(2) [OF assms]]
    by (cases "syncOutcome R s F now = Running"; simp)+
qed

lemma look_podGone: "look (podGone F) q = (if strict_prefix [''tmp''] q then None else look F q)"
  by (simp add: look_def podGone_def map_of_filter_key [where P = "\<lambda>p. \<not> strict_prefix [''tmp''] p"])

lemma podGone_same: "\<not> prefix [''tmp''] q \<Longrightarrow> look (podGone F) q = look F q"
  by (auto simp: look_podGone strict_prefix_def)

lemma history_invariants: "volumeHistory F \<Longrightarrow> volumeShape F \<and> linksRecorded F"
proof (induction rule: volumeHistory.induct)
  case (new F)
  have "linksRecorded F"
  proof (rule linksRecordedI)
    fix n t assume "look F (addonsDir @ [n]) = Some (Link t)"
    then have "n \<in> set (linksIn addonsDir F)" by (simp add: linksIn_def in_entryNames isSymlink_iff)
    with new show "\<exists>x c. t = storeDir x @ [c, n] \<and> visible c \<and> look F t = Some Directory
      \<and> n \<in> set (linesOf F (storeDir x @ [syncModulesFile]))" by simp
  qed
  with new show ?case by blast
next
  case (synced F R s now)
  then have "syncReady R s F now" by (simp add: syncReady_def)
  from sync_invariants [OF this] show ?case
    using volumeShape_cong linksRecorded_cong podGone_same by blast
next
  case (cleaned F R x now)
  then obtain st where run: "runCleanup R x F now = (Running, st)"
    and l: "\<And>q. look (files st) q = (if prefix (storeDir x) q \<or> (\<exists>n. q = addonsDir @ [n]) \<and> pointsInto F (storeDir x) q
           then None else look F q)"
    using cleanup_run by blast
  from cleanup_invariants [OF _ _ l] cleaned run show ?case
    using volumeShape_cong linksRecorded_cong podGone_same by simp
qed

text \<open>C10: Whatever syncs and cleanups have run on a volume that started without links, with whatever commits, specs and
  failures: a module link into the release stores never dangles. It leads to a directory of its own name in a release of
  some addon, and that addon's module list names it, so the next sync of the addon can find and drop it.\<close>

theorem volume_links_whole:
  assumes "volumeHistory F" and "visible n" and "look F (addonsDir @ [n]) = Some (Link t)" and "prefix releasesDir t"
  shows "\<exists>x c. t = storeDir x @ [c, n] \<and> look F t = Some Directory
    \<and> n \<in> set (linesOf F (storeDir x @ [syncModulesFile]))"
  using linksRecordedD [OF conjunct2 [OF history_invariants [OF assms(1)]] assms(2-4)] by blast

theorem volume_links_whole_witness:
  "\<exists>F x. volumeHistory F \<and> ''crm'' \<in> set (linesOf F (storeDir x @ [syncModulesFile]))"
proof -
  obtain st where run: "runSync sampleRemote (sampleSync ''v16'') sampleVolume 2 = (Running, st)"
    and link: "look (files st) (addonsDir @ [''crm'']) = Some (Link (releaseOf sampleRemote (sampleSync ''v16'') @ [''crm'']))"
    by (rule sample_run)
  have "volumeShape sampleVolume" "linksIn addonsDir sampleVolume = []"
    "commitReady sampleRemote (sampleSync ''v16'') sampleVolume 2" and crm: "visible ''crm''"
    by code_simp+
  from volumeHistory.synced [OF volumeHistory.new [OF this(1,2)] this(3)] run
  have hist: "volumeHistory (podGone (files st))" by simp
  from link have "look (podGone (files st)) (addonsDir @ [''crm'']) = Some (Link (releaseOf sampleRemote (sampleSync ''v16'') @ [''crm'']))"
    using podGone_same [OF release_paths(3)] by simp
  from volume_links_whole [OF hist crm this release_paths(1)] hist show ?thesis by blast
qed

end
