(* ===== verification/Volume_Safety.thy ===== *)
theory Volume_Safety
  imports Volume_History
begin

text \<open>
  What the runs of one addon leave alone, what a cleanup removes, that the operator records what is on the volume,
  and how a second sync of the same commit keeps the copies of the first.
\<close>

section \<open>Sample volumes\<close>

text \<open>A volume with the release of another addon, and one with a release of the sample commit whose copy of the module
  comes from another directory of the commit.\<close>

definition releaseNodes :: "string \<Rightarrow> string \<Rightarrow> string \<Rightarrow> string list \<Rightarrow> (path \<times> node) list" where
  "releaseNodes x sha m ls =
     plainDirs [releasesDir, storeDir x, storeDir x @ [sha], storeDir x @ [sha, m]]
     @ [(storeDir x @ [sha, m, syncManifest], File ls), (storeDir x @ [syncModulesFile], File [m]),
        (addonsDir @ [m], Link (storeDir x @ [sha, m]))]"

definition sharedVolume :: file_system where
  "sharedVolume = sampleVolume\<lparr>fsNodes := fsNodes sampleVolume @ releaseNodes ''other'' ''b'' ''web'' [''1.0'']\<rparr>"

definition resyncVolume :: file_system where
  "resyncVolume = sampleVolume\<lparr>fsNodes := fsNodes sampleVolume @ releaseNodes ''acme'' (replicate 40 CHR ''a'') ''crm'' [''16.0'']\<rparr>"

section \<open>One addon at a time\<close>

lemma sync_run_result:
  assumes "syncReady R s F now"
  obtains st where "runSync R s F now = (syncOutcome R s F now, st)"
    and "syncOutcome R s F now = Running \<Longrightarrow>
      synced R s F (checkedOut R F now) (discovered s (checkedOut R F now)) (files st)
      \<and> stdout st = [''modules: '' @ joinWith '','' (discovered s (checkedOut R F now)), headCommit R]"
    and "syncOutcome R s F now \<noteq> Running \<Longrightarrow> \<forall>q. \<not> prefix [''tmp''] q \<longrightarrow> look (files st) q = look F q"
  using sync_run [OF assms] by metis

lemma cleanup_result:
  assumes "volumeShape F" and "linksRecorded F"
  shows "\<exists>st. runCleanup R x F now = (Running, st)
    \<and> (\<forall>q. look (files st) q = (if prefix (storeDir x) q \<or> (\<exists>n. q = addonsDir @ [n]) \<and> pointsInto F (storeDir x) q
         then None else look F q))"
proof (rule cleanup_run [OF assms, where x = x and R = R and now = now])
  fix st assume "runCleanup R x F now = (Running, st)"
    and "\<And>q. look (files st) q = (if prefix (storeDir x) q \<or> (\<exists>n. q = addonsDir @ [n]) \<and> pointsInto F (storeDir x) q
      then None else look F q)"
  then show ?thesis by simp
qed

lemma pointsInto_other:
  assumes "pointsInto F (storeDir y) p" and "y \<noteq> x"
  shows "\<not> pointsInto F (storeDir x) p" and "pointsInto F releasesDir p"
  using assms by (auto simp: pointsInto_def storeDir_def strict_prefix_def prefix_def split: option.splits node.splits)

lemma found_not_conflicting:
  assumes "syncOutcome R s F now = Running" and "n \<in> set (discovered s (checkedOut R F now))"
  shows "\<not> conflicting F (storeDir (ssAddonName s)) n"
  using assms by (auto simp: syncOutcome_def Let_def list_ex_iff split: if_splits)

text \<open>C11: Addons do not touch each other. A sync of one addon, however it ends, and a cleanup of one addon leave the
  release store of every other addon and every module link into such a store exactly as they were.\<close>

theorem addons_isolated:
  assumes "syncReady R s F now" and "y \<noteq> ssAddonName s"
    and "G = files (snd (runSync R s F now)) \<or> G = files (snd (runCleanup R (ssAddonName s) F now))"
  shows "(\<forall>q. look G (storeDir y @ q) = look F (storeDir y @ q))
    \<and> (\<forall>n. visible n \<and> pointsInto F (storeDir y) (addonsDir @ [n]) \<longrightarrow>
          look G (addonsDir @ [n]) = look F (addonsDir @ [n]))"
proof -
  have "look G (storeDir y @ q) = look F (storeDir y @ q) \<and>
    (visible n \<and> pointsInto F (storeDir y) (addonsDir @ [n]) \<longrightarrow> look G (addonsDir @ [n]) = look F (addonsDir @ [n]))" for q n
    using assms(3)
  proof
    assume G: "G = files (snd (runSync R s F now))"
    obtain st where run: "runSync R s F now = (syncOutcome R s F now, st)"
      and good: "syncOutcome R s F now = Running \<Longrightarrow>
        synced R s F (checkedOut R F now) (discovered s (checkedOut R F now)) (files st)"
      and bad: "syncOutcome R s F now \<noteq> Running \<Longrightarrow> \<forall>q. \<not> prefix [''tmp''] q \<longrightarrow> look (files st) q = look F q"
      using sync_run_result [OF assms(1)] by metis
    show ?thesis
    proof (cases "syncOutcome R s F now = Running")
      case True
      have "n \<notin> set (discovered s (checkedOut R F now))" if "pointsInto F (storeDir y) (addonsDir @ [n])"
        using found_not_conflicting [OF True, of n] pointsInto_other [OF that assms(2)] by (auto simp: conflicting_def)
      with good [OF True] G run pointsInto_other(1) [OF _ assms(2)] show ?thesis
        using assms(2) unfolding synced_def by auto
    next
      case False
      have "\<not> prefix [''tmp''] (storeDir y @ q)" "\<not> prefix [''tmp''] (addonsDir @ [n])" by (rule release_paths)+
      with bad [OF False] G run show ?thesis by (simp del: prefix_snoc)
    qed
  next
    assume G: "G = files (snd (runCleanup R (ssAddonName s) F now))"
    obtain st where run: "runCleanup R (ssAddonName s) F now = (Running, st)"
      and l: "\<forall>q. look (files st) q = (if prefix (storeDir (ssAddonName s)) q
          \<or> (\<exists>n. q = addonsDir @ [n]) \<and> pointsInto F (storeDir (ssAddonName s)) q then None else look F q)"
      using cleanup_result [OF syncReadyD(1,2) [OF assms(1)]] by blast
    have "\<not> prefix (storeDir (ssAddonName s)) (storeDir y @ q)" "\<And>k. storeDir y @ q \<noteq> addonsDir @ [k]"
      "\<not> prefix (storeDir (ssAddonName s)) (addonsDir @ [n])"
      using assms(2) by (auto simp: storeDir_def releasesDir_def)
    with pointsInto_other(1) [OF _ assms(2)] show ?thesis using G run by (auto simp: l)
  qed
  then show ?thesis by blast
qed

theorem addons_isolated_witness:
  "case runSync sampleRemote (sampleSync ''v16'') sharedVolume 2 of (r, st) \<Rightarrow>
     r = Running \<and> look (files st) (addonsDir @ [''web'']) = Some (Link (storeDir ''other'' @ [''b'', ''web'']))
     \<and> look (files st) (storeDir ''other'' @ [''b'', ''web'', syncManifest]) = Some (File [''1.0''])"
proof -
  have ready: "syncReady sampleRemote (sampleSync ''v16'') sharedVolume 2"
    and outcome: "syncOutcome sampleRemote (sampleSync ''v16'') sharedVolume 2 = Running"
    and y: "''other'' \<noteq> ssAddonName (sampleSync ''v16'')" and n: "visible ''web''"
    and into: "pointsInto sharedVolume (storeDir ''other'') (addonsDir @ [''web''])"
    and old: "look sharedVolume (addonsDir @ [''web'']) = Some (Link (storeDir ''other'' @ [''b'', ''web'']))"
      "look sharedVolume (storeDir ''other'' @ [''b'', ''web'', syncManifest]) = Some (File [''1.0''])"
    by code_simp+
  obtain st where run: "runSync sampleRemote (sampleSync ''v16'') sharedVolume 2 = (Running, st)"
    using sync_run_result [OF ready] outcome by metis
  have "(\<forall>q. look (files st) (storeDir ''other'' @ q) = look sharedVolume (storeDir ''other'' @ q))
      \<and> (\<forall>n. visible n \<and> pointsInto sharedVolume (storeDir ''other'') (addonsDir @ [n]) \<longrightarrow>
            look (files st) (addonsDir @ [n]) = look sharedVolume (addonsDir @ [n]))"
    by (rule addons_isolated [OF ready y]) (simp add: run)
  with n into old run show ?thesis by auto
qed

text \<open>C25: A cleanup always succeeds and removes exactly what the addon owns: its release store and the links into it.
  Everything else on the volume, the shared directory included, is as before.\<close>

theorem cleanup_exact:
  assumes "volumeShape F" and "linksRecorded F"
  shows "case runCleanup R x F now of (r, st) \<Rightarrow> r = Running
    \<and> (\<forall>q. look (files st) q = (if prefix (storeDir x) q \<or> (\<exists>n. q = addonsDir @ [n]) \<and> pointsInto F (storeDir x) q
         then None else look F q))"
  using cleanup_result [OF assms, where R = R and x = x and now = now] by (elim exE conjE) simp

theorem cleanup_exact_witness:
  "case runCleanup sampleRemote ''other'' sharedVolume 2 of (r, st) \<Rightarrow>
     look (files st) (addonsDir @ [''web'']) = None \<and> look (files st) (storeDir ''other'') = None
     \<and> look (files st) releasesDir = Some Directory"
proof -
  have ready: "volumeShape sharedVolume" "linksRecorded sharedVolume"
    and n: "pointsInto sharedVolume (storeDir ''other'') (addonsDir @ [''web''])"
    and d: "look sharedVolume releasesDir = Some Directory" "\<not> prefix (storeDir ''other'') releasesDir"
      "\<not> pointsInto sharedVolume (storeDir ''other'') releasesDir"
    by code_simp+
  obtain st where run: "runCleanup sampleRemote ''other'' sharedVolume 2 = (Running, st)"
    and l: "\<forall>q. look (files st) q = (if prefix (storeDir ''other'') q
        \<or> (\<exists>n. q = addonsDir @ [n]) \<and> pointsInto sharedVolume (storeDir ''other'') q then None else look sharedVolume q)"
    using cleanup_exact [OF ready, where x = "''other''" and R = sampleRemote and now = 2] by (auto split: prod.splits)
  show ?thesis using n d by (simp add: run l)
qed

text \<open>What the operator records is what is on the volume. When a sync succeeds, reading its log back gives the commit
  that was checked out and a module list whose members are exactly the links into the addon's store.\<close>

theorem sync_report_matches_volume:
  assumes "syncReady R s F now" and "syncOutcome R s F now = Running" and "isCommitSHA (headCommit R)"
    and "list_all moduleNameOk (discovered s (checkedOut R F now))"
  shows "case runSync R s F now of (r, st) \<Rightarrow>
    (case parseSyncOutput (log @ nl # textLines (stdout st)) of (commit, modules) \<Rightarrow>
       commit = headCommit R
       \<and> (\<forall>n. visible n \<longrightarrow> n \<in> set modules \<longleftrightarrow> pointsInto (files st) (storeDir (ssAddonName s)) (addonsDir @ [n])))"
proof -
  let ?ms = "discovered s (checkedOut R F now)"
  obtain st where run: "runSync R s F now = (Running, st)"
    and G: "synced R s F (checkedOut R F now) ?ms (files st)"
    and out: "stdout st = [''modules: '' @ joinWith '','' ?ms, headCommit R]"
    using sync_run_result [OF assms(1)] assms(2) by metis
  have ne: "?ms \<noteq> []" using assms(2) by (auto simp: syncOutcome_def Let_def split: if_splits)
  have text_out: "textLines (stdout st) = modulesLinePrefix @ joinWith '','' ?ms @ nl # headCommit R @ [nl]"
    by (simp add: out textLines_def modulesLinePrefix_def)
  have read: "parseSyncOutput (log @ nl # textLines (stdout st)) = (headCommit R, sort_compact ?ms)"
    unfolding text_out by (rule parse_report [OF assms(3) ne assms(4)])
  have "n \<in> set ?ms \<longleftrightarrow> pointsInto (files st) (storeDir (ssAddonName s)) (addonsDir @ [n])" if "visible n" for n
  proof (cases "n \<in> set ?ms")
    case True
    then show ?thesis using G that by (simp add: synced_def pointsInto_def releaseOf_def strict_prefix_def)
  next
    case False
    then have "look (files st) (addonsDir @ [n]) =
      (if pointsInto F (storeDir (ssAddonName s)) (addonsDir @ [n]) then None else look F (addonsDir @ [n]))"
      using G that by (simp add: synced_def)
    with False show ?thesis by (auto simp: pointsInto_def split: if_splits)
  qed
  with run read show ?thesis by simp
qed

theorem sync_report_matches_volume_witness:
  "case runSync sampleRemote (sampleSync ''v16'') sampleVolume 2 of (r, st) \<Rightarrow>
     (case parseSyncOutput (''Cloning'' @ nl # textLines (stdout st)) of (commit, modules) \<Rightarrow>
        commit = replicate 40 CHR ''a'' \<and> ''web'' \<notin> set modules)"
proof -
  have "isCommitSHA (headCommit sampleRemote)"
    "list_all moduleNameOk (discovered (sampleSync ''v16'') (checkedOut sampleRemote sampleVolume 2))"
    unfolding sample_found by code_simp+
  note report = sync_report_matches_volume [OF sample_ready sample_outcome this, of "''Cloning''"]
  obtain st where run: "runSync sampleRemote (sampleSync ''v16'') sampleVolume 2 = (Running, st)"
    and G: "synced sampleRemote (sampleSync ''v16'') sampleVolume (checkedOut sampleRemote sampleVolume 2) [''crm''] (files st)"
    using sync_run_result [OF sample_ready] sample_outcome sample_found by metis
  have "visible ''web''" "look sampleVolume (addonsDir @ [''web'']) = None"
    and head: "headCommit sampleRemote = replicate 40 CHR ''a''"
    by code_simp+
  moreover from this(1,2) G have "\<not> pointsInto (files st) (storeDir (ssAddonName (sampleSync ''v16''))) (addonsDir @ [''web''])"
    unfolding synced_def by (auto simp: pointsInto_def)
  ultimately show ?thesis using report run by (auto split: prod.splits)
qed

section \<open>A second sync of the same commit\<close>

text \<open>C34: A re-sync of a commit keeps the copies its release already has. When the spec of the addon now names other
  sources for a module, for example another directory of the same commit, the sync succeeds, reports the module and
  leaves its link, but a file in which the old copy differs from the source now named still differs after the run.\<close>

theorem resync_keeps_old_copy:
  assumes "syncReady R s F now" and "syncOutcome R s F now = Running"
    and "m \<in> set (discovered s (checkedOut R F now))" and "look F (releaseOf R s @ [m]) \<noteq> None"
    and "look F (releaseOf R s @ m # q) \<noteq> copyOf (checkedOut R F now) (sourceOf s m) q"
  shows "case runSync R s F now of (r, st) \<Rightarrow>
    r = Running \<and> look (files st) (addonsDir @ [m]) = Some (Link (releaseOf R s @ [m]))
    \<and> look (files st) (releaseOf R s @ m # q) \<noteq> copyOf (checkedOut R F now) (sourceOf s m) q"
proof -
  let ?F1 = "checkedOut R F now"
  obtain st where run: "runSync R s F now = (Running, st)" and G: "synced R s F ?F1 (discovered s ?F1) (files st)"
    using sync_run_result [OF assms(1)] assms(2) by metis
  have same: "look ?F1 (releaseOf R s @ p) = look F (releaseOf R s @ p)" for p
    by (rule checkedOut_outside) (simp add: releaseOf_def release_paths(2) del: append.simps)
  have "look (files st) (releaseOf R s @ m # q) = look F (releaseOf R s @ m # q)"
    using G assms(3,4) same [of "[m]"] same [of "m # q"] by (simp add: synced_def publishedAs_def)
  moreover have "look (files st) (addonsDir @ [m]) = Some (Link (releaseOf R s @ [m]))"
    using G assms(3) syncReadyD(6) [OF assms(1,3)] by (simp add: synced_def)
  ultimately show ?thesis using run assms(5) by simp
qed

theorem resync_keeps_old_copy_witness:
  "case runSync sampleRemote (sampleSync ''v17'') resyncVolume 2 of (r, st) \<Rightarrow>
     r = Running \<and> look (files st) (releaseOf sampleRemote (sampleSync ''v17'') @ [''crm'', syncManifest]) \<noteq> Some (File [''17.0''])"
proof -
  have "syncReady sampleRemote (sampleSync ''v17'') resyncVolume 2"
    "syncOutcome sampleRemote (sampleSync ''v17'') resyncVolume 2 = Running"
    "''crm'' \<in> set (discovered (sampleSync ''v17'') (checkedOut sampleRemote resyncVolume 2))"
    "look resyncVolume (releaseOf sampleRemote (sampleSync ''v17'') @ [''crm'']) \<noteq> None"
    "look resyncVolume (releaseOf sampleRemote (sampleSync ''v17'') @ ''crm'' # [syncManifest])
      \<noteq> copyOf (checkedOut sampleRemote resyncVolume 2) (sourceOf (sampleSync ''v17'') ''crm'') [syncManifest]"
    and src: "copyOf (checkedOut sampleRemote resyncVolume 2) (sourceOf (sampleSync ''v17'') ''crm'') [syncManifest]
      = Some (File [''17.0''])"
    by code_simp+
  from resync_keeps_old_copy [OF this(1-5)] src show ?thesis by (auto split: prod.splits)
qed

end
