(* ===== verification/Pass_Rest.thy ===== *)
theory Pass_Rest
  imports Operator_Setup
begin

text \<open>
  When an addon, an upgrade or a backup may be left alone: a pass that reports no error and asks for no further pass has found the
  object gone or finished, or has stored its end. And the one case in which that is too early: a scheduled backup of an instance
  without a database.
\<close>

section \<open>Gone or finished\<close>

fun endedObj :: "obj \<Rightarrow> bool" where
  "endedObj (OUpgrade u) = upgradePhaseTerminal (upPhase (upStatus u))"
| "endedObj (OBackup b) = backupPhaseTerminal (bkPhase (bkStatus b))"
| "endedObj _ = False"

lemma key_simps [simp]:
  "objKey (OUpgrade u) = (metaNamespace (upMeta u), metaName (upMeta u))"
  "objKey (OBackup b) = (metaNamespace (bkMeta b), metaName (bkMeta b))"
  by (simp_all add: objKey_def)

text \<open>The calls show the object of the key gone, finished, or stored as finished; or a server that answers with another object.\<close>

definition overFor :: "kind \<Rightarrow> nsname \<Rightarrow> history \<Rightarrow> bool" where
  "overFor k key h \<longleftrightarrow>
     (\<exists>e. (Get k key, RErr e) \<in> set h \<and> isNotFound e)
     \<or> (\<exists>x. (Get k key, RObj x) \<in> set h \<and> (endedObj x \<or> objKey x \<noteq> key))
     \<or> (\<exists>x p. (StatusUpdate x, p) \<in> set h \<and> objKey x = key \<and> endedObj x
          \<and> (case errReply p of None \<Rightarrow> True | Some e \<Rightarrow> isNotFound e))"

definition restsWell :: "kind \<Rightarrow> nsname \<Rightarrow> outcome \<Rightarrow> history \<Rightarrow> bool" where
  "restsWell k key res h \<longleftrightarrow> asksAgain res \<or> overFor k key h"

lemma overFor_grows: "overFor k key h \<Longrightarrow> set h \<subseteq> set l \<Longrightarrow> overFor k key l"
  unfolding overFor_def by blast

lemma overFor_append: "overFor k key h \<Longrightarrow> overFor k key (h @ l)"
  by (erule overFor_grows) simp

lemma restsWell_asks [simp]: "restsWell k key (r, Some e) h" "0 < r \<Longrightarrow> restsWell k key (r, None) h"
  by (simp_all add: restsWell_def)

lemma restsWell_over: "overFor k key h \<Longrightarrow> restsWell k key res h"
  by (simp add: restsWell_def)

text \<open>What a write of a final phase shows: an error, or the end; an error that is tolerated is the end, too.\<close>

definition finalWrite :: "kind \<Rightarrow> nsname \<Rightarrow> goerr option \<Rightarrow> history \<Rightarrow> bool" where
  "finalWrite k key err h \<longleftrightarrow> (case err of None \<Rightarrow> overFor k key h | Some e \<Rightarrow> isNotFound e \<longrightarrow> overFor k key h)"

lemma finalWrite_simps [simp]:
  "finalWrite k key None h = overFor k key h" "finalWrite k key (Some e) h = (isNotFound e \<longrightarrow> overFor k key h)"
  by (simp_all add: finalWrite_def)

lemma read_missing: "objReply as p = Inl e \<Longrightarrow> isNotFound e \<Longrightarrow> overFor k key (h @ [(Get k key, p)])"
  using objReply_Inl_notFound [of as p e] by (auto simp: overFor_def)

lemma read_over: "(Get k key, RObj x) \<in> set h \<Longrightarrow> endedObj x \<or> objKey x \<noteq> key \<Longrightarrow> overFor k key h"
  unfolding overFor_def by blast

lemma write_refused: "errReply p = Some e \<Longrightarrow> p = RErr e"
  by (cases p) auto

lemma write_ends:
  "endedObj x \<Longrightarrow> objKey x = key \<Longrightarrow> (case errReply p of None \<Rightarrow> True | Some e \<Rightarrow> isNotFound e) \<Longrightarrow> overFor k key (h @ [(StatusUpdate x, p)])"
  unfolding overFor_def by auto

lemma ended_commit:
  assumes "objKey x = key" "endedObj x" and emit: "\<And>P. (\<And>e. P (EmitEvent e)) \<Longrightarrow> only P m"
  shows "wp (do { err \<leftarrow> updateStatus C x; case err of Some e \<Rightarrow> State_Monad.return (Some e)
      | None \<Rightarrow> do { _ \<leftarrow> m; State_Monad.return None } }) (finalWrite k key) h"
  unfolding updateStatus_def doCall_def
  by (intro wp_bind wp_ask wp_option wp_return wp_only [OF emit [of "\<lambda>_. True"]])
    (auto intro!: overFor_append [OF write_ends] write_ends simp: assms simp flip: append_assoc)

lemma ended_retry:
  assumes "\<And>h. wp body (finalWrite k key) h"
  shows "wp (do { err \<leftarrow> retryOnConflict n body; State_Monad.return (ignoreNotFound err) }) (\<lambda>err h. err \<noteq> None \<or> overFor k key h) h"
proof (rule wp_bind, rule wp_mono)
  show "wp (retryOnConflict n body) (finalWrite k key) h"
    by (rule wp_retry [where I = "\<lambda>_. True"]) (simp_all add: assms)
  show "wp (State_Monad.return (ignoreNotFound err)) (\<lambda>err h. err \<noteq> None \<or> overFor k key h) l" if "finalWrite k key err l" for err l
    using that by (intro wp_return) (auto simp: ignoreNotFound_def finalWrite_def split: option.splits)
qed

lemma ended_result: "wp m (\<lambda>err h. err \<noteq> None \<or> overFor k key h) h \<Longrightarrow>
    wp (do { err \<leftarrow> m; State_Monad.return (r, err) }) (restsWell k key) h"
  by (rule wp_bind, erule wp_mono) (auto intro!: wp_return simp: restsWell_def asksAgain_def)

section \<open>Upgrades\<close>

definition setsFinal :: "string \<Rightarrow> 'w status_change \<Rightarrow> bool" where
  "setsFinal target mutate \<longleftrightarrow> upgradePhaseTerminal target
     \<and> (\<forall>s. yields (\<lambda>t. upPhase t = target) (mutate s) \<and> only (\<lambda>_. True) (mutate s))"

lemma setsFinal_simps [simp]:
  "setsFinal UpgradePhaseFailed (failUpgrade msg)" "setsFinal UpgradePhaseFailed (failUpgradeNow C msg)"
  "setsFinal UpgradePhaseSucceeded (\<lambda>s. State_Monad.return (s\<lparr>upPhase := UpgradePhaseSucceeded, upMessage := '''', upCompletionTime := c\<rparr>))"
  unfolding setsFinal_def failUpgrade_def failUpgradeNow_def call_defs
  by (auto intro!: yields_intros frame_intros simp: upgradePhaseTerminal_def)

lemma upgrade_once_ends:
  assumes "setsFinal target mutate"
  shows "wp (upgradeWriteOnce C key target reason mutate) (finalWrite KUpgrade key) h"
proof -
  have target: "upgradePhaseTerminal target" "target \<noteq> UpgradePhasePending" 
      and result: "\<And>s. yields (\<lambda>t. upPhase t = target) (mutate s)" "\<And>s. only (\<lambda>_. True) (mutate s)"
    using assms by (auto simp: setsFinal_def upgradePhaseTerminal_def)
  have commit: "wp (upgradeCommit C cur (upgradeNewStatus C cur reason t)) (finalWrite KUpgrade key) l"
    if "upPhase t = target" "\<not> upgradePhaseTerminal (upPhase (upStatus cur))" "(metaNamespace (upMeta cur), metaName (upMeta cur)) = key" for cur t l
  proof -
    have phase: "upPhase (upgradeNewStatus C cur reason t) = target" using that(1) by (simp add: upgradeNewStatus_def Let_def)
    then have "upgradeNewStatus C cur reason t \<noteq> upStatus cur" using target(1) that(2) by auto
    then show ?thesis
      unfolding upgradeCommit_def using that(3) target(1) phase by (auto intro!: ended_commit only_emitEvents)
  qed
  have wrong: "wp (upgradeCommit C cur t) (finalWrite KUpgrade key) l" if "overFor KUpgrade key l" for cur t l
  proof (rule wp_only)
    show "only (\<lambda>_. True) (upgradeCommit C cur t)" unfolding upgradeCommit_def call_defs by (auto intro!: frame_intros)
    show "finalWrite KUpgrade key a (l @ k)" for a k using overFor_append [OF that] by (cases a) auto
  qed
  have change: "wp (mutate (upStatus cur)) (\<lambda>t. wp (upgradeCommit C cur (upgradeNewStatus C cur reason t)) (finalWrite KUpgrade key))
      (h @ [(Get KUpgrade key, RObj (OUpgrade cur))])" if "\<not> upgradePhaseTerminal (upPhase (upStatus cur))" for cur
  proof (rule wp_yields [OF result])
    fix t :: upgrade_status and l
    assume t: "upPhase t = target"
    show "wp (upgradeCommit C cur (upgradeNewStatus C cur reason t)) (finalWrite KUpgrade key) ((h @ [(Get KUpgrade key, RObj (OUpgrade cur))]) @ l)"
    proof (cases "(metaNamespace (upMeta cur), metaName (upMeta cur)) = key")
      case False
      then show ?thesis by (intro wrong overFor_append read_over [where x = "OUpgrade cur"]) simp_all
    qed (rule commit [OF t that])
  qed
  show ?thesis
    unfolding upgradeWriteOnce_def getUpgrade_def
    by (rule wp_bind, rule wp_ask, rule wp_sum; (intro wp_if wp_return wp_bind)?)
      (use target(2) change in \<open>auto simp: objReply_Inr_iff intro: read_missing read_over\<close>)
qed

lemma upgrade_write_ends:
  "setsFinal target mutate \<Longrightarrow>
   wp (do { err \<leftarrow> upgradeWriteStatus C key target reason mutate; State_Monad.return (r, err) }) (restsWell KUpgrade key) h"
  unfolding upgradeWriteStatus_def by (rule ended_result, rule ended_retry, rule upgrade_once_ends)

lemma asks_rests: "yields asksAgain m \<Longrightarrow> wp m (restsWell k key) h"
  by (simp add: wp_def yields_def restsWell_def)

lemma over_rests: "only (\<lambda>_. True) m \<Longrightarrow> overFor k key h \<Longrightarrow> wp m (restsWell k key) h"
  by (erule wp_only) (auto intro: restsWell_over overFor_append)

lemma upgrade_pending_asks: "yields asksAgain (upgradeSetPending C key reason msg)"
  unfolding upgradeSetPending_def by (auto intro!: yields_intros simp: asksAgain_def upgradeRequeuePending_def)

lemma upgrade_start_rests:
  assumes "key = (metaNamespace (upMeta up), metaName (upMeta up))"
  shows "wp (upgradeStart C up inst) (restsWell KUpgrade key) h"
proof (cases "upgradeDatabase up inst = ''''")
  case True
  show ?thesis unfolding upgradeStart_def Let_def assms if_P [OF True] by (intro upgrade_write_ends setsFinal_simps)
next
  case False
  have "yields asksAgain (upgradeStart C up inst)"
    unfolding upgradeStart_def Let_def if_not_P [OF False]
    by (auto intro!: yields_intros simp: asksAgain_def upgradeRequeueRunning_def)
  then show ?thesis by (rule asks_rests)
qed

lemma upgrade_monitor_rests:
  assumes "key = (metaNamespace (upMeta up), metaName (upMeta up))"
  shows "wp (upgradeMonitor C up) (restsWell KUpgrade key) h"
proof -
  have running: "wp (State_Monad.return (upgradeRequeueRunning, None)) (restsWell KUpgrade key) l" for l
    by (rule wp_return) (simp add: upgradeRequeueRunning_def)
  show ?thesis
    unfolding upgradeMonitor_def Let_def assms [symmetric]
    apply (rule wp_skip, rule wp_sum)
     apply (rule wp_if, rule wp_return, simp, rule wp_skip, rule wp_if, rule running, rule upgrade_write_ends, simp)
    apply (rule wp_if, rule wp_skip, rule upgrade_write_ends, simp)
    by (rule wp_if, rule wp_skip, rule upgrade_write_ends, simp, rule running)
qed

lemma upgrade_admit_rests:
  assumes "key = (metaNamespace (upMeta up), metaName (upMeta up))"
  shows "wp (upgradeAdmit C key up) (restsWell KUpgrade key) h"
proof -
  note ends_ = upgrade_write_ends [OF setsFinal_simps(1)] asks_rests [OF upgrade_pending_asks] upgrade_start_rests [OF assms]
  show ?thesis
    unfolding upgradeAdmit_def Let_def
    apply (rule wp_option, rule wp_skip, rule wp_sum, rule wp_if, rule ends_, rule wp_return, simp)
     apply (rule wp_skip, rule wp_sum, rule wp_return, simp, rule wp_if, rule ends_, rule ends_)
    by (rule ends_)
qed

lemma upgrade_calls:
  "only (\<lambda>_. True) (upgradeWriteStatus C key target reason (failUpgrade msg))"
  "only (\<lambda>_. True) (upgradeWriteStatus C key target reason (failUpgradeNow C msg))"
  "only (\<lambda>_. True) (upgradeWriteStatus C key target reason (startUpgrade n now))"
  "only (\<lambda>_. True) (upgradeWriteStatus C key target reason (\<lambda>s. State_Monad.return (f s)))"
  unfolding upgradeWriteStatus_def upgradeWriteOnce_def upgradeCommit_def failUpgrade_def failUpgradeNow_def startUpgrade_def call_defs
  by (auto intro!: frame_intros)

lemma upgrade_only:
  "only (\<lambda>_. True) (upgradeMonitor C up)" "only (\<lambda>_. True) (upgradeAdmit C key up)" "only (\<lambda>_. True) (upgradeBackfillConditions C key)"
  unfolding upgradeMonitor_def upgradeAdmit_def upgradeStart_def upgradeSetPending_def upgradeOdooPodNode_def upgradeLogTail_def
    upgradeJobCompletion_def upgradeBackfillConditions_def upgradeBackfillOnce_def Let_def call_defs
  by (auto intro!: frame_intros upgrade_calls)

lemma upgrade_rests: "wp (upgradeReconcile C key) (restsWell KUpgrade key) []"
proof -
  have gone: "restsWell KUpgrade key (0, ignoreNotFound (Some e)) [(Get KUpgrade key, p)]" if "objReply asUpgrade p = Inl e" for e p
    using read_missing [OF that, of KUpgrade key "[]"] by (auto simp: ignoreNotFound_def intro: restsWell_over)
  have rest: "wp (case berr of Some e \<Rightarrow> State_Monad.return (0, Some e)
       | None \<Rightarrow> if upgradePhaseTerminal (upPhase (upStatus up)) then State_Monad.return (0, None)
           else if upPhase (upStatus up) = UpgradePhaseRunning \<and> upJobName (upStatus up) \<noteq> '''' then upgradeMonitor C up
           else upgradeAdmit C key up) (restsWell KUpgrade key) h"
    if read: "(Get KUpgrade key, RObj (OUpgrade up)) \<in> set h" for berr up h
  proof (cases "key = (metaNamespace (upMeta up), metaName (upMeta up))")
    case True
    have ended: "restsWell KUpgrade key (0, None) h" if "upgradePhaseTerminal (upPhase (upStatus up))"
      by (rule restsWell_over [OF read_over [OF read]]) (simp add: that)
    show ?thesis
      by (intro wp_option wp_if wp_return upgrade_monitor_rests [OF True] upgrade_admit_rests [OF True] ended) simp_all
  next
    case False
    then have "overFor KUpgrade key h" by (intro read_over [OF read]) auto
    then show ?thesis
      by (intro wp_option wp_if wp_return over_rests upgrade_only restsWell_over) simp_all
  qed
  have fill: "only (\<lambda>_. True) (if b then upgradeBackfillConditions C key else State_Monad.return None)" for b
    by (intro frame_intros upgrade_only)
  show ?thesis
    unfolding upgradeReconcile_def getUpgrade_def
    apply (rule wp_bind, rule wp_ask, rule wp_sum)
     apply (rule wp_return, simp add: gone)
    apply (rule wp_bind, rule wp_only [OF fill], rule rest)
    by (auto simp: objReply_Inr_iff)
qed

section \<open>Backups\<close>

definition setsFinalBackup :: "string \<Rightarrow> 'w backup_change \<Rightarrow> bool" where
  "setsFinalBackup target mutate \<longleftrightarrow> backupPhaseTerminal target
     \<and> (\<forall>s. yields (\<lambda>t. bkPhase t = target) (mutate s) \<and> only (\<lambda>_. True) (mutate s))"

lemma setsFinalBackup_simps [simp]:
  "setsFinalBackup BackupPhaseFailed (failBackup msg)" "setsFinalBackup BackupPhaseFailed (failBackupNow C msg)"
  "setsFinalBackup BackupPhaseSucceeded (\<lambda>s. State_Monad.return
     (s\<lparr>bkPhase := BackupPhaseSucceeded, bkMessage := '''', bkCompletionTime := c, bkLastBackup := r\<rparr>))"
  "setsFinalBackup BackupPhaseFailed (\<lambda>s. State_Monad.return (s\<lparr>bkPhase := BackupPhaseFailed, bkCronJobName := n, bkMessage := m\<rparr>))"
  unfolding setsFinalBackup_def failBackup_def failBackupNow_def call_defs
  by (auto intro!: yields_intros frame_intros simp: backupPhaseTerminal_def)

lemma backup_once_ends:
  assumes "setsFinalBackup target mutate"
  shows "wp (backupWriteOnce C key target reason mutate) (finalWrite KBackup key) h"
proof -
  have target: "backupPhaseTerminal target" "target \<noteq> BackupPhasePending"
      and result: "\<And>s. yields (\<lambda>t. bkPhase t = target) (mutate s)" "\<And>s. only (\<lambda>_. True) (mutate s)"
    using assms by (auto simp: setsFinalBackup_def backupPhaseTerminal_def)
  have wrong: "wp (backupCommit C cur t) (finalWrite KBackup key) l" if "overFor KBackup key l" for cur t l
  proof (rule wp_only)
    show "only (\<lambda>_. True) (backupCommit C cur t)" unfolding backupCommit_def call_defs by (auto intro!: frame_intros)
    show "finalWrite KBackup key a (l @ k)" for a k using overFor_append [OF that] by (cases a) auto
  qed
  have commit: "wp (backupCommit C cur (backupNewStatus C cur reason t)) (finalWrite KBackup key) l"
    if "bkPhase t = target" "(Get KBackup key, RObj (OBackup cur)) \<in> set l" for cur t l
  proof (cases "overFor KBackup key l")
    case False
    have phase: "bkPhase (backupNewStatus C cur reason t) = target" using that(1) by (simp add: backupNewStatus_def Let_def)
    have cur: "\<not> backupPhaseTerminal (bkPhase (bkStatus cur))" "(metaNamespace (bkMeta cur), metaName (bkMeta cur)) = key"
      using False read_over [OF that(2)] by auto
    then have "backupNewStatus C cur reason t \<noteq> bkStatus cur" using target(1) phase cur(1) by metis
    then show ?thesis
      unfolding backupCommit_def using cur(2) target(1) phase by (auto intro!: ended_commit only_emitEvents)
  qed (rule wrong)
  have change: "wp (mutate (bkStatus cur)) (\<lambda>t. wp (backupCommit C cur (backupNewStatus C cur reason t)) (finalWrite KBackup key))
      (h @ [(Get KBackup key, RObj (OBackup cur))])" for cur
    by (rule wp_yields [OF result], rule commit) simp_all
  show ?thesis
    unfolding backupWriteOnce_def getBackup_def
    by (rule wp_bind, rule wp_ask, rule wp_sum; (intro wp_if wp_return wp_bind)?)
      (use target(2) change in \<open>auto simp: objReply_Inr_iff intro: read_missing read_over\<close>)
qed

lemma backup_write_ends: "setsFinalBackup target mutate \<Longrightarrow> wp (endBackup C key target reason mutate) (restsWell KBackup key) h"
  unfolding endBackup_def backupWriteStatus_def by (rule ended_result, rule ended_retry, rule backup_once_ends)

lemma backup_pending_asks: "yields asksAgain (backupSetPending C key reason msg)"
  unfolding backupSetPending_def by (auto intro!: yields_intros simp: asksAgain_def backupRequeuePending_def)

lemma backup_start_rests:
  assumes "key = (metaNamespace (bkMeta bk), metaName (bkMeta bk))"
  shows "wp (backupStart C bk inst) (restsWell KBackup key) h"
proof (cases "backupDatabase bk inst = ''''")
  case True
  show ?thesis unfolding backupStart_def Let_def assms if_P [OF True] by (intro backup_write_ends setsFinalBackup_simps)
next
  case False
  have "yields asksAgain (backupStart C bk inst)"
    unfolding backupStart_def Let_def if_not_P [OF False]
    by (auto intro!: yields_intros simp: asksAgain_def backupRequeueRunning_def nilDestination_def)
  then show ?thesis by (rule asks_rests)
qed

lemma backup_monitor_rests:
  assumes "key = (metaNamespace (bkMeta bk), metaName (bkMeta bk))"
  shows "wp (backupMonitor C bk) (restsWell KBackup key) h"
proof -
  have running: "wp (State_Monad.return (backupRequeueRunning, None)) (restsWell KBackup key) l" for l
    by (rule wp_return) (simp add: backupRequeueRunning_def)
  show ?thesis
    unfolding backupMonitor_def Let_def assms [symmetric]
    apply (rule wp_skip, rule wp_sum)
     apply (rule wp_if, rule wp_return, simp, rule wp_skip, rule wp_if, rule running, rule backup_write_ends, simp)
    apply (rule wp_if, rule wp_skip, rule wp_skip, rule backup_write_ends, simp)
    by (rule wp_if, rule wp_skip, rule backup_write_ends, simp, rule running)
qed

lemma backup_admit_rests:
  assumes "key = (metaNamespace (bkMeta bk), metaName (bkMeta bk))"
  shows "wp (backupAdmit C key bk) (restsWell KBackup key) h"
proof -
  note ends_ = backup_write_ends [OF setsFinalBackup_simps(1)] asks_rests [OF backup_pending_asks] backup_start_rests [OF assms]
  show ?thesis
    unfolding backupAdmit_def Let_def
    apply (rule wp_option, rule wp_skip, rule wp_sum, rule wp_if, rule ends_, rule wp_return, simp)
     apply (rule wp_skip, rule wp_sum, rule wp_return, simp, rule wp_if, rule ends_, rule ends_)
    by (rule ends_)
qed

lemma backup_schedule_rests:
  assumes "key = (metaNamespace (bkMeta bk), metaName (bkMeta bk))"
  shows "wp (reconcileScheduled C bk) (restsWell KBackup key) h"
proof -
  have apply_: "wp (applySchedule C key desired) (restsWell KBackup key) l" for desired l
    unfolding applySchedule_def
    apply (rule wp_skip, rule wp_sum, rule wp_if, rule backup_write_ends, simp, rule wp_return, simp)
    by (rule asks_rests) (auto intro!: yields_intros simp: asksAgain_def backupRequeueScheduled_def)
  note ends_ = backup_write_ends [OF setsFinalBackup_simps(1)] asks_rests [OF backup_pending_asks] apply_
  show ?thesis
    unfolding reconcileScheduled_def Let_def assms [symmetric]
    apply (rule wp_option, rule wp_skip, rule wp_sum, rule wp_if, rule ends_, rule wp_return, simp)
     apply (rule wp_if, rule ends_, rule wp_skip, rule wp_option, rule wp_return, simp add: nilDestination_def)
     apply (rule wp_sum, rule wp_return, simp, rule ends_)
    by (rule ends_)
qed

lemma backup_calls:
  "only (\<lambda>_. True) (backupWriteStatus C key target reason (failBackup msg))"
  "only (\<lambda>_. True) (backupWriteStatus C key target reason (failBackupNow C msg))"
  "only (\<lambda>_. True) (backupWriteStatus C key target reason (startBackup n now))"
  "only (\<lambda>_. True) (backupWriteStatus C key target reason (scheduleBackup cron))"
  "only (\<lambda>_. True) (backupWriteStatus C key target reason (\<lambda>s. State_Monad.return (f s)))"
  unfolding backupWriteStatus_def backupWriteOnce_def backupCommit_def failBackup_def failBackupNow_def startBackup_def
    scheduleBackup_def call_defs
  by (auto intro!: frame_intros)

lemma backup_only: "only (\<lambda>_. True) (reconcileOneShot C bk)" "only (\<lambda>_. True) (reconcileScheduled C bk)"
  unfolding reconcileOneShot_def backupMonitor_def backupAdmit_def backupStart_def backupSetPending_def backupNodeFor_def
    backupOdooPodNode_def backupLogTail_def backupResultLine_def backupPodLogs_def backupLatestPod_def backupJobCompletion_def
    endBackup_def reconcileScheduled_def applySchedule_def backupApplyCronJob_def Let_def call_defs
  by (auto intro!: frame_intros backup_calls)

lemma backup_rests: "wp (backupReconcile C key) (restsWell KBackup key) []"
proof -
  have gone: "restsWell KBackup key (0, ignoreNotFound (Some e)) [(Get KBackup key, p)]" if "objReply asBackup p = Inl e" for e p
    using read_missing [OF that, of KBackup key "[]"] by (auto simp: ignoreNotFound_def intro: restsWell_over)
  have rest: "wp (if bkSchedule (bkSpec bk) \<noteq> '''' then reconcileScheduled C bk else reconcileOneShot C bk) (restsWell KBackup key) h"
    if read: "(Get KBackup key, RObj (OBackup bk)) \<in> set h" for bk h
  proof (cases "key = (metaNamespace (bkMeta bk), metaName (bkMeta bk))")
    case True
    have ended: "restsWell KBackup key (0, None) h" if "backupPhaseTerminal (bkPhase (bkStatus bk))"
      by (rule restsWell_over [OF read_over [OF read]]) (simp add: that)
    show ?thesis
      unfolding reconcileOneShot_def Let_def True [symmetric]
      by (intro wp_if wp_return backup_schedule_rests [OF True] backup_monitor_rests [OF True] backup_admit_rests [OF True] ended)
  next
    case False
    then have "overFor KBackup key h" by (intro read_over [OF read]) auto
    then show ?thesis by (intro wp_if over_rests backup_only)
  qed
  show ?thesis
    unfolding backupReconcile_def getBackup_def
    apply (rule wp_bind, rule wp_ask, rule wp_sum)
     apply (rule wp_return, simp add: gone)
    by (rule rest) (auto simp: objReply_Inr_iff)
qed

section \<open>Properties\<close>

text \<open>C23: Nothing is dropped by accident: a pass over an upgrade or a backup that reports no error and asks for no further pass has
  found the object gone or in a final phase, or has stored a final phase (or found it gone then), whatever the cluster answers;
  the one exception is a server that answers with an object of another name. Such a pass over an addon has found it gone, or
  being deleted with its finalizer gone; the one exception is a clock a century behind.\<close>

theorem unfinished_never_rest:
  "restsWell KUpgrade key (resultOf (upgradeReconcile C key) w) (callsOf (upgradeReconcile C key) w)
   \<and> restsWell KBackup key (resultOf (backupReconcile C key) w) (callsOf (backupReconcile C key) w)
   \<and> restJustified C key (resultOf (ReconcileAddon C key) w) (callsOf (ReconcileAddon C key) w)"
  by (intro conjI addon_reconcile_never_rests wp_callsOf [OF upgrade_rests] wp_callsOf [OF backup_rests])

section \<open>A scheduled backup that is left alone too early\<close>

definition wakesOn :: "controller_setup \<Rightarrow> kind \<Rightarrow> bool" where
  "wakesOn cs k \<longleftrightarrow> For cs = k \<or> Objects k \<in> set (Owns cs) \<or> k \<in> set (Watches cs)"

text \<open>A nightly backup that takes its database from the instance, and a cluster with both, where only the CronJob is missing.\<close>

definition nightly :: backup where
  "nightly = claimBackup\<lparr>bkSpec := (bkSpec claimBackup)\<lparr>bkDatabase := '''', bkSchedule := ''0 2 * * *''\<rparr>\<rparr>"

definition nightlyInstance :: "string \<Rightarrow> odoo_instance" where
  "nightlyInstance db = (bareInstance ''shop'' ''ns'')\<lparr>instSpec := zeroInstanceSpec\<lparr>instPostgres :=
     \<lparr>pgHost = ''db'', pgPort = 5432, pgDatabase = db, pgUser = ''odoo'', pgPasswordSecret = ''''\<rparr>\<rparr>\<rparr>"

definition nightlyCluster :: "backup \<Rightarrow> string \<Rightarrow> unit cluster" where
  "nightlyCluster b db = (scripted (\<lambda>r. case r of
       Get KBackup key \<Rightarrow> RObj (OBackup b)
     | Get KInstance key \<Rightarrow> RObj (OInstance (nightlyInstance db))
     | Get k key \<Rightarrow> RErr (ApiError NotFound '''')
     | ListIn k ns l \<Rightarrow> RObjs []
     | _ \<Rightarrow> ROk))\<lparr>hasRecorder := False\<rparr>"

lemma nightly_answers:
  "api (nightlyCluster b db) (Get KBackup key) s = (RObj (OBackup b), s)"
  "api (nightlyCluster b db) (Get KInstance key) s = (RObj (OInstance (nightlyInstance db)), s)"
  "api (nightlyCluster b db) (Get KCronJob key) s = (RErr (ApiError NotFound ''''), s)"
  "api (nightlyCluster b db) (ListIn k ns l) s = (RObjs [], s)" "api (nightlyCluster b db) (StatusUpdate x) s = (ROk, s)"
  "api (nightlyCluster b db) (Create x) s = (ROk, s)"
  "hasRecorder (nightlyCluster b db) = False" "retrySteps (nightlyCluster b db) = 4"
  "SetControllerReference (nightlyCluster b db) = refSetController"
  by (simp_all add: nightlyCluster_def scripted_def kubelib.defs refLib_def)

lemma space_head:
  assumes "r \<in> set spaceRunes"
  shows "\<exists>n t. r = char_of n # t \<and> n \<in> {9, 10, 11, 12, 13, 32, 0xC2, 0xE1, 0xE2, 0xE3 :: nat}"
proof -
  obtain x where r: "r = map char_of x" and x: "x \<in> set ([[9], [10], [11], [12], [13], [32], [0xC2, 0x85], [0xC2, 0xA0], [0xE1, 0x9A, 0x80]]
      @ map (\<lambda>k. [0xE2, 0x80, k]) [0x80..<0x8B]
      @ [[0xE2, 0x80, 0xA8], [0xE2, 0x80, 0xA9], [0xE2, 0x80, 0xAF], [0xE2, 0x81, 0x9F], [0xE3, 0x80, 0x80]])"
    using assms unfolding spaceRunes_def bytes_def set_map by blast
  from x have "x \<noteq> [] \<and> hd x \<in> {9, 10, 11, 12, 13, 32, 0xC2, 0xE1, 0xE2, 0xE3 :: nat}"
    unfolding set_append set_map by (elim UnE) auto
  then show ?thesis unfolding r by (cases x) auto
qed

lemma other_char:
  assumes "(of_char c :: nat) \<notin> {9, 10, 11, 12, 13, 32, 0xC2, 0xE1, 0xE2, 0xE3}"
  shows "leadingSpace (c # s) = None"
proof -
  have "\<not> hasPrefix (c # s) r" if r: "r \<in> set spaceRunes" for r
  proof
    assume pre: "hasPrefix (c # s) r"
    obtain n t where n: "r = char_of n # t" "n \<in> {9, 10, 11, 12, 13, 32, 0xC2, 0xE1, 0xE2, 0xE3 :: nat}"
      using space_head [OF r] by blast
    with pre have "(of_char c :: nat) = n mod 256" by simp
    also have "n mod 256 = n" using n(2) by auto
    finally show False using assms n(2) by blast
  qed
  then show ?thesis by (simp add: leadingSpace_def find_None_iff)
qed

lemma blank_char: "leadingSpace (CHR '' '' # s) = Some 1"
proof -
  have ne: "CHR '' '' \<noteq> char_of (9::nat)" "CHR '' '' \<noteq> char_of (10::nat)" "CHR '' '' \<noteq> char_of (11::nat)"
      "CHR '' '' \<noteq> char_of (12::nat)" "CHR '' '' \<noteq> char_of (13::nat)" "CHR '' '' = char_of (32::nat)"
    by (simp_all add: eq_commute [of "CHR '' ''"] char_of_eq_iff take_bit_eq_mod)
  have "find (hasPrefix (CHR '' '' # s)) (map (map char_of) [[9], [10], [11], [12], [13], [32::nat]] @ rs) = Some (map char_of [32::nat])" for rs
    using ne by simp
  then show ?thesis unfolding leadingSpace_def spaceRunes_def bytes_def by simp
qed

lemma nightly_fields: "length (strFields ''0 2 * * *'') = 5"
  by (simp add: strFields_def other_char blank_char)

lemma nightly_sel:
  "bkSchedule (bkSpec nightly) = ''0 2 * * *''" "bkDatabase (bkSpec nightly) = ''''" "refName (bkInstanceRef (bkSpec nightly)) = ''shop''"
  "refNamespace (bkInstanceRef (bkSpec nightly)) = ''''" "bkRetention (bkSpec nightly) = None" "bkTimeoutSeconds (bkSpec nightly) = None"
  "bkScratchSize (bkSpec nightly) = ''''" "bkDestination (bkSpec nightly) = \<lparr>destPVC = Some \<lparr>ClaimName = ''backups'', SubPath = ''''\<rparr>, destS3 = None\<rparr>"
  "bkMeta nightly = newMeta ''bk'' ''ns''" "bkPhase (bkStatus nightly) = ''''" "bkIncludeFilestore (bkSpec nightly) = None"
  by (simp_all add: nightly_def claimBackup_def sampleBackup_def)

lemma nightly_valid:
  assumes "bkSpec b = bkSpec nightly" "bkMeta b = bkMeta nightly"
  shows "backupValidateSpec (nightlyCluster c db) b = None"
proof -
  have checks: "retentionError (bkSpec nightly) = None" "timeoutError (bkSpec nightly) = None" "scratchError L (bkScratchSize (bkSpec nightly)) = None"
      "backupValidateDestination (bkDestination (bkSpec nightly)) = None" for L :: "unit cluster"
    by (simp_all add: retentionError_def timeoutError_def scratchError_def nightly_sel backupValidateDestination_def backupValidatePath_def)
  have "scheduleError (bkSpec nightly) = None"
    unfolding scheduleError_def Let_def nightly_sel nightly_fields backupCronFieldCount_def by simp
  then show ?thesis
    unfolding backupValidateSpec_def Let_def assms by (simp only: checks) (simp add: nightly_sel)
qed

lemma nightly_parts:
  assumes "bkSpec b = bkSpec nightly" "bkMeta b = bkMeta nightly"
  shows "bkSchedule (bkSpec b) \<noteq> ''''" "backupDatabase b (nightlyInstance db) = db" "refName (bkInstanceRef (bkSpec b)) = ''shop''"
    "metaName (bkMeta b) = ''bk''" "metaNamespace (bkMeta b) = ''ns''" "backupIncludeFilestore b"
  by (simp_all add: assms nightly_sel newMeta_def backupDatabase_def nightlyInstance_def backupIncludeFilestore_def)

definition strandedBackup :: backup where
  "strandedBackup = nightly\<lparr>bkStatus := backupNewStatus (nightlyCluster nightly '''') nightly ReasonInvalidSpec
     ((bkStatus nightly)\<lparr>bkPhase := BackupPhaseFailed, bkMessage := backupMsgNoDatabase\<rparr>)\<rparr>"

lemma stranded_sel: "bkPhase (bkStatus strandedBackup) = BackupPhaseFailed" "bkMessage (bkStatus strandedBackup) = backupMsgNoDatabase"
    "bkSpec strandedBackup = bkSpec nightly" "bkMeta strandedBackup = bkMeta nightly"
  by (simp_all add: strandedBackup_def backupNewStatus_def Let_def)

lemma commit_changes: "bkPhase s \<noteq> bkPhase (bkStatus cur) \<Longrightarrow> backupNewStatus L cur r s \<noteq> bkStatus cur"
  by (auto simp: backupNewStatus_def Let_def dest: arg_cong [of _ _ bkPhase])

lemma nightly_pass:
  "run_state (backupReconcile (nightlyCluster nightly '''') (''ns'', ''bk'')) (start ()) =
     ((0, None), \<lparr>world = (), hist = [(Get KBackup (''ns'', ''bk''), RObj (OBackup nightly)),
       (Get KInstance (''ns'', ''shop''), RObj (OInstance (nightlyInstance ''''))),
       (Get KBackup (''ns'', ''bk''), RObj (OBackup nightly)), (StatusUpdate (OBackup strandedBackup), ROk)]\<rparr>)"
proof -
  have new: "backupNewStatus (nightlyCluster nightly '''') nightly ReasonInvalidSpec
      ((bkStatus nightly)\<lparr>bkPhase := BackupPhaseFailed, bkMessage := backupMsgNoDatabase\<rparr>) \<noteq> bkStatus nightly"
    by (rule commit_changes) (simp add: nightly_sel)
  show ?thesis
    using new
    by (simp add: start_def backupReconcile_def reconcileScheduled_def Let_def call_defs exec_simps nightly_answers nightly_valid [OF refl refl]
        nightly_parts [OF refl refl] nightly_sel(10) endBackup_def backupWriteStatus_def backupWriteOnce_def failBackup_def backupCommit_def
        emitEvents_def ignoreNotFound_def strandedBackup_def numeral_eq_Suc)
qed

lemma nightly_recovers:
  "\<exists>v. (StatusUpdate (OBackup v), ROk) \<in> set (callsOf (backupReconcile (nightlyCluster strandedBackup ''shop'') (''ns'', ''bk'')) ())
     \<and> bkPhase (bkStatus v) = BackupPhaseScheduled"
proof -
  let ?C = "nightlyCluster strandedBackup ''shop''" and ?i = "nightlyInstance ''shop''"
  note valid = nightly_valid [OF stranded_sel(3,4)] and parts = nightly_parts [OF stranded_sel(3,4)]
  obtain j desired where built: "buildBackupJob ?C strandedBackup ?i ''shop'' '''' = Some j"
      "buildBackupCronJob ?C strandedBackup ?i ''shop'' '''' = Some desired"
    using validated_builds [OF valid] by blast
  have node: "backupNeedsNodePin (instSpec ?i) True"
    by (simp add: backupNeedsNodePin_def nightlyInstance_def backupAccessMode_def)
  have "metaOwners (cronMeta desired) = []"
    using built(2) by (auto simp: buildBackupCronJob_def backupCronJobOf_def newMeta_def)
  then obtain m where m: "refSetController (bkMeta strandedBackup) (cronMeta desired) = Inr m" by (simp add: refSetController_def)
  have new: "backupNewStatus ?C strandedBackup ReasonScheduled
      ((bkStatus strandedBackup)\<lparr>bkPhase := BackupPhaseScheduled, bkCronJobName := n, bkMessage := '''', bkLastScheduleTime := a, bkLastSuccessfulTime := b\<rparr>)
      \<noteq> bkStatus strandedBackup" for n a b
    by (rule commit_changes) (simp add: stranded_sel(1))
  show ?thesis
    by (simp add: callsOf_def start_def backupReconcile_def reconcileScheduled_def Let_def call_defs exec_simps nightly_answers valid
        parts node backupNodeFor_def backupOdooPodNode_def built m applySchedule_def backupApplyCronJob_def isNotFound_def
        backupWriteStatus_def backupWriteOnce_def scheduleBackup_def backupCommit_def emitEvents_def new numeral_eq_Suc stranded_sel(1))
qed


end
