(* ===== verification/Api_Server.thy ===== *)
theory Api_Server
  imports Upgrade_Controller Backup_Controller Instance_Gate
begin

text \<open>
  Total correctness over the state of the cluster. \<open>ensures m Q w\<close>: started with the cluster in the state \<open>w\<close>, the program ends
  with a result and a state that satisfy \<open>Q\<close>. What the API server promises is a parameter: \<open>served\<close> is an abstract server over a
  store of objects, and \<open>serves C S\<close> says of a cluster, seen through the store \<open>S\<close> reads off its state, that every call follows it:
  reads answer from the store, what is created is stored, a write based on the stored copy is accepted, except that a
  bounded number of writes (\<open>contention\<close>) come back as conflicts. A concrete server shows that the promise can be kept.
\<close>

named_theorems ensures_intros \<open>rules for what a program ensures\<close>

section \<open>Total correctness\<close>

definition worldAfter :: "('w, 'a) prog \<Rightarrow> 'w \<Rightarrow> 'w" where
  "worldAfter m w = world (snd (run_state m (start w)))"

definition ensures :: "('w, 'a) prog \<Rightarrow> ('a \<Rightarrow> 'w \<Rightarrow> bool) \<Rightarrow> 'w \<Rightarrow> bool" where
  "ensures m Q w \<longleftrightarrow> (\<forall>s. world s = w \<longrightarrow> Q (fst (run_state m s)) (world (snd (run_state m s))))"

lemma ensures_return [ensures_intros]: "Q a w \<Longrightarrow> ensures (State_Monad.return a) Q w"
  by (simp add: ensures_def exec_simps)

lemma ensures_bind: "ensures m P w \<Longrightarrow> (\<And>a v. P a v \<Longrightarrow> ensures (f a) Q v) \<Longrightarrow> ensures (State_Monad.bind m f) Q w"
  by (simp add: ensures_def exec_simps split_def) blast

lemma ensures_ask: "(\<And>p v. api C r w = (p, v) \<Longrightarrow> Q (f p) v) \<Longrightarrow> ensures (ask C r f) Q w"
  by (simp add: ensures_def exec_simps split_def)

lemma ensures_mono: "ensures m P w \<Longrightarrow> (\<And>a v. P a v \<Longrightarrow> Q a v) \<Longrightarrow> ensures m Q w"
  by (simp add: ensures_def)

lemma ensures_after: "ensures m Q w \<Longrightarrow> Q (resultOf m w) (worldAfter m w)"
  by (simp add: ensures_def resultOf_def worldAfter_def start_def)

lemma ensures_if [ensures_intros]: "(b \<Longrightarrow> ensures m Q w) \<Longrightarrow> (\<not> b \<Longrightarrow> ensures n Q w) \<Longrightarrow> ensures (if b then m else n) Q w"
  by simp

section \<open>What the server promises\<close>

type_synonym objects = "kind \<times> nsname \<Rightarrow> obj option"

definition place :: "obj \<Rightarrow> kind \<times> nsname" where
  "place x = (objKind x, objKey x)"

text \<open>The commands a Job runs.\<close>

definition jobCommands :: "job \<Rightarrow> string list list" where
  "jobCommands j = map ctrCommand (podContainers (templSpec (jobTemplate (jobSpec j))))"

text \<open>Of a created object the server fills in metadata and the defaults of its spec, and a fresh object has no status yet.\<close>

definition filledMeta :: "objmeta \<Rightarrow> objmeta \<Rightarrow> bool" where
  "filledMeta m m' \<longleftrightarrow> m' = m\<lparr>metaUID := metaUID m', metaGeneration := metaGeneration m', metaCreated := metaCreated m',
     metaLabels := metaLabels m'\<rparr>"

fun createdAs :: "obj \<Rightarrow> obj \<Rightarrow> bool" where
  "createdAs (OUpgrade u) (OUpgrade u') = (filledMeta (upMeta u) (upMeta u') \<and> upSpec u' = upSpec u \<and> upStatus u' = zeroUpgradeStatus)"
| "createdAs (OJob j) (OJob j') = (filledMeta (jobMeta j) (jobMeta j') \<and> jobCommands j' = jobCommands j
     \<and> jobSucceeded j' = 0 \<and> jobFailed j' = 0 \<and> jobConditions j' = [])"
| "createdAs x y = (place y = place x)"

text \<open>A status write changes nothing but the status of the stored copy.\<close>

fun statusOnly :: "obj \<Rightarrow> obj \<Rightarrow> bool" where
  "statusOnly (OAddon a) (OAddon b) = (b = a\<lparr>addonStatus := addonStatus b\<rparr>)"
| "statusOnly (OInstance a) (OInstance b) = (b = a\<lparr>instStatus := instStatus b\<rparr>)"
| "statusOnly (OUpgrade a) (OUpgrade b) = (b = a\<lparr>upStatus := upStatus b\<rparr>)"
| "statusOnly (OBackup a) (OBackup b) = (b = a\<lparr>bkStatus := bkStatus b\<rparr>)"
| "statusOnly _ _ = False"

text \<open>A write that changes the finalizers of an addon that is not being deleted.\<close>

fun finalizersOnly :: "obj \<Rightarrow> obj \<Rightarrow> bool" where
  "finalizersOnly (OAddon a) (OAddon b) = (metaDeleted (addonMeta a) = None
     \<and> b = a\<lparr>addonMeta := (addonMeta a)\<lparr>metaFinalizers := metaFinalizers (addonMeta b)\<rparr>\<rparr>)"
| "finalizersOnly _ _ = False"

text \<open>A write that meets a conflict: another writer has changed the labels or annotations meanwhile.\<close>

definition relabelled :: "objmeta \<Rightarrow> objmeta \<Rightarrow> bool" where
  "relabelled m m' \<longleftrightarrow> m' = m\<lparr>metaLabels := metaLabels m', metaAnnotations := metaAnnotations m'\<rparr>"

fun touched :: "obj \<Rightarrow> obj \<Rightarrow> bool" where
  "touched (OAddon a) (OAddon b) = (relabelled (addonMeta a) (addonMeta b) \<and> b = a\<lparr>addonMeta := addonMeta b\<rparr>)"
| "touched (OInstance a) (OInstance b) = (relabelled (instMeta a) (instMeta b) \<and> b = a\<lparr>instMeta := instMeta b\<rparr>)"
| "touched (OUpgrade a) (OUpgrade b) = (relabelled (upMeta a) (upMeta b) \<and> b = a\<lparr>upMeta := upMeta b\<rparr>)"
| "touched (OBackup a) (OBackup b) = (relabelled (bkMeta a) (bkMeta b) \<and> b = a\<lparr>bkMeta := bkMeta b\<rparr>)"
| "touched x y = (y = x)"

text \<open>
  \<open>served r s n p s' n'\<close>: to the request \<open>r\<close>, with the objects \<open>s\<close> stored and \<open>n\<close> conflicts ahead, the server answers \<open>p\<close> and goes on with
  \<open>s'\<close> and \<open>n'\<close>. Of the requests that are left out nothing is promised.
\<close>

definition written :: "objects \<Rightarrow> nat \<Rightarrow> obj \<Rightarrow> obj \<Rightarrow> resp \<Rightarrow> objects \<Rightarrow> nat \<Rightarrow> bool" where
  "written s n c x p s' n' \<longleftrightarrow> n' = n \<and> errReply p = None \<and> s' = s(place x \<mapsto> x)
     \<or> n = Suc n' \<and> (\<exists>m. p = RErr (ApiError Conflict m)) \<and> (\<exists>c'. touched c c' \<and> s' = s(place x \<mapsto> c'))"

definition unchanged :: "objects \<Rightarrow> nat \<Rightarrow> objects \<Rightarrow> nat \<Rightarrow> bool" where
  "unchanged s n s' n' \<longleftrightarrow> s' = s \<and> n' = n"

fun served :: "req \<Rightarrow> objects \<Rightarrow> nat \<Rightarrow> resp \<Rightarrow> objects \<Rightarrow> nat \<Rightarrow> bool" where
  "served (Get k key) s n p s' n' = (unchanged s n s' n'
     \<and> (case s (k, key) of Some x \<Rightarrow> p = RObj x | None \<Rightarrow> \<exists>m. p = RErr (ApiError NotFound m)))"
| "served (ListIn k ns l) s n p s' n' = (unchanged s n s' n'
     \<and> (\<exists>xs. p = RObjs xs \<and> set xs \<subseteq> {x. \<exists>name. s (k, (ns, name)) = Some x}
          \<and> (l = [] \<longrightarrow> set xs = {x. \<exists>name. s (k, (ns, name)) = Some x})))"
| "served (Create x) s n p s' n' =
     (case s (place x) of
        Some _ \<Rightarrow> unchanged s n s' n' \<and> (\<exists>m. p = RErr (ApiError AlreadyExists m))
      | None \<Rightarrow> n' = n \<and> errReply p = None \<and> (\<exists>y. createdAs x y \<and> s' = s(place x \<mapsto> y)))"
| "served (StatusUpdate x) s n p s' n' =
     (case s (place x) of
        Some c \<Rightarrow> statusOnly c x \<longrightarrow> written s n c x p s' n'
      | None \<Rightarrow> unchanged s n s' n' \<and> (\<exists>m. p = RErr (ApiError NotFound m)))"
| "served (Update x) s n p s' n' =
     (case s (place x) of
        Some c \<Rightarrow> finalizersOnly c x \<longrightarrow> written s n c x p s' n'
      | None \<Rightarrow> unchanged s n s' n' \<and> (\<exists>m. p = RErr (ApiError NotFound m)))"
| "served (Delete x uid) s n p s' n' =
     (case s (place x) of
        Some c \<Rightarrow> metaFinalizers (objMeta c) = [] \<and> uid = Some (metaUID (objMeta c)) \<longrightarrow>
          n' = n \<and> errReply p = None \<and> s' = s(place x := None)
      | None \<Rightarrow> unchanged s n s' n' \<and> (\<exists>m. p = RErr (ApiError NotFound m)))"
| "served Now s n p s' n' = unchanged s n s' n'"
| "served (PodLogs ns name ctr t) s n p s' n' = unchanged s n s' n'"
| "served (EmitEvent e) s n p s' n' = unchanged s n s' n'"
| "served _ s n p s' n' = True"

record 'w store =
  stored :: "'w \<Rightarrow> objects"
  contention :: "'w \<Rightarrow> nat"

definition serves :: "'w cluster \<Rightarrow> 'w store \<Rightarrow> bool" where
  "serves C S \<longleftrightarrow>
     (\<forall>r w p v. api C r w = (p, v) \<longrightarrow> served r (stored S w) (contention S w) p (stored S v) (contention S v))"

text \<open>\<open>controllerutil.SetControllerReference\<close> accepts an object of the owner's namespace that nobody owns yet.\<close>

definition adopts :: "'m kubelib_scheme \<Rightarrow> bool" where
  "adopts L \<longleftrightarrow> (\<forall>owner m. metaOwners m = [] \<and> metaNamespace m = metaNamespace owner \<longrightarrow> (\<exists>m'. SetControllerReference L owner m = Inr m'))"

lemma lawful_owner_names:
  assumes "lawfulOwners L" "SetControllerReference L owner m = Inr m'"
  shows "metaName m' = metaName m" "metaNamespace m' = metaNamespace m"
proof -
  have "m' = m\<lparr>metaOwners := metaOwners m'\<rparr>" using assms unfolding lawfulOwners_def by blast
  then show "metaName m' = metaName m" "metaNamespace m' = metaNamespace m"
    by (metis objmeta.select_convs(1) objmeta.surjective objmeta.update_convs(10), metis objmeta.select_convs(2) objmeta.surjective objmeta.update_convs(10))
qed

section \<open>Calls on such a server\<close>

text \<open>Nothing has changed.\<close>

definition quiet :: "'w store \<Rightarrow> 'w \<Rightarrow> 'w \<Rightarrow> bool" where
  "quiet S w v \<longleftrightarrow> unchanged (stored S w) (contention S w) (stored S v) (contention S v)"

lemma quietD: "quiet S w v \<Longrightarrow> stored S v = stored S w \<and> contention S v = contention S w"
  by (simp add: quiet_def unchanged_def)

lemma quiet_refl [simp]: "quiet S w w"
  by (simp add: quiet_def unchanged_def)

lemma quiet_trans [trans]: "quiet S u v \<Longrightarrow> quiet S v w \<Longrightarrow> quiet S u w"
  by (simp add: quiet_def unchanged_def)

lemma served_call: "serves C S \<Longrightarrow> api C r w = (p, v) \<Longrightarrow> served r (stored S w) (contention S w) p (stored S v) (contention S v)"
  unfolding serves_def by blast

lemma ensures_get:
  assumes serve: "serves C S"
    and found: "\<And>x v. stored S w (k, key) = Some x \<Longrightarrow> quiet S w v \<Longrightarrow> Q (f (RObj x)) v"
    and missing: "\<And>m v. stored S w (k, key) = None \<Longrightarrow> quiet S w v \<Longrightarrow> Q (f (RErr (ApiError NotFound m))) v"
  shows "ensures (ask C (Get k key) f) Q w"
proof (rule ensures_ask)
  fix p v
  assume "api C (Get k key) w = (p, v)"
  from served_call [OF serve this] have "quiet S w v"
      "case stored S w (k, key) of Some x \<Rightarrow> p = RObj x | None \<Rightarrow> \<exists>m. p = RErr (ApiError NotFound m)"
    by (simp_all add: quiet_def)
  with found missing show "Q (f p) v" by (cases "stored S w (k, key)") auto
qed

lemma ensures_read:
  assumes "serves C S"
  shows "stored S w (KUpgrade, key) = Some (OUpgrade u) \<Longrightarrow> (\<And>v. quiet S w v \<Longrightarrow> Q (Inr u) v) \<Longrightarrow> ensures (getUpgrade C key) Q w"
    and "stored S w (KBackup, key) = Some (OBackup b) \<Longrightarrow> (\<And>v. quiet S w v \<Longrightarrow> P (Inr b) v) \<Longrightarrow> ensures (getBackup C key) P w"
    and "stored S w (KJob, key) = Some (OJob j) \<Longrightarrow> (\<And>v. quiet S w v \<Longrightarrow> R (Inr j) v) \<Longrightarrow> ensures (getJob C key) R w"
    and "stored S w (KInstance, key) = Some (OInstance i) \<Longrightarrow> (\<And>v. quiet S w v \<Longrightarrow> T (Inr i) v) \<Longrightarrow> ensures (getInstance C key) T w"
  unfolding call_defs by (rule ensures_get [OF assms]; simp)+

lemma ensures_missing:
  assumes "serves C S"
  shows "stored S w (KUpgrade, key) = None \<Longrightarrow> (\<And>e v. isNotFound e \<Longrightarrow> quiet S w v \<Longrightarrow> Q (Inl e) v) \<Longrightarrow> ensures (getUpgrade C key) Q w"
    and "stored S w (KJob, key) = None \<Longrightarrow> (\<And>e v. isNotFound e \<Longrightarrow> quiet S w v \<Longrightarrow> R (Inl e) v) \<Longrightarrow> ensures (getJob C key) R w"
  unfolding call_defs by (rule ensures_get [OF assms]; simp add: isNotFound_def)+

lemma set_map_filter: "set (List.map_filter f xs) = {y. \<exists>x\<in>set xs. f x = Some y}"
  by (induction xs) (auto simp: List.map_filter_simps split: option.split)

lemma ensures_list:
  assumes serve: "serves C S"
  shows "(\<And>xs v. quiet S w v \<Longrightarrow> set xs = {u. \<exists>n. stored S w (KUpgrade, (ns, n)) = Some (OUpgrade u)} \<Longrightarrow> Q (Inr xs) v) \<Longrightarrow> ensures (listUpgrades C ns) Q w"
    and "(\<And>xs v. quiet S w v \<Longrightarrow> set xs = {b. \<exists>n. stored S w (KBackup, (ns, n)) = Some (OBackup b)} \<Longrightarrow> R (Inr xs) v) \<Longrightarrow> ensures (listBackups C ns) R w"
proof -
  have answer: "quiet S w v \<and> (\<exists>xs. p = RObjs xs \<and> set xs = {x. \<exists>name. stored S w (k, (ns, name)) = Some x})"
    if "api C (ListIn k ns []) w = (p, v)" for k p v
    using served_call [OF serve that] by (auto simp: quiet_def)
  show "ensures (listUpgrades C ns) Q w" if ok: "\<And>xs v. quiet S w v \<Longrightarrow> set xs = {u. \<exists>n. stored S w (KUpgrade, (ns, n)) = Some (OUpgrade u)} \<Longrightarrow> Q (Inr xs) v"
    unfolding listUpgrades_def by (rule ensures_ask, drule answer) (auto intro!: ok simp: set_map_filter, blast)
  show "ensures (listBackups C ns) R w" if ok: "\<And>xs v. quiet S w v \<Longrightarrow> set xs = {b. \<exists>n. stored S w (KBackup, (ns, n)) = Some (OBackup b)} \<Longrightarrow> R (Inr xs) v"
    unfolding listBackups_def by (rule ensures_ask, drule answer) (auto intro!: ok simp: set_map_filter, blast)
qed

definition passiveCall :: "req \<Rightarrow> bool" where
  "passiveCall r \<longleftrightarrow> (case r of ListIn _ _ _ \<Rightarrow> True | PodLogs _ _ _ _ \<Rightarrow> True | Now \<Rightarrow> True | EmitEvent _ \<Rightarrow> True | _ \<Rightarrow> False)"

lemma passive_simps [simp]:
  "passiveCall (ListIn k ns l)" "passiveCall (PodLogs ns n c t)" "passiveCall Now" "passiveCall (EmitEvent e)"
  by (simp_all add: passiveCall_def)

lemma passive_quiet: "serves C S \<Longrightarrow> passiveCall r \<Longrightarrow> api C r w = (p, v) \<Longrightarrow> quiet S w v"
  by (drule (1) served_call) (cases r, auto simp: passiveCall_def quiet_def)

lemma ensures_passive: "serves C S \<Longrightarrow> passiveCall r \<Longrightarrow> (\<And>a v. quiet S w v \<Longrightarrow> Q a v) \<Longrightarrow> ensures (ask C r f) Q w"
  by (rule ensures_ask) (blast dest: passive_quiet)

text \<open>Programs that leave everything as it was.\<close>

lemma ensures_quiet_bind:
  assumes "ensures m (\<lambda>_ v. quiet S w v) w" and "\<And>a v. quiet S w v \<Longrightarrow> ensures (f a) (\<lambda>_ x. quiet S v x) v"
  shows "ensures (State_Monad.bind m f) (\<lambda>_ v. quiet S w v) w"
  by (rule ensures_bind [OF assms(1)], rule ensures_mono [OF assms(2)]) (auto intro: quiet_trans)

lemma emit_quiet:
  assumes "serves C S"
  shows "ensures (emitEvents C x evs) (\<lambda>_ v. quiet S w v) w"
proof -
  have "ensures (emitAll C x evs) (\<lambda>_ v. quiet S w v) w" for w
    by (induction evs arbitrary: w)
      (auto simp: doCall_def intro!: ensures_intros ensures_quiet_bind ensures_passive [OF assms])
  then show ?thesis unfolding emitEvents_def by (auto intro!: ensures_intros)
qed

text \<open>Writes.\<close>

lemma ensures_create:
  assumes serve: "serves C S"
    and free: "\<And>v y. stored S w (place x) = None \<Longrightarrow> createdAs x y \<Longrightarrow> stored S v = (stored S w)(place x \<mapsto> y) \<Longrightarrow>
      contention S v = contention S w \<Longrightarrow> Q None v"
    and taken: "\<And>c m v. stored S w (place x) = Some c \<Longrightarrow> quiet S w v \<Longrightarrow> Q (Some (ApiError AlreadyExists m)) v"
  shows "ensures (createObj C x) Q w"
  unfolding createObj_def doCall_def
proof (rule ensures_ask)
  fix p v
  assume "api C (Create x) w = (p, v)"
  from served_call [OF serve this] show "Q (errReply p) v"
    using free taken by (cases "stored S w (place x)") (auto simp: quiet_def)
qed

lemma ensures_status:
  assumes serve: "serves C S" and stored: "stored S w (place x) = Some c" "statusOnly c x"
    and accepted: "\<And>v. stored S v = (stored S w)(place x \<mapsto> x) \<Longrightarrow> contention S v = contention S w \<Longrightarrow> Q None v"
    and conflict: "\<And>v m c'. contention S w = Suc (contention S v) \<Longrightarrow> touched c c' \<Longrightarrow> stored S v = (stored S w)(place x \<mapsto> c') \<Longrightarrow>
      Q (Some (ApiError Conflict m)) v"
  shows "ensures (updateStatus C x) Q w"
  unfolding updateStatus_def doCall_def
proof (rule ensures_ask)
  fix p v
  assume "api C (StatusUpdate x) w = (p, v)"
  from served_call [OF serve this] stored show "Q (errReply p) v"
    using accepted conflict by (auto simp: written_def)
qed

lemma ensures_update:
  assumes serve: "serves C S" and stored: "stored S w (place x) = Some c" "finalizersOnly c x" and calm: "contention S w = 0"
    and accepted: "\<And>v. stored S v = (stored S w)(place x \<mapsto> x) \<Longrightarrow> contention S v = 0 \<Longrightarrow> Q None v"
  shows "ensures (updateObj C x) Q w"
  unfolding updateObj_def doCall_def
proof (rule ensures_ask)
  fix p v
  assume "api C (Update x) w = (p, v)"
  from served_call [OF serve this] stored calm show "Q (errReply p) v" using accepted by (auto simp: written_def)
qed

lemma ensures_delete:
  assumes serve: "serves C S" and stored: "stored S w (place x) = Some c" "metaFinalizers (objMeta c) = []" "uid = Some (metaUID (objMeta c))"
    and gone: "\<And>v. stored S v = (stored S w)(place x := None) \<Longrightarrow> contention S v = contention S w \<Longrightarrow> Q None v"
  shows "ensures (doCall C (Delete x uid)) Q w"
  unfolding doCall_def
proof (rule ensures_ask)
  fix p v
  assume "api C (Delete x uid) w = (p, v)"
  from served_call [OF serve this] stored show "Q (errReply p) v" using gone by auto
qed

section \<open>Status writes with retries\<close>

text \<open>The object at the place of \<open>x\<close> has become one with \<open>P\<close>, and nothing else has changed.\<close>

definition settled :: "'w store \<Rightarrow> kind \<times> nsname \<Rightarrow> (obj \<Rightarrow> bool) \<Rightarrow> 'w \<Rightarrow> 'w \<Rightarrow> bool" where
  "settled S k P w v \<longleftrightarrow> (\<exists>y. P y \<and> stored S v = (stored S w)(k \<mapsto> y)) \<and> contention S v \<le> contention S w"

text \<open>One conflict is left behind.\<close>

definition disturbed :: "'w store \<Rightarrow> kind \<times> nsname \<Rightarrow> obj \<Rightarrow> 'w \<Rightarrow> 'w \<Rightarrow> bool" where
  "disturbed S k x w v \<longleftrightarrow> (\<exists>c. touched x c \<and> stored S v = (stored S w)(k \<mapsto> c)) \<and> contention S w = Suc (contention S v)"

definition attempt :: "'w store \<Rightarrow> kind \<times> nsname \<Rightarrow> obj \<Rightarrow> (obj \<Rightarrow> bool) \<Rightarrow> 'w \<Rightarrow> goerr option \<Rightarrow> 'w \<Rightarrow> bool" where
  "attempt S k x P w err v \<longleftrightarrow> (err = None \<and> settled S k P w v) \<or> (\<exists>e. err = Some e \<and> isApiConflict e \<and> disturbed S k x w v)"

lemma settled_quiet: "quiet S w x \<Longrightarrow> settled S k P x v \<Longrightarrow> settled S k P w v" "settled S k P w x \<Longrightarrow> quiet S x v \<Longrightarrow> settled S k P w v"
  by (simp_all add: settled_def quiet_def unchanged_def)

lemma settled_same: "quiet S w v \<Longrightarrow> stored S w k = Some x \<Longrightarrow> P x \<Longrightarrow> settled S k P w v"
  unfolding settled_def by (intro conjI exI [of _ x]) (auto simp: quiet_def unchanged_def fun_upd_idem)

lemma settled_stored: "settled S k P w v \<Longrightarrow> \<exists>y. stored S v k = Some y \<and> P y"
  by (auto simp: settled_def)

lemma settled_frame: "settled S k P w v \<Longrightarrow> k' \<noteq> k \<Longrightarrow> stored S v k' = stored S w k'"
  by (auto simp: settled_def)

lemma settled_few: "settled S k P w v \<Longrightarrow> contention S v \<le> contention S w"
  by (simp add: settled_def)

lemma settled_trans: "settled S k P w x \<Longrightarrow> settled S k Q x v \<Longrightarrow> settled S k Q w v"
  by (auto simp: settled_def)

lemma settled_mono: "settled S k P w v \<Longrightarrow> (\<And>y. P y \<Longrightarrow> Q y) \<Longrightarrow> settled S k Q w v"
  by (auto simp: settled_def)

lemma settled_disturbed: "disturbed S k x w u \<Longrightarrow> settled S k P u v \<Longrightarrow> settled S k P w v"
  by (auto simp: settled_def disturbed_def)

lemma attempt_quiet: "quiet S w x \<Longrightarrow> attempt S k y P x err v \<Longrightarrow> attempt S k y P w err v"
  by (auto simp: attempt_def disturbed_def quiet_def unchanged_def settled_def)

text \<open>A status write as the controllers make it: the write, and after a success the events.\<close>

lemma ensures_commit:
  assumes serve: "serves C S" and at: "place x = k" and stored: "stored S w k = Some c" "statusOnly c x" and P: "P x"
  shows "ensures (do { err \<leftarrow> updateStatus C x; case err of Some e \<Rightarrow> State_Monad.return (Some e)
      | None \<Rightarrow> do { _ \<leftarrow> emitEvents C y evs; State_Monad.return None } }) (attempt S k c P w) w"
proof (rule ensures_bind [where P = "\<lambda>e v. e = None \<and> settled S k P w v
      \<or> (\<exists>x. e = Some x \<and> isApiConflict x \<and> disturbed S k c w v)"])
  show "ensures (updateStatus C x) (\<lambda>e v. e = None \<and> settled S k P w v
      \<or> (\<exists>x. e = Some x \<and> isApiConflict x \<and> disturbed S k c w v)) w"
    using stored P unfolding at [symmetric]
    by (intro ensures_status [OF serve]) (auto simp: settled_def disturbed_def isApiConflict_def)
next
  fix e v
  assume "e = None \<and> settled S k P w v \<or> (\<exists>x. e = Some x \<and> isApiConflict x \<and> disturbed S k c w v)"
  then show "ensures (case e of Some e \<Rightarrow> State_Monad.return (Some e) | None \<Rightarrow> do { _ \<leftarrow> emitEvents C y evs; State_Monad.return None })
      (attempt S k c P w) v"
  proof (elim disjE exE conjE)
    assume "e = None" and done_: "settled S k P w v"
    have "attempt S k c P w None u" if "quiet S v u" for u using settled_quiet(2) [OF done_ that] by (simp add: attempt_def)
    with \<open>e = None\<close> show ?thesis by (simp add: ensures_bind [OF emit_quiet [OF serve]] ensures_return)
  next
    fix x
    assume "e = Some x" "isApiConflict x" "disturbed S k c w v"
    then show ?thesis by (simp add: attempt_def ensures_return)
  qed
qed

text \<open>
  The retry loop outlasts the conflicts: \<open>I\<close> is what the conflicts keep of the stored object.
\<close>

lemma retry_settles:
  assumes body: "\<And>w c. stored S w k = Some c \<Longrightarrow> I c \<Longrightarrow> ensures body (attempt S k c P w) w"
    and keep: "\<And>c d. I c \<Longrightarrow> touched c d \<Longrightarrow> I d"
    and start: "stored S w k = Some c" "I c" "contention S w \<le> n"
  shows "ensures (retryOnConflict n body) (\<lambda>err v. err = None \<and> settled S k P w v) w"
  using start
proof (induction n arbitrary: w c)
  case 0
  then show ?case
    using ensures_mono [OF body [OF 0(1,2)]] by (simp add: attempt_def disturbed_def)
next
  case (Suc n)
  have again: "ensures (retryOnConflict n body) (\<lambda>err v. err = None \<and> settled S k P w v) x" if dist: "disturbed S k c w x" for x
  proof -
    from dist obtain d where "stored S x k = Some d" "I d" using keep Suc.prems(2) by (auto simp: disturbed_def)
    then have "ensures (retryOnConflict n body) (\<lambda>err v. err = None \<and> settled S k P x v) x"
      by (rule Suc.IH) (use dist Suc.prems(3) in \<open>simp add: disturbed_def\<close>)
    then show ?thesis by (rule ensures_mono) (use settled_disturbed [OF dist] in blast)
  qed
  show ?case
    unfolding retryOnConflict.simps
    by (rule ensures_bind [OF body [OF Suc.prems(1,2)]]) (auto simp: attempt_def intro!: ensures_return again)
qed

lemma retry_ignored:
  assumes "ensures (retryOnConflict n body) (\<lambda>err v. err = None \<and> R v) w" and "\<And>v. R v \<Longrightarrow> Q None v"
  shows "ensures (do { err \<leftarrow> retryOnConflict n body; State_Monad.return (ignoreNotFound err) }) Q w"
  by (rule ensures_bind [OF assms(1)]) (auto simp: ignoreNotFound_def intro!: ensures_return assms(2))

section \<open>A concrete server\<close>

text \<open>
  It keeps a list of objects, the newest first, and refuses the next \<open>refConflicts\<close> writes.
\<close>

record ref_world =
  refObjects :: "((kind \<times> nsname) \<times> obj option) list"
  refConflicts :: nat

definition refStored :: "ref_world \<Rightarrow> objects" where
  "refStored w kk = (case map_of (refObjects w) kk of Some x \<Rightarrow> x | None \<Rightarrow> None)"

definition refStore :: "ref_world store" where
  "refStore = \<lparr>stored = refStored, contention = refConflicts\<rparr>"

definition refPut :: "obj \<Rightarrow> ref_world \<Rightarrow> ref_world" where
  "refPut x w = w\<lparr>refObjects := (place x, Some x) # refObjects w\<rparr>"

definition refDrop :: "obj \<Rightarrow> ref_world \<Rightarrow> ref_world" where
  "refDrop x w = w\<lparr>refObjects := (place x, None) # refObjects w\<rparr>"

definition refWrite :: "obj \<Rightarrow> ref_world \<Rightarrow> resp \<times> ref_world" where
  "refWrite x w =
     (case refStored w (place x) of
        None \<Rightarrow> (RErr (ApiError NotFound ''not found''), w)
      | Some c \<Rightarrow>
          if refConflicts w > 0 then (RErr (ApiError Conflict ''the object has been modified''), w\<lparr>refConflicts := refConflicts w - 1\<rparr>)
          else (ROk, refPut x w))"

definition refListed :: "kind \<Rightarrow> string \<Rightarrow> ref_world \<Rightarrow> obj list" where
  "refListed k ns w = List.map_filter (refStored w) (filter (\<lambda>(k', key). k' = k \<and> fst key = ns) (map fst (refObjects w)))"

fun refFresh :: "obj \<Rightarrow> obj" where
  "refFresh (OUpgrade u) = OUpgrade (u\<lparr>upStatus := zeroUpgradeStatus\<rparr>)"
| "refFresh (OJob j) = OJob (j\<lparr>jobSucceeded := 0, jobFailed := 0, jobConditions := []\<rparr>)"
| "refFresh x = x"

fun refAnswer :: "req \<Rightarrow> ref_world \<Rightarrow> resp \<times> ref_world" where
  "refAnswer (Get k key) w =
     (case refStored w (k, key) of Some x \<Rightarrow> (RObj x, w) | None \<Rightarrow> (RErr (ApiError NotFound ''not found''), w))"
| "refAnswer (ListIn k ns l) w = (RObjs (refListed k ns w), w)"
| "refAnswer (Create x) w =
     (case refStored w (place x) of
        Some _ \<Rightarrow> (RErr (ApiError AlreadyExists ''already exists''), w)
      | None \<Rightarrow> (ROk, refPut (refFresh x) w))"
| "refAnswer (StatusUpdate x) w = refWrite x w"
| "refAnswer (Update x) w = refWrite x w"
| "refAnswer (Delete x uid) w =
     (case refStored w (place x) of
        None \<Rightarrow> (RErr (ApiError NotFound ''not found''), w)
      | Some c \<Rightarrow>
          if uid \<noteq> None \<and> uid \<noteq> Some (metaUID (objMeta c)) then (RErr (ApiError Conflict ''uid mismatch''), w)
          else (ROk, refDrop x w))"
| "refAnswer Now w = (RTime 1000, w)"
| "refAnswer (PodLogs ns n c t) w = (RText '''', w)"
| "refAnswer _ w = (ROk, w)"

definition refServer :: "ref_world cluster" where
  "refServer = kubelib.extend refLib
     \<lparr>api = refAnswer, hasRecorder = True, hasClientset = True, getenv = (\<lambda>_. ''''), retrySteps = 4, \<dots> = ()\<rparr>"

lemma refServer_sel [simp]: "api refServer = refAnswer" "retrySteps refServer = 4" "stored refStore = refStored" "contention refStore = refConflicts"
  by (simp_all add: refServer_def kubelib.defs refStore_def)

lemma refServer_lib [simp]: "lawfulConditions refServer" "lawfulOwners refServer"
  by (simp_all add: refServer_def)

lemma adopts_ref: "adopts refServer"
  by (simp add: adopts_def refServer_def kubelib.defs refLib_def refSetController_def)

lemma refStored_put: "refStored (refPut x w) = (refStored w)(place x \<mapsto> x)"
  by (auto simp: refStored_def refPut_def place_def fun_eq_iff)

lemma refStored_drop: "refStored (refDrop x w) = (refStored w)(place x := None)"
  by (auto simp: refStored_def refDrop_def fun_eq_iff)

lemma refPut_conflicts [simp]: "refConflicts (refPut x w) = refConflicts w" "refConflicts (refDrop x w) = refConflicts w"
  by (simp_all add: refPut_def refDrop_def)

lemma refStored_conflicts [simp]: "refStored (w\<lparr>refConflicts := n\<rparr>) = refStored w"
  by (simp add: refStored_def fun_eq_iff)

lemma refListed_set: "set (refListed k ns w) = {x. \<exists>name. refStored w (k, (ns, name)) = Some x}"
proof (intro set_eqI iffI)
  fix x
  assume "x \<in> set (refListed k ns w)"
  then show "x \<in> {x. \<exists>name. refStored w (k, (ns, name)) = Some x}"
    by (fastforce simp: refListed_def set_map_filter)
next
  fix x
  assume "x \<in> {x. \<exists>name. refStored w (k, (ns, name)) = Some x}"
  then obtain name where x: "refStored w (k, (ns, name)) = Some x" by blast
  then have "(k, (ns, name)) \<in> fst ` set (refObjects w)"
    by (auto simp: refStored_def split: option.splits dest!: map_of_SomeD intro: rev_image_eqI)
  with x show "x \<in> set (refListed k ns w)"
    unfolding refListed_def set_map_filter by (intro CollectI bexI [of _ "(k, (ns, name))"]) auto
qed

lemma refFresh_place: "place (refFresh x) = place x" "createdAs x (refFresh x)"
  by (cases x; simp add: place_def objKey_def filledMeta_def jobCommands_def)+

lemma touched_refl: "touched x x"
  by (cases x) (simp_all add: relabelled_def)

lemma refWrite_written:
  assumes "refWrite x w = (p, v)" "refStored w (place x) = Some c"
  shows "written (refStored w) (refConflicts w) c x p (refStored v) (refConflicts v)"
proof -
  have "(refStored w)(place x \<mapsto> c) = refStored w" using assms(2) by (simp add: fun_upd_idem)
  then show ?thesis
    using assms touched_refl by (fastforce simp: refWrite_def written_def refStored_put split: if_splits)
qed

lemma refWrite_missing: "refWrite x w = (p, v) \<Longrightarrow> refStored w (place x) = None \<Longrightarrow> v = w \<and> (\<exists>m. p = RErr (ApiError NotFound m))"
  by (auto simp: refWrite_def)

lemma refServer_serves: "refAnswer r w = (p, v) \<Longrightarrow> served r (refStored w) (refConflicts w) p (refStored v) (refConflicts v)"
proof (cases r)
  case (ListIn k ns l)
  then show "refAnswer r w = (p, v) \<Longrightarrow> ?thesis" by (auto simp: unchanged_def refListed_set)
next
  case (StatusUpdate x)
  then show "refAnswer r w = (p, v) \<Longrightarrow> ?thesis"
    by (cases "refStored w (place x)") (auto simp: unchanged_def dest: refWrite_missing refWrite_written)
next
  case (Update x)
  then show "refAnswer r w = (p, v) \<Longrightarrow> ?thesis"
    by (cases "refStored w (place x)") (auto simp: unchanged_def dest: refWrite_missing refWrite_written)
next
  case (Delete x uid)
  then show "refAnswer r w = (p, v) \<Longrightarrow> ?thesis"
    by (auto simp: unchanged_def refStored_drop split: option.splits if_splits)
next
  case (Create x)
  then show "refAnswer r w = (p, v) \<Longrightarrow> ?thesis"
    using refFresh_place by (fastforce simp: unchanged_def refStored_put split: option.splits)
qed (auto simp: unchanged_def split: option.splits)

lemma serves_ref: "serves refServer refStore"
  unfolding serves_def using refServer_serves by simp

end
