(* ===== verification/Status_Writes.thy ===== *)
theory Status_Writes
  imports Api_Server
begin

text \<open>
  Status writes take effect. The writers of the upgrade and of the backup reconciler are the same loop over different types: read
  the freshest copy, change its status, write it, begin again after a conflict. The locale \<open>status_writer\<close> is their
  contract; inside it a write is shown to settle on an API server that keeps its promises. The last section holds what the two
  share of running a Job.
\<close>

section \<open>Jobs\<close>

definition jobKey :: "job \<Rightarrow> nsname" where
  "jobKey j = (metaNamespace (jobMeta j), metaName (jobMeta j))"

text \<open>Nothing has changed outside \<open>K\<close>.\<close>

definition keeps :: "'w store \<Rightarrow> (kind \<times> nsname) set \<Rightarrow> 'w \<Rightarrow> 'w \<Rightarrow> bool" where
  "keeps S K w v \<longleftrightarrow> (\<forall>k. k \<notin> K \<longrightarrow> stored S v k = stored S w k)"

lemma keepsD: "keeps S K w v \<Longrightarrow> k \<notin> K \<Longrightarrow> stored S v k = stored S w k"
  unfolding keeps_def by blast

lemma keeps_quiet: "quiet S w v \<Longrightarrow> keeps S K w v"
  by (simp add: keeps_def quiet_def unchanged_def)

lemma keeps_settled: "settled S k P w v \<Longrightarrow> k \<in> K \<Longrightarrow> keeps S K w v"
  by (auto simp: keeps_def settled_def)

lemma keeps_trans: "keeps S K u v \<Longrightarrow> keeps S L v w \<Longrightarrow> K \<subseteq> M \<Longrightarrow> L \<subseteq> M \<Longrightarrow> keeps S M u w"
  unfolding keeps_def by (metis subsetD)

text \<open>A run has begun: the object at \<open>k\<close> has become one with \<open>P\<close>, a Job is stored at \<open>jk\<close>, and nothing else has changed.\<close>

definition launched :: "'w store \<Rightarrow> kind \<times> nsname \<Rightarrow> (obj \<Rightarrow> bool) \<Rightarrow> kind \<times> nsname \<Rightarrow> 'w \<Rightarrow> 'w \<Rightarrow> bool" where
  "launched S k P jk w v \<longleftrightarrow> (\<exists>y. P y \<and> stored S v k = Some y) \<and> stored S v jk \<noteq> None \<and> keeps S {k, jk} w v"

lemma launched_quiet: "quiet S w x \<Longrightarrow> launched S k P jk x v \<Longrightarrow> launched S k P jk w v"
  unfolding launched_def by (blast intro: keeps_trans keeps_quiet)

lemma launched_settled: "settled S k Q w x \<Longrightarrow> launched S k P jk x v \<Longrightarrow> launched S k P jk w v"
  unfolding launched_def by (blast intro: keeps_trans keeps_settled [of S k Q])

text \<open>The Job is created, or there already: either way it is stored afterwards.\<close>

lemma create_job:
  assumes "serves C S" and "jobKey j = jk"
  shows "ensures (createObj C (OJob j)) (\<lambda>err v. (case err of Some e \<Rightarrow> isAlreadyExists e | None \<Rightarrow> True) \<and> stored S v (KJob, jk) \<noteq> None
    \<and> keeps S {(KJob, jk)} w v \<and> contention S v = contention S w) w"
proof -
  have "place (OJob j) = (KJob, jk)" using assms(2) by (simp add: place_def objKey_def jobKey_def)
  then show ?thesis by (intro ensures_create [OF assms(1)]) (auto simp: isAlreadyExists_def keeps_def dest!: quietD)
qed

section \<open>The contract\<close>

text \<open>
  \<open>progress\<close> is the part of a status that is followed (its phase and the name of its Job), which recomputing the conditions
  leaves alone; \<open>skip\<close> tells which statuses a write leaves as they are.
\<close>

locale status_writer =
  fixes kind :: kind
    and wrap :: "'o \<Rightarrow> obj"
    and key :: "'o \<Rightarrow> nsname"
    and spec :: "'o \<Rightarrow> 'p"
    and status :: "'o \<Rightarrow> 's"
    and put :: "'s \<Rightarrow> 'o \<Rightarrow> 'o"
    and progress :: "'s \<Rightarrow> string \<times> string"
    and fetch :: "'w cluster \<Rightarrow> nsname \<Rightarrow> ('w, goerr + 'o) prog"
    and renew :: "'w cluster \<Rightarrow> 'o \<Rightarrow> string \<Rightarrow> 's \<Rightarrow> 's"
    and happenings :: "'s \<Rightarrow> 's \<Rightarrow> statusEvent list"
    and skip :: "string \<Rightarrow> 'p \<Rightarrow> 's \<Rightarrow> bool"
    and commit :: "'w cluster \<Rightarrow> 'o \<Rightarrow> 's \<Rightarrow> ('w, goerr option) prog"
    and once :: "'w cluster \<Rightarrow> nsname \<Rightarrow> string \<Rightarrow> string \<Rightarrow> ('s \<Rightarrow> ('w, 's) prog) \<Rightarrow> ('w, goerr option) prog"
    and writer :: "'w cluster \<Rightarrow> nsname \<Rightarrow> string \<Rightarrow> string \<Rightarrow> ('s \<Rightarrow> ('w, 's) prog) \<Rightarrow> ('w, goerr option) prog"
  assumes place: "place (wrap c) = (kind, key c)"
    and no_job: "kind \<noteq> KJob"
    and put: "key (put s c) = key c" "spec (put s c) = spec c" "status (put s c) = s"
    and own: "statusOnly (wrap c) (wrap (put s c))"
    and others: "touched (wrap c) d \<Longrightarrow> \<exists>c'. d = wrap c' \<and> key c' = key c \<and> spec c' = spec c \<and> status c' = status c"
    and fetch: "\<And>S :: 'w store. serves C S \<Longrightarrow> stored S w (kind, k) = Some (wrap c) \<Longrightarrow> (\<And>v. quiet S w v \<Longrightarrow> Q (Inr c) v) \<Longrightarrow> ensures (fetch C k) Q w"
    and renew: "progress (renew C c reason s) = progress s"
    and commit: "commit C c s =
      (if s = status c then State_Monad.return None
       else do {
         err \<leftarrow> updateStatus C (wrap (put s c));
         case err of
           Some e \<Rightarrow> State_Monad.return (Some e)
         | None \<Rightarrow> do { _ \<leftarrow> emitEvents C (wrap (put s c)) (happenings (status c) s); State_Monad.return None }
       })"
    and once: "once C k target reason mutate = do {
      r \<leftarrow> fetch C k;
      case r of
        Inl e \<Rightarrow> State_Monad.return (Some e)
      | Inr cur \<Rightarrow>
          if skip target (spec cur) (status cur) then State_Monad.return None
          else do { s \<leftarrow> mutate (status cur); commit C cur (renew C cur reason s) }
    }"
    and writer: "writer C k target reason mutate = do {
      err \<leftarrow> retryOnConflict (retrySteps C) (once C k target reason mutate);
      State_Monad.return (ignoreNotFound err)
    }"
begin

text \<open>The same object, and the one it becomes: only its labels, annotations and status may differ.\<close>

definition same :: "'o \<Rightarrow> 'o \<Rightarrow> bool" where
  "same u c \<longleftrightarrow> key c = key u \<and> spec c = spec u"

definition became :: "'o \<Rightarrow> (string \<times> string \<Rightarrow> bool) \<Rightarrow> obj \<Rightarrow> bool" where
  "became u R y \<longleftrightarrow> (\<exists>c. y = wrap c \<and> same u c \<and> R (progress (status c)))"

text \<open>A change of the status that reads at most the clock.\<close>

definition changes :: "'w store \<Rightarrow> ('s \<Rightarrow> ('w, 's) prog) \<Rightarrow> (string \<times> string \<Rightarrow> bool) \<Rightarrow> bool" where
  "changes S mutate R \<longleftrightarrow> (\<forall>s w. ensures (mutate s) (\<lambda>t v. quiet S w v \<and> R (progress t)) w)"

lemma changes_return: "(\<And>s. R (progress (f s))) \<Longrightarrow> changes S (\<lambda>s. State_Monad.return (f s)) R"
  by (simp add: changes_def ensures_return)

lemma became_same: "same u c \<Longrightarrow> became c R y \<Longrightarrow> became u R y"
  by (auto simp: became_def same_def)

lemma put_attempt:
  assumes serve: "serves C S" and stored: "stored S w (kind, key c) = Some (wrap c)" and same: "same u c" and R: "R (progress s)"
  shows "ensures (do { err \<leftarrow> updateStatus C (wrap (put s c)); case err of Some e \<Rightarrow> State_Monad.return (Some e)
      | None \<Rightarrow> do { _ \<leftarrow> emitEvents C (wrap (put s c)) evs; State_Monad.return None } })
    (attempt S (kind, key c) (wrap c) (became u R) w) w"
  by (rule ensures_commit [OF serve _ stored own]) (use R same in \<open>auto simp: place put became_def same_def\<close>)

lemma commit_attempt:
  assumes serve: "serves C S" and stored: "stored S w (kind, key c) = Some (wrap c)" and same: "same u c" and R: "R (progress s)"
  shows "ensures (commit C c s) (attempt S (kind, key c) (wrap c) (became u R) w) w"
proof -
  have "settled S (kind, key c) (became u R) w w" if "s = status c"
    using settled_same [OF quiet_refl stored, of "became u R"] same R that by (auto simp: became_def)
  then show ?thesis
    unfolding commit using put_attempt [OF serve stored same, of R s, OF R] by (auto intro!: ensures_if ensures_return simp: attempt_def)
qed

lemma once_attempt:
  assumes serve: "serves C S" and stored: "stored S w (kind, key c) = Some (wrap c)" and same: "same u c"
    and may: "\<not> skip target (spec c) (status c)" and mutate: "changes S mutate R"
  shows "ensures (once C (key c) target reason mutate) (attempt S (kind, key c) (wrap c) (became u R) w) w"
  unfolding once
proof (rule ensures_bind [where P = "\<lambda>r v. r = Inr c \<and> quiet S w v"])
  show "ensures (fetch C (key c)) (\<lambda>r v. r = Inr c \<and> quiet S w v) w" by (rule fetch [OF serve stored]) simp
next
  fix r :: "goerr + 'o" and v
  assume "r = Inr c \<and> quiet S w v"
  then have r: "r = Inr c" and v: "quiet S w v" by simp_all
  have change: "ensures (mutate (status c)) (\<lambda>t x. quiet S v x \<and> R (progress t)) v" using mutate unfolding changes_def by blast
  have "ensures (commit C c (renew C c reason t)) (attempt S (kind, key c) (wrap c) (became u R) w) x" if "quiet S v x \<and> R (progress t)" for t x
  proof -
    have "stored S x (kind, key c) = Some (wrap c)" using stored quietD [OF v] quietD [of S v x] that by simp
    from commit_attempt [OF serve this same, of R] that
    have "ensures (commit C c (renew C c reason t)) (attempt S (kind, key c) (wrap c) (became u R) x) x" by (simp add: renew)
    then show ?thesis by (rule ensures_mono) (use attempt_quiet [OF quiet_trans [OF v]] that in blast)
  qed
  then show "ensures (case r of Inl e \<Rightarrow> State_Monad.return (Some e)
      | Inr cur \<Rightarrow> if skip target (spec cur) (status cur) then State_Monad.return None
          else do { s \<leftarrow> mutate (status cur); commit C cur (renew C cur reason s) }) (attempt S (kind, key c) (wrap c) (became u R) w) v"
    unfolding r sum.case if_not_P [OF may] by (rule ensures_bind [OF change])
qed

text \<open>What a conflict keeps of the stored object.\<close>

definition unmoved :: "'o \<Rightarrow> obj \<Rightarrow> bool" where
  "unmoved u d \<longleftrightarrow> (\<exists>c. d = wrap c \<and> same u c \<and> status c = status u)"

lemma unmoved_touched: "unmoved u c \<Longrightarrow> touched c d \<Longrightarrow> unmoved u d"
  using others by (fastforce simp: unmoved_def same_def)

lemma unmoved_refl: "unmoved u (wrap u)"
  by (auto simp: unmoved_def same_def)

lemma write_settles:
  assumes serve: "serves C S" and mutate: "changes S mutate R" and stored: "stored S w (kind, key u) = Some (wrap u)"
    and few: "contention S w \<le> retrySteps C" and may: "\<not> skip target (spec u) (status u)"
    and finish: "\<And>v. settled S (kind, key u) (became u R) w v \<Longrightarrow> Q None v"
  shows "ensures (writer C (key u) target reason mutate) Q w"
  unfolding writer
proof (rule retry_ignored [OF retry_settles [where I = "unmoved u" and P = "became u R", OF _ _ stored unmoved_refl few]])
  fix x d
  assume d: "stored S x (kind, key u) = Some d" "unmoved u d"
  then obtain c where c: "d = wrap c" "same u c" "status c = status u" by (auto simp: unmoved_def)
  then have at: "key c = key u" "spec c = spec u" by (simp_all add: same_def)
  have "ensures (once C (key c) target reason mutate) (attempt S (kind, key c) (wrap c) (became u R) x) x"
    by (rule once_attempt [OF serve _ c(2) _ mutate]) (use d c may at in simp_all)
  then show "ensures (once C (key u) target reason mutate) (attempt S (kind, key u) d (became u R) x) x" by (simp add: at c)
qed (rule unmoved_touched finish, assumption+)+

text \<open>The end of a pass: its last write, and how it goes on from there.\<close>

lemma finish_settles:
  assumes "serves C S" "changes S mutate R" "stored S w (kind, key u) = Some (wrap u)" "contention S w \<le> retrySteps C"
    and "\<not> skip target (spec u) (status u)"
  shows "ensures (do { err \<leftarrow> writer C (key u) target reason mutate; State_Monad.return (q, err) })
    (\<lambda>out v. out = (q, None) \<and> settled S (kind, key u) (became u R) w v) w"
  by (rule ensures_bind [OF write_settles [where Q = "\<lambda>err v. err = None \<and> settled S (kind, key u) (became u R) w v", OF assms]])
    (simp_all add: ensures_return)

lemma launch:
  assumes serve: "serves C S" and start: "\<And>now. changes S (mutate now) R" and stored: "stored S w (kind, key u) = Some (wrap u)"
    and few: "contention S w \<le> retrySteps C" and may: "\<not> skip target (spec u) (status u)" and jk: "jobKey j = jk"
  shows "ensures (do {
      err \<leftarrow> createObj C (OJob j);
      case (case err of Some e \<Rightarrow> if isAlreadyExists e then None else Some e | None \<Rightarrow> None) of
        Some e \<Rightarrow> State_Monad.return (0, Some (WrapError what e))
      | None \<Rightarrow> do {
          now \<leftarrow> timeNow C;
          werr \<leftarrow> writer C (key u) target reason (mutate now);
          State_Monad.return (q, werr)
        }
    }) (\<lambda>out v. out = (q, None) \<and> launched S (kind, key u) (became u R) (KJob, jk) w v) w"
proof -
  let ?k = "(kind, key u)"
  have other: "?k \<notin> {(KJob, jk)}" using no_job by auto
  have go: "ensures (do { now \<leftarrow> timeNow C; werr \<leftarrow> writer C (key u) target reason (mutate now); State_Monad.return (q, werr) })
      (\<lambda>out v. out = (q, None) \<and> launched S (kind, key u) (became u R) (KJob, jk) w v) x"
    if x: "stored S x (KJob, jk) \<noteq> None" "keeps S {(KJob, jk)} w x" "contention S x = contention S w" for x
    unfolding timeNow_def
  proof (rule ensures_bind [OF ensures_passive [OF serve, where Q = "\<lambda>_ v. quiet S x v"]], simp_all)
    fix now v
    assume v: "quiet S x v"
    with x keepsD [OF x(2) other] have at: "stored S v ?k = Some (wrap u)" "contention S v \<le> retrySteps C"
      using stored few by (auto dest!: quietD)
    have "launched S ?k (became u R) (KJob, jk) w z" if z: "settled S ?k (became u R) v z" for z
      unfolding launched_def
    proof (intro conjI)
      show "keeps S {?k, (KJob, jk)} w z"
        using keeps_trans [OF keeps_trans [OF x(2) keeps_quiet [OF v, of "{?k}"]] keeps_settled [OF z], of "{?k, (KJob, jk)}" "{?k}"] by blast
      show "stored S z (KJob, jk) \<noteq> None" using settled_frame [OF z, of "(KJob, jk)"] x(1) v other by (auto dest!: quietD)
    qed (use settled_stored [OF z] in blast)
    then show "ensures (do { werr \<leftarrow> writer C (key u) target reason (mutate now); State_Monad.return (q, werr) })
        (\<lambda>out v. out = (q, None) \<and> launched S ?k (became u R) (KJob, jk) w v) v"
      by (intro ensures_mono [OF finish_settles [OF serve start at may]]) blast
  qed
  show ?thesis
    by (rule ensures_bind [OF create_job [OF serve jk]]) (auto split: option.splits intro!: go)
qed

end

section \<open>The two writers\<close>

definition upgradeKey :: "upgrade \<Rightarrow> nsname" where
  "upgradeKey u = (metaNamespace (upMeta u), metaName (upMeta u))"

definition backupKey :: "backup \<Rightarrow> nsname" where
  "backupKey b = (metaNamespace (bkMeta b), metaName (bkMeta b))"

lemma place_simps:
  "place (OUpgrade u) = (KUpgrade, upgradeKey u)" "place (OBackup b) = (KBackup, backupKey b)" "place (OJob j) = (KJob, jobKey j)"
  by (simp_all add: place_def objKey_def upgradeKey_def backupKey_def jobKey_def)

lemma relabelled_names: "relabelled m m' \<Longrightarrow> metaName m' = metaName m \<and> metaNamespace m' = metaNamespace m"
  unfolding relabelled_def by (metis objmeta.select_convs(1,2) objmeta.surjective objmeta.update_convs(8,9))

lemma touched_upgrade:
  assumes "touched (OUpgrade c) d"
  shows "\<exists>c'. d = OUpgrade c' \<and> upgradeKey c' = upgradeKey c \<and> upSpec c' = upSpec c \<and> upStatus c' = upStatus c"
proof (cases d)
  case (OUpgrade c')
  with assms have "relabelled (upMeta c) (upMeta c')" "c' = c\<lparr>upMeta := upMeta c'\<rparr>" by simp_all
  then show ?thesis
    using OUpgrade relabelled_names by (metis upgradeKey_def upgrade.select_convs(2,3) upgrade.surjective upgrade.update_convs(1))
qed (use assms in simp_all)

lemma touched_backup:
  assumes "touched (OBackup c) d"
  shows "\<exists>c'. d = OBackup c' \<and> backupKey c' = backupKey c \<and> bkSpec c' = bkSpec c \<and> bkStatus c' = bkStatus c"
proof (cases d)
  case (OBackup c')
  with assms have "relabelled (bkMeta c) (bkMeta c')" "c' = c\<lparr>bkMeta := bkMeta c'\<rparr>" by simp_all
  then show ?thesis
    using OBackup relabelled_names by (metis backupKey_def backup.select_convs(2,3) backup.surjective backup.update_convs(1))
qed (use assms in simp_all)

definition upgradeProgress :: "upgrade_status \<Rightarrow> string \<times> string" where
  "upgradeProgress s = (upPhase s, upJobName s)"

definition backupProgress :: "backup_status \<Rightarrow> string \<times> string" where
  "backupProgress s = (bkPhase s, bkJobName s)"

definition upgradeSkips :: "string \<Rightarrow> upgrade_spec \<Rightarrow> upgrade_status \<Rightarrow> bool" where
  "upgradeSkips target p s \<longleftrightarrow> upgradePhaseTerminal (upPhase s) \<or> target = UpgradePhasePending \<and> upPhase s = UpgradePhaseRunning"

definition backupSkips :: "string \<Rightarrow> backup_spec \<Rightarrow> backup_status \<Rightarrow> bool" where
  "backupSkips target p s \<longleftrightarrow> bkSchedule p = '''' \<and> backupPhaseTerminal (bkPhase s)
     \<or> target = BackupPhasePending \<and> bkPhase s = BackupPhaseRunning"

lemma if_if: "(if a then x else if b then x else y) = (if a \<or> b then x else y)"
  by simp

lemma upgrade_once: "upgradeWriteOnce C k target reason mutate = do {
    r \<leftarrow> getUpgrade C k;
    case r of
      Inl e \<Rightarrow> State_Monad.return (Some e)
    | Inr cur \<Rightarrow>
        if upgradeSkips target (upSpec cur) (upStatus cur) then State_Monad.return None
        else do { s \<leftarrow> mutate (upStatus cur); upgradeCommit C cur (upgradeNewStatus C cur reason s) }
  }"
  unfolding upgradeWriteOnce_def upgradeSkips_def if_if by (rule refl)

lemma backup_once: "backupWriteOnce C k target reason mutate = do {
    r \<leftarrow> getBackup C k;
    case r of
      Inl e \<Rightarrow> State_Monad.return (Some e)
    | Inr cur \<Rightarrow>
        if backupSkips target (bkSpec cur) (bkStatus cur) then State_Monad.return None
        else do { s \<leftarrow> mutate (bkStatus cur); backupCommit C cur (backupNewStatus C cur reason s) }
  }"
  unfolding backupWriteOnce_def backupSkips_def if_if by (rule refl)

interpretation uw: status_writer KUpgrade OUpgrade upgradeKey upSpec upStatus "\<lambda>s c. c\<lparr>upStatus := s\<rparr>" upgradeProgress getUpgrade
  "\<lambda>C. upgradeNewStatus C" upgradeEvents upgradeSkips upgradeCommit upgradeWriteOnce upgradeWriteStatus
proof unfold_locales
  show "\<exists>c'. d = OUpgrade c' \<and> upgradeKey c' = upgradeKey c \<and> upSpec c' = upSpec c \<and> upStatus c' = upStatus c" if "touched (OUpgrade c) d" for c d
    by (rule touched_upgrade [OF that])
qed ((rule ensures_read(1), assumption+) | rule upgrade_once upgradeCommit_def upgradeWriteStatus_def |
    simp add: place_simps upgradeKey_def upgradeProgress_def upgradeNewStatus_def Let_def)+

interpretation bw: status_writer KBackup OBackup backupKey bkSpec bkStatus "\<lambda>s c. c\<lparr>bkStatus := s\<rparr>" backupProgress getBackup
  "\<lambda>C. backupNewStatus C" backupEvents backupSkips backupCommit backupWriteOnce backupWriteStatus
proof unfold_locales
  show "\<exists>c'. d = OBackup c' \<and> backupKey c' = backupKey c \<and> bkSpec c' = bkSpec c \<and> bkStatus c' = bkStatus c" if "touched (OBackup c) d" for c d
    by (rule touched_backup [OF that])
qed ((rule ensures_read(2), assumption+) | rule backup_once backupCommit_def backupWriteStatus_def |
    simp add: place_simps backupKey_def backupProgress_def backupNewStatus_def Let_def)+

end
