(* ===== verification/Backup_Progress.thy ===== *)
theory Backup_Progress
  imports Status_Writes
begin

text \<open>
  One-shot backups make progress: on an API server that keeps its promises, a pass over a backup whose turn it is starts its Job and
  stores Running, and a pass after the Job has ended stores the outcome.
\<close>

section \<open>What passes store\<close>

definition backupUnderWay :: "backup \<Rightarrow> obj \<Rightarrow> bool" where
  "backupUnderWay b y \<longleftrightarrow> (\<exists>c. y = OBackup c \<and> backupKey c = backupKey b \<and> bkSpec c = bkSpec b
     \<and> bkPhase (bkStatus c) = BackupPhaseRunning \<and> bkJobName (bkStatus c) = backupJobName (metaName (bkMeta b)))"

definition backupEnded :: "backup \<Rightarrow> string \<Rightarrow> obj \<Rightarrow> bool" where
  "backupEnded b phase y \<longleftrightarrow> (\<exists>c. y = OBackup c \<and> backupKey c = backupKey b \<and> bkSpec c = bkSpec b \<and> bkPhase (bkStatus c) = phase)"

definition backupAt :: "backup \<Rightarrow> kind \<times> nsname" where
  "backupAt b = (KBackup, backupKey b)"

definition backupJobAt :: "backup \<Rightarrow> kind \<times> nsname" where
  "backupJobAt b = (KJob, (metaNamespace (bkMeta b), backupJobName (metaName (bkMeta b))))"

lemma became_backup:
  "bw.became b (\<lambda>p. p = (BackupPhaseRunning, backupJobName (metaName (bkMeta b)))) = backupUnderWay b"
  "bw.became b (\<lambda>p. fst p = phase) = backupEnded b phase"
  by (simp_all add: fun_eq_iff bw.became_def bw.same_def backupUnderWay_def backupEnded_def backupProgress_def)

lemma sameBackup: "backupKey c = backupKey b \<longleftrightarrow> metaName (bkMeta c) = metaName (bkMeta b) \<and> metaNamespace (bkMeta c) = metaNamespace (bkMeta b)"
  by (auto simp: backupKey_def)

lemma backup_changes_start: "bw.changes S (startBackup n now) (\<lambda>p. p = (BackupPhaseRunning, n))"
  unfolding startBackup_def [abs_def] by (rule bw.changes_return) (simp add: backupProgress_def)

lemma backup_changes_fail:
  assumes "serves C S"
  shows "bw.changes S (failBackupNow C msg) (\<lambda>p. fst p = BackupPhaseFailed)"
  unfolding bw.changes_def failBackupNow_def call_defs
  by (auto simp: backupProgress_def intro!: ensures_bind [OF ensures_passive [OF assms, where Q = "\<lambda>_ v. quiet S w v" for w]] ensures_return)

section \<open>Starting the Job\<close>

text \<open>No other one-shot backup of the namespace holds this one back.\<close>

definition backupHeldBy :: "backup \<Rightarrow> backup \<Rightarrow> bool" where
  "backupHeldBy b v \<longleftrightarrow> metaName (bkMeta v) \<noteq> metaName (bkMeta b) \<and> refName (bkInstanceRef (bkSpec v)) = refName (bkInstanceRef (bkSpec b))
     \<and> bkSchedule (bkSpec v) = ''''
     \<and> (bkPhase (bkStatus v) = BackupPhaseRunning
        \<or> (bkPhase (bkStatus v) = '''' \<or> bkPhase (bkStatus v) = BackupPhasePending) \<and> backupOlder v b)"

definition backupItsTurn :: "'w store \<Rightarrow> 'w \<Rightarrow> backup \<Rightarrow> bool" where
  "backupItsTurn S w b \<longleftrightarrow> (\<forall>n v. stored S w (KBackup, (metaNamespace (bkMeta b), n)) = Some (OBackup v) \<longrightarrow> \<not> backupHeldBy b v)"

lemma backup_not_held_starts: "(\<And>v. v \<in> set xs \<Longrightarrow> \<not> backupHeldBy b v) \<Longrightarrow> MayStart (backupDecideStart b xs)"
  by (induction b xs rule: backupDecideStart.induct) (auto simp: backupHeldBy_def)

lemma backup_built_meta:
  assumes "buildBackupJob C b i db node = Some j"
  shows "metaOwners (jobMeta j) = []" "metaNamespace (jobMeta j) = metaNamespace (bkMeta b)" "metaName (jobMeta j) = backupJobName (metaName (bkMeta b))"
  using assms by (auto simp: buildBackupJob_def newJob_def newMeta_def)

lemma backup_reads_quiet:
  assumes "serves C S"
  shows "ensures (backupNodeFor C b i) (\<lambda>_ v. quiet S w v) w"
    and "ensures (backupResultLine C b) (\<lambda>_ v. quiet S w v) w"
    and "ensures (backupLogTail C b) (\<lambda>_ v. quiet S w v) w"
    and "ensures (backupJobCompletion C j) (\<lambda>_ v. quiet S w v) w"
proof -
  have calls: "ensures (ask C (PodLogs a b c d) f) (\<lambda>_ v. quiet S w v) w" "ensures (ask C (ListIn KPod n l) g) (\<lambda>_ v. quiet S w v) w"
    "ensures (ask C Now h) (\<lambda>_ v. quiet S w v) w" for a b c d f w n l g h
    by (auto intro: ensures_passive [OF assms])
  have logs: "ensures (backupPodLogs C b c) (\<lambda>_ v. quiet S w v) w" for c w
    unfolding backupPodLogs_def backupLatestPod_def listPods_def podLogs_def
    by (auto intro!: ensures_intros ensures_quiet_bind calls split: option.split)
  show "ensures (backupNodeFor C b i) (\<lambda>_ v. quiet S w v) w"
    unfolding backupNodeFor_def backupOdooPodNode_def listPods_def by (auto intro!: ensures_intros ensures_quiet_bind calls)
  show "ensures (backupResultLine C b) (\<lambda>_ v. quiet S w v) w"
    unfolding backupResultLine_def by (auto intro!: ensures_intros ensures_quiet_bind logs)
  show "ensures (backupLogTail C b) (\<lambda>_ v. quiet S w v) w"
    unfolding backupLogTail_def by (auto intro!: ensures_intros ensures_quiet_bind logs)
  show "ensures (backupJobCompletion C j) (\<lambda>_ v. quiet S w v) w"
    unfolding backupJobCompletion_def timeNow_def by (auto split: option.split intro!: ensures_intros ensures_quiet_bind calls)
qed

text \<open>A backup that can run: one-shot, valid, of an existing instance with a database, and not yet given a Job.\<close>

definition backupRunnable :: "'w cluster \<Rightarrow> 'w store \<Rightarrow> 'w \<Rightarrow> backup \<Rightarrow> bool" where
  "backupRunnable C S w b \<longleftrightarrow> stored S w (backupAt b) = Some (OBackup b) \<and> backupValidateSpec C b = None
     \<and> bkSchedule (bkSpec b) = '''' \<and> \<not> backupPhaseTerminal (bkPhase (bkStatus b))
     \<and> (bkPhase (bkStatus b) = BackupPhaseRunning \<longrightarrow> bkJobName (bkStatus b) = '''')
     \<and> (\<exists>i. stored S w (KInstance, (metaNamespace (bkMeta b), refName (bkInstanceRef (bkSpec b)))) = Some (OInstance i)
          \<and> backupDatabase b i \<noteq> '''')"

lemma backup_start_progress:
  assumes serve: "serves C S" and own: "adopts C" "lawfulOwners C" and stored: "stored S w (backupAt b) = Some (OBackup b)"
    and few: "contention S w \<le> retrySteps C" and valid: "backupValidateSpec C b = None"
    and may: "\<not> backupPhaseTerminal (bkPhase (bkStatus b))" and db: "backupDatabase b i \<noteq> ''''"
  shows "ensures (backupStart C b i)
    (\<lambda>out v. out = (backupRequeueRunning, None) \<and> launched S (backupAt b) (backupUnderWay b) (backupJobAt b) w v) w"
  unfolding backupStart_def Let_def if_not_P [OF db] backupKey_def [symmetric]
proof (rule ensures_bind [OF backup_reads_quiet(1) [OF serve]])
  fix node v
  assume v: "quiet S w v"
  let ?n = "backupJobName (metaName (bkMeta b))"
  obtain j where j: "buildBackupJob C b i (backupDatabase b i) node = Some j" by (rule validated_builds [OF valid])
  note built = backup_built_meta [OF j]
  obtain m where m: "SetControllerReference C (bkMeta b) (jobMeta j) = Inr m" using own(1) built unfolding adopts_def by metis
  have names: "metaName m = ?n" "jobKey (j\<lparr>jobMeta := m\<rparr>) = (metaNamespace (bkMeta b), ?n)"
    using lawful_owner_names [OF own(2) m] built by (simp_all add: jobKey_def)
  have at: "stored S v (KBackup, backupKey b) = Some (OBackup b)" "contention S v \<le> retrySteps C"
      and skip: "\<not> backupSkips BackupPhaseRunning (bkSpec b) (bkStatus b)"
    using stored few quietD [OF v] may by (simp_all add: backupAt_def backupSkips_def)
  note go = bw.launch [OF serve backup_changes_start [where n = ?n] at skip names(2), unfolded became_backup]
  show "ensures (case buildBackupJob C b i (backupDatabase b i) node of
        None \<Rightarrow> State_Monad.return nilDestination
      | Some j \<Rightarrow>
          (case SetControllerReference C (bkMeta b) (jobMeta j) of
             Inl e \<Rightarrow> State_Monad.return (0, Some e)
           | Inr m \<Rightarrow> do {
               err \<leftarrow> createObj C (OJob (j\<lparr>jobMeta := m\<rparr>));
               case (case err of Some e \<Rightarrow> if isAlreadyExists e then None else Some e | None \<Rightarrow> None) of
                 Some e \<Rightarrow> State_Monad.return (0, Some (WrapError ''failed to create backup job: '' e))
               | None \<Rightarrow> do {
                   now \<leftarrow> timeNow C;
                   werr \<leftarrow> backupWriteStatus C (backupKey b) BackupPhaseRunning ReasonRunning (startBackup (metaName m) now);
                   State_Monad.return (backupRequeueRunning, werr)
                 }
             }))
      (\<lambda>out v. out = (backupRequeueRunning, None) \<and> launched S (backupAt b) (backupUnderWay b) (backupJobAt b) w v) v"
    unfolding j option.case m sum.case names(1) backupAt_def backupJobAt_def
    by (rule ensures_mono [OF go]) (use launched_quiet [OF v] in blast)
qed

lemma backup_admit_progress:
  assumes serve: "serves C S" and own: "adopts C" "lawfulOwners C" and run: "backupRunnable C S w b" and turn: "backupItsTurn S w b"
    and few: "contention S w \<le> retrySteps C"
  shows "ensures (backupAdmit C (backupKey b) b)
    (\<lambda>out v. out = (backupRequeueRunning, None) \<and> launched S (backupAt b) (backupUnderWay b) (backupJobAt b) w v) w"
proof -
  let ?all = "{v. \<exists>n. stored S w (KBackup, (metaNamespace (bkMeta b), n)) = Some (OBackup v)}"
  from run obtain i where inst: "stored S w (KInstance, (metaNamespace (bkMeta b), refName (bkInstanceRef (bkSpec b)))) = Some (OInstance i)"
      "backupDatabase b i \<noteq> ''''"
    and valid: "backupValidateSpec C b = None" "\<not> backupPhaseTerminal (bkPhase (bkStatus b))" "stored S w (backupAt b) = Some (OBackup b)"
    by (auto simp: backupRunnable_def)
  have admit: "ensures (if \<not> MayStart (backupDecideStart b xs) then p else backupStart C b i)
      (\<lambda>out v. out = (backupRequeueRunning, None) \<and> launched S (backupAt b) (backupUnderWay b) (backupJobAt b) w v) y"
    if y: "quiet S w y" and xs: "set xs = ?all" for xs y p
  proof -
    have "MayStart (backupDecideStart b xs)" using turn xs by (intro backup_not_held_starts) (auto simp: backupItsTurn_def)
    moreover have "ensures (backupStart C b i)
        (\<lambda>out v. out = (backupRequeueRunning, None) \<and> launched S (backupAt b) (backupUnderWay b) (backupJobAt b) y v) y"
      by (rule backup_start_progress [OF serve own _ _ valid(1,2) inst(2)]) (use quietD [OF y] valid few in simp_all)
    ultimately show ?thesis by (auto intro: ensures_mono launched_quiet [OF y])
  qed
  have asked: "ensures (listBackups C (metaNamespace (bkMeta b))) (\<lambda>r v. \<exists>xs. r = Inr xs \<and> quiet S w v \<and> set xs = ?all) v"
    if "quiet S w v" for v
    by (rule ensures_list(2) [OF serve]) (use quietD [OF that] quiet_trans [OF that] in auto)
  show ?thesis
    unfolding backupAdmit_def valid option.case Let_def
    apply (rule ensures_bind [OF ensures_read(4) [where T = "\<lambda>r v. r = Inr i \<and> quiet S w v", OF serve inst(1)]], simp)
    apply (elim conjE, simp only: sum.case)
    apply (rule ensures_bind [OF asked], assumption)
    apply (elim exE conjE, simp only: sum.case)
    by (rule admit)
qed

section \<open>Following the Job\<close>

definition backupVerdict :: "job \<Rightarrow> string option" where
  "backupVerdict j = (if backupJobSucceeded j then Some BackupPhaseSucceeded
     else if fst (backupJobFailure j) then Some BackupPhaseFailed else None)"

lemma backup_monitor_progress:
  assumes serve: "serves C S" and stored: "stored S w (backupAt b) = Some (OBackup b)"
    and few: "contention S w \<le> retrySteps C" and may: "\<not> backupPhaseTerminal (bkPhase (bkStatus b))"
    and job: "stored S w (KJob, (metaNamespace (bkMeta b), bkJobName (bkStatus b))) = Some (OJob j)" "backupVerdict j = Some phase"
  shows "ensures (backupMonitor C b) (\<lambda>out v. out = (0, None) \<and> settled S (backupAt b) (backupEnded b phase) w v) w"
proof -
  have ended: "ensures (endBackup C (backupKey b) target reason mutate)
      (\<lambda>out v. out = (0, None) \<and> settled S (backupAt b) (backupEnded b phase) w v) x"
    if x: "quiet S w x" and "bw.changes S mutate (\<lambda>p. fst p = phase)" "target \<noteq> BackupPhasePending" for x target reason mutate
    unfolding endBackup_def backupAt_def
    by (rule ensures_mono [OF bw.finish_settles [OF serve that(2), where w = x, unfolded became_backup]])
      (use quietD [OF x] settled_quiet(1) [OF x] that(3) stored few may in \<open>auto simp: backupSkips_def backupAt_def\<close>)
  have good: "ensures (do { completion \<leftarrow> backupJobCompletion C j; result \<leftarrow> backupResultLine C b;
      endBackup C (backupKey b) BackupPhaseSucceeded ReasonComplete (\<lambda>s. State_Monad.return
        (s\<lparr>bkPhase := BackupPhaseSucceeded, bkMessage := '''', bkCompletionTime := completion, bkLastBackup := result\<rparr>)) })
      (\<lambda>out v. out = (0, None) \<and> settled S (backupAt b) (backupEnded b phase) w v) x"
    if "quiet S w x" "phase = BackupPhaseSucceeded" for x
    by (rule ensures_bind [OF backup_reads_quiet(4) [OF serve]], rule ensures_bind [OF backup_reads_quiet(2) [OF serve]],
        rule ended [OF _ bw.changes_return])
      (use that quiet_trans in \<open>auto simp: backupProgress_def intro: quiet_trans\<close>)
  have bad: "ensures (do { tail \<leftarrow> backupLogTail C b; endBackup C (backupKey b) BackupPhaseFailed ReasonJobFailed (failBackupNow C (f tail)) })
      (\<lambda>out v. out = (0, None) \<and> settled S (backupAt b) (backupEnded b phase) w v) x"
    if "quiet S w x" "phase = BackupPhaseFailed" for x f
    by (rule ensures_bind [OF backup_reads_quiet(3) [OF serve]], rule ended)
      (use that quiet_trans backup_changes_fail [OF serve] in auto)
  have cases_: "backupJobSucceeded j \<and> phase = BackupPhaseSucceeded
      \<or> \<not> backupJobSucceeded j \<and> fst (backupJobFailure j) \<and> phase = BackupPhaseFailed"
    using job(2) by (auto simp: backupVerdict_def split: if_splits)
  show ?thesis
    unfolding backupMonitor_def Let_def backupKey_def [symmetric]
    apply (rule ensures_bind [OF ensures_read(3) [where R = "\<lambda>r v. r = Inr j \<and> quiet S w v", OF serve job(1)]], simp)
    apply (elim conjE, simp only: sum.case)
    using cases_
    apply (elim disjE conjE)
     apply (subst if_P, assumption, rule good, assumption+)
    apply (subst if_not_P, assumption, subst if_P, assumption, rule bad, assumption+)
    done
qed

section \<open>Whole passes\<close>

lemma backup_pass:
  assumes serve: "serves C S" and stored: "stored S w (backupAt b) = Some (OBackup b)" and once: "bkSchedule (bkSpec b) = ''''"
    and rest: "\<And>v. quiet S w v \<Longrightarrow> ensures (reconcileOneShot C b) Q v"
  shows "ensures (backupReconcile C (backupKey b)) Q w"
  unfolding backupReconcile_def
  by (rule ensures_bind [OF ensures_read(2) [where P = "\<lambda>r v. r = Inr b \<and> quiet S w v", OF serve stored [unfolded backupAt_def]]])
    (use once rest in simp_all)

lemma backup_starts:
  assumes serve: "serves C S" and own: "adopts C" "lawfulOwners C" and run: "backupRunnable C S w b" and turn: "backupItsTurn S w b"
    and few: "contention S w \<le> retrySteps C"
  shows "ensures (backupReconcile C (backupKey b))
    (\<lambda>out v. out = (backupRequeueRunning, None) \<and> launched S (backupAt b) (backupUnderWay b) (backupJobAt b) w v) w"
proof (rule backup_pass [OF serve])
  show "stored S w (backupAt b) = Some (OBackup b)" "bkSchedule (bkSpec b) = ''''" using run by (simp_all add: backupRunnable_def)
  fix v
  assume v: "quiet S w v"
  have no: "\<not> backupPhaseTerminal (bkPhase (bkStatus b))" "\<not> (bkPhase (bkStatus b) = BackupPhaseRunning \<and> bkJobName (bkStatus b) \<noteq> '''')"
    using run by (auto simp: backupRunnable_def)
  have "ensures (backupAdmit C (backupKey b) b)
      (\<lambda>out x. out = (backupRequeueRunning, None) \<and> launched S (backupAt b) (backupUnderWay b) (backupJobAt b) v x) v"
    by (rule backup_admit_progress [OF serve own]) (use run turn few quietD [OF v] in \<open>simp_all add: backupRunnable_def backupItsTurn_def\<close>)
  then show "ensures (reconcileOneShot C b)
      (\<lambda>out x. out = (backupRequeueRunning, None) \<and> launched S (backupAt b) (backupUnderWay b) (backupJobAt b) w x) v"
    unfolding reconcileOneShot_def Let_def if_not_P [OF no(1)] if_not_P [OF no(2)] backupKey_def [symmetric]
    by (rule ensures_mono) (use launched_quiet [OF v] in blast)
qed

lemma backupJobName_nonempty: "backupJobName n \<noteq> ''''"
  by (simp add: backupJobName_def backupBoundedName_def Let_def)

lemma backup_ends:
  assumes serve: "serves C S" and y: "stored S v (backupAt b) = Some y" "backupUnderWay b y" and few: "contention S v \<le> retrySteps C"
    and once: "bkSchedule (bkSpec b) = ''''"
    and job: "stored S v (backupJobAt b) = Some (OJob j)" "backupVerdict j = Some phase"
  shows "ensures (backupReconcile C (backupKey b)) (\<lambda>out x. out = (0, None) \<and> settled S (backupAt b) (backupEnded b phase) v x) v"
proof -
  from y(2) obtain c where c: "y = OBackup c" "backupKey c = backupKey b" "bkSpec c = bkSpec b"
      and run: "bkPhase (bkStatus c) = BackupPhaseRunning" "bkJobName (bkStatus c) = backupJobName (metaName (bkMeta b))"
    by (auto simp: backupUnderWay_def)
  have at: "backupAt c = backupAt b" "backupEnded c = backupEnded b" "metaNamespace (bkMeta c) = metaNamespace (bkMeta b)"
    using c(2,3) by (simp_all add: backupAt_def backupEnded_def [abs_def] sameBackup fun_eq_iff)
  have no: "\<not> backupPhaseTerminal (bkPhase (bkStatus c))" and yes: "bkPhase (bkStatus c) = BackupPhaseRunning \<and> bkJobName (bkStatus c) \<noteq> ''''"
    using run backupJobName_nonempty by (simp_all add: backupPhaseTerminal_def)
  have "ensures (reconcileOneShot C c) (\<lambda>out x. out = (0, None) \<and> settled S (backupAt b) (backupEnded b phase) v x) x" if x: "quiet S v x" for x
    unfolding reconcileOneShot_def Let_def if_not_P [OF no] if_P [OF yes]
    by (rule ensures_mono [OF backup_monitor_progress [OF serve _ _ no _ job(2)]])
      (use y(1) job(1) few quietD [OF x] settled_quiet(1) [OF x] in \<open>auto simp: at c(1) run(2) backupJobAt_def\<close>)
  from backup_pass [where b = c, OF serve _ _ this] show ?thesis using y(1) once by (simp add: at c)
qed

section \<open>Properties\<close>

text \<open>C14: One-shot backups make progress. On an API server that keeps its promises, and with at most as many conflicts as the code
  retries, one pass over a backup that can run and whose turn it is leaves its Job in the cluster and Running stored under the
  name of that Job, changes nothing else, and asks to be called again; whenever the Job has then ended, the next pass
  stores its outcome, Succeeded if the Job succeeded and Failed if it failed, and nothing else.\<close>

theorem backup_completes:
  assumes "serves C S" "adopts C" "lawfulOwners C" "backupRunnable C S w b" "backupItsTurn S w b" "contention S w \<le> retrySteps C"
  shows "resultOf (backupReconcile C (backupKey b)) w = (backupRequeueRunning, None)
    \<and> launched S (backupAt b) (backupUnderWay b) (backupJobAt b) w (worldAfter (backupReconcile C (backupKey b)) w)
    \<and> (\<forall>v y j phase. stored S v (backupAt b) = Some y \<and> backupUnderWay b y \<and> contention S v \<le> retrySteps C
        \<and> stored S v (backupJobAt b) = Some (OJob j) \<and> backupVerdict j = Some phase \<longrightarrow>
      resultOf (backupReconcile C (backupKey b)) v = (0, None)
      \<and> settled S (backupAt b) (backupEnded b phase) v (worldAfter (backupReconcile C (backupKey b)) v))"
proof -
  have "bkSchedule (bkSpec b) = ''''" using assms(4) by (simp add: backupRunnable_def)
  then show ?thesis
    using ensures_after [OF backup_starts [OF assms]] ensures_after [OF backup_ends [OF assms(1)]] by blast
qed

definition backedShop :: odoo_instance where
  "backedShop = bareInstance ''shop'' ''ns''"

definition backupWorld :: ref_world where
  "backupWorld = refPut (OBackup claimBackup) (refPut (OInstance backedShop) \<lparr>refObjects = [], refConflicts = 3\<rparr>)"

text \<open>The Job of that backup, failed, and the world in which it has.\<close>

definition badJob :: job where
  "badJob = (newJob (newMeta (backupJobName ''bk'') ''ns'') \<lparr>jobBackoffLimit = Some 0, jobDeadline = None, jobTTL = None,
     jobTemplate = \<lparr>templLabels = [], templAnnotations = [], templSpec = zeroPodSpec\<rparr>\<rparr>)\<lparr>jobFailed := 1\<rparr>"

definition jobBroken :: "ref_world \<Rightarrow> ref_world" where
  "jobBroken w = (refPut (OJob badJob) w)\<lparr>refConflicts := 1\<rparr>"

lemma badJob_failed: "backupVerdict badJob = Some BackupPhaseFailed"
  by (simp add: backupVerdict_def backupJobSucceeded_def backupHasCondition_def backupJobFailure_def failedCondition_def badJob_def newJob_def)

lemma jobBroken_stored: "refStored (jobBroken w) = (refStored w)((KJob, (''ns'', backupJobName ''bk'')) \<mapsto> OJob badJob)"
  "refConflicts (jobBroken w) = 1"
  by (simp_all add: jobBroken_def refStored_put place_simps jobKey_def badJob_def newJob_def newMeta_def)

lemma backed_sel:
  "metaName (bkMeta claimBackup) = ''bk''" "metaNamespace (bkMeta claimBackup) = ''ns''" "backupKey claimBackup = (''ns'', ''bk'')"
  "refName (bkInstanceRef (bkSpec claimBackup)) = ''shop''" "bkPhase (bkStatus claimBackup) = ''''" "bkSchedule (bkSpec claimBackup) = ''''"
  "backupDatabase claimBackup i = ''shop''" "place (OInstance backedShop) = (KInstance, (''ns'', ''shop''))"
  by (simp_all add: claimBackup_def sampleBackup_def newMeta_def backupKey_def backupDatabase_def backedShop_def bareInstance_def
      place_def objKey_def)

lemma claim_valid: "backupValidateSpec refServer claimBackup = None"
proof -
  have checks: "retentionError (bkSpec claimBackup) = None" "timeoutError (bkSpec claimBackup) = None"
      "scratchError refServer (bkScratchSize (bkSpec claimBackup)) = None" "scheduleError (bkSpec claimBackup) = None"
      "backupValidateDestination (bkDestination (bkSpec claimBackup)) = None" "backupDatabaseRe (bkDatabase (bkSpec claimBackup))"
    by (simp_all add: retentionError_def timeoutError_def scratchError_def scheduleError_def Let_def claimBackup_def
        backupValidateDestination_def backupValidatePath_def backupDatabaseRe_def, code_simp)
  have "refNamespace (bkInstanceRef (bkSpec claimBackup)) = ''''" by (simp add: claimBackup_def)
  then show ?thesis unfolding backupValidateSpec_def Let_def by (simp only: checks) (simp add: backed_sel)
qed

lemma backup_runs: "backupRunnable refServer refStore backupWorld claimBackup" "backupItsTurn refStore backupWorld claimBackup"
proof -
  show "backupRunnable refServer refStore backupWorld claimBackup"
    by (simp add: backupRunnable_def backed_sel backupWorld_def backupPhaseTerminal_def refStored_put place_simps backupAt_def claim_valid)
  show "backupItsTurn refStore backupWorld claimBackup"
    by (auto simp: backupItsTurn_def backed_sel backupWorld_def backupHeldBy_def refStored_put place_simps split: if_splits)
      (auto simp: refStored_def)
qed

theorem backup_completes_witness:
  "let w = worldAfter (backupReconcile refServer (''ns'', ''bk'')) backupWorld; v = jobBroken w in
     resultOf (backupReconcile refServer (''ns'', ''bk'')) backupWorld = (backupRequeueRunning, None)
     \<and> settled refStore (backupAt claimBackup) (backupEnded claimBackup BackupPhaseFailed) v
         (worldAfter (backupReconcile refServer (''ns'', ''bk'')) v)"
proof -
  have few: "contention refStore backupWorld \<le> retrySteps refServer" by (simp add: backupWorld_def)
  note all = backup_completes [OF serves_ref adopts_ref refServer_lib(2) backup_runs few, unfolded backed_sel]
  let ?w = "worldAfter (backupReconcile refServer (''ns'', ''bk'')) backupWorld" and ?at = "backupAt claimBackup"
  from all obtain y where y: "backupUnderWay claimBackup y" "stored refStore ?w ?at = Some y" unfolding launched_def by blast
  let ?v = "jobBroken ?w"
  have "stored refStore ?v ?at = Some y" using y(2) by (simp add: jobBroken_stored backupAt_def)
  moreover have "contention refStore ?v \<le> retrySteps refServer" "stored refStore ?v (backupJobAt claimBackup) = Some (OJob badJob)"
    by (simp_all add: jobBroken_stored backupJobAt_def backed_sel)
  ultimately show ?thesis
    using all y(1) badJob_failed unfolding Let_def by blast
qed

end
