(* ===== verification/Upgrade_Progress.thy ===== *)
theory Upgrade_Progress
  imports Status_Writes
begin

text \<open>
  Upgrades make progress: on an API server that keeps its promises (\<open>serves\<close>), a pass over an upgrade whose turn it is starts
  its Job and stores Running, and a pass after the Job has ended stores the outcome. Conflicts on status writes are allowed, as
  many as the code retries.
\<close>

section \<open>What passes store\<close>

text \<open>The upgrade with a Job on its way, and with an outcome.\<close>

definition underWay :: "upgrade \<Rightarrow> obj \<Rightarrow> bool" where
  "underWay u y \<longleftrightarrow> (\<exists>c. y = OUpgrade c \<and> upgradeKey c = upgradeKey u \<and> upSpec c = upSpec u
     \<and> upPhase (upStatus c) = UpgradePhaseRunning \<and> upJobName (upStatus c) = upgradeJobName (metaName (upMeta u)))"

definition upgradeEnded :: "upgrade \<Rightarrow> string \<Rightarrow> obj \<Rightarrow> bool" where
  "upgradeEnded u phase y \<longleftrightarrow> (\<exists>c. y = OUpgrade c \<and> upgradeKey c = upgradeKey u \<and> upSpec c = upSpec u \<and> upPhase (upStatus c) = phase)"

definition upgradeAt :: "upgrade \<Rightarrow> kind \<times> nsname" where
  "upgradeAt u = (KUpgrade, upgradeKey u)"

definition upgradeJobAt :: "upgrade \<Rightarrow> kind \<times> nsname" where
  "upgradeJobAt u = (KJob, (metaNamespace (upMeta u), upgradeJobName (metaName (upMeta u))))"

lemma became_underWay: "uw.became u (\<lambda>p. p = (UpgradePhaseRunning, upgradeJobName (metaName (upMeta u)))) y = underWay u y"
  by (simp add: uw.became_def uw.same_def underWay_def upgradeProgress_def)

lemma became_ended: "uw.became u (\<lambda>p. fst p = phase) y = upgradeEnded u phase y"
  by (simp add: uw.became_def uw.same_def upgradeEnded_def upgradeProgress_def)

lemma sameKey: "upgradeKey c = upgradeKey u \<longleftrightarrow> metaName (upMeta c) = metaName (upMeta u) \<and> metaNamespace (upMeta c) = metaNamespace (upMeta u)"
  by (auto simp: upgradeKey_def)

text \<open>Missing conditions are filled in without changing anything else.\<close>

definition asBefore :: "upgrade \<Rightarrow> obj \<Rightarrow> bool" where
  "asBefore u = uw.became u (\<lambda>p. p = upgradeProgress (upStatus u))"

lemma backfill_once:
  assumes serve: "serves C S" and stored: "stored S w (KUpgrade, upgradeKey u) = Some d" and at: "uw.unmoved u d"
  shows "ensures (upgradeBackfillOnce C (upgradeKey u)) (attempt S (KUpgrade, upgradeKey u) d (asBefore u) w) w"
proof -
  from at obtain c where c: "d = OUpgrade c" "uw.same u c" "upStatus c = upStatus u" by (auto simp: uw.unmoved_def)
  have key: "upgradeKey c = upgradeKey u" using c(2) by (simp add: uw.same_def)
  have put: "ensures (updateStatus C (OUpgrade (c\<lparr>upStatus := (upStatus c)\<lparr>upConds := cs\<rparr>\<rparr>)))
      (attempt S (KUpgrade, upgradeKey u) d (asBefore u) w) v" if v: "quiet S w v" for v cs
  proof -
    let ?x = "OUpgrade (c\<lparr>upStatus := (upStatus c)\<lparr>upConds := cs\<rparr>\<rparr>)"
    have at: "place ?x = (KUpgrade, upgradeKey u)" using key by (simp add: uw.place uw.put)
    have new: "asBefore u ?x" using c by (simp add: asBefore_def uw.became_def uw.same_def uw.put upgradeProgress_def)
    have "ensures (updateStatus C ?x) (attempt S (KUpgrade, upgradeKey u) d (asBefore u) v) v"
      by (rule ensures_status [OF serve, where c = d])
        (use stored c(1) new quietD [OF v] in \<open>auto simp: at attempt_def settled_def disturbed_def isApiConflict_def\<close>)
    then show ?thesis by (rule ensures_mono) (rule attempt_quiet [OF v])
  qed
  have "asBefore u d" using c by (simp add: asBefore_def uw.became_def)
  then have same: "attempt S (KUpgrade, upgradeKey u) d (asBefore u) w None v" if "quiet S w v" for v
    using settled_same [OF that stored] by (simp add: attempt_def)
  show ?thesis
    unfolding upgradeBackfillOnce_def
    by (rule ensures_bind [where P = "\<lambda>r v. r = Inr c \<and> quiet S w v"])
      (auto simp: c(1) intro!: ensures_read(1) [OF serve stored [unfolded c(1)]] ensures_return put [unfolded c(1)] same [unfolded c(1)])
qed

lemma backfill_settles:
  assumes serve: "serves C S" and stored: "stored S w (KUpgrade, upgradeKey u) = Some (OUpgrade u)"
    and few: "contention S w \<le> retrySteps C"
  shows "ensures (upgradeBackfillConditions C (upgradeKey u)) (\<lambda>err v. err = None \<and> settled S (KUpgrade, upgradeKey u) (asBefore u) w v) w"
  unfolding upgradeBackfillConditions_def
proof (rule retry_ignored [OF retry_settles [where I = "uw.unmoved u" and P = "asBefore u", OF _ _ stored uw.unmoved_refl few]])
  show "ensures (upgradeBackfillOnce C (upgradeKey u)) (attempt S (KUpgrade, upgradeKey u) c (asBefore u) x) x"
    if "stored S x (KUpgrade, upgradeKey u) = Some c" "uw.unmoved u c" for x c
    by (rule backfill_once [OF serve that])
qed (rule uw.unmoved_touched, assumption+, simp)

text \<open>The changes the reconciler makes.\<close>

lemma changes_start: "uw.changes S (startUpgrade n now) (\<lambda>p. p = (UpgradePhaseRunning, n))"
  unfolding startUpgrade_def [abs_def] by (rule uw.changes_return) (simp add: upgradeProgress_def)

lemma changes_fail:
  assumes "serves C S"
  shows "uw.changes S (failUpgradeNow C msg) (\<lambda>p. fst p = UpgradePhaseFailed)"
  unfolding uw.changes_def failUpgradeNow_def call_defs
  by (auto simp: upgradeProgress_def intro!: ensures_bind [OF ensures_passive [OF assms, where Q = "\<lambda>_ v. quiet S w v" for w]] ensures_return)

section \<open>Starting the Job\<close>

text \<open>No other upgrade of the namespace holds this one back.\<close>

definition heldBy :: "upgrade \<Rightarrow> upgrade \<Rightarrow> bool" where
  "heldBy u v \<longleftrightarrow> metaName (upMeta v) \<noteq> metaName (upMeta u) \<and> refName (upInstanceRef (upSpec v)) = refName (upInstanceRef (upSpec u))
     \<and> (upPhase (upStatus v) = UpgradePhaseRunning
        \<or> (upPhase (upStatus v) = '''' \<or> upPhase (upStatus v) = UpgradePhasePending) \<and> upgradeOlder v u)"

definition itsTurn :: "'w store \<Rightarrow> 'w \<Rightarrow> upgrade \<Rightarrow> bool" where
  "itsTurn S w u \<longleftrightarrow> (\<forall>n v. stored S w (KUpgrade, (metaNamespace (upMeta u), n)) = Some (OUpgrade v) \<longrightarrow> \<not> heldBy u v)"

lemma not_held_starts: "(\<And>v. v \<in> set xs \<Longrightarrow> \<not> heldBy u v) \<Longrightarrow> MayStart (upgradeDecideStart u xs)"
  by (induction u xs rule: upgradeDecideStart.induct) (auto simp: heldBy_def)

lemma built_meta:
  "metaOwners (jobMeta (buildUpgradeJob u i db node)) = []"
  "metaNamespace (jobMeta (buildUpgradeJob u i db node)) = metaNamespace (upMeta u)"
  "metaName (jobMeta (buildUpgradeJob u i db node)) = upgradeJobName (metaName (upMeta u))"
  by (simp_all add: buildUpgradeJob_def newJob_def newMeta_def)

lemma podNode_quiet:
  assumes "serves C S"
  shows "ensures (if b then upgradeOdooPodNode C i else State_Monad.return '''') (\<lambda>_ v. quiet S w v) w"
  unfolding upgradeOdooPodNode_def call_defs
  by (auto intro!: ensures_intros ensures_bind [OF ensures_passive [OF assms, where Q = "\<lambda>_ v. quiet S w v"]])

lemma start_progress:
  assumes serve: "serves C S" and own: "adopts C" "lawfulOwners C"
    and stored: "stored S w (upgradeAt u) = Some (OUpgrade c)" "uw.same u c" and few: "contention S w \<le> retrySteps C"
    and may: "\<not> upgradePhaseTerminal (upPhase (upStatus c))" and db: "upgradeDatabase u i \<noteq> ''''"
  shows "ensures (upgradeStart C u i) (\<lambda>out v. out = (upgradeRequeueRunning, None) \<and> launched S (upgradeAt u) (underWay u) (upgradeJobAt u) w v) w"
proof -
  have key: "upgradeKey c = upgradeKey u" using stored(2) by (simp add: uw.same_def)
  let ?n = "upgradeJobName (metaName (upMeta u))"
  have becomes: "underWay u y" if "uw.became c (\<lambda>p. p = (UpgradePhaseRunning, ?n)) y" for y
    using uw.became_same [OF stored(2) that] by (simp add: became_underWay)
  have skip: "\<not> upgradeSkips UpgradePhaseRunning (upSpec c) (upStatus c)" using may by (simp add: upgradeSkips_def)
  show ?thesis
    unfolding upgradeStart_def Let_def if_not_P [OF db] upgradeKey_def [symmetric]
  proof (rule ensures_bind [OF podNode_quiet [OF serve]])
    fix node v
    assume v: "quiet S w v"
    let ?j = "buildUpgradeJob u i (upgradeDatabase u i) node"
    obtain m where m: "SetControllerReference C (upMeta u) (jobMeta ?j) = Inr m" using own(1) built_meta unfolding adopts_def by metis
    have names: "metaName m = ?n" "jobKey (?j\<lparr>jobMeta := m\<rparr>) = (metaNamespace (upMeta u), ?n)"
      using lawful_owner_names [OF own(2) m] built_meta by (simp_all add: jobKey_def)
    have at: "stored S v (KUpgrade, upgradeKey c) = Some (OUpgrade c)" "contention S v \<le> retrySteps C"
      using stored few quietD [OF v] by (simp_all add: key upgradeAt_def)
    have finish: "launched S (upgradeAt u) (underWay u) (upgradeJobAt u) w x"
      if "launched S (KUpgrade, upgradeKey c) (uw.became c (\<lambda>p. p = (UpgradePhaseRunning, ?n))) (KJob, (metaNamespace (upMeta u), ?n)) v x" for x
      by (rule launched_quiet [OF v]) (use that becomes in \<open>auto simp: launched_def key upgradeAt_def upgradeJobAt_def\<close>)
    note go = uw.launch [OF serve changes_start at skip names(2), unfolded key]
    show "ensures (case SetControllerReference C (upMeta u) (jobMeta ?j) of
           Inl e \<Rightarrow> State_Monad.return (0, Some e)
         | Inr m \<Rightarrow> do {
             err \<leftarrow> createObj C (OJob (?j\<lparr>jobMeta := m\<rparr>));
             case (case err of Some e \<Rightarrow> if isAlreadyExists e then None else Some e | None \<Rightarrow> None) of
               Some e \<Rightarrow> State_Monad.return (0, Some (WrapError ''failed to create upgrade job: '' e))
             | None \<Rightarrow> do {
                 now \<leftarrow> timeNow C;
                 werr \<leftarrow> upgradeWriteStatus C (upgradeKey u) UpgradePhaseRunning ReasonRunning (startUpgrade (metaName m) now);
                 State_Monad.return (upgradeRequeueRunning, werr)
               }
           }) (\<lambda>out v. out = (upgradeRequeueRunning, None) \<and> launched S (upgradeAt u) (underWay u) (upgradeJobAt u) w v) v"
      unfolding m sum.case names(1) by (rule ensures_mono [OF go]) (use finish key in auto)
  qed
qed

lemma admit_progress:
  assumes serve: "serves C S" and own: "adopts C" "lawfulOwners C"
    and stored: "stored S w (upgradeAt u) = Some (OUpgrade c)" "uw.same u c" and few: "contention S w \<le> retrySteps C"
    and may: "\<not> upgradePhaseTerminal (upPhase (upStatus c))" and valid: "upgradeValidateSpec u = None"
    and inst: "stored S w (KInstance, (metaNamespace (upMeta u), refName (upInstanceRef (upSpec u)))) = Some (OInstance i)" "upgradeDatabase u i \<noteq> ''''"
    and turn: "itsTurn S w u"
  shows "ensures (upgradeAdmit C (upgradeKey u) u)
    (\<lambda>out v. out = (upgradeRequeueRunning, None) \<and> launched S (upgradeAt u) (underWay u) (upgradeJobAt u) w v) w"
proof -
  let ?all = "{v. \<exists>n. stored S w (KUpgrade, (metaNamespace (upMeta u), n)) = Some (OUpgrade v)}"
  have admit: "ensures (if \<not> MayStart (upgradeDecideStart u xs) then p else upgradeStart C u i)
      (\<lambda>out v. out = (upgradeRequeueRunning, None) \<and> launched S (upgradeAt u) (underWay u) (upgradeJobAt u) w v) y"
    if y: "quiet S w y" and xs: "set xs = ?all" for xs y p
  proof -
    have "MayStart (upgradeDecideStart u xs)" using turn xs by (intro not_held_starts) (auto simp: itsTurn_def)
    moreover have "ensures (upgradeStart C u i)
        (\<lambda>out v. out = (upgradeRequeueRunning, None) \<and> launched S (upgradeAt u) (underWay u) (upgradeJobAt u) y v) y"
      by (rule start_progress [OF serve own _ stored(2) _ may inst(2)]) (use quietD [OF y] stored few in simp_all)
    ultimately show ?thesis by (auto intro: ensures_mono launched_quiet [OF y])
  qed
  have asked: "ensures (listUpgrades C (metaNamespace (upMeta u))) (\<lambda>r v. \<exists>xs. r = Inr xs \<and> quiet S w v \<and> set xs = ?all) v"
    if "quiet S w v" for v
    by (rule ensures_list(1) [OF serve]) (use quietD [OF that] quiet_trans [OF that] in auto)
  show ?thesis
    unfolding upgradeAdmit_def valid option.case Let_def
    apply (rule ensures_bind [OF ensures_read(4) [where T = "\<lambda>r v. r = Inr i \<and> quiet S w v", OF serve inst(1)]], simp)
    apply (elim conjE, simp only: sum.case)
    apply (rule ensures_bind [OF asked], assumption)
    apply (elim exE conjE, simp only: sum.case)
    by (rule admit)
qed

section \<open>Following the Job\<close>

lemma logTail_quiet:
  assumes "serves C S"
  shows "ensures (upgradeLogTail C u) (\<lambda>_ v. quiet S w v) w"
proof -
  have logs: "ensures (ask C (PodLogs a b c d) f) (\<lambda>_ v. quiet S w v) w" "ensures (ask C (ListIn KPod n l) g) (\<lambda>_ v. quiet S w v) w" for a b c d f w n l g
    by (auto intro: ensures_passive [OF assms])
  show ?thesis
    unfolding upgradeLogTail_def listPods_def podLogs_def
    by (auto intro!: ensures_intros ensures_quiet_bind logs split: option.split)
qed

lemma completion_quiet: "serves C S \<Longrightarrow> ensures (upgradeJobCompletion C j) (\<lambda>_ v. quiet S w v) w"
  unfolding upgradeJobCompletion_def timeNow_def
  by (auto split: option.split intro!: ensures_intros ensures_quiet_bind ensures_passive)

text \<open>What a Job that has ended means for its upgrade.\<close>

definition jobVerdict :: "job \<Rightarrow> string option" where
  "jobVerdict j = (if upgradeJobSucceeded j then Some UpgradePhaseSucceeded
     else if fst (upgradeJobFailure j) then Some UpgradePhaseFailed else None)"

lemma monitor_progress:
  assumes serve: "serves C S" and stored: "stored S w (upgradeAt u) = Some (OUpgrade c)" "uw.same u c"
    and few: "contention S w \<le> retrySteps C" and may: "\<not> upgradePhaseTerminal (upPhase (upStatus c))"
    and job: "stored S w (KJob, (metaNamespace (upMeta u), upJobName (upStatus u))) = Some (OJob j)" "jobVerdict j = Some phase"
  shows "ensures (upgradeMonitor C u) (\<lambda>out v. out = (0, None) \<and> settled S (upgradeAt u) (upgradeEnded u phase) w v) w"
proof -
  have key: "upgradeKey c = upgradeKey u" using stored(2) by (simp add: uw.same_def)
  have becomes: "upgradeEnded u phase y" if "uw.became c (\<lambda>p. fst p = phase) y" for y
    using uw.became_same [OF stored(2) that] by (simp add: became_ended)
  have ended: "ensures (do { err \<leftarrow> upgradeWriteStatus C (upgradeKey u) target reason mutate; State_Monad.return (0, err) })
      (\<lambda>out v. out = (0, None) \<and> settled S (upgradeAt u) (upgradeEnded u phase) w v) x"
    if x: "quiet S w x" and "uw.changes S mutate (\<lambda>p. fst p = phase)" "target \<noteq> UpgradePhasePending" for x target reason mutate
  proof -
    have "settled S (upgradeAt u) (upgradeEnded u phase) w v"
      if "settled S (KUpgrade, upgradeKey u) (uw.became c (\<lambda>p. fst p = phase)) x v" for v
      using settled_quiet(1) [OF x settled_mono [OF that becomes]] by (simp add: upgradeAt_def)
    then show ?thesis
      by (intro ensures_mono [OF uw.finish_settles [where S = S and mutate = mutate and R = "\<lambda>p. fst p = phase" and w = x and u = c, unfolded key]])
        (use quietD [OF x] that stored few may in \<open>simp_all add: serve upgradeSkips_def upgradeAt_def\<close>)
  qed
  have good: "ensures (do { completion \<leftarrow> upgradeJobCompletion C j;
      err \<leftarrow> upgradeWriteStatus C (upgradeKey u) UpgradePhaseSucceeded ReasonComplete (\<lambda>s. State_Monad.return
        (s\<lparr>upPhase := UpgradePhaseSucceeded, upMessage := '''', upCompletionTime := completion\<rparr>));
      State_Monad.return (0, err) }) (\<lambda>out v. out = (0, None) \<and> settled S (upgradeAt u) (upgradeEnded u phase) w v) x"
    if "quiet S w x" "phase = UpgradePhaseSucceeded" for x
    by (rule ensures_bind [OF completion_quiet [OF serve]], rule ended [OF _ uw.changes_return])
      (use that quiet_trans in \<open>auto simp: upgradeProgress_def\<close>)
  have bad: "ensures (do { tail \<leftarrow> upgradeLogTail C u;
      err \<leftarrow> upgradeWriteStatus C (upgradeKey u) UpgradePhaseFailed ReasonJobFailed (failUpgradeNow C (f tail));
      State_Monad.return (0, err) }) (\<lambda>out v. out = (0, None) \<and> settled S (upgradeAt u) (upgradeEnded u phase) w v) x"
    if "quiet S w x" "phase = UpgradePhaseFailed" for x f
    by (rule ensures_bind [OF logTail_quiet [OF serve]], rule ended)
      (use that quiet_trans changes_fail [OF serve] in auto)
  have cases_: "upgradeJobSucceeded j \<and> phase = UpgradePhaseSucceeded
      \<or> \<not> upgradeJobSucceeded j \<and> fst (upgradeJobFailure j) \<and> phase = UpgradePhaseFailed"
    using job(2) by (auto simp: jobVerdict_def split: if_splits)
  show ?thesis
    unfolding upgradeMonitor_def Let_def upgradeKey_def [symmetric]
    apply (rule ensures_bind [OF ensures_read(3) [where R = "\<lambda>r v. r = Inr j \<and> quiet S w v", OF serve job(1)]], simp)
    apply (elim conjE, simp only: sum.case)
    using cases_
    apply (elim disjE conjE)
     apply (subst if_P, assumption, rule good, assumption+)
    apply (subst if_not_P, assumption, subst if_P, assumption, rule bad, assumption+)
    done
qed

section \<open>Whole passes\<close>

text \<open>After the read and the conditions the pass goes on with a stored copy of the same progress.\<close>

lemma pass_opens:
  assumes serve: "serves C S" and stored: "stored S w (upgradeAt u) = Some (OUpgrade u)" and few: "contention S w \<le> retrySteps C"
    and may: "\<not> upgradePhaseTerminal (upPhase (upStatus u))"
    and rest: "\<And>v c. settled S (upgradeAt u) (asBefore u) w v \<Longrightarrow> stored S v (upgradeAt u) = Some (OUpgrade c) \<Longrightarrow> uw.same u c \<Longrightarrow>
      upgradeProgress (upStatus c) = upgradeProgress (upStatus u) \<Longrightarrow> contention S v \<le> retrySteps C \<Longrightarrow>
      ensures (if upPhase (upStatus u) = UpgradePhaseRunning \<and> upJobName (upStatus u) \<noteq> '''' then upgradeMonitor C u
        else upgradeAdmit C (upgradeKey u) u) Q v"
  shows "ensures (upgradeReconcile C (upgradeKey u)) Q w"
proof -
  note at = stored [unfolded upgradeAt_def]
  have fill: "ensures (if b then upgradeBackfillConditions C (upgradeKey u) else State_Monad.return None)
      (\<lambda>err v. err = None \<and> settled S (upgradeAt u) (asBefore u) w v) x" if x: "quiet S w x" for b x
    unfolding upgradeAt_def
  proof (intro ensures_intros)
    show "None = None \<and> settled S (KUpgrade, upgradeKey u) (asBefore u) w x"
      using settled_same [OF x at] by (simp add: asBefore_def uw.became_def uw.same_def)
    show "ensures (upgradeBackfillConditions C (upgradeKey u)) (\<lambda>err v. err = None \<and> settled S (KUpgrade, upgradeKey u) (asBefore u) w v) x"
      by (rule ensures_mono [OF backfill_settles [OF serve]]) (use quietD [OF x] at few settled_quiet(1) [OF x] in auto)
  qed
  have goes: "ensures (if upPhase (upStatus u) = UpgradePhaseRunning \<and> upJobName (upStatus u) \<noteq> '''' then upgradeMonitor C u
      else upgradeAdmit C (upgradeKey u) u) Q v" if kept: "settled S (upgradeAt u) (asBefore u) w v" for v
  proof -
    from settled_stored [OF kept] obtain c where "stored S v (upgradeAt u) = Some (OUpgrade c)" "uw.same u c"
        "upgradeProgress (upStatus c) = upgradeProgress (upStatus u)"
      by (auto simp: asBefore_def uw.became_def)
    with rest [OF kept] settled_few [OF kept] few show ?thesis by simp
  qed
  show ?thesis
    unfolding upgradeReconcile_def
    apply (rule ensures_bind [OF ensures_read(1) [where Q = "\<lambda>r v. r = Inr u \<and> quiet S w v", OF serve at]], simp)
    apply (elim conjE, simp only: sum.case)
    apply (rule ensures_bind [OF fill], assumption)
    apply (elim conjE, simp only: option.case if_not_P [OF may])
    by (rule goes)
qed

lemma itsTurn_settled:
  assumes turn: "itsTurn S w u" and kept: "settled S (upgradeAt u) (asBefore u) w v"
  shows "itsTurn S v u"
  unfolding itsTurn_def
proof (intro allI impI)
  fix n x
  assume x: "stored S v (KUpgrade, (metaNamespace (upMeta u), n)) = Some (OUpgrade x)"
  show "\<not> heldBy u x"
  proof (cases "n = metaName (upMeta u)")
    case True
    with x settled_stored [OF kept] show ?thesis
      by (auto simp: upgradeAt_def upgradeKey_def asBefore_def uw.became_def uw.same_def heldBy_def)
  next
    case False
    then have "stored S v (KUpgrade, (metaNamespace (upMeta u), n)) = stored S w (KUpgrade, (metaNamespace (upMeta u), n))"
      by (intro settled_frame [OF kept]) (simp add: upgradeAt_def upgradeKey_def)
    with x turn show ?thesis by (simp add: itsTurn_def)
  qed
qed

text \<open>An upgrade that can run: valid, of an existing instance with a database, and not yet given a Job.\<close>

definition runnable :: "'w store \<Rightarrow> 'w \<Rightarrow> upgrade \<Rightarrow> bool" where
  "runnable S w u \<longleftrightarrow> stored S w (upgradeAt u) = Some (OUpgrade u) \<and> upgradeValidateSpec u = None
     \<and> \<not> upgradePhaseTerminal (upPhase (upStatus u))
     \<and> (upPhase (upStatus u) = UpgradePhaseRunning \<longrightarrow> upJobName (upStatus u) = '''')
     \<and> (\<exists>i. stored S w (KInstance, (metaNamespace (upMeta u), refName (upInstanceRef (upSpec u)))) = Some (OInstance i)
          \<and> upgradeDatabase u i \<noteq> '''')"

lemma reconcile_starts:
  assumes serve: "serves C S" and own: "adopts C" "lawfulOwners C" and run: "runnable S w u" and turn: "itsTurn S w u"
    and few: "contention S w \<le> retrySteps C"
  shows "ensures (upgradeReconcile C (upgradeKey u))
    (\<lambda>out v. out = (upgradeRequeueRunning, None) \<and> launched S (upgradeAt u) (underWay u) (upgradeJobAt u) w v) w"
proof (rule pass_opens [OF serve _ few])
  show "stored S w (upgradeAt u) = Some (OUpgrade u)" "\<not> upgradePhaseTerminal (upPhase (upStatus u))"
    using run by (simp_all add: runnable_def)
  fix v c
  assume kept: "settled S (upgradeAt u) (asBefore u) w v" and c: "stored S v (upgradeAt u) = Some (OUpgrade c)" "uw.same u c"
    "upgradeProgress (upStatus c) = upgradeProgress (upStatus u)" "contention S v \<le> retrySteps C"
  let ?i = "(KInstance, (metaNamespace (upMeta u), refName (upInstanceRef (upSpec u))))"
  from run obtain i where i: "stored S w ?i = Some (OInstance i)" "upgradeDatabase u i \<noteq> ''''" by (auto simp: runnable_def)
  have inst: "stored S v ?i = Some (OInstance i)" using settled_frame [OF kept, of ?i] i(1) by (simp add: upgradeAt_def)
  have no: "\<not> (upPhase (upStatus u) = UpgradePhaseRunning \<and> upJobName (upStatus u) \<noteq> '''')"
    using run by (auto simp: runnable_def)
  have "ensures (upgradeAdmit C (upgradeKey u) u)
      (\<lambda>out x. out = (upgradeRequeueRunning, None) \<and> launched S (upgradeAt u) (underWay u) (upgradeJobAt u) v x) v"
    by (rule admit_progress [OF serve own c(1,2,4) _ _ inst i(2) itsTurn_settled [OF turn kept]])
      (use run c(3) in \<open>simp_all add: runnable_def upgradeProgress_def\<close>)
  then show "ensures (if upPhase (upStatus u) = UpgradePhaseRunning \<and> upJobName (upStatus u) \<noteq> '''' then upgradeMonitor C u
      else upgradeAdmit C (upgradeKey u) u)
      (\<lambda>out x. out = (upgradeRequeueRunning, None) \<and> launched S (upgradeAt u) (underWay u) (upgradeJobAt u) w x) v"
    unfolding if_not_P [OF no] by (rule ensures_mono) (use launched_settled [OF kept] in blast)
qed

lemma reconcile_ends:
  assumes serve: "serves C S" and stored: "stored S w (upgradeAt u) = Some (OUpgrade u)" and few: "contention S w \<le> retrySteps C"
    and running: "upPhase (upStatus u) = UpgradePhaseRunning" "upJobName (upStatus u) \<noteq> ''''"
    and job: "stored S w (KJob, (metaNamespace (upMeta u), upJobName (upStatus u))) = Some (OJob j)" "jobVerdict j = Some phase"
  shows "ensures (upgradeReconcile C (upgradeKey u)) (\<lambda>out v. out = (0, None) \<and> settled S (upgradeAt u) (upgradeEnded u phase) w v) w"
proof (rule pass_opens [OF serve stored few])
  show "\<not> upgradePhaseTerminal (upPhase (upStatus u))" using running by (simp add: upgradePhaseTerminal_def)
  fix v c
  assume kept: "settled S (upgradeAt u) (asBefore u) w v" and c: "stored S v (upgradeAt u) = Some (OUpgrade c)" "uw.same u c"
    "upgradeProgress (upStatus c) = upgradeProgress (upStatus u)" "contention S v \<le> retrySteps C"
  let ?j = "(KJob, (metaNamespace (upMeta u), upJobName (upStatus u)))"
  have there: "stored S v ?j = Some (OJob j)" using settled_frame [OF kept, of ?j] job(1) by (simp add: upgradeAt_def)
  have "ensures (upgradeMonitor C u) (\<lambda>out x. out = (0, None) \<and> settled S (upgradeAt u) (upgradeEnded u phase) v x) v"
    by (rule monitor_progress [OF serve c(1,2,4) _ there job(2)])
      (use running c(3) in \<open>simp add: upgradeProgress_def upgradePhaseTerminal_def\<close>)
  with running show "ensures (if upPhase (upStatus u) = UpgradePhaseRunning \<and> upJobName (upStatus u) \<noteq> '''' then upgradeMonitor C u
      else upgradeAdmit C (upgradeKey u) u) (\<lambda>out x. out = (0, None) \<and> settled S (upgradeAt u) (upgradeEnded u phase) w x) v"
    by (auto elim!: ensures_mono intro: settled_trans [OF kept])
qed

section \<open>Properties\<close>

lemma jobName_nonempty: "upgradeJobName n \<noteq> ''''"
  by (simp add: upgradeJobName_def upgradeBoundedName_def Let_def)

lemma underWay_ends:
  assumes serve: "serves C S" and y: "stored S v (upgradeAt u) = Some y" "underWay u y" and few: "contention S v \<le> retrySteps C"
    and job: "stored S v (upgradeJobAt u) = Some (OJob j)" "jobVerdict j = Some phase"
  shows "ensures (upgradeReconcile C (upgradeKey u)) (\<lambda>out x. out = (0, None) \<and> settled S (upgradeAt u) (upgradeEnded u phase) v x) v"
proof -
  from y(2) obtain c where c: "y = OUpgrade c" "upgradeKey c = upgradeKey u" "upSpec c = upSpec u"
      and run: "upPhase (upStatus c) = UpgradePhaseRunning" "upJobName (upStatus c) = upgradeJobName (metaName (upMeta u))"
    by (auto simp: underWay_def)
  have at: "upgradeAt c = upgradeAt u" "upgradeEnded c = upgradeEnded u" "metaNamespace (upMeta c) = metaNamespace (upMeta u)"
    using c(2,3) by (simp_all add: upgradeAt_def upgradeEnded_def [abs_def] sameKey fun_eq_iff)
  show ?thesis
    using reconcile_ends [OF serve _ few run(1), unfolded at c(2) run(2)] y(1) job jobName_nonempty by (simp add: c(1) upgradeJobAt_def)
qed

text \<open>C13: Upgrades make progress. On an API server that keeps its promises, and with at most as many conflicts as the code retries,
  one pass over an upgrade that can run and whose turn it is leaves its Job in the cluster and Running stored under the name
  of that Job, changes nothing else, and asks to be called again; whenever the Job has then ended, the next pass stores its outcome,
  Succeeded if the Job succeeded and Failed if it failed, and nothing else.\<close>

theorem upgrade_completes:
  assumes "serves C S" "adopts C" "lawfulOwners C" "runnable S w u" "itsTurn S w u" "contention S w \<le> retrySteps C"
  shows "resultOf (upgradeReconcile C (upgradeKey u)) w = (upgradeRequeueRunning, None)
    \<and> launched S (upgradeAt u) (underWay u) (upgradeJobAt u) w (worldAfter (upgradeReconcile C (upgradeKey u)) w)
    \<and> (\<forall>v y j phase. stored S v (upgradeAt u) = Some y \<and> underWay u y \<and> contention S v \<le> retrySteps C
        \<and> stored S v (upgradeJobAt u) = Some (OJob j) \<and> jobVerdict j = Some phase \<longrightarrow>
      resultOf (upgradeReconcile C (upgradeKey u)) v = (0, None)
      \<and> settled S (upgradeAt u) (upgradeEnded u phase) v (worldAfter (upgradeReconcile C (upgradeKey u)) v))"
  using ensures_after [OF reconcile_starts [OF assms]] ensures_after [OF underWay_ends [OF assms(1)]] by blast

definition progressUpgrade :: upgrade where
  "progressUpgrade = (sampleUpgrade '''')\<lparr>upSpec := zeroUpgradeSpec\<lparr>upInstanceRef := \<lparr>refName = ''shop'', refNamespace = ''''\<rparr>,
     upModules := [''sale'']\<rparr>\<rparr>"

definition shopInstance :: odoo_instance where
  "shopInstance = (bareInstance ''shop'' ''ns'')\<lparr>instSpec := zeroInstanceSpec\<lparr>instPostgres :=
     \<lparr>pgHost = ''db'', pgPort = 5432, pgDatabase = ''shop'', pgUser = ''odoo'', pgPasswordSecret = ''''\<rparr>\<rparr>\<rparr>"

definition progressWorld :: ref_world where
  "progressWorld = refPut (OUpgrade progressUpgrade) (refPut (OInstance shopInstance) \<lparr>refObjects = [], refConflicts = 2\<rparr>)"

text \<open>The Job of the upgrade at \<open>key\<close>, succeeded, and the world in which it has.\<close>

definition goodJob :: "nsname \<Rightarrow> job" where
  "goodJob key = (newJob (newMeta (upgradeJobName (snd key)) (fst key))
     (jobSpec (buildUpgradeJob progressUpgrade shopInstance ''shop'' '''')))\<lparr>jobSucceeded := 1\<rparr>"

definition jobDone :: "nsname \<Rightarrow> ref_world \<Rightarrow> ref_world" where
  "jobDone key w = (refPut (OJob (goodJob key)) w)\<lparr>refConflicts := 0\<rparr>"

lemma goodJob_succeeded: "upgradeJobSucceeded (goodJob key)" "jobVerdict (goodJob key) = Some UpgradePhaseSucceeded"
  by (simp_all add: upgradeJobSucceeded_def goodJob_def jobVerdict_def)

lemma jobDone_stored: "refStored (jobDone key w) = (refStored w)((KJob, (fst key, upgradeJobName (snd key))) \<mapsto> OJob (goodJob key))"
  "refConflicts (jobDone key w) = 0"
  by (simp_all add: jobDone_def refStored_put place_simps jobKey_def goodJob_def newJob_def newMeta_def)

lemma progress_sel:
  "metaName (upMeta progressUpgrade) = ''up''" "metaNamespace (upMeta progressUpgrade) = ''ns''" "upgradeKey progressUpgrade = (''ns'', ''up'')"
  "refName (upInstanceRef (upSpec progressUpgrade)) = ''shop''" "upPhase (upStatus progressUpgrade) = ''''"
  "upgradeDatabase progressUpgrade shopInstance = ''shop''" "place (OInstance shopInstance) = (KInstance, (''ns'', ''shop''))"
  by (simp_all add: progressUpgrade_def sampleUpgrade_def newMeta_def upgradeKey_def upgradeDatabase_def shopInstance_def bareInstance_def
      place_def objKey_def)

lemma progress_runs: "runnable refStore progressWorld progressUpgrade" "itsTurn refStore progressWorld progressUpgrade"
proof -
  have "upgradeValidateSpec progressUpgrade = None"
    by (simp add: upgradeValidateSpec_def progressUpgrade_def sampleUpgrade_def newMeta_def Let_def)
  then show "runnable refStore progressWorld progressUpgrade"
    by (simp add: runnable_def progress_sel progressWorld_def upgradePhaseTerminal_def refStored_put place_simps upgradeAt_def)
  show "itsTurn refStore progressWorld progressUpgrade"
    by (auto simp: itsTurn_def progress_sel progressWorld_def heldBy_def refStored_put place_simps split: if_splits)
      (auto simp: refStored_def)
qed

theorem upgrade_completes_witness:
  "let w = worldAfter (upgradeReconcile refServer (''ns'', ''up'')) progressWorld; v = jobDone (''ns'', ''up'') w in
     resultOf (upgradeReconcile refServer (''ns'', ''up'')) progressWorld = (upgradeRequeueRunning, None)
     \<and> settled refStore (upgradeAt progressUpgrade) (upgradeEnded progressUpgrade UpgradePhaseSucceeded) v
         (worldAfter (upgradeReconcile refServer (''ns'', ''up'')) v)"
proof -
  have few: "contention refStore progressWorld \<le> retrySteps refServer" by (simp add: progressWorld_def)
  note all = upgrade_completes [OF serves_ref adopts_ref refServer_lib(2) progress_runs few, unfolded progress_sel]
  let ?w = "worldAfter (upgradeReconcile refServer (''ns'', ''up'')) progressWorld" and ?at = "upgradeAt progressUpgrade"
  from all obtain y where y: "underWay progressUpgrade y" "stored refStore ?w ?at = Some y" unfolding launched_def by blast
  let ?v = "jobDone (''ns'', ''up'') ?w"
  have "stored refStore ?v ?at = Some y" using y(2) by (simp add: jobDone_stored upgradeAt_def)
  moreover have "contention refStore ?v \<le> retrySteps refServer"
      "stored refStore ?v (upgradeJobAt progressUpgrade) = Some (OJob (goodJob (''ns'', ''up'')))"
    by (simp_all add: jobDone_stored upgradeJobAt_def progress_sel)
  ultimately show ?thesis
    using all y(1) goodJob_succeeded(2) unfolding Let_def by blast
qed

end
