(* ===== verification/Rollout_Progress.thy ===== *)
theory Rollout_Progress
  imports Upgrade_Progress Instance_Init
begin

text \<open>
  The instance reconciler and the upgrade reconciler together. Both the gate (\<open>odooinstance_gate.go\<close>) and the initialisation
  (\<open>odooinstance_init.go\<close>) work through an OdooUpgrade: a pass over the instance creates it and holds the pods, the upgrade
  reconciler runs it, and a later pass over the instance goes on from its outcome. Here the three are put together, on an API server
  that keeps its promises.
\<close>

section \<open>An upgrade of the operator's own\<close>

text \<open>The upgrade as it has been created, not yet seen by its reconciler.\<close>

definition freshUpgrade :: "upgrade \<Rightarrow> obj \<Rightarrow> bool" where
  "freshUpgrade u y \<longleftrightarrow> (\<exists>c. y = OUpgrade c \<and> upgradeKey c = upgradeKey u \<and> upSpec c = upSpec u \<and> upStatus c = zeroUpgradeStatus)"

lemma filled_names: "filledMeta m m' \<Longrightarrow> metaName m' = metaName m \<and> metaNamespace m' = metaNamespace m"
  unfolding filledMeta_def by (metis objmeta.select_convs(1,2) objmeta.surjective objmeta.update_convs(3,4,5,8))

lemma created_fresh: "createdAs (OUpgrade u) y \<Longrightarrow> freshUpgrade u y"
  by (cases y) (auto simp: freshUpgrade_def upgradeKey_def place_def dest: filled_names)

lemma owned_created:
  assumes serve: "serves C S" and own: "adopts C" "lawfulOwners C"
    and u: "metaOwners (upMeta u) = []" "metaNamespace (upMeta u) = metaNamespace (instMeta ins)" and free: "stored S w (upgradeAt u) = None"
  shows "ensures (createOwnedUpgrade C ins u n) (\<lambda>err v. err = None \<and> settled S (upgradeAt u) (freshUpgrade u) w v) w"
proof -
  obtain m where m: "SetControllerReference C (instMeta ins) (upMeta u) = Inr m" using own(1) u unfolding adopts_def by blast
  let ?x = "u\<lparr>upMeta := m\<rparr>"
  have key: "upgradeKey ?x = upgradeKey u" using lawful_owner_names [OF own(2) m] by (simp add: upgradeKey_def)
  have at: "place (OUpgrade ?x) = upgradeAt u" by (simp add: place_simps key upgradeAt_def)
  have fresh: "freshUpgrade u y" if "freshUpgrade ?x y" for y using that by (simp add: freshUpgrade_def key)
  have "ensures (createObj C (OUpgrade ?x)) (\<lambda>err v. err = None \<and> settled S (upgradeAt u) (freshUpgrade u) w v) w"
    by (rule ensures_create [OF serve]; unfold at) (use free fresh created_fresh in \<open>auto simp: settled_def\<close>)
  then show ?thesis
    unfolding createOwnedUpgrade_def m sum.case by (rule ensures_bind) (auto intro: ensures_return)
qed

text \<open>
  What happens to it between the passes, from the state \<open>w\<close> in which it has been created: other work goes on, but the upgrade is as
  the pass before has left it; when its first pass comes it is its turn and its instance is there, and when the second comes its
  Job has succeeded.
\<close>

record 'w upgrade_run =
  runStarted :: 'w
  runFinished :: 'w
  runDone :: 'w

definition upgradeServed :: "'w cluster \<Rightarrow> 'w store \<Rightarrow> upgrade \<Rightarrow> 'w \<Rightarrow> 'w upgrade_run \<Rightarrow> bool" where
  "upgradeServed C S u w r \<longleftrightarrow>
     (let at = upgradeAt u; pass = worldAfter (upgradeReconcile C (upgradeKey u)) in
      stored S (runStarted r) at = stored S w at
      \<and> (\<exists>i. stored S (runStarted r) (KInstance, (metaNamespace (upMeta u), refName (upInstanceRef (upSpec u)))) = Some (OInstance i)
            \<and> upgradeDatabase u i \<noteq> '''')
      \<and> (\<forall>c. stored S (runStarted r) at = Some (OUpgrade c) \<longrightarrow> itsTurn S (runStarted r) c)
      \<and> stored S (runFinished r) at = stored S (pass (runStarted r)) at
      \<and> (\<exists>j. stored S (runFinished r) (upgradeJobAt u) = Some (OJob j) \<and> upgradeJobSucceeded j)
      \<and> stored S (runDone r) at = stored S (pass (runFinished r)) at
      \<and> contention S (runStarted r) \<le> retrySteps C \<and> contention S (runFinished r) \<le> retrySteps C)"

lemma fresh_started:
  assumes serve: "serves C S" and own: "adopts C" "lawfulOwners C" and run: "upgradeServed C S u w r"
    and y: "stored S w (upgradeAt u) = Some y" "freshUpgrade u y" and valid: "upgradeValidateSpec u = None"
  shows "launched S (upgradeAt u) (underWay u) (upgradeJobAt u) (runStarted r) (worldAfter (upgradeReconcile C (upgradeKey u)) (runStarted r))"
proof -
  note rr = run [unfolded upgradeServed_def Let_def]
  from y(2) obtain c where c: "y = OUpgrade c" "upgradeKey c = upgradeKey u" "upSpec c = upSpec u" "upStatus c = zeroUpgradeStatus"
    by (auto simp: freshUpgrade_def)
  have at: "upgradeAt c = upgradeAt u" "underWay c = underWay u" "upgradeJobAt c = upgradeJobAt u"
      and ns: "metaNamespace (upMeta c) = metaNamespace (upMeta u)"
    using c(2,3) by (simp_all add: upgradeAt_def upgradeJobAt_def underWay_def [abs_def] sameKey fun_eq_iff)
  have "upgradeValidateSpec c = None" using valid unfolding upgradeValidateSpec_def c(3) ns .
  moreover have "upgradeDatabase c i = upgradeDatabase u i" for i by (simp add: upgradeDatabase_def c(3))
  ultimately have can: "runnable S (runStarted r) c"
    using rr y(1) by (simp add: runnable_def at c ns upgradePhaseTerminal_def)
  from rr y(1) c(1) have turn: "itsTurn S (runStarted r) c" and few: "contention S (runStarted r) \<le> retrySteps C" by auto
  show ?thesis using ensures_after [OF reconcile_starts [OF serve own can turn few]] by (simp add: at c(2))
qed

lemma fresh_ends:
  assumes serve: "serves C S" and own: "adopts C" "lawfulOwners C" and run: "upgradeServed C S u w r"
    and y: "stored S w (upgradeAt u) = Some y" "freshUpgrade u y" and valid: "upgradeValidateSpec u = None"
  shows "settled S (upgradeAt u) (upgradeEnded u UpgradePhaseSucceeded) (runFinished r) (worldAfter (upgradeReconcile C (upgradeKey u)) (runFinished r))"
proof -
  note rr = run [unfolded upgradeServed_def Let_def]
  from fresh_started [OF assms] obtain z where z: "underWay u z"
      "stored S (worldAfter (upgradeReconcile C (upgradeKey u)) (runStarted r)) (upgradeAt u) = Some z"
    by (auto simp: launched_def)
  from rr z(2) have at: "stored S (runFinished r) (upgradeAt u) = Some z" and few: "contention S (runFinished r) \<le> retrySteps C" by simp_all
  from rr obtain j where j: "stored S (runFinished r) (upgradeJobAt u) = Some (OJob j)" "jobVerdict j = Some UpgradePhaseSucceeded"
    by (auto simp: jobVerdict_def)
  show ?thesis using ensures_after [OF underWay_ends [OF serve at z(1) few j]] by blast
qed

lemma fresh_succeeds:
  assumes "serves C S" "adopts C" "lawfulOwners C" and run: "upgradeServed C S u w r"
    and "stored S w (upgradeAt u) = Some y" "freshUpgrade u y" "upgradeValidateSpec u = None"
  shows "\<exists>c. stored S (runDone r) (upgradeAt u) = Some (OUpgrade c) \<and> upSpec c = upSpec u \<and> upPhase (upStatus c) = UpgradePhaseSucceeded"
  using settled_stored [OF fresh_ends [OF assms]] run by (auto simp: upgradeEnded_def upgradeServed_def Let_def)

section \<open>The gate\<close>

definition gateName :: "odoo_instance \<Rightarrow> string \<Rightarrow> string" where
  "gateName ins current = gateUpgradeName (metaName (instMeta ins)) current"

definition behind :: "odoo_instance \<Rightarrow> string \<Rightarrow> bool" where
  "behind ins current \<longleftrightarrow> gated ins \<and> AppliedAddonsHash (instStatus ins) \<noteq> current"

lemma behindD:
  assumes "behind ins current"
  shows "instUpgrade (instSpec ins) \<noteq> None \<and> AppliedAddonsHash (instStatus ins) \<noteq> '''' \<and> AppliedAddonsHash (instStatus ins) \<noteq> current"
  using assms by (simp add: behind_def gated_def)

lemma gateUpgradeFor_meta:
  "upgradeKey (gateUpgradeFor ins up n) = (metaNamespace (instMeta ins), n)"
  "metaOwners (upMeta (gateUpgradeFor ins up n)) = []" "metaNamespace (upMeta (gateUpgradeFor ins up n)) = metaNamespace (instMeta ins)"
  "metaName (upMeta (gateUpgradeFor ins up n)) = n"
  "refName (upInstanceRef (upSpec (gateUpgradeFor ins up n))) = metaName (instMeta ins)"
  by (simp_all add: gateUpgradeFor_def upgradeKey_def newMeta_def)

text \<open>An instance that is behind, with an upgrade spec that can be run, and no upgrade for this revision yet.\<close>

definition opensGate :: "'w store \<Rightarrow> odoo_instance \<Rightarrow> instance_upgrade_spec \<Rightarrow> string \<Rightarrow> 'w \<Rightarrow> bool" where
  "opensGate S ins up current w \<longleftrightarrow> behind ins current \<and> instUpgrade (instSpec ins) = Some up \<and> metaName (instMeta ins) \<noteq> ''''
     \<and> (''all'' \<in> set (iuModules up) \<longrightarrow> length (iuModules up) \<le> 1)
     \<and> stored S w (upgradeAt (gateUpgradeFor ins up (gateName ins current))) = None"

lemma gate_valid:
  assumes "opensGate S ins up current w"
  shows "upgradeValidateSpec (gateUpgradeFor ins up n) = None"
proof -
  have all: "\<not> (''all'' \<in> set (iuModules up) \<and> 1 < length (iuModules up))" and named: "metaName (instMeta ins) \<noteq> ''''"
    using assms unfolding opensGate_def by auto
  have fields: "refName (upInstanceRef (upSpec (gateUpgradeFor ins up n))) = metaName (instMeta ins)"
      "refNamespace (upInstanceRef (upSpec (gateUpgradeFor ins up n))) = ''''" "upModules (upSpec (gateUpgradeFor ins up n)) = iuModules up"
      "upAdminUserPasswordSecret (upSpec (gateUpgradeFor ins up n)) = ''''"
    by (simp_all add: gateUpgradeFor_def)
  show ?thesis unfolding upgradeValidateSpec_def Let_def fields if_not_P [OF all] if_not_P [OF named] by simp
qed

text \<open>The first pass with a new revision creates its upgrade and holds the pods back.\<close>

definition heldBack :: "odoo_instance \<Rightarrow> string \<Rightarrow> goerr + gateDecision \<times> odoo_instance \<Rightarrow> bool" where
  "heldBack ins current r \<longleftrightarrow> (\<exists>d ins'. r = Inr (d, ins') \<and> gdTemplateHash d = AppliedAddonsHash (instStatus ins)
     \<and> gdActiveUpgrade d = gateName ins current)"

lemma gate_opens:
  assumes serve: "serves C S" and own: "adopts C" "lawfulOwners C" and opens: "opensGate S ins up current w"
  shows "ensures (gateAddonsRollout C ins current) (\<lambda>r v. heldBack ins current r
    \<and> settled S (upgradeAt (gateUpgradeFor ins up (gateName ins current))) (freshUpgrade (gateUpgradeFor ins up (gateName ins current))) w v) w"
proof -
  let ?u = "gateUpgradeFor ins up (gateName ins current)"
  from opens have late: "behind ins current" and up: "instUpgrade (instSpec ins) = Some up" and free: "stored S w (upgradeAt ?u) = None"
    by (auto simp: opensGate_def)
  let ?i = "gateInputFor ins current (gateName ins current) None"
  have decide: "gateDecide ?i = (rollTo (AppliedAddonsHash (instStatus ins)))\<lparr>gdActiveUpgrade := gateName ins current,
      gdPhase := gatePhaseUpgrading, gdEnsureUpgrade := True\<rparr>"
    using behindD [OF late] by (auto simp: gateDecide_def gateInputFor_def Let_def)
  have ensure: "gdEnsureUpgrade (gateDecide ?i)" by (simp add: decide)
  have create: "ensures (gateCreateUpgrade C ins (gateName ins current)) (\<lambda>err v. err = None \<and> settled S (upgradeAt ?u) (freshUpgrade ?u) w v) x"
    if x: "quiet S w x" for x
    unfolding gateCreateUpgrade_def up option.case
    by (rule ensures_mono [OF owned_created [OF serve own]]) (use free quietD [OF x] settled_quiet(1) [OF x] gateUpgradeFor_meta in auto)
  have applied: "ensures (gateApply C ins current (gateName ins current) None)
      (\<lambda>r v. heldBack ins current r \<and> settled S (upgradeAt ?u) (freshUpgrade ?u) w v) x" if x: "quiet S w x" for x
    unfolding gateApply_def Let_def if_P [OF ensure]
    by (rule ensures_bind [OF create [OF x]]) (auto simp: decide heldBack_def intro!: ensures_return)
  have missing: "ensures (gateReadUpgrade C ins (gateName ins current)) (\<lambda>r v. r = Inr None \<and> quiet S w v) w"
    unfolding gateReadUpgrade_def
    by (rule ensures_bind [OF ensures_missing(1) [where Q = "\<lambda>r v. (\<exists>e. r = Inl e \<and> isNotFound e) \<and> quiet S w v", OF serve]])
      (use free in \<open>auto simp: upgradeAt_def gateUpgradeFor_meta intro!: ensures_return\<close>)
  show ?thesis
    unfolding gateAddonsRollout_def if_P [OF behindD [OF late]] Let_def gateName_def [symmetric]
    by (rule ensures_bind [OF missing], elim conjE, simp only: sum.case) (rule applied)
qed

text \<open>Once that upgrade has succeeded, the next pass lets the pods go on to the new revision.\<close>

lemma gate_releases:
  assumes serve: "serves C S" and late: "behind ins current"
    and stored: "stored S w (KUpgrade, (metaNamespace (instMeta ins), gateName ins current)) = Some (OUpgrade u)"
      "upPhase (upStatus u) = UpgradePhaseSucceeded"
    and own: "refName (upInstanceRef (upSpec u)) = metaName (instMeta ins)"
  shows "ensures (gateAddonsRollout C ins current)
    (\<lambda>r v. \<exists>d ins'. r = Inr (d, ins') \<and> gdTemplateHash d = current \<and> AppliedAddonsHash (instStatus ins') = current) w"
proof -
  have found: "ensures (gateReadUpgrade C ins (gateName ins current)) (\<lambda>r v. r = Inr (Some u)) w"
    unfolding gateReadUpgrade_def
    by (rule ensures_bind [OF ensures_read(1) [where Q = "\<lambda>r v. r = Inr u", OF serve stored(1)]]) (auto simp: own intro!: ensures_return)
  have decide: "gateDecide (gateInputFor ins current (gateName ins current) (Some u)) = rollTo current"
    using behindD [OF late] stored(2) by (auto simp: gateDecide_def gateInputFor_def)
  show ?thesis
    unfolding gateAddonsRollout_def if_P [OF behindD [OF late]] Let_def gateName_def [symmetric]
    by (rule ensures_bind [OF found], simp only: sum.case)
      (auto simp: gateApply_def decide Let_def intro!: ensures_return ensures_bind [where P = "\<lambda>e v. e = None"])
qed

text \<open>C4: A new addons revision reaches the pods: with \<open>spec.upgrade\<close> set, the first pass over an instance that is behind holds the
  pods on their revision and creates the OdooUpgrade; a pass over that upgrade starts its Job, and when the Job has succeeded
  the next one stores Succeeded; then the next pass over the instance, as long as it still wants this revision, lets the
  pods go on to it.\<close>

theorem rollout_completes:
  assumes "serves C S" "adopts C" "lawfulOwners C" "opensGate S ins up current w"
    and "upgradeServed C S (gateUpgradeFor ins up (gateName ins current)) (worldAfter (gateAddonsRollout C ins current) w) r"
    and "behind later current" "metaName (instMeta later) = metaName (instMeta ins)" "metaNamespace (instMeta later) = metaNamespace (instMeta ins)"
  shows "heldBack ins current (resultOf (gateAddonsRollout C ins current) w)
    \<and> (\<exists>d ins'. resultOf (gateAddonsRollout C later current) (runDone r) = Inr (d, ins')
        \<and> gdTemplateHash d = current \<and> AppliedAddonsHash (instStatus ins') = current)"
proof -
  let ?u = "gateUpgradeFor ins up (gateName ins current)"
  note first = ensures_after [OF gate_opens [OF assms(1-4)]]
  from settled_stored [OF conjunct2 [OF first]] obtain y where y: "stored S (worldAfter (gateAddonsRollout C ins current) w) (upgradeAt ?u) = Some y"
      "freshUpgrade ?u y" by blast
  from fresh_succeeds [OF assms(1-3,5) y gate_valid [OF assms(4)]]
  obtain c where "stored S (runDone r) (upgradeAt ?u) = Some (OUpgrade c)" "upSpec c = upSpec ?u" "upPhase (upStatus c) = UpgradePhaseSucceeded"
    by blast
  then have "stored S (runDone r) (KUpgrade, (metaNamespace (instMeta later), gateName later current)) = Some (OUpgrade c)"
      "upPhase (upStatus c) = UpgradePhaseSucceeded" "refName (upInstanceRef (upSpec c)) = metaName (instMeta later)"
    using assms(7,8) by (simp_all add: upgradeAt_def gateUpgradeFor_meta gateName_def)
  from ensures_after [OF gate_releases [OF assms(1,6) this]] first show ?thesis by blast
qed

definition gatedShop :: odoo_instance where
  "gatedShop = shopInstance\<lparr>instSpec := (instSpec shopInstance)\<lparr>instUpgrade := Some \<lparr>iuModules = [''sale''], iuTimeoutSeconds = None\<rparr>\<rparr>,
     instStatus := zeroInstanceStatus\<lparr>AppliedAddonsHash := ''0123456789''\<rparr>\<rparr>"

text \<open>An instance alone in its cluster, and the run of an upgrade from the state \<open>w\<close> on.\<close>

definition soleWorld :: "odoo_instance \<Rightarrow> ref_world" where
  "soleWorld ins = refPut (OInstance ins) \<lparr>refObjects = [], refConflicts = 0\<rparr>"

definition refRun :: "nsname \<Rightarrow> ref_world \<Rightarrow> ref_world upgrade_run" where
  "refRun key w = (let finished = jobDone key (worldAfter (upgradeReconcile refServer key) w) in
     \<lparr>runStarted = w, runFinished = finished, runDone = worldAfter (upgradeReconcile refServer key) finished\<rparr>)"

lemma refRun_served:
  assumes made: "settled refStore (upgradeAt u) (freshUpgrade u) w0 w" and sole: "\<And>k c. refStored w0 (KUpgrade, k) \<noteq> Some (OUpgrade c)"
    and inst: "refStored w0 (KInstance, (metaNamespace (upMeta u), refName (upInstanceRef (upSpec u)))) = Some (OInstance i)" "upgradeDatabase u i \<noteq> ''''"
    and few: "refConflicts w0 = 0"
  shows "upgradeServed refServer refStore u w (refRun (upgradeKey u) w)"
proof -
  from made obtain y where y: "refStored w = (refStored w0)(upgradeAt u \<mapsto> y)" by (auto simp: settled_def)
  have turn: "itsTurn refStore w c" if "refStored w (upgradeAt u) = Some (OUpgrade c)" for c
    using that sole y by (auto simp: itsTurn_def heldBy_def upgradeAt_def upgradeKey_def split: if_splits)
  have "refConflicts w = 0" using settled_few [OF made] few by simp
  moreover have "upgradeJobAt u = (KJob, (fst (upgradeKey u), upgradeJobName (snd (upgradeKey u))))" by (simp add: upgradeJobAt_def upgradeKey_def)
  moreover have "refStored w (KInstance, (metaNamespace (upMeta u), refName (upInstanceRef (upSpec u)))) = Some (OInstance i)"
    using inst(1) y by (simp add: upgradeAt_def)
  ultimately show ?thesis
    using turn inst(2) by (simp add: upgradeServed_def refRun_def Let_def jobDone_stored goodJob_succeeded upgradeAt_def)
qed

lemma refRun_frame:
  assumes "adopts refServer" "lawfulOwners refServer" and run: "upgradeServed refServer refStore u w (refRun (upgradeKey u) w)"
    and "refStored w (upgradeAt u) = Some y" "freshUpgrade u y" "upgradeValidateSpec u = None" and k: "fst k \<noteq> KUpgrade" "fst k \<noteq> KJob"
  shows "refStored (runDone (refRun (upgradeKey u) w)) k = refStored w k"
proof -
  let ?pass = "worldAfter (upgradeReconcile refServer (upgradeKey u))"
  from k have away: "k \<noteq> upgradeAt u" "k \<noteq> upgradeJobAt u" "k \<noteq> (KJob, n)" for n by (auto simp: upgradeAt_def upgradeJobAt_def)
  have names: "runStarted (refRun (upgradeKey u) w) = w" "runFinished (refRun (upgradeKey u) w) = jobDone (upgradeKey u) (?pass w)"
    "runDone (refRun (upgradeKey u) w) = ?pass (jobDone (upgradeKey u) (?pass w))"
    by (simp_all add: refRun_def Let_def)
  have start: "launched refStore (upgradeAt u) (underWay u) (upgradeJobAt u) w (?pass w)"
    using fresh_started [OF serves_ref assms(1,2) run _ assms(5,6)] assms(4) by (simp add: names)
  have "settled refStore (upgradeAt u) (upgradeEnded u UpgradePhaseSucceeded) (jobDone (upgradeKey u) (?pass w)) (?pass (jobDone (upgradeKey u) (?pass w)))"
    using fresh_ends [OF serves_ref assms(1,2) run _ assms(5,6)] assms(4) by (simp add: names)
  from settled_frame [OF this away(1)] have "refStored (?pass (jobDone (upgradeKey u) (?pass w))) k = refStored (jobDone (upgradeKey u) (?pass w)) k"
    by simp
  moreover have "refStored (?pass w) k = refStored w k"
    using keepsD [of refStore "{upgradeAt u, upgradeJobAt u}" w "?pass w" k] start away by (simp add: launched_def)
  ultimately show ?thesis using away(3) by (simp add: names jobDone_stored)
qed

lemma sole_stored: "refStored (soleWorld ins) = Map.empty(place (OInstance ins) \<mapsto> OInstance ins)" "refConflicts (soleWorld ins) = 0"
  by (simp_all add: soleWorld_def refStored_put) (simp add: refStored_def fun_eq_iff)

lemma gatedShop_sel:
  "metaName (instMeta gatedShop) = ''shop''" "metaNamespace (instMeta gatedShop) = ''ns''" "place (OInstance gatedShop) = (KInstance, (''ns'', ''shop''))"
  "instUpgrade (instSpec gatedShop) = Some \<lparr>iuModules = [''sale''], iuTimeoutSeconds = None\<rparr>"
  "pgDatabase (instPostgres (instSpec gatedShop)) = ''shop''" "behind gatedShop ''abcdef0123''"
  by (simp_all add: gatedShop_def shopInstance_def bareInstance_def newMeta_def behind_def gated_def place_def objKey_def)

definition shopUpgrade :: upgrade where
  "shopUpgrade = gateUpgradeFor gatedShop \<lparr>iuModules = [''sale''], iuTimeoutSeconds = None\<rparr> (gateName gatedShop ''abcdef0123'')"

theorem rollout_completes_witness:
  "\<exists>d ins. resultOf (gateAddonsRollout refServer gatedShop ''abcdef0123'') (runDone (refRun (upgradeKey shopUpgrade)
       (worldAfter (gateAddonsRollout refServer gatedShop ''abcdef0123'') (soleWorld gatedShop)))) = Inr (d, ins) \<and> gdTemplateHash d = ''abcdef0123''"
proof -
  have opens: "opensGate refStore gatedShop \<lparr>iuModules = [''sale''], iuTimeoutSeconds = None\<rparr> ''abcdef0123'' (soleWorld gatedShop)"
    by (simp add: opensGate_def gatedShop_sel sole_stored upgradeAt_def)
  have db: "upgradeDatabase (gateUpgradeFor gatedShop up n) gatedShop = ''shop''" for up n
    by (simp add: upgradeDatabase_def gateUpgradeFor_def gatedShop_sel)
  have "upgradeServed refServer refStore shopUpgrade (worldAfter (gateAddonsRollout refServer gatedShop ''abcdef0123'') (soleWorld gatedShop))
      (refRun (upgradeKey shopUpgrade) (worldAfter (gateAddonsRollout refServer gatedShop ''abcdef0123'') (soleWorld gatedShop)))"
    by (rule refRun_served [OF conjunct2 [OF ensures_after [OF gate_opens [OF serves_ref adopts_ref refServer_lib(2) opens]], folded shopUpgrade_def], where i = gatedShop])
      (simp_all add: sole_stored gatedShop_sel db shopUpgrade_def gateUpgradeFor_meta)
  from rollout_completes [OF serves_ref adopts_ref refServer_lib(2) opens this [unfolded shopUpgrade_def] gatedShop_sel(6) refl refl]
  show ?thesis unfolding shopUpgrade_def by blast
qed

section \<open>Initialisation\<close>

lemma initUpgradeFor_meta:
  "upgradeKey (initUpgradeFor ins sp n) = (metaNamespace (instMeta ins), n)"
  "metaOwners (upMeta (initUpgradeFor ins sp n)) = []" "metaNamespace (upMeta (initUpgradeFor ins sp n)) = metaNamespace (instMeta ins)"
  "refName (upInstanceRef (upSpec (initUpgradeFor ins sp n))) = metaName (instMeta ins)"
  by (simp_all add: initUpgradeFor_def upgradeKey_def newMeta_def)

definition initUpgrade :: "odoo_instance \<Rightarrow> initialize_spec \<Rightarrow> upgrade" where
  "initUpgrade ins sp = initUpgradeFor ins sp (initUpgradeName (metaName (instMeta ins)))"

text \<open>Where Deployments are stored there are Deployments; \<open>idle\<close>: and none of this instance has ready pods.\<close>

definition deploymentTyped :: "'w store \<Rightarrow> odoo_instance \<Rightarrow> 'w \<Rightarrow> bool" where
  "deploymentTyped S ins w \<longleftrightarrow> (\<forall>x. stored S w (KDeployment, deploymentKey ins) = Some x \<longrightarrow> (\<exists>d. x = ODeployment d))"

definition idle :: "'w store \<Rightarrow> odoo_instance \<Rightarrow> 'w \<Rightarrow> bool" where
  "idle S ins w \<longleftrightarrow> (\<forall>x. stored S w (KDeployment, deploymentKey ins) = Some x \<longrightarrow> (\<exists>d. x = ODeployment d \<and> depReadyReplicas d \<le> 0))"

text \<open>An instance that asks for an initialisation that can be run: its Secret is there, no pod is ready, and nothing has been started.\<close>

definition opensInit :: "'w store \<Rightarrow> odoo_instance \<Rightarrow> initialize_spec \<Rightarrow> 'w \<Rightarrow> bool" where
  "opensInit S ins sp w \<longleftrightarrow> wantsInit ins \<and> instInitialize (instSpec ins) = Some sp \<and> metaName (instMeta ins) \<noteq> ''''
     \<and> (initModules sp = [] \<longrightarrow> initAdminUserPasswordSecret sp = '''')
     \<and> (\<exists>s. stored S w (KSecret, (metaNamespace (instMeta ins), initAdminUserPasswordSecret sp)) = Some (OSecret s))
     \<and> idle S ins w \<and> stored S w (upgradeAt (initUpgrade ins sp)) = None"

lemma init_valid:
  assumes "opensInit S ins sp w"
  shows "upgradeValidateSpec (initUpgrade ins sp) = None"
  using assms by (auto simp: opensInit_def upgradeValidateSpec_def Let_def initUpgrade_def initUpgradeFor_def)

text \<open>What the pass reads: the ready pods, and the upgrade with its phase if there is one.\<close>

lemma reads_absent:
  assumes serve: "serves C S" and free: "stored S w (KUpgrade, initUpgradeKey ins) = None" and idle: "idle S ins w"
  shows "ensures (readInitState C ins (initInputFor ins)) (\<lambda>r v. quiet S w v \<and> (\<exists>i. r = Inr i \<and> \<not> iiUpgradeExists i \<and> iiLiveReplicas i \<le> 0
    \<and> iiRequested i = (instInitialize (instSpec ins) \<noteq> None) \<and> iiInitialized i = Initialized (instStatus ins)
    \<and> iiUpgradeName i = initUpgradeName (metaName (instMeta ins)))) w"
proof -
  have dep: "ensures (getDeployment C (metaNamespace (instMeta ins), metaName (instMeta ins)))
      (\<lambda>r v. quiet S w v \<and> (case r of Inr d \<Rightarrow> depReadyReplicas d \<le> 0 | Inl e \<Rightarrow> isNotFound e)) w"
    unfolding getDeployment_def deploymentKey_def [symmetric]
    by (rule ensures_get [OF serve]) (use idle in \<open>auto simp: idle_def isNotFound_def\<close>)
  have up: "ensures (getUpgrade C (metaNamespace (instMeta ins), initUpgradeName (metaName (instMeta ins))))
      (\<lambda>r v. quiet S w v \<and> (\<exists>e. r = Inl e \<and> isNotFound e)) x" if x: "quiet S w x" for x
    unfolding initUpgradeKey_def [symmetric]
    by (rule ensures_missing(1) [OF serve]) (use free quietD [OF x] quiet_trans [OF x] in auto)
  show ?thesis
    unfolding readInitState_def
    by (rule ensures_bind [OF dep])
      (auto simp: initInputFor_def split: sum.splits intro!: ensures_return ensures_bind [OF up])
qed

lemma reads_succeeded:
  assumes serve: "serves C S" and u: "stored S w (KUpgrade, initUpgradeKey ins) = Some (OUpgrade u)" "upPhase (upStatus u) = UpgradePhaseSucceeded"
    and own: "refName (upInstanceRef (upSpec u)) = metaName (instMeta ins)" and typed: "deploymentTyped S ins w"
  shows "ensures (readInitState C ins (initInputFor ins)) (\<lambda>r v. \<exists>i. r = Inr i \<and> iiUpgradeExists i \<and> iiUpgradePhase i = UpgradePhaseSucceeded
    \<and> iiRequested i = (instInitialize (instSpec ins) \<noteq> None) \<and> iiInitialized i = Initialized (instStatus ins)
    \<and> iiUpgradeName i = initUpgradeName (metaName (instMeta ins))) w"
proof -
  have dep: "ensures (getDeployment C (metaNamespace (instMeta ins), metaName (instMeta ins)))
      (\<lambda>r v. quiet S w v \<and> (case r of Inr d \<Rightarrow> True | Inl e \<Rightarrow> isNotFound e)) w"
    unfolding getDeployment_def deploymentKey_def [symmetric]
    by (rule ensures_get [OF serve]) (use typed in \<open>auto simp: deploymentTyped_def isNotFound_def\<close>)
  have up: "ensures (getUpgrade C (metaNamespace (instMeta ins), initUpgradeName (metaName (instMeta ins)))) (\<lambda>r v. r = Inr u) x"
    if x: "quiet S w x" for x
    unfolding initUpgradeKey_def [symmetric] by (rule ensures_read(1) [OF serve]) (use u quietD [OF x] in auto)
  show ?thesis
    unfolding readInitState_def
    by (rule ensures_bind [OF dep])
      (auto simp: initInputFor_def u(2) own split: sum.splits intro!: ensures_return ensures_bind [OF up])
qed

definition pendingInit :: "odoo_instance \<Rightarrow> goerr + initDecision \<Rightarrow> bool" where
  "pendingInit ins r \<longleftrightarrow> (\<exists>d. r = Inr d \<and> idPending d \<and> \<not> idInitialized d \<and> idUpgradeName d = initUpgradeName (metaName (instMeta ins)))"

lemma init_opens:
  assumes serve: "serves C S" and own: "adopts C" "lawfulOwners C" and opens: "opensInit S ins sp w"
  shows "ensures (decideInitialization C ins) (\<lambda>r v. pendingInit ins r
    \<and> settled S (upgradeAt (initUpgrade ins sp)) (freshUpgrade (initUpgrade ins sp)) w v) w"
proof -
  let ?u = "initUpgrade ins sp" and ?n = "initUpgradeName (metaName (instMeta ins))"
  from opens obtain s where some: "instInitialize (instSpec ins) = Some sp" and new: "\<not> Initialized (instStatus ins)"
      and free: "stored S w (upgradeAt ?u) = None" and idle: "idle S ins w"
      and secret: "stored S w (KSecret, (metaNamespace (instMeta ins), initAdminUserPasswordSecret sp)) = Some (OSecret s)"
    by (auto simp: opensInit_def wantsInit_def)
  have absent: "stored S w (KUpgrade, initUpgradeKey ins) = None"
    using free by (simp add: upgradeAt_def initUpgrade_def initUpgradeFor_meta initUpgradeKey_def)
  have checked: "ensures (checkInitSecret C ins) (\<lambda>err v. err = None \<and> quiet S w v) x" if x: "quiet S w x" for x
    unfolding checkInitSecret_def some option.case Let_def getSecret_def
    by (rule ensures_bind [OF ensures_get [OF serve, where Q = "\<lambda>r v. (\<exists>t. r = Inr t) \<and> quiet S w v"]])
      (use secret quietD [OF x] quiet_trans [OF x] in \<open>auto intro!: ensures_return\<close>)
  have made: "ensures (createInitUpgrade C ins ?n) (\<lambda>err v. err = None \<and> settled S (upgradeAt ?u) (freshUpgrade ?u) w v) x"
    if x: "quiet S w x" for x
    unfolding createInitUpgrade_def some option.case initUpgrade_def [symmetric]
    by (rule ensures_mono [OF owned_created [OF serve own]])
      (use free quietD [OF x] settled_quiet(1) [OF x] in \<open>auto simp: initUpgrade_def initUpgradeFor_meta\<close>)
  have decided: "initDecide i = zeroInitDecision\<lparr>idPending := True, idEnsureUpgrade := True, idUpgradeName := ?n, idPhase := phaseInitializing\<rparr>"
    if "\<not> iiUpgradeExists i" "iiLiveReplicas i \<le> 0" "iiRequested i" "\<not> iiInitialized i" "iiUpgradeName i = ?n" for i
    using that by (simp add: initDecide_def)
  have wants: "iiRequested (initInputFor ins) \<and> \<not> iiInitialized (initInputFor ins)" using some new by (simp add: initInputFor_def)
  show ?thesis
    unfolding decideInitialization_def Let_def if_P [OF wants]
    by (rule ensures_bind [OF reads_absent [OF serve absent idle]])
      (auto simp: some new decided pendingInit_def zeroInitDecision_def intro!: ensures_bind [OF checked] ensures_bind [OF made] ensures_return)
qed

lemma init_releases:
  assumes serve: "serves C S" and wants: "wantsInit ins"
    and u: "stored S w (KUpgrade, initUpgradeKey ins) = Some (OUpgrade u)" "upPhase (upStatus u) = UpgradePhaseSucceeded"
    and own: "refName (upInstanceRef (upSpec u)) = metaName (instMeta ins)" and typed: "deploymentTyped S ins w"
  shows "ensures (decideInitialization C ins) (\<lambda>r v. \<exists>d. r = Inr d \<and> idInitialized d \<and> \<not> idPending d
    \<and> idSucceeded d = initUpgradeName (metaName (instMeta ins))) w"
proof -
  from wants have some: "instInitialize (instSpec ins) \<noteq> None" and new: "\<not> Initialized (instStatus ins)" by (simp_all add: wantsInit_def)
  have go: "iiRequested (initInputFor ins) \<and> \<not> iiInitialized (initInputFor ins)" using some new by (simp add: initInputFor_def)
  show ?thesis
    unfolding decideInitialization_def Let_def if_P [OF go]
    by (rule ensures_bind [OF reads_succeeded [OF serve u own typed]])
      (use some new in \<open>auto simp: initDecide_def zeroInitDecision_def intro!: ensures_return\<close>)
qed

text \<open>C12: A fresh database gets initialised: the first pass over an instance that asks for it, with its Secret there and no pod ready,
  creates the initialisation upgrade and holds the pods at zero; a pass over that upgrade starts its Job, and when the Job has
  succeeded the next one stores Succeeded; then the next pass over the instance finds the database initialised by
  that upgrade and holds the pods no longer.\<close>

theorem initialization_completes:
  assumes "serves C S" "adopts C" "lawfulOwners C" "opensInit S ins sp w"
    and "upgradeServed C S (initUpgrade ins sp) (worldAfter (decideInitialization C ins) w) r"
    and "wantsInit later" "instMeta later = instMeta ins" "deploymentTyped S later (runDone r)"
  shows "pendingInit ins (resultOf (decideInitialization C ins) w)
    \<and> (\<exists>d. resultOf (decideInitialization C later) (runDone r) = Inr d \<and> idInitialized d \<and> \<not> idPending d
        \<and> idSucceeded d = initUpgradeName (metaName (instMeta ins)))"
proof -
  let ?u = "initUpgrade ins sp"
  note first = ensures_after [OF init_opens [OF assms(1-4)]]
  from settled_stored [OF conjunct2 [OF first]] obtain y where y: "stored S (worldAfter (decideInitialization C ins) w) (upgradeAt ?u) = Some y"
      "freshUpgrade ?u y" by blast
  from fresh_succeeds [OF assms(1-3,5) y init_valid [OF assms(4)]]
  obtain c where "stored S (runDone r) (upgradeAt ?u) = Some (OUpgrade c)" "upSpec c = upSpec ?u" "upPhase (upStatus c) = UpgradePhaseSucceeded"
    by blast
  then have "stored S (runDone r) (KUpgrade, initUpgradeKey later) = Some (OUpgrade c)"
      "upPhase (upStatus c) = UpgradePhaseSucceeded" "refName (upInstanceRef (upSpec c)) = metaName (instMeta later)"
    using assms(7) by (simp_all add: upgradeAt_def initUpgrade_def initUpgradeFor_meta initUpgradeKey_def)
  from ensures_after [OF init_releases [OF assms(1,6) this assms(8)]] first assms(7) show ?thesis by auto
qed

definition newShop :: odoo_instance where
  "newShop = shopInstance\<lparr>instSpec := (instSpec shopInstance)\<lparr>instInitialize :=
     Some \<lparr>initModules = [''base''], initWithDemo = False, initAdminUserPasswordSecret = ''admin'', initTimeoutSeconds = None\<rparr>\<rparr>\<rparr>"

definition shopInit :: initialize_spec where
  "shopInit = \<lparr>initModules = [''base''], initWithDemo = False, initAdminUserPasswordSecret = ''admin'', initTimeoutSeconds = None\<rparr>"

definition newWorld :: ref_world where
  "newWorld = refPut (OSecret \<lparr>secretMeta = newMeta ''admin'' ''ns'', secretData = [(''password'', ''s'')]\<rparr>) (soleWorld newShop)"

lemma newShop_sel:
  "metaName (instMeta newShop) = ''shop''" "metaNamespace (instMeta newShop) = ''ns''" "place (OInstance newShop) = (KInstance, (''ns'', ''shop''))"
  "instInitialize (instSpec newShop) = Some shopInit" "pgDatabase (instPostgres (instSpec newShop)) = ''shop''" "wantsInit newShop"
  by (simp_all add: newShop_def shopInstance_def bareInstance_def newMeta_def place_def objKey_def shopInit_def wantsInit_def)

lemma newWorld_stored:
  "refStored newWorld (KUpgrade, k) = None" "refStored newWorld (KDeployment, k) = None"
  "refStored newWorld (KInstance, (''ns'', ''shop'')) = Some (OInstance newShop)"
  "refStored newWorld (KSecret, (''ns'', ''admin'')) = Some (OSecret \<lparr>secretMeta = newMeta ''admin'' ''ns'', secretData = [(''password'', ''s'')]\<rparr>)"
  "refConflicts newWorld = 0"
  by (simp_all add: newWorld_def refStored_put sole_stored newShop_sel) (simp_all add: place_def objKey_def newMeta_def)

lemma newWorld_opens: "opensInit refStore newShop shopInit newWorld"
proof -
  have secret: "initAdminUserPasswordSecret shopInit = ''admin''" "initModules shopInit \<noteq> []" by (simp_all add: shopInit_def)
  show ?thesis by (simp add: opensInit_def newShop_sel newWorld_stored secret idle_def upgradeAt_def)
qed

theorem initialization_completes_witness:
  "\<exists>d. resultOf (decideInitialization refServer newShop) (runDone (refRun (upgradeKey (initUpgrade newShop shopInit))
       (worldAfter (decideInitialization refServer newShop) newWorld))) = Inr d \<and> idInitialized d"
proof -
  let ?u = "initUpgrade newShop shopInit" and ?w = "worldAfter (decideInitialization refServer newShop) newWorld"
  note made = conjunct2 [OF ensures_after [OF init_opens [OF serves_ref adopts_ref refServer_lib(2) newWorld_opens]]]
  have sel: "metaNamespace (upMeta ?u) = ''ns''" "refName (upInstanceRef (upSpec ?u)) = ''shop''" "upgradeDatabase ?u newShop = ''shop''"
    by (simp_all add: initUpgrade_def initUpgradeFor_def newMeta_def newShop_sel upgradeDatabase_def)
  have run: "upgradeServed refServer refStore ?u ?w (refRun (upgradeKey ?u) ?w)"
    by (rule refRun_served [OF made, where i = newShop]) (simp_all add: newWorld_stored sel)
  from settled_stored [OF made] obtain y where y: "refStored ?w (upgradeAt ?u) = Some y" "freshUpgrade ?u y" by auto
  have "refStored (runDone (refRun (upgradeKey ?u) ?w)) (KDeployment, k) = None" for k
    using refRun_frame [OF adopts_ref refServer_lib(2) run y init_valid [OF newWorld_opens], of "(KDeployment, k)"]
      settled_frame [OF made, of "(KDeployment, k)"] newWorld_stored(2) by (simp add: upgradeAt_def)
  then have "deploymentTyped refStore newShop (runDone (refRun (upgradeKey ?u) ?w))" by (simp add: deploymentTyped_def)
  from initialization_completes [OF serves_ref adopts_ref refServer_lib(2) newWorld_opens run newShop_sel(6) refl this] show ?thesis by blast
qed

end
