(* ===== verification/Queue_Progress.thy ===== *)
theory Queue_Progress
  imports Upgrade_Progress
begin

text \<open>
  The queue drains: the upgrades that wait for one instance get their turns one after the other, each reaches a terminal phase,
  and as long as one waits, one has its turn. A round of the queue is a pass that starts a Job, the end of that Job, and
  the pass that stores its outcome.
\<close>

section \<open>Rounds\<close>

definition waiting :: "'w store \<Rightarrow> string \<Rightarrow> string \<Rightarrow> 'w \<Rightarrow> upgrade set" where
  "waiting S ns inst w = {u. stored S w (upgradeAt u) = Some (OUpgrade u) \<and> metaNamespace (upMeta u) = ns
     \<and> refName (upInstanceRef (upSpec u)) = inst \<and> \<not> upgradePhaseTerminal (upPhase (upStatus u))}"

text \<open>
  A queue that can be served: objects are stored under their keys, and every upgrade that waits is valid and has its
  instance; none is running.
\<close>

definition queueReady :: "'w cluster \<Rightarrow> 'w store \<Rightarrow> string \<Rightarrow> string \<Rightarrow> 'w \<Rightarrow> bool" where
  "queueReady C S ns inst w \<longleftrightarrow> finite (waiting S ns inst w) \<and> contention S w \<le> retrySteps C
     \<and> (\<forall>k u. stored S w (KUpgrade, k) = Some (OUpgrade u) \<longrightarrow> upgradeKey u = k)
     \<and> (\<forall>u\<in>waiting S ns inst w. runnable S w u \<and> upPhase (upStatus u) \<in> {'''', UpgradePhasePending})"

text \<open>Between the two passes of a round anything may happen to objects of other kinds.\<close>

definition sameUpgrades :: "'w store \<Rightarrow> 'w \<Rightarrow> 'w \<Rightarrow> bool" where
  "sameUpgrades S w v \<longleftrightarrow> (\<forall>k. stored S v (KUpgrade, k) = stored S w (KUpgrade, k) \<and> stored S v (KInstance, k) = stored S w (KInstance, k))"

inductive upgradeRound :: "'w cluster \<Rightarrow> 'w store \<Rightarrow> string \<Rightarrow> string \<Rightarrow> 'w \<Rightarrow> 'w \<Rightarrow> bool" for C S ns inst where
  "u \<in> waiting S ns inst w \<Longrightarrow> itsTurn S w u \<Longrightarrow> sameUpgrades S (worldAfter (upgradeReconcile C (upgradeKey u)) w) x \<Longrightarrow>
   stored S x (upgradeJobAt u) = Some (OJob j) \<Longrightarrow> jobVerdict j \<noteq> None \<Longrightarrow> contention S x \<le> retrySteps C \<Longrightarrow>
   upgradeRound C S ns inst w (worldAfter (upgradeReconcile C (upgradeKey u)) x)"

inductive_cases upgradeRoundE: "upgradeRound C S ns inst w v"

lemma waitingD:
  assumes "u \<in> waiting S ns inst w"
  shows "stored S w (upgradeAt u) = Some (OUpgrade u)" "metaNamespace (upMeta u) = ns" "refName (upInstanceRef (upSpec u)) = inst"
    "\<not> upgradePhaseTerminal (upPhase (upStatus u))"
  using assms by (simp_all add: waiting_def)

lemma waiting_same: "u \<in> waiting S ns inst w \<Longrightarrow> x \<in> waiting S ns inst w \<Longrightarrow> upgradeAt x = upgradeAt u \<Longrightarrow> x = u"
  by (auto simp: waiting_def)

text \<open>What a round changes among upgrades and instances: its upgrade has ended.\<close>

definition roundDone :: "'w store \<Rightarrow> upgrade \<Rightarrow> 'w \<Rightarrow> 'w \<Rightarrow> bool" where
  "roundDone S u w v \<longleftrightarrow> (\<exists>c. stored S v (upgradeAt u) = Some (OUpgrade c) \<and> upgradeKey c = upgradeKey u \<and> upSpec c = upSpec u
       \<and> upgradePhaseTerminal (upPhase (upStatus c)))
     \<and> (\<forall>k. k \<noteq> upgradeKey u \<longrightarrow> stored S v (KUpgrade, k) = stored S w (KUpgrade, k))
     \<and> (\<forall>k. stored S v (KInstance, k) = stored S w (KInstance, k))"

lemma sameUpgradesD:
  "sameUpgrades S w v \<Longrightarrow> stored S v (KUpgrade, k) = stored S w (KUpgrade, k)"
  "sameUpgrades S w v \<Longrightarrow> stored S v (KInstance, k) = stored S w (KInstance, k)"
  unfolding sameUpgrades_def by blast+

lemma roundDoneD:
  assumes "roundDone S u w v"
  shows "\<exists>c. stored S v (upgradeAt u) = Some (OUpgrade c) \<and> upgradeKey c = upgradeKey u \<and> upSpec c = upSpec u
      \<and> upgradePhaseTerminal (upPhase (upStatus c))"
    and "k \<noteq> upgradeKey u \<Longrightarrow> stored S v (KUpgrade, k) = stored S w (KUpgrade, k)"
    and "stored S v (KInstance, k) = stored S w (KInstance, k)"
  using assms unfolding roundDone_def by blast+

lemma verdict_terminal: "jobVerdict j = Some phase \<Longrightarrow> upgradePhaseTerminal phase"
  by (auto simp: jobVerdict_def upgradePhaseTerminal_def split: if_splits)

lemma round_ends:
  assumes serve: "serves C S" and own: "adopts C" "lawfulOwners C" and ready: "queueReady C S ns inst w" and go: "upgradeRound C S ns inst w v"
  obtains u where "u \<in> waiting S ns inst w" "roundDone S u w v" "contention S v \<le> retrySteps C"
proof -
  from go obtain u x j where v: "v = worldAfter (upgradeReconcile C (upgradeKey u)) x" and u: "u \<in> waiting S ns inst w" "itsTurn S w u"
    and same: "sameUpgrades S (worldAfter (upgradeReconcile C (upgradeKey u)) w) x"
    and job: "stored S x (upgradeJobAt u) = Some (OJob j)" "jobVerdict j \<noteq> None" and few: "contention S x \<le> retrySteps C"
    by (rule upgradeRoundE) blast
  let ?w = "worldAfter (upgradeReconcile C (upgradeKey u)) w"
  from ready u(1) have "runnable S w u" "contention S w \<le> retrySteps C" by (auto simp: queueReady_def)
  from ensures_after [OF reconcile_starts [OF serve own this(1) u(2) this(2)]]
  have run: "launched S (upgradeAt u) (underWay u) (upgradeJobAt u) w ?w" by blast
  then obtain y where y: "underWay u y" "stored S ?w (upgradeAt u) = Some y" by (auto simp: launched_def)
  note x = sameUpgradesD [OF same]
  have away: "stored S ?w (KUpgrade, k) = stored S w (KUpgrade, k)" if "k \<noteq> upgradeKey u" for k
    by (rule keepsD [where K = "{upgradeAt u, upgradeJobAt u}"]) (use run that in \<open>simp_all add: launched_def upgradeAt_def upgradeJobAt_def\<close>)
  have far: "stored S ?w (KInstance, k) = stored S w (KInstance, k)" for k
    by (rule keepsD [where K = "{upgradeAt u, upgradeJobAt u}"]) (use run in \<open>simp_all add: launched_def upgradeAt_def upgradeJobAt_def\<close>)
  from job(2) obtain phase where phase: "jobVerdict j = Some phase" by blast
  have "stored S x (upgradeAt u) = Some y" using y(2) x by (simp add: upgradeAt_def)
  from ensures_after [OF underWay_ends [OF serve this y(1) few job(1) phase]]
  have done_: "settled S (upgradeAt u) (upgradeEnded u phase) x v" unfolding v by blast
  from settled_stored [OF done_] have "\<exists>c. stored S v (upgradeAt u) = Some (OUpgrade c) \<and> upgradeKey c = upgradeKey u \<and> upSpec c = upSpec u
       \<and> upgradePhaseTerminal (upPhase (upStatus c))"
    using verdict_terminal [OF phase] by (auto simp: upgradeEnded_def)
  moreover have "stored S v (KUpgrade, k) = stored S w (KUpgrade, k)" if "k \<noteq> upgradeKey u" for k
    using settled_frame [OF done_, of "(KUpgrade, k)"] away [OF that] x(1) that by (simp add: upgradeAt_def)
  moreover have "stored S v (KInstance, k) = stored S w (KInstance, k)" for k
    using settled_frame [OF done_, of "(KInstance, k)"] far x(2) by (simp add: upgradeAt_def)
  ultimately have "roundDone S u w v" by (simp only: roundDone_def) blast
  then show thesis using that u(1) settled_few [OF done_] few by simp
qed

lemma round_waiting:
  assumes u: "u \<in> waiting S ns inst w" and fin: "roundDone S u w v"
  shows "waiting S ns inst v = waiting S ns inst w - {u}"
proof (intro set_eqI)
  fix x
  from fin obtain c where c: "stored S v (upgradeAt u) = Some (OUpgrade c)" "upgradePhaseTerminal (upPhase (upStatus c))"
    using roundDoneD(1) [OF fin] by blast
  show "x \<in> waiting S ns inst v \<longleftrightarrow> x \<in> waiting S ns inst w - {u}"
  proof (cases "upgradeKey x = upgradeKey u")
    case True
    then have "upgradeAt x = upgradeAt u" by (simp add: upgradeAt_def)
    then show ?thesis using c waiting_same [OF u, of x] by (auto simp: waiting_def)
  next
    case False
    then have "stored S v (upgradeAt x) = stored S w (upgradeAt x)" using roundDoneD(2) [OF fin] by (simp add: upgradeAt_def)
    with False show ?thesis by (auto simp: waiting_def)
  qed
qed

lemma round_ready:
  assumes ready: "queueReady C S ns inst w" and u: "u \<in> waiting S ns inst w" and fin: "roundDone S u w v" and few: "contention S v \<le> retrySteps C"
  shows "queueReady C S ns inst v"
proof -
  have placed: "upgradeKey y = k" if "stored S v (KUpgrade, k) = Some (OUpgrade y)" for k y
  proof (cases "k = upgradeKey u")
    case True
    then show ?thesis using that roundDoneD(1) [OF fin] by (auto simp: upgradeAt_def)
  next
    case False
    with that have "stored S w (KUpgrade, k) = Some (OUpgrade y)" using roundDoneD(2) [OF fin] by simp
    then show ?thesis using ready unfolding queueReady_def by blast
  qed
  have "runnable S v x \<and> upPhase (upStatus x) \<in> {'''', UpgradePhasePending}" if x: "x \<in> waiting S ns inst v" for x
  proof -
    from x have "x \<in> waiting S ns inst w" unfolding round_waiting [OF u fin] by simp
    with ready have "runnable S w x" "upPhase (upStatus x) \<in> {'''', UpgradePhasePending}" by (auto simp: queueReady_def)
    with roundDoneD(3) [OF fin] waitingD(1) [OF x] show ?thesis by (auto simp: runnable_def)
  qed
  then show ?thesis
    using ready few placed unfolding queueReady_def round_waiting [OF u fin] by blast
qed

text \<open>The oldest upgrade that waits has its turn.\<close>

lemma ready_turn:
  assumes ready: "queueReady C S ns inst w" and some: "waiting S ns inst w \<noteq> {}"
  shows "\<exists>u\<in>waiting S ns inst w. runnable S w u \<and> itsTurn S w u"
proof -
  have "finite (waiting S ns inst w)" using ready by (simp add: queueReady_def)
  then obtain os where os: "set os = waiting S ns inst w" using finite_list by blast
  from some obtain c where "c \<in> set os" using os by blast
  from uq.oldest_exists [OF this, of "\<lambda>_. True"]
  obtain u where u: "u \<in> waiting S ns inst w" "\<And>x. x \<in> waiting S ns inst w \<Longrightarrow> \<not> qOlder upgradeQueue x u" unfolding os by blast
  have "\<not> heldBy u x" if x: "stored S w (KUpgrade, (metaNamespace (upMeta u), n)) = Some (OUpgrade x)" for n x
  proof
    assume held: "heldBy u x"
    have key: "upgradeKey x = (metaNamespace (upMeta u), n)" using ready x unfolding queueReady_def by blast
    have "x \<in> waiting S ns inst w"
      using held x waitingD [OF u(1)] key by (auto simp: waiting_def heldBy_def upgradeAt_def upgradeKey_def upgradePhaseTerminal_def)
    moreover from this ready have "upPhase (upStatus x) \<noteq> UpgradePhaseRunning" by (auto simp: queueReady_def)
    ultimately show False using held u(2) by (auto simp: heldBy_def queue_defs split: if_splits)
  qed
  then have "itsTurn S w u" unfolding itsTurn_def by blast
  with u(1) ready show ?thesis by (auto simp: queueReady_def)
qed

section \<open>Properties\<close>

lemma rounds_ready:
  assumes "serves C S" "adopts C" "lawfulOwners C" "queueReady C S ns inst w" "(upgradeRound C S ns inst ^^ n) w v"
  shows "queueReady C S ns inst v \<and> waiting S ns inst v \<subseteq> waiting S ns inst w
    \<and> card (waiting S ns inst w) = n + card (waiting S ns inst v)
    \<and> (\<forall>u\<in>waiting S ns inst w - waiting S ns inst v. \<exists>c. stored S v (upgradeAt u) = Some (OUpgrade c) \<and> upgradePhaseTerminal (upPhase (upStatus c)))"
  using assms(5)
proof (induction n arbitrary: v)
  case 0
  then show ?case using assms(4) by simp
next
  case (Suc n)
  then obtain x where x: "(upgradeRound C S ns inst ^^ n) w x" "upgradeRound C S ns inst x v" by auto
  note IH = Suc.IH [OF x(1)]
  obtain u where u: "u \<in> waiting S ns inst x" "roundDone S u x v" "contention S v \<le> retrySteps C"
    using round_ends [OF assms(1-3) conjunct1 [OF IH] x(2)] by blast
  have fin: "finite (waiting S ns inst x)" using IH by (simp add: queueReady_def)
  have ended: "\<exists>c. stored S v (upgradeAt y) = Some (OUpgrade c) \<and> upgradePhaseTerminal (upPhase (upStatus c))"
    if y: "y \<in> waiting S ns inst w" "y \<notin> waiting S ns inst v" for y
  proof (cases "upgradeAt y = upgradeAt u")
    case True
    then show ?thesis using roundDoneD(1) [OF u(2)] by auto
  next
    case False
    with y(2) have "y \<notin> waiting S ns inst x" unfolding round_waiting [OF u(1,2)] by auto
    with IH y(1) have "\<exists>c. stored S x (upgradeAt y) = Some (OUpgrade c) \<and> upgradePhaseTerminal (upPhase (upStatus c))" by blast
    with False show ?thesis using roundDoneD(2) [OF u(2)] by (simp add: upgradeAt_def)
  qed
  have "card (waiting S ns inst x) = Suc (card (waiting S ns inst v))"
    unfolding round_waiting [OF u(1,2)] using card.remove [OF fin u(1)] by simp
  then show ?case
    using IH ended round_ready [OF conjunct1 [OF IH] u] round_waiting [OF u(1,2)] by auto
qed

text \<open>C7: The queue drains. When every upgrade that waits for an instance can run, then on an API server that keeps its promises
  every round of the queue takes exactly one upgrade out of it and leaves that upgrade in a terminal phase, however the
  turns go; as long as one waits, one of them can run and has its turn; so the queue is empty after as many rounds as
  upgrades were waiting.\<close>

theorem upgrade_queue_drains:
  assumes "serves C S" "adopts C" "lawfulOwners C" "queueReady C S ns inst w" "(upgradeRound C S ns inst ^^ n) w v"
  shows "card (waiting S ns inst w) = n + card (waiting S ns inst v)
    \<and> (\<forall>u\<in>waiting S ns inst w - waiting S ns inst v. \<exists>c. stored S v (upgradeAt u) = Some (OUpgrade c) \<and> upgradePhaseTerminal (upPhase (upStatus c)))
    \<and> (waiting S ns inst v \<noteq> {} \<longrightarrow> (\<exists>u\<in>waiting S ns inst v. runnable S v u \<and> itsTurn S v u))"
  using rounds_ready [OF assms] ready_turn [of C S ns inst v] by blast

definition drainedWorld :: ref_world where
  "drainedWorld = worldAfter (upgradeReconcile refServer (''ns'', ''up''))
     (jobDone (''ns'', ''up'') (worldAfter (upgradeReconcile refServer (''ns'', ''up'')) progressWorld))"

lemma progress_waiting: "waiting refStore ''ns'' ''shop'' progressWorld = {progressUpgrade}"
  by (auto simp: waiting_def progressWorld_def refStored_put place_simps progress_sel upgradeAt_def upgradePhaseTerminal_def split: if_splits)
    (auto simp: refStored_def)

lemma progress_ready: "queueReady refServer refStore ''ns'' ''shop'' progressWorld"
  unfolding queueReady_def progress_waiting
  by (auto simp: progress_runs progress_sel)
    (auto simp: progressWorld_def refStored_put place_simps progress_sel split: if_splits, simp_all add: refStored_def)

lemma progress_round: "upgradeRound refServer refStore ''ns'' ''shop'' progressWorld drainedWorld"
proof -
  have "upgradeRound refServer refStore ''ns'' ''shop'' progressWorld (worldAfter (upgradeReconcile refServer (upgradeKey progressUpgrade))
     (jobDone (''ns'', ''up'') (worldAfter (upgradeReconcile refServer (upgradeKey progressUpgrade)) progressWorld)))"
    by (rule upgradeRound.intros [where j = "goodJob (''ns'', ''up'')"])
      (simp_all add: progress_waiting progress_runs sameUpgrades_def jobDone_stored upgradeJobAt_def progress_sel goodJob_succeeded)
  then show ?thesis by (simp add: drainedWorld_def progress_sel)
qed

theorem upgrade_queue_drains_witness:
  "card (waiting refStore ''ns'' ''shop'' progressWorld) = 1 \<and> card (waiting refStore ''ns'' ''shop'' drainedWorld) = 0"
proof -
  have "(upgradeRound refServer refStore ''ns'' ''shop'' ^^ 1) progressWorld drainedWorld"
    unfolding relpowp_1 by (rule progress_round)
  from upgrade_queue_drains [OF serves_ref adopts_ref refServer_lib(2) progress_ready this] show ?thesis by (simp add: progress_waiting)
qed

end
