(* ===== verification/Addon_Progress.thy ===== *)
theory Addon_Progress
  imports Status_Writes Addon_Controller Volume_Safety
begin

text \<open>
  Addons get synced. From an addon the operator has not seen yet to the modules on the volume and the record of them in its
  status: what a pass over it does on an API server that keeps its promises, what the Job it leaves runs, and how
  the pass after the Job has ended reads the log of that run.
\<close>

section \<open>Addons and their Jobs in the store\<close>

text \<open>\<open>metav1.IsControlledBy\<close> looks at the owner references of the object and the UID of the owner only.\<close>

definition readsOwners :: "'m kubelib_scheme \<Rightarrow> bool" where
  "readsOwners L \<longleftrightarrow> (\<forall>m m' owner owner'. metaOwners m = metaOwners m' \<and> metaUID owner = metaUID owner' \<longrightarrow>
     IsControlledBy L m owner = IsControlledBy L m' owner')"

lemma readsOwnersD: "readsOwners L \<Longrightarrow> metaOwners m = metaOwners m' \<Longrightarrow> metaUID x = metaUID y \<Longrightarrow> IsControlledBy L m x = IsControlledBy L m' y"
  unfolding readsOwners_def by blast

definition addonKey :: "addon \<Rightarrow> nsname" where
  "addonKey a = (metaNamespace (addonMeta a), metaName (addonMeta a))"

definition addonAt :: "addon \<Rightarrow> kind \<times> nsname" where
  "addonAt a = (KAddon, addonKey a)"

definition syncJobAt :: "addon \<Rightarrow> kind \<times> nsname" where
  "syncJobAt a = (KJob, (metaNamespace (addonMeta a), syncJobName (metaName (addonMeta a))))"

lemma addon_place: "place (OAddon a) = addonAt a"
  by (simp add: place_def objKey_def addonAt_def addonKey_def)

text \<open>The same addon: only its finalizers, labels, annotations and status may differ.\<close>

definition sameAddon :: "addon \<Rightarrow> addon \<Rightarrow> bool" where
  "sameAddon a b \<longleftrightarrow> addonSpec b = addonSpec a \<and> addonKey b = addonKey a
     \<and> metaUID (addonMeta b) = metaUID (addonMeta a) \<and> metaDeleted (addonMeta b) = metaDeleted (addonMeta a)"

lemma sameAddon_sel:
  assumes "sameAddon a b"
  shows "addonSpec b = addonSpec a" "metaName (addonMeta b) = metaName (addonMeta a)"
    "metaNamespace (addonMeta b) = metaNamespace (addonMeta a)" "metaUID (addonMeta b) = metaUID (addonMeta a)"
    "metaDeleted (addonMeta b) = metaDeleted (addonMeta a)" "addonAt b = addonAt a" "syncJobAt b = syncJobAt a" "addonKey b = addonKey a"
  using assms by (auto simp: sameAddon_def addonKey_def addonAt_def syncJobAt_def)

lemma sameAddon_status: "sameAddon a (b\<lparr>addonStatus := s\<rparr>) = sameAddon a b"
  by (simp add: sameAddon_def addonKey_def)

lemma resolve_same: "sameAddon a b \<Longrightarrow> resolveSyncSpec L b = resolveSyncSpec L a"
  by (simp only: resolveSyncSpec_def defaultedSpec_def Let_def sameAddon_sel)

lemma holding_same:
  assumes "lawfulFinalizers L"
  shows "sameAddon a (holding L a)" "addonStatus (holding L a) = addonStatus a"
    "metaDeleted (addonMeta a) = None \<Longrightarrow> finalizersOnly (OAddon a) (OAddon (holding L a))"
    "metaDeleted (addonMeta a) = None \<Longrightarrow> ContainsFinalizer L (addonMeta (holding L a)) finalizerOdooAddon"
proof -
  have add: "AddFinalizer L (addonMeta a) finalizerOdooAddon
      = (addonMeta a)\<lparr>metaFinalizers := metaFinalizers (AddFinalizer L (addonMeta a) finalizerOdooAddon)\<rparr>"
    and sets: "ContainsFinalizer L (AddFinalizer L (addonMeta a) finalizerOdooAddon) finalizerOdooAddon"
    using assms by (auto simp: lawfulFinalizers_def)
  then have names: "metaName (AddFinalizer L (addonMeta a) finalizerOdooAddon) = metaName (addonMeta a)"
    "metaNamespace (AddFinalizer L (addonMeta a) finalizerOdooAddon) = metaNamespace (addonMeta a)"
    "metaUID (AddFinalizer L (addonMeta a) finalizerOdooAddon) = metaUID (addonMeta a)"
    "metaDeleted (AddFinalizer L (addonMeta a) finalizerOdooAddon) = metaDeleted (addonMeta a)"
    by (metis objmeta.select_convs objmeta.surjective objmeta.update_convs(7))+
  show "sameAddon a (holding L a)" using names by (simp add: holding_def sameAddon_def addonKey_def)
  show "addonStatus (holding L a) = addonStatus a" by (simp add: holding_def)
  show "finalizersOnly (OAddon a) (OAddon (holding L a))" if "metaDeleted (addonMeta a) = None"
    using that by (simp add: holding_def flip: add)
  show "ContainsFinalizer L (addonMeta (holding L a)) finalizerOdooAddon" if "metaDeleted (addonMeta a) = None"
    using that sets by (simp add: holding_def)
qed

text \<open>The volume the addon is for: the addons claim of its instance, bound.\<close>

definition volumeReady :: "'w store \<Rightarrow> 'w \<Rightarrow> addon \<Rightarrow> odoo_instance \<Rightarrow> bool" where
  "volumeReady S w a ins \<longleftrightarrow>
     (let ref = addonInstanceRef (addonSpec a); ns = metaNamespace (addonMeta a) in
      refName ref \<noteq> '''' \<and> (refNamespace ref = '''' \<or> refNamespace ref = ns)
      \<and> stored S w (KInstance, (ns, refName ref)) = Some (OInstance ins)
      \<and> (\<exists>p. stored S w (KPVC, (metaNamespace (instMeta ins), addonsPVCName (metaName (instMeta ins)))) = Some (OPVC p)
            \<and> pvcPhase p = ''Bound''))"

lemma volumeReady_other:
  assumes "volumeReady S w a ins" "sameAddon a b" "\<And>k key. k \<noteq> KAddon \<Longrightarrow> k \<noteq> KJob \<Longrightarrow> stored S v (k, key) = stored S w (k, key)"
  shows "volumeReady S v b ins"
  using assms(1) by (simp add: volumeReady_def Let_def assms(3) sameAddon_sel [OF assms(2)])

text \<open>A Job of the addon for a spec: it is controlled by the addon, carries the hash of the spec, and runs the sync program of it.\<close>

definition syncJobFor :: "'m kubelib_scheme \<Rightarrow> addon \<Rightarrow> syncSpec \<Rightarrow> job \<Rightarrow> bool" where
  "syncJobFor L a spec j \<longleftrightarrow> (KJob, jobKey j) = syncJobAt a \<and> IsControlledBy L (jobMeta j) (addonMeta a)
     \<and> mapGet (metaAnnotations (jobMeta j)) annotationSyncSpecHash = syncSpecHash spec
     \<and> metaFinalizers (jobMeta j) = [] \<and> jobCommands j = [[''sh'', ''-c'', scriptText (syncProgram spec)]]"

section \<open>The calls of a pass\<close>

lemma addon_reads:
  assumes "serves C S"
  shows "stored S w (KAddon, key) = Some (OAddon a) \<Longrightarrow> (\<And>v. quiet S w v \<Longrightarrow> Q (Inr a) v) \<Longrightarrow> ensures (getAddon C key) Q w"
    and "stored S w (KPVC, key) = Some (OPVC p) \<Longrightarrow> (\<And>v. quiet S w v \<Longrightarrow> R (Inr p) v) \<Longrightarrow> ensures (getPVC C key) R w"
  unfolding call_defs by (rule ensures_get [OF assms]; simp)+

lemma clock_quiet: "serves C S \<Longrightarrow> ensures (timeNow C) (\<lambda>_ v. quiet S w v) w"
  unfolding timeNow_def by (rule ensures_passive) simp_all

lemma node_quiet: "serves C S \<Longrightarrow> ensures (odooPodNode C ins) (\<lambda>_ v. quiet S w v) w"
  unfolding odooPodNode_def call_defs
  by (rule ensures_bind [OF ensures_passive]) (auto intro!: ensures_intros split: sum.split)

text \<open>The status of the addon has become \<open>s\<close>, but for the conditions, which follow from it.\<close>

definition restated :: "'w store \<Rightarrow> addon \<Rightarrow> addon_status \<Rightarrow> 'w \<Rightarrow> 'w \<Rightarrow> bool" where
  "restated S a s w v \<longleftrightarrow> contention S v = contention S w
     \<and> (\<exists>cs. stored S v = (stored S w)(addonAt a \<mapsto> OAddon (a\<lparr>addonStatus := s\<lparr>addonConds := cs\<rparr>\<rparr>)))"

lemma restated_quiet: "quiet S w x \<Longrightarrow> restated S a s x v \<Longrightarrow> restated S a s w v" "restated S a s w x \<Longrightarrow> quiet S x v \<Longrightarrow> restated S a s w v"
  by (simp_all add: restated_def quiet_def unchanged_def)

lemma write_restates:
  assumes serve: "serves C S" and stored: "stored S w (addonAt a) = Some (OAddon a)" and calm: "contention S w = 0"
  shows "ensures (writeAddonStatus C a reason msg mutate) (\<lambda>err v. err = None \<and> restated S a (mutate (addonStatus a)) w v) w"
proof -
  let ?cs = "setConditions C (addonConds (mutate (addonStatus a))) (metaGeneration (addonMeta a)) (addonConditions (mutate (addonStatus a)) reason msg)"
  let ?after = "(mutate (addonStatus a))\<lparr>addonConds := ?cs\<rparr>"
  have same: "restated S a (mutate (addonStatus a)) w w" if "addonStatus a = ?after"
    unfolding restated_def
  proof (intro conjI refl exI)
    have "a\<lparr>addonStatus := ?after\<rparr> = a" unfolding that [symmetric] by simp
    then show "stored S w = (stored S w)(addonAt a \<mapsto> OAddon (a\<lparr>addonStatus := ?after\<rparr>))" using stored by (simp add: fun_upd_idem)
  qed
  have put: "ensures (updateStatus C (OAddon (a\<lparr>addonStatus := ?after\<rparr>))) (\<lambda>err v. err = None \<and> restated S a (mutate (addonStatus a)) w v) w"
    by (rule ensures_status [OF serve, where c = "OAddon a"])
      (use stored calm in \<open>auto simp: addon_place restated_def addonAt_def addonKey_def\<close>)
  show ?thesis
    unfolding writeAddonStatus_def Let_def
    apply (rule ensures_if)
     apply (rule ensures_return, simp add: same)
    apply (rule ensures_bind [OF put])
    apply (elim conjE, simp only: option.case)
    apply (rule ensures_bind [OF emit_quiet [OF serve]])
    apply (rule ensures_return, simp add: restated_quiet(2))
    done
qed

section \<open>From the event to the decision\<close>

lemma pass_holds:
  assumes serve: "serves C S" and fin: "lawfulFinalizers C" and stored: "stored S w (addonAt a) = Some (OAddon a)"
    and alive: "metaDeleted (addonMeta a) = None" and calm: "contention S w = 0"
    and rest: "\<And>v. stored S v = (stored S w)(addonAt a \<mapsto> OAddon (holding C a)) \<Longrightarrow> contention S v = 0 \<Longrightarrow>
      ensures (reconcileOdooAddon C (holding C a)) Q v"
  shows "ensures (ReconcileAddon C (addonKey a)) Q w"
proof -
  have held: "holding C a = a" if "ContainsFinalizer C (addonMeta a) finalizerOdooAddon" using that by (simp add: holding_def)
  have add: "holding C a = a\<lparr>addonMeta := AddFinalizer C (addonMeta a) finalizerOdooAddon\<rparr>"
    if "\<not> ContainsFinalizer C (addonMeta a) finalizerOdooAddon" using that alive by (simp add: holding_def)
  have at: "place (OAddon (holding C a)) = addonAt a" using sameAddon_sel(6) [OF holding_same(1) [OF fin]] by (simp add: addon_place)
  have update: "ensures (updateObj C (OAddon (holding C a))) (\<lambda>err v. err = None
      \<and> stored S v = (stored S w)(addonAt a \<mapsto> OAddon (holding C a)) \<and> contention S v = 0) v" if v: "quiet S w v" for v
    by (rule ensures_update [OF serve, where c = "OAddon a"])
      (use holding_same(3) [OF fin alive] stored calm quietD [OF v] in \<open>simp_all add: at\<close>)
  have idle: "ensures (reconcileOdooAddon C a) Q v"
    if v: "quiet S w v" and "ContainsFinalizer C (addonMeta a) finalizerOdooAddon" for v
    using rest [of v] stored calm quietD [OF v] held [OF that(2)] by (simp add: fun_upd_idem)
  have alive': "\<not> metaDeleted (addonMeta a) \<noteq> None" using alive by simp
  show ?thesis
    unfolding ReconcileAddon_def
    apply (rule ensures_bind [OF addon_reads(1) [where Q = "\<lambda>r v. r = Inr a \<and> quiet S w v", OF serve stored [unfolded addonAt_def]]], simp)
    apply (elim conjE, simp only: sum.case if_not_P [OF alive'] Let_def)
    apply (rule ensures_if)
    subgoal
      unfolding add [symmetric]
      by (rule ensures_bind [OF update]) (use rest in auto)
    subgoal using idle by simp
    done
qed

lemma reach_sync:
  assumes serve: "serves C S" and ready: "volumeReady S w a ins"
    and sync: "\<And>v. quiet S w v \<Longrightarrow> ensures (syncAddon C a ins (addonsPVCName (metaName (instMeta ins)))) Q v"
  shows "ensures (reconcileOdooAddon C a) Q w"
proof -
  from ready obtain p where ref: "\<not> (refNamespace (addonInstanceRef (addonSpec a)) \<noteq> '''' \<and>
      refNamespace (addonInstanceRef (addonSpec a)) \<noteq> metaNamespace (addonMeta a))" "refName (addonInstanceRef (addonSpec a)) \<noteq> ''''"
    and ins: "stored S w (KInstance, (metaNamespace (addonMeta a), refName (addonInstanceRef (addonSpec a)))) = Some (OInstance ins)"
    and pvc: "stored S w (KPVC, (metaNamespace (instMeta ins), addonsPVCName (metaName (instMeta ins)))) = Some (OPVC p)" "pvcPhase p = ''Bound''"
    unfolding volumeReady_def Let_def by blast
  have mounted: "ensures (ensureVolumeMounted C ins (addonsPVCName (metaName (instMeta ins)))) (\<lambda>r x. r = Inr True \<and> quiet S w x) v"
    if v: "quiet S w v" for v
    unfolding ensureVolumeMounted_def
    by (rule ensures_bind [OF addon_reads(2) [where R = "\<lambda>r x. r = Inr p \<and> quiet S v x", OF serve]])
      (use pvc quietD [OF v] quiet_trans [OF v] in \<open>auto intro!: ensures_return\<close>)
  show ?thesis
    unfolding reconcileOdooAddon_def Let_def if_not_P [OF ref(1)] if_not_P [OF ref(2)]
    apply (rule ensures_bind [OF ensures_read(4) [where T = "\<lambda>r v. r = Inr ins \<and> quiet S w v", OF serve ins]], simp)
    apply (elim conjE, simp only: sum.case)
    apply (rule ensures_bind [OF mounted], assumption)
    using sync by simp
qed

lemma ensures_both: "ensures m P w \<Longrightarrow> ensures m Q w \<Longrightarrow> ensures m (\<lambda>a v. P a v \<and> Q a v) w"
  by (simp add: ensures_def)

lemma reach_decision:
  assumes serve: "serves C S" and spec: "resolveSyncSpec C a = Inr spec"
    and job: "(case jb of None \<Rightarrow> stored S w (syncJobAt a) = None | Some j \<Rightarrow> stored S w (syncJobAt a) = Some (OJob j))"
    and time: "\<And>v. ensures (timeNow C) (\<lambda>now _. B now) v"
    and act: "\<And>now v. quiet S w v \<Longrightarrow> B now \<Longrightarrow> ensures (actOnDecision C a ins pvc jb (decideAddonSync (syncInputFor C a jb now))) Q v"
  shows "ensures (syncAddon C a ins pvc) Q w"
proof -
  have asked: "ensures (getSyncJob C a) (\<lambda>r x. r = Inr jb \<and> quiet S w x) v" if v: "quiet S w v" for v
    unfolding getSyncJob_def getJobIfAny_def
  proof (cases jb)
    case None
    show "ensures (do { r \<leftarrow> getJob C (metaNamespace (addonMeta a), syncJobName (metaName (addonMeta a)));
        case r of Inl e \<Rightarrow> State_Monad.return (if isNotFound e then Inr None else Inl e)
        | Inr j \<Rightarrow> State_Monad.return (Inr (Some j)) }) (\<lambda>r x. r = Inr jb \<and> quiet S w x) v"
      by (rule ensures_bind [OF ensures_missing(2) [where R = "\<lambda>r x. (\<exists>e. r = Inl e \<and> isNotFound e) \<and> quiet S v x", OF serve]])
        (use job None quietD [OF v] quiet_trans [OF v] in \<open>auto simp: syncJobAt_def intro!: ensures_return\<close>)
  next
    case (Some j)
    show "ensures (do { r \<leftarrow> getJob C (metaNamespace (addonMeta a), syncJobName (metaName (addonMeta a)));
        case r of Inl e \<Rightarrow> State_Monad.return (if isNotFound e then Inr None else Inl e)
        | Inr j \<Rightarrow> State_Monad.return (Inr (Some j)) }) (\<lambda>r x. r = Inr jb \<and> quiet S w x) v"
      by (rule ensures_bind [OF ensures_read(3) [where R = "\<lambda>r x. r = Inr j \<and> quiet S v x", OF serve]])
        (use job Some quietD [OF v] quiet_trans [OF v] in \<open>auto simp: syncJobAt_def intro!: ensures_return\<close>)
  qed
  show ?thesis
    unfolding syncAddon_def
    apply (rule ensures_bind [OF ensures_both [OF clock_quiet [OF serve] time]])
    apply (elim conjE)
    apply (rule ensures_bind [OF asked], assumption)
    using act by simp
qed

section \<open>Starting the Job\<close>

lemma sync_job_created:
  assumes own: "lawfulOwners C" "readsOwners C" and m: "SetControllerReference C (addonMeta a) (jobMeta (buildSyncJob a spec opts)) = Inr m"
    and y: "createdAs (OJob ((buildSyncJob a spec opts)\<lparr>jobMeta := m\<rparr>)) y"
  shows "\<exists>j. y = OJob j \<and> syncJobFor C a spec j"
proof -
  let ?j = "(buildSyncJob a spec opts)\<lparr>jobMeta := m\<rparr>"
  have m': "m = (jobMeta (buildSyncJob a spec opts))\<lparr>metaOwners := metaOwners m\<rparr>" and by_a: "IsControlledBy C m (addonMeta a)"
    using own(1) m unfolding lawfulOwners_def by blast+
  have sent: "metaName m = syncJobName (metaName (addonMeta a))" "metaNamespace m = metaNamespace (addonMeta a)"
    "metaAnnotations m = [(annotationSyncSpecHash, syncSpecHash spec)]" "metaFinalizers m = []"
    by (subst m', simp add: buildSyncJob_def newMeta_def)+
  from y obtain j where j: "y = OJob j" "filledMeta m (jobMeta j)" "jobCommands j = jobCommands ?j"
    by (cases y) (simp_all add: place_def)
  have kept: "metaName (jobMeta j) = metaName m" "metaNamespace (jobMeta j) = metaNamespace m"
      "metaAnnotations (jobMeta j) = metaAnnotations m" "metaFinalizers (jobMeta j) = metaFinalizers m" "metaOwners (jobMeta j) = metaOwners m"
    by (subst j(2) [unfolded filledMeta_def], simp)+
  have "IsControlledBy C (jobMeta j) (addonMeta a)" using readsOwnersD [OF own(2) kept(5)] by_a by blast
  moreover have "jobCommands ?j = [[''sh'', ''-c'', buildSyncScript spec]]"
    by (simp add: jobCommands_def buildSyncJob_def buildAddonJob_def Let_def zeroContainer_def)
  ultimately have "syncJobFor C a spec j"
    using j(3) kept sent by (simp add: syncJobFor_def jobKey_def syncJobAt_def mapGet_def sync_program_text)
  with j(1) show ?thesis by blast
qed

lemma create_sync_job:
  assumes serve: "serves C S" and own: "adopts C" "lawfulOwners C" "readsOwners C" and free: "stored S w (syncJobAt a) = None"
  shows "ensures (createSyncJob C a ins pvc spec) (\<lambda>err v. err = None \<and> contention S v = contention S w
    \<and> (\<exists>j. syncJobFor C a spec j \<and> stored S v = (stored S w)(syncJobAt a \<mapsto> OJob j))) w"
proof -
  have made: "ensures (createOwnedJob C a (buildSyncJob a spec opts) what) (\<lambda>err v. err = None \<and> contention S v = contention S w
      \<and> (\<exists>j. syncJobFor C a spec j \<and> stored S v = (stored S w)(syncJobAt a \<mapsto> OJob j))) x"
    if x: "quiet S w x" for x opts what
  proof -
    have "metaOwners (jobMeta (buildSyncJob a spec opts)) = []"
        "metaNamespace (jobMeta (buildSyncJob a spec opts)) = metaNamespace (addonMeta a)"
      by (simp_all add: buildSyncJob_def newMeta_def)
    with own(1) obtain m where m: "SetControllerReference C (addonMeta a) (jobMeta (buildSyncJob a spec opts)) = Inr m"
      unfolding adopts_def by blast
    let ?j = "(buildSyncJob a spec opts)\<lparr>jobMeta := m\<rparr>"
    have at: "place (OJob ?j) = syncJobAt a"
      using lawful_owner_names [OF own(2) m] by (simp add: place_simps jobKey_def syncJobAt_def buildSyncJob_def newMeta_def)
    have "ensures (createObj C (OJob ?j)) (\<lambda>err v. err = None \<and> contention S v = contention S w
        \<and> (\<exists>j. syncJobFor C a spec j \<and> stored S v = (stored S w)(syncJobAt a \<mapsto> OJob j))) x"
    proof (rule ensures_create [OF serve])
      fix v y
      assume "createdAs (OJob ?j) y" "stored S v = (stored S x)(place (OJob ?j) \<mapsto> y)" "contention S v = contention S x"
      with sync_job_created [OF own(2,3) m] quietD [OF x] show "None = None \<and> contention S v = contention S w
          \<and> (\<exists>j. syncJobFor C a spec j \<and> stored S v = (stored S w)(syncJobAt a \<mapsto> OJob j))" unfolding at by auto
    qed (use free quietD [OF x] in \<open>simp add: at\<close>)
    then show ?thesis
      unfolding createOwnedJob_def m sum.case by (rule ensures_bind) (simp add: ensures_return)
  qed
  show ?thesis
    unfolding createSyncJob_def by (rule ensures_bind [OF node_quiet [OF serve]], rule made)
qed

text \<open>The clock of the cluster is past \<open>t\<close>.\<close>

definition clockPast :: "'w cluster \<Rightarrow> int \<Rightarrow> bool" where
  "clockPast C t \<longleftrightarrow> (\<forall>w. ensures (timeNow C) (\<lambda>now _. t \<le> now) w)"

lemma clockPastD: "clockPast C t \<Longrightarrow> ensures (timeNow C) (\<lambda>now _. t \<le> now) w"
  unfolding clockPast_def by blast

text \<open>A sync of the addon is due: it has never been synced, or the interval since then is over; and it is not pinned to a commit it
  already has.\<close>

definition retryInterval :: "addon \<Rightarrow> int" where
  "retryInterval a = (if addonPhase (addonStatus a) = phaseFailed then failureBackoff else resyncInterval)"

definition syncDue :: "'w cluster \<Rightarrow> addon \<Rightarrow> bool" where
  "syncDue C a \<longleftrightarrow> \<not> canSkipResync a
     \<and> (case LastSyncTime (addonStatus a) of None \<Rightarrow> True | Some t \<Rightarrow> clockPast C (t + retryInterval a))"

lemma elapsed_enough: "t + d \<le> now \<Longrightarrow> 0 \<le> d \<Longrightarrow> d < 2 ^ 63 \<Longrightarrow> d \<le> timeSub now t"
  by (simp add: timeSub_def)

lemma due_decides:
  assumes "resolveSyncSpec C a = Inr spec" "syncDue C a" "\<And>t. LastSyncTime (addonStatus a) = Some t \<Longrightarrow> t + retryInterval a \<le> now"
  shows "decideAddonSync (syncInputFor C a None now) = decision addonActionCreateJob (syncingPhaseFor (addonPhase (addonStatus a))) '''' False addonCreateRequeue"
proof -
  let ?i = "syncInputFor C a None now"
  have "\<not> SkipResync ?i" "SpecErr ?i = ''''" "\<not> obsExists (inJob ?i)" "inPhase ?i = addonPhase (addonStatus a)"
    using assms(1,2) by (simp_all add: syncInputFor_def observeSyncJob_def syncDue_def)
  moreover have "syncInterval ?i \<le> timeSub now t" if "inLastSyncTime ?i = Some t" for t
    using elapsed_enough [OF assms(3), of t] that
    by (simp add: syncInputFor_def syncInterval_def retryInterval_def addon_durations)
  ultimately show ?thesis
    by (cases "inLastSyncTime ?i") (simp_all add: decideAddonSync_def Let_def syncInputFor_def not_less)
qed

definition phaseWhile :: "addon \<Rightarrow> string" where
  "phaseWhile a = (if addonPhase (addonStatus a) = phaseSynced then phaseSynced else phaseSyncing)"

lemma setPhase_restates:
  assumes "serves C S" "stored S w (addonAt a) = Some (OAddon a)" "contention S w = 0"
  shows "ensures (setPhase C a (syncingPhaseFor (addonPhase (addonStatus a))))
    (\<lambda>err v. err = None \<and> (\<exists>s. addonPhase s = phaseWhile a \<and> restated S a s w v)) w"
proof -
  let ?f = "\<lambda>s. if syncingPhaseFor (addonPhase (addonStatus a)) = '''' then s
    else s\<lparr>addonPhase := syncingPhaseFor (addonPhase (addonStatus a)), addonMessage := ''''\<rparr>"
  have "addonPhase (?f (addonStatus a)) = phaseWhile a" by (simp add: syncingPhaseFor_def phaseWhile_def)
  then show ?thesis
    unfolding setPhase_def Let_def split_def by (intro ensures_mono [OF write_restates [OF assms]]) blast
qed

definition begun :: "'w cluster \<Rightarrow> 'w store \<Rightarrow> addon \<Rightarrow> syncSpec \<Rightarrow> 'w \<Rightarrow> 'w \<Rightarrow> bool" where
  "begun C S a spec w v \<longleftrightarrow> contention S v = contention S w
     \<and> (\<exists>s j. addonPhase s = phaseWhile a \<and> syncJobFor C a spec j
          \<and> stored S v = (stored S w)(addonAt a \<mapsto> OAddon (a\<lparr>addonStatus := s\<rparr>), syncJobAt a \<mapsto> OJob j))"

lemma start_sync:
  assumes serve: "serves C S" and own: "adopts C" "lawfulOwners C" "readsOwners C"
    and stored: "stored S w (addonAt a) = Some (OAddon a)" and calm: "contention S w = 0"
    and spec: "resolveSyncSpec C a = Inr spec" and due: "syncDue C a" and free: "stored S w (syncJobAt a) = None"
    and late: "\<And>t. LastSyncTime (addonStatus a) = Some t \<Longrightarrow> t + retryInterval a \<le> now"
  shows "ensures (actOnDecision C a ins pvc None (decideAddonSync (syncInputFor C a None now)))
    (\<lambda>out v. out = (addonCreateRequeue, None) \<and> begun C S a spec w v) w"
proof -
  have differ: "addonAt a \<noteq> syncJobAt a" by (simp add: addonAt_def syncJobAt_def)
  have finish: "ensures (do { err \<leftarrow> setPhase C a (syncingPhaseFor (addonPhase (addonStatus a)));
        case err of Some e \<Rightarrow> State_Monad.return (0, Some e) | None \<Rightarrow> State_Monad.return (addonCreateRequeue, None) })
      (\<lambda>out v. out = (addonCreateRequeue, None) \<and> begun C S a spec w v) x"
    if x: "contention S x = contention S w" "syncJobFor C a spec j" "stored S x = (stored S w)(syncJobAt a \<mapsto> OJob j)" for x j
  proof (rule ensures_bind [OF setPhase_restates [OF serve]])
    show "stored S x (addonAt a) = Some (OAddon a)" "contention S x = 0" using x stored calm differ by simp_all
    fix err v
    assume "err = None \<and> (\<exists>s. addonPhase s = phaseWhile a \<and> restated S a s x v)"
    then obtain s cs where s: "err = None" "addonPhase s = phaseWhile a" "contention S v = contention S x"
        "stored S v = (stored S x)(addonAt a \<mapsto> OAddon (a\<lparr>addonStatus := s\<lparr>addonConds := cs\<rparr>\<rparr>))"
      by (auto simp: restated_def)
    have "begun C S a spec w v"
      unfolding begun_def
    proof (intro conjI exI)
      show "stored S v = (stored S w)(addonAt a \<mapsto> OAddon (a\<lparr>addonStatus := s\<lparr>addonConds := cs\<rparr>\<rparr>), syncJobAt a \<mapsto> OJob j)"
        unfolding s(4) x(3) using differ by (simp add: fun_upd_twist)
    qed (use s x in simp_all)
    then show "ensures (case err of Some e \<Rightarrow> State_Monad.return (0, Some e) | None \<Rightarrow> State_Monad.return (addonCreateRequeue, None))
        (\<lambda>out v. out = (addonCreateRequeue, None) \<and> begun C S a spec w v) v"
      unfolding s(1) option.case by (intro ensures_return) simp
  qed
  have dec: "decideAddonSync (syncInputFor C a None now) = decision addonActionCreateJob (syncingPhaseFor (addonPhase (addonStatus a))) '''' False addonCreateRequeue"
    by (rule due_decides [OF spec due]) (rule late)
  show ?thesis
    unfolding dec actOnDecision_def Let_def decision_sel addonSyncAction.case spec sum.case
    by (rule ensures_bind [OF create_sync_job [OF serve own free]]) (auto intro!: finish)
qed

section \<open>Recording the outcome\<close>

text \<open>The Job is gone and the status of the addon satisfies \<open>P\<close>; nothing else has changed.\<close>

definition syncEnded :: "'w store \<Rightarrow> addon \<Rightarrow> (addon_status \<Rightarrow> bool) \<Rightarrow> 'w \<Rightarrow> 'w \<Rightarrow> bool" where
  "syncEnded S a P w v \<longleftrightarrow> contention S v = contention S w
     \<and> (\<exists>b. sameAddon a b \<and> P (addonStatus b) \<and> stored S v = (stored S w)(addonAt a \<mapsto> OAddon b, syncJobAt a := None))"

lemma syncEnded_quiet: "quiet S w x \<Longrightarrow> syncEnded S a P x v \<Longrightarrow> syncEnded S a P w v"
  by (simp add: syncEnded_def quiet_def unchanged_def)

lemma retire_removes:
  assumes serve: "serves C S" and job: "syncJobFor L a spec j" "stored S w (syncJobAt a) = Some (OJob j)"
  shows "ensures (retireJob C j q) (\<lambda>out v. out = (q, None) \<and> contention S v = contention S w
    \<and> stored S v = (stored S w)(syncJobAt a := None)) w"
proof -
  have at: "place (OJob j) = syncJobAt a" "metaFinalizers (objMeta (OJob j)) = []"
    using job(1) by (simp_all add: syncJobFor_def place_simps)
  have "ensures (doCall C (Delete (OJob j) (Some (metaUID (jobMeta j))))) (\<lambda>err v. err = None \<and> contention S v = contention S w
      \<and> stored S v = (stored S w)(syncJobAt a := None)) w"
    by (rule ensures_delete [OF serve, where c = "OJob j"]) (use job(2) at in simp_all)
  then have "ensures (deleteJob C j) (\<lambda>err v. err = None \<and> contention S v = contention S w
      \<and> stored S v = (stored S w)(syncJobAt a := None)) w"
    unfolding deleteJob_def by (rule ensures_bind) (auto intro: ensures_return)
  then show ?thesis
    unfolding retireJob_def by (rule ensures_bind) (auto intro: ensures_return)
qed

lemma record_then_retire:
  assumes serve: "serves C S" and job: "syncJobFor L a spec j" "stored S w (syncJobAt a) = Some (OJob j)"
    and b: "stored S w (addonAt a) = Some (OAddon b)" "sameAddon a b" and calm: "contention S w = 0"
    and P: "\<And>cs. P ((mutate (addonStatus b))\<lparr>addonConds := cs\<rparr>)"
  shows "ensures (do {
      err \<leftarrow> writeAddonStatus C b reason msg mutate;
      case err of Some e \<Rightarrow> State_Monad.return (0, Some e) | None \<Rightarrow> retireJob C j q
    }) (\<lambda>out v. out = (q, None) \<and> syncEnded S a P w v) w"
proof (rule ensures_bind [OF write_restates [OF serve]])
  have at: "addonAt b = addonAt a" "addonAt a \<noteq> syncJobAt a" using sameAddon_sel(6) [OF b(2)] by (simp_all add: addonAt_def syncJobAt_def)
  show "stored S w (addonAt b) = Some (OAddon b)" "contention S w = 0" using b calm at by simp_all
  fix err :: "goerr option" and x
  assume "err = None \<and> restated S b (mutate (addonStatus b)) w x"
  then obtain cs where x: "err = None" "contention S x = contention S w"
      "stored S x = (stored S w)(addonAt a \<mapsto> OAddon (b\<lparr>addonStatus := (mutate (addonStatus b))\<lparr>addonConds := cs\<rparr>\<rparr>))"
    by (auto simp: restated_def at)
  have "syncEnded S a P w v" if "contention S v = contention S x" "stored S v = (stored S x)(syncJobAt a := None)" for v
    unfolding syncEnded_def
  proof (intro conjI exI)
    show "stored S v = (stored S w)(addonAt a \<mapsto> OAddon (b\<lparr>addonStatus := (mutate (addonStatus b))\<lparr>addonConds := cs\<rparr>\<rparr>), syncJobAt a := None)"
      by (simp only: that x)
  qed (use that x b(2) P in \<open>simp_all add: sameAddon_status\<close>)
  moreover have "stored S x (syncJobAt a) = Some (OJob j)" using x(3) job(2) at(2) by simp
  ultimately show "ensures (case err of Some e \<Rightarrow> State_Monad.return (0, Some e) | None \<Rightarrow> retireJob C j q)
      (\<lambda>out v. out = (q, None) \<and> syncEnded S a P w v) x"
    unfolding x(1) option.case by (intro ensures_mono [OF retire_removes [OF serve job(1)]]) auto
qed

text \<open>The log of the Job reads \<open>log\<close>.\<close>

definition logReads :: "'w cluster \<Rightarrow> 'w store \<Rightarrow> 'w \<Rightarrow> job \<Rightarrow> string \<Rightarrow> bool" where
  "logReads C S w j log \<longleftrightarrow> (\<forall>v. quiet S w v \<longrightarrow> ensures (readJobLogs C j) (\<lambda>r x. r = Inr log \<and> quiet S v x) v)"

lemma logReadsD: "logReads C S w j log \<Longrightarrow> quiet S w v \<Longrightarrow> ensures (readJobLogs C j) (\<lambda>r x. r = Inr log \<and> quiet S v x) v"
  unfolding logReads_def by blast

lemma logs_quiet:
  assumes "serves C S"
  shows "ensures (readJobLogs C j) (\<lambda>_ v. quiet S w v) w"
proof -
  have pod: "ensures (jobPod C j) (\<lambda>_ v. quiet S w v) w" for w
    unfolding jobPod_def call_defs
    by (rule ensures_bind [OF ensures_passive [OF assms]])
      (auto intro!: ensures_intros split: sum.split option.split)
  have logs: "ensures (podLogs C ns n c t) (\<lambda>_ v. quiet S w v) w" for ns n c t w
    unfolding call_defs by (rule ensures_passive [OF assms]) simp_all
  have "ensures (do { l \<leftarrow> podLogs C ns n c t; case l of Inl e \<Rightarrow> State_Monad.return (Inl e)
      | Inr text \<Rightarrow> State_Monad.return (Inr (take addonLogReadLimit text)) }) (\<lambda>_ v. quiet S w v) x" if "quiet S w x" for ns n c t x
    by (rule ensures_bind [OF logs]) (auto intro!: ensures_return quiet_trans [OF that] split: sum.split)
  then show ?thesis
    unfolding readJobLogs_def
    by (intro ensures_if ensures_return ensures_bind [OF pod]) (auto intro!: ensures_return split: sum.split)
qed

lemma success_recorded:
  assumes serve: "serves C S" and job: "syncJobFor L a spec j" "stored S w (syncJobAt a) = Some (OJob j)"
    and b: "stored S w (addonAt a) = Some (OAddon b)" "sameAddon a b" and calm: "contention S w = 0"
    and log: "logReads C S w j log" "parseSyncOutput log = (commit, modules)" "commit \<noteq> ''''"
  shows "ensures (recordSyncSuccess C b j) (\<lambda>out v. out = (resyncInterval, None)
    \<and> syncEnded S a (\<lambda>s. addonPhase s = phaseSynced \<and> addonReady s \<and> ClonedCommit s = commit \<and> addonStatusModules s = modules
        \<and> addonMessage s = '''') w v) w"
proof -
  have out: "ensures (readSyncOutput C j) (\<lambda>r v. r = Inr (commit, modules) \<and> quiet S w v) w"
    unfolding readSyncOutput_def
    by (rule ensures_bind [OF logReadsD [OF log(1) quiet_refl]]) (use log(2,3) in \<open>auto intro!: ensures_return\<close>)
  let ?m = "\<lambda>now s. s\<lparr>addonPhase := phaseSynced, addonReady := True, ClonedCommit := commit, addonStatusModules := modules,
    addonMessage := '''', LastSyncTime := Some now\<rparr>"
  have rec: "ensures (do { err \<leftarrow> writeAddonStatus C b '''' '''' (?m now);
      case err of Some e \<Rightarrow> State_Monad.return (0, Some e) | None \<Rightarrow> retireJob C j resyncInterval })
    (\<lambda>out v. out = (resyncInterval, None)
      \<and> syncEnded S a (\<lambda>s. addonPhase s = phaseSynced \<and> addonReady s \<and> ClonedCommit s = commit \<and> addonStatusModules s = modules
        \<and> addonMessage s = '''') w v) x" if x: "quiet S w x" for x now
    by (rule ensures_mono [OF record_then_retire [OF serve job(1) _ _ b(2), where w = x and mutate = "?m now"
          and P = "\<lambda>s. addonPhase s = phaseSynced \<and> addonReady s \<and> ClonedCommit s = commit \<and> addonStatusModules s = modules
            \<and> addonMessage s = ''''"]])
      (use job(2) b(1) calm quietD [OF x] syncEnded_quiet [OF x] in auto)
  show ?thesis
    unfolding recordSyncSuccess_def
    apply (rule ensures_bind [OF out])
    apply (elim conjE, simp only: sum.case prod.case)
    apply (rule ensures_bind [OF clock_quiet [OF serve]])
    by (rule rec, erule (1) quiet_trans)
qed

lemma failure_recorded:
  assumes serve: "serves C S" and job: "syncJobFor L a spec j" "stored S w (syncJobAt a) = Some (OJob j)"
    and b: "stored S w (addonAt a) = Some (OAddon b)" "sameAddon a b" and calm: "contention S w = 0"
  shows "ensures (recordSyncFailure C b j) (\<lambda>out v. out = (failureBackoff, None)
    \<and> syncEnded S a (\<lambda>s. addonPhase s = phaseFailed \<and> \<not> addonReady s) w v) w"
proof -
  have finish: "ensures (finishFailedSyncJob C b j reason msg) (\<lambda>out v. out = (failureBackoff, None)
      \<and> syncEnded S a (\<lambda>s. addonPhase s = phaseFailed \<and> \<not> addonReady s) w v) x" if x: "quiet S w x" for x reason msg
  proof -
    let ?m = "\<lambda>now s. s\<lparr>addonPhase := phaseFailed, addonReady := False, addonMessage := msg, LastSyncTime := Some now\<rparr>"
    have "ensures (do { err \<leftarrow> writeAddonStatus C b reason msg (?m now);
        case err of Some e \<Rightarrow> State_Monad.return (0, Some e) | None \<Rightarrow> retireJob C j failureBackoff })
      (\<lambda>out v. out = (failureBackoff, None) \<and> syncEnded S a (\<lambda>s. addonPhase s = phaseFailed \<and> \<not> addonReady s) w v) y"
      if y: "quiet S w y" for y now
      by (rule ensures_mono [OF record_then_retire [OF serve job(1) _ _ b(2), where w = y and mutate = "?m now"
            and P = "\<lambda>s. addonPhase s = phaseFailed \<and> \<not> addonReady s"]])
        (use job(2) b(1) calm quietD [OF y] syncEnded_quiet [OF y] in auto)
    then show ?thesis
      unfolding finishFailedSyncJob_def by (rule ensures_bind [OF clock_quiet [OF serve]]) (rule quiet_trans [OF x])
  qed
  show ?thesis
    unfolding recordSyncFailure_def Let_def by (rule ensures_bind [OF logs_quiet [OF serve]]) (rule finish)
qed

section \<open>Whole passes\<close>

lemma syncJobFor_same: "readsOwners L \<Longrightarrow> sameAddon a b \<Longrightarrow> syncJobFor L b spec j = syncJobFor L a spec j"
  using readsOwnersD [of L "jobMeta j" "jobMeta j" "addonMeta b" "addonMeta a"] by (simp add: syncJobFor_def sameAddon_sel)

lemma canSkip_same: "sameAddon a b \<Longrightarrow> addonStatus b = addonStatus a \<Longrightarrow> canSkipResync b = canSkipResync a"
  by (simp add: canSkipResync_def sameAddon_sel)

text \<open>An addon that can be synced and whose sync is due.\<close>

definition syncable :: "'w cluster \<Rightarrow> 'w store \<Rightarrow> 'w \<Rightarrow> addon \<Rightarrow> syncSpec \<Rightarrow> odoo_instance \<Rightarrow> bool" where
  "syncable C S w a spec ins \<longleftrightarrow> stored S w (addonAt a) = Some (OAddon a) \<and> metaDeleted (addonMeta a) = None \<and> volumeReady S w a ins
     \<and> resolveSyncSpec C a = Inr spec \<and> syncDue C a \<and> stored S w (syncJobAt a) = None \<and> contention S w = 0"

text \<open>The addon is stored with its finalizer and a status that shows the sync, its Job is stored, and nothing else has changed.\<close>

definition syncStarted :: "'w cluster \<Rightarrow> 'w store \<Rightarrow> addon \<Rightarrow> syncSpec \<Rightarrow> 'w \<Rightarrow> 'w \<Rightarrow> bool" where
  "syncStarted C S a spec w v \<longleftrightarrow> contention S v = contention S w
     \<and> (\<exists>b j. sameAddon a b \<and> ContainsFinalizer C (addonMeta b) finalizerOdooAddon \<and> addonPhase (addonStatus b) = phaseWhile a
          \<and> syncJobFor C a spec j \<and> stored S v = (stored S w)(addonAt a \<mapsto> OAddon b, syncJobAt a \<mapsto> OJob j))"

lemma begun_started:
  assumes own: "lawfulFinalizers C" "readsOwners C" and alive: "metaDeleted (addonMeta a) = None"
    and u: "stored S u = (stored S w)(addonAt a \<mapsto> OAddon (holding C a))" "contention S u = contention S w"
    and begun: "begun C S (holding C a) spec u v"
  shows "syncStarted C S a spec w v"
proof -
  let ?h = "holding C a"
  note held = holding_same(1,2) [OF own(1), of a] holding_same(4) [OF own(1) alive]
  note at = sameAddon_sel [OF held(1)]
  from begun obtain s j where sj: "addonPhase s = phaseWhile a" "syncJobFor C a spec j" "contention S v = contention S u"
      "stored S v = (stored S u)(addonAt a \<mapsto> OAddon (?h\<lparr>addonStatus := s\<rparr>), syncJobAt a \<mapsto> OJob j)"
    by (auto simp: begun_def at phaseWhile_def held syncJobFor_same [OF own(2) held(1)])
  show ?thesis
    unfolding syncStarted_def
  proof (intro conjI exI)
    show "stored S v = (stored S w)(addonAt a \<mapsto> OAddon (?h\<lparr>addonStatus := s\<rparr>), syncJobAt a \<mapsto> OJob j)"
      by (simp only: sj(4) u(1) fun_upd_upd)
  qed (use sj u(2) held in \<open>simp_all add: sameAddon_status\<close>)
qed

lemma sync_starts:
  assumes serve: "serves C S" and own: "adopts C" "lawfulOwners C" "lawfulFinalizers C" "readsOwners C"
    and able: "syncable C S w a spec ins"
  shows "ensures (ReconcileAddon C (addonKey a)) (\<lambda>out v. out = (addonCreateRequeue, None) \<and> syncStarted C S a spec w v) w"
proof -
  let ?h = "holding C a"
  have stored: "stored S w (addonAt a) = Some (OAddon a)" and alive: "metaDeleted (addonMeta a) = None"
    and ready: "volumeReady S w a ins" and spec: "resolveSyncSpec C a = Inr spec" and due: "syncDue C a"
    and free: "stored S w (syncJobAt a) = None" and calm: "contention S w = 0"
    using able by (simp_all add: syncable_def)
  note held = holding_same(1,2) [OF own(3), of a]
  note at = sameAddon_sel [OF held(1)]
  have hspec: "resolveSyncSpec C ?h = Inr spec" by (simp only: resolve_same [OF held(1)] spec)
  have hdue: "syncDue C ?h" using due by (simp add: syncDue_def canSkip_same [OF held] held(2) retryInterval_def cong: option.case_cong)
  define B where "B now \<longleftrightarrow> (\<forall>t. LastSyncTime (addonStatus ?h) = Some t \<longrightarrow> t + retryInterval ?h \<le> now)" for now
  have time: "ensures (timeNow C) (\<lambda>now _. B now) v" for v
  proof (cases "LastSyncTime (addonStatus ?h)")
    case None
    then show ?thesis by (simp add: B_def ensures_def)
  next
    case (Some t)
    with hdue have "clockPast C (t + retryInterval ?h)" by (simp add: syncDue_def)
    from clockPastD [OF this] show ?thesis by (rule ensures_mono) (simp add: B_def Some)
  qed
  have sync: "ensures (syncAddon C ?h ins pvc) (\<lambda>out v. out = (addonCreateRequeue, None) \<and> syncStarted C S a spec w v) x"
    if u: "stored S u = (stored S w)(addonAt a \<mapsto> OAddon ?h)" "contention S u = 0" and x: "quiet S u x" for u x pvc
  proof (rule reach_decision [OF serve hspec _ time])
    have "addonAt a \<noteq> syncJobAt a" by (simp add: addonAt_def syncJobAt_def)
    with u free have at_u: "stored S u (addonAt ?h) = Some (OAddon ?h)" "stored S u (syncJobAt ?h) = None" by (simp_all add: at)
    then show "case None of None \<Rightarrow> stored S x (syncJobAt ?h) = None | Some j \<Rightarrow> stored S x (syncJobAt ?h) = Some (OJob j)"
      using quietD [OF x] by simp
    fix now v
    assume v: "quiet S x v" and "B now"
    note uv = quiet_trans [OF x v]
    have "begun C S ?h spec u y" if "begun C S ?h spec v y" for y
      using that quietD [OF uv] by (simp add: begun_def)
    then have "syncStarted C S a spec w y" if "begun C S ?h spec v y" for y
      using begun_started [OF own(3,4) alive u(1)] u(2) calm that by simp
    then show "ensures (actOnDecision C ?h ins pvc None (decideAddonSync (syncInputFor C ?h None now)))
        (\<lambda>out v. out = (addonCreateRequeue, None) \<and> syncStarted C S a spec w v) v"
      using \<open>B now\<close> at_u u(2) quietD [OF uv]
      by (intro ensures_mono [OF start_sync [OF serve own(1,2,4) _ _ hspec hdue]]) (auto simp: B_def)
  qed
  show ?thesis
  proof (rule pass_holds [OF serve own(3) stored alive calm])
    fix u
    assume u: "stored S u = (stored S w)(addonAt a \<mapsto> OAddon ?h)" "contention S u = 0"
    have "volumeReady S u ?h ins" by (rule volumeReady_other [OF ready held(1)]) (simp add: u addonAt_def)
    then show "ensures (reconcileOdooAddon C ?h) (\<lambda>out v. out = (addonCreateRequeue, None) \<and> syncStarted C S a spec w v) u"
      by (rule reach_sync [OF serve]) (rule sync [OF u])
  qed
qed

text \<open>A sync is under way: the addon is stored with its finalizer, and its Job.\<close>

definition syncUnderWay :: "'w cluster \<Rightarrow> 'w store \<Rightarrow> addon \<Rightarrow> syncSpec \<Rightarrow> odoo_instance \<Rightarrow> job \<Rightarrow> 'w \<Rightarrow> bool" where
  "syncUnderWay C S a spec ins j v \<longleftrightarrow> contention S v = 0 \<and> volumeReady S v a ins
     \<and> syncJobFor C a spec j \<and> stored S v (syncJobAt a) = Some (OJob j)
     \<and> (\<exists>b. sameAddon a b \<and> ContainsFinalizer C (addonMeta b) finalizerOdooAddon \<and> stored S v (addonAt a) = Some (OAddon b))"

definition syncVerdict :: "job \<Rightarrow> bool option" where
  "syncVerdict j = (if jobSucceeded j > 0 \<or> upgradeHasCondition j JobComplete then Some True
     else if upgradeHasCondition j JobFailedCond then Some False else None)"

lemma sync_ends:
  assumes serve: "serves C S" and own: "lawfulFinalizers C" "readsOwners C"
    and alive: "metaDeleted (addonMeta a) = None" and spec: "resolveSyncSpec C a = Inr spec"
    and way: "syncUnderWay C S a spec ins j w" and verdict: "syncVerdict j = Some good"
    and rest: "\<And>b v. sameAddon a b \<Longrightarrow> stored S w (addonAt a) = Some (OAddon b) \<Longrightarrow> quiet S w v \<Longrightarrow>
      ensures (if good then recordSyncSuccess C b j else recordSyncFailure C b j) Q v"
  shows "ensures (ReconcileAddon C (addonKey a)) Q w"
proof -
  from way obtain b where calm: "contention S w = 0" and ready: "volumeReady S w a ins" and job: "syncJobFor C a spec j"
      "stored S w (syncJobAt a) = Some (OJob j)" and b: "sameAddon a b" "ContainsFinalizer C (addonMeta b) finalizerOdooAddon"
      "stored S w (addonAt a) = Some (OAddon b)"
    by (auto simp: syncUnderWay_def)
  note at = sameAddon_sel [OF b(1)]
  have bspec: "resolveSyncSpec C b = Inr spec" by (simp only: resolve_same [OF b(1)] spec)
  have mine: "IsControlledBy C (jobMeta j) (addonMeta b)" "mapGet (metaAnnotations (jobMeta j)) annotationSyncSpecHash = syncSpecHash spec"
    using job(1) [folded syncJobFor_same [OF own(2) b(1)]] by (simp_all add: syncJobFor_def)
  have act: "actOnDecision C b ins pvc (Some j) (decideAddonSync (syncInputFor C b (Some j) now))
      = (if good then recordSyncSuccess C b j else recordSyncFailure C b j)" for pvc now
  proof -
    let ?d = "decideAddonSync (syncInputFor C b (Some j) now)"
    have "decAction ?d = (if good then addonActionRecordSuccess else addonActionRecordFailure)"
      using verdict mine by (auto simp: decideAddonSync_def syncInputFor_def observeSyncJob_def bspec syncVerdict_def split: if_splits)
    then show ?thesis by (simp add: actOnDecision_def Let_def withJob_def)
  qed
  have held: "holding C b = b" using b(2) by (simp add: holding_def)
  have sync: "ensures (syncAddon C b ins pvc) Q v" if v: "quiet S w v" for v pvc
  proof (rule reach_decision [OF serve bspec, where jb = "Some j" and B = "\<lambda>_. True"])
    show "case Some j of None \<Rightarrow> stored S v (syncJobAt b) = None | Some i \<Rightarrow> stored S v (syncJobAt b) = Some (OJob i)"
      using job(2) at quietD [OF v] by simp
    show "ensures (actOnDecision C b ins pvc (Some j) (decideAddonSync (syncInputFor C b (Some j) now))) Q x" if "quiet S v x" for now x
      unfolding act by (rule rest [OF b(1,3) quiet_trans [OF v that]])
  qed (simp add: ensures_def)
  have "ensures (reconcileOdooAddon C b) Q v" if v: "stored S v = stored S w" "contention S v = 0" for v
  proof (rule reach_sync [OF serve])
    show "volumeReady S v b ins" by (rule volumeReady_other [OF ready b(1)]) (simp add: v)
    show "ensures (syncAddon C b ins pvc) Q x" if x: "quiet S v x" for x pvc
      by (rule sync) (use quietD [OF x] v calm in \<open>simp add: quiet_def unchanged_def\<close>)
  qed
  then have "ensures (ReconcileAddon C (addonKey b)) Q w"
    by (intro pass_holds [OF serve own(1)]) (use b alive at calm held in \<open>simp_all add: fun_upd_idem\<close>)
  then show ?thesis by (simp add: at)
qed

section \<open>The property\<close>

text \<open>A sync run that can succeed, does, and whose report can be read back.\<close>

definition goodRun :: "remote \<Rightarrow> syncSpec \<Rightarrow> file_system \<Rightarrow> nat \<Rightarrow> bool" where
  "goodRun R s F now \<longleftrightarrow> syncReady R s F now \<and> syncOutcome R s F now = Running \<and> isCommitSHA (headCommit R)
     \<and> list_all moduleNameOk (discovered s (checkedOut R F now))"

text \<open>The status tells what is on the volume: the commit, and the modules linked into the store of the addon.\<close>

definition tellsVolume :: "string \<Rightarrow> string \<Rightarrow> file_system \<Rightarrow> addon_status \<Rightarrow> bool" where
  "tellsVolume x commit G s \<longleftrightarrow> addonPhase s = phaseSynced \<and> addonReady s \<and> ClonedCommit s = commit \<and> addonMessage s = ''''
     \<and> (\<forall>n. visible n \<longrightarrow> n \<in> set (addonStatusModules s) \<longleftrightarrow> pointsInto G (storeDir x) (addonsDir @ [n]))"

lemma tellsVolumeD: "tellsVolume x commit G s \<Longrightarrow> addonPhase s = phaseSynced \<and> ClonedCommit s = commit"
  by (simp add: tellsVolume_def)

definition syncFailed :: "addon_status \<Rightarrow> bool" where
  "syncFailed s \<longleftrightarrow> addonPhase s = phaseFailed \<and> \<not> addonReady s"

lemma syncEnded_mono: "syncEnded S a P w v \<Longrightarrow> (\<And>s. P s \<Longrightarrow> Q s) \<Longrightarrow> syncEnded S a Q w v"
  unfolding syncEnded_def by blast

lemma good_run_recorded:
  assumes serve: "serves C S" and own: "lawfulFinalizers C" "readsOwners C" and able: "syncable C S w a spec ins"
    and way: "syncUnderWay C S a spec ins j v" and verdict: "syncVerdict j = Some True" and good: "goodRun R spec F now"
    and log: "logReads C S v j (log @ nl # textLines (stdout (snd (runSync R spec F now))))"
  shows "ensures (ReconcileAddon C (addonKey a)) (\<lambda>out x. out = (resyncInterval, None)
    \<and> syncEnded S a (tellsVolume (metaName (addonMeta a)) (headCommit R) (files (snd (runSync R spec F now)))) v x) v"
proof -
  have alive: "metaDeleted (addonMeta a) = None" and spec: "resolveSyncSpec C a = Inr spec" using able by (simp_all add: syncable_def)
  have name: "ssAddonName spec = metaName (addonMeta a)" using resolveSyncSpec_Inr [OF spec] by (simp add: defaultedSpec_def Let_def)
  have g: "syncReady R spec F now" "syncOutcome R spec F now = Running" "isCommitSHA (headCommit R)"
      "list_all moduleNameOk (discovered spec (checkedOut R F now))"
    using good by (simp_all add: goodRun_def)
  obtain commit modules where read: "parseSyncOutput (log @ nl # textLines (stdout (snd (runSync R spec F now)))) = (commit, modules)"
    by force
  from sync_report_matches_volume [OF g, of log] read have commit: "commit = headCommit R"
    and modules: "\<And>n. visible n \<Longrightarrow> n \<in> set modules
      \<longleftrightarrow> pointsInto (files (snd (runSync R spec F now))) (storeDir (metaName (addonMeta a))) (addonsDir @ [n])"
    by (simp_all add: split_def name)
  have "commit \<noteq> ''''" using g(3) unfolding commit by (auto simp: isCommitSHA_def)
  note step = success_recorded [OF serve _ _ _ _ _ _ read this]
  show ?thesis
  proof (rule sync_ends [OF serve own alive spec way verdict])
    fix b x
    assume b: "sameAddon a b" "stored S v (addonAt a) = Some (OAddon b)" and x: "quiet S v x"
    have at: "syncJobFor C a spec j" "stored S x (syncJobAt a) = Some (OJob j)" "stored S x (addonAt a) = Some (OAddon b)" "contention S x = 0"
      using way b(2) quietD [OF x] by (simp_all add: syncUnderWay_def)
    have "logReads C S x j (log @ nl # textLines (stdout (snd (runSync R spec F now))))"
      using log quiet_trans [OF x] unfolding logReads_def by blast
    from step [OF at(1-3) b(1) at(4) this]
    show "ensures (if True then recordSyncSuccess C b j else recordSyncFailure C b j) (\<lambda>out y. out = (resyncInterval, None)
      \<and> syncEnded S a (tellsVolume (metaName (addonMeta a)) (headCommit R) (files (snd (runSync R spec F now)))) v y) x"
      unfolding if_True
      by (rule ensures_mono)
        (use commit modules in \<open>auto simp: tellsVolume_def intro: syncEnded_quiet [OF x] syncEnded_mono\<close>)
  qed
qed

lemma bad_run_recorded:
  assumes serve: "serves C S" and own: "lawfulFinalizers C" "readsOwners C" and able: "syncable C S w a spec ins"
    and way: "syncUnderWay C S a spec ins j v" and verdict: "syncVerdict j = Some False"
  shows "ensures (ReconcileAddon C (addonKey a)) (\<lambda>out x. out = (failureBackoff, None) \<and> syncEnded S a syncFailed v x) v"
proof -
  have alive: "metaDeleted (addonMeta a) = None" and spec: "resolveSyncSpec C a = Inr spec" using able by (simp_all add: syncable_def)
  show ?thesis
  proof (rule sync_ends [OF serve own alive spec way verdict])
    fix b x
    assume b: "sameAddon a b" "stored S v (addonAt a) = Some (OAddon b)" and x: "quiet S v x"
    have at: "syncJobFor C a spec j" "stored S x (syncJobAt a) = Some (OJob j)" "stored S x (addonAt a) = Some (OAddon b)" "contention S x = 0"
      using way b(2) quietD [OF x] by (simp_all add: syncUnderWay_def)
    from failure_recorded [OF serve at(1-3) b(1) at(4)]
    show "ensures (if False then recordSyncSuccess C b j else recordSyncFailure C b j) (\<lambda>out y. out = (failureBackoff, None)
      \<and> syncEnded S a syncFailed v y) x"
      unfolding if_False by (rule ensures_mono) (auto simp: syncFailed_def [abs_def] intro: syncEnded_quiet [OF x])
  qed
qed

text \<open>C15: Addons get synced. On an API server that keeps its promises, one pass over an addon whose sync is due, whose spec is
  valid and whose volume is bound, stores the addon with its finalizer and a status that shows the sync, stores a Job that
  the addon controls and that runs the sync program of the spec, changes nothing else, and asks to be called again. Whenever
  that Job has succeeded with a run of the program on the volume, the next pass stores Synced, the commit of the run and
  the modules that are linked on the volume, and removes the Job; whenever it has failed, the pass stores Failed and
  removes the Job.\<close>

theorem addon_gets_synced:
  assumes "serves C S" "adopts C" "lawfulOwners C" "lawfulFinalizers C" "readsOwners C" "syncable C S w a spec ins"
  shows "resultOf (ReconcileAddon C (addonKey a)) w = (addonCreateRequeue, None)
    \<and> syncStarted C S a spec w (worldAfter (ReconcileAddon C (addonKey a)) w)
    \<and> (\<forall>v j. syncUnderWay C S a spec ins j v \<longrightarrow>
        (\<forall>R F now log. syncVerdict j = Some True \<and> goodRun R spec F now
            \<and> logReads C S v j (log @ nl # textLines (stdout (snd (runSync R spec F now)))) \<longrightarrow>
          resultOf (ReconcileAddon C (addonKey a)) v = (resyncInterval, None)
          \<and> syncEnded S a (tellsVolume (metaName (addonMeta a)) (headCommit R) (files (snd (runSync R spec F now)))) v
              (worldAfter (ReconcileAddon C (addonKey a)) v))
        \<and> (syncVerdict j = Some False \<longrightarrow>
          resultOf (ReconcileAddon C (addonKey a)) v = (failureBackoff, None)
          \<and> syncEnded S a syncFailed v (worldAfter (ReconcileAddon C (addonKey a)) v)))"
  using ensures_after [OF sync_starts [OF assms]] ensures_after [OF good_run_recorded [OF assms(1,4-6)]]
    ensures_after [OF bad_run_recorded [OF assms(1,4-6)]] by blast

section \<open>A sync on the concrete server\<close>

text \<open>A server whose pods print \<open>log\<close>.\<close>

definition loggingServer :: "string \<Rightarrow> ref_world cluster" where
  "loggingServer log = kubelib.extend refLib
     \<lparr>api = (\<lambda>r w. case r of PodLogs ns n c t \<Rightarrow> (RText log, w) | _ \<Rightarrow> refAnswer r w),
      hasRecorder = True, hasClientset = True, getenv = (\<lambda>_. ''''), retrySteps = 4, \<dots> = ()\<rparr>"

lemma loggingServer_sel [simp]:
  "api (loggingServer log) = (\<lambda>r w. case r of PodLogs ns n c t \<Rightarrow> (RText log, w) | _ \<Rightarrow> refAnswer r w)"
  "hasClientset (loggingServer log)" "IsControlledBy (loggingServer log) = refControlledBy"
  "ContainsFinalizer (loggingServer log) m f \<longleftrightarrow> f \<in> set (metaFinalizers m)" "ParseURL (loggingServer log) = ParseURL refLib"
  by (simp_all add: loggingServer_def kubelib.defs refLib_def)

lemma loggingServer_lib [simp]: "lawfulOwners (loggingServer log)" "lawfulFinalizers (loggingServer log)"
  by (simp_all add: loggingServer_def)

lemma logging_owners: "adopts (loggingServer log)" "readsOwners (loggingServer log)"
proof -
  show "adopts (loggingServer log)" by (simp add: adopts_def loggingServer_def kubelib.defs refLib_def refSetController_def)
  show "readsOwners (loggingServer log)" by (auto simp: readsOwners_def refControlledBy_def split: option.split)
qed

lemma serves_logging: "serves (loggingServer log) refStore"
  unfolding serves_def
proof (intro allI impI)
  fix r w p v
  assume "api (loggingServer log) r w = (p, v)"
  then show "served r (stored refStore w) (contention refStore w) p (stored refStore v) (contention refStore v)"
    using refServer_serves [of r w p v] by (cases r) (simp_all only: loggingServer_sel refServer_sel req.case served.simps unchanged_def prod.inject)
qed

lemma log_read:
  assumes "stored refStore w (KPod, (metaNamespace (jobMeta j), name)) = Some (OPod p)" "length log \<le> addonLogReadLimit"
  shows "logReads (loggingServer log) refStore w j log"
  unfolding logReads_def
proof (intro allI impI)
  fix v
  assume "quiet refStore w v"
  with assms(1) have "OPod p \<in> set (refListed KPod (metaNamespace (jobMeta j)) v)" by (auto simp: refListed_set dest!: quietD)
  then have "p \<in> set (List.map_filter asPod (refListed KPod (metaNamespace (jobMeta j)) v))" by (force simp: set_map_filter)
  then obtain q qs where pods: "List.map_filter asPod (refListed KPod (metaNamespace (jobMeta j)) v) = q # qs"
    by (metis list.exhaust empty_iff list.set(1))
  have pod: "ensures (jobPod (loggingServer log) j) (\<lambda>r x. (\<exists>q. r = Inr q) \<and> quiet refStore v x) v"
    unfolding jobPod_def call_defs
    by (rule ensures_bind [OF ensures_ask [where Q = "\<lambda>r x. r = Inr (q # qs) \<and> quiet refStore v x"]])
      (auto simp: pods intro!: ensures_return)
  have read: "ensures (podLogs (loggingServer log) ns n c t) (\<lambda>r x. r = Inr log \<and> quiet refStore u x) u" for ns n c t u
    unfolding call_defs by (rule ensures_ask) auto
  show "ensures (readJobLogs (loggingServer log) j) (\<lambda>r x. r = Inr log \<and> quiet refStore v x) v"
    unfolding readJobLogs_def
    apply (rule ensures_if, simp)
    apply (rule ensures_bind [OF pod])
    apply (elim conjE exE, simp only: sum.case)
    apply (rule ensures_bind [OF read])
    apply (elim conjE, simp only: sum.case)
    apply (rule ensures_return, rule conjI, simp only: take_all [OF assms(2)])
    by (erule (1) quiet_trans)
qed

definition acme :: addon where
  "acme = \<lparr>addonMeta = newMeta ''acme'' ''shop'', addonSpec = zeroAddonSpec\<lparr>GitUrl := ''https://host/repo.git'', AddonPath := ''v16'',
     addonInstanceRef := \<lparr>refName = ''shop'', refNamespace = ''''\<rparr>\<rparr>, addonStatus = zeroAddonStatus\<rparr>"

definition acmeShop :: odoo_instance where
  "acmeShop = bareInstance ''shop'' ''shop''"

definition acmeClaim :: pvc where
  "acmeClaim = \<lparr>pvcMeta = newMeta (addonsPVCName ''shop'') ''shop'', pvcAccessModes = [], pvcRequest = '''', pvcStorageClass = None, pvcPhase = ''Bound''\<rparr>"

definition acmeWorld :: ref_world where
  "acmeWorld = refPut (OAddon acme) (refPut (OInstance acmeShop) (refPut (OPVC acmeClaim) \<lparr>refObjects = [], refConflicts = 0\<rparr>))"

lemma resolve_parser: "ParseURL L = ParseURL M \<Longrightarrow> resolveSyncSpec L a = resolveSyncSpec M a"
  by (simp only: resolveSyncSpec_def validateGitUrl_def)

lemma acme_spec: "resolveSyncSpec (loggingServer log) acme = Inr (sampleSync ''v16'')"
proof -
  have "resolveSyncSpec refLib acme = Inr (sampleSync ''v16'')" by code_simp
  then show ?thesis by (simp only: resolve_parser [OF loggingServer_sel(5)])
qed

lemma acme_syncable: "syncable (loggingServer log) refStore acmeWorld acme (sampleSync ''v16'') acmeShop"
proof -
  have names: "addonAt acme = (KAddon, (''shop'', ''acme''))" "syncJobAt acme = (KJob, (''shop'', syncJobName ''acme''))"
      "place (OInstance acmeShop) = (KInstance, (''shop'', ''shop''))" "place (OPVC acmeClaim) = (KPVC, (''shop'', addonsPVCName ''shop''))"
      "place (OAddon acme) = (KAddon, (''shop'', ''acme''))" "metaNamespace (instMeta acmeShop) = ''shop''" "metaName (instMeta acmeShop) = ''shop''"
    by (simp_all add: addonAt_def addonKey_def syncJobAt_def acme_def newMeta_def place_def objKey_def acmeShop_def bareInstance_def acmeClaim_def)
  have world: "refStored acmeWorld = (\<lambda>_. None)((KPVC, (''shop'', addonsPVCName ''shop'')) \<mapsto> OPVC acmeClaim,
      (KInstance, (''shop'', ''shop'')) \<mapsto> OInstance acmeShop, (KAddon, (''shop'', ''acme'')) \<mapsto> OAddon acme)"
    unfolding acmeWorld_def refStored_put names by (simp add: refStored_def [abs_def])
  have acme: "metaDeleted (addonMeta acme) = None" "LastSyncTime (addonStatus acme) = None" "addonPhase (addonStatus acme) = ''''"
      "addonInstanceRef (addonSpec acme) = \<lparr>refName = ''shop'', refNamespace = ''''\<rparr>" "metaNamespace (addonMeta acme) = ''shop''"
    by (simp_all add: acme_def newMeta_def)
  have "volumeReady refStore acmeWorld acme acmeShop" by (simp add: volumeReady_def Let_def acme names world acmeClaim_def)
  moreover have "syncDue (loggingServer log) acme" by (simp add: syncDue_def acme canSkipResync_def Let_def)
  moreover have "contention refStore acmeWorld = 0" by (simp add: acmeWorld_def)
  ultimately show ?thesis by (simp add: syncable_def acme acme_spec names world)
qed


text \<open>Its sync Job has succeeded, and a pod of it is there.\<close>

definition acmePod :: pod where
  "acmePod = \<lparr>podMeta = newMeta ''acme-sync-1'' ''shop'', podPhase = '''', podNodeName = ''''\<rparr>"

definition jobsDone :: "ref_world \<Rightarrow> ref_world" where
  "jobsDone w = (case refStored w (syncJobAt acme) of
     Some (OJob j) \<Rightarrow> refPut (OPod acmePod) (refPut (OJob (j\<lparr>jobSucceeded := 1\<rparr>)) w)
   | _ \<Rightarrow> w)"

lemma jobsDone_under_way:
  assumes "syncStarted (loggingServer log) refStore acme (sampleSync ''v16'') acmeWorld w" "length log \<le> addonLogReadLimit"
  shows "\<exists>j. syncVerdict j = Some True \<and> syncUnderWay (loggingServer log) refStore acme (sampleSync ''v16'') acmeShop j (jobsDone w)
    \<and> logReads (loggingServer log) refStore (jobsDone w) j log"
proof -
  from assms(1) obtain b i where b: "sameAddon acme b" "finalizerOdooAddon \<in> set (metaFinalizers (addonMeta b))"
    and i: "syncJobFor (loggingServer log) acme (sampleSync ''v16'') i"
    and w: "refConflicts w = refConflicts acmeWorld" "refStored w = (refStored acmeWorld)(addonAt acme \<mapsto> OAddon b, syncJobAt acme \<mapsto> OJob i)"
    by (auto simp: syncStarted_def)
  let ?j = "i\<lparr>jobSucceeded := 1\<rparr>"
  have at: "place (OJob ?j) = syncJobAt acme" "place (OPod acmePod) = (KPod, (''shop'', ''acme-sync-1''))" "metaNamespace (jobMeta i) = ''shop''"
    using i by (simp_all add: syncJobFor_def place_simps jobKey_def place_def objKey_def acmePod_def newMeta_def syncJobAt_def acme_def)
  have done_: "jobsDone w = refPut (OPod acmePod) (refPut (OJob ?j) w)" by (simp add: jobsDone_def w(2))
  then have stored: "refStored (jobsDone w) = (refStored acmeWorld)(addonAt acme \<mapsto> OAddon b, syncJobAt acme \<mapsto> OJob ?j,
      (KPod, (''shop'', ''acme-sync-1'')) \<mapsto> OPod acmePod)"
    by (simp add: refStored_put at w(2))
  have able: "volumeReady refStore acmeWorld acme acmeShop" "contention refStore acmeWorld = 0" using acme_syncable [of log] by (simp_all add: syncable_def)
  have calm: "refConflicts (jobsDone w) = 0" using able(2) w(1) by (simp add: done_)
  have "syncVerdict ?j = Some True" by (simp add: syncVerdict_def)
  moreover have "syncUnderWay (loggingServer log) refStore acme (sampleSync ''v16'') acmeShop ?j (jobsDone w)"
    unfolding syncUnderWay_def
  proof (intro conjI exI)
    show "volumeReady refStore (jobsDone w) acme acmeShop"
      using able(1) by (simp add: volumeReady_def Let_def stored addonAt_def syncJobAt_def)
    show "syncJobFor (loggingServer log) acme (sampleSync ''v16'') ?j" using i by (simp add: syncJobFor_def jobKey_def jobCommands_def)
  qed (use b calm in \<open>simp_all add: stored addonAt_def syncJobAt_def\<close>)
  moreover have "logReads (loggingServer log) refStore (jobsDone w) ?j log"
    by (rule log_read [where name = "''acme-sync-1''" and p = acmePod]) (simp_all add: stored at(3) assms(2))
  ultimately show ?thesis by blast
qed

theorem addon_gets_synced_witness:
  "let C = loggingServer (''Cloning'' @ nl # textLines [''modules: crm'', headCommit sampleRemote]);
       w = worldAfter (ReconcileAddon C (''shop'', ''acme'')) acmeWorld in
     resultOf (ReconcileAddon C (''shop'', ''acme'')) acmeWorld = (addonCreateRequeue, None)
     \<and> resultOf (ReconcileAddon C (''shop'', ''acme'')) (jobsDone w) = (resyncInterval, None)
     \<and> syncEnded refStore acme (\<lambda>s. addonPhase s = phaseSynced \<and> ClonedCommit s = replicate 40 CHR ''a'') (jobsDone w)
         (worldAfter (ReconcileAddon C (''shop'', ''acme'')) (jobsDone w))"
proof -
  let ?log = "''Cloning'' @ nl # textLines [''modules: crm'', headCommit sampleRemote]"
  let ?C = "loggingServer ?log"
  have key: "addonKey acme = (''shop'', ''acme'')" by (simp add: addonKey_def acme_def newMeta_def)
  note all = addon_gets_synced [OF serves_logging logging_owners(1) loggingServer_lib logging_owners(2) acme_syncable [of ?log], unfolded key]
  let ?w = "worldAfter (ReconcileAddon ?C (''shop'', ''acme'')) acmeWorld"
  have "length ?log \<le> addonLogReadLimit" by (simp add: addonLogReadLimit_def sampleRemote_def textLines_def)
  then obtain j where j: "syncVerdict j = Some True" "syncUnderWay ?C refStore acme (sampleSync ''v16'') acmeShop j (jobsDone ?w)"
      "logReads ?C refStore (jobsDone ?w) j ?log"
    using jobsDone_under_way conjunct1 [OF conjunct2 [OF all]] by blast
  obtain st where run: "snd (runSync sampleRemote (sampleSync ''v16'') sampleVolume 2) = st" "stdout st = [''modules: crm'', headCommit sampleRemote]"
    by (rule sample_run) auto
  have head: "headCommit sampleRemote = replicate 40 CHR ''a''" by (simp add: sampleRemote_def)
  have "isCommitSHA (headCommit sampleRemote)" "list_all moduleNameOk (discovered (sampleSync ''v16'') (checkedOut sampleRemote sampleVolume 2))"
    unfolding sample_found by code_simp+
  then have good: "goodRun sampleRemote (sampleSync ''v16'') sampleVolume 2" using sample_ready sample_outcome by (simp add: goodRun_def)
  have "logReads ?C refStore (jobsDone ?w) j (''Cloning'' @ nl # textLines (stdout (snd (runSync sampleRemote (sampleSync ''v16'') sampleVolume 2))))"
    using j(3) by (simp only: run)
  note whole = mp [OF spec [OF spec [OF spec [OF spec [OF conjunct1 [OF mp [OF spec [OF spec [OF conjunct2 [OF conjunct2 [OF all]]]] j(2)]]]]]]
      conjI [OF j(1) conjI [OF good this]]]
  from conjunct2 [OF whole] have "syncEnded refStore acme (\<lambda>s. addonPhase s = phaseSynced \<and> ClonedCommit s = replicate 40 CHR ''a'') (jobsDone ?w)
      (worldAfter (ReconcileAddon ?C (''shop'', ''acme'')) (jobsDone ?w))"
    unfolding head by (rule syncEnded_mono) (rule tellsVolumeD)
  with conjunct1 [OF all] conjunct1 [OF whole] show ?thesis unfolding Let_def by blast
qed

end
