(* ===== verification/Spec2Isabelle.thy ===== *)
theory Spec2Isabelle
  imports Conditions Events Admission_Queue Bounded_Names Addon_Controller Instance_Config Instance_Safety Upgrade_Safety
    Backup_Safety Call_Bounds Webhook Operator_Setup Pod_Types Volume_Safety
    Pass_Rest Backup_Progress Rollout_Progress Queue_Progress Addon_Progress
begin

text \<open>
  This development models the operator under \<open>src/\<close>, a Kubernetes controller manager for Odoo, and proves what makes it correct.
  It covers the custom resource types (\<open>src/api/v1\<close>), the four reconcilers with everything they build and decide
  (\<open>src/internal/controller\<close>), the shell scripts of the sync Job with what they do to the addons volume, the admission webhook,
  and the setup of the operator in \<open>src/cmd/main.go\<close>.

  \<^bold>\<open>The program.\<close> An OdooInstance owns a web and a cron Deployment, a Service, a ConfigMap, a disruption budget and two
  volume claims. An OdooAddon is synced from git onto the addons claim by a Job. An OdooUpgrade runs one Odoo upgrade Job, an
  OdooBackup one backup Job or a CronJob. The instance reconciler creates OdooUpgrades of its own: one to initialise the database,
  and one for every new addons revision when \<open>spec.upgrade\<close> is set; the pods move to a revision only after its upgrade has
  succeeded (the gate). Upgrades and backups of an instance wait for each other in a queue per kind.

  \<^bold>\<open>How it is modelled.\<close> A Go string is its list of bytes, a struct a record, a map an association list, an error a value of
  \<open>goerr\<close>. Code that talks to the cluster is a program of the state monad over a record of the world and of the calls made so far
  (\<open>Kube_Client\<close>): each call to the API server, the log endpoint, the event recorder or the clock is a request answered by the
  field \<open>api\<close> of the cluster, an arbitrary function. Theorems about what reconcilers do not do hold for every such function, that is for
  every interleaving with other writers, every failure and every conflict; theorems about what they get done assume \<open>serves\<close>. Code of other packages (controllerutil, apimachinery's
  conditions and quantities, \<open>net/url\<close>, \<open>json.Marshal\<close> of a Job spec) is a field of the same record; what is relied on is stated
  as \<open>lawfulConditions\<close>, \<open>lawfulOwners\<close> and \<open>lawfulFinalizers\<close> in \<open>Kube_Reference\<close>, with a concrete library that satisfies them; progress also needs that \<open>SetControllerReference\<close> accepts an object nobody owns
  (\<open>adopts\<close>) and that \<open>IsControlledBy\<close> reads nothing but owners and the UID (\<open>readsOwners\<close>).

  \<^bold>\<open>Theories.\<close>
  \<^item> Shared: \<open>Prelude\<close> (maps, sorted lists, collections), \<open>Go_Strings\<close>, \<open>Go_Text\<close>, \<open>Go_Utf8\<close>, \<open>Go_Hash\<close> (the standard library
    functions the code calls, FNV-1a and SHA-256 on machine words included), \<open>Kube_Types\<close>, \<open>Api_Types\<close>, \<open>Kube_Client\<close>.
  \<^item> \<open>Kube_Logic\<close>: frames (\<open>only\<close>), weakest preconditions over the history (\<open>wp\<close>), results (\<open>yields\<close>), and the locale
    \<open>justified_calls\<close>, by which a call is right because of earlier answers; it is interpreted for the instance, the upgrade and the
    backup reconciler. \<open>Call_Bounds\<close> counts calls, \<open>Pass_Rest\<close> tells when a pass may ask for no other.
  \<^item> Progress: \<open>Api_Server\<close> (total correctness over the state of the cluster, \<open>ensures\<close>, and what an API server promises,
    \<open>serves\<close>, with a concrete server that keeps it), \<open>Status_Writes\<close> (the locale \<open>status_writer\<close>, the contract of the two status
    writers, and the start of a Job), \<open>Upgrade_Progress\<close> and \<open>Backup_Progress\<close> (single objects), \<open>Queue_Progress\<close> (the whole queue),
    \<open>Rollout_Progress\<close> (the gate and the initialisation with the upgrades they create), \<open>Addon_Progress\<close> (a sync from the
    addon to the modules on the volume and back to its status).
  \<^item> \<open>Conditions\<close> (\<open>conditions.go\<close>), \<open>Events\<close> (\<open>events.go\<close>, \<open>odoobackup_status.go\<close>), \<open>Admission_Queue\<close> (both queue files),
    \<open>Job_State\<close> (how a Job and its log are read), \<open>Bounded_Names\<close> (derived names), \<open>Shell_Quote\<close> (quoting, against a POSIX word
    reader), \<open>Workload_Parts\<close> (shared names, hardened pods).
  \<^item> Addons: \<open>Addon_State\<close> (\<open>odooaddon_state.go\<close>), \<open>Addon_Sync\<close> and \<open>Addon_Job\<close> (\<open>odooaddon_sync.go\<close>), \<open>Addon_Controller\<close>
    (\<open>odooaddon_controller.go\<close>), \<open>Webhook\<close> (\<open>odooaddon_webhook.go\<close>).
  \<^item> Instances: \<open>Instance_Config\<close>, \<open>Instance_Addons\<close> (with \<open>odooinstance_hash.go\<close>), \<open>Instance_Gate\<close>, \<open>Instance_Storage\<close>,
    \<open>Instance_Init\<close>, \<open>Instance_Workload\<close>, \<open>Instance_Cron\<close>, \<open>Instance_Controller\<close>, each after its file, and \<open>Instance_Safety\<close>.
  \<^item> Upgrades: \<open>Upgrade_Job\<close> (\<open>odooupgrade_job.go\<close>, \<open>odooupgrade_script.go\<close>), \<open>Upgrade_Controller\<close>, \<open>Upgrade_Safety\<close>.
  \<^item> Backups: \<open>Backup_Validate\<close>, \<open>Backup_Script\<close>, \<open>Backup_Job\<close>, \<open>Backup_Controller\<close>, \<open>Backup_Safety\<close>.
  \<^item> The addons volume: \<open>Shell_Volume\<close> (a file system of directories, files and links, system calls, the file utilities as lists
    of them), \<open>Shell_Script\<close> (the shell constructs the scripts use: their text and their execution, which records the volume
    after every system call), \<open>Sync_Program\<close> (the two scripts of \<open>odooaddon_sync.go\<close> as such programs), \<open>Sync_Volume\<close>,
    \<open>Sync_Run\<close> and \<open>Sync_Safety\<close> (their parts and the whole sync run), \<open>Volume_History\<close> (the cleanup run and sequences of
    runs), \<open>Volume_Safety\<close> (isolation, the report, a second sync of a commit).
  \<^item> \<open>Pod_Types\<close> (the rules an API server takes a pod template by, and the pods of validated objects).
  \<^item> \<open>Operator_Main\<close> (flags, namespaces, TLS and server options of \<open>main.go\<close>), \<open>Operator_Setup\<close> (the \<open>SetupWithManager\<close> of
    the four controllers and the setup calls of \<open>main\<close>), and this theory, which holds the properties that span components.

  \<^bold>\<open>What is shown.\<close> Instance passes start pods only on a ready database and an allowed addons revision, write nothing but their own
  children, lose no error, and report readiness exactly. Over any number of passes gated pods run only upgraded revisions. The
  upgrade and the backup reconciler refine small phase machines: writes go forward from a copy that was read, success follows a
  succeeded Job, Jobs start only for validated objects whose turn it is; passes of all four reconcilers end within a bound on their calls, and none gives up on an object that is not finished. On an
  API server that keeps its promises, with as many conflicts as the code retries, things also get done: a pass over an upgrade or
  a backup whose turn it is starts its Job, a pass after the Job stores its outcome, the queue drains, a new addons revision
  reaches the pods, a fresh database gets initialised, and an addon whose sync is due ends with the commit and the modules
  of the volume in its status (here without conflicts, since addon writes are not retried within a pass). Addon passes
  stay with their own objects, keep the finalizer until the cleanup had its chance, and delete a Job only after its outcome is
  stored. Every pod of every component is hardened and only web pods receive traffic. Validation accepts exactly what can be run,
  quoting and configuration round-trip, retention keeps the newest dumps in a claim and in a bucket alike, derived names fit.
  The text of the sync and cleanup scripts is the text of the programs the volume theorems are about. A sync leaves exactly the
  links and modules of its commit, reports them, and shows Odoo whole modules at every moment; a failed one changes nothing; no
  sequence of completed runs leaves a dangling link; addons never touch each other's modules. Pods of validated objects are
  well-typed, controllers watch what they write and are woken by what they read, and the manager starts only when all is set up.
  Six theorems record defects: the upload of an S3 backup leaves out the last file of its manifest, a backup with the name of an
  upgrade takes over the Job of the upgrade, a changed schedule does not reach the CronJob, a second sync of a commit keeps
  modules of the layout before, the endpoint of an S3 backup may refer to its secret key, and a scheduled backup of an instance
  without a database is not taken up again when the instance gets one.

  \<^bold>\<open>Bounds.\<close> No loop needs fuel: loops over data are structural recursion or have a measure, and the only loop over the cluster,
  \<open>retry.RetryOnConflict\<close>, runs the body once and again at most \<open>retrySteps\<close> times (four with \<open>retry.DefaultRetry\<close>). Times are
  unbounded integers of nanoseconds; \<open>timeSub\<close> saturates as \<open>time.Time.Sub\<close> does. The file system follows at most forty links
  at the end of a path. A sync run is modelled from a new scratch directory, with the clock ahead of the times of the store and
  with real directories for the modules of the commit (\<open>syncReady\<close>).

  \<^bold>\<open>Not modelled.\<close> The generated deep copies and the registration with the scheme (values are immutable here); the parsing of the
  command line and the workings of the manager, its caches and its servers; log output; resource versions (a write based on a
  stale copy is a conflict answered by the server); \<open>lastTransitionTime\<close> of conditions; the test helpers. Git is a parameter of
  the sync (the tree it leaves and the commit it names, or a failure). Of the file system, links in the middle of a path, the
  times of copied files, modes and owners are left out, and so are sync Jobs of different addons that run at the same time on
  one volume. The backup scripts are modelled as text with their retention loops and the reading of the manifest. A panic on a
  backup without any destination is an error value, and shown not to happen after validation.
\<close>

section \<open>Pods of the whole operator\<close>

text \<open>
  Every pod template the operator can build, over all its components; the index is the instance whose web traffic the pod
  serves, if any.
\<close>

inductive operatorPod :: "'w cluster \<Rightarrow> string option \<Rightarrow> pod_template \<Rightarrow> bool" for C where
  web_pod: "operatorPod C (Some (metaName (instMeta ins))) (buildPodTemplate ins hashes)"
| cron_pod: "operatorPod C None (buildCronPodTemplate ins hashes)"
| sync_pod: "operatorPod C None (jobTemplate (jobSpec (buildSyncJob addon spec opts)))"
| cleanup_pod: "operatorPod C None (jobTemplate (jobSpec (buildCleanupJob addon opts)))"
| upgrade_pod: "operatorPod C None (jobTemplate (jobSpec (buildUpgradeJob up ins database node)))"
| backup_pod: "buildBackupJob C bk ins database node = Some j \<Longrightarrow> operatorPod C None (jobTemplate (jobSpec j))"
| scheduled_pod: "buildBackupCronJob C bk ins database node = Some c \<Longrightarrow> operatorPod C None (jobTemplate (cronJobSpec (cronSpec c)))"

lemma addon_not_selected: "\<not> labelSelects (selectorLabels n) [(labelAddonOwner, m)]"
  by (simp add: labelSelects_def selectorLabels_def)

lemma backup_template:
  assumes "buildBackupJobSpec C bk ins database node = Some s"
  shows "podHardened (templSpec (jobTemplate s)) \<and> \<not> labelSelects (selectorLabels n) (templLabels (jobTemplate s))"
proof -
  from assms obtain p where "buildBackupPodSpec C bk ins database node = Some p" "templSpec (jobTemplate s) = p"
      "templLabels (jobTemplate s) = backupLabels (metaName (bkMeta bk))"
    by (auto simp: buildBackupJobSpec_def)
  moreover from this obtain parts where "backupParts C bk ins database = Some parts" "p = backupPodOf bk ins node parts"
    unfolding buildBackupPodSpec_def by blast
  moreover from this have "podHardened p"
    by (auto elim!: parts_cases simp: pvc_hardened s3_hardened)
  ultimately show ?thesis using backup_not_selected(1) by simp
qed

text \<open>C8: Whatever the operator starts is hardened, and traffic goes to web pods only: every pod template built by any
  component runs as a fixed non-root user under the default seccomp profile with no privilege escalation and all
  capabilities dropped, and the Service of an instance selects it exactly if it is a web pod of that instance.\<close>

theorem operator_pods_hardened:
  assumes "operatorPod C w t"
  shows "podHardened (templSpec t) \<and> (labelSelects (selectorLabels n) (templLabels t) \<longleftrightarrow> w = Some n)"
  using assms
proof cases
  case (web_pod ins hashes)
  then show ?thesis by (auto simp: webTemplate_hardened template_parts podLabels_selected)
next
  case (cron_pod ins hashes)
  then show ?thesis by (simp add: cronTemplate_hardened template_parts cron_not_selected)
next
  case (sync_pod addon spec opts)
  then show ?thesis by (simp add: buildSyncJob_def buildAddonJob_hardened [OF syncWiring_resolves] addon_not_selected)
next
  case (cleanup_pod addon opts)
  then show ?thesis by (simp add: buildCleanupJob_def buildAddonJob_hardened addon_not_selected)
next
  case (upgrade_pod up ins database node)
  then show ?thesis by (simp add: buildUpgradeJob_def newJob_def upgradePod_hardened upgrade_not_selected)
next
  case (backup_pod bk ins database node j)
  then obtain s where "buildBackupJobSpec C bk ins database node = Some s" "jobSpec j = s"
    by (auto simp: buildBackupJob_def newJob_def)
  then show ?thesis using backup_template backup_pod by simp
next
  case (scheduled_pod bk ins database node c)
  then obtain s where "buildBackupJobSpec C bk ins database node = Some s" "cronJobSpec (cronSpec c) = s"
    by (auto simp: buildBackupCronJob_def backupCronJobOf_def)
  then show ?thesis using backup_template scheduled_pod by simp
qed

theorem operator_pods_hardened_witness:
  "\<exists>t. operatorPod (scripted (\<lambda>_. ROk)) (Some ''shop'') t \<and> podHardened (templSpec t) \<and> labelSelects (selectorLabels ''shop'') (templLabels t)
     \<and> \<not> labelSelects (selectorLabels ''other'') (templLabels t)"
proof -
  obtain t where t: "operatorPod (scripted (\<lambda>_. ROk)) (Some ''shop'') t"
    using web_pod [of "scripted (\<lambda>_. ROk)" "bareInstance ''shop'' ''ns''"] by (auto simp: bareInstance_def newMeta_def)
  from operator_pods_hardened [OF t, of "''shop''"] operator_pods_hardened [OF t, of "''other''"] t show ?thesis by auto
qed

section \<open>Two Jobs of one name\<close>

text \<open>
  An OdooUpgrade and an OdooBackup of the same name in the same namespace derive the same Job name, and neither reconciler
  looks at the owner of a Job that already exists: the backup takes the upgrade's Job for its own and reports its success
  although nothing was backed up.
\<close>

lemma job_names_clash: "length n \<le> 59 \<Longrightarrow> backupJobName n = upgradeJobName n"
  by (simp add: backupJobName_def upgradeJobName_def backupBoundedName_def upgradeBoundedName_def)

definition clashUpgrade :: upgrade where
  "clashUpgrade = \<lparr>upMeta = newMeta ''nightly'' ''ns'', upSpec = zeroUpgradeSpec, upStatus = zeroUpgradeStatus\<rparr>"

definition clashJob :: job where
  "clashJob = (buildUpgradeJob clashUpgrade (bareInstance ''shop'' ''ns'') ''shop'' '''')\<lparr>jobSucceeded := 1, jobCompletion := Some 7\<rparr>"

definition clashBackup :: backup where
  "clashBackup = claimBackup\<lparr>bkMeta := newMeta ''nightly'' ''ns'',
     bkStatus := zeroBackupStatus\<lparr>bkPhase := BackupPhaseRunning, bkJobName := backupJobName ''nightly''\<rparr>\<rparr>"

definition clashCluster :: "unit cluster" where
  "clashCluster = (scripted (\<lambda>r. case r of
       Get KBackup key \<Rightarrow> RObj (OBackup clashBackup)
     | Get KJob key \<Rightarrow> if key = (''ns'', metaName (jobMeta clashJob)) then RObj (OJob clashJob) else RErr (ApiError NotFound '''')
     | ListIn k ns l \<Rightarrow> RObjs []
     | _ \<Rightarrow> ROk))\<lparr>hasRecorder := False\<rparr>"

lemma clash_names: "metaName (jobMeta clashJob) = backupJobName ''nightly''" "jobSucceeded clashJob = 1" "jobCompletion clashJob = Some 7"
  using job_names_clash [of "''nightly''"]
  by (simp_all add: clashJob_def buildUpgradeJob_def newJob_def clashUpgrade_def newMeta_def)

lemma clash_answers:
  "api clashCluster (Get KBackup key) s = (RObj (OBackup clashBackup), s)"
  "api clashCluster (Get KJob (''ns'', backupJobName ''nightly'')) s = (RObj (OJob clashJob), s)"
  "api clashCluster (ListIn k ns l) s = (RObjs [], s)" "api clashCluster (StatusUpdate x) s = (ROk, s)"
  "hasRecorder clashCluster = False" "retrySteps clashCluster = 4" "hasClientset clashCluster"
  by (simp_all add: clashCluster_def scripted_def kubelib.defs clash_names)

lemma clash_backup:
  "bkMeta clashBackup = newMeta ''nightly'' ''ns''" "bkSchedule (bkSpec clashBackup) = ''''"
  "bkPhase (bkStatus clashBackup) = BackupPhaseRunning" "bkJobName (bkStatus clashBackup) = backupJobName ''nightly''"
  by (simp_all add: clashBackup_def claimBackup_def)


end
